(* ===== verification/Ki_Prelude.thy ===== *)
theory Ki_Prelude
  imports Main "HOL-Library.Word" "HOL-Library.AList" "HOL-Library.Char_ord"
    "HOL-Library.List_Lexorder" "HOL-Library.Product_Lexorder" "HOL-Library.Monad_Syntax"
    "HOL-Library.Sublist"
begin

text \<open>
  Shared vocabulary of the development: machine integers with the saturating operations the Rust
  code calls, the two standard-library maps (\<open>HashMap\<close> as an association list with distinct
  keys, \<open>BTreeMap\<close> as one kept in key order), the queue operations of \<open>VecDeque\<close>, and the
  collections of rewrite rules the component theories share.

  Rust's \<open>String\<close> is \<^typ>\<open>string\<close>; the order of \<open>BTreeMap\<close> keys is the lexicographic order
  of \<open>HOL-Library.List_Lexorder\<close>. An operation that can reach an \<open>expect\<close> or \<open>unwrap\<close> returns
  an \<^typ>\<open>'a option\<close>, whose \<^const>\<open>None\<close> is the panic.
\<close>

section \<open>Machine integers\<close>

type_synonym u8 = "8 word"
type_synonym u16 = "16 word"
type_synonym u32 = "32 word"
type_synonym u64 = "64 word"
type_synonym i32 = "32 word"

text \<open>\<open>f64\<close> values are carried and never computed with: their IEEE bit pattern.\<close>
type_synonym f64 = "64 word"

text \<open>\<open>serde_json::Value\<close> payloads are opaque to the modelled code: their serialised text.\<close>
type_synonym json = string

type_synonym timestamp_ms = int

text \<open>\<open>saturating_add(1)\<close> and \<open>saturating_sub(1)\<close> on an unsigned integer of any width.\<close>

definition sat_inc :: "'a::len word \<Rightarrow> 'a word" where
  "sat_inc x = (if x = - 1 then x else x + 1)"

definition sat_dec :: "'a::len word \<Rightarrow> 'a word" where
  "sat_dec x = (if x = 0 then 0 else x - 1)"

lemma unat_sat_inc: "unat (sat_inc (x :: 'a::len word)) = min (unat x + 1) (2 ^ LENGTH('a) - 1)"
proof (cases "x = - 1")
  case True
  then show ?thesis by (simp add: sat_inc_def unsigned_minus_1_eq_mask mask_eq_exp_minus_1)
next
  case False
  then have "x + 1 \<noteq> 0"
    by (metis add.inverse_inverse add_eq_0_iff2 minus_equation_iff)
  then have suc: "unat (x + 1) = Suc (unat x)"
    by (simp add: unatSuc add.commute)
  have "unat (x + 1) < 2 ^ LENGTH('a)"
    by (rule unsigned_less)
  with suc have "Suc (unat x) \<le> 2 ^ LENGTH('a) - 1" by simp
  with suc False show ?thesis by (simp add: sat_inc_def)
qed

lemma unat_sat_dec: "unat (sat_dec (x :: 'a::len word)) = unat x - 1"
  by (auto simp: sat_dec_def unat_minus_one)

lemma sat_inc_pos [simp]: "sat_inc (x :: 'a::len word) \<noteq> 0"
proof
  assume "sat_inc x = 0"
  then have "unat (sat_inc x) = 0" by simp
  moreover have "(2::nat) \<le> 2 ^ LENGTH('a)"
    by (metis Suc_leI len_gt_0 one_le_numeral power_increasing power_one_right One_nat_def)
  ultimately show False by (simp add: unat_sat_inc)
qed

lemma sat_inc_ge: "x \<le> sat_inc (x :: 'a::len word)"
proof -
  have "unat x \<le> 2 ^ LENGTH('a) - 1"
    using unsigned_less [of x] by (metis Suc_leI less_Suc_eq_le Suc_diff_1 zero_less_power zero_less_numeral)
  then show ?thesis by (simp add: word_le_nat_alt unat_sat_inc)
qed

lemma sat_inc_gt: "x \<noteq> - 1 \<Longrightarrow> x < sat_inc (x :: 'a::len word)"
  by (metis sat_inc_def sat_inc_ge order.not_eq_order_implies_strict add_cancel_right_right zero_neq_one)

lemma sat_dec_le: "sat_dec x \<le> (x :: 'a::len word)"
  by (simp add: word_le_nat_alt unat_sat_dec)

lemma sat_dec_inc: "x \<noteq> - 1 \<Longrightarrow> sat_dec (sat_inc x) = (x :: 'a::len word)"
  by (metis sat_inc_def sat_dec_def sat_inc_pos add_diff_cancel_right')


section \<open>Maps\<close>

text \<open>
  A \<open>HashMap\<close> is an association list: \<^const>\<open>map_of\<close> looks up, \<^const>\<open>AList.update\<close> inserts
  and \<^const>\<open>AList.delete\<close> removes. The list's order stands for the order in which
  \<open>values()\<close> and \<open>iter()\<close> happen to visit the entries: the theorems quantify over all states,
  so over all iteration orders. \<open>get_mut\<close> with an assignment through the reference is
  \<open>modify\<close>; \<open>values_mut\<close> is \<open>map_values\<close>; \<open>values().filter(..)\<close> is a filter on
  \<open>map snd\<close>.
\<close>

type_synonym ('k, 'v) hashmap = "('k \<times> 'v) list"

definition modify :: "'k \<Rightarrow> ('v \<Rightarrow> 'v) \<Rightarrow> ('k \<times> 'v) list \<Rightarrow> ('k \<times> 'v) list" where
  "modify k f m = map (\<lambda>(k', v). if k' = k then (k', f v) else (k', v)) m"

definition map_values :: "('v \<Rightarrow> 'w) \<Rightarrow> ('k \<times> 'v) list \<Rightarrow> ('k \<times> 'w) list" where
  "map_values f m = map (\<lambda>(k, v). (k, f v)) m"

abbreviation keys :: "('k \<times> 'v) list \<Rightarrow> 'k list" where
  "keys m \<equiv> map fst m"

abbreviation vals :: "('k \<times> 'v) list \<Rightarrow> 'v list" where
  "vals m \<equiv> map snd m"

lemma map_of_modify: "map_of (modify k f m) = (map_of m)(k := map_option f (map_of m k))"
  by (induction m) (auto simp: modify_def fun_eq_iff)

lemma keys_modify [simp]: "keys (modify k f m) = keys m"
  by (induction m) (auto simp: modify_def)

lemma modify_absent_key: "k \<notin> set (keys m) \<Longrightarrow> modify k f m = m"
  by (induction m) (auto simp: modify_def)

lemma modify_conv_update:
  "distinct (keys m) \<Longrightarrow> map_of m k = Some v \<Longrightarrow> modify k f m = AList.update k (f v) m"
proof (induction m)
  case (Cons e m)
  obtain k' v' where e: "e = (k', v')" by (cases e)
  show ?case
  proof (cases "k' = k")
    case True
    with Cons.prems e modify_absent_key [of k m f] show ?thesis by (simp add: modify_def)
  next
    case False
    with Cons e show ?thesis by (simp add: modify_def)
  qed
qed simp

lemma modify_update_new:
  "map_of m k = None \<Longrightarrow> modify k f (AList.update k v m) = AList.update k (f v) m"
  by (induction m) (auto simp: modify_def)

lemma map_of_map_values: "map_of (map_values f m) = map_option f \<circ> map_of m"
  by (induction m) (auto simp: map_values_def fun_eq_iff)

lemma keys_map_values [simp]: "keys (map_values f m) = keys m"
  by (induction m) (auto simp: map_values_def)

lemma vals_map_values [simp]: "vals (map_values f m) = map f (vals m)"
  by (induction m) (auto simp: map_values_def)

lemma map_of_update [simp]: "map_of (AList.update k v m) = (map_of m)(k \<mapsto> v)"
  by (simp add: update_conv')

lemma map_of_delete [simp]: "map_of (AList.delete k m) = (map_of m)(k := None)"
  by (simp add: delete_conv')

lemma distinct_keys_update [simp]:
  "distinct (keys m) \<Longrightarrow> distinct (keys (AList.update k v m))"
  by (rule distinct_update)

lemma distinct_keys_delete [simp]:
  "distinct (keys m) \<Longrightarrow> distinct (keys (AList.delete k m))"
  by (rule distinct_delete)

lemma vals_ran: "distinct (keys m) \<Longrightarrow> set (vals m) = ran (map_of m)"
  by (simp add: ran_distinct)

lemma vals_iff: "distinct (keys m) \<Longrightarrow> v \<in> set (vals m) \<longleftrightarrow> (\<exists>k. map_of m k = Some v)"
  by (simp only: vals_ran) (auto simp: ran_def)

lemma map_of_in_keys: "map_of m k = Some v \<Longrightarrow> k \<in> set (keys m)"
  by (metis domI dom_map_of_conv_image_fst set_map)

text \<open>A \<open>BTreeMap\<close> insertion keeps the entries in key order.\<close>

fun bt_insert :: "'k::linorder \<Rightarrow> 'v \<Rightarrow> ('k \<times> 'v) list \<Rightarrow> ('k \<times> 'v) list" where
  "bt_insert k v [] = [(k, v)]"
| "bt_insert k v ((k', v') # m) =
     (if k < k' then (k, v) # (k', v') # m
      else if k = k' then (k, v) # m
      else (k', v') # bt_insert k v m)"

lemma map_of_bt_insert [simp]: "map_of (bt_insert k v m) = (map_of m)(k \<mapsto> v)"
  by (induction k v m rule: bt_insert.induct) (auto simp: fun_eq_iff)

lemma set_keys_bt_insert [simp]: "fst ` set (bt_insert k v m) = insert k (fst ` set m)"
  by (induction k v m rule: bt_insert.induct) auto

lemma sorted_bt_insert [simp]:
  "sorted_wrt (<) (keys m) \<Longrightarrow> sorted_wrt (<) (keys (bt_insert k v m))"
proof (induction k v m rule: bt_insert.induct)
  case (2 k v k' v' m)
  then show ?case by (auto simp: ball_Un simp del: image_iff dest: order_less_trans)
qed simp

lemma sorted_wrt_distinct: "sorted_wrt (<) xs \<Longrightarrow> distinct (xs :: 'a::linorder list)"
  by (simp add: strict_sorted_iff)

text \<open>\<open>collect::<BTreeSet<_>>()\<close>: the distinct elements in increasing order.\<close>

definition btree_set :: "'a::linorder list \<Rightarrow> 'a list" where
  "btree_set xs = sort (remdups xs)"

lemma set_btree_set [simp]: "set (btree_set xs) = set xs"
  by (simp add: btree_set_def)

lemma distinct_btree_set [simp]: "distinct (btree_set xs)"
  by (simp add: btree_set_def)


section \<open>Queues and lists\<close>

text \<open>\<open>VecDeque::retain(|c| c != x)\<close>.\<close>

definition drop_all :: "'a \<Rightarrow> 'a list \<Rightarrow> 'a list" where
  "drop_all x xs = filter (\<lambda>y. y \<noteq> x) xs"

lemma set_drop_all [simp]: "set (drop_all x xs) = set xs - {x}"
  by (auto simp: drop_all_def)

lemma distinct_drop_all [simp]: "distinct xs \<Longrightarrow> distinct (drop_all x xs)"
  by (simp add: drop_all_def)

lemma drop_all_absent [simp]: "x \<notin> set xs \<Longrightarrow> drop_all x xs = xs"
  by (auto simp: drop_all_def intro!: filter_True)

text \<open>\<open>if !v.contains(x) { v.push(x) }\<close>.\<close>

definition push_new :: "'a list \<Rightarrow> 'a \<Rightarrow> 'a list" where
  "push_new xs x = (if x \<in> set xs then xs else xs @ [x])"

lemma set_push_new [simp]: "set (push_new xs x) = insert x (set xs)"
  by (auto simp: push_new_def)

lemma distinct_push_new [simp]: "distinct xs \<Longrightarrow> distinct (push_new xs x)"
  by (auto simp: push_new_def)

lemma set_fold_push_new [simp]: "set (fold (\<lambda>x acc. push_new acc x) ys xs) = set xs \<union> set ys"
  by (induction ys arbitrary: xs) auto

lemma distinct_fold_push_new [simp]:
  "distinct xs \<Longrightarrow> distinct (fold (\<lambda>x acc. push_new acc x) ys xs)"
  by (induction ys arbitrary: xs) auto

text \<open>\<open>VecDeque::front\<close>, \<open>Vec::first\<close>.\<close>

fun first_opt :: "'a list \<Rightarrow> 'a option" where
  "first_opt [] = None"
| "first_opt (x # _) = Some x"

text \<open>\<open>filter_map\<close> into a list, and \<open>find_map\<close>.\<close>

definition filter_map :: "('a \<Rightarrow> 'b option) \<Rightarrow> 'a list \<Rightarrow> 'b list" where
  "filter_map f xs = List.map_filter f xs"

lemma filter_map_simps [simp]:
  "filter_map f [] = []"
  "filter_map f (x # xs) = (case f x of None \<Rightarrow> filter_map f xs | Some y \<Rightarrow> y # filter_map f xs)"
  by (simp_all add: filter_map_def split: option.split)

lemma set_filter_map: "set (filter_map f xs) = {y. \<exists>x \<in> set xs. f x = Some y}"
  by (induction xs) (auto split: option.splits)

fun find_map :: "('a \<Rightarrow> 'b option) \<Rightarrow> 'a list \<Rightarrow> 'b option" where
  "find_map f [] = None"
| "find_map f (x # xs) = (case f x of None \<Rightarrow> find_map f xs | Some y \<Rightarrow> Some y)"

lemma find_map_None_iff: "find_map f xs = None \<longleftrightarrow> (\<forall>x \<in> set xs. f x = None)"
  by (induction xs) (auto split: option.splits)

lemma find_map_Some: "find_map f xs = Some y \<Longrightarrow> \<exists>x \<in> set xs. f x = Some y"
  by (induction xs) (auto split: option.splits)

text \<open>Collections of rules the component theories add to and their proofs name.\<close>

named_theorems session_defs \<open>definitions of the session reducer and its oracles\<close>
named_theorems work_defs \<open>definitions of the team work coordinator\<close>
named_theorems state_rules \<open>look-up after update, for the stores of the components\<close>

lemmas [state_rules] = map_of_modify map_of_map_values

end
