(* ===== verification/Session_Event.thy ===== *)
theory Session_Event
  imports Ki_Prelude
begin

text \<open>
  The canonical event vocabulary of \<open>crates/aionui-session/src/event.rs\<close>: the variants of
  \<open>SessionEvent\<close> in the source's order with their supporting types, and the two total
  classifiers the persistence layer consults (\<open>classify\<close>, \<open>persist_tier\<close>). A variant of
  another enum is prefixed by its enum's name, which plays the role of Rust's path.
\<close>

section \<open>Supporting types\<close>

text \<open>\<open>UsageBreakdown\<close>: three per-turn counters.\<close>
record usage_breakdown =
  ub_cached_read_tokens :: u64
  ub_cached_write_tokens :: u64
  ub_thought_tokens :: u64

definition usage_is_empty :: "usage_breakdown \<Rightarrow> bool" where
  "usage_is_empty u \<longleftrightarrow>
     u = \<lparr>ub_cached_read_tokens = 0, ub_cached_write_tokens = 0, ub_thought_tokens = 0\<rparr>"

datatype tool_result_content =
    ToolResultContent_Text string
  | ToolResultContent_FilePath string "string option" "string option" "string option"
  | ToolResultContent_Image string "u8 list"

datatype subagent_kind = SubagentKind_Inline | SubagentKind_Spawned string | SubagentKind_Workflow

datatype subagent_task_kind =
  SubagentTaskKind_WorkflowContainer | SubagentTaskKind_AgentContainer | SubagentTaskKind_Other

datatype permission_kind = PermissionKind_Tool | PermissionKind_Auth

datatype message_lifecycle_phase =
    MessageLifecyclePhase_Queued
  | MessageLifecyclePhase_Started
  | MessageLifecyclePhase_Completed
  | MessageLifecyclePhase_Cancelled

datatype plan_status = PlanStatus_Pending | PlanStatus_InProgress | PlanStatus_Completed

datatype plan_priority = PlanPriority_High | PlanPriority_Medium | PlanPriority_Low

record plan_entry =
  pe_content :: string
  pe_status :: plan_status
  pe_priority :: "plan_priority option"

datatype subagent_status =
    SubagentStatus_PendingInit
  | SubagentStatus_Running
  | SubagentStatus_Interrupted
  | SubagentStatus_Completed
  | SubagentStatus_Errored
  | SubagentStatus_Shutdown

definition subagent_is_terminal :: "subagent_status \<Rightarrow> bool" where
  "subagent_is_terminal s \<longleftrightarrow>
     s \<in> {SubagentStatus_Interrupted, SubagentStatus_Completed,
          SubagentStatus_Errored, SubagentStatus_Shutdown}"

datatype truncation_kind =
    TruncationKind_MaxTokens
  | TruncationKind_ContextWindow
  | TruncationKind_MaxTurns
  | TruncationKind_Budget
  | TruncationKind_Truncated

datatype cancel_reason =
    CancelReason_UserCancel
  | CancelReason_BargeIn
  | CancelReason_SocketAbort
  | CancelReason_ToolDenyChain

datatype stop_reason =
    StopReason_EndTurn
  | StopReason_Truncated truncation_kind
  | StopReason_Refused "string option"

datatype turn_outcome =
    TurnOutcome_Completed stop_reason
  | TurnOutcome_Cancelled cancel_reason
  | TurnOutcome_Failed
  | TurnOutcome_EndTurn

datatype provisioning_phase =
    ProvisioningPhase_Injecting
  | ProvisioningPhase_ToolsWaiting
  | ProvisioningPhase_ToolsReady
  | ProvisioningPhase_Degraded string
  | ProvisioningPhase_LoadFailed string

text \<open>\<open>LocalizedText\<close>: a code and its interpolation values (a JSON object).\<close>
record localized_text =
  lt_code :: string
  lt_params :: "(string, json) hashmap"

datatype notice_level = NoticeLevel_Info | NoticeLevel_Warning

datatype item_kind = ItemKind_Text | ItemKind_Thinking | ItemKind_Tool | ItemKind_Image

record truncation_info =
  ti_kind :: truncation_kind
  ti_partial_text :: "string option"

record finalized_message =
  fm_item_id :: string
  fm_kind :: item_kind
  fm_content :: string
  fm_truncation :: "truncation_info option"
  fm_seq :: u64

record checkpoint_entry =
  ce_id :: string
  ce_label :: "string option"
  ce_turn_gen :: "u64 option"

record context_usage_category =
  cuc_name :: string
  cuc_tokens :: u64

record context_usage =
  cu_used :: u64
  cu_max :: u64
  cu_categories :: "context_usage_category list"

record exit_status_lite =
  es_code :: "i32 option"
  es_signal :: "i32 option"

datatype outcome = Outcome_Crashed | Outcome_CleanNoResult | Outcome_FollowResult

text \<open>The catalogue entries of \<open>capability.rs\<close> that \<open>CatalogUpdated\<close> carries, and
  \<open>WorkflowLoopState\<close> of \<open>state.rs\<close>, which \<open>SubagentDetail\<close> carries.\<close>

record model_info =
  mi_id :: string
  mi_name :: string
  mi_description :: "string option"
  mi_reasoning_efforts :: "string list"

record mode_info =
  moi_id :: string
  moi_name :: string
  moi_description :: "string option"

record slash_command_info =
  sci_name :: string
  sci_description :: "string option"

datatype workflow_loop_state =
  WorkflowLoopState_Start | WorkflowLoopState_Progress | WorkflowLoopState_Done


section \<open>The event enum\<close>

text \<open>The arguments of each constructor are the fields of the variant, in their order.
  (Only the \<open>code\<close> and \<open>size\<close> plugins run on this type: it has forty variants.)\<close>

datatype (plugins only: code size) session_event =
    TurnStarted u64
  | Cancel
  | MessageDelta string string
  | ThoughtDelta string string
  | ToolCall string string subagent_kind json "string option"
  | ToolResult string bool "tool_result_content list" "string option"
  | Heartbeat
  | TurnResult bool "u16 option" string u64 turn_outcome
  | Detached "exit_status_lite option" "string option"
  | AdapterSpecific string json
  | Plan "plan_entry list" "string option"
  | Permission string permission_kind "json option" "string option" "json option"
  | PermissionResolved string permission_kind
  | Ask string json
  | AskResolved string
  | PromptAccepted string
  | UsageDelta u64 u64 u64 "f64 option" usage_breakdown "u64 option"
  | Provisioning provisioning_phase
  | Rewound u64
  | ConfigChanged "string option" "string option"
  | CatalogUpdated "model_info list" "mode_info list" "slash_command_info list"
  | SubagentUpdate string "string option" subagent_status "string option" "subagent_task_kind option"
  | SubagentDetail string "string option" "string option" "workflow_loop_state option"
      "string option" "u64 option" "u64 option" "string option"
      "u32 option" "string option" "string option" "u64 option"
  | WorkflowPhase string u32 string
  | Notice notice_level string "localized_text option" "string option"
  | ToolOutputDelta string string
  | TurnDiffUpdated string
  | ItemStarted string item_kind
  | ItemCompleted string "truncation_info option"
  | MessageFinalized finalized_message
  | Snapshot string u64
  | Lagged u64
  | BackendSuspended
  | CheckpointList "checkpoint_entry list"
  | SessionInfo "context_usage option" "string option"
  | SessionTitle string
  | BackendBound "string option"
  | BackendTurnBound string
  | MessageLifecycle string message_lifecycle_phase


section \<open>Persistence routing\<close>

datatype event_class = EventClass_BackendProduced | EventClass_OrchestrationLowered

definition classify :: "session_event \<Rightarrow> event_class" where
  "classify e = (case e of
      TurnStarted _ \<Rightarrow> EventClass_OrchestrationLowered
    | Cancel \<Rightarrow> EventClass_OrchestrationLowered
    | Heartbeat \<Rightarrow> EventClass_OrchestrationLowered
    | Snapshot _ _ \<Rightarrow> EventClass_OrchestrationLowered
    | Lagged _ \<Rightarrow> EventClass_OrchestrationLowered
    | BackendBound _ \<Rightarrow> EventClass_OrchestrationLowered
    | BackendTurnBound _ \<Rightarrow> EventClass_OrchestrationLowered
    | BackendSuspended \<Rightarrow> EventClass_OrchestrationLowered
    | _ \<Rightarrow> EventClass_BackendProduced)"

datatype persist_tier_class =
  PersistTier_Ephemeral | PersistTier_Display | PersistTier_State | PersistTier_DisplayAndState

definition is_raw_timing :: "string \<Rightarrow> bool" where
  "is_raw_timing tag \<longleftrightarrow> tag \<in> {''ttft_ms'', ''elapsed'', ''latency''}"

text \<open>The inner match of \<open>persist_tier\<close>, over the backend-produced events.\<close>

definition produced_tier :: "session_event \<Rightarrow> persist_tier_class" where
  "produced_tier e = (case e of
      MessageDelta _ _ \<Rightarrow> PersistTier_Ephemeral
    | ThoughtDelta _ _ \<Rightarrow> PersistTier_Ephemeral
    | ToolOutputDelta _ _ \<Rightarrow> PersistTier_Ephemeral
    | TurnDiffUpdated _ \<Rightarrow> PersistTier_Ephemeral
    | ItemStarted _ _ \<Rightarrow> PersistTier_Ephemeral
    | ItemCompleted _ _ \<Rightarrow> PersistTier_Ephemeral
    | CheckpointList _ \<Rightarrow> PersistTier_Ephemeral
    | CatalogUpdated _ _ _ \<Rightarrow> PersistTier_Ephemeral
    | SessionInfo _ _ \<Rightarrow> PersistTier_Ephemeral
    | SessionTitle _ \<Rightarrow> PersistTier_Ephemeral
    | SubagentDetail _ _ _ _ _ _ _ _ _ _ _ _ \<Rightarrow> PersistTier_Ephemeral
    | WorkflowPhase _ _ _ \<Rightarrow> PersistTier_Ephemeral
    | Plan _ _ \<Rightarrow> PersistTier_Ephemeral
    | MessageLifecycle _ _ \<Rightarrow> PersistTier_Ephemeral
    | ToolCall _ _ _ _ _ \<Rightarrow> PersistTier_Display
    | ToolResult _ _ _ _ \<Rightarrow> PersistTier_Display
    | UsageDelta _ _ _ _ _ _ \<Rightarrow> PersistTier_Display
    | Provisioning _ \<Rightarrow> PersistTier_Display
    | ConfigChanged _ _ \<Rightarrow> PersistTier_Display
    | Notice _ _ _ _ \<Rightarrow> PersistTier_Display
    | MessageFinalized _ \<Rightarrow> PersistTier_Display
    | TurnResult _ _ _ _ _ \<Rightarrow> PersistTier_DisplayAndState
    | Permission _ _ _ _ _ \<Rightarrow> PersistTier_DisplayAndState
    | PermissionResolved _ _ \<Rightarrow> PersistTier_DisplayAndState
    | Detached _ _ \<Rightarrow> PersistTier_DisplayAndState
    | PromptAccepted _ \<Rightarrow> PersistTier_DisplayAndState
    | Ask _ _ \<Rightarrow> PersistTier_DisplayAndState
    | AskResolved _ \<Rightarrow> PersistTier_DisplayAndState
    | SubagentUpdate _ _ _ _ _ \<Rightarrow> PersistTier_DisplayAndState
    | Rewound _ \<Rightarrow> PersistTier_State
    | AdapterSpecific tag _ \<Rightarrow>
        (if is_raw_timing tag then PersistTier_Ephemeral else PersistTier_Display)
    | _ \<Rightarrow> PersistTier_Ephemeral)"

definition persist_tier :: "session_event \<Rightarrow> persist_tier_class" where
  "persist_tier e = (case classify e of
      EventClass_OrchestrationLowered \<Rightarrow> PersistTier_Ephemeral
    | EventClass_BackendProduced \<Rightarrow> produced_tier e)"

lemma lowered_not_persisted:
  "classify e = EventClass_OrchestrationLowered \<Longrightarrow> persist_tier e = PersistTier_Ephemeral"
  by (simp add: persist_tier_def)

end
