(* ===== verification/Session_State.thy ===== *)
theory Session_State
  imports Session_Event
begin

text \<open>
  The session state machine's state and the derived views on it, \<open>state.rs\<close> of
  \<open>crates/aionui-session\<close>: the four variants of \<open>SessionState\<close>, the reference-counted set of
  pending user actions, the foreground and background rosters of subagents, and the predicates
  the interface reads (\<open>can_send_message\<close>, \<open>can_queue_message\<close>, \<open>can_cancel\<close>,
  \<open>has_foreground_activity\<close>, \<open>background_active\<close>).
\<close>

record requires_action_set =
  waiting_on_approval :: u32
  waiting_on_auth :: u32
  waiting_on_question :: u32

definition default_requires_action :: requires_action_set where
  "default_requires_action =
     \<lparr>waiting_on_approval = 0, waiting_on_auth = 0, waiting_on_question = 0\<rparr>"

record subagent_state =
  sa_ref :: string
  sa_label :: "string option"
  sa_status :: subagent_status
  sa_parent_ref :: "string option"

datatype error_reason =
    ErrorReason_Crashed
  | ErrorReason_EmptyTurn
  | ErrorReason_Backend "u16 option" string

text \<open>The fields of the \<open>Running\<close> variant.\<close>

record running =
  since_epoch :: u64
  saw_substantive_output :: bool
  terminal_result_seen :: bool
  requires_action :: requires_action_set
  subagents :: "subagent_state list"

datatype session_state =
    State_Starting
  | State_Running running
  | State_Error error_reason
  | State_Idle

section \<open>The background roster\<close>

datatype workflow_task_status =
    WorkflowTaskStatus_Running
  | WorkflowTaskStatus_Completed
  | WorkflowTaskStatus_Failed
  | WorkflowTaskStatus_Stopped

definition task_is_terminal :: "workflow_task_status \<Rightarrow> bool" where
  "task_is_terminal s \<longleftrightarrow> s \<noteq> WorkflowTaskStatus_Running"

record workflow_agent_state =
  wa_ref_id :: string
  wa_task_status :: workflow_task_status
  wa_has_lifecycle :: bool
  wa_retain :: "bool option"
  wa_label :: "string option"
  wa_state :: "workflow_loop_state option"
  wa_model :: "string option"
  wa_last_tool_name :: "string option"
  wa_tokens :: "u64 option"
  wa_tool_calls :: "u64 option"

type_synonym roster = "(string, workflow_agent_state) hashmap"

definition background_active :: "roster \<Rightarrow> bool" where
  "background_active r \<longleftrightarrow>
     (\<exists>w \<in> set (vals r). wa_has_lifecycle w \<and> \<not> task_is_terminal (wa_task_status w))"

section \<open>Derived views\<close>

fun is_running :: "session_state \<Rightarrow> bool" where
  "is_running (State_Running _) = True"
| "is_running _ = False"

fun is_terminal_state :: "session_state \<Rightarrow> bool" where
  "is_terminal_state State_Idle = True"
| "is_terminal_state (State_Error _) = True"
| "is_terminal_state _ = False"

definition can_send_message :: "session_state \<Rightarrow> bool" where
  "can_send_message s \<longleftrightarrow> s = State_Idle"

definition set_requires_action :: "requires_action_set \<Rightarrow> bool" where
  "set_requires_action a \<longleftrightarrow>
     waiting_on_approval a > 0 \<or> waiting_on_auth a > 0 \<or> waiting_on_question a > 0"

fun is_requires_action :: "session_state \<Rightarrow> bool" where
  "is_requires_action (State_Running r) = set_requires_action (requires_action r)"
| "is_requires_action _ = False"

definition can_queue_message :: "session_state \<Rightarrow> bool \<Rightarrow> bool" where
  "can_queue_message s accepts_proactive_input \<longleftrightarrow>
     accepts_proactive_input \<and> is_running s \<and> \<not> is_requires_action s"

definition can_cancel :: "session_state \<Rightarrow> bool" where
  "can_cancel s \<longleftrightarrow> s = State_Starting \<or> is_running s"

definition any_subagent_active :: "subagent_state list \<Rightarrow> bool" where
  "any_subagent_active sas \<longleftrightarrow>
     (\<exists>a \<in> set sas. sa_status a \<in> {SubagentStatus_PendingInit, SubagentStatus_Running})"

fun has_foreground_activity :: "session_state \<Rightarrow> bool" where
  "has_foreground_activity State_Starting = True"
| "has_foreground_activity (State_Running r) =
     (\<not> is_requires_action (State_Running r) \<or> any_subagent_active (subagents r))"
| "has_foreground_activity (State_Error _) = False"
| "has_foreground_activity State_Idle = False"

definition is_unrecoverable_resume_error :: "error_reason \<Rightarrow> bool" where
  "is_unrecoverable_resume_error reason = (case reason of
      ErrorReason_Backend _ message \<Rightarrow>
        sublist ''No conversation found'' message
        \<or> sublist ''error_during_execution'' message
        \<or> sublist ''no rollout found for thread id'' message
        \<or> sublist ''thread not found:'' message
    | _ \<Rightarrow> False)"

lemma subagent_active_iff:
  "s \<in> {SubagentStatus_PendingInit, SubagentStatus_Running} \<longleftrightarrow> \<not> subagent_is_terminal s"
  by (cases s) (simp_all add: subagent_is_terminal_def)

lemma default_not_requires_action [simp]: "\<not> set_requires_action default_requires_action"
  by (simp add: set_requires_action_def default_requires_action_def)

lemmas [session_defs] =
  can_send_message_def can_queue_message_def can_cancel_def set_requires_action_def

end
