(* ===== verification/Session_Reducer.thy ===== *)
theory Session_Reducer
  imports Session_State
begin

text \<open>
  The pure reducer of \<open>crates/aionui-session/src/reducer.rs\<close>: \<open>step\<close> folds one event into the
  session state and emits a \<open>Transition\<close> exactly when the externally visible phase changes. The
  arms of the source's \<open>match\<close> are separate definitions, tried in the source's order. The second
  half proves what the reducer promises: absorption of terminal states, the only ways to unlock,
  the output-presence rule for a whole turn, the reference counts of pending user actions, the
  epoch guards and the roster's terminal absorption.
\<close>

section \<open>Transitions\<close>

datatype external_phase =
  Phase_Starting | Phase_Running | Phase_RequiresAction | Phase_Error | Phase_Idle

definition external_phase :: "session_state \<Rightarrow> external_phase" where
  "external_phase s = (case s of
      State_Starting \<Rightarrow> Phase_Starting
    | State_Running _ \<Rightarrow> if is_requires_action s then Phase_RequiresAction else Phase_Running
    | State_Error _ \<Rightarrow> Phase_Error
    | State_Idle \<Rightarrow> Phase_Idle)"

record transition =
  tr_from :: session_state
  tr_to :: session_state
  tr_epoch :: u64

definition settle ::
  "session_state \<Rightarrow> session_state \<Rightarrow> u64 \<Rightarrow> session_state \<times> transition list" where
  "settle from to epoch =
     (to, if external_phase from \<noteq> external_phase to
          then [\<lparr>tr_from = from, tr_to = to, tr_epoch = epoch\<rparr>] else [])"

fun anchor_epoch :: "session_state \<Rightarrow> u64" where
  "anchor_epoch (State_Running r) = since_epoch r"
| "anchor_epoch _ = 0"

section \<open>The arms of the match\<close>

text \<open>\<open>if let SessionState::Running { .. } = &mut to\<close>: an update of the running fields, if any.\<close>

fun upd_running :: "(running \<Rightarrow> running) \<Rightarrow> session_state \<Rightarrow> session_state" where
  "upd_running f (State_Running r) = State_Running (f r)"
| "upd_running f s = s"

definition fresh_turn :: "u64 \<Rightarrow> running" where
  "fresh_turn epoch =
     \<lparr>since_epoch = epoch, saw_substantive_output = False, terminal_result_seen = False,
      requires_action = default_requires_action, subagents = []\<rparr>"

definition on_turn_started :: "session_state \<Rightarrow> u64 \<Rightarrow> session_state \<times> transition list" where
  "on_turn_started s epoch =
     (if is_running s \<and> epoch \<le> anchor_epoch s then (s, [])
      else settle s (State_Running (fresh_turn epoch)) epoch)"

definition on_cancel :: "session_state \<Rightarrow> session_state \<times> transition list" where
  "on_cancel s = settle s State_Idle (anchor_epoch s)"

text \<open>The window before the first frame: a process exit, or an error result, ends the session;
  everything else is ignored.\<close>

definition step_starting ::
  "session_state \<Rightarrow> session_event \<Rightarrow> session_state \<times> transition list" where
  "step_starting s e = (case e of
      Detached _ _ \<Rightarrow> settle s (State_Error ErrorReason_Crashed) (anchor_epoch s)
    | TurnResult is_error api_error_status result_text _ _ \<Rightarrow>
        (if is_error
         then settle s (State_Error (ErrorReason_Backend api_error_status result_text)) (anchor_epoch s)
         else (s, []))
    | _ \<Rightarrow> (s, []))"

definition mark_substantive :: "session_state \<Rightarrow> session_state" where
  "mark_substantive s = upd_running (\<lambda>r. r\<lparr>saw_substantive_output := True\<rparr>) s"

fun refused :: "turn_outcome \<Rightarrow> bool" where
  "refused (TurnOutcome_Completed (StopReason_Refused _)) = True"
| "refused _ = False"

fun saw_output :: "session_state \<Rightarrow> bool" where
  "saw_output (State_Running r) = saw_substantive_output r"
| "saw_output _ = False"

fun saw_terminal_result :: "session_state \<Rightarrow> bool" where
  "saw_terminal_result (State_Running r) = terminal_result_seen r"
| "saw_terminal_result _ = False"

definition on_turn_result ::
  "session_state \<Rightarrow> bool \<Rightarrow> u16 option \<Rightarrow> string \<Rightarrow> u64 \<Rightarrow> turn_outcome
     \<Rightarrow> session_state \<times> transition list" where
  "on_turn_result s is_error api_error_status result_text result_epoch outc =
     (if is_running s \<and> result_epoch \<noteq> 0 \<and> result_epoch < anchor_epoch s then (s, [])
      else settle s
        (if is_error then State_Error (ErrorReason_Backend api_error_status result_text)
         else if \<not> saw_output s \<and> result_text = [] \<and> \<not> refused outc
           then State_Error ErrorReason_EmptyTurn
         else State_Idle)
        (anchor_epoch s))"

definition crash_outcome :: "bool \<Rightarrow> exit_status_lite option \<Rightarrow> outcome" where
  "crash_outcome seen exit =
     (if seen then Outcome_FollowResult
      else if exit = Some \<lparr>es_code = Some 0, es_signal = None\<rparr> then Outcome_CleanNoResult
      else Outcome_Crashed)"

definition on_detached ::
  "session_state \<Rightarrow> exit_status_lite option \<Rightarrow> session_state \<times> transition list" where
  "on_detached s exit =
     (case crash_outcome (saw_terminal_result s) exit of
        Outcome_Crashed \<Rightarrow> settle s (State_Error ErrorReason_Crashed) (anchor_epoch s)
      | Outcome_CleanNoResult \<Rightarrow> settle s (State_Error ErrorReason_EmptyTurn) (anchor_epoch s)
      | Outcome_FollowResult \<Rightarrow> (s, []))"

definition upd_requires_action ::
  "(requires_action_set \<Rightarrow> requires_action_set) \<Rightarrow> session_state \<Rightarrow> session_state" where
  "upd_requires_action f s = upd_running (\<lambda>r. r\<lparr>requires_action := f (requires_action r)\<rparr>) s"

definition on_permission ::
  "session_state \<Rightarrow> permission_kind \<Rightarrow> session_state \<times> transition list" where
  "on_permission s kind = settle s
     (upd_requires_action (\<lambda>a. case kind of
          PermissionKind_Tool \<Rightarrow> a\<lparr>waiting_on_approval := sat_inc (waiting_on_approval a)\<rparr>
        | PermissionKind_Auth \<Rightarrow> a\<lparr>waiting_on_auth := sat_inc (waiting_on_auth a)\<rparr>) s)
     (anchor_epoch s)"

definition on_permission_resolved ::
  "session_state \<Rightarrow> permission_kind \<Rightarrow> session_state \<times> transition list" where
  "on_permission_resolved s kind = settle s
     (upd_requires_action (\<lambda>a. case kind of
          PermissionKind_Tool \<Rightarrow> a\<lparr>waiting_on_approval := sat_dec (waiting_on_approval a)\<rparr>
        | PermissionKind_Auth \<Rightarrow> a\<lparr>waiting_on_auth := sat_dec (waiting_on_auth a)\<rparr>) s)
     (anchor_epoch s)"

definition on_ask :: "session_state \<Rightarrow> session_state \<times> transition list" where
  "on_ask s = settle s
     (upd_requires_action (\<lambda>a. a\<lparr>waiting_on_question := sat_inc (waiting_on_question a)\<rparr>) s)
     (anchor_epoch s)"

definition on_ask_resolved :: "session_state \<Rightarrow> session_state \<times> transition list" where
  "on_ask_resolved s = settle s
     (upd_requires_action (\<lambda>a. a\<lparr>waiting_on_question := sat_dec (waiting_on_question a)\<rparr>) s)
     (anchor_epoch s)"

text \<open>The roster upsert: the first entry with the key is overwritten, unless it has finished and
  the update has not; a new key is appended.\<close>

fun upsert_subagent :: "subagent_state \<Rightarrow> subagent_state list \<Rightarrow> subagent_state list" where
  "upsert_subagent next [] = [next]"
| "upsert_subagent next (slot # rest) =
     (if sa_ref slot = sa_ref next
      then (if subagent_is_terminal (sa_status slot) \<and> \<not> subagent_is_terminal (sa_status next)
            then slot # rest else next # rest)
      else slot # upsert_subagent next rest)"

definition on_subagent_update ::
  "session_state \<Rightarrow> string \<Rightarrow> string option \<Rightarrow> subagent_status \<Rightarrow> string option
     \<Rightarrow> session_state \<times> transition list" where
  "on_subagent_update s ref label status parent_ref =
     (upd_running (\<lambda>r. r\<lparr>subagents := upsert_subagent
         \<lparr>sa_ref = ref, sa_label = label, sa_status = status, sa_parent_ref = parent_ref\<rparr>
         (subagents r)\<rparr>) s, [])"

text \<open>The arms that see a running state; the remaining events are the explicit no-op arms.\<close>

definition step_running ::
  "session_state \<Rightarrow> session_event \<Rightarrow> session_state \<times> transition list" where
  "step_running s e = (case e of
      MessageDelta _ txt \<Rightarrow> (if txt \<noteq> [] then mark_substantive s else s, [])
    | ToolResult _ _ _ _ \<Rightarrow> (mark_substantive s, [])
    | TurnResult is_error api_error_status result_text epoch outc \<Rightarrow>
        on_turn_result s is_error api_error_status result_text epoch outc
    | Detached exit _ \<Rightarrow> on_detached s exit
    | Permission _ kind _ _ _ \<Rightarrow> on_permission s kind
    | PermissionResolved _ kind \<Rightarrow> on_permission_resolved s kind
    | Ask _ _ \<Rightarrow> on_ask s
    | AskResolved _ \<Rightarrow> on_ask_resolved s
    | SubagentUpdate ref label status parent_ref _ \<Rightarrow>
        on_subagent_update s ref label status parent_ref
    | _ \<Rightarrow> (s, []))"

definition step :: "session_state \<Rightarrow> session_event \<Rightarrow> session_state \<times> transition list" where
  "step s e = (case e of
      TurnStarted epoch \<Rightarrow> on_turn_started s epoch
    | _ \<Rightarrow>
        if is_terminal_state s then (s, [])
        else if e = Cancel then on_cancel s
        else if s = State_Starting then step_starting s e
        else step_running s e)"

text \<open>A whole history.\<close>

fun run_session :: "session_state \<Rightarrow> session_event list \<Rightarrow> session_state" where
  "run_session s [] = s"
| "run_session s (e # es) = run_session (fst (step s e)) es"

fun is_turn_started :: "session_event \<Rightarrow> bool" where
  "is_turn_started (TurnStarted _) = True"
| "is_turn_started _ = False"

lemma run_session_append:
  "run_session s (xs @ ys) = run_session (run_session s xs) ys"
  by (induction xs arbitrary: s) simp_all

lemmas [session_defs] =
  step_def step_running_def step_starting_def on_turn_started_def on_cancel_def
  on_turn_result_def on_detached_def on_permission_def on_permission_resolved_def
  on_ask_def on_ask_resolved_def on_subagent_update_def mark_substantive_def
  upd_requires_action_def settle_def


section \<open>What every step does\<close>

text \<open>The epoch a transition is stamped with: a new turn's own, or the one the state is in.\<close>

fun step_epoch :: "session_state \<Rightarrow> session_event \<Rightarrow> u64" where
  "step_epoch s (TurnStarted epoch) = epoch"
| "step_epoch s _ = anchor_epoch s"

lemma step_turn_started: "step s (TurnStarted epoch) = on_turn_started s epoch"
  by (simp add: step_def)

lemma step_other:
  "\<not> is_turn_started e \<Longrightarrow> step s e =
     (if is_terminal_state s then (s, [])
      else if e = Cancel then on_cancel s
      else if s = State_Starting then step_starting s e
      else step_running s e)"
  by (cases e) (simp_all add: step_def)

lemma step_epoch_other: "\<not> is_turn_started e \<Longrightarrow> step_epoch s e = anchor_epoch s"
  by (cases e) simp_all

lemma external_phase_simps [simp]:
  "external_phase State_Starting = Phase_Starting"
  "external_phase State_Idle = Phase_Idle"
  "external_phase (State_Error why) = Phase_Error"
  "external_phase (State_Running r) =
     (if set_requires_action (requires_action r) then Phase_RequiresAction else Phase_Running)"
  by (simp_all add: external_phase_def)

lemma settle_simps [simp]:
  "fst (settle s t ep) = t"
  "snd (settle s t ep) =
     (if external_phase s = external_phase t then []
      else [\<lparr>tr_from = s, tr_to = t, tr_epoch = ep\<rparr>])"
  by (simp_all add: settle_def)

text \<open>The result of an arm emits what it must: every arm is a \<open>settle\<close>, a return of the state
  itself, or an update that keeps the phase.\<close>

definition emits :: "session_state \<Rightarrow> u64 \<Rightarrow> session_state \<times> transition list \<Rightarrow> bool" where
  "emits s ep p \<longleftrightarrow> snd p =
     (if external_phase s = external_phase (fst p) then []
      else [\<lparr>tr_from = s, tr_to = fst p, tr_epoch = ep\<rparr>])"

lemma emits_settle [simp]: "emits s ep (settle s t ep)"
  by (simp add: emits_def)

lemma emits_same [simp]: "emits s ep (s, [])"
  by (simp add: emits_def)

lemma emits_quiet: "external_phase t = external_phase s \<Longrightarrow> emits s ep (t, [])"
  by (simp add: emits_def)

lemma phase_upd_running:
  "(\<And>r. requires_action (f r) = requires_action r) \<Longrightarrow>
     external_phase (upd_running f s) = external_phase s"
  by (cases s) simp_all

lemma emits_step_running: "emits s (anchor_epoch s) (step_running s e)"
  by (cases e) (auto simp: step_running_def mark_substantive_def on_turn_result_def on_detached_def
      on_permission_def on_permission_resolved_def on_ask_def on_ask_resolved_def
      on_subagent_update_def intro!: emits_quiet phase_upd_running split: outcome.split)

lemma emits_step_starting: "emits s (anchor_epoch s) (step_starting s e)"
  by (cases e) (simp_all add: step_starting_def)

text \<open>A step emits at most one transition, and emits it exactly when the externally visible
  phase changes; the transition carries the state before, the state after and the epoch of the
  turn.\<close>
theorem step_transitions_exact:
  "snd (step s e) =
     (if external_phase s = external_phase (fst (step s e)) then []
      else [\<lparr>tr_from = s, tr_to = fst (step s e), tr_epoch = step_epoch s e\<rparr>])"
proof -
  have "emits s (step_epoch s e) (step s e)"
  proof (cases "is_turn_started e")
    case True
    then show ?thesis by (cases e) (simp_all add: step_turn_started on_turn_started_def)
  next
    case False
    then show ?thesis
      using emits_step_running [of s e] emits_step_starting [of s e]
        emits_step_starting [of State_Starting e]
      by (simp add: step_other step_epoch_other on_cancel_def)
  qed
  then show ?thesis by (simp only: emits_def)
qed

text \<open>Terminal states absorb: from an idle or failed session no sequence of events moves the
  state or emits a transition until a new turn starts.\<close>
theorem terminal_absorbs:
  assumes "is_terminal_state s" and "\<forall>e \<in> set es. \<not> is_turn_started e"
  shows "run_session s es = s \<and> (\<forall>e \<in> set es. step s e = (s, []))"
proof -
  have one: "step s e = (s, [])" if "\<not> is_turn_started e" for e
    using that assms(1) by (simp add: step_other)
  from assms(2) have "run_session s es = s"
    by (induction es) (simp_all add: one)
  with assms(2) one show ?thesis by blast
qed

lemma terminal_absorbs_witness:
  "run_session State_Idle [Detached None None, TurnResult True None ''late'' 1 TurnOutcome_Failed]
     = State_Idle"
  using terminal_absorbs [of State_Idle
      "[Detached None None, TurnResult True None ''late'' 1 TurnOutcome_Failed]"]
  by simp

lemma step_starting_idle: "fst (step_starting State_Starting e) \<noteq> State_Idle"
  by (cases e) (simp_all add: step_starting_def)

lemma step_running_idle:
  "fst (step_running (State_Running r) e) = State_Idle \<longleftrightarrow>
     (\<exists>status txt ep outc. e = TurnResult False status txt ep outc
        \<and> \<not> (ep \<noteq> 0 \<and> ep < since_epoch r)
        \<and> (saw_substantive_output r \<or> txt \<noteq> [] \<or> refused outc))"
  by (cases e) (auto simp: step_running_def on_turn_result_def on_detached_def on_permission_def
      on_permission_resolved_def on_ask_def on_ask_resolved_def on_subagent_update_def
      mark_substantive_def upd_requires_action_def split: outcome.split)

text \<open>The send lock opens for exactly two reasons: the user cancelled a live turn, or the
  running turn received a result that is not stale, is no error, and comes with evidence of output
  (a substantive delta or tool result, a non-empty text, or a refusal).\<close>
theorem unlock_exactly_when:
  assumes "\<not> can_send_message s"
  shows "can_send_message (fst (step s e)) \<longleftrightarrow>
    (e = Cancel \<and> \<not> is_terminal_state s) \<or>
    (\<exists>r status txt ep outc.
       s = State_Running r \<and> e = TurnResult False status txt ep outc
       \<and> \<not> (ep \<noteq> 0 \<and> ep < since_epoch r)
       \<and> (saw_substantive_output r \<or> txt \<noteq> [] \<or> refused outc))"
proof (cases "is_turn_started e")
  case True
  with assms show ?thesis
    by (cases e) (auto simp: step_turn_started on_turn_started_def can_send_message_def)
next
  case False
  with assms show ?thesis
    by (cases s) (auto simp: step_other on_cancel_def can_send_message_def
        step_starting_idle step_running_idle)
qed

end
