(* ===== verification/Session_Turns.thy ===== *)
theory Session_Turns
  imports Session_Reducer
begin

text \<open>
  Whole turns of the session reducer: what a run of events between the start of a turn and its end
  leaves in the accumulators of the \<open>Running\<close> state, and what the turn's result is then folded to.
  An event is inside a turn when it neither starts nor ends one. The roster of subagents is read
  through \<open>roster_status\<close>, the reference counts through \<open>tally\<close>, a counter on natural numbers.
\<close>

section \<open>Events inside a turn\<close>

definition inside_turn :: "session_event \<Rightarrow> bool" where
  "inside_turn e = (case e of
      TurnStarted _ \<Rightarrow> False
    | Cancel \<Rightarrow> False
    | TurnResult _ _ _ _ _ \<Rightarrow> False
    | Detached _ _ \<Rightarrow> False
    | _ \<Rightarrow> True)"

definition substantive :: "session_event \<Rightarrow> bool" where
  "substantive e = (case e of
      MessageDelta _ txt \<Rightarrow> txt \<noteq> []
    | ToolResult _ _ _ _ \<Rightarrow> True
    | _ \<Rightarrow> False)"

definition pending_after :: "requires_action_set \<Rightarrow> session_event \<Rightarrow> requires_action_set" where
  "pending_after a e = (case e of
      Permission _ PermissionKind_Tool _ _ _ \<Rightarrow>
        a\<lparr>waiting_on_approval := sat_inc (waiting_on_approval a)\<rparr>
    | Permission _ PermissionKind_Auth _ _ _ \<Rightarrow>
        a\<lparr>waiting_on_auth := sat_inc (waiting_on_auth a)\<rparr>
    | PermissionResolved _ PermissionKind_Tool \<Rightarrow>
        a\<lparr>waiting_on_approval := sat_dec (waiting_on_approval a)\<rparr>
    | PermissionResolved _ PermissionKind_Auth \<Rightarrow>
        a\<lparr>waiting_on_auth := sat_dec (waiting_on_auth a)\<rparr>
    | Ask _ _ \<Rightarrow> a\<lparr>waiting_on_question := sat_inc (waiting_on_question a)\<rparr>
    | AskResolved _ \<Rightarrow> a\<lparr>waiting_on_question := sat_dec (waiting_on_question a)\<rparr>
    | _ \<Rightarrow> a)"

definition roster_after :: "subagent_state list \<Rightarrow> session_event \<Rightarrow> subagent_state list" where
  "roster_after sas e = (case e of
      SubagentUpdate ref label status parent_ref _ \<Rightarrow>
        upsert_subagent
          \<lparr>sa_ref = ref, sa_label = label, sa_status = status, sa_parent_ref = parent_ref\<rparr> sas
    | _ \<Rightarrow> sas)"

definition turn_fold :: "running \<Rightarrow> session_event \<Rightarrow> running" where
  "turn_fold r e =
     r\<lparr>saw_substantive_output := saw_substantive_output r \<or> substantive e,
       requires_action := pending_after (requires_action r) e,
       subagents := roster_after (subagents r) e\<rparr>"

lemma turn_fold_fields [simp]:
  "since_epoch (turn_fold r e) = since_epoch r"
  "saw_substantive_output (turn_fold r e) = (saw_substantive_output r \<or> substantive e)"
  "terminal_result_seen (turn_fold r e) = terminal_result_seen r"
  "requires_action (turn_fold r e) = pending_after (requires_action r) e"
  "subagents (turn_fold r e) = roster_after (subagents r) e"
  by (simp_all add: turn_fold_def)

lemma inside_turn_not_start: "inside_turn e \<Longrightarrow> \<not> is_turn_started e \<and> e \<noteq> Cancel"
  by (cases e) (simp_all add: inside_turn_def)

lemma step_running_inside:
  "inside_turn e \<Longrightarrow> fst (step_running (State_Running r) e) = State_Running (turn_fold r e)"
  by (cases e) (simp_all add: step_running_def inside_turn_def turn_fold_def substantive_def
      pending_after_def roster_after_def mark_substantive_def on_permission_def
      on_permission_resolved_def on_ask_def on_ask_resolved_def on_subagent_update_def
      upd_requires_action_def split: permission_kind.split)

lemma step_inside:
  assumes "inside_turn e"
  shows "fst (step (State_Running r) e) = State_Running (turn_fold r e)"
  using inside_turn_not_start [OF assms] step_running_inside [OF assms] by (simp add: step_other)

lemma run_inside:
  assumes "\<forall>e \<in> set es. inside_turn e"
  shows "run_session (State_Running r) es = State_Running (fold (\<lambda>e r. turn_fold r e) es r)"
  using assms by (induction es arbitrary: r) (simp_all add: step_inside)

lemma fold_turn_fields [simp]:
  "since_epoch (fold (\<lambda>e r. turn_fold r e) es r) = since_epoch r"
  "saw_substantive_output (fold (\<lambda>e r. turn_fold r e) es r) =
     (saw_substantive_output r \<or> (\<exists>e \<in> set es. substantive e))"
  "terminal_result_seen (fold (\<lambda>e r. turn_fold r e) es r) = terminal_result_seen r"
  "requires_action (fold (\<lambda>e r. turn_fold r e) es r) =
     fold (\<lambda>e a. pending_after a e) es (requires_action r)"
  "subagents (fold (\<lambda>e r. turn_fold r e) es r) = fold (\<lambda>e a. roster_after a e) es (subagents r)"
  by (induction es arbitrary: r) auto

lemma turn_opens:
  assumes "is_running s \<Longrightarrow> anchor_epoch s < n"
  shows "fst (step s (TurnStarted n)) = State_Running (fresh_turn n)"
  using assms by (auto simp: step_turn_started on_turn_started_def)

lemma fresh_turn_fields [simp]:
  "since_epoch (fresh_turn n) = n"
  "saw_substantive_output (fresh_turn n) = False"
  "terminal_result_seen (fresh_turn n) = False"
  "requires_action (fresh_turn n) = default_requires_action"
  "subagents (fresh_turn n) = []"
  by (simp_all add: fresh_turn_def)

lemma turn_opens_idle: "fst (step State_Idle (TurnStarted n)) = State_Running (fresh_turn n)"
  by (rule turn_opens) simp

lemma step_cancel: "\<not> is_terminal_state s \<Longrightarrow> fst (step s Cancel) = State_Idle"
  by (simp add: step_other on_cancel_def)

lemma run_absorbed:
  "is_terminal_state s \<Longrightarrow> \<forall>e \<in> set es. \<not> is_turn_started e \<Longrightarrow> run_session s es = s"
  by (induction es) (simp_all add: step_other)

lemma step_stale_result:
  "k \<noteq> 0 \<Longrightarrow> k < since_epoch r \<Longrightarrow>
     fst (step (State_Running r) (TurnResult is_err status txt k outc)) = State_Running r"
  by (simp add: step_other step_running_def on_turn_result_def)


section \<open>The result of a turn\<close>

text \<open>C3: The output-presence rule, for a whole turn: a turn that starts at epoch n, runs through
  any events inside it and receives a clean result of its own epoch (or an unstamped one) ends
  idle when some event was substantive output, or the result has text, or the model refused, and
  ends as an empty turn otherwise.\<close>
theorem output_presence:
  assumes "is_running s \<Longrightarrow> anchor_epoch s < n"
    and "\<forall>e \<in> set es. inside_turn e"
    and "ep = 0 \<or> n \<le> ep"
  shows "run_session s (TurnStarted n # es @ [TurnResult False status txt ep outc]) =
    (if (\<exists>e \<in> set es. substantive e) \<or> txt \<noteq> [] \<or> refused outc then State_Idle
     else State_Error ErrorReason_EmptyTurn)"
  using assms(2,3)
  by (auto simp: run_session_append turn_opens [OF assms(1)] run_inside step_other
      step_running_def on_turn_result_def not_less)

lemma output_presence_witness:
  "run_session State_Idle
     [TurnStarted 4, ThoughtDelta ''i'' ''hm'', MessageDelta ''i'' [],
      TurnResult False None [] 4 TurnOutcome_EndTurn] = State_Error ErrorReason_EmptyTurn"
  using output_presence [of State_Idle 4 "[ThoughtDelta ''i'' ''hm'', MessageDelta ''i'' []]" 4
      None "[]" TurnOutcome_EndTurn]
  by (simp add: inside_turn_def substantive_def)

text \<open>A cancelled turn cannot hurt the next one: after a cancel and anything the dying backend
  still emits (its exit included), the next turn runs as if nothing had happened, and a result of
  the cancelled turn flushed late into it (a non-zero epoch below the new turn's) is dropped.\<close>
theorem cancelled_turn_harmless:
  assumes "\<not> is_terminal_state s" and "\<forall>e \<in> set late. \<not> is_turn_started e"
    and "\<forall>e \<in> set es. inside_turn e" and "0 < k" and "k < n"
  shows "run_session s
      (Cancel # late @ TurnStarted n # es @ [TurnResult is_err status txt k outc]) =
    run_session (State_Running (fresh_turn n)) es"
proof -
  have "k \<noteq> 0" using assms(4) by auto
  with assms show ?thesis
    by (simp add: run_session_append step_cancel run_absorbed turn_opens_idle run_inside
        step_stale_result)
qed

lemma cancelled_turn_harmless_witness:
  "run_session (State_Running (fresh_turn 1))
     [Cancel, Detached None None, TurnStarted 2, TurnResult True None ''killed'' 1 TurnOutcome_Failed]
   = State_Running (fresh_turn 2)"
  using cancelled_turn_harmless [of "State_Running (fresh_turn 1)" "[Detached None None]" "[]" 1 2
      True None "''killed''" TurnOutcome_Failed]
  by simp


section \<open>Reachable states\<close>

inductive session_reach :: "session_state \<Rightarrow> bool" where
  reach_init: "session_reach State_Starting"
| reach_idle: "session_reach State_Idle"
| reach_step: "session_reach s \<Longrightarrow> session_reach (fst (step s e))"

definition running_ok :: "running \<Rightarrow> bool" where
  "running_ok r \<longleftrightarrow> \<not> terminal_result_seen r \<and> distinct (map sa_ref (subagents r))"

fun state_ok :: "session_state \<Rightarrow> bool" where
  "state_ok (State_Running r) = running_ok r"
| "state_ok _ = True"

lemma refs_upsert:
  "sa_ref ` set (upsert_subagent n sas) = insert (sa_ref n) (sa_ref ` set sas)"
  by (induction n sas rule: upsert_subagent.induct) auto

lemma distinct_upsert:
  "distinct (map sa_ref sas) \<Longrightarrow> distinct (map sa_ref (upsert_subagent n sas))"
proof (induction n sas rule: upsert_subagent.induct)
  case (2 n slot rest)
  have "sa_ref ` set (upsert_subagent n rest) = insert (sa_ref n) (sa_ref ` set rest)"
    by (rule refs_upsert)
  with 2 show ?case by auto
qed simp

lemma distinct_roster_after:
  "distinct (map sa_ref sas) \<Longrightarrow> distinct (map sa_ref (roster_after sas e))"
  by (cases e) (simp_all add: roster_after_def distinct_upsert)

lemma step_running_ended:
  "\<not> inside_turn e \<Longrightarrow> e \<noteq> Cancel \<Longrightarrow> \<not> is_turn_started e \<Longrightarrow>
     fst (step_running (State_Running r) e) = State_Running r
       \<or> is_terminal_state (fst (step_running (State_Running r) e))"
  by (cases e) (auto simp: inside_turn_def step_running_def on_turn_result_def on_detached_def
      split: outcome.split)

lemma step_starting_ok: "state_ok (fst (step_starting State_Starting e))"
  by (cases e) (simp_all add: step_starting_def)

lemma terminal_state_ok: "is_terminal_state s \<Longrightarrow> state_ok s"
  by (cases s) simp_all

lemma step_ok:
  assumes "state_ok s"
  shows "state_ok (fst (step s e))"
proof (cases "is_turn_started e")
  case True
  with assms show ?thesis
    by (cases e) (auto simp: step_turn_started on_turn_started_def running_ok_def)
next
  case False
  show ?thesis
  proof (cases s)
    case (State_Running r)
    show ?thesis
    proof (cases "inside_turn e")
      case True
      with assms State_Running show ?thesis
        by (simp add: step_inside running_ok_def distinct_roster_after)
    next
      case outside: False
      then show ?thesis
        using assms False State_Running step_running_ended [of e r]
        by (auto simp: step_other on_cancel_def terminal_state_ok)
    qed
  qed (use assms False in \<open>simp_all add: step_other on_cancel_def step_starting_ok\<close>)
qed

lemma reach_ok: "session_reach s \<Longrightarrow> state_ok s"
  by (induction rule: session_reach.induct) (simp_all add: step_ok)

text \<open>In every reachable running state the process exit ends the turn: the flag that would make
  the reducer ignore it is never set, a signal, a failure code or an unknown exit is a crash, and
  a clean exit without a result is an empty turn.\<close>
theorem exit_ends_running_turn:
  assumes "session_reach (State_Running r)"
  shows "fst (step (State_Running r) (Detached exit summary)) =
    State_Error (if exit = Some \<lparr>es_code = Some 0, es_signal = None\<rparr>
                 then ErrorReason_EmptyTurn else ErrorReason_Crashed)"
  using reach_ok [OF assms]
  by (simp add: running_ok_def step_other step_running_def on_detached_def crash_outcome_def)

lemma exit_ends_running_turn_witness:
  "fst (step (State_Running (fresh_turn 1)) (Detached None None)) = State_Error ErrorReason_Crashed"
proof -
  have "session_reach (State_Running (fresh_turn 1))"
    using reach_step [OF reach_idle, of "TurnStarted 1"] by (simp add: turn_opens_idle)
  from exit_ends_running_turn [OF this, of None None] show ?thesis by simp
qed


section \<open>Epochs\<close>

lemma step_running_epoch:
  "fst (step_running (State_Running r) e) = State_Running r' \<Longrightarrow> since_epoch r' = since_epoch r"
proof (cases "inside_turn e")
  case True
  then show "fst (step_running (State_Running r) e) = State_Running r' \<Longrightarrow> ?thesis"
    by (auto simp: step_running_inside)
next
  case False
  then show "fst (step_running (State_Running r) e) = State_Running r' \<Longrightarrow> ?thesis"
    by (cases e) (auto simp: inside_turn_def step_running_def on_turn_result_def on_detached_def
        split: outcome.splits if_splits)
qed

text \<open>While a session is running its epoch never goes back, and only a turn start with a
  strictly later epoch advances it: a stale or duplicate turn start leaves the state untouched and
  emits nothing.\<close>
theorem epoch_advances_only_by_start:
  assumes "fst (step (State_Running r) e) = State_Running r'"
  shows "since_epoch r \<le> since_epoch r' \<and>
    (since_epoch r' \<noteq> since_epoch r \<longleftrightarrow> (\<exists>n. e = TurnStarted n \<and> since_epoch r < n)) \<and>
    (\<forall>n. e = TurnStarted n \<and> n \<le> since_epoch r \<longrightarrow>
       step (State_Running r) e = (State_Running r, []))"
proof (cases "is_turn_started e")
  case True
  then obtain n where "e = TurnStarted n" by (cases e) simp_all
  with assms show ?thesis
    by (cases "n \<le> since_epoch r") (auto simp: step_turn_started on_turn_started_def)
next
  case False
  moreover from False have "e \<noteq> TurnStarted n" for n by auto
  ultimately show ?thesis
    using assms step_running_epoch [of r e r']
    by (auto simp: step_other on_cancel_def split: if_splits)
qed

lemma epoch_advances_only_by_start_witness:
  "step (State_Running (fresh_turn 5)) (TurnStarted 5) = (State_Running (fresh_turn 5), [])"
proof -
  have "fst (step (State_Running (fresh_turn 5)) (TurnStarted 5)) = State_Running (fresh_turn 5)"
    by (simp add: step_turn_started on_turn_started_def)
  from epoch_advances_only_by_start [OF this] show ?thesis by simp
qed


section \<open>Pending user actions\<close>

text \<open>The tally of a kind of request: one more when raised, one less (never below zero) when
  resolved.\<close>

definition tally :: "(session_event \<Rightarrow> bool) \<Rightarrow> (session_event \<Rightarrow> bool) \<Rightarrow> session_event list \<Rightarrow> nat" where
  "tally raised resolved es =
     fold (\<lambda>e n. if raised e then n + 1 else if resolved e then n - 1 else n) es 0"

definition raises_permission :: "permission_kind \<Rightarrow> session_event \<Rightarrow> bool" where
  "raises_permission k e = (case e of Permission _ k' _ _ _ \<Rightarrow> k' = k | _ \<Rightarrow> False)"

definition resolves_permission :: "permission_kind \<Rightarrow> session_event \<Rightarrow> bool" where
  "resolves_permission k e = (case e of PermissionResolved _ k' \<Rightarrow> k' = k | _ \<Rightarrow> False)"

definition raises_question :: "session_event \<Rightarrow> bool" where
  "raises_question e = (case e of Ask _ _ \<Rightarrow> True | _ \<Rightarrow> False)"

definition resolves_question :: "session_event \<Rightarrow> bool" where
  "resolves_question e = (case e of AskResolved _ \<Rightarrow> True | _ \<Rightarrow> False)"

definition bump ::
  "(session_event \<Rightarrow> bool) \<Rightarrow> (session_event \<Rightarrow> bool) \<Rightarrow> session_event \<Rightarrow> u32 \<Rightarrow> u32" where
  "bump raised resolved e c = (if raised e then sat_inc c else if resolved e then sat_dec c else c)"

lemma pending_after_counts:
  "waiting_on_approval (pending_after a e) = bump (raises_permission PermissionKind_Tool)
     (resolves_permission PermissionKind_Tool) e (waiting_on_approval a)"
  "waiting_on_auth (pending_after a e) = bump (raises_permission PermissionKind_Auth)
     (resolves_permission PermissionKind_Auth) e (waiting_on_auth a)"
  "waiting_on_question (pending_after a e) =
     bump raises_question resolves_question e (waiting_on_question a)"
  by (cases e, auto simp: pending_after_def bump_def raises_permission_def resolves_permission_def
      raises_question_def resolves_question_def split: permission_kind.splits)+

lemma fold_pending_counts:
  "waiting_on_approval (fold (\<lambda>e a. pending_after a e) es a) =
     fold (bump (raises_permission PermissionKind_Tool) (resolves_permission PermissionKind_Tool))
       es (waiting_on_approval a)"
  "waiting_on_auth (fold (\<lambda>e a. pending_after a e) es a) =
     fold (bump (raises_permission PermissionKind_Auth) (resolves_permission PermissionKind_Auth))
       es (waiting_on_auth a)"
  "waiting_on_question (fold (\<lambda>e a. pending_after a e) es a) =
     fold (bump raises_question resolves_question) es (waiting_on_question a)"
  by (induction es arbitrary: a) (simp_all add: pending_after_counts)

lemma fold_bump_tally:
  assumes "unat c + length es < 2 ^ 32"
  shows "unat (fold (bump raised resolved) es c) =
    fold (\<lambda>e n. if raised e then n + 1 else if resolved e then n - 1 else n) es (unat c)"
  using assms
proof (induction es arbitrary: c)
  case (Cons e es)
  have "unat (bump raised resolved e c) =
      (if raised e then unat c + 1 else if resolved e then unat c - 1 else unat c)"
    using Cons.prems by (simp add: bump_def unat_sat_inc unat_sat_dec)
  moreover have "unat (bump raised resolved e c) + length es < 2 ^ 32"
    using Cons.prems calculation by (auto split: if_splits)
  ultimately show ?case using Cons.IH by simp
qed simp

lemma set_requires_action_nat:
  "set_requires_action a \<longleftrightarrow> 0 < unat (waiting_on_approval a) \<or> 0 < unat (waiting_on_auth a)
     \<or> 0 < unat (waiting_on_question a)"
  by (simp add: set_requires_action_def word_less_nat_alt)

text \<open>The pending-action counters count. In a turn of fewer than 2^32 events each counter is
  the number of its requests raised and not yet resolved, and the session asks for the user's
  action exactly while one of the three tallies is positive.\<close>
theorem pending_actions_counted:
  assumes "\<forall>e \<in> set es. inside_turn e" and "length es < 2 ^ 32"
  defines "tools \<equiv> tally (raises_permission PermissionKind_Tool)
      (resolves_permission PermissionKind_Tool) es"
    and "auths \<equiv> tally (raises_permission PermissionKind_Auth)
      (resolves_permission PermissionKind_Auth) es"
    and "questions \<equiv> tally raises_question resolves_question es"
  shows "\<exists>r. run_session (State_Running (fresh_turn n)) es = State_Running r
    \<and> unat (waiting_on_approval (requires_action r)) = tools
    \<and> unat (waiting_on_auth (requires_action r)) = auths
    \<and> unat (waiting_on_question (requires_action r)) = questions
    \<and> (is_requires_action (State_Running r) \<longleftrightarrow> tools > 0 \<or> auths > 0 \<or> questions > 0)"
proof -
  let ?r = "fold (\<lambda>e r. turn_fold r e) es (fresh_turn n)"
  have "unat (waiting_on_approval (requires_action ?r)) = tools"
    "unat (waiting_on_auth (requires_action ?r)) = auths"
    "unat (waiting_on_question (requires_action ?r)) = questions"
    using assms(2) fold_bump_tally [of 0 es]
    by (simp_all add: fold_pending_counts default_requires_action_def tally_def
        tools_def auths_def questions_def)
  then show ?thesis
    using run_inside [OF assms(1), of "fresh_turn n"]
    by (simp add: set_requires_action_nat)
qed

section \<open>The roster of subagents\<close>

definition roster_status :: "subagent_state list \<Rightarrow> string \<Rightarrow> subagent_status option" where
  "roster_status sas ref = map_of (map (\<lambda>a. (sa_ref a, sa_status a)) sas) ref"

lemma roster_status_upsert:
  "roster_status (upsert_subagent new sas) ref =
     (if ref \<noteq> sa_ref new then roster_status sas ref
      else case roster_status sas ref of
          None \<Rightarrow> Some (sa_status new)
        | Some old \<Rightarrow>
            if subagent_is_terminal old \<and> \<not> subagent_is_terminal (sa_status new)
            then Some old else Some (sa_status new))"
  by (induction new sas rule: upsert_subagent.induct) (auto simp: roster_status_def)

lemma roster_terminal_step:
  assumes "roster_status sas ref = Some st" and "subagent_is_terminal st"
  shows "\<exists>st'. roster_status (roster_after sas e) ref = Some st' \<and> subagent_is_terminal st'"
  using assms by (cases e) (auto simp: roster_after_def roster_status_upsert)

lemma roster_terminal_fold:
  assumes "roster_status sas ref = Some st" and "subagent_is_terminal st"
  shows "\<exists>st'. roster_status (fold (\<lambda>e a. roster_after a e) es sas) ref = Some st'
    \<and> subagent_is_terminal st'"
  using assms
proof (induction es arbitrary: sas st)
  case (Cons e es)
  from roster_terminal_step [OF Cons.prems, of e] Cons.IH show ?case by fastforce
qed simp

text \<open>A finished subagent is never resurrected within its turn: once its entry holds a terminal
  status, every later event inside the turn leaves the entry present with a terminal status, and
  the roster never holds two entries for one subagent.\<close>
theorem subagent_terminal_absorbs:
  assumes "session_reach (State_Running r)"
    and "roster_status (subagents r) ref = Some st" and "subagent_is_terminal st"
    and "\<forall>e \<in> set es. inside_turn e"
  shows "\<exists>r' st'. run_session (State_Running r) es = State_Running r'
    \<and> roster_status (subagents r') ref = Some st' \<and> subagent_is_terminal st'
    \<and> distinct (map sa_ref (subagents r'))"
proof -
  have "distinct (map sa_ref (fold (\<lambda>e a. roster_after a e) es (subagents r)))"
    using reach_ok [OF assms(1)]
    by (induction es rule: rev_induct) (simp_all add: running_ok_def distinct_roster_after)
  then show ?thesis
    using roster_terminal_fold [OF assms(2,3), of es] run_inside [OF assms(4), of r] by auto
qed

lemma subagent_terminal_absorbs_witness:
  "\<exists>r'. run_session
      (run_session State_Idle
        [TurnStarted 1, SubagentUpdate ''a'' None SubagentStatus_Errored None None])
      [SubagentUpdate ''a'' None SubagentStatus_Running None None] = State_Running r'
    \<and> roster_status (subagents r') ''a'' = Some SubagentStatus_Errored"
proof -
  let ?e = "SubagentUpdate ''a'' None SubagentStatus_Errored None None"
  let ?late = "SubagentUpdate ''a'' None SubagentStatus_Running None None"
  let ?r = "turn_fold (fresh_turn 1) ?e"
  have s: "run_session State_Idle [TurnStarted 1, ?e] = State_Running ?r"
    by (simp add: turn_opens_idle step_inside inside_turn_def)
  have "session_reach (State_Running ?r)"
    using reach_step [OF reach_step [OF reach_idle, of "TurnStarted 1"], of ?e] s by simp
  from subagent_terminal_absorbs [OF this, of "''a''" SubagentStatus_Errored "[?late]"]
  show ?thesis unfolding s
    by (auto simp: inside_turn_def roster_after_def roster_status_def subagent_is_terminal_def
        step_inside)
qed


section \<open>The abstract phase machine\<close>

text \<open>What the interface is promised of the five phases, without any of the running state's
  memory: a small labelled transition system.\<close>

datatype phase_label = Label_Start | Label_Cancel | Label_Backend

fun event_label :: "session_event \<Rightarrow> phase_label" where
  "event_label e = (if is_turn_started e then Label_Start
     else if e = Cancel then Label_Cancel else Label_Backend)"

inductive phase_step :: "external_phase \<Rightarrow> phase_label \<Rightarrow> external_phase \<Rightarrow> bool" where
  start: "phase_step p Label_Start Phase_Running"
| start_stale: "p = Phase_Running \<or> p = Phase_RequiresAction \<Longrightarrow> phase_step p Label_Start p"
| ended: "p = Phase_Idle \<or> p = Phase_Error \<Longrightarrow> l \<noteq> Label_Start \<Longrightarrow> phase_step p l p"
| cancelled: "p \<noteq> Phase_Error \<Longrightarrow> phase_step p Label_Cancel Phase_Idle"
| starting: "q = Phase_Starting \<or> q = Phase_Error \<Longrightarrow> phase_step Phase_Starting Label_Backend q"
| live: "p = Phase_Running \<or> p = Phase_RequiresAction \<Longrightarrow> q \<noteq> Phase_Starting
     \<Longrightarrow> phase_step p Label_Backend q"

inductive_simps phase_step_idle: "phase_step Phase_Idle l q"
inductive_simps phase_step_cancel: "phase_step p Label_Cancel q"

lemma phase_starting: "fst (step_starting State_Starting e) = State_Starting
    \<or> (\<exists>why. fst (step_starting State_Starting e) = State_Error why)"
  by (cases e) (simp_all add: step_starting_def)

lemma phase_running:
  "fst (step_running (State_Running r) e) \<noteq> State_Starting"
proof (cases "inside_turn e")
  case True
  then show ?thesis by (simp add: step_running_inside)
next
  case False
  then show ?thesis
    by (cases e) (auto simp: inside_turn_def step_running_def on_turn_result_def on_detached_def
        split: outcome.splits)
qed

lemma phase_of_running:
  "external_phase (State_Running r) = Phase_Running
     \<or> external_phase (State_Running r) = Phase_RequiresAction"
  by simp

lemma phase_starting_iff: "external_phase s = Phase_Starting \<longleftrightarrow> s = State_Starting"
  by (cases s) simp_all

lemma phase_sim_running:
  assumes "\<not> is_turn_started e" and "s = State_Running r"
  shows "phase_step (external_phase s) (event_label e) (external_phase (fst (step s e)))"
proof (cases "e = Cancel")
  case True
  with assms show ?thesis
    using phase_of_running [of r] by (auto simp: step_cancel intro!: phase_step.cancelled)
next
  case False
  have "external_phase (fst (step s e)) \<noteq> Phase_Starting"
    using assms False phase_running [of r e] by (simp add: step_other phase_starting_iff)
  then show ?thesis
    using assms False phase_of_running [of r] by (simp only: event_label.simps if_False)
      (rule phase_step.live)
qed

text \<open>C34: The reducer refines the five-phase machine: every step of it, on any state and event, is
  a step of the abstract phase machine under the event's label. So an idle session leaves that
  phase only by a turn start, a failed one too, and the start-up phase is never re-entered.\<close>
theorem step_refines_phases:
  "phase_step (external_phase s) (event_label e) (external_phase (fst (step s e)))"
proof (cases "is_turn_started e")
  case True
  then obtain n where e: "e = TurnStarted n" by (cases e) simp_all
  show ?thesis
    using phase_step.start phase_step.start_stale
    by (cases s) (auto simp: e step_turn_started on_turn_started_def)
next
  case False
  show ?thesis
  proof (cases s)
    case State_Starting
    with False show ?thesis
      using phase_starting [of e]
      by (auto simp: step_other on_cancel_def intro: phase_step.starting phase_step.cancelled)
  next
    case (State_Running r)
    with False show ?thesis by (intro phase_sim_running)
  qed (use False in \<open>auto simp: step_other intro: phase_step.ended\<close>)
qed

end
