(* ===== verification/Orchestrator.thy ===== *)
theory Orchestrator
  imports Session_Reducer
begin

text \<open>
  The orchestrator's fold loop, \<open>backend/orchestrator.rs\<close> of \<open>crates/aionui-session\<close>, with the
  seam types it uses (\<open>backend/types.rs\<close>) and the cold-start rebuild (\<open>backend/rehydrate.rs\<close>).
  One envelope at a time is folded: restamp the epoch, broadcast it, mirror it into the session's
  background roster, step the reducer, prune the foreground roster, and push a full snapshot when
  the phase or the activity bit changed. What the two broadcast channels receive is the returned
  list of \<open>broadcast_item\<close>s, in the order of the sends.

  The channels themselves are tokio's: a subscriber's \<open>recv\<close> results are an argument. So is the
  backend: \<open>dispatch\<close> answers a command with a receipt or an error. \<open>format!("{:?}", state)\<close> is
  an argument too (a printed form nothing reads back).
\<close>

section \<open>The seam types\<close>

datatype content_block =
    ContentBlock_Text string
  | ContentBlock_Image "u8 list" string
  | ContentBlock_Audio "u8 list" string
  | ContentBlock_ResourceLink string "string option"
  | ContentBlock_AtMention string

datatype cancel_target = CancelTarget_Tool string | CancelTarget_Turn | CancelTarget_Session

datatype permission_decision =
    PermissionDecision_Approved
  | PermissionDecision_Denied
  | PermissionDecision_AllowAlways

record question_answer =
  qa_question :: string
  qa_labels :: "string list"

datatype session_info_kind = SessionInfoKind_ContextUsage | SessionInfoKind_SessionCost

record command_meta =
  cm_command_id :: u64
  cm_cwd :: "string option"
  cm_extra_args :: "string list"
  cm_client_msg_id :: "string option"

datatype command =
    Command_Send "content_block list" command_meta
  | Command_Cancel cancel_target
  | Command_Steer "content_block list" "string option"
  | Command_AnswerPermission string permission_decision "string option" "question_answer list"
  | Command_AnswerAsk string "question_answer list option"
  | Command_AnswerAuth string json
  | Command_Acknowledge string
  | Command_SetMode string
  | Command_SetModel string
  | Command_SetConfigOption string string
  | Command_Rewind u32
  | Command_ListCheckpoints
  | Command_QuerySessionInfo session_info_kind

datatype admission = Admission_Started | Admission_Queued | Admission_NoTurn

record command_receipt =
  cr_accepted :: bool
  cr_admission :: admission
  cr_turn_gen :: u64

datatype backend_error =
    BackendError_CommandNotSupported string
  | BackendError_Transport string
  | BackendError_WorkspaceUnavailable string
  | BackendError_SessionNotFound string
  | BackendError_SetupRejected string
  | BackendError_HandshakeTimeout string

record envelope =
  en_session :: string
  en_turn_gen :: u64
  en_event :: session_event

datatype transition_reason =
    TransitionReason_Started
  | TransitionReason_Completed stop_reason
  | TransitionReason_Errored error_reason
  | TransitionReason_Cancelled cancel_reason
  | TransitionReason_PermissionRequested permission_kind
  | TransitionReason_PermissionResolved

record state_snapshot =
  ss_session :: string
  ss_state :: session_state
  ss_can_send :: bool
  ss_has_activity :: bool
  ss_can_queue :: bool
  ss_can_cancel :: bool
  ss_turn_gen :: u64
  ss_last_reason :: "transition_reason option"

record tier2_checkpoint =
  ck_session_id :: string
  ck_backend_session_id :: "string option"
  ck_turn_gen :: u64

definition rehydrate :: "tier2_checkpoint \<Rightarrow> session_state" where
  "rehydrate ck = State_Idle"


section \<open>The stages of a fold\<close>

definition restamp_epoch :: "envelope \<Rightarrow> envelope" where
  "restamp_epoch env = (case en_event env of
      TurnResult is_error api_error_status result_text epoch outc \<Rightarrow>
        if epoch = 0
        then env\<lparr>en_event := TurnResult is_error api_error_status result_text (en_turn_gen env) outc\<rparr>
        else env
    | _ \<Rightarrow> env)"

definition pruned_status :: "subagent_status \<Rightarrow> bool" where
  "pruned_status s \<longleftrightarrow>
     s \<in> {SubagentStatus_Completed, SubagentStatus_Errored, SubagentStatus_Shutdown}"

definition prune_terminal_subagents :: "session_state \<Rightarrow> session_state" where
  "prune_terminal_subagents next = upd_running
     (\<lambda>r. r\<lparr>subagents := filter (\<lambda>a. \<not> pruned_status (sa_status a)) (subagents r)\<rparr>) next"

fun task_status_of :: "subagent_status \<Rightarrow> workflow_task_status" where
  "task_status_of SubagentStatus_PendingInit = WorkflowTaskStatus_Running"
| "task_status_of SubagentStatus_Running = WorkflowTaskStatus_Running"
| "task_status_of SubagentStatus_Completed = WorkflowTaskStatus_Completed"
| "task_status_of SubagentStatus_Errored = WorkflowTaskStatus_Failed"
| "task_status_of SubagentStatus_Interrupted = WorkflowTaskStatus_Stopped"
| "task_status_of SubagentStatus_Shutdown = WorkflowTaskStatus_Stopped"

text \<open>\<open>if new.is_some() { slot.field = new.clone() }\<close>.\<close>

definition overlay :: "'a option \<Rightarrow> 'a option \<Rightarrow> 'a option" where
  "overlay new old = (if new \<noteq> None then new else old)"

definition new_agent_state ::
  "string \<Rightarrow> workflow_task_status \<Rightarrow> bool \<Rightarrow> string option \<Rightarrow> workflow_agent_state" where
  "new_agent_state ref task_status lifecycle label =
     \<lparr>wa_ref_id = ref, wa_task_status = task_status, wa_has_lifecycle = lifecycle,
      wa_retain = None, wa_label = label, wa_state = None, wa_model = None,
      wa_last_tool_name = None, wa_tokens = None, wa_tool_calls = None\<rparr>"

definition roster_detail ::
  "roster \<Rightarrow> string \<Rightarrow> string option \<Rightarrow> workflow_loop_state option \<Rightarrow> string option
     \<Rightarrow> u64 option \<Rightarrow> u64 option \<Rightarrow> string option \<Rightarrow> roster" where
  "roster_detail roster ref label loop_state model tokens tool_calls last_tool_name =
    (let slot = (case map_of roster ref of
                   None \<Rightarrow> new_agent_state ref WorkflowTaskStatus_Running False None
                 | Some slot \<Rightarrow> slot)
     in AList.update ref
       (slot\<lparr>wa_label := overlay label (wa_label slot),
             wa_state := overlay loop_state (wa_state slot),
             wa_model := overlay model (wa_model slot),
             wa_tokens := overlay tokens (wa_tokens slot),
             wa_tool_calls := overlay tool_calls (wa_tool_calls slot),
             wa_last_tool_name := overlay last_tool_name (wa_last_tool_name slot)\<rparr>) roster)"

definition roster_update ::
  "roster \<Rightarrow> string \<Rightarrow> string option \<Rightarrow> workflow_task_status \<Rightarrow> roster" where
  "roster_update roster ref label task_status = (case map_of roster ref of
      Some slot \<Rightarrow>
        if task_is_terminal (wa_task_status slot) \<and> \<not> task_is_terminal task_status then roster
        else AList.update ref
          (slot\<lparr>wa_task_status := task_status, wa_has_lifecycle := True,
                wa_label := overlay label (wa_label slot)\<rparr>) roster
    | None \<Rightarrow> AList.update ref (new_agent_state ref task_status True label) roster)"

definition update_roster :: "roster \<Rightarrow> session_event \<Rightarrow> roster" where
  "update_roster roster e = (case e of
      SubagentDetail ref _ label loop_state model tokens tool_calls last_tool_name _ _ _ _ \<Rightarrow>
        roster_detail roster ref label loop_state model tokens tool_calls last_tool_name
    | SubagentUpdate ref label status _ _ \<Rightarrow>
        roster_update roster ref label (task_status_of status)
    | _ \<Rightarrow> roster)"

definition process_gone :: "session_event \<Rightarrow> bool" where
  "process_gone e = (case e of BackendSuspended \<Rightarrow> True | Detached _ _ \<Rightarrow> True | _ \<Rightarrow> False)"

definition fold_roster :: "roster \<Rightarrow> session_event \<Rightarrow> roster" where
  "fold_roster roster e = (if process_gone e then [] else update_roster roster e)"

definition reason_to_idle :: "session_event \<Rightarrow> transition_reason" where
  "reason_to_idle e = (case e of
      Cancel \<Rightarrow> TransitionReason_Cancelled CancelReason_UserCancel
    | TurnResult _ _ _ _ outc \<Rightarrow>
        (case outc of
           TurnOutcome_Cancelled reason \<Rightarrow> TransitionReason_Cancelled reason
         | TurnOutcome_Completed stop_reason \<Rightarrow> TransitionReason_Completed stop_reason
         | _ \<Rightarrow> TransitionReason_Completed StopReason_EndTurn)
    | _ \<Rightarrow> TransitionReason_Completed StopReason_EndTurn)"

definition destination_reason :: "session_state \<Rightarrow> session_event \<Rightarrow> transition_reason" where
  "destination_reason to e = (case to of
      State_Running _ \<Rightarrow>
        (case e of PermissionResolved _ _ \<Rightarrow> TransitionReason_PermissionResolved
                 | _ \<Rightarrow> TransitionReason_Started)
    | State_Idle \<Rightarrow> reason_to_idle e
    | State_Error why \<Rightarrow> TransitionReason_Errored why
    | State_Starting \<Rightarrow> TransitionReason_Started)"

definition transition_reason_of :: "transition \<Rightarrow> session_event \<Rightarrow> transition_reason" where
  "transition_reason_of t e =
    (if is_requires_action (tr_to t) \<and> \<not> is_requires_action (tr_from t)
     then (case e of Permission _ kind _ _ _ \<Rightarrow> TransitionReason_PermissionRequested kind
                   | _ \<Rightarrow> destination_reason (tr_to t) e)
     else destination_reason (tr_to t) e)"

definition derive_reason :: "transition option \<Rightarrow> session_event \<Rightarrow> transition_reason option" where
  "derive_reason t e = map_option (\<lambda>t. transition_reason_of t e) t"

fun list_last :: "'a list \<Rightarrow> 'a option" where
  "list_last [] = None"
| "list_last [x] = Some x"
| "list_last (x # y # ys) = list_last (y # ys)"


section \<open>The orchestrator\<close>

text \<open>The state of one orchestrator: the fold lanes and rosters of the loop, the two caches, and
  the queue of lowered envelopes.\<close>

record orchestrator =
  fsms :: "(string, session_state) hashmap"
  rosters :: "(string, roster) hashmap"
  latest :: "(string, state_snapshot) hashmap"
  last_terminal :: "(string, u64 \<times> transition_reason) hashmap"
  lowered :: "envelope list"

definition new_orchestrator :: orchestrator where
  "new_orchestrator = \<lparr>fsms = [], rosters = [], latest = [], last_terminal = [], lowered = []\<rparr>"

datatype broadcast_item = Sent_Event envelope | Sent_State state_snapshot

definition lane_state :: "orchestrator \<Rightarrow> string \<Rightarrow> session_state" where
  "lane_state orc sid = (case map_of (fsms orc) sid of None \<Rightarrow> State_Idle | Some s \<Rightarrow> s)"

definition lane_roster :: "orchestrator \<Rightarrow> string \<Rightarrow> roster" where
  "lane_roster orc sid = (case map_of (rosters orc) sid of None \<Rightarrow> [] | Some r \<Rightarrow> r)"

definition make_snapshot ::
  "bool \<Rightarrow> envelope \<Rightarrow> session_state \<Rightarrow> bool \<Rightarrow> transition_reason option \<Rightarrow> state_snapshot" where
  "make_snapshot proactive env s active reason =
     \<lparr>ss_session = en_session env, ss_state = s, ss_can_send = can_send_message s,
      ss_has_activity = active, ss_can_queue = can_queue_message s proactive,
      ss_can_cancel = can_cancel s, ss_turn_gen = en_turn_gen env, ss_last_reason = reason\<rparr>"

definition record_terminal ::
  "envelope \<Rightarrow> session_state \<Rightarrow> transition_reason option
     \<Rightarrow> (string, u64 \<times> transition_reason) hashmap \<Rightarrow> (string, u64 \<times> transition_reason) hashmap" where
  "record_terminal env s reason m =
     (if is_terminal_state s then
        (case reason of Some why \<Rightarrow> AList.update (en_session env) (en_turn_gen env, why) m
                      | None \<Rightarrow> m)
      else m)"

definition anchor_lost :: "envelope \<Rightarrow> session_state \<Rightarrow> broadcast_item list" where
  "anchor_lost env s = (case s of
      State_Error why \<Rightarrow>
        if is_unrecoverable_resume_error why
        then [Sent_Event \<lparr>en_session = en_session env, en_turn_gen = en_turn_gen env,
                          en_event = BackendBound None\<rparr>]
        else []
    | _ \<Rightarrow> [])"

definition fold_one ::
  "bool \<Rightarrow> envelope \<Rightarrow> orchestrator \<Rightarrow> orchestrator \<times> broadcast_item list" where
  "fold_one proactive env0 orc =
    (let env = restamp_epoch env0;
         sid = en_session env;
         roster = lane_roster orc sid;
         roster' = fold_roster roster (en_event env);
         prev = lane_state orc sid;
         (stepped, transitions) = step prev (en_event env);
         next = prune_terminal_subagents stepped;
         orc' = orc\<lparr>fsms := AList.update sid next (fsms orc),
                   rosters := AList.update sid roster' (rosters orc)\<rparr>;
         active = (has_foreground_activity next \<or> background_active roster');
         was_active = (has_foreground_activity prev \<or> background_active roster)
     in if transitions \<noteq> [] \<or> was_active \<noteq> active then
          let reason = derive_reason (list_last transitions) (en_event env);
              snap = make_snapshot proactive env next active reason
          in (orc'\<lparr>latest := AList.update sid snap (latest orc'),
                   last_terminal := record_terminal env next reason (last_terminal orc')\<rparr>,
              Sent_Event env # anchor_lost env next @ [Sent_State snap])
        else (orc', [Sent_Event env]))"

fun fold_all ::
  "bool \<Rightarrow> envelope list \<Rightarrow> orchestrator \<Rightarrow> orchestrator \<times> broadcast_item list" where
  "fold_all proactive [] orc = (orc, [])"
| "fold_all proactive (env # envs) orc =
     (let (orc1, out1) = fold_one proactive env orc; (orc2, out2) = fold_all proactive envs orc1
      in (orc2, out1 @ out2))"

text \<open>One iteration of \<open>run\<close>: the biased select takes a lowered envelope first; with none
  pending it takes the stream's next one, and an ended stream (an empty list) ends the loop, which
  then drains the lowered queue.\<close>

definition run_tick ::
  "bool \<Rightarrow> orchestrator \<Rightarrow> envelope list
     \<Rightarrow> (orchestrator \<times> envelope list \<times> broadcast_item list) option" where
  "run_tick proactive orc events = (case lowered orc of
      low # rest \<Rightarrow>
        (let (orc', out) = fold_one proactive low (orc\<lparr>lowered := rest\<rparr>) in Some (orc', events, out))
    | [] \<Rightarrow> (case events of
        env # rest \<Rightarrow> (let (orc', out) = fold_one proactive env orc in Some (orc', rest, out))
      | [] \<Rightarrow> None))"

definition run_drain :: "bool \<Rightarrow> orchestrator \<Rightarrow> orchestrator \<times> broadcast_item list" where
  "run_drain proactive orc = fold_all proactive (lowered orc) (orc\<lparr>lowered := []\<rparr>)"

text \<open>The command entries. \<open>dispatch\<close> is the backend's answer.\<close>

definition orchestrator_send ::
  "(command \<Rightarrow> backend_error + command_receipt) \<Rightarrow> string \<Rightarrow> content_block list \<Rightarrow> command_meta
     \<Rightarrow> orchestrator \<Rightarrow> (backend_error + command_receipt) \<times> orchestrator" where
  "orchestrator_send dispatch sid content metadata orc =
    (case dispatch (Command_Send content metadata) of
       Inl err \<Rightarrow> (Inl err, orc)
     | Inr receipt \<Rightarrow>
         (Inr receipt,
          if cr_admission receipt = Admission_Started
          then orc\<lparr>lowered := lowered orc @ [\<lparr>en_session = sid, en_turn_gen = cr_turn_gen receipt,
                                           en_event = TurnStarted (cr_turn_gen receipt)\<rparr>]\<rparr>
          else orc))"

definition orchestrator_cancel ::
  "(command \<Rightarrow> backend_error + command_receipt) \<Rightarrow> string \<Rightarrow> cancel_target
     \<Rightarrow> orchestrator \<Rightarrow> (backend_error + command_receipt) \<times> orchestrator" where
  "orchestrator_cancel dispatch sid target orc =
    (case dispatch (Command_Cancel target) of
       Inl err \<Rightarrow> (Inl err, orc)
     | Inr receipt \<Rightarrow>
         (Inr receipt,
          orc\<lparr>lowered := lowered orc @ [\<lparr>en_session = sid, en_turn_gen = cr_turn_gen receipt,
                                       en_event = Cancel\<rparr>]\<rparr>))"

definition latest_snapshot :: "orchestrator \<Rightarrow> string \<Rightarrow> state_snapshot option" where
  "latest_snapshot orc sid = map_of (latest orc) sid"

definition latest_terminal :: "orchestrator \<Rightarrow> string \<Rightarrow> (u64 \<times> transition_reason) option" where
  "latest_terminal orc sid = map_of (last_terminal orc) sid"

definition reconnect ::
  "(session_state \<Rightarrow> string) \<Rightarrow> orchestrator \<Rightarrow> string \<Rightarrow> broadcast_item list" where
  "reconnect debug orc sid = (case map_of (latest orc) sid of
      None \<Rightarrow> []
    | Some snap \<Rightarrow>
        [Sent_Event \<lparr>en_session = sid, en_turn_gen = ss_turn_gen snap,
                     en_event = Snapshot (debug (ss_state snap)) (ss_turn_gen snap)\<rparr>,
         Sent_State snap])"


section \<open>Subscribers\<close>

text \<open>What a receiver's \<open>recv\<close> returns; the loop of each stream's poll over the results it
  receives (an exhausted list is a poll still waiting).\<close>

datatype 'a recv = Recv_Ok 'a | Recv_Lagged u64 | Recv_Closed

fun poll_events :: "string \<Rightarrow> envelope recv list \<Rightarrow> envelope option" where
  "poll_events me [] = None"
| "poll_events me (Recv_Ok env # rest) =
     (if en_session env = me then Some env else poll_events me rest)"
| "poll_events me (Recv_Lagged n # rest) =
     Some \<lparr>en_session = me, en_turn_gen = 0, en_event = Lagged n\<rparr>"
| "poll_events me (Recv_Closed # rest) = None"

definition initial_snapshot :: "string \<Rightarrow> state_snapshot" where
  "initial_snapshot me =
     \<lparr>ss_session = me, ss_state = State_Idle, ss_can_send = True, ss_has_activity = False,
      ss_can_queue = False, ss_can_cancel = False, ss_turn_gen = 0, ss_last_reason = None\<rparr>"

fun poll_state ::
  "(string, state_snapshot) hashmap \<Rightarrow> string \<Rightarrow> state_snapshot recv list \<Rightarrow> state_snapshot option" where
  "poll_state cache me [] = None"
| "poll_state cache me (Recv_Ok s # rest) =
     (if ss_session s = me then Some s else poll_state cache me rest)"
| "poll_state cache me (Recv_Lagged n # rest) =
     (case map_of cache me of Some s \<Rightarrow> Some s | None \<Rightarrow> Some (initial_snapshot me))"
| "poll_state cache me (Recv_Closed # rest) = None"

text \<open>The first poll delivers the seed read from the cache at subscription.\<close>

definition first_poll ::
  "state_snapshot option \<Rightarrow> (string, state_snapshot) hashmap \<Rightarrow> string \<Rightarrow> state_snapshot recv list
     \<Rightarrow> state_snapshot option" where
  "first_poll seed cache me rs = (case seed of Some s \<Rightarrow> Some s | None \<Rightarrow> poll_state cache me rs)"

end
