(* ===== verification/Orchestrator_Laws.thy ===== *)
theory Orchestrator_Laws
  imports Orchestrator Session_Turns
begin

text \<open>
  What the fold loop guarantees. The orchestrator is refined to a family of independent lanes, one
  per session (\<open>lane\<close>, \<open>lane_fold\<close>): the specification the demultiplexing must meet. The interface
  the fold loop needs of the reducer is the locale \<open>phase_reducer\<close>, interpreted on \<open>step\<close> and the
  roster prune: a step reports exactly its phase changes, and the prune keeps the phase. From it:
  the cached flags are always those of the current state, every change of a flag is pushed, the
  last-terminal cache is written exactly when a turn ends, and lag recovery returns current flags.
\<close>

section \<open>What the fold loop needs of a reducer\<close>

locale phase_reducer =
  fixes stp :: "'s \<Rightarrow> 'e \<Rightarrow> 's \<times> 't list"
    and phase :: "'s \<Rightarrow> 'p"
    and tidy :: "'s \<Rightarrow> 's"
  assumes reports: "snd (stp s e) = [] \<longleftrightarrow> phase s = phase (fst (stp s e))"
    and tidy_phase: "phase (tidy s) = phase s"
begin

lemma quiet_step: "snd (stp s e) = [] \<Longrightarrow> phase (tidy (fst (stp s e))) = phase s"
  by (simp add: reports tidy_phase)

lemma quiet_flag:
  assumes "\<And>a b. phase a = phase b \<Longrightarrow> flag a = flag b" and "snd (stp s e) = []"
  shows "flag (tidy (fst (stp s e))) = flag s"
  by (intro assms(1) quiet_step assms(2))

lemma flag_change_reported:
  assumes "\<And>a b. phase a = phase b \<Longrightarrow> flag a = flag b"
    and "flag (tidy (fst (stp s e))) \<noteq> flag s"
  shows "snd (stp s e) \<noteq> []"
  using assms quiet_flag by blast

end

lemma emits_step: "emits s (step_epoch s e) (step s e)"
proof (cases "is_turn_started e")
  case True
  then show ?thesis by (cases e) (simp_all add: step_turn_started on_turn_started_def)
next
  case False
  then show ?thesis
    using emits_step_running [of s e] emits_step_starting [of State_Starting e]
    by (simp add: step_other step_epoch_other on_cancel_def)
qed

lemma phase_prune: "external_phase (prune_terminal_subagents s) = external_phase s"
  by (simp add: prune_terminal_subagents_def phase_upd_running)

interpretation fsm: phase_reducer step external_phase prune_terminal_subagents
proof
  show "snd (step s e) = [] \<longleftrightarrow> external_phase s = external_phase (fst (step s e))" for s e
    using emits_step [of s e] by (simp add: emits_def)
qed (rule phase_prune)

text \<open>The three flags that read only the phase.\<close>

lemma phase_flags:
  assumes "external_phase a = external_phase b"
  shows "can_send_message a = can_send_message b" "can_cancel a = can_cancel b"
    "can_queue_message a p = can_queue_message b p" "is_terminal_state a = is_terminal_state b"
  using assms by (cases a; cases b; auto simp: can_send_message_def can_cancel_def
      can_queue_message_def split: if_splits)+

lemmas prune_flags [simp] =
  phase_flags [OF phase_prune]

lemma step_from_terminal:
  "is_terminal_state s \<Longrightarrow> is_terminal_state (fst (step s e)) \<Longrightarrow> step s e = (s, [])"
  by (cases "is_turn_started e"; cases e)
    (auto simp: step_other step_turn_started on_turn_started_def)

lemma prune_terminal_state: "is_terminal_state s \<Longrightarrow> prune_terminal_subagents s = s"
  by (cases s) (simp_all add: prune_terminal_subagents_def)


section \<open>Lanes\<close>

record lane =
  ln_state :: session_state
  ln_roster :: roster
  ln_latest :: "state_snapshot option"
  ln_terminal :: "(u64 \<times> transition_reason) option"

definition lane_of :: "orchestrator \<Rightarrow> string \<Rightarrow> lane" where
  "lane_of orc sid =
     \<lparr>ln_state = lane_state orc sid, ln_roster = lane_roster orc sid,
      ln_latest = map_of (latest orc) sid, ln_terminal = map_of (last_terminal orc) sid\<rparr>"

definition lane_active :: "lane \<Rightarrow> bool" where
  "lane_active l \<longleftrightarrow> has_foreground_activity (ln_state l) \<or> background_active (ln_roster l)"

text \<open>The fold of one lane: it sees only its own session's envelopes.\<close>

definition lane_moved :: "envelope \<Rightarrow> lane \<Rightarrow> lane" where
  "lane_moved env l =
     l\<lparr>ln_state := prune_terminal_subagents (fst (step (ln_state l) (en_event env))),
       ln_roster := fold_roster (ln_roster l) (en_event env)\<rparr>"

definition lane_pushes :: "envelope \<Rightarrow> lane \<Rightarrow> bool" where
  "lane_pushes env l \<longleftrightarrow>
     external_phase (ln_state l) \<noteq> external_phase (ln_state (lane_moved env l))
     \<or> lane_active l \<noteq> lane_active (lane_moved env l)"

definition lane_reason :: "envelope \<Rightarrow> lane \<Rightarrow> transition_reason option" where
  "lane_reason env l =
     derive_reason (list_last (snd (step (ln_state l) (en_event env)))) (en_event env)"

definition lane_snapshot :: "bool \<Rightarrow> envelope \<Rightarrow> lane \<Rightarrow> state_snapshot" where
  "lane_snapshot proactive env l =
     make_snapshot proactive env (ln_state (lane_moved env l)) (lane_active (lane_moved env l))
       (lane_reason env l)"

definition lane_fold :: "bool \<Rightarrow> envelope \<Rightarrow> lane \<Rightarrow> lane \<times> broadcast_item list" where
  "lane_fold proactive env0 l =
    (let env = restamp_epoch env0; l' = lane_moved env l
     in if lane_pushes env l then
          (l'\<lparr>ln_latest := Some (lane_snapshot proactive env l),
              ln_terminal :=
                (if is_terminal_state (ln_state l') \<and> lane_reason env l \<noteq> None
                 then Some (en_turn_gen env, the (lane_reason env l)) else ln_terminal l)\<rparr>,
           Sent_Event env # anchor_lost env (ln_state l') @ [Sent_State (lane_snapshot proactive env l)])
        else (l', [Sent_Event env]))"

fun lane_fold_all :: "bool \<Rightarrow> envelope list \<Rightarrow> lane \<Rightarrow> lane \<times> broadcast_item list" where
  "lane_fold_all proactive [] l = (l, [])"
| "lane_fold_all proactive (env # envs) l =
     (let (l1, out1) = lane_fold proactive env l; (l2, out2) = lane_fold_all proactive envs l1
      in (l2, out1 @ out2))"

definition new_lane :: lane where
  "new_lane = \<lparr>ln_state = State_Idle, ln_roster = [], ln_latest = None, ln_terminal = None\<rparr>"

lemma lane_of_new: "lane_of new_orchestrator sid = new_lane"
  by (simp add: lane_of_def new_orchestrator_def lane_state_def lane_roster_def new_lane_def)

lemma lane_new [simp]:
  "lane_state new_orchestrator sid = State_Idle" "lane_roster new_orchestrator sid = []"
  by (simp_all add: new_orchestrator_def lane_state_def lane_roster_def)

lemma lane_moved_fields [simp]:
  "ln_latest (lane_moved env l) = ln_latest l"
  "ln_terminal (lane_moved env l) = ln_terminal l"
  by (simp_all add: lane_moved_def)

lemma session_restamp [simp]:
  "en_session (restamp_epoch env) = en_session env"
  "en_turn_gen (restamp_epoch env) = en_turn_gen env"
  by (auto simp: restamp_epoch_def split: session_event.split)

lemma pushes_step:
  "snd (step (ln_state l) (en_event env)) \<noteq> [] \<longleftrightarrow>
     external_phase (ln_state l) \<noteq> external_phase (ln_state (lane_moved env l))"
  by (simp add: lane_moved_def fsm.reports phase_prune)

text \<open>Reading a lane after the stores have been written.\<close>

lemma lane_state_write [simp]:
  "lane_state (orc\<lparr>latest := x\<rparr>) sid = lane_state orc sid"
  "lane_state (orc\<lparr>last_terminal := y\<rparr>) sid = lane_state orc sid"
  "lane_state (orc\<lparr>rosters := z\<rparr>) sid = lane_state orc sid"
  "lane_state (orc\<lparr>lowered := q\<rparr>) sid = lane_state orc sid"
  "lane_state (orc\<lparr>fsms := AList.update k v (fsms orc)\<rparr>) sid =
     (if sid = k then v else lane_state orc sid)"
  by (simp_all add: lane_state_def)

lemma lane_roster_write [simp]:
  "lane_roster (orc\<lparr>latest := x\<rparr>) sid = lane_roster orc sid"
  "lane_roster (orc\<lparr>last_terminal := y\<rparr>) sid = lane_roster orc sid"
  "lane_roster (orc\<lparr>lowered := q\<rparr>) sid = lane_roster orc sid"
  "lane_roster (orc\<lparr>fsms := z, rosters := AList.update k v (rosters orc)\<rparr>) sid =
     (if sid = k then v else lane_roster orc sid)"
  by (simp_all add: lane_roster_def)

lemma fold_one_stores:
  fixes orc env
  defines "l \<equiv> lane_of orc (en_session env)" and "env' \<equiv> restamp_epoch env"
  shows "lane_state (fst (fold_one p env orc)) sid =
      (if sid = en_session env then ln_state (lane_moved env' l) else lane_state orc sid)"
    and "lane_roster (fst (fold_one p env orc)) sid =
      (if sid = en_session env then ln_roster (lane_moved env' l) else lane_roster orc sid)"
    and "map_of (latest (fst (fold_one p env orc))) sid =
      (if sid = en_session env \<and> lane_pushes env' l then Some (lane_snapshot p env' l)
       else map_of (latest orc) sid)"
    and "map_of (last_terminal (fst (fold_one p env orc))) sid =
      (if sid = en_session env \<and> lane_pushes env' l \<and> is_terminal_state (ln_state (lane_moved env' l))
          \<and> lane_reason env' l \<noteq> None
       then Some (en_turn_gen env, the (lane_reason env' l)) else map_of (last_terminal orc) sid)"
    and "snd (fold_one p env orc) =
      (if lane_pushes env' l
       then Sent_Event env' # anchor_lost env' (ln_state (lane_moved env' l))
              @ [Sent_State (lane_snapshot p env' l)]
       else [Sent_Event env'])"
proof -
  have push: "lane_pushes env' l \<longleftrightarrow>
      snd (step (lane_state orc (en_session env)) (en_event env')) \<noteq> []
      \<or> lane_active l \<noteq> lane_active (lane_moved env' l)"
    using pushes_step [of l env'] by (simp add: lane_pushes_def l_def lane_of_def)
  note defs = fold_one_def Let_def case_prod_beta lane_moved_def l_def env'_def lane_of_def
    lane_active_def lane_snapshot_def lane_reason_def record_terminal_def
  show "lane_state (fst (fold_one p env orc)) sid =
      (if sid = en_session env then ln_state (lane_moved env' l) else lane_state orc sid)"
    by (simp add: defs)
  show "lane_roster (fst (fold_one p env orc)) sid =
      (if sid = en_session env then ln_roster (lane_moved env' l) else lane_roster orc sid)"
    by (simp add: defs)
  show "map_of (latest (fst (fold_one p env orc))) sid =
      (if sid = en_session env \<and> lane_pushes env' l then Some (lane_snapshot p env' l)
       else map_of (latest orc) sid)"
    unfolding push by (auto simp: defs)
  show "map_of (last_terminal (fst (fold_one p env orc))) sid =
      (if sid = en_session env \<and> lane_pushes env' l \<and> is_terminal_state (ln_state (lane_moved env' l))
          \<and> lane_reason env' l \<noteq> None
       then Some (en_turn_gen env, the (lane_reason env' l)) else map_of (last_terminal orc) sid)"
    unfolding push by (auto simp: defs split: option.split)
  show "snd (fold_one p env orc) =
      (if lane_pushes env' l
       then Sent_Event env' # anchor_lost env' (ln_state (lane_moved env' l))
              @ [Sent_State (lane_snapshot p env' l)]
       else [Sent_Event env'])"
    unfolding push by (auto simp: defs)
qed

lemma fold_one_lane:
  "lane_of (fst (fold_one p env orc)) (en_session env) =
     fst (lane_fold p env (lane_of orc (en_session env)))"
  "snd (fold_one p env orc) = snd (lane_fold p env (lane_of orc (en_session env)))"
  by (auto simp: lane_of_def [of "fst (fold_one p env orc)"] fold_one_stores lane_fold_def Let_def
      lane_moved_def) (simp_all add: lane_of_def)

lemma fold_one_other:
  "sid \<noteq> en_session env \<Longrightarrow> lane_of (fst (fold_one p env orc)) sid = lane_of orc sid"
  by (simp add: lane_of_def fold_one_stores)

fun item_session :: "broadcast_item \<Rightarrow> string" where
  "item_session (Sent_Event env) = en_session env"
| "item_session (Sent_State s) = ss_session s"

lemma lane_fold_sessions:
  "i \<in> set (snd (lane_fold p env l)) \<Longrightarrow> item_session i = en_session env"
  by (auto simp: lane_fold_def Let_def lane_snapshot_def make_snapshot_def anchor_lost_def
      split: if_splits session_state.splits)

text \<open>C39: Demultiplexing: folding any interleaving of envelopes of any sessions gives each session
  the state, roster, cached snapshot and last terminal it would have alone, and sends its
  subscribers exactly the items it would have sent alone, in order.\<close>
theorem sessions_are_independent:
  "lane_of (fst (fold_all p envs orc)) sid =
     fst (lane_fold_all p (filter (\<lambda>env. en_session env = sid) envs) (lane_of orc sid)) \<and>
   filter (\<lambda>i. item_session i = sid) (snd (fold_all p envs orc)) =
     snd (lane_fold_all p (filter (\<lambda>env. en_session env = sid) envs) (lane_of orc sid))"
proof (induction envs arbitrary: orc)
  case (Cons env envs)
  let ?out = "snd (fold_one p env orc)"
  have items: "item_session i = en_session env" if "i \<in> set ?out" for i
    using that lane_fold_sessions by (simp add: fold_one_lane)
  show ?case
  proof (cases "en_session env = sid")
    case True
    then have "filter (\<lambda>i. item_session i = sid) ?out = ?out"
      using items by simp
    then show ?thesis
      using True Cons.IH [of "fst (fold_one p env orc)"] fold_one_lane [of p env orc]
      by (simp add: case_prod_beta Let_def)
  next
    case False
    then have "filter (\<lambda>i. item_session i = sid) ?out = []"
      using items by (simp add: filter_empty_conv)
    then show ?thesis
      using False Cons.IH [of "fst (fold_one p env orc)"] fold_one_other [of sid env p orc]
      by (simp add: case_prod_beta Let_def)
  qed
qed simp


section \<open>The cached flags\<close>

text \<open>The four flags the interface reads, of a state and roster and of a snapshot.\<close>

definition flags_of :: "bool \<Rightarrow> session_state \<Rightarrow> roster \<Rightarrow> bool \<times> bool \<times> bool \<times> bool" where
  "flags_of proactive s r =
     (can_send_message s, has_foreground_activity s \<or> background_active r,
      can_queue_message s proactive, can_cancel s)"

definition snapshot_flags :: "state_snapshot \<Rightarrow> bool \<times> bool \<times> bool \<times> bool" where
  "snapshot_flags snap =
     (ss_can_send snap, ss_has_activity snap, ss_can_queue snap, ss_can_cancel snap)"

definition lane_flags :: "bool \<Rightarrow> lane \<Rightarrow> bool \<times> bool \<times> bool \<times> bool" where
  "lane_flags proactive l = flags_of proactive (ln_state l) (ln_roster l)"

definition lane_ok :: "bool \<Rightarrow> lane \<Rightarrow> bool" where
  "lane_ok p l \<longleftrightarrow>
     (case ln_latest l of None \<Rightarrow> lane_flags p l = snapshot_flags (initial_snapshot [])
                       | Some snap \<Rightarrow> lane_flags p l = snapshot_flags snap)"

lemma snapshot_flags_lane: "snapshot_flags (lane_snapshot p env l) = lane_flags p (lane_moved env l)"
  by (simp add: snapshot_flags_def lane_snapshot_def make_snapshot_def lane_flags_def flags_of_def
      lane_active_def)

lemma quiet_lane_flags:
  "\<not> lane_pushes env l \<Longrightarrow> lane_flags p (lane_moved env l) = lane_flags p l"
  using phase_flags [of "ln_state l" "ln_state (lane_moved env l)"]
  by (simp add: lane_pushes_def lane_flags_def flags_of_def lane_active_def)

lemma lane_fold_ok: "lane_ok p l \<Longrightarrow> lane_ok p (fst (lane_fold p env l))"
  by (auto simp: lane_fold_def Let_def lane_ok_def snapshot_flags_lane quiet_lane_flags
      lane_flags_def [of p "ln_latest_update f x" for f x]
      lane_flags_def [of p "ln_terminal_update f x" for f x] split: option.splits)
    (simp_all add: lane_flags_def)

lemma lane_fold_all_ok: "lane_ok p l \<Longrightarrow> lane_ok p (fst (lane_fold_all p envs l))"
  by (induction envs arbitrary: l) (auto simp: case_prod_beta Let_def lane_fold_ok)

lemma fold_one_ok: "(\<And>sid. lane_ok p (lane_of orc sid)) \<Longrightarrow> lane_ok p (lane_of (fst (fold_one p env orc)) sid)"
  by (cases "sid = en_session env") (simp_all add: fold_one_lane fold_one_other lane_fold_ok)

lemma fold_all_ok:
  "(\<And>sid. lane_ok p (lane_of orc sid)) \<Longrightarrow> lane_ok p (lane_of (fst (fold_all p envs orc)) sid)"
  by (induction envs arbitrary: orc) (simp_all add: case_prod_beta Let_def fold_one_ok)

lemma new_lane_ok: "lane_ok p (lane_of new_orchestrator sid)"
  by (simp add: lane_of_new lane_ok_def new_lane_def lane_flags_def flags_of_def snapshot_flags_def
      initial_snapshot_def can_send_message_def background_active_def can_queue_message_def
      can_cancel_def)

text \<open>C2: The cached snapshot never lies about what the user may do. After any history, the flags
  of a session's cached snapshot (may send, is active, may queue, may cancel) are those of its
  current state and background roster; and a session without a cached snapshot has the flags of a
  fresh idle one.\<close>
theorem cached_flags_current:
  "(case latest_snapshot (fst (fold_all p envs new_orchestrator)) sid of
      None \<Rightarrow> snapshot_flags (initial_snapshot sid)
    | Some snap \<Rightarrow> snapshot_flags snap) =
   flags_of p (lane_state (fst (fold_all p envs new_orchestrator)) sid)
     (lane_roster (fst (fold_all p envs new_orchestrator)) sid)"
proof -
  have "lane_ok p (lane_of (fst (fold_all p envs new_orchestrator)) sid)"
    by (intro fold_all_ok new_lane_ok)
  then show ?thesis
    by (simp add: lane_ok_def lane_of_def latest_snapshot_def lane_flags_def
        snapshot_flags_def initial_snapshot_def split: option.splits)
qed

text \<open>A subscriber cannot miss the unlock for good: when its receiver reports lag, whatever the
  ring overwrote, the item it is given carries the session's current flags.\<close>
theorem lag_recovers_current_flags:
  fixes envs p
  assumes "\<forall>s \<in> set others. ss_session s \<noteq> me"
  defines "orc \<equiv> fst (fold_all p envs new_orchestrator)"
  shows "\<exists>snap. poll_state (latest orc) me (map Recv_Ok others @ Recv_Lagged n # rest) = Some snap
    \<and> snapshot_flags snap = flags_of p (lane_state orc me) (lane_roster orc me)"
proof -
  have "lane_ok p (lane_of orc me)"
    unfolding orc_def by (intro fold_all_ok new_lane_ok)
  moreover have "poll_state (latest orc) me (map Recv_Ok others @ Recv_Lagged n # rest) =
      (case map_of (latest orc) me of Some s \<Rightarrow> Some s | None \<Rightarrow> Some (initial_snapshot me))"
    using assms(1) by (induction others) simp_all
  ultimately show ?thesis
    by (auto simp: lane_ok_def lane_of_def lane_flags_def snapshot_flags_def initial_snapshot_def
        split: option.splits)
qed

lemma lag_recovers_current_flags_witness:
  "\<exists>snap. poll_state (latest (fst (fold_all False
      [\<lparr>en_session = ''s'', en_turn_gen = 1, en_event = TurnStarted 1\<rparr>] new_orchestrator))) ''s''
      [Recv_Lagged 9] = Some snap \<and> \<not> ss_can_send snap"
  using lag_recovers_current_flags [of "[]" "''s''" False
      "[\<lparr>en_session = ''s'', en_turn_gen = 1, en_event = TurnStarted 1\<rparr>]" 9 "[]"]
  by (auto simp: snapshot_flags_def flags_of_def fold_one_stores restamp_epoch_def lane_moved_def
      step_turn_started on_turn_started_def lane_of_def case_prod_beta Let_def
      can_send_message_def
      prune_terminal_subagents_def)

text \<open>Every change of a flag is pushed: a fold that changes what a session's user may do sends
  the subscribers a snapshot with the new flags and leaves that snapshot in the cache, so the
  unlock is both delivered and recoverable.\<close>
theorem flag_changes_are_pushed:
  assumes "flags_of p (lane_state (fst (fold_one p env orc)) sid) (lane_roster (fst (fold_one p env orc)) sid)
    \<noteq> flags_of p (lane_state orc sid) (lane_roster orc sid)"
  shows "\<exists>snap. Sent_State snap \<in> set (snd (fold_one p env orc)) \<and> ss_session snap = sid
    \<and> latest_snapshot (fst (fold_one p env orc)) sid = Some snap
    \<and> snapshot_flags snap = flags_of p (lane_state (fst (fold_one p env orc)) sid)
        (lane_roster (fst (fold_one p env orc)) sid)"
proof -
  let ?l = "lane_of orc (en_session env)" and ?env = "restamp_epoch env"
  have sid: "sid = en_session env"
    using assms by (rule contrapos_np) (simp add: fold_one_stores)
  have "lane_flags p (lane_moved ?env ?l) \<noteq> lane_flags p ?l"
    using assms by (simp add: sid fold_one_stores lane_flags_def) (simp add: lane_of_def)
  then have "lane_pushes ?env ?l"
    using quiet_lane_flags by blast
  then show ?thesis
    by (simp add: sid fold_one_stores latest_snapshot_def snapshot_flags_lane lane_flags_def)
      (simp add: lane_snapshot_def make_snapshot_def)
qed

section \<open>The last terminal\<close>

lemma list_last_Some: "list_last xs = Some x \<Longrightarrow> x \<in> set xs"
  by (induction xs rule: list_last.induct) auto

lemma list_last_step:
  "list_last (snd (step s e)) =
     (if external_phase s = external_phase (fst (step s e)) then None
      else Some \<lparr>tr_from = s, tr_to = fst (step s e), tr_epoch = step_epoch s e\<rparr>)"
  using emits_step [of s e] by (simp add: emits_def)

lemma terminal_phase: "is_terminal_state s \<longleftrightarrow> external_phase s \<in> {Phase_Idle, Phase_Error}"
  by (cases s) simp_all

lemma reason_ended:
  "is_terminal_state s \<Longrightarrow> transition_reason_of \<lparr>tr_from = f, tr_to = s, tr_epoch = ep\<rparr> e =
     (case s of State_Error why \<Rightarrow> TransitionReason_Errored why | _ \<Rightarrow> reason_to_idle e)"
  by (cases s) (simp_all add: transition_reason_of_def destination_reason_def)

text \<open>The terminal a fold writes: only when the state goes from not ended to ended.\<close>

lemma lane_terminal_written:
  assumes "is_terminal_state (ln_state (lane_moved env l))"
  shows "lane_pushes env l \<and> lane_reason env l \<noteq> None \<longleftrightarrow> \<not> is_terminal_state (ln_state l)"
    and "\<not> is_terminal_state (ln_state l) \<Longrightarrow> lane_reason env l =
      Some (case ln_state (lane_moved env l) of
              State_Error why \<Rightarrow> TransitionReason_Errored why
            | _ \<Rightarrow> reason_to_idle (en_event env))"
proof -
  let ?s' = "fst (step (ln_state l) (en_event env))"
  have ended: "is_terminal_state ?s'"
    using assms by (simp add: lane_moved_def)
  then have state: "ln_state (lane_moved env l) = ?s'"
    by (simp add: lane_moved_def prune_terminal_state)
  have stay: "?s' = ln_state l" if "is_terminal_state (ln_state l)"
    using step_from_terminal [OF that ended] by simp
  have change: "external_phase (ln_state l) \<noteq> external_phase ?s'" if "\<not> is_terminal_state (ln_state l)"
    using that ended by (auto simp: terminal_phase)
  show "lane_pushes env l \<and> lane_reason env l \<noteq> None \<longleftrightarrow> \<not> is_terminal_state (ln_state l)"
    using stay change
    by (auto simp: lane_pushes_def state lane_reason_def derive_reason_def list_last_step)
  show "\<not> is_terminal_state (ln_state l) \<Longrightarrow> lane_reason env l =
      Some (case ln_state (lane_moved env l) of
              State_Error why \<Rightarrow> TransitionReason_Errored why
            | _ \<Rightarrow> reason_to_idle (en_event env))"
    using change by (simp add: state lane_reason_def derive_reason_def list_last_step
        reason_ended [OF ended])
qed

text \<open>The last-terminal cache is sticky and exact: a fold writes it only for the folded
  session, exactly when that session's turn ended in this fold, with the envelope's turn number
  and the outcome (the error's reason, the cancel, or the result's own outcome); activity pushes,
  later turn starts and events of other sessions leave it alone.\<close>
theorem last_terminal_exact:
  "latest_terminal (fst (fold_one p env orc)) sid =
    (if sid = en_session env \<and> \<not> is_terminal_state (lane_state orc sid)
        \<and> is_terminal_state (lane_state (fst (fold_one p env orc)) sid)
     then Some (en_turn_gen env,
       case lane_state (fst (fold_one p env orc)) sid of
         State_Error why \<Rightarrow> TransitionReason_Errored why
       | _ \<Rightarrow> reason_to_idle (en_event (restamp_epoch env)))
     else latest_terminal orc sid)"
proof (cases "sid = en_session env")
  case True
  then show ?thesis
    using lane_terminal_written [of "restamp_epoch env" "lane_of orc sid"]
    by (auto simp: latest_terminal_def fold_one_stores) (simp_all add: lane_of_def)
qed (simp add: latest_terminal_def fold_one_stores)


section \<open>Process loss, stale results, pruned rosters\<close>

lemma background_active_Nil [simp]: "\<not> background_active []"
  by (simp add: background_active_def)

text \<open>The states a lane goes through: well-formed, and without finished subagents.\<close>

fun tidy_state :: "session_state \<Rightarrow> bool" where
  "tidy_state (State_Running r) \<longleftrightarrow>
     running_ok r \<and> (\<forall>a \<in> set (subagents r). \<not> pruned_status (sa_status a))"
| "tidy_state State_Starting \<longleftrightarrow> False"
| "tidy_state _ \<longleftrightarrow> True"

lemma tidy_state_ok: "tidy_state s \<Longrightarrow> state_ok s"
  by (cases s) simp_all

lemma distinct_map_filter': "distinct (map f xs) \<Longrightarrow> distinct (map f (filter P xs))"
  by (induction xs) auto

lemma prune_tidy:
  "state_ok s \<Longrightarrow> s \<noteq> State_Starting \<Longrightarrow> tidy_state (prune_terminal_subagents s)"
  by (cases s) (auto simp: prune_terminal_subagents_def running_ok_def distinct_map_filter')

lemma step_not_starting: "s \<noteq> State_Starting \<Longrightarrow> fst (step s e) \<noteq> State_Starting"
proof (cases "is_turn_started e")
  case True
  then show "s \<noteq> State_Starting \<Longrightarrow> ?thesis"
    by (cases e) (simp_all add: step_turn_started on_turn_started_def)
next
  case False
  then show "s \<noteq> State_Starting \<Longrightarrow> ?thesis"
    using phase_running [of _ e] by (cases s) (auto simp: step_other on_cancel_def)
qed

lemma lane_moved_tidy: "tidy_state (ln_state l) \<Longrightarrow> tidy_state (ln_state (lane_moved env l))"
  unfolding lane_moved_def
  by (cases "ln_state l") (auto intro!: prune_tidy step_ok step_not_starting)

lemma fold_one_tidy:
  "(\<And>sid. tidy_state (lane_state orc sid)) \<Longrightarrow> tidy_state (lane_state (fst (fold_one p env orc)) sid)"
  by (simp add: fold_one_stores lane_moved_tidy) (simp add: lane_of_def lane_moved_tidy)

lemma fold_all_tidy:
  "(\<And>sid. tidy_state (lane_state orc sid)) \<Longrightarrow> tidy_state (lane_state (fst (fold_all p envs orc)) sid)"
  by (induction envs arbitrary: orc) (simp_all add: case_prod_beta Let_def fold_one_tidy)

lemma reached_tidy: "tidy_state (lane_state (fst (fold_all p envs new_orchestrator)) sid)"
  by (rule fold_all_tidy) simp

text \<open>In every lane of the orchestrator, after any history, a running session has no finished
  subagent in its foreground roster, no subagent twice, and is never in the start-up phase.\<close>
theorem lanes_stay_tidy:
  "(\<forall>r. lane_state (fst (fold_all p envs new_orchestrator)) sid = State_Running r \<longrightarrow>
      distinct (map sa_ref (subagents r))
      \<and> (\<forall>a \<in> set (subagents r). sa_status a \<in>
           {SubagentStatus_PendingInit, SubagentStatus_Running, SubagentStatus_Interrupted}))
   \<and> lane_state (fst (fold_all p envs new_orchestrator)) sid \<noteq> State_Starting"
proof -
  have live: "st \<in> {SubagentStatus_PendingInit, SubagentStatus_Running, SubagentStatus_Interrupted}"
    if "\<not> pruned_status st" for st
    using that by (cases st) (simp_all add: pruned_status_def)
  show ?thesis
    using reached_tidy [of p envs sid] live
    by (cases "lane_state (fst (fold_all p envs new_orchestrator)) sid") (simp_all add: running_ok_def)
qed

lemma lanes_stay_tidy_witness:
  "\<exists>r. lane_state (fst (fold_all False (map (\<lambda>e. \<lparr>en_session = ''s'', en_turn_gen = 1, en_event = e\<rparr>)
      [TurnStarted 1, SubagentUpdate ''a'' None SubagentStatus_Running None None]) new_orchestrator)) ''s''
      = State_Running r \<and> map sa_ref (subagents r) = [''a''] \<and> distinct (map sa_ref (subagents r))"
proof -
  let ?s = "lane_state (fst (fold_all False (map (\<lambda>e. \<lparr>en_session = ''s'', en_turn_gen = 1, en_event = e\<rparr>)
      [TurnStarted 1, SubagentUpdate ''a'' None SubagentStatus_Running None None]) new_orchestrator)) ''s''"
  have "(case ?s of State_Running r \<Rightarrow> map sa_ref (subagents r) | _ \<Rightarrow> []) = [''a'']" by code_simp
  then obtain r where r: "?s = State_Running r" "map sa_ref (subagents r) = [''a'']"
    by (simp split: session_state.splits)
  have "distinct (map sa_ref (subagents r))"
    by (rule lanes_stay_tidy [THEN conjunct1, rule_format, OF r(1), THEN conjunct1])
  with r show ?thesis by (intro exI [where x = r] conjI)
qed

lemma detached_ends:
  assumes "tidy_state s"
  shows "is_terminal_state (fst (step s (Detached exit summary)))"
  using assms
  by (cases s) (auto simp: step_other step_running_def on_detached_def crash_outcome_def running_ok_def)

lemma restamp_detached:
  "en_event env = Detached exit summary \<Longrightarrow> en_event (restamp_epoch env) = Detached exit summary"
  "en_event env = BackendSuspended \<Longrightarrow> en_event (restamp_epoch env) = BackendSuspended"
  by (simp_all add: restamp_epoch_def)

text \<open>Losing the process releases the session: after any history, when a process exit is
  folded the session is in no turn, shows no activity of either kind and cannot be cancelled; a
  suspension empties the background roster.\<close>
theorem process_loss_clears_activity:
  fixes p envs
  defines "orc \<equiv> fst (fold_all p envs new_orchestrator)"
  shows "(en_event env = Detached exit summary \<longrightarrow>
      flags_of p (lane_state (fst (fold_one p env orc)) (en_session env))
        (lane_roster (fst (fold_one p env orc)) (en_session env)) \<in> {(True, False, False, False),
          (False, False, False, False)})
    \<and> (en_event env \<in> {Detached exit summary, BackendSuspended} \<longrightarrow>
      lane_roster (fst (fold_one p env orc)) (en_session env) = [])"
proof -
  let ?s = "lane_state orc (en_session env)"
  have ended: "is_terminal_state (prune_terminal_subagents (fst (step ?s (Detached exit summary))))"
    using detached_ends [OF reached_tidy] by (simp add: orc_def)
  have flags: "flags_of p s [] \<in> {(True, False, False, False), (False, False, False, False)}"
    if "is_terminal_state s" for s
    using that by (cases s) (simp_all add: flags_of_def can_send_message_def can_queue_message_def
        can_cancel_def)
  show ?thesis
    using flags [OF ended]
    by (auto simp: fold_one_stores lane_moved_def lane_of_def restamp_detached fold_roster_def
        process_gone_def)
qed

lemma process_loss_clears_activity_witness:
  "\<not> can_cancel (lane_state (fst (fold_one False
      \<lparr>en_session = ''s'', en_turn_gen = 1, en_event = Detached None None\<rparr>
      (fst (fold_all False [\<lparr>en_session = ''s'', en_turn_gen = 1, en_event = TurnStarted 1\<rparr>]
        new_orchestrator)))) ''s'')"
  using process_loss_clears_activity [of "\<lparr>en_session = ''s'', en_turn_gen = 1,
      en_event = Detached None None\<rparr>" None None False
      "[\<lparr>en_session = ''s'', en_turn_gen = 1, en_event = TurnStarted 1\<rparr>]"]
  by (auto simp: flags_of_def)

text \<open>The restamp makes late results harmless on a process that outlives its turns: an
  unstamped result whose envelope carries a non-zero turn number below the running turn's leaves
  the session's state as it was and pushes no snapshot.\<close>
theorem late_result_dropped:
  fixes p envs
  defines "orc \<equiv> fst (fold_all p envs new_orchestrator)"
  assumes "lane_state orc sid = State_Running r" and "0 < g" and "g < since_epoch r"
  shows "lane_state (fst (fold_one p
        \<lparr>en_session = sid, en_turn_gen = g, en_event = TurnResult is_err status txt 0 outc\<rparr> orc)) sid
      = State_Running r
    \<and> snd (fold_one p
        \<lparr>en_session = sid, en_turn_gen = g, en_event = TurnResult is_err status txt 0 outc\<rparr> orc)
      = [Sent_Event
        \<lparr>en_session = sid, en_turn_gen = g, en_event = TurnResult is_err status txt g outc\<rparr>]"
proof -
  have "g \<noteq> 0" using assms(3) by auto
  then have stale: "fst (step (State_Running r) (TurnResult is_err status txt g outc)) = State_Running r"
    using assms(4) by (rule step_stale_result)
  have "prune_terminal_subagents (State_Running r) = State_Running r"
    using reached_tidy [of p envs sid] assms(2)
    by (simp add: orc_def prune_terminal_subagents_def filter_id_conv)
  then show ?thesis
    using stale assms(2)
    by (simp add: fold_one_stores restamp_epoch_def lane_moved_def lane_of_def lane_pushes_def
        lane_active_def fold_roster_def process_gone_def update_roster_def)
qed

lemma prune_fresh:
  "prune_terminal_subagents (State_Running (fresh_turn n)) = State_Running (fresh_turn n)"
  by (simp add: prune_terminal_subagents_def fresh_turn_def)

lemma late_result_dropped_witness:
  "lane_state (fst (fold_one False
     \<lparr>en_session = ''s'', en_turn_gen = 1, en_event = TurnResult True None ''x'' 0 TurnOutcome_Failed\<rparr>
     (fst (fold_all False [\<lparr>en_session = ''s'', en_turn_gen = 2, en_event = TurnStarted 2\<rparr>]
        new_orchestrator)))) ''s'' = State_Running (fresh_turn 2)"
proof -
  let ?envs = "[\<lparr>en_session = ''s'', en_turn_gen = 2, en_event = TurnStarted 2\<rparr>]"
  have "lane_state (fst (fold_all False ?envs new_orchestrator)) ''s'' = State_Running (fresh_turn 2)"
    by (simp add: case_prod_beta Let_def fold_one_stores restamp_epoch_def lane_moved_def lane_of_def
        turn_opens_idle prune_fresh)
  from late_result_dropped [OF this, of 1 True None "''x''" TurnOutcome_Failed] show ?thesis by simp
qed

text \<open>The resume-anchor clear: besides the folded event itself, the fold broadcasts a cleared
  backend binding exactly when it pushes a snapshot of a session whose error says that the
  persisted anchor is dead.\<close>
theorem anchor_cleared_on_dead_resume:
  "Sent_Event \<lparr>en_session = en_session env, en_turn_gen = en_turn_gen env, en_event = BackendBound None\<rparr>
     \<in> set (tl (snd (fold_one p env orc))) \<longleftrightarrow>
   (\<exists>snap why. Sent_State snap \<in> set (snd (fold_one p env orc))
      \<and> lane_state (fst (fold_one p env orc)) (en_session env) = State_Error why
      \<and> is_unrecoverable_resume_error why)"
  by (cases "ln_state (lane_moved (restamp_epoch env) (lane_of orc (en_session env)))")
    (auto simp: fold_one_stores anchor_lost_def)

text \<open>The prune defeats the reducer's terminal absorption. The reducer alone keeps a completed
  subagent completed against a late progress report; folded through the orchestrator the same
  events prune the completed entry first, and the late report brings the subagent back as
  running.\<close>
lemma prune_forgets_completion:
  fixes n :: u64
  defines "done \<equiv> SubagentUpdate ''a'' None SubagentStatus_Completed None None"
    and "late \<equiv> SubagentUpdate ''a'' None SubagentStatus_Running None None"
    and "wrap \<equiv> map (\<lambda>e. \<lparr>en_session = ''s'', en_turn_gen = n, en_event = e\<rparr>)"
  shows "(\<exists>r. run_session State_Idle [TurnStarted n, done, late] = State_Running r
      \<and> roster_status (subagents r) ''a'' = Some SubagentStatus_Completed)
    \<and> (\<exists>r. lane_state (fst (fold_all False (wrap [TurnStarted n, done, late]) new_orchestrator)) ''s''
        = State_Running r \<and> roster_status (subagents r) ''a'' = Some SubagentStatus_Running)"
proof -
  have inside: "inside_turn (SubagentUpdate ''a'' None st None None)" for st
    by (simp add: inside_turn_def)
  have empty: "fresh_turn n\<lparr>subagents := []\<rparr> = fresh_turn n"
    by (simp add: fresh_turn_def)
  show ?thesis
    by (simp add: done_def late_def inside empty turn_opens_idle step_inside wrap_def case_prod_beta
        Let_def fold_one_stores restamp_epoch_def lane_moved_def lane_of_def
        prune_terminal_subagents_def roster_after_def roster_status_def subagent_is_terminal_def
        pruned_status_def)
qed

end
