(* ===== verification/Work_Model.thy ===== *)
theory Work_Model
  imports Ki_Prelude
begin

text \<open>
  The vocabulary of the team work coordinator: \<open>work_source.rs\<close> and \<open>work_coordinator/model.rs\<close>
  of \<open>crates/aionui-team\<close>. A work intent is one message or signal for a slot (a team member); a
  batch is the group of intents one agent turn works on. Counters of type \<open>usize\<close> count entries of
  collections in memory and are naturals; \<open>operation_id\<close> is a \<open>u64\<close> and the delivery retry counter
  a \<open>u8\<close>. \<open>Arc<dyn RunCausalityPort>\<close> is a record of functions over the provider's state.
\<close>

datatype team_role = Role_Lead | Role_Teammate

section \<open>Sources of work\<close>

datatype work_priority =
    Priority_Foreground
  | Priority_Control
  | Priority_Directed
  | Priority_Background

datatype work_source =
    Source_UserMessage
  | Source_UserCommand
  | Source_UserIntervention
  | Source_LeadIntervention
  | Source_McpSendMessage
  | Source_McpShutdownRequest
  | Source_SpawnWelcome
  | Source_TeamMembershipChanged
  | Source_SpawnAttachFailure
  | Source_DeliveryFailureNotification
  | Source_IdleNotification
  | Source_InterruptedNotification
  | Source_ShutdownRejected
  | Source_RecoveryDrain

fun source_priority :: "work_source \<Rightarrow> work_priority" where
  "source_priority Source_UserMessage = Priority_Foreground"
| "source_priority Source_UserCommand = Priority_Foreground"
| "source_priority Source_UserIntervention = Priority_Foreground"
| "source_priority Source_LeadIntervention = Priority_Foreground"
| "source_priority Source_McpShutdownRequest = Priority_Control"
| "source_priority Source_ShutdownRejected = Priority_Control"
| "source_priority Source_McpSendMessage = Priority_Directed"
| "source_priority Source_SpawnWelcome = Priority_Background"
| "source_priority Source_TeamMembershipChanged = Priority_Background"
| "source_priority Source_SpawnAttachFailure = Priority_Background"
| "source_priority Source_DeliveryFailureNotification = Priority_Background"
| "source_priority Source_IdleNotification = Priority_Background"
| "source_priority Source_InterruptedNotification = Priority_Background"
| "source_priority Source_RecoveryDrain = Priority_Background"

definition resumes_paused_slot :: "work_source \<Rightarrow> bool" where
  "resumes_paused_slot s \<longleftrightarrow>
     s \<in> {Source_UserMessage, Source_UserCommand, Source_UserIntervention, Source_LeadIntervention}"

definition requires_mailbox_message :: "work_source \<Rightarrow> bool" where
  "requires_mailbox_message s \<longleftrightarrow>
     s \<in> {Source_UserMessage, Source_UserCommand, Source_UserIntervention, Source_LeadIntervention,
          Source_McpSendMessage, Source_McpShutdownRequest, Source_SpawnWelcome,
          Source_SpawnAttachFailure, Source_DeliveryFailureNotification,
          Source_InterruptedNotification, Source_ShutdownRejected, Source_RecoveryDrain}"

text \<open>The derived \<open>Debug\<close> form, printed into one error message.\<close>

fun source_debug :: "work_source \<Rightarrow> string" where
  "source_debug Source_UserMessage = ''UserMessage''"
| "source_debug Source_UserCommand = ''UserCommand''"
| "source_debug Source_UserIntervention = ''UserIntervention''"
| "source_debug Source_LeadIntervention = ''LeadIntervention''"
| "source_debug Source_McpSendMessage = ''McpSendMessage''"
| "source_debug Source_McpShutdownRequest = ''McpShutdownRequest''"
| "source_debug Source_SpawnWelcome = ''SpawnWelcome''"
| "source_debug Source_TeamMembershipChanged = ''TeamMembershipChanged''"
| "source_debug Source_SpawnAttachFailure = ''SpawnAttachFailure''"
| "source_debug Source_DeliveryFailureNotification = ''DeliveryFailureNotification''"
| "source_debug Source_IdleNotification = ''IdleNotification''"
| "source_debug Source_InterruptedNotification = ''InterruptedNotification''"
| "source_debug Source_ShutdownRejected = ''ShutdownRejected''"
| "source_debug Source_RecoveryDrain = ''RecoveryDrain''"


section \<open>Intents, batches, constraints\<close>

definition max_message_delivery_failures :: u8 where
  "max_message_delivery_failures = 3"

datatype delivery_outcome = Delivery_NotFailed | Delivery_Failed

datatype runtime_constraint =
    Constraint_Ready
  | Constraint_Starting u64
  | Constraint_Failed u64 string
  | Constraint_Removing u64
  | Constraint_SessionStopped

record runtime_restart_gate =
  gate_operation_id :: u64
  gate_previous_constraint :: runtime_constraint

datatype runtime_restart_rejection = Restart_Busy | Restart_Removing | Restart_SessionStopped

datatype slot_phase =
  SlotPhase_Idle | SlotPhase_Queued | SlotPhase_Starting | SlotPhase_Running | SlotPhase_Paused | SlotPhase_Blocked

datatype work_intent_state =
    Intent_Queued
  | Intent_Starting string u64
  | Intent_Running string u64 string
  | Intent_Completed
  | Intent_Failed string
  | Intent_Cancelled string

fun intent_is_terminal :: "work_intent_state \<Rightarrow> bool" where
  "intent_is_terminal Intent_Completed = True"
| "intent_is_terminal (Intent_Failed _) = True"
| "intent_is_terminal (Intent_Cancelled _) = True"
| "intent_is_terminal _ = False"

fun intent_is_cancelled :: "work_intent_state \<Rightarrow> bool" where
  "intent_is_cancelled (Intent_Cancelled _) = True"
| "intent_is_cancelled _ = False"

record work_intent =
  wi_id :: string
  wi_generation :: string
  wi_slot :: string
  wi_role :: team_role
  wi_source :: work_source
  wi_priority :: work_priority
  wi_message :: "string option"
  wi_run :: "string option"
  wi_created :: timestamp_ms
  wi_state :: work_intent_state

datatype causal_binding =
    Binding_UserVisible
  | Binding_InheritRunningBatch string
  | Binding_ActiveRunOrBackground
  | Binding_Background
  | Binding_SystemInitiated "string option"

record enqueue_request =
  rq_slot :: string
  rq_role :: team_role
  rq_source :: work_source
  rq_binding :: causal_binding

record enqueue_lease =
  le_id :: string
  le_generation :: string
  le_slot :: string
  le_role :: team_role
  le_source :: work_source
  le_run :: "string option"

record work_batch =
  ba_id :: string
  ba_generation :: string
  ba_slot :: string
  ba_intents :: "string list"
  ba_messages :: "string list"
  ba_observed :: "string list"
  ba_priority :: work_priority
  ba_runs :: "string list"
  ba_operation :: u64
  ba_is_command :: bool

datatype reconcile_decision =
    Decision_Claim work_batch
  | Decision_WaitingForCompletion
  | Decision_Blocked runtime_constraint
  | Decision_SettleSignals "string list"
  | Decision_Quiescent

datatype commit_result = Commit_Committed | Commit_StaleOwner | Commit_Rejected

record batch_failure_result =
  bf_result :: commit_result
  bf_exhausted :: "string list"

datatype start_commit_result = Start_Accepted | Start_CancelImmediately | Start_StaleOwner

datatype enqueue_disposition =
  Disposition_Accepted | Disposition_Queued | Disposition_BlockedRuntimeStarting

record slot_work_snapshot =
  sn_slot :: string
  sn_role :: team_role
  sn_phase :: slot_phase
  sn_queued_foreground :: nat
  sn_queued_background :: nat
  sn_active_batch :: "work_batch option"
  sn_active_turn :: "string option"
  sn_active_started :: "timestamp_ms option"
  sn_constraint :: runtime_constraint
  sn_run :: "string option"

record enqueue_commit =
  ec_intent :: string
  ec_run :: "string option"
  ec_disposition :: enqueue_disposition
  ec_slot :: slot_work_snapshot

record run_work_summary =
  su_run :: string
  su_queued :: nat
  su_starting :: nat
  su_running :: nat
  su_leases :: nat
  su_paused :: nat
  su_failed :: nat
  su_slots :: "slot_work_snapshot list"

record coordinator_snapshot =
  cs_generation :: string
  cs_slots :: "slot_work_snapshot list"
  cs_active_run :: "run_work_summary option"

record reconcile_projection =
  rp_created :: "string list"
  rp_retained :: "string list"
  rp_cleared :: "string list"

record batch_cancel_target =
  ct_batch :: work_batch
  ct_turn :: "string option"

record observe_messages_result =
  ob_batch :: "string option"
  ob_count :: nat

record batch_completion_result =
  bc_result :: commit_result
  bc_ack :: "string list"
  bc_runs :: "string list"

datatype mcp_refresh_disposition = Refresh_Unchanged | Refresh_RestartNow | Refresh_Deferred

record batch_interrupt_metadata =
  bi_reason :: "string option"
  bi_replacement :: string

record interrupt_batch_result =
  ib_result :: commit_result
  ib_messages :: "string list"

record pause_work_result =
  pw_target :: "batch_cancel_target option"
  pw_slot :: slot_work_snapshot

record remove_work_result =
  rw_target :: "batch_cancel_target option"
  rw_messages :: "string list"
  rw_summaries :: "run_work_summary list"

record cancel_run_work_result =
  cw_targets :: "batch_cancel_target list"
  cw_messages :: "string list"
  cw_summary :: run_work_summary

record runtime_constraint_update =
  cu_slot :: slot_work_snapshot
  cu_messages :: "string list"
  cu_summaries :: "run_work_summary list"

record run_binding =
  rb_run :: "string option"
  rb_created :: bool
  rb_intervention :: bool

text \<open>The trait the coordinator calls out to.\<close>

record 'p run_causality_port =
  port_bind_enqueue :: "enqueue_request \<Rightarrow> 'p \<Rightarrow> run_binding \<times> 'p"
  port_bind_system_enqueue :: "enqueue_request \<Rightarrow> 'p \<Rightarrow> run_binding \<times> 'p"
  port_abort_binding :: "run_binding \<Rightarrow> 'p \<Rightarrow> 'p"
  port_apply_work_summary :: "run_work_summary \<Rightarrow> 'p \<Rightarrow> 'p"
  port_publish_slot_work :: "slot_work_snapshot \<Rightarrow> 'p \<Rightarrow> 'p"

text \<open>The two variants of \<open>TeamError\<close> the coordinator raises.\<close>

datatype team_error = TeamError_AgentNotFound string | TeamError_InvalidRequest string

end
