(* ===== verification/Work_State.thy ===== *)
theory Work_State
  imports Work_Model
begin

text \<open>
  The coordinator's state and the views computed under its lock: \<open>SlotState\<close>,
  \<open>CoordinatorState\<close> of \<open>work_coordinator/coordinator.rs\<close> and all of
  \<open>work_coordinator/snapshot.rs\<close>. \<open>slots\<close> is a \<open>BTreeMap\<close> (kept in key order by
  \<^const>\<open>bt_insert\<close>), the other stores are \<open>HashMap\<close>s.
\<close>

section \<open>Slots\<close>

record active_batch =
  ac_batch :: work_batch
  ac_turn :: "string option"
  ac_started :: "timestamp_ms option"

record slot_state =
  sl_role :: team_role
  sl_foreground :: "string list"
  sl_control :: "string list"
  sl_directed :: "string list"
  sl_background :: "string list"
  sl_active :: "active_batch option"
  sl_paused :: bool
  sl_constraint :: runtime_constraint
  sl_known_unread :: "string set"
  sl_failures :: "(string, u8) hashmap"
  sl_applied_mcp :: "string option"
  sl_pending_mcp :: "string option"
  sl_mcp_in_progress :: bool
  sl_removed :: bool

definition new_slot :: "team_role \<Rightarrow> slot_state" where
  "new_slot role =
     \<lparr>sl_role = role, sl_foreground = [], sl_control = [], sl_directed = [], sl_background = [],
      sl_active = None, sl_paused = False, sl_constraint = Constraint_Starting 0,
      sl_known_unread = {}, sl_failures = [], sl_applied_mcp = None, sl_pending_mcp = None,
      sl_mcp_in_progress = False, sl_removed = False\<rparr>"

fun slot_queue :: "slot_state \<Rightarrow> work_priority \<Rightarrow> string list" where
  "slot_queue sl Priority_Foreground = sl_foreground sl"
| "slot_queue sl Priority_Control = sl_control sl"
| "slot_queue sl Priority_Directed = sl_directed sl"
| "slot_queue sl Priority_Background = sl_background sl"

fun update_queue ::
  "work_priority \<Rightarrow> (string list \<Rightarrow> string list) \<Rightarrow> slot_state \<Rightarrow> slot_state" where
  "update_queue Priority_Foreground f sl = sl\<lparr>sl_foreground := f (sl_foreground sl)\<rparr>"
| "update_queue Priority_Control f sl = sl\<lparr>sl_control := f (sl_control sl)\<rparr>"
| "update_queue Priority_Directed f sl = sl\<lparr>sl_directed := f (sl_directed sl)\<rparr>"
| "update_queue Priority_Background f sl = sl\<lparr>sl_background := f (sl_background sl)\<rparr>"

definition queued_ids :: "slot_state \<Rightarrow> string list" where
  "queued_ids sl = sl_foreground sl @ sl_control sl @ sl_directed sl @ sl_background sl"

definition remove_queued :: "string \<Rightarrow> slot_state \<Rightarrow> slot_state" where
  "remove_queued iid sl =
     sl\<lparr>sl_foreground := drop_all iid (sl_foreground sl),
        sl_control := drop_all iid (sl_control sl),
        sl_directed := drop_all iid (sl_directed sl),
        sl_background := drop_all iid (sl_background sl)\<rparr>"

text \<open>The five clears that end a slot's work.\<close>

definition clear_work :: "slot_state \<Rightarrow> slot_state" where
  "clear_work sl =
     sl\<lparr>sl_foreground := [], sl_directed := [], sl_control := [], sl_background := [],
        sl_active := None\<rparr>"

section \<open>The state\<close>

record enqueue_lease_record =
  lr_lease :: enqueue_lease
  lr_binding :: run_binding

record coordinator_state =
  co_slots :: "(string, slot_state) hashmap"
  co_intents :: "(string, work_intent) hashmap"
  co_leases :: "(string, enqueue_lease_record) hashmap"
  co_interrupted :: "(string, batch_interrupt_metadata) hashmap"
  co_next_operation :: u64

definition new_coordinator :: coordinator_state where
  "new_coordinator =
     \<lparr>co_slots = [], co_intents = [], co_leases = [], co_interrupted = [], co_next_operation = 0\<rparr>"

abbreviation slot_at :: "coordinator_state \<Rightarrow> string \<Rightarrow> slot_state option" where
  "slot_at st sid \<equiv> map_of (co_slots st) sid"

abbreviation intent_at :: "coordinator_state \<Rightarrow> string \<Rightarrow> work_intent option" where
  "intent_at st iid \<equiv> map_of (co_intents st) iid"

definition on_slot ::
  "string \<Rightarrow> (slot_state \<Rightarrow> slot_state) \<Rightarrow> coordinator_state \<Rightarrow> coordinator_state" where
  "on_slot sid f st = st\<lparr>co_slots := modify sid f (co_slots st)\<rparr>"

definition on_intent ::
  "string \<Rightarrow> (work_intent \<Rightarrow> work_intent) \<Rightarrow> coordinator_state \<Rightarrow> coordinator_state" where
  "on_intent iid f st = st\<lparr>co_intents := modify iid f (co_intents st)\<rparr>"

text \<open>\<open>slots.entry(slot_id).or_insert_with(|| SlotState::new(role))\<close>.\<close>

definition ensure_slot :: "string \<Rightarrow> team_role \<Rightarrow> coordinator_state \<Rightarrow> coordinator_state" where
  "ensure_slot sid role st =
     (if slot_at st sid = None
      then st\<lparr>co_slots := bt_insert sid (new_slot role) (co_slots st)\<rparr> else st)"

text \<open>\<open>for id in ids { if let Some(intent) = intents.get_mut(id) { intent.state = s } }\<close>.\<close>

definition set_states ::
  "work_intent_state \<Rightarrow> string list \<Rightarrow> coordinator_state \<Rightarrow> coordinator_state" where
  "set_states s iids st = fold (\<lambda>iid. on_intent iid (\<lambda>i. i\<lparr>wi_state := s\<rparr>)) iids st"

definition intent_list :: "coordinator_state \<Rightarrow> work_intent list" where
  "intent_list st = vals (co_intents st)"

section \<open>Snapshots\<close>

definition slot_phase_of :: "slot_state \<Rightarrow> slot_phase" where
  "slot_phase_of sl =
     (if sl_paused sl then SlotPhase_Paused
      else if (case sl_active sl of Some a \<Rightarrow> ac_turn a \<noteq> None | None \<Rightarrow> False) then SlotPhase_Running
      else if sl_active sl \<noteq> None then SlotPhase_Starting
      else if sl_constraint sl \<noteq> Constraint_Ready then SlotPhase_Blocked
      else if queued_ids sl \<noteq> [] then SlotPhase_Queued
      else SlotPhase_Idle)"

definition or_else :: "'a option \<Rightarrow> 'a option \<Rightarrow> 'a option" where
  "or_else x y = (case x of Some v \<Rightarrow> Some v | None \<Rightarrow> y)"

definition slot_snapshot :: "coordinator_state \<Rightarrow> string \<Rightarrow> slot_work_snapshot option" where
  "slot_snapshot st sid = (case slot_at st sid of
      None \<Rightarrow> None
    | Some sl \<Rightarrow> Some
        \<lparr>sn_slot = sid, sn_role = sl_role sl, sn_phase = slot_phase_of sl,
         sn_queued_foreground = length (sl_foreground sl),
         sn_queued_background =
           length (sl_directed sl) + length (sl_control sl) + length (sl_background sl),
         sn_active_batch = map_option ac_batch (sl_active sl),
         sn_active_turn = Option.bind (sl_active sl) ac_turn,
         sn_active_started = Option.bind (sl_active sl) ac_started,
         sn_constraint = sl_constraint sl,
         sn_run = or_else
           (Option.bind (sl_active sl) (\<lambda>a. first_opt (ba_runs (ac_batch a))))
           (find_map (\<lambda>iid. Option.bind (intent_at st iid) wi_run) (queued_ids sl))\<rparr>)"

definition starting_batch :: "work_intent \<Rightarrow> string option" where
  "starting_batch i = (case wi_state i of Intent_Starting b _ \<Rightarrow> Some b | _ \<Rightarrow> None)"

definition running_batch :: "work_intent \<Rightarrow> string option" where
  "running_batch i = (case wi_state i of Intent_Running b _ _ \<Rightarrow> Some b | _ \<Rightarrow> None)"

definition is_failed :: "work_intent \<Rightarrow> bool" where
  "is_failed i = (case wi_state i of Intent_Failed _ \<Rightarrow> True | _ \<Rightarrow> False)"

definition slot_paused :: "coordinator_state \<Rightarrow> string \<Rightarrow> bool" where
  "slot_paused st sid = (case slot_at st sid of Some sl \<Rightarrow> sl_paused sl | None \<Rightarrow> False)"

definition run_leases :: "coordinator_state \<Rightarrow> string \<Rightarrow> enqueue_lease_record list" where
  "run_leases st rid = filter (\<lambda>r. le_run (lr_lease r) = Some rid) (vals (co_leases st))"

definition run_intents :: "coordinator_state \<Rightarrow> string \<Rightarrow> work_intent list" where
  "run_intents st rid = filter (\<lambda>i. wi_run i = Some rid) (intent_list st)"

definition run_summary :: "coordinator_state \<Rightarrow> string \<Rightarrow> run_work_summary" where
  "run_summary st rid =
    (let associated = run_intents st rid
     in \<lparr>su_run = rid,
         su_queued = length (filter (\<lambda>i. wi_state i = Intent_Queued) associated),
         su_starting = length (remdups (filter_map starting_batch associated)),
         su_running = length (remdups (filter_map running_batch associated)),
         su_leases = length (run_leases st rid),
         su_paused = length (filter (\<lambda>i. wi_state i = Intent_Queued \<and> slot_paused st (wi_slot i))
           associated),
         su_failed = length (filter is_failed associated),
         su_slots = filter_map (slot_snapshot st)
           (btree_set (map wi_slot associated @ map (\<lambda>r. le_slot (lr_lease r)) (run_leases st rid)))\<rparr>)"

definition run_summaries :: "coordinator_state \<Rightarrow> string list \<Rightarrow> run_work_summary list" where
  "run_summaries st rids = map (run_summary st) (btree_set rids)"

definition all_run_ids :: "coordinator_state \<Rightarrow> string list" where
  "all_run_ids st = btree_set
     (filter_map wi_run (intent_list st)
      @ filter_map (\<lambda>r. le_run (lr_lease r)) (vals (co_leases st)))"

text \<open>What the coordinator calls on the port after it has dropped its lock, in order.\<close>

datatype port_call =
    Apply_Summary run_work_summary
  | Publish_Slot slot_work_snapshot
  | Abort_Binding run_binding

definition publish ::
  "run_work_summary list \<Rightarrow> slot_work_snapshot option \<Rightarrow> port_call list" where
  "publish summaries snap =
     map Apply_Summary summaries @ (case snap of None \<Rightarrow> [] | Some s \<Rightarrow> [Publish_Slot s])"

fun make_call :: "'p run_causality_port \<Rightarrow> port_call \<Rightarrow> 'p \<Rightarrow> 'p" where
  "make_call port (Apply_Summary s) p = port_apply_work_summary port s p"
| "make_call port (Publish_Slot s) p = port_publish_slot_work port s p"
| "make_call port (Abort_Binding b) p = port_abort_binding port b p"

definition make_calls :: "'p run_causality_port \<Rightarrow> port_call list \<Rightarrow> 'p \<Rightarrow> 'p" where
  "make_calls port calls p = fold (make_call port) calls p"

definition is_open_summary :: "run_work_summary \<Rightarrow> bool" where
  "is_open_summary s \<longleftrightarrow> su_queued s > 0 \<or> su_starting s > 0 \<or> su_running s > 0
     \<or> su_leases s > 0 \<or> su_paused s > 0"

definition coordinator_snapshot :: "string \<Rightarrow> coordinator_state \<Rightarrow> coordinator_snapshot" where
  "coordinator_snapshot generation st =
     \<lparr>cs_generation = generation,
      cs_slots = filter_map (slot_snapshot st) (keys (co_slots st)),
      cs_active_run = find is_open_summary (map (run_summary st) (all_run_ids st))\<rparr>"

section \<open>Look-up after update\<close>

lemma slot_at_on_slot [simp]:
  "slot_at (on_slot sid f st) k = (if k = sid then map_option f (slot_at st k) else slot_at st k)"
  by (simp add: on_slot_def map_of_modify)

lemma intent_at_on_intent [simp]:
  "intent_at (on_intent iid f st) k =
     (if k = iid then map_option f (intent_at st k) else intent_at st k)"
  by (simp add: on_intent_def map_of_modify)

lemma on_slot_frame [simp]:
  "co_intents (on_slot sid f st) = co_intents st"
  "co_leases (on_slot sid f st) = co_leases st"
  "co_interrupted (on_slot sid f st) = co_interrupted st"
  "co_next_operation (on_slot sid f st) = co_next_operation st"
  by (simp_all add: on_slot_def)

lemma on_intent_frame [simp]:
  "co_slots (on_intent iid f st) = co_slots st"
  "co_leases (on_intent iid f st) = co_leases st"
  "co_interrupted (on_intent iid f st) = co_interrupted st"
  "co_next_operation (on_intent iid f st) = co_next_operation st"
  by (simp_all add: on_intent_def)

lemma ensure_slot_frame [simp]:
  "co_intents (ensure_slot sid role st) = co_intents st"
  "co_leases (ensure_slot sid role st) = co_leases st"
  "co_interrupted (ensure_slot sid role st) = co_interrupted st"
  "co_next_operation (ensure_slot sid role st) = co_next_operation st"
  by (simp_all add: ensure_slot_def)

lemma slot_at_ensure [simp]:
  "slot_at (ensure_slot sid role st) k =
     (if k = sid then Some (case slot_at st sid of None \<Rightarrow> new_slot role | Some sl \<Rightarrow> sl)
      else slot_at st k)"
  by (auto simp: ensure_slot_def split: option.split)

lemma set_states_frame [simp]:
  "co_slots (set_states s iids st) = co_slots st"
  "co_leases (set_states s iids st) = co_leases st"
  "co_interrupted (set_states s iids st) = co_interrupted st"
  "co_next_operation (set_states s iids st) = co_next_operation st"
  by (induction iids arbitrary: st) (simp_all add: set_states_def)

lemma intent_at_set_states [simp]:
  "intent_at (set_states s iids st) k =
     (if k \<in> set iids then map_option (\<lambda>i. i\<lparr>wi_state := s\<rparr>) (intent_at st k) else intent_at st k)"
proof (induction iids arbitrary: st)
  case (Cons iid iids)
  then show ?case
    by (cases "intent_at st k") (auto simp: set_states_def)
qed (simp add: set_states_def)

lemma intent_keys_on_intent [simp]: "keys (co_intents (on_intent iid f st)) = keys (co_intents st)"
  by (simp add: on_intent_def)

lemma intent_keys_set_states [simp]: "keys (co_intents (set_states s iids st)) = keys (co_intents st)"
  by (induction iids arbitrary: st) (simp_all add: set_states_def)

lemma slot_keys_on_slot [simp]: "keys (co_slots (on_slot sid f st)) = keys (co_slots st)"
  by (simp add: on_slot_def)

lemma slot_queue_update [simp]:
  "slot_queue (update_queue p f sl) q = (if q = p then f (slot_queue sl q) else slot_queue sl q)"
  by (cases p; cases q) simp_all

lemma update_queue_frame [simp]:
  "sl_active (update_queue p f sl) = sl_active sl"
  "sl_paused (update_queue p f sl) = sl_paused sl"
  "sl_constraint (update_queue p f sl) = sl_constraint sl"
  "sl_removed (update_queue p f sl) = sl_removed sl"
  "sl_failures (update_queue p f sl) = sl_failures sl"
  by (cases p; simp)+

lemma slot_queue_remove [simp]: "slot_queue (remove_queued iid sl) p = drop_all iid (slot_queue sl p)"
  by (cases p) (simp_all add: remove_queued_def)

lemma remove_queued_frame [simp]:
  "sl_active (remove_queued iid sl) = sl_active sl"
  "sl_paused (remove_queued iid sl) = sl_paused sl"
  "sl_constraint (remove_queued iid sl) = sl_constraint sl"
  "sl_removed (remove_queued iid sl) = sl_removed sl"
  "sl_failures (remove_queued iid sl) = sl_failures sl"
  by (simp_all add: remove_queued_def)

lemma drop_all_filter: "drop_all x (filter P xs) = filter (\<lambda>y. y \<noteq> x \<and> P y) xs"
  by (simp add: drop_all_def conj_commute)

lemma slot_queue_remove_all:
  "slot_queue (fold remove_queued iids sl) p = filter (\<lambda>y. y \<notin> set iids) (slot_queue sl p)"
proof (induction iids arbitrary: sl)
  case (Cons iid iids)
  then show ?case
    by (simp add: drop_all_def conj_commute)
qed simp

lemma fold_remove_queued_frame [simp]:
  "sl_active (fold remove_queued iids sl) = sl_active sl"
  "sl_paused (fold remove_queued iids sl) = sl_paused sl"
  "sl_constraint (fold remove_queued iids sl) = sl_constraint sl"
  "sl_removed (fold remove_queued iids sl) = sl_removed sl"
  "sl_failures (fold remove_queued iids sl) = sl_failures sl"
  by (induction iids arbitrary: sl) simp_all

lemma clear_work_fields [simp]:
  "slot_queue (clear_work sl) p = []" "sl_active (clear_work sl) = None"
  "sl_paused (clear_work sl) = sl_paused sl" "sl_removed (clear_work sl) = sl_removed sl"
  "sl_constraint (clear_work sl) = sl_constraint sl"
  by (cases p) (simp_all add: clear_work_def)

lemma new_slot_fields [simp]:
  "slot_queue (new_slot role) p = []" "sl_active (new_slot role) = None"
  "sl_paused (new_slot role) = False"
  by (cases p) (simp_all add: new_slot_def)

lemma slot_queue_frame [simp]:
  "slot_queue (sl\<lparr>sl_active := a\<rparr>) p = slot_queue sl p"
  "slot_queue (sl\<lparr>sl_paused := b\<rparr>) p = slot_queue sl p"
  "slot_queue (sl\<lparr>sl_role := r\<rparr>) p = slot_queue sl p"
  "slot_queue (sl\<lparr>sl_constraint := c\<rparr>) p = slot_queue sl p"
  "slot_queue (sl\<lparr>sl_known_unread := u\<rparr>) p = slot_queue sl p"
  "slot_queue (sl\<lparr>sl_failures := m\<rparr>) p = slot_queue sl p"
  "slot_queue (sl\<lparr>sl_applied_mcp := x\<rparr>) p = slot_queue sl p"
  "slot_queue (sl\<lparr>sl_pending_mcp := x\<rparr>) p = slot_queue sl p"
  "slot_queue (sl\<lparr>sl_mcp_in_progress := b\<rparr>) p = slot_queue sl p"
  "slot_queue (sl\<lparr>sl_removed := b\<rparr>) p = slot_queue sl p"
  by (cases p; simp)+

lemma set_queued_ids: "iid \<in> set (queued_ids sl) \<longleftrightarrow> (\<exists>p. iid \<in> set (slot_queue sl p))"
proof
  assume "iid \<in> set (queued_ids sl)"
  then show "\<exists>p. iid \<in> set (slot_queue sl p)"
    by (auto simp: queued_ids_def intro: exI [of _ Priority_Foreground]
        exI [of _ Priority_Control] exI [of _ Priority_Directed] exI [of _ Priority_Background])
next
  assume "\<exists>p. iid \<in> set (slot_queue sl p)"
  then obtain p where "iid \<in> set (slot_queue sl p)" ..
  then show "iid \<in> set (queued_ids sl)"
    by (cases p) (auto simp: queued_ids_def)
qed

end
