(* ===== verification/Work_Coordinator.thy ===== *)
theory Work_Coordinator
  imports Work_State
begin

text \<open>
  The operations of \<open>SlotWorkCoordinator\<close>, \<open>work_coordinator/coordinator.rs\<close> of
  \<open>crates/aionui-team\<close>, in the source's order. Every operation runs under one lock and calls the
  run-causality port only after dropping it (only \<open>acquire_enqueue\<close> binds a run while it holds the
  lock), so each is a function from the state to its result, the list of port calls it makes, and
  the new state. \<open>generation\<close> is the coordinator's \<open>session_generation\<close>; \<open>generate_id()\<close> and
  \<open>now_ms()\<close> are arguments. An operation whose \<open>expect\<close> depends on the state's integrity
  returns an option, whose \<^const>\<open>None\<close> is the panic. A loop that visits a list and treats each
  element by a test no iteration changes is written with \<^const>\<open>filter\<close>.
\<close>

section \<open>Enqueueing\<close>

definition validate_enqueue_constraint :: "string \<Rightarrow> slot_state \<Rightarrow> team_error option" where
  "validate_enqueue_constraint sid sl =
     (if sl_removed sl then Some (TeamError_InvalidRequest (''Team slot was removed: '' @ sid))
      else case sl_constraint sl of
        Constraint_Ready \<Rightarrow> None
      | Constraint_Starting _ \<Rightarrow> None
      | Constraint_Failed _ classification \<Rightarrow> Some (TeamError_InvalidRequest
          (''Team slot runtime failed ('' @ classification @ ''): '' @ sid))
      | Constraint_Removing _ \<Rightarrow> Some (TeamError_InvalidRequest
          (''Team slot is being removed: '' @ sid))
      | Constraint_SessionStopped \<Rightarrow> Some (TeamError_InvalidRequest
          (''Team session stopped for slot: '' @ sid)))"

definition no_binding :: run_binding where
  "no_binding = \<lparr>rb_run = None, rb_created = False, rb_intervention = False\<rparr>"

definition inherited_run :: "coordinator_state \<Rightarrow> string \<Rightarrow> string option" where
  "inherited_run st caller =
     Option.bind (Option.bind (slot_at st caller) sl_active) (\<lambda>a. first_opt (ba_runs (ac_batch a)))"

definition inherit_or_bind ::
  "'p run_causality_port \<Rightarrow> enqueue_request \<Rightarrow> string option \<Rightarrow> 'p \<Rightarrow> run_binding \<times> 'p" where
  "inherit_or_bind port rq inherited p = (case inherited of
      Some rid \<Rightarrow> (\<lparr>rb_run = Some rid, rb_created = False, rb_intervention = False\<rparr>, p)
    | None \<Rightarrow> port_bind_system_enqueue port rq p)"

definition resolve_binding ::
  "'p run_causality_port \<Rightarrow> coordinator_state \<Rightarrow> enqueue_request \<Rightarrow> 'p \<Rightarrow> run_binding \<times> 'p" where
  "resolve_binding port st rq p = (case rq_binding rq of
      Binding_Background \<Rightarrow> (no_binding, p)
    | Binding_InheritRunningBatch caller \<Rightarrow>
        inherit_or_bind port rq (inherited_run st caller) p
    | Binding_UserVisible \<Rightarrow> port_bind_enqueue port rq p
    | Binding_ActiveRunOrBackground \<Rightarrow> port_bind_enqueue port rq p
    | Binding_SystemInitiated inherit_from \<Rightarrow>
        inherit_or_bind port rq (Option.bind inherit_from (inherited_run st)) p)"

definition acquire_enqueue ::
  "'p run_causality_port \<Rightarrow> string \<Rightarrow> enqueue_request \<Rightarrow> string
     \<Rightarrow> coordinator_state \<times> 'p \<Rightarrow> (team_error + enqueue_lease) \<times> coordinator_state \<times> 'p" where
  "acquire_enqueue port generation rq lease_id stp =
    (let (st, p) = stp;
         st1 = on_slot (rq_slot rq) (\<lambda>sl. sl\<lparr>sl_role := rq_role rq\<rparr>)
                 (ensure_slot (rq_slot rq) (rq_role rq) st)
     in case Option.bind (slot_at st1 (rq_slot rq)) (validate_enqueue_constraint (rq_slot rq)) of
       Some err \<Rightarrow> (Inl err, st1, p)
     | None \<Rightarrow>
         (let (binding, p') = resolve_binding port st1 rq p;
              lease = \<lparr>le_id = lease_id, le_generation = generation, le_slot = rq_slot rq,
                       le_role = rq_role rq, le_source = rq_source rq, le_run = rb_run binding\<rparr>
          in (Inr lease,
              st1\<lparr>co_leases := AList.update lease_id \<lparr>lr_lease = lease, lr_binding = binding\<rparr>
                                (co_leases st1)\<rparr>,
              p')))"

definition enqueue_disposition_of :: "slot_state \<Rightarrow> enqueue_disposition" where
  "enqueue_disposition_of sl = (case sl_constraint sl of
      Constraint_Starting _ \<Rightarrow> Disposition_BlockedRuntimeStarting
    | _ \<Rightarrow> if sl_active sl = None \<and> queued_ids sl = [] then Disposition_Accepted
          else Disposition_Queued)"

definition enqueue_in_slot :: "enqueue_lease \<Rightarrow> string option \<Rightarrow> string \<Rightarrow> slot_state \<Rightarrow> slot_state" where
  "enqueue_in_slot lease message iid sl =
    (let sl1 = (if resumes_paused_slot (le_source lease) then sl\<lparr>sl_paused := False\<rparr> else sl);
         sl2 = (case message of
                  Some m \<Rightarrow> sl1\<lparr>sl_known_unread := insert m (sl_known_unread sl1)\<rparr>
                | None \<Rightarrow> sl1)
     in update_queue (source_priority (le_source lease))
          (\<lambda>q. if le_source lease = Source_LeadIntervention then iid # q else q @ [iid]) sl2)"

definition commit_enqueue ::
  "string \<Rightarrow> enqueue_lease \<Rightarrow> string option \<Rightarrow> string \<Rightarrow> timestamp_ms \<Rightarrow> coordinator_state
     \<Rightarrow> ((team_error + enqueue_commit) \<times> port_call list \<times> coordinator_state) option" where
  "commit_enqueue generation lease message iid now st =
    (case map_of (co_leases st) (le_id lease) of
       None \<Rightarrow> Some (Inl (TeamError_InvalidRequest ''enqueue lease is no longer active''), [], st)
     | Some rec \<Rightarrow>
         if lr_lease rec \<noteq> lease \<or> le_generation lease \<noteq> generation
         then Some (Inl (TeamError_InvalidRequest ''stale enqueue lease owner''), [], st)
         else if requires_mailbox_message (le_source lease) \<and> message = None
         then Some (Inl (TeamError_InvalidRequest
                (source_debug (le_source lease) @ '' requires a mailbox message'')), [], st)
         else case slot_at st (le_slot lease) of
           None \<Rightarrow> Some (Inl (TeamError_AgentNotFound (le_slot lease)), [], st)
         | Some sl \<Rightarrow>
             (case validate_enqueue_constraint (le_slot lease) sl of
                Some err \<Rightarrow> Some (Inl err, [], st)
              | None \<Rightarrow>
                 (let intent = \<lparr>wi_id = iid, wi_generation = generation, wi_slot = le_slot lease,
                                wi_role = le_role lease, wi_source = le_source lease,
                                wi_priority = source_priority (le_source lease),
                                wi_message = message, wi_run = le_run lease,
                                wi_created = now, wi_state = Intent_Queued\<rparr>;
                      st1 = st\<lparr>co_leases := AList.delete (le_id lease) (co_leases st),
                               co_intents := AList.update iid intent (co_intents st)\<rparr>;
                      st2 = on_slot (le_slot lease) (enqueue_in_slot lease message iid) st1
                  in Option.bind (slot_snapshot st2 (le_slot lease)) (\<lambda>snap. Some
                       (Inr \<lparr>ec_intent = iid, ec_run = le_run lease,
                             ec_disposition = enqueue_disposition_of sl, ec_slot = snap\<rparr>,
                        publish (run_summaries st2 (case le_run lease of Some r \<Rightarrow> [r] | None \<Rightarrow> []))
                          (Some snap),
                        st2)))))"

definition opt_list :: "'a option \<Rightarrow> 'a list" where
  "opt_list x = (case x of Some v \<Rightarrow> [v] | None \<Rightarrow> [])"

definition abort_enqueue ::
  "string \<Rightarrow> enqueue_lease \<Rightarrow> coordinator_state
     \<Rightarrow> commit_result \<times> port_call list \<times> coordinator_state" where
  "abort_enqueue generation lease st =
    (case map_of (co_leases st) (le_id lease) of
       None \<Rightarrow> (Commit_StaleOwner, [], st)
     | Some rec \<Rightarrow>
         if lr_lease rec \<noteq> lease \<or> le_generation lease \<noteq> generation
         then (Commit_StaleOwner, [], st)
         else
           (let st1 = st\<lparr>co_leases := AList.delete (le_id lease) (co_leases st)\<rparr>;
                remove_empty_run = (case le_run lease of
                    None \<Rightarrow> False
                  | Some rid \<Rightarrow> run_intents st1 rid = [] \<and> run_leases st1 rid = [])
            in (Commit_Committed,
                (if remove_empty_run then [Abort_Binding (lr_binding rec)] else [])
                  @ publish (run_summaries st1 (opt_list (le_run lease)))
                      (slot_snapshot st1 (le_slot lease)),
                st1)))"


section \<open>Mailbox reconciliation\<close>

definition stale_signal :: "coordinator_state \<Rightarrow> string list \<Rightarrow> string set \<Rightarrow> string \<Rightarrow> bool" where
  "stale_signal st unread candidates iid = (case intent_at st iid of
      None \<Rightarrow> False
    | Some i \<Rightarrow> (case wi_message i of
        None \<Rightarrow> False
      | Some m \<Rightarrow> m \<notin> set unread \<and> iid \<in> candidates))"

definition already_owned :: "coordinator_state \<Rightarrow> string \<Rightarrow> string \<Rightarrow> bool" where
  "already_owned st sid m \<longleftrightarrow>
     (\<exists>i \<in> set (intent_list st). wi_slot i = sid \<and> wi_message i = Some m
        \<and> \<not> intent_is_terminal (wi_state i))"

text \<open>\<open>mk m\<close> is the id generated for the recovery intent of message \<open>m\<close>: one call of
  \<open>reconcile\<close> generates at most one per message.\<close>

definition recover_message ::
  "string \<Rightarrow> string \<Rightarrow> team_role \<Rightarrow> (string \<Rightarrow> string) \<Rightarrow> (string \<Rightarrow> timestamp_ms) \<Rightarrow> string
     \<Rightarrow> coordinator_state \<times> string list \<Rightarrow> coordinator_state \<times> string list" where
  "recover_message generation sid role mk now m acc =
    (let (st, created) = acc in
     if already_owned st sid m then (st, created)
     else
       (on_slot sid (update_queue Priority_Background (\<lambda>q. q @ [mk m]))
          (st\<lparr>co_intents := AList.update (mk m)
             \<lparr>wi_id = mk m, wi_generation = generation, wi_slot = sid, wi_role = role,
              wi_source = Source_RecoveryDrain, wi_priority = Priority_Background,
              wi_message = Some m, wi_run = None, wi_created = now m, wi_state = Intent_Queued\<rparr>
             (co_intents st)\<rparr>),
        created @ [mk m]))"

definition reconcile_mailbox_snapshot ::
  "string \<Rightarrow> string \<Rightarrow> string list \<Rightarrow> team_role \<Rightarrow> string set
     \<Rightarrow> (string \<Rightarrow> string) \<Rightarrow> (string \<Rightarrow> timestamp_ms) \<Rightarrow> coordinator_state
     \<Rightarrow> reconcile_projection \<times> coordinator_state" where
  "reconcile_mailbox_snapshot generation sid unread role candidates mk now st =
    (let st1 = on_slot sid (\<lambda>sl. sl\<lparr>sl_role := role, sl_known_unread := set unread,
                 sl_failures := filter (\<lambda>(m, _). m \<in> set unread) (sl_failures sl)\<rparr>)
                 (ensure_slot sid role st);
         queued = (case slot_at st1 sid of Some sl \<Rightarrow> queued_ids sl | None \<Rightarrow> []);
         present = filter (\<lambda>iid. intent_at st1 iid \<noteq> None) queued;
         cleared = filter (stale_signal st1 unread candidates) present;
         retained = filter (\<lambda>iid. \<not> stale_signal st1 unread candidates iid) present;
         st2 = on_slot sid (fold remove_queued cleared) (set_states Intent_Completed cleared st1);
         (st3, created) = fold (recover_message generation sid role mk now) unread (st2, [])
     in (\<lparr>rp_created = created, rp_retained = retained, rp_cleared = cleared\<rparr>, st3))"

definition mailbox_reconcile_candidates :: "coordinator_state \<Rightarrow> string \<Rightarrow> string set" where
  "mailbox_reconcile_candidates st sid = (case slot_at st sid of
      None \<Rightarrow> {}
    | Some sl \<Rightarrow> set (filter (\<lambda>iid. case intent_at st iid of
                     Some i \<Rightarrow> wi_message i \<noteq> None | None \<Rightarrow> False) (queued_ids sl)))"


section \<open>Claiming\<close>

definition claim_order :: "work_priority list" where
  "claim_order = [Priority_Foreground, Priority_Control, Priority_Directed, Priority_Background]"

definition is_barrier :: "work_source \<Rightarrow> bool" where
  "is_barrier s \<longleftrightarrow> s \<in> {Source_UserCommand, Source_LeadIntervention}"

definition intent_source :: "coordinator_state \<Rightarrow> string \<Rightarrow> work_source option" where
  "intent_source st iid = map_option wi_source (intent_at st iid)"

definition barrier_id :: "coordinator_state \<Rightarrow> string \<Rightarrow> bool" where
  "barrier_id st iid = (case intent_source st iid of Some s \<Rightarrow> is_barrier s | None \<Rightarrow> False)"

text \<open>The message intents of one lane that form the next batch, and whether it is a command.\<close>

definition select_batch :: "coordinator_state \<Rightarrow> string list \<Rightarrow> string list \<times> bool" where
  "select_batch st fifo = (case fifo of
      [] \<Rightarrow> ([], False)
    | head # _ \<Rightarrow>
        if barrier_id st head
        then ([head], intent_source st head = Some Source_UserCommand)
        else (takeWhile (\<lambda>iid. \<not> barrier_id st iid) fifo, False))"

definition has_message :: "coordinator_state \<Rightarrow> string \<Rightarrow> bool" where
  "has_message st iid = (case intent_at st iid of Some i \<Rightarrow> wi_message i \<noteq> None | None \<Rightarrow> False)"

definition claim_batch ::
  "string \<Rightarrow> string \<Rightarrow> string \<Rightarrow> work_priority \<Rightarrow> string list \<Rightarrow> coordinator_state
     \<Rightarrow> reconcile_decision \<times> port_call list \<times> coordinator_state" where
  "claim_batch generation sid batch_id priority fifo st =
    (let (ids, is_command) = select_batch st fifo;
         operation_id = sat_inc (co_next_operation st);
         messages = filter_map (\<lambda>iid. Option.bind (intent_at st iid) wi_message) ids;
         runs = fold (\<lambda>r acc. push_new acc r)
                  (filter_map (\<lambda>iid. Option.bind (intent_at st iid) wi_run) ids) [];
         batch = \<lparr>ba_id = batch_id, ba_generation = generation, ba_slot = sid, ba_intents = ids,
                  ba_messages = messages, ba_observed = [], ba_priority = priority,
                  ba_runs = runs, ba_operation = operation_id, ba_is_command = is_command\<rparr>;
         st1 = set_states (Intent_Starting batch_id operation_id) ids
                 (st\<lparr>co_next_operation := operation_id\<rparr>);
         st2 = on_slot sid (\<lambda>sl. (fold remove_queued ids sl)
                 \<lparr>sl_active := Some \<lparr>ac_batch = batch, ac_turn = None, ac_started = None\<rparr>\<rparr>) st1
     in (Decision_Claim batch, publish (run_summaries st2 runs) (slot_snapshot st2 sid), st2))"

definition next_batch ::
  "string \<Rightarrow> string \<Rightarrow> string \<Rightarrow> coordinator_state
     \<Rightarrow> reconcile_decision \<times> port_call list \<times> coordinator_state" where
  "next_batch generation sid batch_id st =
    (case slot_at st sid of
       None \<Rightarrow> (Decision_Quiescent, [], st)
     | Some sl \<Rightarrow>
         if sl_active sl \<noteq> None then (Decision_WaitingForCompletion, [], st)
         else if sl_constraint sl \<noteq> Constraint_Ready
         then (Decision_Blocked (sl_constraint sl), [], st)
         else if sl_paused sl then (Decision_Quiescent, [], st)
         else case find (\<lambda>p. slot_queue sl p \<noteq> []) claim_order of
           None \<Rightarrow> (Decision_Quiescent, [], st)
         | Some priority \<Rightarrow>
             (let fifo = filter (has_message st) (slot_queue sl priority)
              in if fifo = [] then (Decision_SettleSignals (slot_queue sl priority), [], st)
                 else claim_batch generation sid batch_id priority fifo st))"

definition active_batch_id :: "coordinator_state \<Rightarrow> string \<Rightarrow> string option" where
  "active_batch_id st sid =
     map_option (\<lambda>a. ba_id (ac_batch a)) (Option.bind (slot_at st sid) sl_active)"

text \<open>The rows newly bound: neither claimed by the batch nor already observed, each once.\<close>

definition observe_row :: "work_batch \<Rightarrow> string \<Rightarrow> string list \<Rightarrow> string list" where
  "observe_row batch m added =
     (if m \<in> set (ba_messages batch) \<or> m \<in> set (ba_observed batch) \<or> m \<in> set added
      then added else added @ [m])"

definition observe_messages ::
  "string \<Rightarrow> string \<Rightarrow> string list \<Rightarrow> coordinator_state
     \<Rightarrow> observe_messages_result \<times> coordinator_state" where
  "observe_messages sid expected message_ids st =
    (case Option.bind (slot_at st sid) sl_active of
       None \<Rightarrow> (\<lparr>ob_batch = None, ob_count = 0\<rparr>, st)
     | Some a \<Rightarrow>
         if ba_id (ac_batch a) \<noteq> expected then (\<lparr>ob_batch = None, ob_count = 0\<rparr>, st)
         else
           (let added = fold (observe_row (ac_batch a)) message_ids [];
                batch = (ac_batch a)\<lparr>ba_observed := ba_observed (ac_batch a) @ added\<rparr>
            in (\<lparr>ob_batch = Some (ba_id (ac_batch a)), ob_count = length added\<rparr>,
                on_slot sid (\<lambda>sl. sl\<lparr>sl_active := Some (a\<lparr>ac_batch := batch\<rparr>)\<rparr>) st)))"


section \<open>The life of a batch\<close>

definition is_current_batch :: "string \<Rightarrow> coordinator_state \<Rightarrow> work_batch \<Rightarrow> bool" where
  "is_current_batch generation st batch \<longleftrightarrow>
     ba_generation batch = generation \<and>
     (case Option.bind (slot_at st (ba_slot batch)) sl_active of
        None \<Rightarrow> False
      | Some a \<Rightarrow> ba_id (ac_batch a) = ba_id batch
          \<and> ba_operation (ac_batch a) = ba_operation batch
          \<and> ba_generation (ac_batch a) = ba_generation batch)"

definition is_batch_cancelled :: "coordinator_state \<Rightarrow> work_batch \<Rightarrow> bool" where
  "is_batch_cancelled st batch \<longleftrightarrow>
     (\<forall>iid \<in> set (ba_intents batch). case intent_at st iid of
        Some i \<Rightarrow> intent_is_cancelled (wi_state i) | None \<Rightarrow> False)"

definition is_active_batch ::
  "string \<Rightarrow> coordinator_state \<Rightarrow> work_batch \<Rightarrow> string option \<Rightarrow> bool" where
  "is_active_batch generation st batch turn \<longleftrightarrow>
     is_current_batch generation st batch \<and>
     (case Option.bind (slot_at st (ba_slot batch)) sl_active of
        Some a \<Rightarrow> ac_turn a = turn | None \<Rightarrow> False)"

definition must_cancel_start :: "coordinator_state \<Rightarrow> string \<Rightarrow> bool" where
  "must_cancel_start st sid = (case slot_at st sid of
      Some sl \<Rightarrow> sl_paused sl \<or> sl_constraint sl \<noteq> Constraint_Ready | None \<Rightarrow> False)"

definition mark_started ::
  "string \<Rightarrow> work_batch \<Rightarrow> string \<Rightarrow> timestamp_ms \<Rightarrow> coordinator_state
     \<Rightarrow> start_commit_result \<times> port_call list \<times> coordinator_state" where
  "mark_started generation batch turn now st =
    (if \<not> is_current_batch generation st batch then
       (if is_batch_cancelled st batch then Start_CancelImmediately else Start_StaleOwner, [], st)
     else
       (let st1 = set_states (Intent_Running (ba_id batch) (ba_operation batch) turn)
                    (ba_intents batch) st;
            st2 = on_slot (ba_slot batch) (\<lambda>sl. sl\<lparr>sl_active := map_option
                    (\<lambda>a. a\<lparr>ac_turn := Some turn, ac_started := Some now\<rparr>) (sl_active sl)\<rparr>) st1
        in (if must_cancel_start st (ba_slot batch) then Start_CancelImmediately else Start_Accepted,
            publish (run_summaries st2 (ba_runs batch)) (slot_snapshot st2 (ba_slot batch)),
            st2)))"

definition push_fronts :: "work_priority \<Rightarrow> string list \<Rightarrow> slot_state \<Rightarrow> slot_state" where
  "push_fronts p iids sl = fold (\<lambda>iid. update_queue p (\<lambda>q. iid # q)) (rev iids) sl"

definition retry_start ::
  "string \<Rightarrow> work_batch \<Rightarrow> coordinator_state
     \<Rightarrow> commit_result \<times> port_call list \<times> coordinator_state" where
  "retry_start generation batch st =
    (if \<not> is_current_batch generation st batch then (Commit_StaleOwner, [], st)
     else
       (let st1 = set_states Intent_Queued (ba_intents batch) st;
            st2 = on_slot (ba_slot batch) (\<lambda>sl. push_fronts (ba_priority batch) (ba_intents batch)
                    (sl\<lparr>sl_active := None\<rparr>)) st1
        in (Commit_Committed,
            publish (run_summaries st2 (ba_runs batch)) (slot_snapshot st2 (ba_slot batch)),
            st2)))"

text \<open>The intents a completion closes: the batch's own, and every open intent of the slot whose
  message the turn has read.\<close>

definition completes :: "work_batch \<Rightarrow> string \<Rightarrow> work_intent \<Rightarrow> bool" where
  "completes active sid i \<longleftrightarrow>
     wi_id i \<in> set (ba_intents active) \<or>
     (wi_slot i = sid \<and> \<not> intent_is_terminal (wi_state i) \<and>
      (case wi_message i of Some m \<Rightarrow> m \<in> set (ba_observed active) | None \<Rightarrow> False))"

definition ack_ids :: "work_batch \<Rightarrow> string list" where
  "ack_ids active = fold (\<lambda>m acc. push_new acc m) (ba_observed active) (ba_messages active)"

definition complete_batch_with_ack ::
  "string \<Rightarrow> work_batch \<Rightarrow> coordinator_state
     \<Rightarrow> batch_completion_result \<times> port_call list \<times> coordinator_state" where
  "complete_batch_with_ack generation batch st =
    (case (if is_current_batch generation st batch
           then Option.bind (slot_at st (ba_slot batch)) sl_active else None) of
       None \<Rightarrow> (\<lparr>bc_result = Commit_StaleOwner, bc_ack = [], bc_runs = []\<rparr>, [], st)
     | Some a \<Rightarrow>
        (let active = ac_batch a;
             ack = ack_ids active;
             hit = completes active (ba_slot batch);
             closed = filter hit (intent_list st);
             runs = fold (\<lambda>r acc. push_new acc r) (filter_map wi_run closed) (ba_runs active);
             st1 = st\<lparr>co_intents := map_values
                     (\<lambda>i. if hit i then i\<lparr>wi_state := Intent_Completed\<rparr> else i) (co_intents st)\<rparr>;
             st2 = on_slot (ba_slot batch) (\<lambda>sl.
                     (fold remove_queued (ba_intents active @ map wi_id closed) sl)
                     \<lparr>sl_active := None, sl_failures := fold AList.delete ack (sl_failures sl)\<rparr>) st1
         in (\<lparr>bc_result = Commit_Committed, bc_ack = ack, bc_runs = runs\<rparr>,
             publish (run_summaries st2 runs) (slot_snapshot st2 (ba_slot batch)),
             st2)))"

text \<open>One failed delivery of one message: its counter, and the ids that have used up their
  attempts.\<close>

definition count_failure ::
  "string \<Rightarrow> (string, u8) hashmap \<times> string list \<Rightarrow> (string, u8) hashmap \<times> string list" where
  "count_failure m acc =
    (let (counts, exhausted) = acc;
         n = sat_inc (case map_of counts m of Some c \<Rightarrow> c | None \<Rightarrow> 0)
     in (AList.update m n counts,
         if max_message_delivery_failures \<le> n then exhausted @ [m] else exhausted))"

definition settle_deliveries ::
  "delivery_outcome \<Rightarrow> string list \<Rightarrow> slot_state \<Rightarrow> slot_state \<times> string list" where
  "settle_deliveries delivery messages sl = (case delivery of
      Delivery_NotFailed \<Rightarrow> (sl\<lparr>sl_failures := fold AList.delete messages (sl_failures sl)\<rparr>, [])
    | Delivery_Failed \<Rightarrow>
        (let (counts, exhausted) = fold count_failure messages (sl_failures sl, [])
         in (sl\<lparr>sl_failures := counts, sl_paused := (sl_paused sl \<or> exhausted \<noteq> [])\<rparr>, exhausted)))"

definition terminalize_batch ::
  "string \<Rightarrow> work_batch \<Rightarrow> work_intent_state \<Rightarrow> delivery_outcome \<Rightarrow> coordinator_state
     \<Rightarrow> batch_failure_result \<times> port_call list \<times> coordinator_state" where
  "terminalize_batch generation batch final delivery st =
    (case (if is_current_batch generation st batch then slot_at st (ba_slot batch) else None) of
       None \<Rightarrow> (\<lparr>bf_result = Commit_StaleOwner, bf_exhausted = []\<rparr>, [], st)
     | Some sl \<Rightarrow>
        (let st1 = set_states final (ba_intents batch) st;
             (sl', exhausted) = settle_deliveries delivery (ba_messages batch) (sl\<lparr>sl_active := None\<rparr>);
             st2 = on_slot (ba_slot batch) (\<lambda>_. sl') st1
         in (\<lparr>bf_result = Commit_Committed, bf_exhausted = exhausted\<rparr>,
             publish (run_summaries st2 (ba_runs batch)) (slot_snapshot st2 (ba_slot batch)),
             st2)))"

definition fail_batch ::
  "string \<Rightarrow> work_batch \<Rightarrow> string \<Rightarrow> coordinator_state
     \<Rightarrow> batch_failure_result \<times> port_call list \<times> coordinator_state" where
  "fail_batch generation batch classification st =
     terminalize_batch generation batch (Intent_Failed classification) Delivery_Failed st"

definition cancel_batch ::
  "string \<Rightarrow> work_batch \<Rightarrow> string \<Rightarrow> coordinator_state
     \<Rightarrow> commit_result \<times> port_call list \<times> coordinator_state" where
  "cancel_batch generation batch classification st =
    (let (res, calls, st') =
       terminalize_batch generation batch (Intent_Cancelled classification) Delivery_NotFailed st
     in (bf_result res, calls, st'))"

definition interrupt_batch ::
  "string \<Rightarrow> work_batch \<Rightarrow> string option \<Rightarrow> string \<Rightarrow> coordinator_state
     \<Rightarrow> interrupt_batch_result \<times> port_call list \<times> coordinator_state" where
  "interrupt_batch generation batch reason replacement st =
    (if \<not> is_current_batch generation st batch
     then (\<lparr>ib_result = Commit_StaleOwner, ib_messages = []\<rparr>, [], st)
     else
       (let st1 = set_states (Intent_Cancelled ''lead_interrupted'') (ba_intents batch) st;
            st2 = on_slot (ba_slot batch) (\<lambda>sl. sl\<lparr>sl_active := None,
                    sl_failures := fold AList.delete (ba_messages batch) (sl_failures sl)\<rparr>) st1;
            st3 = st2\<lparr>co_interrupted := AList.update (ba_id batch)
                    \<lparr>bi_reason = reason, bi_replacement = replacement\<rparr> (co_interrupted st2)\<rparr>
        in (\<lparr>ib_result = Commit_Committed, ib_messages = ba_messages batch\<rparr>,
            publish (run_summaries st3 (ba_runs batch)) (slot_snapshot st3 (ba_slot batch)),
            st3)))"

definition take_interrupt_metadata ::
  "string \<Rightarrow> coordinator_state \<Rightarrow> batch_interrupt_metadata option \<times> coordinator_state" where
  "take_interrupt_metadata bid st =
     (map_of (co_interrupted st) bid, st\<lparr>co_interrupted := AList.delete bid (co_interrupted st)\<rparr>)"


section \<open>Discarding and cancelling\<close>

definition discardable :: "coordinator_state \<Rightarrow> string \<Rightarrow> string \<Rightarrow> bool" where
  "discardable st retained iid = (case intent_at st iid of
      None \<Rightarrow> False
    | Some i \<Rightarrow> wi_message i \<noteq> Some retained
        \<and> source_priority (wi_source i) \<noteq> Priority_Control)"

definition message_of :: "coordinator_state \<Rightarrow> string \<Rightarrow> string option" where
  "message_of st iid = Option.bind (intent_at st iid) wi_message"

definition run_of :: "coordinator_state \<Rightarrow> string \<Rightarrow> string option" where
  "run_of st iid = Option.bind (intent_at st iid) wi_run"

definition discard_queued_except ::
  "string \<Rightarrow> string \<Rightarrow> coordinator_state \<Rightarrow> string list \<times> port_call list \<times> coordinator_state" where
  "discard_queued_except sid retained st =
    (let queued = (case slot_at st sid of Some sl \<Rightarrow> queued_ids sl | None \<Rightarrow> []);
         dropped = filter (discardable st retained) queued;
         st1 = set_states (Intent_Cancelled ''lead_interrupt_discarded'') dropped st;
         st2 = on_slot sid (fold remove_queued dropped) st1
     in (filter_map (message_of st) dropped, publish [] (slot_snapshot st2 sid), st2))"

definition all_present :: "coordinator_state \<Rightarrow> string list \<Rightarrow> bool" where
  "all_present st iids \<longleftrightarrow> (\<forall>iid \<in> set iids. intent_at st iid \<noteq> None)"

definition run_cancelled :: work_intent_state where
  "run_cancelled = Intent_Cancelled ''run_cancelled''"

text \<open>The slots whose active batch holds an intent of the run.\<close>

definition run_active_slots :: "coordinator_state \<Rightarrow> string \<Rightarrow> (string \<times> active_batch) list" where
  "run_active_slots st rid = filter_map
     (\<lambda>(sid, sl). case sl_active sl of
        None \<Rightarrow> None
      | Some a \<Rightarrow> if \<exists>iid \<in> set (ba_intents (ac_batch a)). run_of st iid = Some rid
                  then Some (sid, a) else None) (co_slots st)"

text \<open>\<open>for (priority, id) in retained.into_iter().rev() { queue_mut(priority).push_front(id) }\<close>.\<close>

definition requeue_front :: "coordinator_state \<Rightarrow> string list \<Rightarrow> slot_state \<Rightarrow> slot_state" where
  "requeue_front st iids sl = fold
     (\<lambda>iid. case intent_at st iid of
        Some i \<Rightarrow> update_queue (wi_priority i) (\<lambda>q. iid # q) | None \<Rightarrow> id) (rev iids) sl"

definition cancel_active ::
  "string \<Rightarrow> string \<times> active_batch \<Rightarrow> coordinator_state \<Rightarrow> coordinator_state" where
  "cancel_active rid sa st =
    (let (sid, a) = sa;
         ids = ba_intents (ac_batch a);
         mine = filter (\<lambda>iid. run_of st iid = Some rid) ids;
         others = filter (\<lambda>iid. run_of st iid \<noteq> Some rid) ids
     in on_slot sid (\<lambda>sl. requeue_front st others (sl\<lparr>sl_active := None\<rparr>))
          (set_states Intent_Queued others (set_states run_cancelled mine st)))"

definition cancel_queued :: "work_intent \<Rightarrow> coordinator_state \<Rightarrow> coordinator_state" where
  "cancel_queued i st = on_slot (wi_slot i) (remove_queued (wi_id i))
     (on_intent (wi_id i) (\<lambda>i. i\<lparr>wi_state := run_cancelled\<rparr>) st)"

definition cancel_run ::
  "string \<Rightarrow> coordinator_state
     \<Rightarrow> (cancel_run_work_result \<times> port_call list \<times> coordinator_state) option" where
  "cancel_run rid st =
    (let actives = run_active_slots st rid;
         active_ids = concat (map (\<lambda>(_, a). ba_intents (ac_batch a)) actives);
         st1 = fold (cancel_active rid) actives st;
         queued = filter (\<lambda>i. wi_run i = Some rid \<and> wi_state i = Intent_Queued) (intent_list st1);
         st2 = fold cancel_queued queued st1;
         st3 = st2\<lparr>co_leases := fold AList.delete
                 (map (\<lambda>r. le_id (lr_lease r)) (run_leases st2 rid)) (co_leases st2)\<rparr>;
         summary = run_summary st3 rid
     in if all_present st active_ids \<and> all_present st1 (map wi_id queued) then Some
          (\<lparr>cw_targets = map (\<lambda>(_, a). \<lparr>ct_batch = ac_batch a, ct_turn = ac_turn a\<rparr>) actives,
            cw_messages =
              filter_map (\<lambda>iid. if run_of st iid = Some rid then message_of st iid else None) active_ids
              @ filter_map wi_message queued,
            cw_summary = summary\<rparr>,
           [Apply_Summary summary], st3)
        else None)"

definition complete_signals ::
  "string \<Rightarrow> string list \<Rightarrow> coordinator_state
     \<Rightarrow> commit_result \<times> port_call list \<times> coordinator_state" where
  "complete_signals sid iids st =
    (if \<forall>iid \<in> set iids. case intent_at st iid of
          Some i \<Rightarrow> wi_slot i = sid \<and> wi_message i = None \<and> wi_state i = Intent_Queued
        | None \<Rightarrow> False
     then
       (let runs = filter_map (run_of st) iids;
            st1 = on_slot sid (fold remove_queued iids) (set_states Intent_Completed iids st)
        in (Commit_Committed, publish (run_summaries st1 runs) None, st1))
     else (Commit_Rejected, [], st))"

end
