(* ===== verification/Work_Runtime.thy ===== *)
theory Work_Runtime
  imports Work_Coordinator
begin

text \<open>
  The rest of \<open>SlotWorkCoordinator\<close> (\<open>work_coordinator/coordinator.rs\<close>): pausing a slot, its
  runtime constraint, the restart gate, the deferred refresh of its MCP configuration, its removal
  and the session's end. Then the coordinator as its callers see it: \<open>work_call\<close> has one
  constructor per operation, \<open>exec_call\<close> runs one against the state and the port.
\<close>

section \<open>Pausing and constraining\<close>

definition cancel_target_of :: "slot_state \<Rightarrow> batch_cancel_target option" where
  "cancel_target_of sl = map_option (\<lambda>a. \<lparr>ct_batch = ac_batch a, ct_turn = ac_turn a\<rparr>) (sl_active sl)"

definition pause_slot ::
  "string \<Rightarrow> coordinator_state
     \<Rightarrow> (pause_work_result \<times> port_call list \<times> coordinator_state) option" where
  "pause_slot sid st =
    (let st1 = on_slot sid (\<lambda>sl. sl\<lparr>sl_paused := True\<rparr>) (ensure_slot sid Role_Teammate st)
     in Option.bind (slot_snapshot st1 sid) (\<lambda>snap. Some
          (\<lparr>pw_target = Option.bind (slot_at st1 sid) cancel_target_of, pw_slot = snap\<rparr>,
           publish [] (Some snap), st1)))"

definition ends_work :: "runtime_constraint \<Rightarrow> bool" where
  "ends_work c = (case c of
      Constraint_Failed _ _ \<Rightarrow> True | Constraint_SessionStopped \<Rightarrow> True | _ \<Rightarrow> False)"

text \<open>The state an open intent gets: with the session stopped it is cancelled; under a failed
  runtime an intent outside every run waits again and the others fail.\<close>

definition constrained_state :: "runtime_constraint \<Rightarrow> work_intent \<Rightarrow> work_intent_state" where
  "constrained_state c i = (case c of
      Constraint_SessionStopped \<Rightarrow> Intent_Cancelled ''session_stopped''
    | Constraint_Failed _ classification \<Rightarrow>
        if wi_run i = None then Intent_Queued else Intent_Failed classification
    | _ \<Rightarrow> wi_state i)"

definition constrain_intent :: "runtime_constraint \<Rightarrow> string \<Rightarrow> coordinator_state \<Rightarrow> coordinator_state" where
  "constrain_intent c iid = on_intent iid (\<lambda>i. i\<lparr>wi_state := constrained_state c i\<rparr>)"

definition push_back :: "work_intent \<Rightarrow> slot_state \<Rightarrow> slot_state" where
  "push_back i = update_queue (wi_priority i) (\<lambda>q. q @ [wi_id i])"

definition set_runtime_constraint ::
  "string \<Rightarrow> runtime_constraint \<Rightarrow> coordinator_state
     \<Rightarrow> (runtime_constraint_update \<times> port_call list \<times> coordinator_state) option" where
  "set_runtime_constraint sid c st =
    (let st1 = on_slot sid (\<lambda>sl. sl\<lparr>sl_constraint := c\<rparr>) (ensure_slot sid Role_Teammate st);
         open = (if ends_work c
                 then filter (\<lambda>i. wi_slot i = sid \<and> \<not> intent_is_terminal (wi_state i)) (intent_list st1)
                 else []);
         requeued = filter (\<lambda>i. constrained_state c i = Intent_Queued) open;
         closed = filter (\<lambda>i. constrained_state c i \<noteq> Intent_Queued) open;
         st2 = fold (constrain_intent c) (map wi_id open) st1;
         st3 = (if ends_work c
                then on_slot sid (\<lambda>sl. fold push_back requeued (clear_work sl)) st2 else st2);
         summaries = run_summaries st3 (filter_map wi_run closed)
     in if all_present st1 (map wi_id open) then
          Option.bind (slot_snapshot st3 sid) (\<lambda>snap. Some
            (\<lparr>cu_slot = snap, cu_messages = filter_map wi_message closed, cu_summaries = summaries\<rparr>,
             publish summaries (Some snap), st3))
        else None)"


section \<open>The restart gate\<close>

definition begin_runtime_restart_inner ::
  "string \<Rightarrow> bool \<Rightarrow> coordinator_state
     \<Rightarrow> (runtime_restart_rejection + runtime_restart_gate) \<times> port_call list \<times> coordinator_state" where
  "begin_runtime_restart_inner sid allow_queued st0 =
    (let st = ensure_slot sid Role_Teammate st0 in
     case slot_at st sid of
       None \<Rightarrow> (Inl Restart_Busy, [], st)
     | Some sl \<Rightarrow>
         if sl_active sl \<noteq> None \<or> (\<not> allow_queued \<and> queued_ids sl \<noteq> [])
         then (Inl Restart_Busy, [], st)
         else case sl_constraint sl of
           Constraint_Removing _ \<Rightarrow> (Inl Restart_Removing, [], st)
         | Constraint_SessionStopped \<Rightarrow> (Inl Restart_SessionStopped, [], st)
         | previous \<Rightarrow>
             (let op = sat_inc (co_next_operation st);
                  st1 = on_slot sid (\<lambda>sl. sl\<lparr>sl_constraint := Constraint_Starting op\<rparr>)
                          (st\<lparr>co_next_operation := op\<rparr>)
              in (Inr \<lparr>gate_operation_id = op, gate_previous_constraint = previous\<rparr>,
                  publish [] (slot_snapshot st1 sid), st1)))"

definition begin_runtime_restart ::
  "string \<Rightarrow> coordinator_state
     \<Rightarrow> (runtime_restart_rejection + runtime_restart_gate) \<times> port_call list \<times> coordinator_state" where
  "begin_runtime_restart sid = begin_runtime_restart_inner sid False"

definition begin_mcp_runtime_restart ::
  "string \<Rightarrow> coordinator_state
     \<Rightarrow> (runtime_restart_rejection + runtime_restart_gate) \<times> port_call list \<times> coordinator_state" where
  "begin_mcp_runtime_restart sid = begin_runtime_restart_inner sid True"

definition abort_runtime_restart ::
  "string \<Rightarrow> runtime_restart_gate \<Rightarrow> coordinator_state \<Rightarrow> port_call list \<times> coordinator_state" where
  "abort_runtime_restart sid gate st = (case slot_at st sid of
      None \<Rightarrow> ([], st)
    | Some sl \<Rightarrow>
        if sl_constraint sl \<noteq> Constraint_Starting (gate_operation_id gate) then ([], st)
        else
          (let st1 = on_slot sid (\<lambda>sl. sl\<lparr>sl_constraint := gate_previous_constraint gate\<rparr>) st
           in (publish [] (slot_snapshot st1 sid), st1)))"


section \<open>Deferred MCP refresh\<close>

definition request_mcp_refresh ::
  "string \<Rightarrow> string \<Rightarrow> coordinator_state \<Rightarrow> mcp_refresh_disposition \<times> coordinator_state" where
  "request_mcp_refresh sid fingerprint st0 =
    (let st = ensure_slot sid Role_Teammate st0 in
     case slot_at st sid of
       None \<Rightarrow> (Refresh_Unchanged, st)
     | Some sl \<Rightarrow>
         if sl_applied_mcp sl = Some fingerprint \<or> sl_pending_mcp sl = Some fingerprint
         then (Refresh_Unchanged, st)
         else if sl_active sl \<noteq> None \<or> queued_ids sl \<noteq> [] \<or> sl_constraint sl \<noteq> Constraint_Ready
         then (Refresh_Deferred,
               on_slot sid (\<lambda>sl. sl\<lparr>sl_pending_mcp := Some fingerprint, sl_mcp_in_progress := False\<rparr>) st)
         else (Refresh_RestartNow, st))"

definition defer_mcp_refresh :: "string \<Rightarrow> string \<Rightarrow> coordinator_state \<Rightarrow> coordinator_state" where
  "defer_mcp_refresh sid fingerprint st =
     on_slot sid (\<lambda>sl. if sl_applied_mcp sl \<noteq> Some fingerprint
         then sl\<lparr>sl_pending_mcp := Some fingerprint, sl_mcp_in_progress := False\<rparr> else sl)
       (ensure_slot sid Role_Teammate st)"

definition claim_pending_mcp_refresh ::
  "string \<Rightarrow> coordinator_state \<Rightarrow> string option \<times> coordinator_state" where
  "claim_pending_mcp_refresh sid st = (case slot_at st sid of
      None \<Rightarrow> (None, st)
    | Some sl \<Rightarrow>
        if sl_active sl \<noteq> None \<or> sl_mcp_in_progress sl then (None, st)
        else (case sl_pending_mcp sl of
            None \<Rightarrow> (None, st)
          | Some fingerprint \<Rightarrow>
              (Some fingerprint, on_slot sid (\<lambda>sl. sl\<lparr>sl_mcp_in_progress := True\<rparr>) st)))"

definition clear_pending :: "string \<Rightarrow> slot_state \<Rightarrow> slot_state" where
  "clear_pending fingerprint sl =
     (if sl_pending_mcp sl = Some fingerprint then sl\<lparr>sl_pending_mcp := None\<rparr> else sl)"

definition complete_mcp_refresh :: "string \<Rightarrow> string \<Rightarrow> coordinator_state \<Rightarrow> coordinator_state" where
  "complete_mcp_refresh sid fingerprint st =
     on_slot sid (\<lambda>sl. (clear_pending fingerprint (sl\<lparr>sl_applied_mcp := Some fingerprint\<rparr>))
       \<lparr>sl_mcp_in_progress := False\<rparr>) st"

definition release_mcp_refresh :: "string \<Rightarrow> string \<Rightarrow> coordinator_state \<Rightarrow> coordinator_state" where
  "release_mcp_refresh sid fingerprint st =
     on_slot sid (\<lambda>sl. if sl_pending_mcp sl = Some fingerprint
       then sl\<lparr>sl_mcp_in_progress := False\<rparr> else sl) st"

definition settle_mcp_refresh_claim :: "string \<Rightarrow> string \<Rightarrow> coordinator_state \<Rightarrow> coordinator_state" where
  "settle_mcp_refresh_claim sid fingerprint st =
     on_slot sid (\<lambda>sl. if sl_pending_mcp sl = Some fingerprint
       then sl\<lparr>sl_pending_mcp := None, sl_mcp_in_progress := False\<rparr> else sl) st"


section \<open>Removal and stop\<close>

definition open_of_slot :: "coordinator_state \<Rightarrow> string \<Rightarrow> work_intent list" where
  "open_of_slot st sid =
     filter (\<lambda>i. wi_slot i = sid \<and> \<not> intent_is_terminal (wi_state i)) (intent_list st)"

definition held_ids :: "slot_state \<Rightarrow> string list" where
  "held_ids sl =
     (case sl_active sl of Some a \<Rightarrow> ba_intents (ac_batch a) | None \<Rightarrow> []) @ queued_ids sl"

text \<open>The open intents of the slot: those it holds, in order, then any other by age and id.\<close>

definition removal_order :: "coordinator_state \<Rightarrow> string \<Rightarrow> string list" where
  "removal_order st sid =
    (let held = (case slot_at st sid of Some sl \<Rightarrow> held_ids sl | None \<Rightarrow> []);
         remaining = filter (\<lambda>i. wi_id i \<notin> set held) (open_of_slot st sid)
     in held @ map wi_id (sort_key (\<lambda>i. (wi_created i, wi_id i)) remaining))"

definition remove_slot ::
  "string \<Rightarrow> coordinator_state
     \<Rightarrow> (remove_work_result \<times> port_call list \<times> coordinator_state) option" where
  "remove_slot sid st =
    (let ids = removal_order st sid;
         st1 = set_states (Intent_Cancelled ''slot_removed'') ids st;
         st2 = on_slot sid (\<lambda>sl. (clear_work sl)\<lparr>sl_removed := True\<rparr>) st1;
         summaries = run_summaries st2 (filter_map (run_of st) ids)
     in if all_present st ids then Some
          (\<lparr>rw_target = Option.bind (slot_at st sid) cancel_target_of,
            rw_messages = filter_map (message_of st) ids, rw_summaries = summaries\<rparr>,
           publish summaries None, st2)
        else None)"

definition stop_coordinator ::
  "coordinator_state \<Rightarrow> run_work_summary list \<times> port_call list \<times> coordinator_state" where
  "stop_coordinator st =
    (let run_ids = all_run_ids st;
         st1 = st\<lparr>co_intents := map_values
                 (\<lambda>i. if intent_is_terminal (wi_state i) then i
                      else i\<lparr>wi_state := Intent_Cancelled ''session_stopped''\<rparr>) (co_intents st),
                  co_slots := map_values
                 (\<lambda>sl. (clear_work sl)\<lparr>sl_constraint := Constraint_SessionStopped\<rparr>) (co_slots st),
                  co_leases := []\<rparr>;
         summaries = map (run_summary st1) run_ids
     in (summaries, publish summaries None, st1))"


section \<open>The coordinator seen from its callers\<close>

datatype work_call =
    Call_AcquireEnqueue enqueue_request string
  | Call_CommitEnqueue enqueue_lease "string option" string timestamp_ms
  | Call_AbortEnqueue enqueue_lease
  | Call_Reconcile string "string list" team_role "string set" "string \<Rightarrow> string" "string \<Rightarrow> timestamp_ms"
  | Call_Next string string
  | Call_Observe string string "string list"
  | Call_MarkStarted work_batch string timestamp_ms
  | Call_RetryStart work_batch
  | Call_Complete work_batch
  | Call_Fail work_batch string
  | Call_CancelBatch work_batch string
  | Call_Interrupt work_batch "string option" string
  | Call_TakeInterrupt string
  | Call_Discard string string
  | Call_CancelRun string
  | Call_CompleteSignals string "string list"
  | Call_Pause string
  | Call_SetConstraint string runtime_constraint
  | Call_BeginRestart string
  | Call_BeginMcpRestart string
  | Call_AbortRestart string runtime_restart_gate
  | Call_RequestMcp string string
  | Call_DeferMcp string string
  | Call_ClaimMcp string
  | Call_CompleteMcp string string
  | Call_ReleaseMcp string string
  | Call_SettleMcp string string
  | Call_RemoveSlot string
  | Call_Stop

definition finish_call ::
  "'p run_causality_port \<Rightarrow> 'p \<Rightarrow> 'r \<times> port_call list \<times> coordinator_state \<Rightarrow> coordinator_state \<times> 'p" where
  "finish_call port p out = (case out of (_, calls, st) \<Rightarrow> (st, make_calls port calls p))"

fun exec_call ::
  "'p run_causality_port \<Rightarrow> string \<Rightarrow> work_call \<Rightarrow> coordinator_state \<times> 'p
     \<Rightarrow> (coordinator_state \<times> 'p) option" where
  "exec_call port g (Call_AcquireEnqueue rq lid) (st, p) =
     Some (snd (acquire_enqueue port g rq lid (st, p)))"
| "exec_call port g (Call_CommitEnqueue le m iid now) (st, p) =
     map_option (finish_call port p) (commit_enqueue g le m iid now st)"
| "exec_call port g (Call_AbortEnqueue le) (st, p) = Some (finish_call port p (abort_enqueue g le st))"
| "exec_call port g (Call_Reconcile sid unread role cands mk now) (st, p) =
     Some (snd (reconcile_mailbox_snapshot g sid unread role cands mk now st), p)"
| "exec_call port g (Call_Next sid bid) (st, p) = Some (finish_call port p (next_batch g sid bid st))"
| "exec_call port g (Call_Observe sid bid ms) (st, p) = Some (snd (observe_messages sid bid ms st), p)"
| "exec_call port g (Call_MarkStarted b t now) (st, p) =
     Some (finish_call port p (mark_started g b t now st))"
| "exec_call port g (Call_RetryStart b) (st, p) = Some (finish_call port p (retry_start g b st))"
| "exec_call port g (Call_Complete b) (st, p) =
     Some (finish_call port p (complete_batch_with_ack g b st))"
| "exec_call port g (Call_Fail b c) (st, p) = Some (finish_call port p (fail_batch g b c st))"
| "exec_call port g (Call_CancelBatch b c) (st, p) = Some (finish_call port p (cancel_batch g b c st))"
| "exec_call port g (Call_Interrupt b r m) (st, p) =
     Some (finish_call port p (interrupt_batch g b r m st))"
| "exec_call port g (Call_TakeInterrupt bid) (st, p) = Some (snd (take_interrupt_metadata bid st), p)"
| "exec_call port g (Call_Discard sid m) (st, p) =
     Some (finish_call port p (discard_queued_except sid m st))"
| "exec_call port g (Call_CancelRun rid) (st, p) = map_option (finish_call port p) (cancel_run rid st)"
| "exec_call port g (Call_CompleteSignals sid iids) (st, p) =
     Some (finish_call port p (complete_signals sid iids st))"
| "exec_call port g (Call_Pause sid) (st, p) = map_option (finish_call port p) (pause_slot sid st)"
| "exec_call port g (Call_SetConstraint sid c) (st, p) =
     map_option (finish_call port p) (set_runtime_constraint sid c st)"
| "exec_call port g (Call_BeginRestart sid) (st, p) =
     Some (finish_call port p (begin_runtime_restart sid st))"
| "exec_call port g (Call_BeginMcpRestart sid) (st, p) =
     Some (finish_call port p (begin_mcp_runtime_restart sid st))"
| "exec_call port g (Call_AbortRestart sid gate) (st, p) =
     Some (finish_call port p ((), abort_runtime_restart sid gate st))"
| "exec_call port g (Call_RequestMcp sid f) (st, p) = Some (snd (request_mcp_refresh sid f st), p)"
| "exec_call port g (Call_DeferMcp sid f) (st, p) = Some (defer_mcp_refresh sid f st, p)"
| "exec_call port g (Call_ClaimMcp sid) (st, p) = Some (snd (claim_pending_mcp_refresh sid st), p)"
| "exec_call port g (Call_CompleteMcp sid f) (st, p) = Some (complete_mcp_refresh sid f st, p)"
| "exec_call port g (Call_ReleaseMcp sid f) (st, p) = Some (release_mcp_refresh sid f st, p)"
| "exec_call port g (Call_SettleMcp sid f) (st, p) = Some (settle_mcp_refresh_claim sid f st, p)"
| "exec_call port g (Call_RemoveSlot sid) (st, p) = map_option (finish_call port p) (remove_slot sid st)"
| "exec_call port g Call_Stop (st, p) = Some (finish_call port p (stop_coordinator st))"

end
