(* ===== verification/Work_Placement.thy ===== *)
theory Work_Placement
  imports Work_Runtime
begin

text \<open>
  The coordinator's invariant. Where an intent is follows from its state: a queued intent is in the
  lane of its priority in its slot, a starting or running one is in its slot's active batch with the
  same batch id, operation and turn, a finished one is nowhere; and a slot holds nothing else. On
  top of it the shape of slots, batches and stores, and what a caller's copy of a batch (a handle)
  may rely on. \<open>sound_one_slot\<close> reduces preservation to the one slot an operation touches; every
  operation of the coordinator is shown to preserve the invariant.
\<close>

section \<open>Places\<close>

datatype place = In_Queue work_priority | In_Batch string u64 "string option"

fun place_of :: "work_priority \<Rightarrow> work_intent_state \<Rightarrow> place option" where
  "place_of p Intent_Queued = Some (In_Queue p)"
| "place_of p (Intent_Starting b op) = Some (In_Batch b op None)"
| "place_of p (Intent_Running b op turn) = Some (In_Batch b op (Some turn))"
| "place_of p _ = None"

abbreviation intent_place :: "work_intent \<Rightarrow> place option" where
  "intent_place i \<equiv> place_of (wi_priority i) (wi_state i)"

fun slot_holds :: "slot_state \<Rightarrow> string \<Rightarrow> place \<Rightarrow> bool" where
  "slot_holds sl iid (In_Queue p) \<longleftrightarrow> iid \<in> set (slot_queue sl p)"
| "slot_holds sl iid (In_Batch b op turn) \<longleftrightarrow>
     (case sl_active sl of None \<Rightarrow> False
      | Some a \<Rightarrow> ba_id (ac_batch a) = b \<and> ba_operation (ac_batch a) = op \<and> ac_turn a = turn
          \<and> iid \<in> set (ba_intents (ac_batch a)))"

definition placed_at :: "coordinator_state \<Rightarrow> string \<Rightarrow> slot_state \<Rightarrow> bool" where
  "placed_at st sid sl \<longleftrightarrow>
     (\<forall>iid loc. slot_holds sl iid loc \<longleftrightarrow>
        (\<exists>i. intent_at st iid = Some i \<and> wi_slot i = sid \<and> intent_place i = Some loc))"

text \<open>An open intent's slot exists.\<close>

definition homed :: "coordinator_state \<Rightarrow> bool" where
  "homed st \<longleftrightarrow> (\<forall>iid i. intent_at st iid = Some i \<longrightarrow> \<not> intent_is_terminal (wi_state i) \<longrightarrow>
     slot_at st (wi_slot i) \<noteq> None)"

lemma place_terminal: "place_of p s = None \<longleftrightarrow> intent_is_terminal s"
  by (cases s) simp_all

lemma place_queue_iff: "place_of p s = Some (In_Queue q) \<longleftrightarrow> s = Intent_Queued \<and> p = q"
  by (cases s) auto


section \<open>Batches and handles\<close>

definition handle_of :: "work_batch \<Rightarrow> work_batch \<Rightarrow> bool" where
  "handle_of b h \<longleftrightarrow> h = b\<lparr>ba_observed := ba_observed h\<rparr>"

definition batch_ok ::
  "string \<Rightarrow> work_batch set \<Rightarrow> coordinator_state \<Rightarrow> string \<Rightarrow> work_batch \<Rightarrow> bool" where
  "batch_ok g H st sid b \<longleftrightarrow>
     ba_slot b = sid \<and> ba_generation b = g \<and> ba_intents b \<noteq> [] \<and> distinct (ba_intents b)
     \<and> (\<forall>iid \<in> set (ba_intents b). \<exists>i. intent_at st iid = Some i \<and> wi_priority i = ba_priority b)
     \<and> ba_messages b = filter_map (message_of st) (ba_intents b)
     \<and> ba_runs b = fold (\<lambda>r acc. push_new acc r) (filter_map (run_of st) (ba_intents b)) []
     \<and> (\<exists>h \<in> H. handle_of b h) \<and> (\<forall>h \<in> H. ba_id h = ba_id b \<longrightarrow> handle_of b h)"

definition slot_ok ::
  "string \<Rightarrow> work_batch set \<Rightarrow> coordinator_state \<Rightarrow> string \<Rightarrow> slot_state \<Rightarrow> bool" where
  "slot_ok g H st sid sl \<longleftrightarrow>
     (\<forall>p. distinct (slot_queue sl p)) \<and> placed_at st sid sl
     \<and> (\<forall>a. sl_active sl = Some a \<longrightarrow> batch_ok g H st sid (ac_batch a))"

definition intent_ok :: "string \<Rightarrow> work_intent \<Rightarrow> bool" where
  "intent_ok iid i \<longleftrightarrow> wi_id i = iid \<and> wi_priority i = source_priority (wi_source i)"

definition leases_ok :: "coordinator_state \<Rightarrow> bool" where
  "leases_ok st \<longleftrightarrow> distinct (keys (co_leases st))
     \<and> (\<forall>lid r. map_of (co_leases st) lid = Some r \<longrightarrow> le_id (lr_lease r) = lid)"

definition sound :: "string \<Rightarrow> work_batch set \<Rightarrow> coordinator_state \<Rightarrow> bool" where
  "sound g H st \<longleftrightarrow>
     sorted_wrt (<) (keys (co_slots st)) \<and> distinct (keys (co_intents st)) \<and> leases_ok st
     \<and> (\<forall>iid i. intent_at st iid = Some i \<longrightarrow> intent_ok iid i)
     \<and> (\<forall>sid sl. slot_at st sid = Some sl \<longrightarrow> slot_ok g H st sid sl)
     \<and> homed st"

lemma soundD:
  assumes "sound g H st"
  shows "sorted_wrt (<) (keys (co_slots st))" "distinct (keys (co_intents st))" "leases_ok st"
    "intent_at st iid = Some i \<Longrightarrow> intent_ok iid i"
    "slot_at st sid = Some sl \<Longrightarrow> slot_ok g H st sid sl" "homed st"
  using assms by (auto simp: sound_def)


section \<open>Growing states\<close>

text \<open>Intents are never forgotten, and only their state changes.\<close>

definition extends :: "coordinator_state \<Rightarrow> coordinator_state \<Rightarrow> bool" where
  "extends st st' \<longleftrightarrow> (\<forall>iid i. intent_at st iid = Some i \<longrightarrow>
     (\<exists>s. intent_at st' iid = Some (i\<lparr>wi_state := s\<rparr>)))"

lemma wi_state_same [simp]: "i\<lparr>wi_state := wi_state i\<rparr> = (i :: work_intent)"
  by simp

lemma extends_refl [simp, intro]: "extends st st"
  unfolding extends_def by (metis wi_state_same)

lemma extends_same: "co_intents st' = co_intents st \<Longrightarrow> extends st st'"
  unfolding extends_def by (metis wi_state_same)

lemma extends_trans: "extends a b \<Longrightarrow> extends b c \<Longrightarrow> extends a c"
  unfolding extends_def by fastforce

lemma extends_set_states [intro]: "extends st (set_states s iids st)"
  unfolding extends_def by simp (metis wi_state_same)

lemma extends_on_intent:
  "(\<And>i. \<exists>s. f i = i\<lparr>wi_state := s\<rparr>) \<Longrightarrow> extends st (on_intent iid f st)"
  unfolding extends_def by simp (metis wi_state_same)

lemma extendsD:
  assumes "extends st st'" "intent_at st iid = Some i"
  shows "message_of st' iid = message_of st iid" "run_of st' iid = run_of st iid"
    "\<exists>i'. intent_at st' iid = Some i' \<and> wi_priority i' = wi_priority i \<and> wi_slot i' = wi_slot i"
  using assms unfolding extends_def message_of_def run_of_def by fastforce+

lemma filter_map_cong: "(\<And>x. x \<in> set xs \<Longrightarrow> f x = g x) \<Longrightarrow> filter_map f xs = filter_map g xs"
  by (induction xs) (auto split: option.split)

lemma batch_ok_extends:
  assumes "batch_ok g H st sid b" "extends st st'" "H \<subseteq> H'"
    "\<And>h. h \<in> H' \<Longrightarrow> h \<notin> H \<Longrightarrow> ba_id h \<notin> ba_id ` H"
  shows "batch_ok g H' st' sid b"
proof -
  have pres: "\<exists>i. intent_at st iid = Some i" if "iid \<in> set (ba_intents b)" for iid
    using assms(1) that by (auto simp: batch_ok_def)
  have "filter_map (message_of st') (ba_intents b) = filter_map (message_of st) (ba_intents b)"
    by (rule filter_map_cong) (use pres extendsD(1) [OF assms(2)] in blast)
  moreover have "filter_map (run_of st') (ba_intents b) = filter_map (run_of st) (ba_intents b)"
    by (rule filter_map_cong) (use pres extendsD(2) [OF assms(2)] in blast)
  moreover have "\<exists>i. intent_at st' iid = Some i \<and> wi_priority i = ba_priority b"
    if "iid \<in> set (ba_intents b)" for iid
    using assms(1) that extendsD(3) [OF assms(2)] by (fastforce simp: batch_ok_def)
  moreover have "\<forall>h \<in> H'. ba_id h = ba_id b \<longrightarrow> handle_of b h"
  proof (intro ballI impI)
    fix h assume h: "h \<in> H'" "ba_id h = ba_id b"
    obtain h0 where "h0 \<in> H" "handle_of b h0" using assms(1) by (auto simp: batch_ok_def)
    then have "ba_id b \<in> ba_id ` H"
      by (metis (no_types, lifting) handle_of_def image_eqI work_batch.select_convs(1)
          work_batch.surjective work_batch.update_convs(6))
    then have "h \<in> H" using assms(4) h by metis
    then show "handle_of b h" using assms(1) h by (simp add: batch_ok_def)
  qed
  ultimately show ?thesis using assms(1,3) by (auto simp: batch_ok_def)
qed


section \<open>One slot at a time\<close>

lemma slot_holds_cong:
  "(\<And>p. slot_queue sl' p = slot_queue sl p) \<Longrightarrow> sl_active sl' = sl_active sl \<Longrightarrow>
     slot_holds sl' iid loc = slot_holds sl iid loc"
  by (cases loc) simp_all

text \<open>An operation that replaces one slot and changes intents of that slot only.\<close>

lemma sound_one_slot:
  assumes "sound g H st" and "H \<subseteq> H'"
    and "\<And>h. h \<in> H' \<Longrightarrow> h \<notin> H \<Longrightarrow> ba_id h \<notin> ba_id ` H"
    and "sorted_wrt (<) (keys (co_slots st'))" "distinct (keys (co_intents st'))" "leases_ok st'"
    and slots: "\<And>k. slot_at st' k = (if k = sid then Some sl' else slot_at st k)"
    and ext: "extends st st'"
    and new: "\<And>iid i. intent_at st' iid = Some i \<Longrightarrow> intent_at st iid = None \<Longrightarrow> intent_ok iid i"
    and loc: "\<And>iid i. intent_at st' iid = Some i \<Longrightarrow> wi_slot i \<noteq> sid \<Longrightarrow> intent_at st iid = Some i"
    and queues: "\<And>p. distinct (slot_queue sl' p)"
    and active: "\<And>a. sl_active sl' = Some a \<Longrightarrow> batch_ok g H' st' sid (ac_batch a)"
    and here: "placed_at st' sid sl'"
  shows "sound g H' st'"
proof -
  have other: "placed_at st' k sl" if k: "k \<noteq> sid" "slot_at st k = Some sl" for k sl
  proof -
    have "placed_at st k sl" using soundD(5) [OF assms(1) k(2)] by (simp add: slot_ok_def)
    moreover have "(\<exists>i. intent_at st' iid = Some i \<and> wi_slot i = k \<and> intent_place i = Some l) \<longleftrightarrow>
        (\<exists>i. intent_at st iid = Some i \<and> wi_slot i = k \<and> intent_place i = Some l)" for iid l
    proof
      assume "\<exists>i. intent_at st iid = Some i \<and> wi_slot i = k \<and> intent_place i = Some l"
      then obtain i where i: "intent_at st iid = Some i" "wi_slot i = k" "intent_place i = Some l"
        by blast
      obtain i' where i': "intent_at st' iid = Some i'" "wi_slot i' = k"
        using extendsD(3) [OF ext i(1)] i(2) by auto
      then have "intent_at st iid = Some i'" using loc k(1) by blast
      with i i' show "\<exists>i. intent_at st' iid = Some i \<and> wi_slot i = k \<and> intent_place i = Some l"
        by auto
    qed (use loc k(1) in blast)
    ultimately show ?thesis by (simp add: placed_at_def)
  qed
  have slot: "slot_ok g H' st' k sl" if "slot_at st' k = Some sl" for k sl
  proof (cases "k = sid")
    case True
    then show ?thesis using that slots queues active here by (simp add: slot_ok_def)
  next
    case False
    then have "slot_at st k = Some sl" using that slots by simp
    moreover have "slot_ok g H st k sl" using soundD(5) [OF assms(1) calculation] .
    ultimately show ?thesis
      using other [OF False] batch_ok_extends [OF _ ext assms(2,3)] by (auto simp: slot_ok_def)
  qed
  have intents: "intent_ok iid i" if "intent_at st' iid = Some i" for iid i
  proof (cases "intent_at st iid")
    case None
    then show ?thesis using new that by blast
  next
    case (Some j)
    then obtain s where "intent_at st' iid = Some (j\<lparr>wi_state := s\<rparr>)"
      using ext by (auto simp: extends_def)
    then show ?thesis using that soundD(4) [OF assms(1) Some] by (auto simp: intent_ok_def)
  qed
  have "homed st'"
    unfolding homed_def
  proof (intro allI impI)
    fix iid i assume i: "intent_at st' iid = Some i" "\<not> intent_is_terminal (wi_state i)"
    show "slot_at st' (wi_slot i) \<noteq> None"
      using i loc [OF i(1)] soundD(6) [OF assms(1)] slots by (auto simp: homed_def)
  qed
  with assms(4-6) slot intents show ?thesis by (auto simp: sound_def)
qed

text \<open>An operation that changes nothing the invariant reads about a slot, or creates an empty one.\<close>

lemma placed_at_new_slot:
  assumes "homed st" "slot_at st sid = None"
  shows "placed_at st sid (new_slot role)"
  unfolding placed_at_def
proof (intro allI)
  fix iid loc
  have "\<not> slot_holds (new_slot role) iid loc"
    by (cases loc) simp_all
  moreover have "intent_place i \<noteq> Some loc" if "intent_at st iid = Some i" "wi_slot i = sid" for i
  proof
    assume "intent_place i = Some loc"
    then have "\<not> intent_is_terminal (wi_state i)"
      using place_terminal [of "wi_priority i" "wi_state i"] by simp
    then have "slot_at st (wi_slot i) \<noteq> None"
      using assms(1) that(1) unfolding homed_def by blast
    with assms(2) that(2) show False by simp
  qed
  ultimately show "slot_holds (new_slot role) iid loc \<longleftrightarrow>
      (\<exists>i. intent_at st iid = Some i \<and> wi_slot i = sid \<and> intent_place i = Some loc)"
    by blast
qed

lemma placed_at_same_intents:
  "co_intents st' = co_intents st \<Longrightarrow> placed_at st' sid sl = placed_at st sid sl"
  by (simp add: placed_at_def)

lemma sorted_ensure_slot:
  "sorted_wrt (<) (keys (co_slots st)) \<Longrightarrow> sorted_wrt (<) (keys (co_slots (ensure_slot sid role st)))"
  by (simp add: ensure_slot_def)

lemma leases_ok_same: "co_leases st' = co_leases st \<Longrightarrow> leases_ok st' = leases_ok st"
  by (simp add: leases_ok_def)

lemma sound_ensure:
  assumes "sound g H st"
  shows "sound g H (ensure_slot sid role st)"
proof (cases "slot_at st sid")
  case (Some sl)
  then show ?thesis using assms by (simp add: ensure_slot_def)
next
  case None
  let ?st = "ensure_slot sid role st"
  note sound = soundD [OF assms]
  show ?thesis
  proof (rule sound_one_slot [OF assms, where sid = sid and sl' = "new_slot role"])
    show "placed_at ?st sid (new_slot role)"
      using placed_at_new_slot [OF sound(6) None] by (simp add: placed_at_same_intents [of ?st st])
    show "leases_ok ?st" using sound(3) by (simp add: leases_ok_same [of ?st st])
    show "extends st ?st" by (simp add: extends_same)
    show "sorted_wrt (<) (keys (co_slots ?st))" by (rule sorted_ensure_slot [OF sound(1)])
  qed (use None sound in simp_all)
qed

lemma slot_okD:
  assumes "slot_ok g H st sid sl"
  shows "distinct (slot_queue sl p)" "placed_at st sid sl"
    "sl_active sl = Some a \<Longrightarrow> batch_ok g H st sid (ac_batch a)"
  using assms by (auto simp: slot_ok_def)

lemma placed_atD:
  assumes "placed_at st sid sl"
  shows "slot_holds sl iid loc \<longleftrightarrow>
    (\<exists>i. intent_at st iid = Some i \<and> wi_slot i = sid \<and> intent_place i = Some loc)"
  using assms by (auto simp: placed_at_def)

text \<open>The common shape: one existing slot rewritten, some states of its intents changed.\<close>

lemma sound_update:
  assumes sound: "sound g H st" and sl: "slot_at st sid = Some sl"
    and slots: "co_slots st' = modify sid f (co_slots st)"
    and frame: "keys (co_intents st') = keys (co_intents st)" "leases_ok st'"
    and ext: "extends st st'"
    and loc: "\<And>iid i. intent_at st' iid = Some i \<Longrightarrow> wi_slot i \<noteq> sid \<Longrightarrow> intent_at st iid = Some i"
    and queues: "\<And>p. distinct (slot_queue (f sl) p)"
    and active: "\<And>a. sl_active (f sl) = Some a \<Longrightarrow> batch_ok g H st' sid (ac_batch a)"
    and here: "placed_at st' sid (f sl)"
  shows "sound g H st'"
proof (rule sound_one_slot [OF sound, where sid = sid and sl' = "f sl"])
  show "intent_ok iid i" if "intent_at st' iid = Some i" "intent_at st iid = None" for iid i
  proof -
    have "iid \<in> set (keys (co_intents st'))" using that(1) by (rule map_of_in_keys)
    then have "iid \<in> set (keys (co_intents st))" by (simp only: frame)
    with that(2) show ?thesis by (simp add: map_of_eq_None_iff)
  qed
  show "slot_at st' k = (if k = sid then Some (f sl) else slot_at st k)" for k
    by (simp add: slots map_of_modify sl)
qed (use soundD [OF sound] slots frame ext loc queues active here in \<open>simp_all only: frame slots keys_modify subset_refl\<close>)

lemma modify_absent: "k \<notin> set (keys m) \<Longrightarrow> modify k f m = m"
  by (induction m) (auto simp: modify_def)

lemma on_slot_absent: "slot_at st sid = None \<Longrightarrow> on_slot sid f st = st"
  by (simp add: on_slot_def modify_absent map_of_eq_None_iff)

text \<open>An operation that changes nothing the invariant reads about a slot.\<close>

lemma sound_on_slot:
  assumes "sound g H st"
    and keep: "\<And>sl p. slot_queue (f sl) p = slot_queue sl p" "\<And>sl. sl_active (f sl) = sl_active sl"
  shows "sound g H (on_slot sid f st)"
proof (cases "slot_at st sid")
  case None
  with assms(1) show ?thesis by (simp add: on_slot_absent)
next
  case (Some sl)
  let ?st = "on_slot sid f st"
  note ok = slot_okD [OF soundD(5) [OF assms(1) Some]]
  have ext: "extends st ?st" by (simp add: extends_same)
  show ?thesis
  proof (rule sound_update [OF assms(1) Some, where f = f])
    show "placed_at ?st sid (f sl)"
      using ok(2) slot_holds_cong [OF keep]
      by (simp add: placed_at_same_intents [of ?st st]) (simp add: placed_at_def)
    show "batch_ok g H ?st sid (ac_batch a)" if "sl_active (f sl) = Some a" for a
      using that by (intro batch_ok_extends [OF ok(3) ext]) (simp_all add: keep)
    show "leases_ok ?st" using soundD(3) [OF assms(1)] by (simp add: leases_ok_same [of ?st st])
    show "co_slots ?st = modify sid f (co_slots st)" by (simp add: on_slot_def)
  qed (use ok ext keep in simp_all)
qed

end
