(* ===== verification/Work_Preserve.thy ===== *)
theory Work_Preserve
  imports Work_Placement
begin

text \<open>
  Every operation of the coordinator preserves \<open>sound\<close>, \<open>Work_Placement\<close>'s invariant. The
  operations fall into a few shapes, each a lemma: intents of one slot change to one state
  (\<open>sound_set_states\<close>), queued intents are dropped, the active batch is released, a new intent is
  inserted. The last section collects the operations into the invariant of all reachable states.
\<close>

section \<open>Where the intents of a slot are\<close>

lemma queue_intents:
  assumes "slot_ok g H st sid sl" "iid \<in> set (slot_queue sl p)"
  shows "\<exists>i. intent_at st iid = Some i \<and> wi_slot i = sid \<and> wi_state i = Intent_Queued
    \<and> wi_priority i = p"
  using placed_atD [OF slot_okD(2) [OF assms(1)], of iid "In_Queue p"] assms(2)
  by (auto simp: place_queue_iff)

lemma active_intents:
  assumes "slot_ok g H st sid sl" "sl_active sl = Some a" "iid \<in> set (ba_intents (ac_batch a))"
  shows "\<exists>i. intent_at st iid = Some i \<and> wi_slot i = sid \<and> wi_priority i = ba_priority (ac_batch a)
    \<and> intent_place i = Some (In_Batch (ba_id (ac_batch a)) (ba_operation (ac_batch a)) (ac_turn a))"
proof -
  have "slot_holds sl iid (In_Batch (ba_id (ac_batch a)) (ba_operation (ac_batch a)) (ac_turn a))"
    using assms(2,3) by simp
  then obtain i where i: "intent_at st iid = Some i" "wi_slot i = sid"
    "intent_place i = Some (In_Batch (ba_id (ac_batch a)) (ba_operation (ac_batch a)) (ac_turn a))"
    using placed_atD [OF slot_okD(2) [OF assms(1)]] by blast
  moreover have "wi_priority i = ba_priority (ac_batch a)"
    using slot_okD(3) [OF assms(1,2)] assms(3) i(1) by (auto simp: batch_ok_def)
  ultimately show ?thesis by blast
qed

lemma active_not_queued:
  assumes "slot_ok g H st sid sl" "sl_active sl = Some a" "iid \<in> set (ba_intents (ac_batch a))"
  shows "iid \<notin> set (slot_queue sl p)"
  using active_intents [OF assms] queue_intents [OF assms(1)] by fastforce

lemma queued_once:
  assumes "slot_ok g H st sid sl" "iid \<in> set (slot_queue sl p)" "iid \<in> set (slot_queue sl q)"
  shows "p = q"
  using queue_intents [OF assms(1,2)] queue_intents [OF assms(1,3)] by auto

text \<open>A handle that is current is a copy of the active batch.\<close>

lemma current_handle:
  assumes "sound g H st" "b \<in> H" "is_current_batch g st b"
  obtains sl a where "slot_at st (ba_slot b) = Some sl" "sl_active sl = Some a"
    "slot_ok g H st (ba_slot b) sl" "handle_of (ac_batch a) b"
proof -
  from assms(3) obtain sl a where sl: "slot_at st (ba_slot b) = Some sl" "sl_active sl = Some a"
    "ba_id (ac_batch a) = ba_id b"
    by (auto simp: is_current_batch_def split: option.splits bind_splits)
  have ok: "slot_ok g H st (ba_slot b) sl" by (rule soundD(5) [OF assms(1) sl(1)])
  then have "handle_of (ac_batch a) b"
    using slot_okD(3) [OF ok sl(2)] assms(2) sl(3) by (auto simp: batch_ok_def)
  with sl ok that show ?thesis by blast
qed

lemma handle_fields:
  assumes "handle_of b h"
  shows "ba_id h = ba_id b" "ba_intents h = ba_intents b" "ba_slot h = ba_slot b"
    "ba_operation h = ba_operation b" "ba_priority h = ba_priority b"
    "ba_messages h = ba_messages b" "ba_runs h = ba_runs b"
  using assms unfolding handle_of_def
  by (metis work_batch.surjective work_batch.update_convs(6) work_batch.select_convs)+


section \<open>Intents of one slot change state\<close>

lemma sound_restate:
  assumes sound: "sound g H st" and sl: "slot_at st sid = Some sl"
    and slots: "co_slots st' = modify sid f (co_slots st)"
    and keys: "keys (co_intents st') = keys (co_intents st)" "leases_ok st'"
    and int: "\<And>k. intent_at st' k = (if k \<in> set ids
      then map_option (\<lambda>i. i\<lparr>wi_state := sf i\<rparr>) (intent_at st k) else intent_at st k)"
    and ids: "\<And>iid. iid \<in> set ids \<Longrightarrow> \<exists>i. intent_at st iid = Some i \<and> wi_slot i = sid"
    and moved: "\<And>iid i loc. iid \<in> set ids \<Longrightarrow> intent_at st iid = Some i \<Longrightarrow>
      slot_holds (f sl) iid loc \<longleftrightarrow> place_of (wi_priority i) (sf i) = Some loc"
    and kept: "\<And>iid loc. iid \<notin> set ids \<Longrightarrow> slot_holds (f sl) iid loc \<longleftrightarrow> slot_holds sl iid loc"
    and queues: "\<And>p. distinct (slot_queue (f sl) p)"
    and active: "\<And>a. sl_active (f sl) = Some a \<Longrightarrow> batch_ok g H st sid (ac_batch a)"
  shows "sound g H st'"
proof -
  have ext: "extends st st'"
    unfolding extends_def int by simp (metis wi_state_same)
  have placed: "placed_at st sid sl"
    using slot_okD(2) [OF soundD(5) [OF sound sl]] .
  show ?thesis
  proof (rule sound_update [OF sound sl slots keys ext])
    show "intent_at st iid = Some i" if "intent_at st' iid = Some i" "wi_slot i \<noteq> sid" for iid i
      using that ids [of iid] by (auto simp: int split: if_splits)
    show "placed_at st' sid (f sl)"
      unfolding placed_at_def
    proof (intro allI)
      fix iid loc
      show "slot_holds (f sl) iid loc \<longleftrightarrow>
        (\<exists>i. intent_at st' iid = Some i \<and> wi_slot i = sid \<and> intent_place i = Some loc)"
      proof (cases "iid \<in> set ids")
        case True
        then obtain i where "intent_at st iid = Some i" "wi_slot i = sid" using ids by blast
        with True show ?thesis using moved [OF True, of i loc] by (simp add: int)
      next
        case False
        then show ?thesis using kept [OF False, of loc] placed_atD [OF placed, of iid loc]
          by (simp add: int)
      qed
    qed
    show "batch_ok g H st' sid (ac_batch a)" if "sl_active (f sl) = Some a" for a
      by (rule batch_ok_extends [OF active [OF that] ext]) simp_all
  qed (rule queues)
qed

lemmas sound_set_states = sound_restate [where sf = "\<lambda>_. s" for s, folded intent_at_set_states]

text \<open>Queued intents leave: they finish and are taken off the queues.\<close>

lemma sound_drop_queued:
  assumes sound: "sound g H st" and final: "intent_is_terminal s"
    and ids: "\<And>iid sl. iid \<in> set ids \<Longrightarrow> slot_at st sid = Some sl \<Longrightarrow> iid \<in> set (queued_ids sl)"
    and slot: "slot_at st sid = None \<Longrightarrow> ids = []"
  shows "sound g H (on_slot sid (fold remove_queued ids) (set_states s ids st))"
proof (cases "slot_at st sid")
  case None
  then show ?thesis using sound slot by (simp add: on_slot_absent set_states_def)
next
  case (Some sl)
  note ok = soundD(5) [OF sound Some]
  let ?f = "fold remove_queued ids"
  have home: "\<exists>p i. iid \<in> set (slot_queue sl p) \<and> intent_at st iid = Some i \<and> wi_slot i = sid
      \<and> wi_state i = Intent_Queued" if "iid \<in> set ids" for iid
    using ids [OF that Some] queue_intents [OF ok] by (fastforce simp: set_queued_ids)
  have none: "place_of p s = None" for p
    using final place_terminal by blast
  show ?thesis
  proof (rule sound_set_states [OF sound Some, where f = ?f and s = s and ids = ids])
    show "slot_holds (?f sl) iid loc \<longleftrightarrow> place_of (wi_priority i) s = Some loc"
      if "iid \<in> set ids" "intent_at st iid = Some i" for iid i loc
    proof (cases loc)
      case (In_Batch b op turn)
      have "iid \<notin> set (ba_intents (ac_batch a))" if "sl_active sl = Some a" for a
        using home [OF \<open>iid \<in> set ids\<close>] active_not_queued [OF ok that] by blast
      with In_Batch none show ?thesis by (auto split: option.split)
    qed (use that none in \<open>simp add: slot_queue_remove_all\<close>)
    show "slot_holds (?f sl) iid loc \<longleftrightarrow> slot_holds sl iid loc" if "iid \<notin> set ids" for iid loc
      using that by (cases loc) (simp_all add: slot_queue_remove_all)
    show "leases_ok (on_slot sid ?f (set_states s ids st))"
      using soundD(3) [OF sound] by (simp add: leases_ok_def)
  qed (use home ok in \<open>auto simp: on_slot_def slot_queue_remove_all slot_ok_def\<close>)
qed

text \<open>The active batch ends: its intents finish and the slot is free.\<close>

lemma sound_release:
  assumes sound: "sound g H st" and sl: "slot_at st sid = Some sl" and a: "sl_active sl = Some a"
    and slots: "co_slots st' = modify sid f (co_slots st)"
    and keys: "keys (co_intents st') = keys (co_intents st)" "leases_ok st'"
    and int: "\<And>k. intent_at st' k = intent_at (set_states s (ba_intents (ac_batch a)) st) k"
    and final: "intent_is_terminal s"
    and f: "\<And>p. slot_queue (f sl) p = slot_queue sl p" "sl_active (f sl) = None"
  shows "sound g H st'"
proof -
  note ok = soundD(5) [OF sound sl]
  have none: "place_of p s = None" for p
    using final place_terminal by blast
  show ?thesis
  proof (rule sound_set_states [OF sound sl slots keys int])
    show "slot_holds (f sl) iid loc \<longleftrightarrow> place_of (wi_priority i) s = Some loc"
      if "iid \<in> set (ba_intents (ac_batch a))" for iid i loc
      using active_not_queued [OF ok a that] none by (cases loc) (simp_all add: f)
    show "slot_holds (f sl) iid loc \<longleftrightarrow> slot_holds sl iid loc"
      if "iid \<notin> set (ba_intents (ac_batch a))" for iid loc
      using that a by (cases loc) (simp_all add: f)
    show "\<exists>i. intent_at st iid = Some i \<and> wi_slot i = sid"
      if "iid \<in> set (ba_intents (ac_batch a))" for iid
      using active_intents [OF ok a that] by blast
  qed (use ok f in \<open>simp_all add: slot_ok_def\<close>)
qed

text \<open>The active batch returns: its intents are queued again, in front of their lane.\<close>

lemma slot_queue_push_fronts [simp]:
  "slot_queue (push_fronts p ids sl) q = (if q = p then ids @ slot_queue sl q else slot_queue sl q)"
proof -
  have "slot_queue (fold (\<lambda>iid. update_queue p (\<lambda>q. iid # q)) xs sl) q =
      (if q = p then rev xs @ slot_queue sl q else slot_queue sl q)" for xs
    by (induction xs arbitrary: sl) simp_all
  then show ?thesis by (simp add: push_fronts_def)
qed

lemma active_push_fronts [simp]: "sl_active (push_fronts p ids sl) = sl_active sl"
proof -
  have "sl_active (fold (\<lambda>iid. update_queue p (\<lambda>q. iid # q)) xs sl) = sl_active sl" for xs
    by (induction xs arbitrary: sl) simp_all
  then show ?thesis by (simp add: push_fronts_def)
qed

lemma sound_retry:
  assumes sound: "sound g H st" and sl: "slot_at st sid = Some sl" and a: "sl_active sl = Some a"
    and b: "handle_of (ac_batch a) b"
  shows "sound g H (on_slot sid (\<lambda>sl. push_fronts (ba_priority b) (ba_intents b) (sl\<lparr>sl_active := None\<rparr>))
    (set_states Intent_Queued (ba_intents b) st))"
proof -
  note ok = soundD(5) [OF sound sl]
  note fields = handle_fields [OF b]
  show ?thesis
  proof (rule sound_set_states [OF sound sl, where s = Intent_Queued and ids = "ba_intents b"
        and f = "\<lambda>sl. push_fronts (ba_priority b) (ba_intents b) (sl\<lparr>sl_active := None\<rparr>)"])
    fix iid assume iid: "iid \<in> set (ba_intents b)"
    then have act: "iid \<in> set (ba_intents (ac_batch a))" by (simp add: fields)
    show "\<exists>i. intent_at st iid = Some i \<and> wi_slot i = sid"
      using active_intents [OF ok a act] by blast
    show "slot_holds (push_fronts (ba_priority b) (ba_intents b) (sl\<lparr>sl_active := None\<rparr>)) iid loc \<longleftrightarrow>
        place_of (wi_priority i) Intent_Queued = Some loc" if "intent_at st iid = Some i" for i loc
      using that act iid active_not_queued [OF ok a act] active_intents [OF ok a act]
      by (cases loc) (auto simp: fields)
  next
    show "distinct (slot_queue (push_fronts (ba_priority b) (ba_intents b) (sl\<lparr>sl_active := None\<rparr>)) p)"
      for p
      using slot_okD(1,3) [OF ok] a active_not_queued [OF ok a]
      by (auto simp: fields batch_ok_def)
    show "slot_holds (push_fronts (ba_priority b) (ba_intents b) (sl\<lparr>sl_active := None\<rparr>)) iid loc \<longleftrightarrow>
        slot_holds sl iid loc" if "iid \<notin> set (ba_intents b)" for iid loc
      using that a by (cases loc) (auto simp: fields)
  qed (use soundD(3) [OF sound] in \<open>simp_all add: on_slot_def leases_ok_def\<close>)
qed


text \<open>The active batch starts its turn.\<close>

definition start_turn :: "string \<Rightarrow> timestamp_ms \<Rightarrow> slot_state \<Rightarrow> slot_state" where
  "start_turn turn now sl = sl\<lparr>sl_active := map_option
     (\<lambda>a. a\<lparr>ac_turn := Some turn, ac_started := Some now\<rparr>) (sl_active sl)\<rparr>"

lemma sound_start:
  assumes sound: "sound g H st" and sl: "slot_at st sid = Some sl" and a: "sl_active sl = Some a"
    and b: "handle_of (ac_batch a) b"
  shows "sound g H (on_slot sid (start_turn turn now)
    (set_states (Intent_Running (ba_id b) (ba_operation b) turn) (ba_intents b) st))"
proof -
  note ok = soundD(5) [OF sound sl]
  note fields = handle_fields [OF b]
  show ?thesis
  proof (rule sound_set_states [OF sound sl, where f = "start_turn turn now"
        and s = "Intent_Running (ba_id b) (ba_operation b) turn" and ids = "ba_intents b"])
    fix iid assume iid: "iid \<in> set (ba_intents b)"
    then have act: "iid \<in> set (ba_intents (ac_batch a))" by (simp add: fields)
    show "\<exists>i. intent_at st iid = Some i \<and> wi_slot i = sid"
      using active_intents [OF ok a act] by blast
    show "slot_holds (start_turn turn now sl) iid loc \<longleftrightarrow>
        place_of (wi_priority i) (Intent_Running (ba_id b) (ba_operation b) turn) = Some loc" for i loc
      using act iid active_not_queued [OF ok a act] a
      by (cases loc) (auto simp: fields start_turn_def)
  next
    show "slot_holds (start_turn turn now sl) iid loc \<longleftrightarrow> slot_holds sl iid loc"
      if "iid \<notin> set (ba_intents b)" for iid loc
      using that a by (cases loc) (auto simp: fields start_turn_def)
    show "batch_ok g H st sid (ac_batch a')" if "sl_active (start_turn turn now sl) = Some a'" for a'
      using that a slot_okD(3) [OF ok a] by (auto simp: start_turn_def)
  qed (use soundD(3) [OF sound] ok in \<open>simp_all add: on_slot_def leases_ok_def start_turn_def slot_ok_def\<close>)
qed


section \<open>The operations on a batch\<close>

lemma sound_mark_started:
  assumes "sound g H st" "b \<in> H"
  shows "sound g H (snd (snd (mark_started g b turn now st)))"
proof (cases "is_current_batch g st b")
  case True
  with assms obtain sl a where "slot_at st (ba_slot b) = Some sl" "sl_active sl = Some a"
    "handle_of (ac_batch a) b"
    using current_handle by blast
  then show ?thesis
    using sound_start [OF assms(1), of "ba_slot b" sl a b turn now] True
    by (simp add: mark_started_def Let_def start_turn_def [abs_def])
qed (simp add: mark_started_def assms)

lemma sound_retry_start:
  assumes "sound g H st" "b \<in> H"
  shows "sound g H (snd (snd (retry_start g b st)))"
proof (cases "is_current_batch g st b")
  case True
  with assms obtain sl a where "slot_at st (ba_slot b) = Some sl" "sl_active sl = Some a"
    "handle_of (ac_batch a) b"
    using current_handle by blast
  then show ?thesis
    using sound_retry [OF assms(1), of "ba_slot b" sl a b] True
    by (simp add: retry_start_def Let_def)
qed (simp add: retry_start_def assms)

lemma settle_deliveries_frame [simp]:
  "slot_queue (fst (settle_deliveries d ms sl)) p = slot_queue sl p"
  "sl_active (fst (settle_deliveries d ms sl)) = sl_active sl"
  by (simp_all add: settle_deliveries_def split: delivery_outcome.split prod.split)

lemma sound_terminalize:
  assumes "sound g H st" "b \<in> H" and final: "intent_is_terminal s"
  shows "sound g H (snd (snd (terminalize_batch g b s d st)))"
proof (cases "is_current_batch g st b")
  case True
  with assms obtain sl a where sl: "slot_at st (ba_slot b) = Some sl" and a: "sl_active sl = Some a"
    and b: "handle_of (ac_batch a) b"
    using current_handle by blast
  let ?sl' = "fst (settle_deliveries d (ba_messages b) (sl\<lparr>sl_active := None\<rparr>))"
  have "sound g H (on_slot (ba_slot b) (\<lambda>_. ?sl') (set_states s (ba_intents b) st))"
  proof (rule sound_release [OF assms(1) sl a, where f = "\<lambda>_. ?sl'" and s = s])
    show "intent_at (on_slot (ba_slot b) (\<lambda>_. ?sl') (set_states s (ba_intents b) st)) k =
        intent_at (set_states s (ba_intents (ac_batch a)) st) k" for k
      by (simp add: handle_fields [OF b])
  qed (use final soundD(3) [OF assms(1)] in \<open>simp_all add: on_slot_def leases_ok_def\<close>)
  then show ?thesis
    using True sl by (simp add: terminalize_batch_def Let_def case_prod_beta)
qed (simp add: terminalize_batch_def assms)

lemma sound_interrupt:
  assumes "sound g H st" "b \<in> H"
  shows "sound g H (snd (snd (interrupt_batch g b r m st)))"
proof (cases "is_current_batch g st b")
  case True
  with assms obtain sl a where sl: "slot_at st (ba_slot b) = Some sl" and a: "sl_active sl = Some a"
    and b: "handle_of (ac_batch a) b"
    using current_handle by blast
  let ?f = "\<lambda>sl. sl\<lparr>sl_active := None,
    sl_failures := fold AList.delete (ba_messages b) (sl_failures sl)\<rparr>"
  let ?s = "Intent_Cancelled ''lead_interrupted''"
  have "sound g H (snd (snd (interrupt_batch g b r m st)))"
  proof (rule sound_release [OF assms(1) sl a, where f = ?f and s = ?s])
    show "intent_at (snd (snd (interrupt_batch g b r m st))) k =
        intent_at (set_states ?s (ba_intents (ac_batch a)) st) k" for k
      using True by (simp add: interrupt_batch_def Let_def handle_fields [OF b])
  qed (use True soundD(3) [OF assms(1)] in
      \<open>simp_all add: interrupt_batch_def Let_def on_slot_def leases_ok_def\<close>)
  then show ?thesis .
qed (simp add: interrupt_batch_def assms)

lemma intent_listed:
  assumes "sound g H st"
  shows "i \<in> set (intent_list st) \<longleftrightarrow> intent_at st (wi_id i) = Some i"
proof
  assume "i \<in> set (intent_list st)"
  then obtain k where "intent_at st k = Some i"
    using vals_iff [OF soundD(2) [OF assms]] by (metis intent_list_def)
  moreover have "wi_id i = k" using soundD(4) [OF assms calculation] by (simp add: intent_ok_def)
  ultimately show "intent_at st (wi_id i) = Some i" by simp
next
  assume "intent_at st (wi_id i) = Some i"
  then show "i \<in> set (intent_list st)"
    using vals_iff [OF soundD(2) [OF assms]] by (metis intent_list_def)
qed

lemma filtered_ids:
  assumes "sound g H st"
  shows "k \<in> set (map wi_id (filter P (intent_list st))) \<longleftrightarrow> (\<exists>i. intent_at st k = Some i \<and> P i)"
proof
  assume "k \<in> set (map wi_id (filter P (intent_list st)))"
  then obtain i where "i \<in> set (intent_list st)" "P i" "wi_id i = k" by auto
  then show "\<exists>i. intent_at st k = Some i \<and> P i"
    using intent_listed [OF assms, of i] by blast
next
  assume "\<exists>i. intent_at st k = Some i \<and> P i"
  then obtain i where i: "intent_at st k = Some i" "P i" by blast
  then have "wi_id i = k" using soundD(4) [OF assms i(1)] by (simp add: intent_ok_def)
  with i show "k \<in> set (map wi_id (filter P (intent_list st)))"
    using intent_listed [OF assms, of i] by auto
qed

lemma intent_at_completed:
  assumes "sound g H st"
  shows "map_of (map_values (\<lambda>i. if P i then i\<lparr>wi_state := s\<rparr> else i) (co_intents st)) k =
    intent_at (set_states s (map wi_id (filter P (intent_list st))) st) k"
  unfolding intent_at_set_states filtered_ids [OF assms]
  by (cases "intent_at st k") (simp_all add: map_of_map_values)

lemma sound_complete:
  assumes sound: "sound g H st" and "b \<in> H"
  shows "sound g H (snd (snd (complete_batch_with_ack g b st)))"
proof (cases "is_current_batch g st b")
  case True
  with assms obtain sl a where sl: "slot_at st (ba_slot b) = Some sl" and a: "sl_active sl = Some a"
    using current_handle by blast
  note ok = soundD(5) [OF sound sl]
  let ?hit = "completes (ac_batch a) (ba_slot b)"
  let ?ids = "map wi_id (filter ?hit (intent_list st))"
  let ?f = "\<lambda>sl. (fold remove_queued (ba_intents (ac_batch a) @ ?ids) sl)
    \<lparr>sl_active := None, sl_failures := fold AList.delete (ack_ids (ac_batch a)) (sl_failures sl)\<rparr>"
  let ?st' = "snd (snd (complete_batch_with_ack g b st))"
  have st': "?st' = on_slot (ba_slot b) ?f (st\<lparr>co_intents := map_values
      (\<lambda>i. if ?hit i then i\<lparr>wi_state := Intent_Completed\<rparr> else i) (co_intents st)\<rparr>)"
    using True sl a by (simp add: complete_batch_with_ack_def Let_def)
  note member = filtered_ids [OF sound, of _ ?hit]
  have batch: "iid \<in> set ?ids" if "iid \<in> set (ba_intents (ac_batch a))" for iid
    unfolding member
    using active_intents [OF ok a that] soundD(4) [OF sound] that
    by (auto simp: completes_def intent_ok_def)
  have here: "\<exists>i. intent_at st iid = Some i \<and> wi_slot i = ba_slot b" if "iid \<in> set ?ids" for iid
  proof -
    from that obtain i where i: "intent_at st iid = Some i" "?hit i" unfolding member by blast
    have "wi_id i = iid" using soundD(4) [OF sound i(1)] by (simp add: intent_ok_def)
    then show ?thesis
      using i active_intents [OF ok a, of iid] by (auto simp: completes_def)
  qed
  show ?thesis
  proof (rule sound_set_states [OF sound sl, where f = ?f and s = Intent_Completed and ids = ?ids])
    show "intent_at ?st' k = intent_at (set_states Intent_Completed ?ids st) k" for k
      using intent_at_completed [OF sound, of ?hit Intent_Completed k] by (simp add: st')
    show "slot_holds (?f sl) iid loc \<longleftrightarrow> place_of (wi_priority i) Intent_Completed = Some loc"
      if "iid \<in> set ?ids" for iid i loc
      using that by (cases loc) (auto simp: slot_queue_remove_all)
    show "slot_holds (?f sl) iid loc \<longleftrightarrow> slot_holds sl iid loc" if "iid \<notin> set ?ids" for iid loc
    proof -
      have "iid \<notin> set (ba_intents (ac_batch a))" using batch that by blast
      with that a show ?thesis by (cases loc) (auto simp: slot_queue_remove_all)
    qed
    show "distinct (slot_queue (?f sl) p)" for p
      using slot_okD(1) [OF ok] by (simp add: slot_queue_remove_all)
  qed (use here soundD(3) [OF sound] in \<open>simp_all add: st' on_slot_def leases_ok_def\<close>)
qed (simp add: complete_batch_with_ack_def assms)

lemma sound_observe:
  assumes sound: "sound g H st"
  shows "sound g H (snd (observe_messages sid e ms st))"
proof (cases "Option.bind (slot_at st sid) sl_active")
  case (Some a)
  then obtain sl where sl: "slot_at st sid = Some sl" and a: "sl_active sl = Some a"
    by (auto split: bind_splits)
  note ok = soundD(5) [OF sound sl]
  let ?a = "a\<lparr>ac_batch := (ac_batch a)\<lparr>ba_observed :=
    ba_observed (ac_batch a) @ fold (observe_row (ac_batch a)) ms []\<rparr>\<rparr>"
  have "sound g H (on_slot sid (\<lambda>sl. sl\<lparr>sl_active := Some ?a\<rparr>) st)"
  proof (rule sound_set_states [OF sound sl, where f = "\<lambda>sl. sl\<lparr>sl_active := Some ?a\<rparr>"
        and ids = "[]" and s = Intent_Completed])
    show "batch_ok g H st sid (ac_batch a')" if "sl_active (sl\<lparr>sl_active := Some ?a\<rparr>) = Some a'" for a'
      using that slot_okD(3) [OF ok a] by (auto simp: batch_ok_def handle_of_def)
    show "slot_holds (sl\<lparr>sl_active := Some ?a\<rparr>) iid loc \<longleftrightarrow> slot_holds sl iid loc" for iid loc
      using a by (cases loc) simp_all
  qed (use ok soundD(3) [OF sound] in
      \<open>simp_all add: on_slot_def leases_ok_def set_states_def slot_ok_def\<close>)
  then show ?thesis
    using Some by (simp add: observe_messages_def Let_def assms)
qed (simp add: observe_messages_def assms)

end
