(* ===== verification/Work_Intake.thy ===== *)
theory Work_Intake
  imports Work_Preserve
begin

text \<open>
  Taking work in preserves the coordinator's invariant: acquiring, committing and aborting an
  enqueue, reconciling with the mailbox, claiming the next batch, and the operations that move no
  intent (pause, restart gate, MCP refresh).
\<close>

section \<open>Operations that do not move intents\<close>

lemma sound_frame:
  assumes "sound g H st" "co_slots st' = co_slots st" "co_intents st' = co_intents st" "leases_ok st'"
  shows "sound g H st'"
proof -
  have "slot_ok g H st' sid sl = slot_ok g H st sid sl" for sid sl
    using assms by (simp add: slot_ok_def placed_at_def batch_ok_def message_of_def [abs_def]
        run_of_def [abs_def])
  then show ?thesis using assms by (simp add: sound_def homed_def)
qed

lemma leases_ok_delete: "leases_ok st \<Longrightarrow> leases_ok (st\<lparr>co_leases := AList.delete k (co_leases st)\<rparr>)"
  by (simp add: leases_ok_def)

lemma sound_acquire:
  assumes "sound g H st"
  shows "sound g H (fst (snd (acquire_enqueue port g rq lid (st, p))))"
proof -
  let ?st = "on_slot (rq_slot rq) (\<lambda>sl. sl\<lparr>sl_role := rq_role rq\<rparr>) (ensure_slot (rq_slot rq) (rq_role rq) st)"
  have 1: "sound g H ?st" by (intro sound_on_slot sound_ensure assms) simp_all
  have "sound g H (?st\<lparr>co_leases := AList.update lid r (co_leases ?st)\<rparr>)"
    if "le_id (lr_lease r) = lid" for r
    by (rule sound_frame [OF 1]) (use soundD(3) [OF 1] that in \<open>simp_all add: leases_ok_def\<close>)
  with 1 show ?thesis
    by (simp add: acquire_enqueue_def Let_def case_prod_beta split: option.split)
qed

lemma sound_abort:
  assumes "sound g H st"
  shows "sound g H (snd (snd (abort_enqueue g le st)))"
proof -
  have "sound g H (st\<lparr>co_leases := AList.delete (le_id le) (co_leases st)\<rparr>)"
    by (rule sound_frame [OF assms]) (simp_all add: leases_ok_delete soundD(3) [OF assms])
  with assms show ?thesis by (simp add: abort_enqueue_def Let_def split: option.split)
qed

lemma sound_take_interrupt: "sound g H st \<Longrightarrow> sound g H (snd (take_interrupt_metadata bid st))"
  by (rule sound_frame) (simp_all add: take_interrupt_metadata_def sound_def leases_ok_def)

lemma sound_pause:
  "sound g H st \<Longrightarrow> pause_slot sid st = Some out \<Longrightarrow> sound g H (snd (snd out))"
  by (auto simp: pause_slot_def Let_def intro!: sound_on_slot sound_ensure split: bind_splits)

lemma sound_operation: "sound g H st \<Longrightarrow> sound g H (st\<lparr>co_next_operation := n\<rparr>)"
  by (rule sound_frame) (simp_all add: sound_def leases_ok_def)

lemma sound_begin_restart: "sound g H st \<Longrightarrow> sound g H (snd (snd (begin_runtime_restart_inner sid q st)))"
  by (auto simp: begin_runtime_restart_inner_def Let_def split: option.split runtime_constraint.split
      intro!: sound_on_slot sound_operation sound_ensure)

lemma sound_abort_restart: "sound g H st \<Longrightarrow> sound g H (snd (abort_runtime_restart sid gate st))"
  by (auto simp: abort_runtime_restart_def Let_def split: option.split intro!: sound_on_slot)

lemma sound_mcp:
  assumes "sound g H st"
  shows "sound g H (snd (request_mcp_refresh sid f st))" "sound g H (defer_mcp_refresh sid f st)"
    "sound g H (snd (claim_pending_mcp_refresh sid st))" "sound g H (complete_mcp_refresh sid f st)"
    "sound g H (release_mcp_refresh sid f st)" "sound g H (settle_mcp_refresh_claim sid f st)"
  using assms
  by (auto simp: request_mcp_refresh_def defer_mcp_refresh_def claim_pending_mcp_refresh_def
      complete_mcp_refresh_def clear_pending_def release_mcp_refresh_def settle_mcp_refresh_claim_def
      Let_def split: option.split intro!: sound_on_slot sound_ensure)


section \<open>New intents\<close>

lemma sound_insert:
  assumes sound: "sound g H st" and sl: "slot_at st sid = Some sl"
    and i: "intent_at st (wi_id i) = None" "wi_priority i = source_priority (wi_source i)"
      "wi_slot i = sid" "wi_state i = Intent_Queued"
    and st': "co_slots st' = modify sid f (co_slots st)"
      "co_intents st' = AList.update (wi_id i) i (co_intents st)" "leases_ok st'"
    and qs: "\<And>p. set (slot_queue (f sl) p) =
      (if p = wi_priority i then insert (wi_id i) (set (slot_queue sl p)) else set (slot_queue sl p))"
      "\<And>p. wi_id i \<notin> set (slot_queue sl p) \<Longrightarrow> distinct (slot_queue sl p) \<Longrightarrow> distinct (slot_queue (f sl) p)"
      "sl_active (f sl) = sl_active sl"
  shows "sound g H st'"
proof -
  note ok = soundD(5) [OF sound sl]
  have ext: "extends st st'"
    unfolding extends_def st' using i(1) by simp (metis wi_state_same)
  have fresh: "wi_id i \<notin> set (slot_queue sl p)" for p
    using queue_intents [OF ok] i(1) by fastforce
  have fresh': "wi_id i \<notin> set (ba_intents (ac_batch a))" if "sl_active sl = Some a" for a
    using active_intents [OF ok that] i(1) by fastforce
  show ?thesis
  proof (rule sound_one_slot [OF sound, where sid = sid and sl' = "f sl"])
    show "placed_at st' sid (f sl)"
      unfolding placed_at_def
    proof (intro allI)
      fix iid loc
      show "slot_holds (f sl) iid loc \<longleftrightarrow>
          (\<exists>j. intent_at st' iid = Some j \<and> wi_slot j = sid \<and> intent_place j = Some loc)"
      proof (cases "iid = wi_id i")
        case True
        with fresh fresh' i show ?thesis
          by (cases loc) (auto simp: st' qs split: option.split)
      next
        case False
        then have "slot_holds (f sl) iid loc = slot_holds sl iid loc"
          by (cases loc) (simp_all add: qs)
        with False show ?thesis
          using placed_atD [OF slot_okD(2) [OF ok], of iid loc] by (simp add: st')
      qed
    qed
    show "batch_ok g H st' sid (ac_batch a)" if "sl_active (f sl) = Some a" for a
      by (rule batch_ok_extends [OF slot_okD(3) [OF ok] ext]) (use that qs in simp_all)
    show "distinct (slot_queue (f sl) p)" for p
      by (rule qs(2) [OF fresh slot_okD(1) [OF ok]])
    show "intent_ok iid j" if "intent_at st' iid = Some j" "intent_at st iid = None" for iid j
      using that i by (auto simp: st' intent_ok_def split: if_splits)
    show "intent_at st iid = Some j" if "intent_at st' iid = Some j" "wi_slot j \<noteq> sid" for iid j
      using that i by (auto simp: st' split: if_splits)
    show "slot_at st' k = (if k = sid then Some (f sl) else slot_at st k)" for k
      by (simp add: st' map_of_modify sl)
  qed (use soundD [OF sound] ext st' in simp_all)
qed

lemma enqueue_in_slot_frame [simp]: "sl_active (enqueue_in_slot le m iid sl) = sl_active sl"
  by (simp add: enqueue_in_slot_def Let_def split: option.split)

lemma slot_queue_enqueue:
  "slot_queue (enqueue_in_slot le m iid sl) p =
     (if p = source_priority (le_source le)
      then (if le_source le = Source_LeadIntervention then iid # slot_queue sl p else slot_queue sl p @ [iid])
      else slot_queue sl p)"
  by (simp add: enqueue_in_slot_def Let_def split: option.split)

lemma sound_commit:
  assumes sound: "sound g H st" and fresh: "intent_at st iid = None"
    and out: "commit_enqueue g le m iid now st = Some out"
  shows "sound g H (snd (snd out))"
proof (cases "snd (snd out) = st")
  case False
  then obtain sl where sl: "slot_at st (le_slot le) = Some sl"
    using out by (auto simp: commit_enqueue_def split: option.splits if_splits)
  let ?i = "\<lparr>wi_id = iid, wi_generation = g, wi_slot = le_slot le, wi_role = le_role le,
    wi_source = le_source le, wi_priority = source_priority (le_source le), wi_message = m,
    wi_run = le_run le, wi_created = now, wi_state = Intent_Queued\<rparr>"
  let ?f = "enqueue_in_slot le m iid"
  let ?st = "on_slot (le_slot le) ?f (st\<lparr>co_leases := AList.delete (le_id le) (co_leases st),
    co_intents := AList.update iid ?i (co_intents st)\<rparr>)"
  have "snd (snd out) = ?st"
    using out False by (auto simp: commit_enqueue_def Let_def split: option.splits if_splits bind_splits)
  moreover have "sound g H ?st"
  proof (rule sound_insert [OF sound sl, where i = ?i and f = ?f])
    show "leases_ok ?st" using leases_ok_delete [OF soundD(3) [OF sound]] by (simp add: leases_ok_def)
  qed (use fresh in \<open>auto simp: on_slot_def slot_queue_enqueue\<close>)
  ultimately show ?thesis by simp
qed (simp add: sound)


text \<open>Reconciliation: what the slot has queued and the mailbox no longer holds goes, and every
  unread message nobody owns gets a recovery intent.\<close>

definition recover_ok ::
  "string \<Rightarrow> work_batch set \<Rightarrow> string \<Rightarrow> (string \<Rightarrow> string) \<Rightarrow> string list \<Rightarrow> coordinator_state \<Rightarrow> bool" where
  "recover_ok g H sid mk ms st \<longleftrightarrow> sound g H st \<and> slot_at st sid \<noteq> None
     \<and> (\<forall>m \<in> set ms. intent_at st (mk m) = None \<or> already_owned st sid m)"

lemma already_owned_iff:
  assumes "sound g H st"
  shows "already_owned st sid m \<longleftrightarrow> (\<exists>iid i. intent_at st iid = Some i \<and> wi_slot i = sid
    \<and> wi_message i = Some m \<and> \<not> intent_is_terminal (wi_state i))"
  using intent_listed [OF assms] soundD(4) [OF assms]
  unfolding already_owned_def intent_ok_def by metis

lemma recover_step:
  assumes "recover_ok g H sid mk (m # ms) st" "inj_on mk (set (m # ms))"
  shows "recover_ok g H sid mk ms (fst (recover_message g sid role mk now m (st, created)))"
proof (cases "already_owned st sid m")
  case True
  with assms show ?thesis by (simp add: recover_message_def recover_ok_def)
next
  case False
  let ?i = "\<lparr>wi_id = mk m, wi_generation = g, wi_slot = sid, wi_role = role,
    wi_source = Source_RecoveryDrain, wi_priority = Priority_Background, wi_message = Some m,
    wi_run = None, wi_created = now m, wi_state = Intent_Queued\<rparr>"
  let ?f = "update_queue Priority_Background (\<lambda>q. q @ [mk m])"
  let ?st = "on_slot sid ?f (st\<lparr>co_intents := AList.update (mk m) ?i (co_intents st)\<rparr>)"
  from assms(1) obtain sl where sl: "slot_at st sid = Some sl" and sound: "sound g H st"
    by (auto simp: recover_ok_def)
  have fresh: "intent_at st (mk m) = None"
    using assms(1) False by (auto simp: recover_ok_def)
  have sound': "sound g H ?st"
  proof (rule sound_insert [OF sound sl, where i = ?i and f = ?f])
    show "leases_ok ?st" using soundD(3) [OF sound] by (simp add: leases_ok_def)
  qed (use fresh in \<open>auto simp: on_slot_def simp del: update_queue.simps\<close>)
  have "intent_at ?st (mk m') = None \<or> already_owned ?st sid m'" if m': "m' \<in> set ms" for m'
  proof (cases "m' = m")
    case True
    have "already_owned ?st sid m"
      unfolding already_owned_iff [OF sound'] by (rule exI [of _ "mk m"]) simp
    with True show ?thesis by simp
  next
    case False
    then have "mk m' \<noteq> mk m" using assms(2) m' by (auto simp: inj_on_def)
    moreover have "already_owned ?st sid m'" if "already_owned st sid m'"
    proof -
      from that obtain iid i where i: "intent_at st iid = Some i" "wi_slot i = sid"
        "wi_message i = Some m'" "\<not> intent_is_terminal (wi_state i)"
        by (auto simp: already_owned_iff [OF sound])
      then have "iid \<noteq> mk m" using fresh by auto
      with i show ?thesis unfolding already_owned_iff [OF sound'] by fastforce
    qed
    ultimately show ?thesis using assms(1) m' by (auto simp: recover_ok_def)
  qed
  with sound' sl False show ?thesis by (simp add: recover_message_def recover_ok_def)
qed

lemma recover_fold:
  assumes "recover_ok g H sid mk ms st" "inj_on mk (set ms)"
  shows "sound g H (fst (fold (recover_message g sid role mk now) ms (st, created)))"
  using assms
proof (induction ms arbitrary: st created)
  case (Cons m ms)
  let ?r = "recover_message g sid role mk now m (st, created)"
  have "sound g H (fst (fold (recover_message g sid role mk now) ms (fst ?r, snd ?r)))"
    using recover_step [OF Cons.prems] Cons.prems(2) by (intro Cons.IH) auto
  then show ?case by simp
qed (simp add: recover_ok_def)

definition reconcile_start ::
  "string \<Rightarrow> string list \<Rightarrow> team_role \<Rightarrow> coordinator_state \<Rightarrow> coordinator_state" where
  "reconcile_start sid unread role st =
     on_slot sid (\<lambda>sl. sl\<lparr>sl_role := role, sl_known_unread := set unread,
       sl_failures := filter (\<lambda>(m, _). m \<in> set unread) (sl_failures sl)\<rparr>) (ensure_slot sid role st)"

definition reconcile_queued :: "string \<Rightarrow> coordinator_state \<Rightarrow> string list" where
  "reconcile_queued sid st1 =
     filter (\<lambda>iid. intent_at st1 iid \<noteq> None) (case slot_at st1 sid of Some sl \<Rightarrow> queued_ids sl | None \<Rightarrow> [])"

definition reconcile_cleared ::
  "string \<Rightarrow> string list \<Rightarrow> string set \<Rightarrow> coordinator_state \<Rightarrow> coordinator_state" where
  "reconcile_cleared sid unread cands st1 =
    (let cleared = filter (stale_signal st1 unread cands) (reconcile_queued sid st1)
     in on_slot sid (fold remove_queued cleared) (set_states Intent_Completed cleared st1))"

lemma reconcile_unfold:
  "snd (reconcile_mailbox_snapshot g sid unread role cands mk now st) =
     fst (fold (recover_message g sid role mk now) unread
       (reconcile_cleared sid unread cands (reconcile_start sid unread role st), []))"
  by (simp add: reconcile_mailbox_snapshot_def Let_def case_prod_beta reconcile_cleared_def
      reconcile_start_def reconcile_queued_def)

lemma sound_reconcile_start: "sound g H st \<Longrightarrow> sound g H (reconcile_start sid unread role st)"
  unfolding reconcile_start_def by (intro sound_on_slot sound_ensure) simp_all

lemma sound_reconcile_cleared:
  "sound g H st \<Longrightarrow> slot_at st sid \<noteq> None \<Longrightarrow> sound g H (reconcile_cleared sid unread cands st)"
  unfolding reconcile_cleared_def Let_def
  by (rule sound_drop_queued) (auto simp: reconcile_queued_def)

lemma sound_reconcile:
  assumes "sound g H st" and fresh: "\<And>m. m \<in> set unread \<Longrightarrow> intent_at st (mk m) = None"
    and inj: "inj_on mk (set unread)"
  shows "sound g H (snd (reconcile_mailbox_snapshot g sid unread role cands mk now st))"
proof -
  let ?st1 = "reconcile_start sid unread role st"
  let ?st2 = "reconcile_cleared sid unread cands ?st1"
  have slot: "slot_at ?st1 sid \<noteq> None" by (simp add: reconcile_start_def)
  have "sound g H ?st2"
    by (intro sound_reconcile_cleared sound_reconcile_start assms(1) slot)
  moreover have "intent_at ?st2 (mk m) = None" if "m \<in> set unread" for m
    using fresh [OF that] by (simp add: reconcile_cleared_def Let_def reconcile_start_def)
  moreover have "slot_at ?st2 sid \<noteq> None"
    using slot by (simp add: reconcile_cleared_def Let_def)
  ultimately have "recover_ok g H sid mk unread ?st2" by (simp add: recover_ok_def)
  from recover_fold [OF this inj] show ?thesis by (simp add: reconcile_unfold)
qed


section \<open>Claiming\<close>

lemma select_batch_prefix: "\<exists>rest. fifo = fst (select_batch st fifo) @ rest"
proof (cases fifo)
  case (Cons head tail)
  show ?thesis
  proof (cases "barrier_id st head")
    case False
    with Cons have "fst (select_batch st fifo) = takeWhile (\<lambda>iid. \<not> barrier_id st iid) fifo"
      by (simp add: select_batch_def)
    then show ?thesis by (metis takeWhile_dropWhile_id)
  qed (simp add: select_batch_def Cons)
qed (simp add: select_batch_def)

lemma select_batch_nonempty: "fifo \<noteq> [] \<Longrightarrow> fst (select_batch st fifo) \<noteq> []"
  by (cases fifo) (auto simp: select_batch_def)

lemma select_batch_subset: "set (fst (select_batch st fifo)) \<subseteq> set fifo"
  by (metis select_batch_prefix Un_upper1 set_append)

lemma select_batch_distinct: "distinct fifo \<Longrightarrow> distinct (fst (select_batch st fifo))"
  by (metis select_batch_prefix distinct_append)

fun claimed :: "reconcile_decision \<Rightarrow> work_batch set" where
  "claimed (Decision_Claim b) = {b}"
| "claimed _ = {}"

lemma message_of_alt: "(\<lambda>iid. Option.bind (intent_at st iid) wi_message) = message_of st"
  by (simp add: message_of_def fun_eq_iff)

lemma run_of_alt: "(\<lambda>iid. Option.bind (intent_at st iid) wi_run) = run_of st"
  by (simp add: run_of_def fun_eq_iff)

lemma batch_ok_new:
  assumes ext: "extends st st'" and b: "ba_slot b = sid" "ba_generation b = g"
    "ba_intents b \<noteq> []" "distinct (ba_intents b)"
    and ids: "\<And>iid. iid \<in> set (ba_intents b) \<Longrightarrow>
      \<exists>i. intent_at st iid = Some i \<and> wi_priority i = ba_priority b"
    and bid: "ba_id b \<notin> ba_id ` H"
    and msgs: "ba_messages b = filter_map (message_of st) (ba_intents b)"
    and runs: "ba_runs b = fold (\<lambda>r acc. push_new acc r) (filter_map (run_of st) (ba_intents b)) []"
  shows "batch_ok g (insert b H) st' sid b"
proof -
  have "filter_map (message_of st') (ba_intents b) = filter_map (message_of st) (ba_intents b)"
    by (rule filter_map_cong) (use ids extendsD(1) [OF ext] in blast)
  moreover have "filter_map (run_of st') (ba_intents b) = filter_map (run_of st) (ba_intents b)"
    by (rule filter_map_cong) (use ids extendsD(2) [OF ext] in blast)
  moreover have "\<exists>i. intent_at st' iid = Some i \<and> wi_priority i = ba_priority b"
    if "iid \<in> set (ba_intents b)" for iid
    using ids [OF that] extendsD(3) [OF ext] by fastforce
  moreover have "handle_of b b" by (simp add: handle_of_def)
  moreover have "h = b" if "h \<in> insert b H" "ba_id h = ba_id b" for h
    using that bid by (metis image_eqI insertE)
  ultimately show ?thesis
    unfolding batch_ok_def using b msgs runs by (metis insertI1)
qed

lemma sound_claim:
  assumes sound: "sound g H st" and sl: "slot_at st sid = Some sl" and idle: "sl_active sl = None"
    and fifo: "fifo = filter P (slot_queue sl p)" "fifo \<noteq> []"
    and bid: "bid \<notin> ba_id ` H"
  shows "sound g (H \<union> claimed (fst (claim_batch g sid bid p fifo st)))
    (snd (snd (claim_batch g sid bid p fifo st)))"
proof -
  note ok = soundD(5) [OF sound sl]
  let ?ids = "fst (select_batch st fifo)" and ?op = "sat_inc (co_next_operation st)"
  let ?b = "\<lparr>ba_id = bid, ba_generation = g, ba_slot = sid, ba_intents = ?ids,
    ba_messages = filter_map (message_of st) ?ids, ba_observed = [], ba_priority = p,
    ba_runs = fold (\<lambda>r acc. push_new acc r) (filter_map (run_of st) ?ids) [],
    ba_operation = ?op, ba_is_command = snd (select_batch st fifo)\<rparr>"
  let ?f = "\<lambda>sl. (fold remove_queued ?ids sl)
    \<lparr>sl_active := Some \<lparr>ac_batch = ?b, ac_turn = None, ac_started = None\<rparr>\<rparr>"
  let ?st = "on_slot sid ?f (set_states (Intent_Starting bid ?op) ?ids (st\<lparr>co_next_operation := ?op\<rparr>))"
  let ?H = "insert ?b H"
  have claim: "fst (claim_batch g sid bid p fifo st) = Decision_Claim ?b"
    "snd (snd (claim_batch g sid bid p fifo st)) = ?st"
    by (simp_all add: claim_batch_def Let_def case_prod_beta message_of_alt run_of_alt)
  have ids: "?ids \<noteq> []" "distinct ?ids" "set ?ids \<subseteq> set (slot_queue sl p)"
    using select_batch_nonempty [OF fifo(2)] select_batch_distinct [of fifo]
      slot_okD(1) [OF ok, of p] select_batch_subset [of st fifo] fifo(1) by auto
  have queued: "\<exists>i. intent_at st iid = Some i \<and> wi_slot i = sid \<and> wi_priority i = p"
    if "iid \<in> set ?ids" for iid
    using queue_intents [OF ok] ids(3) that by blast
  have int: "intent_at ?st k = intent_at (set_states (Intent_Starting bid ?op) ?ids st) k" for k
    by simp
  have ext: "extends st ?st"
    using extends_set_states [of st "Intent_Starting bid ?op" ?ids] by (simp only: extends_def int)
  have grown: "\<And>h. h \<in> ?H \<Longrightarrow> h \<notin> H \<Longrightarrow> ba_id h \<notin> ba_id ` H"
    using bid by auto
  have "sound g ?H ?st"
  proof (rule sound_one_slot [OF sound _ grown, where sid = sid and sl' = "?f sl"])
    show "intent_at st iid = Some i" if "intent_at ?st iid = Some i" "wi_slot i \<noteq> sid" for iid i
      using that queued [of iid] by (auto split: if_splits)
    show "intent_ok iid i" if "intent_at ?st iid = Some i" "intent_at st iid = None" for iid i
      using that by (simp split: if_splits)
    show "distinct (slot_queue (?f sl) q)" for q
      using slot_okD(1) [OF ok] by (simp add: slot_queue_remove_all)
    show "batch_ok g ?H ?st sid (ac_batch a)" if "sl_active (?f sl) = Some a" for a
    proof -
      have "ac_batch a = ?b" using that by auto
      moreover have "batch_ok g ?H ?st sid ?b"
        by (rule batch_ok_new [OF ext]) (use ids bid in simp_all, use queued in fastforce)
      ultimately show ?thesis by simp
    qed
    show "placed_at ?st sid (?f sl)"
      unfolding placed_at_def
    proof (intro allI)
      fix iid loc
      show "slot_holds (?f sl) iid loc \<longleftrightarrow>
          (\<exists>i. intent_at ?st iid = Some i \<and> wi_slot i = sid \<and> intent_place i = Some loc)"
      proof (cases "iid \<in> set ?ids")
        case True
        then show ?thesis
          using queued [OF True] by (cases loc) (auto simp: slot_queue_remove_all)
      next
        case False
        then have "slot_holds (?f sl) iid loc = slot_holds sl iid loc"
          by (cases loc) (auto simp: slot_queue_remove_all idle)
        with False show ?thesis
          using placed_atD [OF slot_okD(2) [OF ok], of iid loc] by simp
      qed
    qed
    show "leases_ok ?st" using soundD(3) [OF sound] by (simp add: leases_ok_def)
    show "slot_at ?st k = (if k = sid then Some (?f sl) else slot_at st k)" for k
      by (simp add: sl)
  qed (use soundD [OF sound] ext in \<open>simp_all add: subset_insertI\<close>)
  then show ?thesis by (simp add: claim)
qed

lemma sound_next:
  assumes "sound g H st" "bid \<notin> ba_id ` H"
  shows "sound g (H \<union> claimed (fst (next_batch g sid bid st))) (snd (snd (next_batch g sid bid st)))"
  using assms sound_claim [OF assms(1) _ _ refl _ assms(2)]
  by (auto simp: next_batch_def Let_def split: option.split)

end
