(* ===== verification/Work_Reach.thy ===== *)
theory Work_Reach
  imports Work_Intake
begin

text \<open>
  Ending work preserves the coordinator's invariant (discarding, signals, cancelling a run, a
  failed or stopped runtime, removal, stop), and with that every reachable state satisfies it:
  \<open>work_reach\<close> runs any sequence of calls whose generated ids are fresh and whose batch arguments
  were issued by \<open>next\<close>, against any port. First results: no operation panics on a reachable
  state, and intents are neither lost nor, once finished, revived.
\<close>

section \<open>Discarding and signals\<close>

lemma sound_discard:
  assumes "sound g H st"
  shows "sound g H (snd (snd (discard_queued_except sid m st)))"
  unfolding discard_queued_except_def Let_def snd_conv
  by (rule sound_drop_queued [OF assms]) auto

lemma open_intent_home:
  assumes "sound g H st" "intent_at st iid = Some i" "\<not> intent_is_terminal (wi_state i)"
  obtains sl where "slot_at st (wi_slot i) = Some sl" "slot_ok g H st (wi_slot i) sl"
proof -
  have "slot_at st (wi_slot i) \<noteq> None"
    using soundD(6) [OF assms(1)] assms(2,3) unfolding homed_def by blast
  then obtain sl where "slot_at st (wi_slot i) = Some sl" by blast
  with soundD(5) [OF assms(1)] that show ?thesis by blast
qed

lemma queued_intent_held:
  assumes "sound g H st" "intent_at st iid = Some i" "wi_state i = Intent_Queued"
    "slot_at st (wi_slot i) = Some sl"
  shows "iid \<in> set (slot_queue sl (wi_priority i))"
proof -
  have "slot_holds sl iid (In_Queue (wi_priority i))"
    using placed_atD [OF slot_okD(2) [OF soundD(5) [OF assms(1,4)]], of iid "In_Queue (wi_priority i)"]
      assms(2,3) by auto
  then show ?thesis by simp
qed

lemma queued_intent_home:
  assumes "sound g H st" "intent_at st iid = Some i" "wi_state i = Intent_Queued"
  shows "\<exists>sl. slot_at st (wi_slot i) = Some sl \<and> iid \<in> set (slot_queue sl (wi_priority i))"
  using open_intent_home [OF assms(1,2)] queued_intent_held [OF assms] assms(3) by fastforce

lemma sound_signals:
  assumes "sound g H st"
  shows "sound g H (snd (snd (complete_signals sid iids st)))"
proof (cases "\<forall>iid \<in> set iids. case intent_at st iid of
    Some i \<Rightarrow> wi_slot i = sid \<and> wi_message i = None \<and> wi_state i = Intent_Queued | None \<Rightarrow> False")
  case True
  have home: "\<exists>sl. slot_at st sid = Some sl \<and> iid \<in> set (queued_ids sl)" if "iid \<in> set iids" for iid
  proof -
    from True that obtain i where "intent_at st iid = Some i" "wi_slot i = sid" "wi_state i = Intent_Queued"
      by (auto split: option.splits)
    with queued_intent_home [OF assms] show ?thesis unfolding set_queued_ids by blast
  qed
  have "sound g H (on_slot sid (fold remove_queued iids) (set_states Intent_Completed iids st))"
  proof (rule sound_drop_queued [OF assms])
    show "iids = []" if "slot_at st sid = None"
      using home that by (cases iids) fastforce+
    show "iid \<in> set (queued_ids sl)" if "iid \<in> set iids" "slot_at st sid = Some sl" for iid sl
      using home [OF that(1)] that(2) by simp
  qed simp
  with True show ?thesis by (simp add: complete_signals_def Let_def)
next
  case False
  then show ?thesis using assms by (simp only: complete_signals_def if_False snd_conv)
qed


section \<open>Cancelling a run\<close>

lemma slot_queue_requeue_front:
  assumes "\<And>iid. iid \<in> set iids \<Longrightarrow> \<exists>i. intent_at st iid = Some i \<and> wi_priority i = p"
  shows "slot_queue (requeue_front st iids sl) q =
      (if q = p then iids @ slot_queue sl q else slot_queue sl q)"
    and "sl_active (requeue_front st iids sl) = sl_active sl"
proof -
  let ?step = "\<lambda>iid. case intent_at st iid of
      Some i \<Rightarrow> update_queue (wi_priority i) (\<lambda>q. iid # q) | None \<Rightarrow> id"
  have "slot_queue (fold ?step xs sl) q = (if q = p then rev xs @ slot_queue sl q else slot_queue sl q)
      \<and> sl_active (fold ?step xs sl) = sl_active sl" if "set xs \<subseteq> set iids" for xs
    using that
  proof (induction xs arbitrary: sl)
    case (Cons x xs)
    from Cons.prems assms [of x] obtain i where "intent_at st x = Some i" "wi_priority i = p" by auto
    with Cons show ?case by simp
  qed simp
  from this [of "rev iids"]
  show "slot_queue (requeue_front st iids sl) q =
      (if q = p then iids @ slot_queue sl q else slot_queue sl q)"
    and "sl_active (requeue_front st iids sl) = sl_active sl"
    by (simp_all add: requeue_front_def)
qed

lemma sound_cancel_active:
  assumes sound: "sound g H st" and sl: "slot_at st sid = Some sl" and a: "sl_active sl = Some a"
  shows "sound g H (cancel_active rid (sid, a) st)"
proof -
  note ok = soundD(5) [OF sound sl]
  define ids where "ids = ba_intents (ac_batch a)"
  define others where "others = filter (\<lambda>iid. run_of st iid \<noteq> Some rid) ids"
  let ?f = "\<lambda>sl. requeue_front st others (sl\<lparr>sl_active := None\<rparr>)"
  let ?sf = "\<lambda>i. if wi_run i = Some rid then run_cancelled else Intent_Queued"
  let ?p = "ba_priority (ac_batch a)"
  note act = active_intents [OF ok a, folded ids_def]
  note not_queued = active_not_queued [OF ok a, folded ids_def]
  have mem: "\<exists>i. intent_at st iid = Some i \<and> wi_priority i = ?p" if "iid \<in> set others" for iid
    using act [of iid] that by (auto simp: others_def)
  note front = slot_queue_requeue_front [OF mem]
  have st': "cancel_active rid (sid, a) st = on_slot sid ?f (set_states Intent_Queued others
      (set_states run_cancelled (filter (\<lambda>iid. run_of st iid = Some rid) ids) st))"
    by (simp add: cancel_active_def Let_def ids_def others_def)
  have split: "iid \<in> set others \<longleftrightarrow> wi_run i \<noteq> Some rid" if "iid \<in> set ids" "intent_at st iid = Some i" for iid i
    using that by (simp add: others_def run_of_def)
  show ?thesis
  proof (rule sound_restate [OF sound sl, where f = ?f and ids = ids and sf = ?sf])
    show "intent_at (cancel_active rid (sid, a) st) k =
        (if k \<in> set ids then map_option (\<lambda>i. i\<lparr>wi_state := ?sf i\<rparr>) (intent_at st k)
         else intent_at st k)" for k
      by (cases "intent_at st k") (auto simp: st' others_def run_of_def)
    show "\<exists>i. intent_at st iid = Some i \<and> wi_slot i = sid" if "iid \<in> set ids" for iid
      using act [OF that] by blast
    show "slot_holds (?f sl) iid loc \<longleftrightarrow> place_of (wi_priority i) (?sf i) = Some loc"
      if "iid \<in> set ids" "intent_at st iid = Some i" for iid i loc
      using act [OF that(1)] not_queued [OF that(1)] split [OF that] that(2)
      by (cases loc) (auto simp: front run_cancelled_def)
    show "slot_holds (?f sl) iid loc \<longleftrightarrow> slot_holds sl iid loc" if "iid \<notin> set ids" for iid loc
    proof -
      have "iid \<notin> set others" using that by (simp add: others_def)
      with that a show ?thesis by (cases loc) (auto simp: front ids_def)
    qed
    show "distinct (slot_queue (?f sl) p)" for p
    proof -
      have "distinct ids" using slot_okD(3) [OF ok a] by (simp add: batch_ok_def ids_def)
      then have "distinct others" by (simp add: others_def)
      moreover have "iid \<in> set ids" if "iid \<in> set others" for iid
        using that by (simp add: others_def)
      ultimately show ?thesis
        using slot_okD(1) [OF ok] not_queued by (auto simp: front)
    qed
    show "leases_ok (cancel_active rid (sid, a) st)"
      using soundD(3) [OF sound] by (simp add: st' leases_ok_def)
  qed (simp_all add: st' on_slot_def front)
qed

lemma cancel_active_other:
  "k \<noteq> sid \<Longrightarrow> slot_at (cancel_active rid (sid, a) st) k = slot_at st k"
  by (simp add: cancel_active_def Let_def)

lemma sound_cancel_actives:
  assumes "sound g H st" "distinct (map fst actives)"
    and "\<And>sid a. (sid, a) \<in> set actives \<Longrightarrow> \<exists>sl. slot_at st sid = Some sl \<and> sl_active sl = Some a"
  shows "sound g H (fold (cancel_active rid) actives st)"
  using assms
proof (induction actives arbitrary: st)
  case (Cons x actives)
  obtain sid a where x: "x = (sid, a)" by force
  with Cons.prems(3) obtain sl where sl: "slot_at st sid = Some sl" "sl_active sl = Some a"
    by force
  have "sound g H (fold (cancel_active rid) actives (cancel_active rid (sid, a) st))"
  proof (rule Cons.IH)
    show "sound g H (cancel_active rid (sid, a) st)"
      by (rule sound_cancel_active [OF Cons.prems(1) sl])
    show "\<exists>sl. slot_at (cancel_active rid (sid, a) st) k = Some sl \<and> sl_active sl = Some c"
      if "(k, c) \<in> set actives" for k c
    proof -
      have "k \<noteq> sid" using Cons.prems(2) that x by force
      then show ?thesis using Cons.prems(3) [of k c] that by (simp add: cancel_active_other)
    qed
  qed (use Cons.prems(2) in simp)
  then show ?case by (simp add: x)
qed simp

lemma run_active_slots_iff:
  assumes "distinct (keys (co_slots st))"
  shows "(sid, a) \<in> set (run_active_slots st rid) \<longleftrightarrow>
    (\<exists>sl. slot_at st sid = Some sl \<and> sl_active sl = Some a
       \<and> (\<exists>iid \<in> set (ba_intents (ac_batch a)). run_of st iid = Some rid))"
proof -
  define F where "F = (\<lambda>(sid :: string, sl :: slot_state). case sl_active sl of None \<Rightarrow> None
      | Some a \<Rightarrow> if \<exists>iid \<in> set (ba_intents (ac_batch a)). run_of st iid = Some rid
                  then Some (sid, a) else None)"
  have F: "F (k, sl) = Some (sid, a) \<longleftrightarrow>
      k = sid \<and> sl_active sl = Some a \<and> (\<exists>iid \<in> set (ba_intents (ac_batch a)). run_of st iid = Some rid)"
    for k sl
    by (auto simp: F_def split: option.split)
  have "(sid, a) \<in> set (run_active_slots st rid) \<longleftrightarrow> (\<exists>x \<in> set (co_slots st). F x = Some (sid, a))"
    by (simp add: run_active_slots_def set_filter_map F_def)
  also have "\<dots> \<longleftrightarrow> (\<exists>sl. (sid, sl) \<in> set (co_slots st) \<and> F (sid, sl) = Some (sid, a))"
    using F by (metis prod.collapse)
  finally show ?thesis
    by (simp add: F map_of_eq_Some_iff [OF assms])
qed

lemma distinct_filter_map_keys:
  assumes "\<And>k v y. F (k, v) = Some y \<Longrightarrow> fst y = k" "distinct (map fst xs)"
  shows "distinct (map fst (filter_map F xs))"
  using assms(2)
proof (induction xs)
  case (Cons x xs)
  have "fst ` set (filter_map F xs) \<subseteq> fst ` set xs"
    using assms(1) by (force simp: set_filter_map)
  then show ?case
    using Cons assms(1) [of "fst x" "snd x"] by (auto split: option.split)
qed simp

lemma distinct_run_active_slots:
  assumes "distinct (keys (co_slots st))"
  shows "distinct (map fst (run_active_slots st rid))"
  unfolding run_active_slots_def
  by (rule distinct_filter_map_keys [OF _ assms]) (auto split: option.splits if_splits)

lemma sound_cancel_queued_fold:
  assumes "sound g H st" "distinct (map wi_id is)"
    and "\<And>i. i \<in> set is \<Longrightarrow> intent_at st (wi_id i) = Some i \<and> wi_state i = Intent_Queued"
  shows "sound g H (fold cancel_queued is st)"
  using assms
proof (induction "is" arbitrary: st)
  case (Cons i "is")
  have i: "intent_at st (wi_id i) = Some i" "wi_state i = Intent_Queued" using Cons.prems(3) by auto
  have alt: "cancel_queued i st =
      on_slot (wi_slot i) (fold remove_queued [wi_id i]) (set_states run_cancelled [wi_id i] st)"
    by (simp add: cancel_queued_def set_states_def)
  have "sound g H (cancel_queued i st)"
    unfolding alt
  proof (rule sound_drop_queued [OF Cons.prems(1)])
    show "iid \<in> set (queued_ids sl)" if "iid \<in> set [wi_id i]" "slot_at st (wi_slot i) = Some sl" for iid sl
      using queued_intent_home [OF Cons.prems(1) i] that by (auto simp: set_queued_ids)
    show "[wi_id i] = []" if "slot_at st (wi_slot i) = None"
      using queued_intent_home [OF Cons.prems(1) i] that by auto
  qed (simp add: run_cancelled_def)
  moreover have "intent_at (cancel_queued i st) (wi_id j) = Some j \<and> wi_state j = Intent_Queued"
    if "j \<in> set is" for j
  proof -
    have "wi_id i \<notin> wi_id ` set is" using Cons.prems(2) by simp
    then have "wi_id j \<noteq> wi_id i" using that by (metis imageI)
    then show ?thesis using Cons.prems(3) [of j] that by (simp add: cancel_queued_def)
  qed
  ultimately show ?case using Cons.IH [of "cancel_queued i st"] Cons.prems(2) by simp
qed simp

lemma intent_ids_keys:
  assumes "sound g H st"
  shows "map wi_id (intent_list st) = keys (co_intents st)"
proof -
  have "wi_id i = k" if "(k, i) \<in> set (co_intents st)" for k i
    using that soundD(2,4) [OF assms] by (auto simp: intent_ok_def)
  then show ?thesis by (auto simp: intent_list_def)
qed

lemma distinct_filtered_ids:
  "sound g H st \<Longrightarrow> distinct (map wi_id (filter P (intent_list st)))"
  using soundD(2) [of g H st] by (simp add: intent_ids_keys distinct_map_filter flip: intent_ids_keys)

lemma leases_ok_delete_all:
  "leases_ok st \<Longrightarrow> leases_ok (st\<lparr>co_leases := fold AList.delete ks (co_leases st)\<rparr>)"
proof (induction ks arbitrary: st)
  case (Cons k ks)
  from Cons.IH [OF leases_ok_delete [OF Cons.prems, of k]] show ?case by simp
qed simp

lemma sound_cancel_run:
  assumes sound: "sound g H st" and out: "cancel_run rid st = Some out"
  shows "sound g H (snd (snd out))"
proof -
  have slots: "distinct (keys (co_slots st))"
    by (rule sorted_wrt_distinct [OF soundD(1) [OF sound]])
  let ?st1 = "fold (cancel_active rid) (run_active_slots st rid) st"
  let ?q = "filter (\<lambda>i. wi_run i = Some rid \<and> wi_state i = Intent_Queued) (intent_list ?st1)"
  let ?st2 = "fold cancel_queued ?q ?st1"
  have 1: "sound g H ?st1"
    using distinct_run_active_slots [OF slots] run_active_slots_iff [OF slots]
    by (intro sound_cancel_actives sound) blast+
  have 2: "sound g H ?st2"
    using distinct_filtered_ids [OF 1] intent_listed [OF 1]
    by (intro sound_cancel_queued_fold 1) auto
  have "sound g H (?st2\<lparr>co_leases := fold AList.delete ks (co_leases ?st2)\<rparr>)" for ks
    by (rule sound_frame [OF 2]) (simp_all add: leases_ok_delete_all soundD(3) [OF 2])
  then show ?thesis
    using out by (auto simp: cancel_run_def Let_def split: if_splits)
qed


section \<open>Constraint, removal, stop\<close>

lemma intent_at_constrain_fold:
  assumes "distinct iids"
  shows "intent_at (fold (constrain_intent c) iids st) k =
    (if k \<in> set iids then map_option (\<lambda>i. i\<lparr>wi_state := constrained_state c i\<rparr>) (intent_at st k)
     else intent_at st k)"
  using assms by (induction iids arbitrary: st) (auto simp: constrain_intent_def)

lemma constrain_fold_frame [simp]:
  "co_slots (fold (constrain_intent c) iids st) = co_slots st"
  "co_leases (fold (constrain_intent c) iids st) = co_leases st"
  "keys (co_intents (fold (constrain_intent c) iids st)) = keys (co_intents st)"
  by (induction iids arbitrary: st) (simp_all add: constrain_intent_def)

lemma slot_queue_push_back_fold:
  "slot_queue (fold push_back is sl) p = slot_queue sl p @ map wi_id (filter (\<lambda>i. wi_priority i = p) is)"
  "sl_active (fold push_back is sl) = sl_active sl"
  by (induction "is" arbitrary: sl) (simp_all add: push_back_def)

lemma held_open:
  assumes "slot_ok g H st sid sl" "slot_holds sl iid loc"
  shows "\<exists>i. intent_at st iid = Some i \<and> wi_slot i = sid \<and> \<not> intent_is_terminal (wi_state i)"
  using placed_atD [OF slot_okD(2) [OF assms(1)], of iid loc] assms(2) place_terminal
  by (metis option.distinct(1))

definition open_in :: "coordinator_state \<Rightarrow> string \<Rightarrow> work_intent list" where
  "open_in st sid = filter (\<lambda>i. wi_slot i = sid \<and> \<not> intent_is_terminal (wi_state i)) (intent_list st)"

lemma open_in_iff:
  assumes "sound g H st"
  shows "iid \<in> set (map wi_id (open_in st sid)) \<longleftrightarrow>
    (\<exists>i. intent_at st iid = Some i \<and> wi_slot i = sid \<and> \<not> intent_is_terminal (wi_state i))"
  unfolding open_in_def filtered_ids [OF assms] by blast

text \<open>Every open intent of the slot is restated and the queues are rebuilt from those that wait.\<close>

lemma sound_constrain:
  assumes sound: "sound g H st" and sl: "slot_at st sid = Some sl" and c: "ends_work c"
  shows "sound g H (on_slot sid
      (\<lambda>sl. fold push_back (filter (\<lambda>i. constrained_state c i = Intent_Queued) (open_in st sid))
        (clear_work sl))
      (fold (constrain_intent c) (map wi_id (open_in st sid)) st))"
proof -
  note ok = soundD(5) [OF sound sl]
  let ?ids = "map wi_id (open_in st sid)"
  let ?req = "filter (\<lambda>i. constrained_state c i = Intent_Queued) (open_in st sid)"
  let ?f = "\<lambda>sl. fold push_back ?req (clear_work sl)"
  have dist: "distinct ?ids" unfolding open_in_def by (rule distinct_filtered_ids [OF sound])
  have state: "place_of p (constrained_state c i) = Some loc \<longleftrightarrow>
      constrained_state c i = Intent_Queued \<and> loc = In_Queue p" for p i loc
    using c by (auto simp: constrained_state_def ends_work_def split: runtime_constraint.splits)
  have req: "iid \<in> set (slot_queue (?f sl) p) \<longleftrightarrow> (\<exists>i. intent_at st iid = Some i \<and> wi_slot i = sid
      \<and> \<not> intent_is_terminal (wi_state i) \<and> constrained_state c i = Intent_Queued \<and> wi_priority i = p)"
    for iid p
    using filtered_ids [OF sound, of iid "\<lambda>i. wi_slot i = sid \<and> \<not> intent_is_terminal (wi_state i)
      \<and> constrained_state c i = Intent_Queued \<and> wi_priority i = p"]
    by (simp add: slot_queue_push_back_fold open_in_def filter_filter conj_ac)
  show ?thesis
  proof (rule sound_restate [OF sound sl, where f = ?f and ids = ?ids and sf = "constrained_state c"])
    show "intent_at (on_slot sid ?f (fold (constrain_intent c) ?ids st)) k =
        (if k \<in> set ?ids then map_option (\<lambda>i. i\<lparr>wi_state := constrained_state c i\<rparr>) (intent_at st k)
         else intent_at st k)" for k
      by (simp add: intent_at_constrain_fold [OF dist])
    show "\<exists>i. intent_at st iid = Some i \<and> wi_slot i = sid" if "iid \<in> set ?ids" for iid
      using that unfolding open_in_iff [OF sound] by blast
    show "slot_holds (?f sl) iid loc \<longleftrightarrow> place_of (wi_priority i) (constrained_state c i) = Some loc"
      if "iid \<in> set ?ids" "intent_at st iid = Some i" for iid i loc
      using that(1) that(2) unfolding open_in_iff [OF sound] state
      by (cases loc) (auto simp: req slot_queue_push_back_fold(2) simp del: slot_queue_push_back_fold(1))
    show "slot_holds (?f sl) iid loc \<longleftrightarrow> slot_holds sl iid loc" if "iid \<notin> set ?ids" for iid loc
    proof -
      have "\<not> slot_holds sl iid loc"
        using held_open [OF ok, of iid loc] that unfolding open_in_iff [OF sound] by blast
      moreover have "\<not> slot_holds (?f sl) iid loc"
        using that unfolding open_in_iff [OF sound]
        by (cases loc) (auto simp: req slot_queue_push_back_fold(2) simp del: slot_queue_push_back_fold(1))
      ultimately show ?thesis by blast
    qed
    show "distinct (slot_queue (?f sl) p)" for p
      using distinct_filtered_ids [OF sound]
      by (simp add: slot_queue_push_back_fold open_in_def filter_filter)
  qed (use soundD(3) [OF sound] in \<open>simp_all add: on_slot_def leases_ok_def slot_queue_push_back_fold\<close>)
qed

lemma sound_set_constraint:
  assumes sound: "sound g H st" and out: "set_runtime_constraint sid c st = Some out"
  shows "sound g H (snd (snd out))"
proof -
  let ?st1 = "on_slot sid (\<lambda>sl. sl\<lparr>sl_constraint := c\<rparr>) (ensure_slot sid Role_Teammate st)"
  have 1: "sound g H ?st1" by (intro sound_on_slot sound_ensure sound) simp_all
  obtain sl where sl: "slot_at ?st1 sid = Some sl" by simp
  show ?thesis
  proof (cases "ends_work c")
    case True
    then have "snd (snd out) = on_slot sid
        (\<lambda>sl. fold push_back (filter (\<lambda>i. constrained_state c i = Intent_Queued) (open_in ?st1 sid))
          (clear_work sl))
        (fold (constrain_intent c) (map wi_id (open_in ?st1 sid)) ?st1)"
      using out by (auto simp: set_runtime_constraint_def Let_def open_in_def split: if_splits bind_splits)
    with sound_constrain [OF 1 sl True] show ?thesis by simp
  next
    case False
    then have "snd (snd out) = ?st1"
      using out by (auto simp: set_runtime_constraint_def Let_def split: if_splits bind_splits)
    with 1 show ?thesis by simp
  qed
qed

lemma removal_ids:
  assumes sound: "sound g H st"
  shows "iid \<in> set (removal_order st sid) \<longleftrightarrow>
    (\<exists>i. intent_at st iid = Some i \<and> wi_slot i = sid \<and> \<not> intent_is_terminal (wi_state i))"
proof -
  define held where "held = (case slot_at st sid of Some sl \<Rightarrow> held_ids sl | None \<Rightarrow> [])"
  have held: "\<exists>i. intent_at st iid = Some i \<and> wi_slot i = sid \<and> \<not> intent_is_terminal (wi_state i)"
    if iid: "iid \<in> set held" for iid
  proof -
    obtain sl where sl: "slot_at st sid = Some sl" "iid \<in> set (held_ids sl)"
      using iid by (cases "slot_at st sid") (simp_all add: held_def)
    note ok = soundD(5) [OF sound sl(1)]
    have "\<exists>loc. slot_holds sl iid loc"
    proof (cases "iid \<in> set (queued_ids sl)")
      case True
      then show ?thesis unfolding set_queued_ids using slot_holds.simps(1) by blast
    next
      case False
      then obtain a where "sl_active sl = Some a" "iid \<in> set (ba_intents (ac_batch a))"
        using sl(2) by (cases "sl_active sl") (simp_all add: held_ids_def)
      then have "slot_holds sl iid (In_Batch (ba_id (ac_batch a)) (ba_operation (ac_batch a)) (ac_turn a))"
        by simp
      then show ?thesis ..
    qed
    then show ?thesis using held_open [OF ok] by blast
  qed
  have "set (removal_order st sid) = set held \<union>
      set (map wi_id (filter (\<lambda>i. wi_id i \<notin> set held) (open_of_slot st sid)))"
    by (simp add: removal_order_def held_def Let_def)
  moreover have "iid \<in> set (map wi_id (filter (\<lambda>i. wi_id i \<notin> set held) (open_of_slot st sid))) \<longleftrightarrow>
      (\<exists>i. intent_at st iid = Some i \<and> wi_slot i = sid \<and> \<not> intent_is_terminal (wi_state i)
         \<and> wi_id i \<notin> set held)"
    unfolding open_of_slot_def filter_filter filtered_ids [OF sound] by blast
  moreover have "wi_id i = iid" if "intent_at st iid = Some i" for i
    using soundD(4) [OF sound that] by (simp add: intent_ok_def)
  ultimately show ?thesis using held by blast
qed

lemma sound_remove:
  assumes sound: "sound g H st" and out: "remove_slot sid st = Some out"
  shows "sound g H (snd (snd out))"
proof -
  let ?ids = "removal_order st sid" and ?s = "Intent_Cancelled ''slot_removed''"
  let ?f = "\<lambda>sl. (clear_work sl)\<lparr>sl_removed := True\<rparr>"
  have st': "snd (snd out) = on_slot sid ?f (set_states ?s ?ids st)"
    using out by (auto simp: remove_slot_def Let_def split: if_splits)
  show ?thesis
  proof (cases "slot_at st sid")
    case None
    have "?ids = []"
    proof (rule ccontr)
      assume "?ids \<noteq> []"
      then obtain iid where "iid \<in> set ?ids" by (meson list.set_sel(1))
      then obtain i where "intent_at st iid = Some i" "wi_slot i = sid"
        "\<not> intent_is_terminal (wi_state i)"
        unfolding removal_ids [OF sound] by blast
      with None show False using open_intent_home [OF sound] by (metis option.distinct(1))
    qed
    with None sound show ?thesis by (simp add: st' on_slot_absent set_states_def)
  next
    case (Some sl)
    note ok = soundD(5) [OF sound Some]
    show ?thesis
      unfolding st'
    proof (rule sound_set_states [OF sound Some, where f = ?f and s = ?s and ids = ?ids])
      show "\<exists>i. intent_at st iid = Some i \<and> wi_slot i = sid" if "iid \<in> set ?ids" for iid
        using that unfolding removal_ids [OF sound] by blast
      show "slot_holds (?f sl) iid loc \<longleftrightarrow> slot_holds sl iid loc" if "iid \<notin> set ?ids" for iid loc
      proof -
        have "\<not> slot_holds sl iid loc"
          using held_open [OF ok, of iid loc] that unfolding removal_ids [OF sound] by blast
        then show ?thesis by (cases loc) simp_all
      qed
      show "slot_holds (?f sl) iid loc \<longleftrightarrow> place_of (wi_priority i) ?s = Some loc" for iid i loc
        by (cases loc) simp_all
    qed (use soundD(3) [OF sound] in \<open>simp_all add: on_slot_def leases_ok_def\<close>)
  qed
qed

lemma sound_stop:
  assumes "sound g H st"
  shows "sound g H (snd (snd (stop_coordinator st)))"
proof -
  let ?st = "snd (snd (stop_coordinator st))"
  have int: "intent_at ?st k = map_option (\<lambda>i. if intent_is_terminal (wi_state i) then i
      else i\<lparr>wi_state := Intent_Cancelled ''session_stopped''\<rparr>) (intent_at st k)" for k
    by (simp add: stop_coordinator_def Let_def map_of_map_values)
  have slots: "slot_at ?st k = map_option (\<lambda>sl. (clear_work sl)\<lparr>sl_constraint := Constraint_SessionStopped\<rparr>)
      (slot_at st k)" for k
    by (simp add: stop_coordinator_def Let_def map_of_map_values)
  have ended: "intent_is_terminal (wi_state i)" if "intent_at ?st k = Some i" for k i
  proof -
    from that obtain j where "i = (if intent_is_terminal (wi_state j) then j
        else j\<lparr>wi_state := Intent_Cancelled ''session_stopped''\<rparr>)"
      by (auto simp: int)
    then show ?thesis by (cases "intent_is_terminal (wi_state j)") simp_all
  qed
  have "slot_ok g H ?st sid sl" if sl: "slot_at ?st sid = Some sl" for sid sl
  proof -
    have "\<not> slot_holds sl iid loc" for iid loc
      using sl by (cases loc) (auto simp: slots)
    moreover have "intent_place i = None" if "intent_at ?st k = Some i" for k i
      using ended [OF that] place_terminal by blast
    ultimately have "placed_at ?st sid sl" by (fastforce simp: placed_at_def)
    then show ?thesis using sl by (auto simp: slots slot_ok_def)
  qed
  moreover have "intent_ok iid i" if "intent_at ?st iid = Some i" for iid i
    using that soundD(4) [OF assms] by (auto simp: int intent_ok_def split: if_splits)
  moreover have "sorted_wrt (<) (keys (co_slots ?st)) \<and> distinct (keys (co_intents ?st)) \<and> leases_ok ?st"
    using soundD(1,2) [OF assms] by (simp add: stop_coordinator_def Let_def leases_ok_def)
  ultimately show ?thesis using ended by (auto simp: sound_def homed_def)
qed


section \<open>Reachable states\<close>

text \<open>What a caller must respect: generated ids are new, and a batch argument is one that
  \<open>next\<close> has issued. Callers also pass the batch as a snapshot shows it (\<open>cancel_child_turn\<close> of
  \<open>session.rs\<close> does), with the messages the turn has observed so far; no operation reads these of
  its argument.\<close>

definition bare_batch :: "work_batch \<Rightarrow> work_batch" where
  "bare_batch b = b\<lparr>ba_observed := []\<rparr>"

definition bare_call :: "work_call \<Rightarrow> work_call" where
  "bare_call c = (case c of
      Call_MarkStarted b t now \<Rightarrow> Call_MarkStarted (bare_batch b) t now
    | Call_RetryStart b \<Rightarrow> Call_RetryStart (bare_batch b)
    | Call_Complete b \<Rightarrow> Call_Complete (bare_batch b)
    | Call_Fail b reason \<Rightarrow> Call_Fail (bare_batch b) reason
    | Call_CancelBatch b reason \<Rightarrow> Call_CancelBatch (bare_batch b) reason
    | Call_Interrupt b r m \<Rightarrow> Call_Interrupt (bare_batch b) r m
    | _ \<Rightarrow> c)"

definition handle_call_ok :: "work_batch set \<Rightarrow> coordinator_state \<Rightarrow> work_call \<Rightarrow> bool" where
  "handle_call_ok H st c = (case c of
      Call_CommitEnqueue _ _ iid _ \<Rightarrow> intent_at st iid = None
    | Call_Reconcile _ unread _ _ mk _ \<Rightarrow>
        inj_on mk (set unread) \<and> (\<forall>m \<in> set unread. intent_at st (mk m) = None)
    | Call_Next _ bid \<Rightarrow> bid \<notin> ba_id ` H
    | Call_MarkStarted b _ _ \<Rightarrow> b \<in> H
    | Call_RetryStart b \<Rightarrow> b \<in> H
    | Call_Complete b \<Rightarrow> b \<in> H
    | Call_Fail b _ \<Rightarrow> b \<in> H
    | Call_CancelBatch b _ \<Rightarrow> b \<in> H
    | Call_Interrupt b _ _ \<Rightarrow> b \<in> H
    | _ \<Rightarrow> True)"

definition call_ok :: "work_batch set \<Rightarrow> coordinator_state \<Rightarrow> work_call \<Rightarrow> bool" where
  "call_ok H st c = handle_call_ok H st (bare_call c)"

lemmas call_ok_defs = call_ok_def handle_call_ok_def bare_call_def

lemma bare_fields [simp]:
  "ba_id (bare_batch b) = ba_id b" "ba_generation (bare_batch b) = ba_generation b"
  "ba_slot (bare_batch b) = ba_slot b" "ba_intents (bare_batch b) = ba_intents b"
  "ba_messages (bare_batch b) = ba_messages b" "ba_priority (bare_batch b) = ba_priority b"
  "ba_runs (bare_batch b) = ba_runs b" "ba_operation (bare_batch b) = ba_operation b"
  by (simp_all add: bare_batch_def)

lemma bare_current [simp]: "is_current_batch g st (bare_batch b) = is_current_batch g st b"
  by (simp add: is_current_batch_def cong: option.case_cong)

lemma exec_bare: "exec_call port g (bare_call c) x = exec_call port g c x"
  by (cases x; cases c)
    (simp_all add: bare_call_def mark_started_def retry_start_def complete_batch_with_ack_def fail_batch_def
      cancel_batch_def terminalize_batch_def interrupt_batch_def is_batch_cancelled_def cong: option.case_cong)

definition issued :: "string \<Rightarrow> coordinator_state \<Rightarrow> work_call \<Rightarrow> work_batch set" where
  "issued g st c = (case c of Call_Next sid bid \<Rightarrow> claimed (fst (next_batch g sid bid st)) | _ \<Rightarrow> {})"

inductive work_reach ::
  "'p run_causality_port \<Rightarrow> string \<Rightarrow> 'p \<Rightarrow> work_batch set \<Rightarrow> coordinator_state \<Rightarrow> 'p \<Rightarrow> bool"
  for port g p0 where
  reach_new: "work_reach port g p0 {} new_coordinator p0"
| reach_call: "work_reach port g p0 H st p \<Longrightarrow> call_ok H st c
    \<Longrightarrow> exec_call port g c (st, p) = Some (st', p')
    \<Longrightarrow> work_reach port g p0 (H \<union> issued g st c) st' p'"

lemma finish_call_state [simp]: "fst (finish_call port p out) = snd (snd out)"
  by (simp add: finish_call_def split: prod.split)

lemma finish_call_iff: "finish_call port p out = (st', p') \<longleftrightarrow>
    st' = snd (snd out) \<and> p' = make_calls port (fst (snd out)) p"
  by (auto simp: finish_call_def split: prod.split)

lemma sound_grow: "sound g H st \<Longrightarrow> sound g (H \<union> {}) st"
  by simp

lemma sound_cancel_batch:
  "sound g H st \<Longrightarrow> b \<in> H \<Longrightarrow> sound g H (snd (snd (cancel_batch g b c st)))"
  using sound_terminalize [of g H st b "Intent_Cancelled c" Delivery_NotFailed]
  by (simp add: cancel_batch_def Let_def case_prod_beta)

lemma sound_fail_batch:
  "sound g H st \<Longrightarrow> b \<in> H \<Longrightarrow> sound g H (snd (snd (fail_batch g b c st)))"
  by (simp add: fail_batch_def sound_terminalize)

lemma issued_bare [simp]: "issued g st (bare_call c) = issued g st c"
  by (cases c) (simp_all add: issued_def bare_call_def)

lemma sound_handle_exec:
  assumes "sound g H st" "handle_call_ok H st c" "exec_call port g c (st, p) = Some (st', p')"
  shows "sound g (H \<union> issued g st c) st'"
proof (cases c)
  case (Call_Next sid bid)
  then show ?thesis
    using assms sound_next [of g H st bid sid]
    by (auto simp: handle_call_ok_def issued_def finish_call_iff)
next
  case (Call_CommitEnqueue le m iid now)
  then show ?thesis
    using assms sound_commit [of g H st iid le m now] by (auto simp: handle_call_ok_def issued_def finish_call_iff)
next
  case (Call_Reconcile sid unread role cands mk now)
  then show ?thesis
    using assms sound_reconcile [of g H st unread mk sid role cands now]
    by (auto simp: handle_call_ok_def issued_def)
next
  case (Call_AcquireEnqueue rq lid)
  then show ?thesis using assms(3) sound_acquire [OF assms(1), of port rq lid p]
    by (cases "acquire_enqueue port g rq lid (st, p)") (simp add: issued_def)
qed (use assms in \<open>auto simp: handle_call_ok_def issued_def finish_call_iff sound_abort sound_observe
      sound_mark_started sound_retry_start sound_complete sound_fail_batch sound_cancel_batch
      sound_interrupt sound_take_interrupt sound_discard sound_signals sound_mcp sound_stop
      sound_begin_restart sound_abort_restart begin_runtime_restart_def begin_mcp_runtime_restart_def
      dest: sound_pause sound_set_constraint sound_cancel_run sound_remove\<close>)

lemma sound_exec:
  assumes "sound g H st" "call_ok H st c" "exec_call port g c (st, p) = Some (st', p')"
  shows "sound g (H \<union> issued g st c) st'"
  using sound_handle_exec [OF assms(1) assms(2) [unfolded call_ok_def], of port p st' p'] assms(3)
  by (simp add: exec_bare)

lemma sound_new: "sound g {} new_coordinator"
  by (simp add: sound_def new_coordinator_def leases_ok_def homed_def)

lemma reach_sound: "work_reach port g p0 H st p \<Longrightarrow> sound g H st"
  by (induction rule: work_reach.induct) (auto intro: sound_new sound_exec)



section \<open>Scenarios\<close>

text \<open>A list of calls, run from a state; \<^const>\<open>None\<close> when one is not allowed or panics. The
  scenarios of the witnesses run against a port without runs.\<close>

fun run_calls ::
  "'p run_causality_port \<Rightarrow> string \<Rightarrow> work_call list \<Rightarrow> work_batch set \<times> coordinator_state \<times> 'p
     \<Rightarrow> (work_batch set \<times> coordinator_state \<times> 'p) option" where
  "run_calls port g [] s = Some s"
| "run_calls port g (c # cs) (H, st, p) =
     (if call_ok H st c then
        (case exec_call port g c (st, p) of
           None \<Rightarrow> None
         | Some (st', p') \<Rightarrow> run_calls port g cs (H \<union> issued g st c, st', p'))
      else None)"

lemma run_calls_reach:
  "work_reach port g p0 H st p \<Longrightarrow> run_calls port g cs (H, st, p) = Some (H', st', p')
     \<Longrightarrow> work_reach port g p0 H' st' p'"
proof (induction cs arbitrary: H st p)
  case (Cons c cs)
  from Cons.prems(2) obtain st1 p1 where "call_ok H st c" "exec_call port g c (st, p) = Some (st1, p1)"
    "run_calls port g cs (H \<union> issued g st c, st1, p1) = Some (H', st', p')"
    by (auto split: if_splits option.splits)
  then show ?case using Cons.IH reach_call [OF Cons.prems(1)] by blast
qed simp

definition quiet_port :: "unit run_causality_port" where
  "quiet_port = \<lparr>port_bind_enqueue = (\<lambda>_ p. (no_binding, p)),
     port_bind_system_enqueue = (\<lambda>_ p. (no_binding, p)), port_abort_binding = (\<lambda>_ p. p),
     port_apply_work_summary = (\<lambda>_ p. p), port_publish_slot_work = (\<lambda>_ p. p)\<rparr>"

definition demo_lease :: "work_source \<Rightarrow> string \<Rightarrow> enqueue_lease" where
  "demo_lease src lid = \<lparr>le_id = lid, le_generation = ''g'', le_slot = ''a'', le_role = Role_Teammate,
     le_source = src, le_run = None\<rparr>"

definition demo_enqueue :: "work_source \<Rightarrow> string \<Rightarrow> work_call list" where
  "demo_enqueue src m =
     [Call_AcquireEnqueue \<lparr>rq_slot = ''a'', rq_role = Role_Teammate, rq_source = src,
        rq_binding = Binding_Background\<rparr> (''l'' @ m),
      Call_CommitEnqueue (demo_lease src (''l'' @ m)) (Some m) (''i'' @ m) 0]"

definition demo_state :: "work_call list \<Rightarrow> coordinator_state" where
  "demo_state cs = (case run_calls quiet_port ''g'' cs ({}, new_coordinator, ()) of
     Some (_, st, _) \<Rightarrow> st | None \<Rightarrow> new_coordinator)"

definition demo_handles :: "work_call list \<Rightarrow> work_batch set" where
  "demo_handles cs = (case run_calls quiet_port ''g'' cs ({}, new_coordinator, ()) of
     Some (H, _, _) \<Rightarrow> H | None \<Rightarrow> {})"

lemma demo_reach: "work_reach quiet_port ''g'' () (demo_handles cs) (demo_state cs) ()"
  using run_calls_reach [OF reach_new [of quiet_port "''g''" "()"], of cs]
  by (cases "run_calls quiet_port ''g'' cs ({}, new_coordinator, ())")
    (auto simp: demo_state_def demo_handles_def intro: reach_new)

end
