(* ===== verification/Work_History.thy ===== *)
theory Work_History
  imports Work_Reach
begin

text \<open>
  What holds of every reachable state of the coordinator and every step from it: each open intent
  is held exactly once, no operation panics, and an intent's history only moves forward (nothing is
  forgotten, what an intent is about never changes, a finished intent stays finished).
\<close>

section \<open>Held exactly once\<close>

definition all_held :: "coordinator_state \<Rightarrow> string list" where
  "all_held st = concat (map held_ids (vals (co_slots st)))"

lemma distinct_queued_ids:
  assumes "slot_ok g H st sid sl"
  shows "distinct (queued_ids sl)"
  using slot_okD(1) [OF assms, of Priority_Foreground] slot_okD(1) [OF assms, of Priority_Control]
    slot_okD(1) [OF assms, of Priority_Directed] slot_okD(1) [OF assms, of Priority_Background]
    queued_once [OF assms, of _ Priority_Foreground Priority_Control]
    queued_once [OF assms, of _ Priority_Foreground Priority_Directed]
    queued_once [OF assms, of _ Priority_Foreground Priority_Background]
    queued_once [OF assms, of _ Priority_Control Priority_Directed]
    queued_once [OF assms, of _ Priority_Control Priority_Background]
    queued_once [OF assms, of _ Priority_Directed Priority_Background]
  by (auto simp: queued_ids_def)

lemma distinct_held_ids:
  assumes "slot_ok g H st sid sl"
  shows "distinct (held_ids sl)"
  using distinct_queued_ids [OF assms] slot_okD(3) [OF assms] active_not_queued [OF assms]
  by (auto simp: held_ids_def batch_ok_def set_queued_ids split: option.split)

lemma held_iff:
  assumes "sound g H st" "slot_at st sid = Some sl"
  shows "iid \<in> set (held_ids sl) \<longleftrightarrow>
    (\<exists>i. intent_at st iid = Some i \<and> wi_slot i = sid \<and> \<not> intent_is_terminal (wi_state i))"
proof -
  note ok = soundD(5) [OF assms]
  have "iid \<in> set (held_ids sl) \<longleftrightarrow> (\<exists>loc. slot_holds sl iid loc)"
  proof
    assume "iid \<in> set (held_ids sl)"
    then consider p where "iid \<in> set (slot_queue sl p)"
      | a where "sl_active sl = Some a" "iid \<in> set (ba_intents (ac_batch a))"
      unfolding held_ids_def set_append Un_iff set_queued_ids by (cases "sl_active sl") auto
    then show "\<exists>loc. slot_holds sl iid loc"
    proof cases
      case 1
      then have "slot_holds sl iid (In_Queue p)" by simp
      then show ?thesis ..
    next
      case 2
      then have "slot_holds sl iid (In_Batch (ba_id (ac_batch a)) (ba_operation (ac_batch a)) (ac_turn a))"
        by simp
      then show ?thesis ..
    qed
  next
    assume "\<exists>loc. slot_holds sl iid loc"
    then obtain loc where "slot_holds sl iid loc" ..
    then show "iid \<in> set (held_ids sl)"
      unfolding held_ids_def set_append Un_iff set_queued_ids
      by (cases loc; cases "sl_active sl") auto
  qed
  also have "\<dots> \<longleftrightarrow> (\<exists>i. intent_at st iid = Some i \<and> wi_slot i = sid \<and> intent_place i \<noteq> None)"
    using placed_atD [OF slot_okD(2) [OF ok], of iid] by blast
  finally show ?thesis by (simp add: place_terminal)
qed

lemma held_disjoint:
  assumes "sound g H st" "distinct (map fst xs)" "set xs \<subseteq> set (co_slots st)"
  shows "distinct (concat (map held_ids (map snd xs)))"
  using assms(2,3)
proof (induction xs)
  case (Cons x xs)
  have at: "slot_at st (fst y) = Some (snd y)" if "y \<in> set (x # xs)" for y
    using Cons.prems(2) that sorted_wrt_distinct [OF soundD(1) [OF assms(1)]]
    by (simp add: map_of_eq_Some_iff) (metis prod.collapse subsetD)
  have "iid \<notin> set (held_ids (snd y))" if "y \<in> set xs" "iid \<in> set (held_ids (snd x))" for iid y
  proof
    assume "iid \<in> set (held_ids (snd y))"
    then have "fst x = fst y"
      using held_iff [OF assms(1) at, of x iid] held_iff [OF assms(1) at, of y iid] that by auto
    with Cons.prems(1) that(1) show False by (metis distinct.simps(2) image_eqI list.map(2) set_map)
  qed
  moreover have "distinct (held_ids (snd x))"
    using distinct_held_ids [OF soundD(5) [OF assms(1) at]] by simp
  ultimately show ?case using Cons by auto
qed simp

text \<open>C1: Every open intent is held exactly once. In every reachable state, the lists of all active
  batches and all lanes of all slots together contain each unfinished intent exactly once and
  nothing else, each in the slot it was enqueued for.\<close>
theorem open_intents_held_once:
  assumes "work_reach port g p0 H st p"
  shows "distinct (all_held st) \<and>
    set (all_held st) = {iid. \<exists>i. intent_at st iid = Some i \<and> \<not> intent_is_terminal (wi_state i)} \<and>
    (\<forall>sid sl iid. slot_at st sid = Some sl \<and> iid \<in> set (held_ids sl) \<longrightarrow>
       (\<exists>i. intent_at st iid = Some i \<and> wi_slot i = sid))"
proof -
  note sound = reach_sound [OF assms]
  have slots: "distinct (keys (co_slots st))"
    by (rule sorted_wrt_distinct [OF soundD(1) [OF sound]])
  have "iid \<in> set (all_held st) \<longleftrightarrow>
      (\<exists>i. intent_at st iid = Some i \<and> \<not> intent_is_terminal (wi_state i))" for iid
  proof -
    have "iid \<in> set (all_held st) \<longleftrightarrow> (\<exists>sl \<in> set (vals (co_slots st)). iid \<in> set (held_ids sl))"
      by (simp add: all_held_def)
    also have "\<dots> \<longleftrightarrow> (\<exists>sid sl. slot_at st sid = Some sl \<and> iid \<in> set (held_ids sl))"
      unfolding Bex_def vals_iff [OF slots] by blast
    also have "\<dots> \<longleftrightarrow> (\<exists>i. intent_at st iid = Some i \<and> \<not> intent_is_terminal (wi_state i))"
    proof
      assume "\<exists>i. intent_at st iid = Some i \<and> \<not> intent_is_terminal (wi_state i)"
      then obtain i where i: "intent_at st iid = Some i" "\<not> intent_is_terminal (wi_state i)" by blast
      obtain sl where sl: "slot_at st (wi_slot i) = Some sl"
        using open_intent_home [OF sound i] by blast
      have "iid \<in> set (held_ids sl)" using held_iff [OF sound sl] i by blast
      with sl show "\<exists>sid sl. slot_at st sid = Some sl \<and> iid \<in> set (held_ids sl)" by blast
    qed (use held_iff [OF sound] in blast)
    finally show ?thesis .
  qed
  moreover have "distinct (all_held st)"
    using held_disjoint [OF sound slots] by (simp add: all_held_def)
  ultimately show ?thesis using held_iff [OF sound] by blast
qed


section \<open>No panic\<close>

lemma all_present_removal: "sound g H st \<Longrightarrow> all_present st (removal_order st sid)"
  unfolding all_present_def using removal_ids [of g H st] by fastforce

lemma all_present_filtered:
  assumes "sound g H st"
  shows "all_present st (map wi_id (filter P (intent_list st)))"
  unfolding all_present_def
proof
  fix iid assume "iid \<in> set (map wi_id (filter P (intent_list st)))"
  then show "intent_at st iid \<noteq> None" unfolding filtered_ids [OF assms] by blast
qed

lemma slot_snapshot_some: "slot_at st sid = Some sl \<Longrightarrow> slot_snapshot st sid \<noteq> None"
  by (simp add: slot_snapshot_def)

lemma commit_no_panic: "commit_enqueue g le m iid now st \<noteq> None"
proof (cases "slot_at st (le_slot le)")
  case (Some sl)
  then show ?thesis
    by (auto simp: commit_enqueue_def Let_def slot_snapshot_def split: option.split)
qed (auto simp: commit_enqueue_def split: option.split)

lemma pause_no_panic: "pause_slot sid st \<noteq> None"
  by (simp add: pause_slot_def Let_def slot_snapshot_def)

lemma constraint_no_panic:
  assumes "sound g H st"
  shows "set_runtime_constraint sid c st \<noteq> None"
proof -
  let ?st1 = "on_slot sid (\<lambda>sl. sl\<lparr>sl_constraint := c\<rparr>) (ensure_slot sid Role_Teammate st)"
  have "sound g H ?st1" by (intro sound_on_slot sound_ensure assms) simp_all
  from all_present_filtered [OF this] show ?thesis
    by (simp add: set_runtime_constraint_def Let_def slot_snapshot_def all_present_def)
qed

lemma cancel_actives_sound:
  assumes "sound g H st"
  shows "sound g H (fold (cancel_active rid) (run_active_slots st rid) st)"
proof -
  have slots: "distinct (keys (co_slots st))"
    by (rule sorted_wrt_distinct [OF soundD(1) [OF assms]])
  show ?thesis
    using distinct_run_active_slots [OF slots] run_active_slots_iff [OF slots]
    by (intro sound_cancel_actives assms) blast+
qed

lemma cancel_run_no_panic:
  assumes "sound g H st"
  shows "cancel_run rid st \<noteq> None"
proof -
  have slots: "distinct (keys (co_slots st))"
    by (rule sorted_wrt_distinct [OF soundD(1) [OF assms]])
  have "all_present st (concat (map (\<lambda>(_, a). ba_intents (ac_batch a)) (run_active_slots st rid)))"
    unfolding all_present_def
  proof
    fix iid assume "iid \<in> set (concat (map (\<lambda>(_, a). ba_intents (ac_batch a)) (run_active_slots st rid)))"
    then obtain sid a where a: "(sid, a) \<in> set (run_active_slots st rid)" "iid \<in> set (ba_intents (ac_batch a))"
      by auto
    then obtain sl where "slot_at st sid = Some sl" "sl_active sl = Some a"
      unfolding run_active_slots_iff [OF slots] by blast
    then show "intent_at st iid \<noteq> None"
      using active_intents [OF soundD(5) [OF assms]] a(2) by blast
  qed
  then show ?thesis
    using all_present_filtered [OF cancel_actives_sound [OF assms]] by (simp add: cancel_run_def Let_def)
qed

text \<open>C35: The coordinator never panics: from a reachable state every call a well-behaved caller can
  make returns, so none of the source's \<open>expect\<close>s fires.\<close>
theorem coordinator_never_panics:
  assumes "work_reach port g p0 H st p" and "call_ok H st c"
  shows "exec_call port g c (st, p) \<noteq> None"
  using reach_sound [OF assms(1)] commit_no_panic pause_no_panic
  by (cases c) (simp_all add: cancel_run_no_panic constraint_no_panic remove_slot_def Let_def
      all_present_removal)


section \<open>Histories only move forward\<close>

text \<open>Nothing is forgotten, only the state of an intent changes, and a finished intent keeps even
  that.\<close>

definition keeps :: "coordinator_state \<Rightarrow> coordinator_state \<Rightarrow> bool" where
  "keeps st st' \<longleftrightarrow> (\<forall>iid i. intent_at st iid = Some i \<longrightarrow>
     (\<exists>s. intent_at st' iid = Some (i\<lparr>wi_state := s\<rparr>) \<and>
        (intent_is_terminal (wi_state i) \<longrightarrow> s = wi_state i)))"

lemma keeps_same: "co_intents st' = co_intents st \<Longrightarrow> keeps st st'"
  unfolding keeps_def by (metis wi_state_same)

lemma keeps_trans: "keeps a b \<Longrightarrow> keeps b c \<Longrightarrow> keeps a c"
  unfolding keeps_def by fastforce

lemma keeps_restate:
  assumes int: "\<And>k. intent_at st' k = (if P k
      then map_option (\<lambda>i. i\<lparr>wi_state := sf i\<rparr>) (intent_at st k) else intent_at st k)"
    and opened: "\<And>k i. P k \<Longrightarrow> intent_at st k = Some i \<Longrightarrow> \<not> intent_is_terminal (wi_state i)"
  shows "keeps st st'"
  unfolding keeps_def
proof (intro allI impI)
  fix iid i assume i: "intent_at st iid = Some i"
  show "\<exists>s. intent_at st' iid = Some (i\<lparr>wi_state := s\<rparr>) \<and>
      (intent_is_terminal (wi_state i) \<longrightarrow> s = wi_state i)"
  proof (cases "P iid")
    case True
    with i opened show ?thesis by (auto simp: int)
  next
    case False
    with i show ?thesis by (intro exI [of _ "wi_state i"]) (simp add: int)
  qed
qed

lemma keeps_set_states:
  assumes "\<And>k. intent_at st' k = intent_at (set_states s ids st) k"
    and "\<And>k i. k \<in> set ids \<Longrightarrow> intent_at st k = Some i \<Longrightarrow> \<not> intent_is_terminal (wi_state i)"
  shows "keeps st st'"
  by (rule keeps_restate [where P = "\<lambda>k. k \<in> set ids" and sf = "\<lambda>_. s"]) (use assms in simp_all)

lemma keeps_insert:
  assumes "co_intents st' = AList.update iid i (co_intents st)" "intent_at st iid = None"
  shows "keeps st st'"
  unfolding keeps_def using assms by simp (metis wi_state_same)

lemma batch_open:
  assumes "sound g H st" "b \<in> H" "is_current_batch g st b" "k \<in> set (ba_intents b)" "intent_at st k = Some i"
  shows "\<not> intent_is_terminal (wi_state i)"
proof -
  obtain sl a where "slot_ok g H st (ba_slot b) sl" "sl_active sl = Some a" "handle_of (ac_batch a) b"
    using current_handle [OF assms(1-3)] by blast
  then show ?thesis
    using active_intents [of g H st "ba_slot b" sl a k] assms(4,5) place_terminal
    by (metis handle_fields(2) option.distinct(1) option.inject)
qed

lemma queued_open:
  assumes "sound g H st" "slot_at st sid = Some sl" "k \<in> set (queued_ids sl)" "intent_at st k = Some i"
  shows "\<not> intent_is_terminal (wi_state i)"
  using queue_intents [OF soundD(5) [OF assms(1,2)]] assms(3,4)
  unfolding set_queued_ids by fastforce

lemma keeps_mark_started:
  assumes "sound g H st" "b \<in> H"
  shows "keeps st (snd (snd (mark_started g b turn now st)))"
proof (cases "is_current_batch g st b")
  case True
  show ?thesis
    by (rule keeps_set_states [where s = "Intent_Running (ba_id b) (ba_operation b) turn" and ids = "ba_intents b"])
      (use True batch_open [OF assms True] in \<open>simp_all add: mark_started_def Let_def\<close>)
qed (simp add: mark_started_def keeps_same)

lemma keeps_retry_start:
  assumes "sound g H st" "b \<in> H"
  shows "keeps st (snd (snd (retry_start g b st)))"
proof (cases "is_current_batch g st b")
  case True
  show ?thesis
    by (rule keeps_set_states [where s = Intent_Queued and ids = "ba_intents b"])
      (use True batch_open [OF assms True] in \<open>simp_all add: retry_start_def Let_def\<close>)
qed (simp add: retry_start_def keeps_same)

lemma keeps_terminalize:
  assumes "sound g H st" "b \<in> H"
  shows "keeps st (snd (snd (terminalize_batch g b s d st)))"
proof (cases "is_current_batch g st b")
  case True
  then obtain sl where sl: "slot_at st (ba_slot b) = Some sl"
    using current_handle [OF assms True] by blast
  show ?thesis
    by (rule keeps_set_states [where s = s and ids = "ba_intents b"])
      (use True sl batch_open [OF assms True] in \<open>simp_all add: terminalize_batch_def Let_def case_prod_beta\<close>)
qed (simp add: terminalize_batch_def keeps_same)

lemma keeps_interrupt:
  assumes "sound g H st" "b \<in> H"
  shows "keeps st (snd (snd (interrupt_batch g b r m st)))"
proof (cases "is_current_batch g st b")
  case True
  show ?thesis
    by (rule keeps_set_states [where s = "Intent_Cancelled ''lead_interrupted''" and ids = "ba_intents b"])
      (use True batch_open [OF assms True] in \<open>simp_all add: interrupt_batch_def Let_def\<close>)
qed (simp add: interrupt_batch_def keeps_same)

lemma keeps_complete:
  assumes sound: "sound g H st" and "b \<in> H"
  shows "keeps st (snd (snd (complete_batch_with_ack g b st)))"
proof (cases "is_current_batch g st b")
  case True
  with assms obtain sl a where sl: "slot_at st (ba_slot b) = Some sl" and a: "sl_active sl = Some a"
    and b: "handle_of (ac_batch a) b"
    using current_handle by blast
  let ?hit = "completes (ac_batch a) (ba_slot b)"
  show ?thesis
  proof (rule keeps_restate [where P = "\<lambda>k. k \<in> set (map wi_id (filter ?hit (intent_list st)))"
        and sf = "\<lambda>_. Intent_Completed"])
    show "intent_at (snd (snd (complete_batch_with_ack g b st))) k =
        (if k \<in> set (map wi_id (filter ?hit (intent_list st)))
         then map_option (\<lambda>i. i\<lparr>wi_state := Intent_Completed\<rparr>) (intent_at st k) else intent_at st k)" for k
      using intent_at_completed [OF sound, of ?hit Intent_Completed k] True sl a
      by (simp add: complete_batch_with_ack_def Let_def)
    show "\<not> intent_is_terminal (wi_state i)"
      if "k \<in> set (map wi_id (filter ?hit (intent_list st)))" "intent_at st k = Some i" for k i
    proof -
      have "?hit i" using that unfolding filtered_ids [OF sound] by auto
      moreover have "wi_id i = k" using soundD(4) [OF sound that(2)] by (simp add: intent_ok_def)
      ultimately show ?thesis
        using batch_open [OF assms True _ that(2)] by (auto simp: completes_def handle_fields [OF b])
    qed
  qed
qed (simp add: complete_batch_with_ack_def keeps_same)

lemma keeps_discard:
  assumes "sound g H st"
  shows "keeps st (snd (snd (discard_queued_except sid m st)))"
proof (cases "slot_at st sid")
  case (Some sl)
  show ?thesis
    by (rule keeps_set_states [where s = "Intent_Cancelled ''lead_interrupt_discarded''"
          and ids = "filter (discardable st m) (queued_ids sl)"])
      (use Some queued_open [OF assms Some] in \<open>auto simp: discard_queued_except_def Let_def\<close>)
qed (simp add: discard_queued_except_def Let_def set_states_def keeps_same)

lemma keeps_signals: "keeps st (snd (snd (complete_signals sid iids st)))"
proof (cases "\<forall>iid \<in> set iids. case intent_at st iid of
    Some i \<Rightarrow> wi_slot i = sid \<and> wi_message i = None \<and> wi_state i = Intent_Queued | None \<Rightarrow> False")
  case True
  show ?thesis
    by (rule keeps_set_states [where s = Intent_Completed and ids = iids])
      (use True in \<open>auto simp: complete_signals_def Let_def\<close>)
next
  case False
  then show ?thesis by (simp only: complete_signals_def if_False snd_conv) (simp add: keeps_same)
qed

lemma next_batch_shape:
  "snd (snd (next_batch g sid bid st)) = st \<or> (\<exists>sl p. slot_at st sid = Some sl
    \<and> next_batch g sid bid st = claim_batch g sid bid p (filter (has_message st) (slot_queue sl p)) st)"
proof (cases "slot_at st sid")
  case (Some sl)
  show ?thesis
  proof (cases "find (\<lambda>p. slot_queue sl p \<noteq> []) claim_order")
    case (Some p)
    with \<open>slot_at st sid = Some sl\<close> show ?thesis
      by (auto simp: next_batch_def Let_def)
  qed (use Some in \<open>simp add: next_batch_def\<close>)
qed (simp add: next_batch_def)

lemma keeps_claim:
  assumes "sound g H st"
  shows "keeps st (snd (snd (next_batch g sid bid st)))"
  using next_batch_shape [of g sid bid st]
proof (elim disjE exE conjE)
  fix sl p
  assume sl: "slot_at st sid = Some sl"
    and nx: "next_batch g sid bid st = claim_batch g sid bid p (filter (has_message st) (slot_queue sl p)) st"
  let ?ids = "fst (select_batch st (filter (has_message st) (slot_queue sl p)))"
  have "k \<in> set (queued_ids sl)" if "k \<in> set ?ids" for k
    using that select_batch_subset [of st "filter (has_message st) (slot_queue sl p)"]
    unfolding set_queued_ids by auto
  then show ?thesis
    by (intro keeps_set_states [where s = "Intent_Starting bid (sat_inc (co_next_operation st))" and ids = ?ids])
      (use queued_open [OF assms sl] in \<open>auto simp: nx claim_batch_def Let_def case_prod_beta\<close>)
qed (simp add: keeps_same)

lemma recover_keeps:
  assumes "recover_ok g H sid mk ms st" "inj_on mk (set ms)"
  shows "keeps st (fst (fold (recover_message g sid role mk now) ms (st, created)))"
  using assms
proof (induction ms arbitrary: st created)
  case (Cons m ms)
  let ?r = "recover_message g sid role mk now m (st, created)"
  have "keeps st (fst ?r)"
  proof (cases "already_owned st sid m")
    case False
    with Cons.prems(1) have "intent_at st (mk m) = None" by (auto simp: recover_ok_def)
    with False show ?thesis
      by (intro keeps_insert) (simp_all add: recover_message_def)
  qed (simp add: recover_message_def keeps_same)
  moreover have "keeps (fst ?r) (fst (fold (recover_message g sid role mk now) ms (fst ?r, snd ?r)))"
    using recover_step [OF Cons.prems] Cons.prems(2) by (intro Cons.IH) auto
  ultimately show ?case by (auto intro: keeps_trans)
qed (simp add: keeps_same)

lemma reconcile_recover_ok:
  assumes "sound g H st" "\<And>m. m \<in> set unread \<Longrightarrow> intent_at st (mk m) = None"
  shows "recover_ok g H sid mk unread (reconcile_cleared sid unread cands (reconcile_start sid unread role st))"
proof -
  let ?st1 = "reconcile_start sid unread role st"
  let ?st2 = "reconcile_cleared sid unread cands ?st1"
  have slot: "slot_at ?st1 sid \<noteq> None" by (simp add: reconcile_start_def)
  have "sound g H ?st2"
    by (intro sound_reconcile_cleared sound_reconcile_start assms(1) slot)
  moreover have "intent_at ?st2 (mk m) = None" if "m \<in> set unread" for m
    using assms(2) [OF that] by (simp add: reconcile_cleared_def Let_def reconcile_start_def)
  moreover have "slot_at ?st2 sid \<noteq> None"
    using slot by (simp add: reconcile_cleared_def Let_def)
  ultimately show ?thesis by (simp add: recover_ok_def)
qed

lemma keeps_reconcile:
  assumes "sound g H st" and fresh: "\<And>m. m \<in> set unread \<Longrightarrow> intent_at st (mk m) = None"
    and inj: "inj_on mk (set unread)"
  shows "keeps st (snd (reconcile_mailbox_snapshot g sid unread role cands mk now st))"
proof -
  let ?st1 = "reconcile_start sid unread role st"
  have 1: "sound g H ?st1" by (rule sound_reconcile_start [OF assms(1)])
  obtain sl where sl: "slot_at ?st1 sid = Some sl" by (simp add: reconcile_start_def)
  have "keeps ?st1 (reconcile_cleared sid unread cands ?st1)"
    by (rule keeps_set_states [where s = Intent_Completed
          and ids = "filter (stale_signal ?st1 unread cands) (reconcile_queued sid ?st1)"])
      (use queued_open [OF 1 sl] sl in \<open>auto simp: reconcile_cleared_def Let_def reconcile_queued_def\<close>)
  moreover have "keeps st ?st1" by (simp add: keeps_same reconcile_start_def)
  ultimately show ?thesis
    using recover_keeps [OF reconcile_recover_ok [OF assms(1) fresh] inj]
    unfolding reconcile_unfold by (blast intro: keeps_trans)
qed


lemma keeps_commit:
  assumes "intent_at st iid = None" "commit_enqueue g le m iid now st = Some out"
  shows "keeps st (snd (snd out))"
proof (cases "snd (snd out) = st")
  case False
  then have "co_intents (snd (snd out)) = AList.update iid
      \<lparr>wi_id = iid, wi_generation = g, wi_slot = le_slot le, wi_role = le_role le,
       wi_source = le_source le, wi_priority = source_priority (le_source le), wi_message = m,
       wi_run = le_run le, wi_created = now, wi_state = Intent_Queued\<rparr> (co_intents st)"
    using assms(2) by (auto simp: commit_enqueue_def Let_def split: option.splits if_splits bind_splits)
  then show ?thesis by (rule keeps_insert [OF _ assms(1)])
qed (simp add: keeps_same)

lemma keeps_constraint:
  assumes sound: "sound g H st" and out: "set_runtime_constraint sid c st = Some out"
  shows "keeps st (snd (snd out))"
proof -
  let ?st1 = "on_slot sid (\<lambda>sl. sl\<lparr>sl_constraint := c\<rparr>) (ensure_slot sid Role_Teammate st)"
  have 1: "sound g H ?st1" by (intro sound_on_slot sound_ensure sound) simp_all
  let ?open = "if ends_work c then open_in ?st1 sid else []"
  have int: "intent_at (snd (snd out)) k = intent_at (fold (constrain_intent c) (map wi_id ?open) ?st1) k" for k
    using out by (auto simp: set_runtime_constraint_def Let_def open_in_def split: if_splits bind_splits)
  have dist: "distinct (map wi_id ?open)"
    using distinct_filtered_ids [OF 1] by (simp add: open_in_def)
  have "keeps ?st1 (snd (snd out))"
  proof (rule keeps_restate [where P = "\<lambda>k. k \<in> set (map wi_id ?open)" and sf = "constrained_state c"])
    show "intent_at (snd (snd out)) k = (if k \<in> set (map wi_id ?open)
        then map_option (\<lambda>i. i\<lparr>wi_state := constrained_state c i\<rparr>) (intent_at ?st1 k)
        else intent_at ?st1 k)" for k
      unfolding int by (rule intent_at_constrain_fold [OF dist])
    show "\<not> intent_is_terminal (wi_state i)"
      if "k \<in> set (map wi_id ?open)" "intent_at ?st1 k = Some i" for k i
    proof -
      have "k \<in> set (map wi_id (open_in ?st1 sid))"
        using that(1) by (cases "ends_work c") simp_all
      then show ?thesis using that(2) unfolding open_in_iff [OF 1] by auto
    qed
  qed
  then show ?thesis
    by (rule keeps_trans [rotated]) (simp add: keeps_same)
qed

lemma keeps_cancel_active:
  assumes "sound g H st" "slot_at st sid = Some sl" "sl_active sl = Some a"
  shows "keeps st (cancel_active rid (sid, a) st)"
proof (rule keeps_restate [where P = "\<lambda>k. k \<in> set (ba_intents (ac_batch a))"
      and sf = "\<lambda>i. if wi_run i = Some rid then run_cancelled else Intent_Queued"])
  show "intent_at (cancel_active rid (sid, a) st) k = (if k \<in> set (ba_intents (ac_batch a))
      then map_option (\<lambda>i. i\<lparr>wi_state := if wi_run i = Some rid then run_cancelled else Intent_Queued\<rparr>)
        (intent_at st k) else intent_at st k)" for k
    by (cases "intent_at st k") (auto simp: cancel_active_def Let_def run_of_def)
  show "\<not> intent_is_terminal (wi_state i)"
    if "k \<in> set (ba_intents (ac_batch a))" "intent_at st k = Some i" for k i
    using active_intents [OF soundD(5) [OF assms(1,2)] assms(3) that(1)] that(2) place_terminal
    by (metis option.distinct(1) option.inject)
qed

lemma keeps_cancel_actives:
  assumes "sound g H st" "distinct (map fst actives)"
    and "\<And>sid a. (sid, a) \<in> set actives \<Longrightarrow> \<exists>sl. slot_at st sid = Some sl \<and> sl_active sl = Some a"
  shows "keeps st (fold (cancel_active rid) actives st)"
  using assms
proof (induction actives arbitrary: st)
  case (Cons x actives)
  obtain sid a where x: "x = (sid, a)" by force
  with Cons.prems(3) obtain sl where sl: "slot_at st sid = Some sl" "sl_active sl = Some a"
    by force
  have "keeps (cancel_active rid (sid, a) st) (fold (cancel_active rid) actives (cancel_active rid (sid, a) st))"
  proof (rule Cons.IH)
    show "sound g H (cancel_active rid (sid, a) st)"
      by (rule sound_cancel_active [OF Cons.prems(1) sl])
    show "\<exists>sl. slot_at (cancel_active rid (sid, a) st) k = Some sl \<and> sl_active sl = Some c"
      if "(k, c) \<in> set actives" for k c
    proof -
      have "k \<noteq> sid" using Cons.prems(2) that x by force
      then show ?thesis using Cons.prems(3) [of k c] that by (simp add: cancel_active_other)
    qed
  qed (use Cons.prems(2) in simp)
  then show ?case
    using keeps_cancel_active [OF Cons.prems(1) sl] by (auto simp: x intro: keeps_trans)
qed (simp add: keeps_same)

lemma keeps_cancel_queued_fold:
  assumes "distinct (map wi_id is)"
    and "\<And>i. i \<in> set is \<Longrightarrow> intent_at st (wi_id i) = Some i \<and> wi_state i = Intent_Queued"
  shows "keeps st (fold cancel_queued is st)"
  using assms
proof (induction "is" arbitrary: st)
  case (Cons i "is")
  have "keeps st (cancel_queued i st)"
    by (rule keeps_set_states [where s = run_cancelled and ids = "[wi_id i]"])
      (use Cons.prems(2) [of i] in \<open>auto simp: cancel_queued_def\<close>)
  moreover have "intent_at (cancel_queued i st) (wi_id j) = Some j \<and> wi_state j = Intent_Queued"
    if "j \<in> set is" for j
  proof -
    have "wi_id i \<notin> wi_id ` set is" using Cons.prems(1) by simp
    then have "wi_id j \<noteq> wi_id i" using that by (metis imageI)
    then show ?thesis using Cons.prems(2) [of j] that by (simp add: cancel_queued_def)
  qed
  ultimately show ?case
    using Cons.IH [of "cancel_queued i st"] Cons.prems(1) by (auto intro: keeps_trans)
qed (simp add: keeps_same)

lemma keeps_cancel_run:
  assumes sound: "sound g H st" and out: "cancel_run rid st = Some out"
  shows "keeps st (snd (snd out))"
proof -
  have slots: "distinct (keys (co_slots st))"
    by (rule sorted_wrt_distinct [OF soundD(1) [OF sound]])
  let ?st1 = "fold (cancel_active rid) (run_active_slots st rid) st"
  let ?q = "filter (\<lambda>i. wi_run i = Some rid \<and> wi_state i = Intent_Queued) (intent_list ?st1)"
  have 1: "sound g H ?st1" by (rule cancel_actives_sound [OF sound])
  have "keeps st ?st1"
    using distinct_run_active_slots [OF slots] run_active_slots_iff [OF slots]
    by (intro keeps_cancel_actives [OF sound]) blast+
  moreover have "keeps ?st1 (fold cancel_queued ?q ?st1)"
    using distinct_filtered_ids [OF 1] intent_listed [OF 1] by (intro keeps_cancel_queued_fold) auto
  moreover have "keeps (fold cancel_queued ?q ?st1) (snd (snd out))"
    using out by (auto simp: cancel_run_def Let_def intro!: keeps_same split: if_splits)
  ultimately show ?thesis by (blast intro: keeps_trans)
qed

lemma keeps_remove:
  assumes sound: "sound g H st" and out: "remove_slot sid st = Some out"
  shows "keeps st (snd (snd out))"
  by (rule keeps_set_states [where s = "Intent_Cancelled ''slot_removed''" and ids = "removal_order st sid"])
    (use out removal_ids [OF sound, of _ sid] in \<open>auto simp: remove_slot_def Let_def split: if_splits\<close>)

lemma keeps_stop: "keeps st (snd (snd (stop_coordinator st)))"
  unfolding keeps_def
proof (intro allI impI)
  fix iid i assume "intent_at st iid = Some i"
  then show "\<exists>s. intent_at (snd (snd (stop_coordinator st))) iid = Some (i\<lparr>wi_state := s\<rparr>) \<and>
      (intent_is_terminal (wi_state i) \<longrightarrow> s = wi_state i)"
    by (cases "intent_is_terminal (wi_state i)")
      (auto simp: stop_coordinator_def Let_def map_of_map_values intro: exI [of _ "wi_state i"])
qed

lemma keeps_frame:
  "keeps st (fst (snd (acquire_enqueue port g rq lid (st, p))))"
  "keeps st (snd (snd (abort_enqueue g le st)))"
  "keeps st (snd (observe_messages sid e ms st))"
  "keeps st (snd (take_interrupt_metadata bid st))"
  "keeps st (snd (snd (begin_runtime_restart_inner sid q st)))"
  "keeps st (snd (abort_runtime_restart sid gate st))"
  "keeps st (snd (request_mcp_refresh sid f st))" "keeps st (defer_mcp_refresh sid f st)"
  "keeps st (snd (claim_pending_mcp_refresh sid st))" "keeps st (complete_mcp_refresh sid f st)"
  "keeps st (release_mcp_refresh sid f st)" "keeps st (settle_mcp_refresh_claim sid f st)"
  by (auto intro!: keeps_same simp: acquire_enqueue_def abort_enqueue_def observe_messages_def
      take_interrupt_metadata_def begin_runtime_restart_inner_def abort_runtime_restart_def
      request_mcp_refresh_def defer_mcp_refresh_def claim_pending_mcp_refresh_def
      complete_mcp_refresh_def release_mcp_refresh_def settle_mcp_refresh_claim_def Let_def
      case_prod_beta split: option.split runtime_constraint.split)

lemma keeps_pause: "pause_slot sid st = Some out \<Longrightarrow> keeps st (snd (snd out))"
  by (auto intro!: keeps_same simp: pause_slot_def Let_def split: bind_splits)

lemma keeps_handle_exec:
  assumes "sound g H st" "handle_call_ok H st c" "exec_call port g c (st, p) = Some (st', p')"
  shows "keeps st st'"
proof (cases c)
  case (Call_CommitEnqueue le m iid now)
  then show ?thesis
    using assms keeps_commit [of st iid g le m now] by (auto simp: handle_call_ok_def finish_call_iff)
next
  case (Call_Reconcile sid unread role cands mk now)
  then show ?thesis
    using assms keeps_reconcile [of g H st unread mk sid role cands now] by (auto simp: handle_call_ok_def)
next
  case (Call_AcquireEnqueue rq lid)
  then show ?thesis using assms(3) keeps_frame(1) [of st port g rq lid p]
    by (cases "acquire_enqueue port g rq lid (st, p)") simp
qed (use assms in \<open>auto simp: handle_call_ok_def finish_call_iff keeps_frame keeps_claim keeps_mark_started
      keeps_retry_start keeps_complete keeps_terminalize fail_batch_def cancel_batch_def Let_def
      case_prod_beta keeps_interrupt keeps_discard keeps_signals keeps_stop
      begin_runtime_restart_def begin_mcp_runtime_restart_def
      dest: keeps_pause keeps_constraint keeps_cancel_run keeps_remove\<close>)

lemma keeps_exec:
  assumes "sound g H st" "call_ok H st c" "exec_call port g c (st, p) = Some (st', p')"
  shows "keeps st st'"
  using keeps_handle_exec [OF assms(1) assms(2) [unfolded call_ok_def], of port p st' p'] assms(3)
  by (simp add: exec_bare)

text \<open>Histories only move forward: no call forgets an intent or changes what it is about (its
  slot, source, priority, message, run and age), and a finished intent keeps its final state for
  ever: it is never revived, re-failed or re-cancelled.\<close>
theorem intents_never_revived:
  assumes "work_reach port g p0 H st p" and "call_ok H st c"
    and "exec_call port g c (st, p) = Some (st', p')" and "intent_at st iid = Some i"
  shows "\<exists>s. intent_at st' iid = Some (i\<lparr>wi_state := s\<rparr>) \<and>
    (intent_is_terminal (wi_state i) \<longrightarrow> s = wi_state i)"
  using keeps_exec [OF reach_sound [OF assms(1)] assms(2,3)] assms(4) unfolding keeps_def by blast


definition demo_batch :: work_batch where
  "demo_batch = \<lparr>ba_id = ''b'', ba_generation = ''g'', ba_slot = ''a'', ba_intents = [''im''],
     ba_messages = [''m''], ba_observed = [], ba_priority = Priority_Foreground, ba_runs = [],
     ba_operation = 1, ba_is_command = False\<rparr>"

definition demo_claimed :: "work_call list" where
  "demo_claimed = demo_enqueue Source_UserMessage ''m''
     @ [Call_SetConstraint ''a'' Constraint_Ready, Call_Next ''a'' ''b'']"

definition demo_done :: "work_call list" where
  "demo_done = demo_claimed @ [Call_Complete demo_batch]"

lemma intents_never_revived_witness:
  "\<exists>st' p'. exec_call quiet_port ''g'' (Call_RemoveSlot ''a'') (demo_state demo_done, ()) = Some (st', p')
     \<and> map_option wi_state (intent_at st' ''im'') = Some Intent_Completed"
proof -
  let ?c = "Call_RemoveSlot ''a''"
  have "exec_call quiet_port ''g'' ?c (demo_state demo_done, ()) \<noteq> None" by code_simp
  then obtain st' p' where exec: "exec_call quiet_port ''g'' ?c (demo_state demo_done, ()) = Some (st', p')"
    by (metis not_None_eq prod.collapse)
  have "map_option wi_state (intent_at (demo_state demo_done) ''im'') = Some Intent_Completed" by code_simp
  then obtain i where i: "intent_at (demo_state demo_done) ''im'' = Some i" "wi_state i = Intent_Completed"
    by auto
  have "call_ok (demo_handles demo_done) (demo_state demo_done) ?c" by (simp add: call_ok_defs)
  from intents_never_revived [OF demo_reach this exec i(1)] exec i(2) show ?thesis by auto
qed

lemma open_intents_held_once_witness:
  "all_held (demo_state demo_claimed) = [''im'']
   \<and> (\<exists>i. intent_at (demo_state demo_claimed) ''im'' = Some i \<and> \<not> intent_is_terminal (wi_state i))"
proof -
  have "all_held (demo_state demo_claimed) = [''im'']" by code_simp
  moreover from this have "''im'' \<in> set (all_held (demo_state demo_claimed))" by simp
  ultimately show ?thesis
    unfolding open_intents_held_once [OF demo_reach, THEN conjunct2, THEN conjunct1] by blast
qed

lemma coordinator_never_panics_witness:
  "exec_call quiet_port ''g'' (Call_RemoveSlot ''a'') (demo_state demo_claimed, ()) \<noteq> None"
proof (rule coordinator_never_panics [OF demo_reach])
  show "call_ok (demo_handles demo_claimed) (demo_state demo_claimed) (Call_RemoveSlot ''a'')"
    by (simp add: call_ok_defs)
qed

end
