(* ===== verification/Work_Laws.thy ===== *)
theory Work_Laws
  imports Work_History
begin

text \<open>
  What the coordinator's operations promise one by one: when a slot's work is claimed and which
  intents a claim takes, that a settled batch stays settled, how completion, failed deliveries,
  reconciliation, cancellation, removal and the session's end dispose of intents, and that the
  summary of a run counts its open work.
\<close>

section \<open>Claims\<close>

definition first_lane :: "slot_state \<Rightarrow> work_priority option" where
  "first_lane sl = find (\<lambda>p. slot_queue sl p \<noteq> []) claim_order"

definition claimable :: "coordinator_state \<Rightarrow> string \<Rightarrow> bool" where
  "claimable st sid = (case slot_at st sid of
      None \<Rightarrow> False
    | Some sl \<Rightarrow> sl_active sl = None \<and> sl_constraint sl = Constraint_Ready \<and> \<not> sl_paused sl
        \<and> (case first_lane sl of None \<Rightarrow> False | Some p \<Rightarrow> \<exists>iid \<in> set (slot_queue sl p). has_message st iid))"

lemma claim_decision: "\<exists>b. fst (claim_batch g sid bid p fifo st) = Decision_Claim b"
  by (simp add: claim_batch_def Let_def case_prod_beta)

text \<open>C18: A slot's work is claimed exactly when it may be: \<open>next\<close> claims a batch if and only if the
  slot has no active batch, its runtime is ready, it is not paused, and its first non-empty lane (in
  the order foreground, control, directed, background) holds a message. When it does not claim, it
  changes nothing.\<close>
theorem claim_exactly_when_claimable:
  "(\<exists>b. fst (next_batch g sid bid st) = Decision_Claim b) = claimable st sid
   \<and> (claimable st sid \<or> snd (next_batch g sid bid st) = ([], st))"
proof (cases "slot_at st sid")
  case (Some sl)
  show ?thesis
  proof (cases "first_lane sl")
    case None
    with Some show ?thesis by (simp add: next_batch_def claimable_def flip: first_lane_def)
  next
    case (Some p)
    then show ?thesis
      using \<open>slot_at st sid = Some sl\<close> claim_decision [of g sid bid p "filter (has_message st) (slot_queue sl p)" st]
      by (auto simp: next_batch_def claimable_def filter_empty_conv simp flip: first_lane_def)
  qed
qed (simp add: next_batch_def claimable_def)

lemma claim_exactly_when_claimable_witness:
  "claimable (demo_state (demo_enqueue Source_UserMessage ''m''
     @ [Call_SetConstraint ''a'' Constraint_Ready])) ''a''
   \<and> \<not> claimable (demo_state (demo_enqueue Source_UserMessage ''m'')) ''a''
   \<and> snd (next_batch ''g'' ''a'' ''b'' (demo_state (demo_enqueue Source_UserMessage ''m'')))
       = ([], demo_state (demo_enqueue Source_UserMessage ''m''))"
proof -
  have "\<not> claimable (demo_state (demo_enqueue Source_UserMessage ''m'')) ''a''" by code_simp
  moreover have "claimable (demo_state (demo_enqueue Source_UserMessage ''m''
     @ [Call_SetConstraint ''a'' Constraint_Ready])) ''a''" by code_simp
  ultimately show ?thesis
    using claim_exactly_when_claimable
      [of "''g''" "''a''" "''b''" "demo_state (demo_enqueue Source_UserMessage ''m'')"] by blast
qed

text \<open>The lanes a claim passes over are empty.\<close>

lemma first_lane_order:
  assumes "first_lane sl = Some p"
  shows "slot_queue sl p \<noteq> []" "\<exists>before after. claim_order = before @ p # after
    \<and> (\<forall>q \<in> set before. slot_queue sl q = [])"
proof -
  from assms obtain i where i: "i < length claim_order" "slot_queue sl (claim_order ! i) \<noteq> []"
    "p = claim_order ! i" "\<forall>j < i. slot_queue sl (claim_order ! j) = []"
    unfolding first_lane_def find_Some_iff by auto
  then show "slot_queue sl p \<noteq> []" by simp
  show "\<exists>before after. claim_order = before @ p # after \<and> (\<forall>q \<in> set before. slot_queue sl q = [])"
    using i id_take_nth_drop [OF i(1)]
    by (intro exI [of _ "take i claim_order"] exI [of _ "drop (Suc i) claim_order"])
      (auto simp: in_set_conv_nth)
qed

lemma select_batch_barrier:
  assumes "iid \<in> set (fst (select_batch st fifo))" "barrier_id st iid"
  shows "fst (select_batch st fifo) = [iid]"
  using assms by (auto simp: select_batch_def split: list.splits if_splits dest: set_takeWhileD)

lemma claim_fields:
  assumes "fst (claim_batch g sid bid p fifo st) = Decision_Claim b"
  shows "ba_intents b = fst (select_batch st fifo)" "ba_priority b = p" "ba_slot b = sid"
    "ba_id b = bid" "ba_generation b = g"
    "ba_messages b = filter_map (message_of st) (ba_intents b)"
    "ba_is_command b = snd (select_batch st fifo)"
    "ba_operation b = sat_inc (co_next_operation st)"
  using assms by (auto simp: claim_batch_def Let_def case_prod_beta message_of_alt)

text \<open>A claim takes the head of the right lane. The batch consists of the longest run of the
  lane's message intents, in their order, up to a user command or a lead's intervention, and such an
  intent is always claimed alone; every lane of a higher class is empty; and afterwards the slot
  runs exactly this batch, its intents are starting and out of every lane.\<close>
theorem claim_takes_lane_prefix:
  assumes reach: "work_reach port g p0 H st p"
    and claim: "next_batch g sid bid st = (Decision_Claim b, calls, st')"
  shows "\<exists>sl rest before after. slot_at st sid = Some sl
      \<and> filter (has_message st) (slot_queue sl (ba_priority b)) = ba_intents b @ rest \<and> ba_intents b \<noteq> []
      \<and> claim_order = before @ ba_priority b # after \<and> (\<forall>q \<in> set before. slot_queue sl q = [])
      \<and> length (ba_messages b) = length (ba_intents b)
      \<and> (\<forall>iid \<in> set (ba_intents b). (barrier_id st iid \<longrightarrow> ba_intents b = [iid])
           \<and> map_option wi_state (intent_at st' iid) = Some (Intent_Starting bid (ba_operation b)))
      \<and> map_option (\<lambda>sl. (sl_active sl, set (queued_ids sl))) (slot_at st' sid) =
          Some (Some \<lparr>ac_batch = b, ac_turn = None, ac_started = None\<rparr>,
                set (queued_ids sl) - set (ba_intents b))"
proof -
  note sound = reach_sound [OF reach]
  have "claimable st sid"
    using claim_exactly_when_claimable [of g sid bid st] claim by auto
  then obtain sl q where sl: "slot_at st sid = Some sl" "sl_active sl = None"
      "sl_constraint sl = Constraint_Ready" "\<not> sl_paused sl" "first_lane sl = Some q"
    and some: "\<exists>iid \<in> set (slot_queue sl q). has_message st iid"
    by (auto simp: claimable_def split: option.splits)
  define fifo where "fifo = filter (has_message st) (slot_queue sl q)"
  have fifo: "fifo \<noteq> []" using some by (auto simp: fifo_def filter_empty_conv)
  have out: "claim_batch g sid bid q fifo st = (Decision_Claim b, calls, st')"
    using claim sl fifo by (simp add: next_batch_def fifo_def flip: first_lane_def)
  note b = claim_fields [of g sid bid q fifo st b, unfolded out, simplified]
  obtain rest where rest: "fifo = ba_intents b @ rest" using select_batch_prefix b(1) by metis
  have mem: "set (ba_intents b) \<subseteq> set fifo" using rest by auto
  have msgs: "length (filter_map (message_of st) xs) = length xs" if "set xs \<subseteq> set fifo" for xs
    using that by (induction xs) (auto simp: fifo_def message_of_def has_message_def split: option.splits)
  have st': "st' = on_slot sid (\<lambda>sl. (fold remove_queued (ba_intents b) sl)
      \<lparr>sl_active := Some \<lparr>ac_batch = b, ac_turn = None, ac_started = None\<rparr>\<rparr>)
      (set_states (Intent_Starting bid (ba_operation b)) (ba_intents b)
        (st\<lparr>co_next_operation := ba_operation b\<rparr>))"
    using out b by (auto simp: claim_batch_def Let_def case_prod_beta)
  obtain before after where lanes: "claim_order = before @ q # after" "\<forall>r \<in> set before. slot_queue sl r = []"
    using first_lane_order(2) [OF sl(5)] by blast
  have queued: "set (queued_ids (fold remove_queued (ba_intents b) sl)) = set (queued_ids sl) - set (ba_intents b)"
    by (auto simp: set_queued_ids slot_queue_remove_all)
  show ?thesis
  proof (intro exI conjI ballI)
    show "slot_at st sid = Some sl" by (rule sl)
    show "filter (has_message st) (slot_queue sl (ba_priority b)) = ba_intents b @ rest"
      using rest b by (simp add: fifo_def)
    show "ba_intents b \<noteq> []" using select_batch_nonempty [OF fifo] b(1) by simp
    show "claim_order = before @ ba_priority b # after" using lanes b by simp
    show "slot_queue sl r = []" if "r \<in> set before" for r using lanes that by blast
    show "length (ba_messages b) = length (ba_intents b)" using msgs [OF mem] b(6) by simp
    fix iid assume iid: "iid \<in> set (ba_intents b)"
    show "barrier_id st iid \<longrightarrow> ba_intents b = [iid]" using select_batch_barrier iid b(1) by metis
    have "has_message st iid" using iid mem by (auto simp: fifo_def)
    then show "map_option wi_state (intent_at st' iid) = Some (Intent_Starting bid (ba_operation b))"
      using iid by (auto simp: st' has_message_def split: option.splits)
  next
    show "map_option (\<lambda>sl. (sl_active sl, set (queued_ids sl))) (slot_at st' sid) =
        Some (Some \<lparr>ac_batch = b, ac_turn = None, ac_started = None\<rparr>,
              set (queued_ids sl) - set (ba_intents b))"
      using sl queued by (simp add: st' queued_ids_def)
  qed
qed

definition demo_queue :: "work_call list" where
  "demo_queue = demo_enqueue Source_UserMessage ''m'' @ demo_enqueue Source_UserMessage ''n''
     @ demo_enqueue Source_UserCommand ''c'' @ demo_enqueue Source_McpSendMessage ''d''
     @ [Call_SetConstraint ''a'' Constraint_Ready]"

definition demo_batch_of :: "work_call list \<Rightarrow> work_batch" where
  "demo_batch_of cs = (case fst (next_batch ''g'' ''a'' ''b'' (demo_state cs)) of
     Decision_Claim b \<Rightarrow> b | _ \<Rightarrow> demo_batch)"

section \<open>Settled batches\<close>

lemma current_iff:
  "is_current_batch g st b \<longleftrightarrow> ba_generation b = g \<and> (\<exists>sl a. slot_at st (ba_slot b) = Some sl
     \<and> sl_active sl = Some a \<and> ba_id (ac_batch a) = ba_id b
     \<and> ba_operation (ac_batch a) = ba_operation b \<and> ba_generation (ac_batch a) = ba_generation b)"
  by (auto simp: is_current_batch_def split: option.splits bind_splits)

text \<open>Where the active batch of a slot after a call comes from.\<close>

definition same_active :: "slot_state option \<Rightarrow> slot_state option \<Rightarrow> bool" where
  "same_active x x' \<longleftrightarrow> (\<forall>sl' a'. x' = Some sl' \<longrightarrow> sl_active sl' = Some a' \<longrightarrow>
     (\<exists>sl a. x = Some sl \<and> sl_active sl = Some a \<and> handle_of (ac_batch a) (ac_batch a')))"

lemma handle_refl [simp]: "handle_of b b"
  by (simp add: handle_of_def)

lemma handle_trans: "handle_of a b \<Longrightarrow> handle_of b c \<Longrightarrow> handle_of a c"
  unfolding handle_of_def by (metis work_batch.surjective work_batch.update_convs(6))

lemma same_active_refl [simp]: "same_active x x"
  by (auto simp: same_active_def)

lemma same_active_trans:
  assumes "same_active x y" "same_active y z"
  shows "same_active x z"
  unfolding same_active_def
proof (intro allI impI)
  fix sl' a' assume "z = Some sl'" "sl_active sl' = Some a'"
  with assms(2) obtain sl a where y: "y = Some sl" "sl_active sl = Some a"
    and h: "handle_of (ac_batch a) (ac_batch a')"
    unfolding same_active_def by blast
  from assms(1) y obtain sl0 a0 where "x = Some sl0" "sl_active sl0 = Some a0"
    and h0: "handle_of (ac_batch a0) (ac_batch a)"
    unfolding same_active_def by blast
  with handle_trans [OF h0 h]
  show "\<exists>sl a. x = Some sl \<and> sl_active sl = Some a \<and> handle_of (ac_batch a) (ac_batch a')" by blast
qed

lemma same_active_map:
  "(\<And>sl. sl_active (f sl) = sl_active sl \<or> sl_active (f sl) = None) \<Longrightarrow> same_active x (map_option f x)"
proof -
  assume f: "\<And>sl. sl_active (f sl) = sl_active sl \<or> sl_active (f sl) = None"
  show ?thesis
  proof (cases x)
    case (Some sl)
    then show ?thesis using f [of sl] by (cases "sl_active (f sl)") (auto simp: same_active_def)
  qed simp
qed

definition same_actives :: "coordinator_state \<Rightarrow> coordinator_state \<Rightarrow> bool" where
  "same_actives st st' \<longleftrightarrow> (\<forall>sid. same_active (slot_at st sid) (slot_at st' sid))"

lemma same_actives_trans: "same_actives a b \<Longrightarrow> same_actives b c \<Longrightarrow> same_actives a c"
  unfolding same_actives_def by (meson same_active_trans)

lemma same_actives_slots: "co_slots st' = co_slots st \<Longrightarrow> same_actives st st'"
  by (simp add: same_actives_def)

lemma same_actives_on_slot:
  "(\<And>sl. sl_active (f sl) = sl_active sl \<or> sl_active (f sl) = None) \<Longrightarrow> same_actives st (on_slot sid f st)"
  by (simp add: same_actives_def same_active_map)

lemma same_actives_ensure [simp]: "same_actives st (ensure_slot sid role st)"
  by (auto simp: same_actives_def same_active_def split: option.splits)

lemma same_actives_ensured:
  "(\<And>sl. sl_active (f sl) = sl_active sl \<or> sl_active (f sl) = None)
     \<Longrightarrow> same_actives st (on_slot sid f (ensure_slot sid role st))"
  using same_actives_trans [OF same_actives_ensure same_actives_on_slot] .

lemma same_actives_via: "co_slots st1 = co_slots st
    \<Longrightarrow> (\<And>sl. sl_active (f sl) = sl_active sl \<or> sl_active (f sl) = None) \<Longrightarrow> same_actives st (on_slot sid f st1)"
  using same_actives_trans [OF same_actives_slots same_actives_on_slot] .

lemma active_requeue_front [simp]: "sl_active (requeue_front st ids sl) = sl_active sl"
  unfolding requeue_front_def
proof (induction ids arbitrary: sl rule: rev_induct)
  case (snoc iid ids)
  then show ?case by (simp split: option.split)
qed simp

lemma active_push_back_fold [simp]: "sl_active (fold push_back is sl) = sl_active sl"
  by (induction "is" arbitrary: sl) (simp_all add: push_back_def)

lemma same_actives_mark_started: "same_actives st (snd (snd (mark_started g b t now st)))"
  by (auto simp: mark_started_def Let_def same_actives_def same_active_def handle_of_def)

lemma same_actives_batch_ops:
  "same_actives st (snd (snd (retry_start g b st)))"
  "same_actives st (snd (snd (complete_batch_with_ack g b st)))"
  "same_actives st (snd (snd (terminalize_batch g b s d st)))"
  by (auto simp: retry_start_def complete_batch_with_ack_def terminalize_batch_def
      Let_def case_prod_beta same_actives_slots intro!: same_actives_via split: option.split)

lemma same_actives_interrupt: "same_actives st (snd (snd (interrupt_batch g b r m st)))"
proof (cases "is_current_batch g st b")
  case True
  let ?f = "\<lambda>sl. sl\<lparr>sl_active := None, sl_failures := fold AList.delete (ba_messages b) (sl_failures sl)\<rparr>"
  have "same_actives st (on_slot (ba_slot b) ?f (set_states (Intent_Cancelled ''lead_interrupted'') (ba_intents b) st))"
    by (rule same_actives_via) simp_all
  with True show ?thesis by (simp add: interrupt_batch_def Let_def same_actives_def)
qed (simp add: interrupt_batch_def same_actives_slots)

lemma same_actives_observe: "same_actives st (snd (observe_messages sid bid ms st))"
  by (auto simp: observe_messages_def Let_def same_actives_def same_active_def handle_of_def
      split: option.splits)

lemma same_actives_discard: "same_actives st (snd (snd (discard_queued_except sid m st)))"
  "same_actives st (snd (snd (complete_signals sid iids st)))"
  by (auto simp: discard_queued_except_def complete_signals_def Let_def same_actives_slots
      intro!: same_actives_via)

lemma same_actives_acquire: "same_actives st (fst (snd (acquire_enqueue port g rq lid (st, p))))"
proof -
  let ?st1 = "on_slot (rq_slot rq) (\<lambda>sl. sl\<lparr>sl_role := rq_role rq\<rparr>) (ensure_slot (rq_slot rq) (rq_role rq) st)"
  have "same_actives st ?st1" by (rule same_actives_ensured) simp
  then show ?thesis
    by (auto simp: acquire_enqueue_def Let_def case_prod_beta same_actives_def split: option.split)
qed

lemma same_actives_commit:
  "commit_enqueue g le m iid now st = Some out \<Longrightarrow> same_actives st (snd (snd out))"
  by (auto simp: commit_enqueue_def Let_def same_actives_slots intro!: same_actives_via
      split: option.splits if_splits bind_splits)

lemma same_actives_recover:
  "same_actives (fst acc) (fst (recover_message g sid role mk now m acc))"
  by (auto simp: recover_message_def case_prod_beta same_actives_slots intro!: same_actives_via)

lemma same_actives_recover_fold:
  "same_actives (fst acc) (fst (fold (recover_message g sid role mk now) ms acc))"
proof (induction ms arbitrary: acc)
  case (Cons m ms)
  have "same_actives (fst acc) (fst (recover_message g sid role mk now m acc))"
    by (rule same_actives_recover)
  then show ?case using same_actives_trans Cons [of "recover_message g sid role mk now m acc"]
    by simp
qed (simp add: same_actives_def)

lemma same_actives_reconcile:
  "same_actives st (snd (reconcile_mailbox_snapshot g sid unread role cands mk now st))"
proof -
  have "same_actives st (reconcile_start sid unread role st)"
    unfolding reconcile_start_def by (rule same_actives_ensured) simp
  moreover have "same_actives st1 (reconcile_cleared sid unread cands st1)" for st1
    unfolding reconcile_cleared_def Let_def by (rule same_actives_via) simp_all
  ultimately show ?thesis
    using same_actives_recover_fold
        [of "(reconcile_cleared sid unread cands (reconcile_start sid unread role st), [])"
          g sid role mk now unread]
    unfolding reconcile_unfold fst_conv by (blast intro: same_actives_trans)
qed

lemma same_actives_pause: "pause_slot sid st = Some out \<Longrightarrow> same_actives st (snd (snd out))"
  by (auto simp: pause_slot_def Let_def intro!: same_actives_ensured split: bind_splits)

lemma same_actives_constraint:
  assumes "set_runtime_constraint sid c st = Some out"
  shows "same_actives st (snd (snd out))"
proof -
  let ?st1 = "on_slot sid (\<lambda>sl. sl\<lparr>sl_constraint := c\<rparr>) (ensure_slot sid Role_Teammate st)"
  have 1: "same_actives st ?st1" by (rule same_actives_ensured) simp
  have 2: "same_actives ?st1 (fold (constrain_intent c) ids ?st1)" for ids
    by (rule same_actives_slots) simp
  have "same_actives (fold (constrain_intent c) ids ?st1)
      (on_slot sid (\<lambda>sl. fold push_back qs (clear_work sl)) (fold (constrain_intent c) ids ?st1))" for ids qs
    by (rule same_actives_on_slot) simp
  note 3 = same_actives_trans [OF same_actives_trans [OF 1 2] this]
  show ?thesis
    using assms 1 3
    by (auto simp: set_runtime_constraint_def Let_def split: if_splits bind_splits)
qed

lemma same_actives_remove: "remove_slot sid st = Some out \<Longrightarrow> same_actives st (snd (snd out))"
  by (auto simp: remove_slot_def Let_def intro!: same_actives_via split: if_splits)

lemma same_actives_stop: "same_actives st (snd (snd (stop_coordinator st)))"
  by (simp add: stop_coordinator_def Let_def same_actives_def same_active_map map_of_map_values)

lemma same_actives_cancel_active: "same_actives st (cancel_active rid sa st)"
  by (auto simp: cancel_active_def Let_def case_prod_beta intro!: same_actives_via)

lemma same_actives_cancel_queued: "same_actives st (cancel_queued i st)"
  unfolding cancel_queued_def by (rule same_actives_via) simp_all

lemma same_actives_fold: "(\<And>x st. same_actives st (f x st)) \<Longrightarrow> same_actives st (fold f xs st)"
proof (induction xs arbitrary: st)
  case (Cons x xs)
  then show ?case using same_actives_trans [of st "f x st"] by simp
qed (simp add: same_actives_def)

lemma same_actives_cancel_run:
  assumes "cancel_run rid st = Some out"
  shows "same_actives st (snd (snd out))"
proof -
  have "same_actives st (fold cancel_queued qs (fold (cancel_active rid) as st))" for qs as
    using same_actives_trans same_actives_fold same_actives_cancel_active same_actives_cancel_queued
    by metis
  then show ?thesis
    using assms by (auto simp: cancel_run_def Let_def same_actives_def split: if_splits)
qed

lemma same_actives_restart:
  "same_actives st (snd (snd (begin_runtime_restart_inner sid q st)))"
  "same_actives st (snd (abort_runtime_restart sid gate st))"
proof -
  define st0 where "st0 = ensure_slot sid Role_Teammate st"
  have start: "same_actives st0 (on_slot sid (\<lambda>sl. sl\<lparr>sl_constraint := c\<rparr>) (st0\<lparr>co_next_operation := n\<rparr>))" for c n
    by (rule same_actives_via) simp_all
  have "same_actives st0 (snd (snd (begin_runtime_restart_inner sid q st)))"
    by (auto simp: begin_runtime_restart_inner_def Let_def same_actives_slots start simp flip: st0_def
        split: option.split runtime_constraint.split)
  then show "same_actives st (snd (snd (begin_runtime_restart_inner sid q st)))"
    using same_actives_trans same_actives_ensure unfolding st0_def by blast
  show "same_actives st (snd (abort_runtime_restart sid gate st))"
    by (auto simp: abort_runtime_restart_def Let_def same_actives_slots intro!: same_actives_on_slot
        split: option.split)
qed

lemma same_actives_mcp:
  "same_actives st (snd (request_mcp_refresh sid f st))" "same_actives st (defer_mcp_refresh sid f st)"
  "same_actives st (snd (claim_pending_mcp_refresh sid st))" "same_actives st (complete_mcp_refresh sid f st)"
  "same_actives st (release_mcp_refresh sid f st)" "same_actives st (settle_mcp_refresh_claim sid f st)"
proof -
  show "same_actives st (snd (request_mcp_refresh sid f st))"
    by (auto simp: request_mcp_refresh_def Let_def split: option.split intro!: same_actives_ensured)
  show "same_actives st (defer_mcp_refresh sid f st)"
    unfolding defer_mcp_refresh_def by (rule same_actives_ensured) simp
  show "same_actives st (snd (claim_pending_mcp_refresh sid st))"
    by (auto simp: claim_pending_mcp_refresh_def same_actives_slots split: option.split
        intro!: same_actives_on_slot)
  show "same_actives st (complete_mcp_refresh sid f st)"
    unfolding complete_mcp_refresh_def by (rule same_actives_on_slot) (simp add: clear_pending_def)
  show "same_actives st (release_mcp_refresh sid f st)"
    unfolding release_mcp_refresh_def by (rule same_actives_on_slot) simp
  show "same_actives st (settle_mcp_refresh_claim sid f st)"
    unfolding settle_mcp_refresh_claim_def by (rule same_actives_on_slot) simp
qed

lemmas same_actives_ops = same_actives_mark_started same_actives_batch_ops same_actives_interrupt
  same_actives_observe same_actives_discard same_actives_reconcile same_actives_stop
  same_actives_restart same_actives_mcp

lemma same_actives_exec:
  assumes "exec_call port g c (st, p) = Some (st', p')" "\<And>sid bid. c \<noteq> Call_Next sid bid"
  shows "same_actives st st'"
proof (cases c)
  case (Call_AcquireEnqueue rq lid)
  then show ?thesis using assms(1) same_actives_acquire [of st port g rq lid p] by simp
next
  case (Call_AbortEnqueue le)
  have "co_slots (snd (snd (abort_enqueue g le st))) = co_slots st"
    by (simp add: abort_enqueue_def Let_def split: option.split)
  then show ?thesis using Call_AbortEnqueue assms(1) by (simp add: finish_call_iff same_actives_slots)
qed (use assms in \<open>auto simp: finish_call_iff same_actives_ops begin_runtime_restart_def
      begin_mcp_runtime_restart_def fail_batch_def cancel_batch_def case_prod_beta Let_def
      take_interrupt_metadata_def same_actives_slots
      dest: same_actives_commit same_actives_pause same_actives_constraint same_actives_remove
        same_actives_cancel_run\<close>)

lemma handle_ids:
  assumes "handle_of a b"
  shows "ba_id b = ba_id a" "ba_operation b = ba_operation a" "ba_generation b = ba_generation a"
  using assms unfolding handle_of_def by (metis work_batch.select_convs work_batch.surjective work_batch.update_convs(6))+

text \<open>No call but the one that issues the batch makes it current.\<close>

lemma exec_current:
  assumes sound: "sound g H st" and ok: "call_ok H st c"
    and exec: "exec_call port g c (st, p) = Some (st', p')"
    and b: "b \<in> H" "\<not> is_current_batch g st b"
  shows "\<not> is_current_batch g st' b"
proof
  assume "is_current_batch g st' b"
  then obtain sl' a' where new: "ba_generation b = g" "slot_at st' (ba_slot b) = Some sl'"
    "sl_active sl' = Some a'" "ba_id (ac_batch a') = ba_id b"
    "ba_operation (ac_batch a') = ba_operation b" "ba_generation (ac_batch a') = ba_generation b"
    unfolding current_iff by blast
  have same: "is_current_batch g st b" if old: "same_active (slot_at st (ba_slot b)) (slot_at st' (ba_slot b))"
  proof -
    from old new(2,3) obtain sl a where "slot_at st (ba_slot b) = Some sl" "sl_active sl = Some a"
      "handle_of (ac_batch a) (ac_batch a')"
      unfolding same_active_def by blast
    with new show ?thesis unfolding current_iff by (auto simp: handle_ids)
  qed
  show False
  proof (cases "\<exists>sid bid. c = Call_Next sid bid")
    case False
    then have "same_actives st st'" using same_actives_exec [OF exec] by blast
    with same b(2) show False by (simp add: same_actives_def)
  next
    case True
    then obtain sid bid where c: "c = Call_Next sid bid" by blast
    then have fresh: "bid \<noteq> ba_id b" using ok b(1) by (auto simp: call_ok_defs)
    have st': "st' = snd (snd (next_batch g sid bid st))" using exec c by (simp add: finish_call_iff)
    from next_batch_shape [of g sid bid st] show False
    proof (elim disjE exE conjE)
      assume "snd (snd (next_batch g sid bid st)) = st"
      with same b(2) st' show False by simp
    next
      fix sl q
      assume "next_batch g sid bid st = claim_batch g sid bid q (filter (has_message st) (slot_queue sl q)) st"
      then have slots: "slot_at st' k = slot_at st k \<or>
          (\<forall>sl a. slot_at st' k = Some sl \<longrightarrow> sl_active sl = Some a \<longrightarrow> ba_id (ac_batch a) = bid)" for k
        by (auto simp: st' claim_batch_def Let_def case_prod_beta)
      with new(2-4) fresh have "slot_at st' (ba_slot b) = slot_at st (ba_slot b)" by metis
      with same b(2) show False by simp
    qed
  qed
qed

lemma settled_calls:
  assumes "work_reach port g p0 H st p" "b \<in> H" "\<not> is_current_batch g st b"
    and "run_calls port g cs (H, st, p) = Some (H', st', p')"
  shows "work_reach port g p0 H' st' p' \<and> b \<in> H' \<and> \<not> is_current_batch g st' b"
  using assms
proof (induction cs arbitrary: H st p)
  case (Cons c cs)
  from Cons.prems(4) obtain st1 p1 where step: "call_ok H st c" "exec_call port g c (st, p) = Some (st1, p1)"
    and rest: "run_calls port g cs (H \<union> issued g st c, st1, p1) = Some (H', st', p')"
    by (auto split: if_splits option.splits)
  show ?case
    using Cons.IH [OF reach_call [OF Cons.prems(1) step] _ _ rest] Cons.prems(2)
      exec_current [OF reach_sound [OF Cons.prems(1)] step Cons.prems(2,3)] by blast
qed simp

text \<open>The operations on a batch that is not current answer \<open>StaleOwner\<close> and touch nothing.\<close>

lemma stale_ops:
  assumes "\<not> is_current_batch g st b"
  shows "mark_started g b t now st =
      (if is_batch_cancelled st b then Start_CancelImmediately else Start_StaleOwner, [], st)"
    "retry_start g b st = (Commit_StaleOwner, [], st)"
    "complete_batch_with_ack g b st = (\<lparr>bc_result = Commit_StaleOwner, bc_ack = [], bc_runs = []\<rparr>, [], st)"
    "fail_batch g b c st = (\<lparr>bf_result = Commit_StaleOwner, bf_exhausted = []\<rparr>, [], st)"
    "cancel_batch g b c st = (Commit_StaleOwner, [], st)"
    "interrupt_batch g b r m st = (\<lparr>ib_result = Commit_StaleOwner, ib_messages = []\<rparr>, [], st)"
  using assms
  by (simp_all add: mark_started_def retry_start_def complete_batch_with_ack_def fail_batch_def
      cancel_batch_def terminalize_batch_def interrupt_batch_def)

text \<open>C12: A batch is settled at most once. Once an issued batch is no longer the slot's current one
  (it was completed, failed, cancelled, interrupted, requeued, or its slot was stopped), it never
  becomes current again whatever the callers do, and every later report about it (started, to retry,
  complete, failed, cancelled, interrupted) changes neither the coordinator nor the run.\<close>
theorem batch_settles_once:
  assumes "work_reach port g p0 H st p" and "b \<in> H" and "\<not> is_current_batch g st b"
    and "run_calls port g cs (H, st, p) = Some (H', st', p')"
    and "c \<in> {Call_MarkStarted b t now, Call_RetryStart b, Call_Complete b, Call_Fail b reason,
          Call_CancelBatch b reason, Call_Interrupt b r m}"
  shows "\<not> is_current_batch g st' b \<and> exec_call port g c (st', p') = Some (st', p')"
proof -
  have no: "\<not> is_current_batch g st' b" using settled_calls [OF assms(1-4)] by blast
  from assms(5) show ?thesis
    by (elim insertE emptyE) (simp_all add: no stale_ops finish_call_iff make_calls_def)
qed

lemma batch_settles_once_witness:
  "demo_batch \<in> demo_handles demo_done \<and> \<not> is_current_batch ''g'' (demo_state demo_done) demo_batch
   \<and> (\<exists>H st p. run_calls quiet_port ''g'' (demo_enqueue Source_UserMessage ''n'' @ [Call_Next ''a'' ''b2''])
          (demo_handles demo_done, demo_state demo_done, ()) = Some (H, st, p)
        \<and> queued_ids (the (slot_at st ''a'')) = [] \<and> \<not> is_current_batch ''g'' st demo_batch
        \<and> exec_call quiet_port ''g'' (Call_Fail demo_batch ''late'') (st, p) = Some (st, p))"
proof -
  let ?run = "run_calls quiet_port ''g'' (demo_enqueue Source_UserMessage ''n'' @ [Call_Next ''a'' ''b2''])
    (demo_handles demo_done, demo_state demo_done, ())"
  have b: "demo_batch \<in> demo_handles demo_done" "\<not> is_current_batch ''g'' (demo_state demo_done) demo_batch"
    by code_simp+
  have "map_option (\<lambda>(_, st, _). queued_ids (the (slot_at st ''a''))) ?run = Some []" by code_simp
  then obtain H st p where run: "?run = Some (H, st, p)" "queued_ids (the (slot_at st ''a'')) = []"
    by auto
  with b batch_settles_once [OF demo_reach b run(1), of "Call_Fail demo_batch ''late''" _ _ "''late''"]
  show ?thesis by blast
qed

end
