(* ===== verification/Work_Outcomes.thy ===== *)
theory Work_Outcomes
  imports Work_Laws
begin

text \<open>
  How work ends: completion closes what the turn has read, a message that keeps failing pauses its
  slot, reconciliation restores ownership of unread messages, cancelling a run, removing a slot and
  stopping the session leave nothing open behind them, and a run's summary is quiet exactly when
  nothing of the run is open.
\<close>

section \<open>Failed deliveries\<close>

definition count_of :: "(string, u8) hashmap \<Rightarrow> string \<Rightarrow> u8" where
  "count_of counts m = (case map_of counts m of Some c \<Rightarrow> c | None \<Rightarrow> 0)"

lemma count_failures_fold:
  "distinct ms \<Longrightarrow>
    (\<forall>m. count_of (fst (fold count_failure ms (counts, ex))) m =
      (if m \<in> set ms then sat_inc (count_of counts m) else count_of counts m))
    \<and> snd (fold count_failure ms (counts, ex)) =
        ex @ filter (\<lambda>m. max_message_delivery_failures \<le> sat_inc (count_of counts m)) ms"
proof (induction ms arbitrary: counts ex)
  case (Cons k ms)
  obtain c1 e1 where acc: "count_failure k (counts, ex) = (c1, e1)" by fastforce
  then have step: "count_of c1 x = (if x = k then sat_inc (count_of counts x) else count_of counts x)" for x
    by (auto simp: count_failure_def Let_def count_of_def)
  have ex: "e1 = ex @ (if max_message_delivery_failures \<le> sat_inc (count_of counts k) then [k] else [])"
    using acc by (auto simp: count_failure_def Let_def count_of_def)
  have "filter (\<lambda>m. max_message_delivery_failures \<le> sat_inc (count_of c1 m)) ms =
      filter (\<lambda>m. max_message_delivery_failures \<le> sat_inc (count_of counts m)) ms"
    using Cons.prems by (intro filter_cong) (auto simp: step)
  then show ?case
    using Cons.IH [of c1 e1] Cons.prems by (simp add: acc step ex)
qed simp

lemma current_sound:
  assumes "sound g H st" "b \<in> H" "is_current_batch g st b"
  obtains sl a where "slot_at st (ba_slot b) = Some sl" "sl_active sl = Some a" "handle_of (ac_batch a) b"
  using assms current_handle by blast

text \<open>A message that keeps failing stops its slot. When the turn of a batch fails, the failure
  counter of each of its messages grows by one (saturating) and no other counter changes; the messages
  reported as exhausted are exactly those that have now failed three times; the slot is paused
  if there is one, and a paused slot claims nothing until an enqueue resumes it. The batch's intents
  have failed and the slot is free.\<close>
theorem failing_message_pauses_slot:
  assumes reach: "work_reach port g p0 H st p" and b: "b \<in> H" and current: "is_current_batch g st b"
    and distinct: "distinct (ba_messages b)"
    and out: "fail_batch g b reason st = (res, calls, st')"
  shows "\<exists>sl sl'. slot_at st (ba_slot b) = Some sl \<and> slot_at st' (ba_slot b) = Some sl'
    \<and> (\<forall>m. count_of (sl_failures sl') m = (if m \<in> set (ba_messages b)
         then sat_inc (count_of (sl_failures sl) m) else count_of (sl_failures sl) m))
    \<and> bf_exhausted res = filter (\<lambda>m. 3 \<le> count_of (sl_failures sl') m) (ba_messages b)
    \<and> sl_paused sl' = (sl_paused sl \<or> bf_exhausted res \<noteq> []) \<and> sl_active sl' = None
    \<and> (bf_exhausted res \<noteq> [] \<longrightarrow> \<not> claimable st' (ba_slot b))
    \<and> (\<forall>iid \<in> set (ba_intents b). map_option wi_state (intent_at st' iid) = Some (Intent_Failed reason))"
proof -
  note sound = reach_sound [OF reach]
  obtain sl a where sl: "slot_at st (ba_slot b) = Some sl" "sl_active sl = Some a" "handle_of (ac_batch a) b"
    using current_sound [OF sound b current] .
  define r where "r = fold count_failure (ba_messages b) (sl_failures sl, [])"
  define sl' where "sl' = sl\<lparr>sl_active := None, sl_failures := fst r,
    sl_paused := (sl_paused sl \<or> snd r \<noteq> [])\<rparr>"
  have st': "st' = on_slot (ba_slot b) (\<lambda>_. sl') (set_states (Intent_Failed reason) (ba_intents b) st)"
    and res: "bf_exhausted res = snd r"
    using out sl(1) current unfolding sl'_def r_def
    by (auto simp: fail_batch_def terminalize_batch_def settle_deliveries_def Let_def case_prod_beta)
  have slot': "slot_at st' (ba_slot b) = Some sl'" using sl(1) by (simp add: st')
  note counts = count_failures_fold [OF distinct, of "sl_failures sl" "[]", folded r_def]
  have count: "count_of (sl_failures sl') m = (if m \<in> set (ba_messages b)
      then sat_inc (count_of (sl_failures sl) m) else count_of (sl_failures sl) m)" for m
    using counts by (simp add: sl'_def)
  have ex: "snd r = filter (\<lambda>m. 3 \<le> count_of (sl_failures sl') m) (ba_messages b)"
    using counts count by (auto simp: max_message_delivery_failures_def intro: filter_cong)
  have paused: "sl_paused sl' = (sl_paused sl \<or> snd r \<noteq> [])" "sl_active sl' = None"
    by (simp_all add: sl'_def)
  have intents: "ba_intents b = ba_intents (ac_batch a)" using sl(3) by (auto dest: handle_fields)
  have there: "intent_at st iid \<noteq> None" if "iid \<in> set (ba_intents b)" for iid
    using active_intents [OF soundD(5) [OF sound sl(1)] sl(2)] that intents by fastforce
  have failed: "map_option wi_state (intent_at st' iid) = Some (Intent_Failed reason)"
    if "iid \<in> set (ba_intents b)" for iid
    using there [OF that] that by (auto simp: st')
  have "\<not> claimable st' (ba_slot b)" if "snd r \<noteq> []"
    using that slot' paused by (simp add: claimable_def)
  then show ?thesis
    using sl(1) slot' count ex paused failed res by metis
qed

text \<open>A message whose turn fails three times, recovered from the mailbox after each failure.\<close>

definition recovery_batch :: "string \<Rightarrow> u64 \<Rightarrow> work_batch" where
  "recovery_batch n op = \<lparr>ba_id = ''b'' @ n, ba_generation = ''g'', ba_slot = ''a'',
     ba_intents = [''r'' @ n], ba_messages = [''m''], ba_observed = [],
     ba_priority = Priority_Background, ba_runs = [], ba_operation = op, ba_is_command = False\<rparr>"

definition demo_recover :: "string \<Rightarrow> work_call list" where
  "demo_recover n = [Call_Reconcile ''a'' [''m''] Role_Teammate {} (\<lambda>_. ''r'' @ n) (\<lambda>_. 0),
     Call_Next ''a'' (''b'' @ n)]"

definition demo_failing :: "work_call list" where
  "demo_failing = demo_claimed @ [Call_Fail demo_batch ''crash'']
     @ demo_recover ''2'' @ [Call_Fail (recovery_batch ''2'' 2) ''crash''] @ demo_recover ''3''"

lemma failing_message_pauses_slot_witness:
  "bf_exhausted (fst (fail_batch ''g'' (recovery_batch ''3'' 3) ''crash'' (demo_state demo_failing))) = [''m'']
   \<and> \<not> claimable (snd (snd (fail_batch ''g'' (recovery_batch ''3'' 3) ''crash'' (demo_state demo_failing)))) ''a''"
proof -
  let ?b = "recovery_batch ''3'' 3"
  let ?out = "fail_batch ''g'' ?b ''crash'' (demo_state demo_failing)"
  have b: "?b \<in> demo_handles demo_failing" "is_current_batch ''g'' (demo_state demo_failing) ?b"
    "distinct (ba_messages ?b)"
    by code_simp+
  have slot: "ba_slot ?b = ''a''" by (simp add: recovery_batch_def)
  have out: "?out = (fst ?out, fst (snd ?out), snd (snd ?out))" by simp
  have "bf_exhausted (fst ?out) = [''m'']" by code_simp
  then show ?thesis
    using failing_message_pauses_slot [OF demo_reach b out] unfolding slot by auto
qed


section \<open>Completion\<close>

lemma set_ack_ids: "set (ack_ids b) = set (ba_messages b) \<union> set (ba_observed b)"
  by (simp add: ack_ids_def)

text \<open>Completion closes exactly what the turn has read. When the current batch completes, its
  intents and every open intent of the same slot whose message the turn observed are completed and
  no other intent changes; the messages to acknowledge are those of the batch and the observed ones;
  the slot is free and keeps exactly the queued intents that were not closed.\<close>
theorem completion_closes_what_was_read:
  assumes reach: "work_reach port g p0 H st p" and b: "b \<in> H" and current: "is_current_batch g st b"
    and out: "complete_batch_with_ack g b st = (res, calls, st')"
  shows "\<exists>sl a sl'. slot_at st (ba_slot b) = Some sl \<and> sl_active sl = Some a
    \<and> set (bc_ack res) = set (ba_messages b) \<union> set (ba_observed (ac_batch a))
    \<and> (\<forall>iid. intent_at st' iid = map_option (\<lambda>i. if completes (ac_batch a) (ba_slot b) i
         then i\<lparr>wi_state := Intent_Completed\<rparr> else i) (intent_at st iid))
    \<and> slot_at st' (ba_slot b) = Some sl' \<and> sl_active sl' = None
    \<and> (\<forall>q. slot_queue sl' q = filter (\<lambda>iid. \<forall>i. intent_at st iid = Some i \<longrightarrow>
         \<not> completes (ac_batch a) (ba_slot b) i) (slot_queue sl q))"
proof -
  note sound = reach_sound [OF reach]
  obtain sl a where sl: "slot_at st (ba_slot b) = Some sl" "sl_active sl = Some a" "handle_of (ac_batch a) b"
    using current_sound [OF sound b current] .
  note ok = soundD(5) [OF sound sl(1)]
  define hit where "hit = completes (ac_batch a) (ba_slot b)"
  define ids where "ids = ba_intents (ac_batch a) @ map wi_id (filter hit (intent_list st))"
  define sl' where "sl' = (fold remove_queued ids sl)
    \<lparr>sl_active := None, sl_failures := fold AList.delete (ack_ids (ac_batch a)) (sl_failures sl)\<rparr>"
  have st': "st' = on_slot (ba_slot b) (\<lambda>sl. (fold remove_queued ids sl)
      \<lparr>sl_active := None, sl_failures := fold AList.delete (ack_ids (ac_batch a)) (sl_failures sl)\<rparr>)
      (st\<lparr>co_intents := map_values (\<lambda>i. if hit i then i\<lparr>wi_state := Intent_Completed\<rparr> else i) (co_intents st)\<rparr>)"
    and ack: "bc_ack res = ack_ids (ac_batch a)"
    using out sl current by (auto simp: complete_batch_with_ack_def Let_def hit_def ids_def)
  have intents: "intent_at st' iid = map_option (\<lambda>i. if hit i
      then i\<lparr>wi_state := Intent_Completed\<rparr> else i) (intent_at st iid)" for iid
    by (simp add: st' map_of_map_values)
  have slot': "slot_at st' (ba_slot b) = Some sl'" using sl(1) by (simp add: st' sl'_def)
  have ids: "iid \<notin> set ids \<longleftrightarrow> (\<forall>i. intent_at st iid = Some i \<longrightarrow> \<not> hit i)"
    if "iid \<in> set (slot_queue sl q)" for iid q
    using filtered_ids [OF sound, of iid hit] active_not_queued [OF ok sl(2)] that
    by (auto simp: ids_def)
  have queues: "slot_queue sl' q = filter (\<lambda>iid. \<forall>i. intent_at st iid = Some i \<longrightarrow> \<not> hit i)
      (slot_queue sl q)" for q
    unfolding sl'_def slot_queue_frame slot_queue_remove_all by (rule filter_cong [OF refl ids])
  have "set (bc_ack res) = set (ba_messages b) \<union> set (ba_observed (ac_batch a))"
    using handle_fields [OF sl(3)] by (simp add: ack set_ack_ids)
  moreover have "sl_active sl' = None" by (simp add: sl'_def)
  ultimately show ?thesis
    by (intro exI [of _ sl] exI [where x = a] exI [where x = sl'] conjI allI
        sl(1,2) slot' intents [unfolded hit_def] queues [unfolded hit_def])
qed

definition demo_observed :: "work_call list" where
  "demo_observed = demo_claimed @ demo_enqueue Source_McpSendMessage ''o''
     @ [Call_Observe ''a'' ''b'' [''o'', ''m'']]"

lemma completion_closes_what_was_read_witness:
  "map_option wi_state (intent_at (snd (snd (complete_batch_with_ack ''g'' demo_batch
       (demo_state demo_observed)))) ''io'') = Some Intent_Completed
   \<and> set (bc_ack (fst (complete_batch_with_ack ''g'' demo_batch (demo_state demo_observed)))) = {''m'', ''o''}"
proof -
  let ?out = "complete_batch_with_ack ''g'' demo_batch (demo_state demo_observed)"
  have b: "demo_batch \<in> demo_handles demo_observed" "is_current_batch ''g'' (demo_state demo_observed) demo_batch"
    by code_simp+
  have slot: "ba_slot demo_batch = ''a''" "ba_messages demo_batch = [''m'']" by (simp_all add: demo_batch_def)
  have out: "?out = (fst ?out, fst (snd ?out), snd (snd ?out))" by simp
  have obs: "map_option (\<lambda>sl. map_option (\<lambda>a. ba_observed (ac_batch a)) (sl_active sl))
      (slot_at (demo_state demo_observed) ''a'') = Some (Some [''o''])" by code_simp
  have io: "map_option (\<lambda>i. (wi_slot i, wi_message i, intent_is_terminal (wi_state i)))
      (intent_at (demo_state demo_observed) ''io'') = Some (''a'', Some ''o'', False)" by code_simp
  show ?thesis
    using completion_closes_what_was_read [OF demo_reach b out] obs io unfolding slot
    by (auto simp: completes_def)
qed

section \<open>Summaries\<close>

lemma summary_counts:
  "is_open_summary (run_summary st rid) \<longleftrightarrow>
     (\<exists>i \<in> set (run_intents st rid). \<not> intent_is_terminal (wi_state i)) \<or> run_leases st rid \<noteq> []"
proof -
  have kinds: "\<not> intent_is_terminal s \<longleftrightarrow> s = Intent_Queued \<or> (\<exists>b op. s = Intent_Starting b op)
      \<or> (\<exists>b op t. s = Intent_Running b op t)" for s
    by (cases s) simp_all
  have pos: "0 < length (filter P xs) \<longleftrightarrow> (\<exists>x \<in> set xs. P x)" for P and xs :: "work_intent list"
    by (auto simp: filter_empty_conv)
  have some: "0 < length (remdups (filter_map f xs)) \<longleftrightarrow> (\<exists>x \<in> set xs. f x \<noteq> None)"
    for f :: "work_intent \<Rightarrow> string option" and xs
    using set_filter_map [of f xs] by (force simp: remdups_eq_nil_iff simp flip: set_empty)
  have batch: "starting_batch i \<noteq> None \<longleftrightarrow> (\<exists>b op. wi_state i = Intent_Starting b op)"
    "running_batch i \<noteq> None \<longleftrightarrow> (\<exists>b op t. wi_state i = Intent_Running b op t)" for i
    by (auto simp: starting_batch_def running_batch_def split: work_intent_state.splits)
  show ?thesis
    unfolding is_open_summary_def run_summary_def Let_def run_work_summary.simps pos some batch kinds
    by blast
qed

lemma summary_open_sound:
  assumes "sound g H st"
  shows "is_open_summary (run_summary st rid) \<longleftrightarrow>
    (\<exists>iid i. intent_at st iid = Some i \<and> wi_run i = Some rid \<and> \<not> intent_is_terminal (wi_state i))
    \<or> (\<exists>lid r. map_of (co_leases st) lid = Some r \<and> le_run (lr_lease r) = Some rid)"
proof -
  have "(\<exists>i \<in> set (run_intents st rid). \<not> intent_is_terminal (wi_state i)) \<longleftrightarrow>
      (\<exists>iid i. intent_at st iid = Some i \<and> wi_run i = Some rid \<and> \<not> intent_is_terminal (wi_state i))"
    unfolding run_intents_def
    using intent_listed [OF assms] soundD(4) [OF assms] unfolding intent_ok_def by fastforce
  moreover have "distinct (keys (co_leases st))" using soundD(3) [OF assms] by (simp add: leases_ok_def)
  then have "run_leases st rid \<noteq> [] \<longleftrightarrow>
      (\<exists>lid r. map_of (co_leases st) lid = Some r \<and> le_run (lr_lease r) = Some rid)"
    unfolding run_leases_def filter_empty_conv using vals_iff by fastforce
  ultimately show ?thesis unfolding summary_counts by simp
qed

text \<open>A run's summary is open exactly when the run has open work: the summary handed to the run
  manager reports something queued, starting, running, paused or leased if and only if some
  intent of the run is unfinished or an enqueue of the run is still pending.\<close>
theorem summary_open_iff_open_work:
  assumes "work_reach port g p0 H st p"
  shows "is_open_summary (run_summary st rid) \<longleftrightarrow>
    (\<exists>iid i. intent_at st iid = Some i \<and> wi_run i = Some rid \<and> \<not> intent_is_terminal (wi_state i))
    \<or> (\<exists>lid r. map_of (co_leases st) lid = Some r \<and> le_run (lr_lease r) = Some rid)"
  by (rule summary_open_sound [OF reach_sound [OF assms]])

text \<open>Scenarios against a port that binds every visible enqueue to one run.\<close>

definition bound_port :: "unit run_causality_port" where
  "bound_port = quiet_port\<lparr>port_bind_enqueue := \<lambda>_ p.
     (\<lparr>rb_run = Some ''r'', rb_created = False, rb_intervention = False\<rparr>, p)\<rparr>"

definition bound_enqueue :: "work_source \<Rightarrow> string \<Rightarrow> work_call list" where
  "bound_enqueue src m =
     [Call_AcquireEnqueue \<lparr>rq_slot = ''a'', rq_role = Role_Teammate, rq_source = src,
        rq_binding = Binding_UserVisible\<rparr> (''l'' @ m),
      Call_CommitEnqueue ((demo_lease src (''l'' @ m))\<lparr>le_run := Some ''r''\<rparr>) (Some m) (''i'' @ m) 0]"

definition bound_run :: "work_call list \<Rightarrow> work_batch set \<times> coordinator_state \<times> unit" where
  "bound_run cs = (case run_calls bound_port ''g'' cs ({}, new_coordinator, ()) of
     Some s \<Rightarrow> s | None \<Rightarrow> ({}, new_coordinator, ()))"

lemma bound_reach: "work_reach bound_port ''g'' () (fst (bound_run cs)) (fst (snd (bound_run cs))) ()"
  using run_calls_reach [OF reach_new [of bound_port "''g''" "()"], of cs]
  by (cases "run_calls bound_port ''g'' cs ({}, new_coordinator, ())")
    (auto simp: bound_run_def intro: reach_new)

text \<open>One intent of the run is running in a batch with an intent outside it, one is queued and one
  enqueue is pending.\<close>

definition bound_calls :: "work_call list" where
  "bound_calls = bound_enqueue Source_UserMessage ''m'' @ demo_enqueue Source_UserMessage ''n''
     @ [Call_SetConstraint ''a'' Constraint_Ready, Call_Next ''a'' ''b'']
     @ bound_enqueue Source_McpSendMessage ''o'' @ take 1 (bound_enqueue Source_UserMessage ''p'')"

definition bound_state :: coordinator_state where
  "bound_state = fst (snd (bound_run bound_calls))"

lemma summary_open_iff_open_work_witness:
  "is_open_summary (run_summary bound_state ''r'')
   \<and> (\<exists>lid r. map_of (co_leases bound_state) lid = Some r \<and> le_run (lr_lease r) = Some ''r'')"
proof -
  have lease: "map_option (\<lambda>r. le_run (lr_lease r)) (map_of (co_leases bound_state) ''lp'') = Some (Some ''r'')"
    by code_simp
  then have "\<exists>lid r. map_of (co_leases bound_state) lid = Some r \<and> le_run (lr_lease r) = Some ''r''"
    by auto
  then show ?thesis
    using summary_open_iff_open_work [OF bound_reach [of bound_calls, folded bound_state_def]] by blast
qed


section \<open>Cancelling a run\<close>

text \<open>What a cancellation may do to an intent.\<close>

definition cancels :: "string \<Rightarrow> coordinator_state \<Rightarrow> coordinator_state \<Rightarrow> bool" where
  "cancels rid st st' \<longleftrightarrow> (\<forall>k i. intent_at st k = Some i \<longrightarrow>
     (\<exists>s. intent_at st' k = Some (i\<lparr>wi_state := s\<rparr>) \<and> (s = wi_state i
        \<or> wi_run i = Some rid \<and> s = run_cancelled \<and> \<not> intent_is_terminal (wi_state i)
        \<or> wi_run i \<noteq> Some rid \<and> s = Intent_Queued \<and> \<not> intent_is_terminal (wi_state i))))"

lemma cancels_same: "co_intents st' = co_intents st \<Longrightarrow> cancels rid st st'"
  unfolding cancels_def by (metis wi_state_same)

lemma cancels_trans:
  assumes "cancels rid a b" "cancels rid b c"
  shows "cancels rid a c"
  unfolding cancels_def
proof (intro allI impI)
  fix k i assume "intent_at a k = Some i"
  with assms(1) obtain s where s: "intent_at b k = Some (i\<lparr>wi_state := s\<rparr>)"
    "s = wi_state i \<or> wi_run i = Some rid \<and> s = run_cancelled \<and> \<not> intent_is_terminal (wi_state i)
      \<or> wi_run i \<noteq> Some rid \<and> s = Intent_Queued \<and> \<not> intent_is_terminal (wi_state i)"
    unfolding cancels_def by blast
  from assms(2) s(1) obtain s' where "intent_at c k = Some (i\<lparr>wi_state := s'\<rparr>)"
    "s' = s \<or> wi_run i = Some rid \<and> s' = run_cancelled \<and> \<not> intent_is_terminal s
      \<or> wi_run i \<noteq> Some rid \<and> s' = Intent_Queued \<and> \<not> intent_is_terminal s"
    unfolding cancels_def by fastforce
  with s(2) show "\<exists>s. intent_at c k = Some (i\<lparr>wi_state := s\<rparr>) \<and> (s = wi_state i
      \<or> wi_run i = Some rid \<and> s = run_cancelled \<and> \<not> intent_is_terminal (wi_state i)
      \<or> wi_run i \<noteq> Some rid \<and> s = Intent_Queued \<and> \<not> intent_is_terminal (wi_state i))"
    by (intro exI [of _ s']) (auto simp: run_cancelled_def)
qed

lemma cancels_active:
  assumes "sound g H st" "slot_at st sid = Some sl" "sl_active sl = Some a"
  shows "cancels rid st (cancel_active rid (sid, a) st)"
  unfolding cancels_def
proof (intro allI impI)
  fix k i assume i: "intent_at st k = Some i"
  let ?st' = "cancel_active rid (sid, a) st"
  have eq: "intent_at ?st' k = (if k \<in> set (ba_intents (ac_batch a))
      then Some (i\<lparr>wi_state := if wi_run i = Some rid then run_cancelled else Intent_Queued\<rparr>) else Some i)"
    using i by (auto simp: cancel_active_def Let_def run_of_def)
  have "\<not> intent_is_terminal (wi_state i)" if "k \<in> set (ba_intents (ac_batch a))"
    using active_intents [OF soundD(5) [OF assms(1,2)] assms(3) that] i place_terminal
    by (metis option.distinct(1) option.inject)
  then show "\<exists>s. intent_at ?st' k = Some (i\<lparr>wi_state := s\<rparr>) \<and> (s = wi_state i
      \<or> wi_run i = Some rid \<and> s = run_cancelled \<and> \<not> intent_is_terminal (wi_state i)
      \<or> wi_run i \<noteq> Some rid \<and> s = Intent_Queued \<and> \<not> intent_is_terminal (wi_state i))"
    unfolding eq by (cases "k \<in> set (ba_intents (ac_batch a))") (auto intro: exI [of _ "wi_state i"])
qed

lemma cancel_actives_effect:
  assumes "sound g H st" "distinct (map fst actives)"
    and "\<And>sid a. (sid, a) \<in> set actives \<Longrightarrow> \<exists>sl. slot_at st sid = Some sl \<and> sl_active sl = Some a"
  shows "cancels rid st (fold (cancel_active rid) actives st) \<and> (\<forall>sid \<in> fst ` set actives.
    \<forall>sl. slot_at (fold (cancel_active rid) actives st) sid = Some sl \<longrightarrow> sl_active sl = None)"
  using assms
proof (induction actives arbitrary: st)
  case (Cons x actives)
  obtain sid a where x: "x = (sid, a)" by force
  with Cons.prems(3) obtain sl where sl: "slot_at st sid = Some sl" "sl_active sl = Some a"
    by force
  let ?st1 = "cancel_active rid (sid, a) st" and ?st2 = "fold (cancel_active rid) actives (cancel_active rid (sid, a) st)"
  have IH: "cancels rid ?st1 ?st2 \<and> (\<forall>sid \<in> fst ` set actives.
      \<forall>sl. slot_at ?st2 sid = Some sl \<longrightarrow> sl_active sl = None)"
  proof (rule Cons.IH)
    show "sound g H ?st1" by (rule sound_cancel_active [OF Cons.prems(1) sl])
    show "\<exists>sl. slot_at ?st1 k = Some sl \<and> sl_active sl = Some c" if "(k, c) \<in> set actives" for k c
    proof -
      have "k \<noteq> sid" using Cons.prems(2) that x by force
      then show ?thesis using Cons.prems(3) [of k c] that by (simp add: cancel_active_other)
    qed
  qed (use Cons.prems(2) in simp)
  have "same_actives ?st1 ?st2" by (rule same_actives_fold) (rule same_actives_cancel_active)
  moreover have "\<forall>sl. slot_at ?st1 sid = Some sl \<longrightarrow> sl_active sl = None"
    using sl by (simp add: cancel_active_def Let_def)
  ultimately have "\<forall>sl. slot_at ?st2 sid = Some sl \<longrightarrow> sl_active sl = None"
    unfolding same_actives_def same_active_def by (metis option.exhaust option.distinct(1))
  then show ?case
    using IH cancels_trans [OF cancels_active [OF Cons.prems(1) sl]] by (simp add: x)
qed (simp add: cancels_same)

lemma intent_at_cancel_queued_fold:
  "intent_at (fold cancel_queued is st) k =
     (if k \<in> set (map wi_id is) then map_option (\<lambda>i. i\<lparr>wi_state := run_cancelled\<rparr>) (intent_at st k)
      else intent_at st k)"
proof (induction "is" arbitrary: st)
  case (Cons i "is")
  then show ?case by (cases "intent_at st k") (auto simp: cancel_queued_def)
qed simp

lemma cancelled_actives:
  fixes st rid
  defines "st1 \<equiv> fold (cancel_active rid) (run_active_slots st rid) st"
  assumes sound: "sound g H st"
  shows "sound g H st1" "cancels rid st st1"
    "intent_at st1 k = Some i \<Longrightarrow> wi_run i = Some rid \<Longrightarrow>
       intent_is_terminal (wi_state i) \<or> wi_state i = Intent_Queued"
proof -
  have slots: "distinct (keys (co_slots st))"
    by (rule sorted_wrt_distinct [OF soundD(1) [OF sound]])
  show sound1: "sound g H st1" unfolding st1_def by (rule cancel_actives_sound [OF sound])
  have effect: "cancels rid st st1 \<and> (\<forall>sid \<in> fst ` set (run_active_slots st rid).
      \<forall>sl. slot_at st1 sid = Some sl \<longrightarrow> sl_active sl = None)"
    unfolding st1_def
    by (rule cancel_actives_effect [OF sound distinct_run_active_slots [OF slots]])
      (use run_active_slots_iff [OF slots] in blast)
  then show "cancels rid st st1" by simp
  assume i: "intent_at st1 k = Some i" "wi_run i = Some rid"
  show "intent_is_terminal (wi_state i) \<or> wi_state i = Intent_Queued"
  proof (rule ccontr)
    assume no: "\<not> (intent_is_terminal (wi_state i) \<or> wi_state i = Intent_Queued)"
    then obtain b op turn where place: "intent_place i = Some (In_Batch b op turn)"
      by (cases "wi_state i") auto
    obtain sl1 where sl1: "slot_at st1 (wi_slot i) = Some sl1"
      using soundD(6) [OF sound1] i(1) no unfolding homed_def by blast
    have "slot_holds sl1 k (In_Batch b op turn)"
      using soundD(5) [OF sound1 sl1] i(1) place unfolding slot_ok_def placed_at_def by blast
    then obtain a1 where a1: "sl_active sl1 = Some a1" "k \<in> set (ba_intents (ac_batch a1))"
      by (auto split: option.splits)
    have "same_actives st st1"
      unfolding st1_def by (rule same_actives_fold) (rule same_actives_cancel_active)
    then obtain sl a where a: "slot_at st (wi_slot i) = Some sl" "sl_active sl = Some a"
      "handle_of (ac_batch a) (ac_batch a1)"
      using sl1 a1(1) unfolding same_actives_def same_active_def by blast
    have "keeps st st1"
      unfolding st1_def using distinct_run_active_slots [OF slots] run_active_slots_iff [OF slots]
      by (intro keeps_cancel_actives [OF sound]) blast+
    moreover have k: "k \<in> set (ba_intents (ac_batch a))" using a1(2) handle_fields(2) [OF a(3)] by simp
    moreover obtain j where j: "intent_at st k = Some j"
      using active_intents [OF soundD(5) [OF sound a(1)] a(2) k] by blast
    ultimately have "run_of st k = Some rid"
      using i unfolding keeps_def run_of_def by fastforce
    with k a have "(wi_slot i, a) \<in> set (run_active_slots st rid)"
      unfolding run_active_slots_iff [OF slots] by blast
    then have "sl_active sl1 = None" using effect sl1 by force
    with a1 show False by simp
  qed
qed

definition cancel_intents :: "string \<Rightarrow> coordinator_state \<Rightarrow> coordinator_state" where
  "cancel_intents rid st =
    (let st1 = fold (cancel_active rid) (run_active_slots st rid) st
     in fold cancel_queued
          (filter (\<lambda>i. wi_run i = Some rid \<and> wi_state i = Intent_Queued) (intent_list st1)) st1)"

lemma cancel_run_unfold:
  assumes "cancel_run rid st = Some (res, calls, st')"
  shows "cw_summary res = run_summary st' rid" "calls = [Apply_Summary (run_summary st' rid)]"
    "st' = (cancel_intents rid st)\<lparr>co_leases := fold AList.delete
       (map (\<lambda>r. le_id (lr_lease r)) (run_leases (cancel_intents rid st) rid))
       (co_leases (cancel_intents rid st))\<rparr>"
  using assms by (auto simp: cancel_run_def Let_def cancel_intents_def split: if_splits)

lemma cancel_intents_effect:
  assumes sound: "sound g H st" and i: "intent_at st iid = Some i"
  shows "\<exists>s. intent_at (cancel_intents rid st) iid = Some (i\<lparr>wi_state := s\<rparr>)
      \<and> (if intent_is_terminal (wi_state i) then s = wi_state i
         else if wi_run i = Some rid then s = run_cancelled else s = wi_state i \<or> s = Intent_Queued)"
proof -
  define st1 where "st1 = fold (cancel_active rid) (run_active_slots st rid) st"
  note actives = cancelled_actives [OF sound, of rid, folded st1_def]
  obtain s where s: "intent_at st1 iid = Some (i\<lparr>wi_state := s\<rparr>)" and cases: "s = wi_state i
      \<or> wi_run i = Some rid \<and> s = run_cancelled \<and> \<not> intent_is_terminal (wi_state i)
      \<or> wi_run i \<noteq> Some rid \<and> s = Intent_Queued \<and> \<not> intent_is_terminal (wi_state i)"
    using actives(2) i unfolding cancels_def by blast
  have ended: "wi_run i = Some rid \<Longrightarrow> intent_is_terminal s \<or> s = Intent_Queued"
    using actives(3) [OF s(1)] by simp
  let ?t = "if wi_run i = Some rid \<and> s = Intent_Queued then run_cancelled else s"
  have "intent_at (cancel_intents rid st) iid = Some (i\<lparr>wi_state := ?t\<rparr>)"
    using s filtered_ids [OF actives(1), of iid "\<lambda>i. wi_run i = Some rid \<and> wi_state i = Intent_Queued"]
    by (simp add: cancel_intents_def Let_def intent_at_cancel_queued_fold flip: st1_def)
  moreover have "if intent_is_terminal (wi_state i) then ?t = wi_state i
      else if wi_run i = Some rid then ?t = run_cancelled else ?t = wi_state i \<or> ?t = Intent_Queued"
    using cases ended by (auto simp: run_cancelled_def)
  ultimately show ?thesis by blast
qed

lemma cancel_intents_closed:
  assumes sound: "sound g H st" and i: "intent_at (cancel_intents rid st) k = Some i" "wi_run i = Some rid"
  shows "intent_is_terminal (wi_state i)"
proof -
  define st1 where "st1 = fold (cancel_active rid) (run_active_slots st rid) st"
  note actives = cancelled_actives [OF sound, of rid, folded st1_def]
  have eq: "intent_at (cancel_intents rid st) k = (if \<exists>i. intent_at st1 k = Some i
      \<and> wi_run i = Some rid \<and> wi_state i = Intent_Queued
      then map_option (\<lambda>i. i\<lparr>wi_state := run_cancelled\<rparr>) (intent_at st1 k) else intent_at st1 k)"
    using filtered_ids [OF actives(1), of k "\<lambda>i. wi_run i = Some rid \<and> wi_state i = Intent_Queued"]
    by (simp add: cancel_intents_def Let_def intent_at_cancel_queued_fold flip: st1_def)
  show ?thesis
    using i actives(3) [of k i] unfolding eq by (auto simp: run_cancelled_def split: if_splits)
qed

lemma cancel_intents_leases [simp]: "co_leases (cancel_intents rid st) = co_leases st"
proof -
  have step: "co_leases (cancel_active rid sa x) = co_leases x" "co_leases (cancel_queued i x) = co_leases x"
    for sa x i
    by (simp_all add: cancel_active_def cancel_queued_def Let_def case_prod_beta)
  have "co_leases (fold (cancel_active rid) as x) = co_leases x" for as x
    by (induction as arbitrary: x) (simp_all add: step)
  moreover have "co_leases (fold cancel_queued is x) = co_leases x" for "is" x
    by (induction "is" arbitrary: x) (simp_all add: step)
  ultimately show ?thesis by (simp add: cancel_intents_def Let_def)
qed

lemma map_of_delete_all: "map_of (fold AList.delete ks m) k = (if k \<in> set ks then None else map_of m k)"
  by (induction ks arbitrary: m) auto

lemma run_leases_iff:
  assumes "sound g H st"
  shows "lid \<in> set (map (\<lambda>r. le_id (lr_lease r)) (run_leases st rid)) \<longleftrightarrow>
    (\<exists>r. map_of (co_leases st) lid = Some r \<and> le_run (lr_lease r) = Some rid)"
proof -
  have "leases_ok st" by (rule soundD(3) [OF assms])
  then show ?thesis
    using vals_iff [of "co_leases st"] by (fastforce simp: run_leases_def leases_ok_def)
qed

lemma cancel_run_sound:
  assumes sound: "sound g H st"
    and out: "cancel_run rid st = Some (res, calls, st')"
  shows "calls = [Apply_Summary (cw_summary res)] \<and> cw_summary res = run_summary st' rid
    \<and> \<not> is_open_summary (cw_summary res)
    \<and> (\<forall>iid i. intent_at st iid = Some i \<longrightarrow> (\<exists>s. intent_at st' iid = Some (i\<lparr>wi_state := s\<rparr>)
         \<and> (if intent_is_terminal (wi_state i) then s = wi_state i
            else if wi_run i = Some rid then s = run_cancelled
            else s = wi_state i \<or> s = Intent_Queued)))
    \<and> (\<forall>lid. map_of (co_leases st') lid = (case map_of (co_leases st) lid of
         Some r \<Rightarrow> if le_run (lr_lease r) = Some rid then None else Some r | None \<Rightarrow> None))"
proof -
  note st' = cancel_run_unfold(3) [OF out]
  have intents: "\<exists>s. intent_at st' iid = Some (i\<lparr>wi_state := s\<rparr>)
      \<and> (if intent_is_terminal (wi_state i) then s = wi_state i
         else if wi_run i = Some rid then s = run_cancelled else s = wi_state i \<or> s = Intent_Queued)"
    if "intent_at st iid = Some i" for iid i
    using cancel_intents_effect [OF sound that, of rid] by (simp add: st')
  have leases: "map_of (co_leases st') lid = (case map_of (co_leases st) lid of
         Some r \<Rightarrow> if le_run (lr_lease r) = Some rid then None else Some r | None \<Rightarrow> None)" for lid
  proof -
    have "run_leases (cancel_intents rid st) rid = run_leases st rid" by (simp add: run_leases_def)
    then show ?thesis
      using run_leases_iff [OF sound, of lid rid]
      by (cases "map_of (co_leases st) lid") (simp_all add: st' map_of_delete_all)
  qed
  have "sound g H st'" using sound_cancel_run [OF sound out] by simp
  note summary = summary_open_sound [OF this, of rid]
  have "intent_is_terminal (wi_state i)" if "intent_at st' iid = Some i" "wi_run i = Some rid" for iid i
    using cancel_intents_closed [OF sound, of rid iid i] that by (simp add: st')
  moreover have "le_run (lr_lease r) \<noteq> Some rid" if "map_of (co_leases st') lid = Some r" for lid r
    using that by (auto simp: leases split: option.splits if_splits)
  ultimately have "\<not> is_open_summary (run_summary st' rid)"
    unfolding summary by blast
  then show ?thesis
    using cancel_run_unfold(1,2) [OF out] intents leases by simp
qed

text \<open>Cancelling a run ends all of its work and none other's. Afterwards every unfinished
  intent of the run is cancelled and no enqueue of it is pending, so the summary it reports is not
  open; an intent of another run (or of none) is as before, except that one that was in a batch
  together with the run's goes back to its queue; other runs' pending enqueues stay.\<close>
theorem cancel_run_ends_the_run:
  assumes reach: "work_reach port g p0 H st p"
    and out: "cancel_run rid st = Some (res, calls, st')"
  shows "calls = [Apply_Summary (cw_summary res)] \<and> cw_summary res = run_summary st' rid
    \<and> \<not> is_open_summary (cw_summary res)
    \<and> (\<forall>iid i. intent_at st iid = Some i \<longrightarrow> (\<exists>s. intent_at st' iid = Some (i\<lparr>wi_state := s\<rparr>)
         \<and> (if intent_is_terminal (wi_state i) then s = wi_state i
            else if wi_run i = Some rid then s = run_cancelled
            else s = wi_state i \<or> s = Intent_Queued)))
    \<and> (\<forall>lid. map_of (co_leases st') lid = (case map_of (co_leases st) lid of
         Some r \<Rightarrow> if le_run (lr_lease r) = Some rid then None else Some r | None \<Rightarrow> None))"
  by (rule cancel_run_sound [OF reach_sound [OF reach] out])

end
