(* ===== verification/Work_Boundary.thy ===== *)
theory Work_Boundary
  imports Work_Outcomes
begin

text \<open>
  The coordinator's edges: what an enqueue, a reconciliation with the mailbox, a runtime failure, a
  restart, the removal of a slot and the end of the session do to the work that is there.
\<close>

section \<open>Enqueueing\<close>

text \<open>A committed enqueue adds exactly one intent and uses up its lease. The slot accepted work
  (not removed, its runtime ready or starting); the new intent waits at the end of the lane of its
  source's priority, a lead's intervention at its front, and no other lane or intent changes; a
  source that speaks for the user or the lead resumes a paused slot; and no second commit or
  abort of the same lease succeeds.\<close>
theorem commit_adds_one_intent:
  assumes out: "commit_enqueue g le m iid now st = Some (Inr ec, calls, st')"
  shows "\<exists>sl sl'. slot_at st (le_slot le) = Some sl \<and> slot_at st' (le_slot le) = Some sl'
    \<and> \<not> sl_removed sl \<and> (sl_constraint sl = Constraint_Ready \<or> (\<exists>op. sl_constraint sl = Constraint_Starting op))
    \<and> (requires_mailbox_message (le_source le) \<longrightarrow> m \<noteq> None)
    \<and> (\<forall>q. slot_queue sl' q = (if q \<noteq> source_priority (le_source le) then slot_queue sl q
         else if le_source le = Source_LeadIntervention then iid # slot_queue sl q
         else slot_queue sl q @ [iid]))
    \<and> sl_paused sl' = (sl_paused sl \<and> \<not> resumes_paused_slot (le_source le)) \<and> sl_active sl' = sl_active sl
    \<and> map_option (\<lambda>i. (wi_slot i, wi_message i, wi_run i, wi_state i)) (intent_at st' iid) =
        Some (le_slot le, m, le_run le, Intent_Queued)
    \<and> (\<forall>k. k \<noteq> iid \<longrightarrow> intent_at st' k = intent_at st k)
    \<and> fst (abort_enqueue g le st') = Commit_StaleOwner
    \<and> commit_enqueue g le m' iid' now' st' =
        Some (Inl (TeamError_InvalidRequest ''enqueue lease is no longer active''), [], st')"
proof -
  define i where "i = \<lparr>wi_id = iid, wi_generation = g, wi_slot = le_slot le, wi_role = le_role le,
    wi_source = le_source le, wi_priority = source_priority (le_source le), wi_message = m,
    wi_run = le_run le, wi_created = now, wi_state = Intent_Queued\<rparr>"
  from out obtain sl where sl: "slot_at st (le_slot le) = Some sl"
    and valid: "validate_enqueue_constraint (le_slot le) sl = None"
    and needs: "requires_mailbox_message (le_source le) \<longrightarrow> m \<noteq> None"
    and st': "st' = on_slot (le_slot le) (enqueue_in_slot le m iid)
      (st\<lparr>co_leases := AList.delete (le_id le) (co_leases st), co_intents := AList.update iid i (co_intents st)\<rparr>)"
    by (auto simp: commit_enqueue_def Let_def i_def split: option.splits if_splits bind_splits)
  have gone: "map_of (co_leases st') (le_id le) = None" by (simp add: st')
  have "\<not> sl_removed sl \<and> (sl_constraint sl = Constraint_Ready \<or> (\<exists>op. sl_constraint sl = Constraint_Starting op))"
    using valid by (auto simp: validate_enqueue_constraint_def split: if_splits runtime_constraint.splits)
  moreover have "sl_paused (enqueue_in_slot le m iid sl) = (sl_paused sl \<and> \<not> resumes_paused_slot (le_source le))"
    by (simp add: enqueue_in_slot_def Let_def split: option.split)
  moreover have "slot_at st' (le_slot le) = Some (enqueue_in_slot le m iid sl)" using sl by (simp add: st')
  moreover have "map_option (\<lambda>i. (wi_slot i, wi_message i, wi_run i, wi_state i)) (intent_at st' iid) =
      Some (le_slot le, m, le_run le, Intent_Queued)" by (simp add: st' i_def)
  moreover have "intent_at st' k = intent_at st k" if "k \<noteq> iid" for k using that by (simp add: st')
  moreover have "fst (abort_enqueue g le st') = Commit_StaleOwner" using gone by (simp add: abort_enqueue_def)
  moreover have "commit_enqueue g le m' iid' now' st' =
      Some (Inl (TeamError_InvalidRequest ''enqueue lease is no longer active''), [], st')"
    using gone by (simp add: commit_enqueue_def)
  ultimately show ?thesis
    using sl needs by (intro exI [of _ sl] exI [where x = "enqueue_in_slot le m iid sl"])
      (simp add: slot_queue_enqueue)
qed

definition demo_leased :: "work_call list" where
  "demo_leased = demo_enqueue Source_UserMessage ''m'' @ [Call_Pause ''a'']
     @ take 1 (demo_enqueue Source_LeadIntervention ''n'')"

lemma commit_adds_one_intent_witness:
  "\<exists>ec calls st'. commit_enqueue ''g'' (demo_lease Source_LeadIntervention ''ln'') (Some ''n'') ''in'' 0
      (demo_state demo_leased) = Some (Inr ec, calls, st')
     \<and> map_option (\<lambda>sl. (slot_queue sl Priority_Foreground, sl_paused sl)) (slot_at st' ''a'') =
         Some ([''in'', ''im''], False)
     \<and> fst (abort_enqueue ''g'' (demo_lease Source_LeadIntervention ''ln'') st') = Commit_StaleOwner"
proof -
  let ?le = "demo_lease Source_LeadIntervention ''ln''"
  let ?out = "commit_enqueue ''g'' ?le (Some ''n'') ''in'' 0 (demo_state demo_leased)"
  have "(case ?out of Some (r, _, st') \<Rightarrow> \<not> isl r \<and> map_option (\<lambda>sl. (slot_queue sl Priority_Foreground,
      sl_paused sl)) (slot_at st' ''a'') = Some ([''in'', ''im''], False) | None \<Rightarrow> False)" by code_simp
  then obtain r calls st' where "?out = Some (r, calls, st')" "\<not> isl r"
    and lane: "map_option (\<lambda>sl. (slot_queue sl Priority_Foreground, sl_paused sl)) (slot_at st' ''a'') =
      Some ([''in'', ''im''], False)"
    by (auto simp del: slot_queue.simps split: option.splits)
  then have out: "?out = Some (Inr (projr r), calls, st')" by simp
  with commit_adds_one_intent [OF out] lane show ?thesis by blast
qed


section \<open>Restarting a slot's runtime\<close>

text \<open>The restart gate blocks work and never overwrites a newer transition. When a restart is
  admitted, the slot runs nothing (and, for a plain restart, has nothing queued) and claims nothing
  until the gate is lifted; aborting it at once restores the constraint the slot had; and aborting
  it in any state where the slot's constraint is no longer the gate's changes nothing.\<close>
theorem restart_gate_is_exclusive:
  assumes out: "begin_runtime_restart_inner sid allow_queued st = (Inr gate, calls, st')"
  shows "\<exists>sl. slot_at (ensure_slot sid Role_Teammate st) sid = Some sl \<and> sl_active sl = None
    \<and> (\<not> allow_queued \<longrightarrow> queued_ids sl = [])
    \<and> slot_at st' sid = Some (sl\<lparr>sl_constraint := Constraint_Starting (gate_operation_id gate)\<rparr>)
    \<and> \<not> claimable st' sid \<and> co_intents st' = co_intents st
    \<and> slot_at (snd (abort_runtime_restart sid gate st')) sid = Some sl
    \<and> (\<forall>st2. map_option sl_constraint (slot_at st2 sid) \<noteq> Some (Constraint_Starting (gate_operation_id gate))
         \<longrightarrow> abort_runtime_restart sid gate st2 = ([], st2))"
proof -
  define st0 where "st0 = ensure_slot sid Role_Teammate st"
  obtain sl where sl: "slot_at st0 sid = Some sl" by (simp add: st0_def)
  have idle: "sl_active sl = None" "\<not> allow_queued \<longrightarrow> queued_ids sl = []"
    using out sl by (auto simp: begin_runtime_restart_inner_def simp flip: st0_def split: if_splits)
  have admitted: "gate_previous_constraint gate = sl_constraint sl
      \<and> st' = on_slot sid (\<lambda>sl. sl\<lparr>sl_constraint := Constraint_Starting (gate_operation_id gate)\<rparr>)
          (st0\<lparr>co_next_operation := gate_operation_id gate\<rparr>)"
    using out sl idle
    by (auto simp: begin_runtime_restart_inner_def Let_def simp flip: st0_def
        split: runtime_constraint.splits if_splits)
  have slot': "slot_at st' sid = Some (sl\<lparr>sl_constraint := Constraint_Starting (gate_operation_id gate)\<rparr>)"
    using admitted sl by simp
  have "\<not> claimable st' sid" using slot' by (simp add: claimable_def)
  moreover have "co_intents st' = co_intents st" using admitted by (simp add: st0_def)
  moreover have "slot_at (snd (abort_runtime_restart sid gate st')) sid = Some sl"
    using sl admitted by (simp add: abort_runtime_restart_def Let_def)
  moreover have "abort_runtime_restart sid gate st2 = ([], st2)"
    if "map_option sl_constraint (slot_at st2 sid) \<noteq> Some (Constraint_Starting (gate_operation_id gate))" for st2
    using that by (auto simp: abort_runtime_restart_def split: option.split)
  ultimately show ?thesis using sl idle slot' unfolding st0_def by blast
qed

lemma restart_gate_is_exclusive_witness:
  "\<exists>gate calls st'. begin_runtime_restart_inner ''a'' True (demo_state demo_queue) = (Inr gate, calls, st')
     \<and> claimable (demo_state demo_queue) ''a'' \<and> \<not> claimable st' ''a''"
proof -
  let ?out = "begin_runtime_restart_inner ''a'' True (demo_state demo_queue)"
  have "(case fst ?out of Inr _ \<Rightarrow> True | Inl _ \<Rightarrow> False)" by code_simp
  then obtain gate where "fst ?out = Inr gate" by (cases "fst ?out") auto
  then have out: "?out = (Inr gate, fst (snd ?out), snd (snd ?out))" by (metis prod.collapse)
  have "claimable (demo_state demo_queue) ''a''" by code_simp
  with out restart_gate_is_exclusive [OF out] show ?thesis by blast
qed


section \<open>The end of the session\<close>

text \<open>Stopping the session ends everything at once. Afterwards every intent is finished (an
  unfinished one is cancelled, a finished one keeps its state), no enqueue is pending, every slot is
  stopped with no batch and empty lanes, nothing is claimable, no run's summary is open, and
  every enqueue for a slot the session had is refused.\<close>
theorem stop_ends_everything:
  assumes reach: "work_reach port g p0 H st p" and out: "stop_coordinator st = (summaries, calls, st')"
  shows "(\<forall>iid. intent_at st' iid = map_option (\<lambda>i. if intent_is_terminal (wi_state i) then i
        else i\<lparr>wi_state := Intent_Cancelled ''session_stopped''\<rparr>) (intent_at st iid))
    \<and> co_leases st' = [] \<and> map su_run summaries = all_run_ids st \<and> (\<forall>rid. \<not> is_open_summary (run_summary st' rid))
    \<and> (\<forall>sid sl. slot_at st' sid = Some sl \<longrightarrow> sl_active sl = None \<and> queued_ids sl = []
         \<and> sl_constraint sl = Constraint_SessionStopped)
    \<and> (\<forall>sid. \<not> claimable st' sid)
    \<and> (\<forall>rq lid p. slot_at st (rq_slot rq) \<noteq> None \<longrightarrow> (\<exists>e. fst (acquire_enqueue port g rq lid (st', p)) = Inl e))"
proof -
  have sound': "sound g H st'" using sound_stop [OF reach_sound [OF reach]] out by simp
  have st': "st' = snd (snd (stop_coordinator st))" "summaries = fst (stop_coordinator st)" using out by simp_all
  have intents: "intent_at st' iid = map_option (\<lambda>i. if intent_is_terminal (wi_state i) then i
      else i\<lparr>wi_state := Intent_Cancelled ''session_stopped''\<rparr>) (intent_at st iid)" for iid
    unfolding st' by (simp add: stop_coordinator_def Let_def map_of_map_values)
  have slots: "slot_at st' sid = map_option (\<lambda>sl. (clear_work sl)\<lparr>sl_constraint := Constraint_SessionStopped\<rparr>)
      (slot_at st sid)" for sid
    unfolding st' by (simp add: stop_coordinator_def Let_def map_of_map_values)
  have leases: "co_leases st' = []" unfolding st' by (simp add: stop_coordinator_def Let_def)
  have ended: "intent_is_terminal (wi_state i)" if "intent_at st' iid = Some i" for iid i
  proof -
    from that obtain j where "i = (if intent_is_terminal (wi_state j) then j
        else j\<lparr>wi_state := Intent_Cancelled ''session_stopped''\<rparr>)"
      unfolding intents by auto
    then show ?thesis by (cases "intent_is_terminal (wi_state j)") simp_all
  qed
  have "\<not> is_open_summary (run_summary st' rid)" for rid
    unfolding summary_open_sound [OF sound'] using ended leases by auto
  moreover have "map su_run summaries = all_run_ids st"
    unfolding st' by (simp add: stop_coordinator_def Let_def run_summary_def comp_def)
  moreover have "sl_active sl = None \<and> queued_ids sl = [] \<and> sl_constraint sl = Constraint_SessionStopped"
    if "slot_at st' sid = Some sl" for sid sl
    using that unfolding slots by (auto simp: queued_ids_def clear_work_def)
  moreover from this have "\<not> claimable st' sid" for sid
    unfolding claimable_def by (auto split: option.split)
  moreover have "\<exists>e. fst (acquire_enqueue port g rq lid (st', p)) = Inl e" if "slot_at st (rq_slot rq) \<noteq> None" for rq lid p
    using that by (auto simp: acquire_enqueue_def Let_def slots validate_enqueue_constraint_def)
  ultimately show ?thesis using intents leases by blast
qed

lemma stop_ends_everything_witness:
  "is_open_summary (run_summary bound_state ''r'')
   \<and> \<not> is_open_summary (run_summary (snd (snd (stop_coordinator bound_state))) ''r'')
   \<and> map su_run (fst (stop_coordinator bound_state)) = [''r'']"
proof -
  let ?out = "stop_coordinator bound_state"
  have out: "?out = (fst ?out, fst (snd ?out), snd (snd ?out))" by simp
  have "is_open_summary (run_summary bound_state ''r'')" "all_run_ids bound_state = [''r'']" by code_simp+
  with stop_ends_everything [OF bound_reach [of bound_calls, folded bound_state_def] out]
  show ?thesis by simp
qed

section \<open>Removing a slot\<close>

text \<open>Removing a slot ends its work and nobody else's. Every unfinished intent of the slot is
  cancelled and every other intent is untouched; the slot is marked removed, empty and idle, all
  other slots are as before; and enqueueing for it is refused from then on.\<close>
theorem remove_slot_ends_its_work:
  assumes reach: "work_reach port g p0 H st p" and out: "remove_slot sid st = Some (res, calls, st')"
  shows "(\<forall>iid. intent_at st' iid = map_option (\<lambda>i. if wi_slot i = sid \<and> \<not> intent_is_terminal (wi_state i)
        then i\<lparr>wi_state := Intent_Cancelled ''slot_removed''\<rparr> else i) (intent_at st iid))
    \<and> (\<forall>k. k \<noteq> sid \<longrightarrow> slot_at st' k = slot_at st k)
    \<and> (\<forall>sl. slot_at st' sid = Some sl \<longrightarrow> sl_removed sl \<and> sl_active sl = None \<and> queued_ids sl = [])
    \<and> (slot_at st sid \<noteq> None \<longrightarrow> rq_slot rq = sid
         \<longrightarrow> fst (acquire_enqueue port g rq lid (st', p)) = Inl (TeamError_InvalidRequest (''Team slot was removed: '' @ sid)))"
proof -
  note sound = reach_sound [OF reach]
  define ids where "ids = removal_order st sid"
  have st': "st' = on_slot sid (\<lambda>sl. (clear_work sl)\<lparr>sl_removed := True\<rparr>)
      (set_states (Intent_Cancelled ''slot_removed'') ids st)"
    using out by (auto simp: remove_slot_def Let_def ids_def split: if_splits)
  have "intent_at st' iid = map_option (\<lambda>i. if wi_slot i = sid \<and> \<not> intent_is_terminal (wi_state i)
      then i\<lparr>wi_state := Intent_Cancelled ''slot_removed''\<rparr> else i) (intent_at st iid)" for iid
    using removal_ids [OF sound, of iid sid]
    by (cases "intent_at st iid") (auto simp: st' simp flip: ids_def)
  moreover have "slot_at st' k = slot_at st k" if "k \<noteq> sid" for k using that by (simp add: st')
  moreover have "sl_removed sl \<and> sl_active sl = None \<and> queued_ids sl = []" if "slot_at st' sid = Some sl" for sl
    using that by (auto simp: st' queued_ids_def clear_work_def)
  moreover have "fst (acquire_enqueue port g rq lid (st', p)) = Inl (TeamError_InvalidRequest (''Team slot was removed: '' @ sid))"
    if "slot_at st sid \<noteq> None" "rq_slot rq = sid"
    using that by (auto simp: acquire_enqueue_def Let_def st' validate_enqueue_constraint_def)
  ultimately show ?thesis by blast
qed

lemma remove_slot_ends_its_work_witness:
  "\<exists>res calls st'. remove_slot ''a'' bound_state = Some (res, calls, st')
     \<and> map_option wi_state (intent_at st' ''im'') = Some (Intent_Cancelled ''slot_removed'')
     \<and> rw_messages res = [''m'', ''n'', ''o'']"
proof -
  have "(case remove_slot ''a'' bound_state of Some (res, _) \<Rightarrow> rw_messages res = [''m'', ''n'', ''o'']
     | None \<Rightarrow> False)" by code_simp
  then obtain res calls st' where out: "remove_slot ''a'' bound_state = Some (res, calls, st')"
    and ms: "rw_messages res = [''m'', ''n'', ''o'']"
    by (auto split: option.splits)
  have "map_option (\<lambda>i. (wi_slot i, intent_is_terminal (wi_state i))) (intent_at bound_state ''im'') =
      Some (''a'', False)" by code_simp
  then have "map_option wi_state (intent_at st' ''im'') = Some (Intent_Cancelled ''slot_removed'')"
    using remove_slot_ends_its_work [OF bound_reach [of bound_calls, folded bound_state_def] out] by auto
  with out ms show ?thesis by blast
qed


section \<open>A failed runtime\<close>

text \<open>A failed runtime fails its runs' work and keeps the rest. When a slot's runtime fails, its
  unfinished intents that belong to a run fail with the given classification, those outside every run
  wait again, in the lane of their priority, and nothing else changes; the slot is idle and blocked.\<close>
theorem failed_runtime_splits_work:
  assumes reach: "work_reach port g p0 H st p"
    and out: "set_runtime_constraint sid (Constraint_Failed op reason) st = Some (res, calls, st')"
  shows "(\<forall>iid. intent_at st' iid = map_option (\<lambda>i. if wi_slot i = sid \<and> \<not> intent_is_terminal (wi_state i)
        then i\<lparr>wi_state := if wi_run i = None then Intent_Queued else Intent_Failed reason\<rparr> else i) (intent_at st iid))
    \<and> (\<exists>sl. slot_at st' sid = Some sl \<and> sl_active sl = None \<and> sl_constraint sl = Constraint_Failed op reason
         \<and> (\<forall>q iid. iid \<in> set (slot_queue sl q) \<longleftrightarrow> (\<exists>i. intent_at st iid = Some i \<and> wi_slot i = sid
              \<and> wi_run i = None \<and> wi_priority i = q \<and> \<not> intent_is_terminal (wi_state i))))
    \<and> \<not> claimable st' sid"
proof -
  note sound = reach_sound [OF reach]
  let ?c = "Constraint_Failed op reason"
  define st1 where "st1 = on_slot sid (\<lambda>sl. sl\<lparr>sl_constraint := ?c\<rparr>) (ensure_slot sid Role_Teammate st)"
  have sound1: "sound g H st1" unfolding st1_def by (intro sound_on_slot sound_ensure sound) simp_all
  have same: "intent_at st1 k = intent_at st k" for k by (simp add: st1_def)
  have c: "constrained_state ?c i = (if wi_run i = None then Intent_Queued else Intent_Failed reason)" for i
    by (simp add: constrained_state_def)
  define ids where "ids = map wi_id (open_in st1 sid)"
  define req where "req = filter (\<lambda>i. constrained_state ?c i = Intent_Queued) (open_in st1 sid)"
  have st': "st' = on_slot sid (\<lambda>sl. fold push_back req (clear_work sl)) (fold (constrain_intent ?c) ids st1)"
    using out by (auto simp: set_runtime_constraint_def Let_def open_in_def st1_def ids_def req_def ends_work_def
        split: if_splits bind_splits)
  have "distinct ids" unfolding ids_def open_in_def by (rule distinct_filtered_ids [OF sound1])
  then have intents: "intent_at st' iid = map_option (\<lambda>i. if wi_slot i = sid \<and> \<not> intent_is_terminal (wi_state i)
      then i\<lparr>wi_state := if wi_run i = None then Intent_Queued else Intent_Failed reason\<rparr> else i) (intent_at st iid)" for iid
    using open_in_iff [OF sound1, of iid sid]
    by (cases "intent_at st iid") (auto simp: st' intent_at_constrain_fold same c simp flip: ids_def)
  obtain sl1 where "slot_at st1 sid = Some sl1" "sl_constraint sl1 = ?c" by (simp add: st1_def)
  then have sl: "slot_at st' sid = Some (fold push_back req (clear_work sl1))" by (simp add: st')
  have constraint: "sl_constraint (fold push_back req (clear_work sl1)) = ?c"
  proof -
    have "sl_constraint (fold push_back is x) = sl_constraint x" for "is" x
      by (induction "is" arbitrary: x) (simp_all add: push_back_def)
    then show ?thesis using \<open>sl_constraint sl1 = ?c\<close> by simp
  qed
  have lanes: "iid \<in> set (slot_queue (fold push_back req (clear_work sl1)) q) \<longleftrightarrow> (\<exists>i. intent_at st iid = Some i
      \<and> wi_slot i = sid \<and> wi_run i = None \<and> wi_priority i = q \<and> \<not> intent_is_terminal (wi_state i))" for q iid
  proof -
    let ?P = "\<lambda>i. wi_slot i = sid \<and> wi_run i = None \<and> wi_priority i = q \<and> \<not> intent_is_terminal (wi_state i)"
    have "filter (\<lambda>i. wi_priority i = q) req = filter ?P (intent_list st1)"
      unfolding req_def open_in_def filter_filter c by (rule filter_cong) auto
    then show ?thesis
      using filtered_ids [OF sound1, of iid ?P] by (simp add: slot_queue_push_back_fold same)
  qed
  have "\<not> claimable st' sid" using sl constraint by (simp add: claimable_def)
  with intents sl constraint lanes show ?thesis
    by (intro conjI allI exI [of _ "fold push_back req (clear_work sl1)"]) (simp_all add: slot_queue_push_back_fold(2))
qed

text \<open>\<open>set_runtime_constraint\<close> puts them back in the order in which the map of intents is iterated:
  two states with the same intents, slots and leases end with different lanes.\<close>

definition demo_waiting :: coordinator_state where
  "demo_waiting = demo_state (demo_enqueue Source_UserMessage ''m'' @ demo_enqueue Source_UserMessage ''n'')"

lemma failed_runtime_splits_work_witness:
  "\<exists>res calls st'. set_runtime_constraint ''a'' (Constraint_Failed 1 ''crash'') bound_state = Some (res, calls, st')
     \<and> map_option wi_state (intent_at bound_state ''in'') = Some (Intent_Starting ''b'' 1)
     \<and> map_option wi_state (intent_at st' ''in'') = Some Intent_Queued
     \<and> map_option wi_state (intent_at st' ''im'') = Some (Intent_Failed ''crash'')"
proof -
  have "set_runtime_constraint ''a'' (Constraint_Failed 1 ''crash'') bound_state \<noteq> None" by code_simp
  then obtain res calls st' where
    out: "set_runtime_constraint ''a'' (Constraint_Failed 1 ''crash'') bound_state = Some (res, calls, st')"
    by (metis not_None_eq prod.collapse)
  have "map_option (\<lambda>i. (wi_slot i, wi_run i, wi_state i)) (intent_at bound_state ''in'') =
      Some (''a'', None, Intent_Starting ''b'' 1)"
    "map_option (\<lambda>i. (wi_slot i, wi_run i, wi_state i)) (intent_at bound_state ''im'') =
      Some (''a'', Some ''r'', Intent_Starting ''b'' 1)" by code_simp+
  then obtain i j where i: "intent_at bound_state ''in'' = Some i" "wi_slot i = ''a''" "wi_run i = None"
      "wi_state i = Intent_Starting ''b'' 1"
    and j: "intent_at bound_state ''im'' = Some j" "wi_slot j = ''a''" "wi_run j = Some ''r''"
      "wi_state j = Intent_Starting ''b'' 1"
    by auto
  note failed = failed_runtime_splits_work [OF bound_reach [of bound_calls, folded bound_state_def] out,
      THEN conjunct1, rule_format]
  have "map_option wi_state (intent_at st' ''in'') = Some Intent_Queued" using i by (simp add: failed)
  moreover have "map_option wi_state (intent_at st' ''im'') = Some (Intent_Failed ''crash'')"
    using j by (simp add: failed)
  ultimately show ?thesis using out i by simp
qed

lemma failed_runtime_requeue_order:
  "co_slots (demo_waiting\<lparr>co_intents := rev (co_intents demo_waiting)\<rparr>) = co_slots demo_waiting
   \<and> map_of (rev (co_intents demo_waiting)) = map_of (co_intents demo_waiting)
   \<and> map_option (\<lambda>(_, _, st). map_option sl_foreground (slot_at st ''a''))
       (set_runtime_constraint ''a'' (Constraint_Failed 1 ''x'') demo_waiting) = Some (Some [''im'', ''in''])
   \<and> map_option (\<lambda>(_, _, st). map_option sl_foreground (slot_at st ''a''))
       (set_runtime_constraint ''a'' (Constraint_Failed 1 ''x'')
          (demo_waiting\<lparr>co_intents := rev (co_intents demo_waiting)\<rparr>)) = Some (Some [''in'', ''im''])"
proof -
  have "distinct (keys (co_intents demo_waiting))" by code_simp
  then have "map_of (rev (co_intents demo_waiting)) = map_of (co_intents demo_waiting)"
    by (intro map_of_inject_set [THEN iffD2]) (simp_all flip: rev_map)
  moreover have "map_option (\<lambda>(_, _, st). map_option sl_foreground (slot_at st ''a''))
       (set_runtime_constraint ''a'' (Constraint_Failed 1 ''x'') demo_waiting) = Some (Some [''im'', ''in''])"
    by code_simp
  moreover have "map_option (\<lambda>(_, _, st). map_option sl_foreground (slot_at st ''a''))
       (set_runtime_constraint ''a'' (Constraint_Failed 1 ''x'')
          (demo_waiting\<lparr>co_intents := rev (co_intents demo_waiting)\<rparr>)) = Some (Some [''in'', ''im''])"
    by code_simp
  ultimately show ?thesis by simp
qed

section \<open>Reconciling with the mailbox\<close>

lemma recover_message_intents:
  assumes "intent_at st (mk m) = None \<or> already_owned st sid m" "intent_at st k = Some i"
  shows "intent_at (fst (recover_message g sid role mk now m (st, created))) k = Some i"
  using assms by (auto simp: recover_message_def)

lemma ex_updated:
  assumes "f k = None"
  shows "(\<exists>x i. (if x = k then Some y else f x) = Some i \<and> P i) \<longleftrightarrow> P y \<or> (\<exists>x i. f x = Some i \<and> P i)"
proof
  assume "P y \<or> (\<exists>x i. f x = Some i \<and> P i)"
  then show "\<exists>x i. (if x = k then Some y else f x) = Some i \<and> P i"
  proof
    assume "\<exists>x i. f x = Some i \<and> P i"
    then obtain x i where "f x = Some i" "P i" by blast
    with assms show ?thesis by (intro exI [of _ x] exI [of _ i]) auto
  qed (auto intro: exI [of _ k])
qed (auto split: if_splits)

lemma recover_message_owned:
  fixes role now created
  assumes "recover_ok g H sid mk (m # ms) st" "inj_on mk (set (m # ms))"
  defines "st1 \<equiv> fst (recover_message g sid role mk now m (st, created))"
  shows "already_owned st1 sid m' \<longleftrightarrow> already_owned st sid m' \<or> m' = m"
proof (cases "already_owned st sid m")
  case True
  then show ?thesis by (auto simp: st1_def recover_message_def)
next
  case False
  have sound: "sound g H st" "sound g H st1"
    using assms(1) recover_step [OF assms(1,2), of role now created] by (auto simp: recover_ok_def st1_def)
  have fresh: "intent_at st (mk m) = None" using assms(1) False by (auto simp: recover_ok_def)
  have at: "intent_at st1 k = (if k = mk m then Some
      \<lparr>wi_id = mk m, wi_generation = g, wi_slot = sid, wi_role = role,
       wi_source = Source_RecoveryDrain, wi_priority = Priority_Background, wi_message = Some m,
       wi_run = None, wi_created = now m, wi_state = Intent_Queued\<rparr> else intent_at st k)" for k
    using False by (simp add: st1_def recover_message_def)
  show ?thesis
    unfolding already_owned_iff [OF sound(1)] already_owned_iff [OF sound(2)] at
    using ex_updated [of "intent_at st" "mk m" _ "\<lambda>i. wi_slot i = sid \<and> wi_message i = Some m'
      \<and> \<not> intent_is_terminal (wi_state i)", OF fresh] by auto
qed

lemma recover_all:
  fixes role now
  assumes "recover_ok g H sid mk ms st" "inj_on mk (set ms)"
  defines "out \<equiv> \<lambda>created. fold (recover_message g sid role mk now) ms (st, created)"
  shows "(\<forall>m. already_owned (fst (out created)) sid m \<longleftrightarrow> already_owned st sid m \<or> m \<in> set ms)
    \<and> (\<forall>k i. intent_at st k = Some i \<longrightarrow> intent_at (fst (out created)) k = Some i)
    \<and> set (snd (out created)) = set created \<union> mk ` {m \<in> set ms. \<not> already_owned st sid m}"
  using assms(1,2) unfolding out_def
proof (induction ms arbitrary: st created)
  case (Cons m ms)
  obtain st1 c1 where step: "recover_message g sid role mk now m (st, created) = (st1, c1)" by fastforce
  have owned: "already_owned st1 sid m' \<longleftrightarrow> already_owned st sid m' \<or> m' = m" for m'
    using recover_message_owned [OF Cons.prems, of role now created m'] by (simp add: step)
  have kept: "intent_at st1 k = Some i" if "intent_at st k = Some i" for k i
    using recover_message_intents [of st mk m sid k i g role now created] that Cons.prems(1)
    by (simp add: step recover_ok_def)
  have c1: "set c1 = set created \<union> (if already_owned st sid m then {} else {mk m})"
    using step by (auto simp: recover_message_def split: if_splits)
  have "recover_ok g H sid mk ms st1" "inj_on mk (set ms)"
    using recover_step [OF Cons.prems, of role now created] Cons.prems(2) by (simp_all add: step)
  note IH = Cons.IH [OF this, of c1]
  have "set c1 \<union> mk ` {m \<in> set ms. \<not> already_owned st1 sid m} =
      set created \<union> mk ` {m' \<in> set (m # ms). \<not> already_owned st sid m'}"
    unfolding c1 by (auto simp: owned)
  with IH kept owned show ?case by (auto simp: step)
qed simp

text \<open>The intents one reconciliation closes.\<close>

definition stale_queued :: "string \<Rightarrow> string list \<Rightarrow> team_role \<Rightarrow> string set \<Rightarrow> coordinator_state \<Rightarrow> string list" where
  "stale_queued sid unread role cands st =
    (let st1 = reconcile_start sid unread role st
     in filter (stale_signal st1 unread cands) (reconcile_queued sid st1))"

lemma stale_queued_intents:
  assumes sound: "sound g H st" and iid: "iid \<in> set (stale_queued sid unread role cands st)"
  shows "iid \<in> cands \<and> (\<exists>i m. intent_at st iid = Some i \<and> wi_state i = Intent_Queued
    \<and> wi_slot i = sid \<and> wi_message i = Some m \<and> m \<notin> set unread)"
proof -
  define st1 where "st1 = reconcile_start sid unread role st"
  have sound1: "sound g H st1" unfolding st1_def by (rule sound_reconcile_start [OF sound])
  have same: "intent_at st1 k = intent_at st k" for k by (simp add: st1_def reconcile_start_def)
  obtain sl where sl: "slot_at st1 sid = Some sl" by (simp add: st1_def reconcile_start_def)
  have stale: "stale_signal st1 unread cands iid" "iid \<in> set (queued_ids sl)"
    using iid sl by (auto simp: stale_queued_def Let_def reconcile_queued_def simp flip: st1_def)
  then obtain p where "iid \<in> set (slot_queue sl p)" by (auto simp: set_queued_ids)
  from queue_intents [OF soundD(5) [OF sound1 sl] this] stale(1) show ?thesis
    by (auto simp: same stale_signal_def split: option.splits)
qed

text \<open>Reconciling gives every unread message an owner and takes nothing else away: afterwards each
  unread message of the slot belongs to some unfinished intent of it. New recovery intents are
  created for exactly the unread messages nobody owned; the intents closed are queued candidates
  whose message is no longer unread; every other intent is untouched.\<close>
theorem reconcile_restores_ownership:
  assumes reach: "work_reach port g p0 H st p"
    and ok: "call_ok H st (Call_Reconcile sid unread role cands mk now)"
    and out: "reconcile_mailbox_snapshot g sid unread role cands mk now st = (proj, st')"
  shows "(\<forall>m \<in> set unread. already_owned st' sid m)
    \<and> set (rp_created proj) = mk ` {m \<in> set unread. \<not> already_owned st sid m}
    \<and> (\<forall>iid \<in> set (rp_cleared proj). iid \<in> cands \<and> (\<exists>i m. intent_at st iid = Some i \<and> wi_state i = Intent_Queued
         \<and> wi_slot i = sid \<and> wi_message i = Some m \<and> m \<notin> set unread
         \<and> intent_at st' iid = Some (i\<lparr>wi_state := Intent_Completed\<rparr>)))
    \<and> (\<forall>iid i. intent_at st iid = Some i \<longrightarrow> iid \<notin> set (rp_cleared proj) \<longrightarrow> intent_at st' iid = Some i)"
proof -
  note sound = reach_sound [OF reach]
  define st2 where "st2 = reconcile_cleared sid unread cands (reconcile_start sid unread role st)"
  define cleared where "cleared = stale_queued sid unread role cands st"
  have fresh: "inj_on mk (set unread)" "\<And>m. m \<in> set unread \<Longrightarrow> intent_at st (mk m) = None"
    using ok by (auto simp: call_ok_defs)
  have ok2: "recover_ok g H sid mk unread st2"
    unfolding st2_def by (rule reconcile_recover_ok [OF sound fresh(2)])
  note all = recover_all [OF ok2 fresh(1), of role now "[]"]
  have at2: "intent_at st2 k = intent_at (set_states Intent_Completed cleared st) k" for k
    by (simp add: st2_def cleared_def stale_queued_def reconcile_cleared_def reconcile_start_def Let_def)
  have proj: "rp_cleared proj = cleared" and st': "fst (fold (recover_message g sid role mk now) unread (st2, [])) = st'"
    "snd (fold (recover_message g sid role mk now) unread (st2, [])) = rp_created proj"
    using out by (auto simp: reconcile_mailbox_snapshot_def Let_def case_prod_beta st2_def cleared_def
        stale_queued_def reconcile_cleared_def reconcile_start_def reconcile_queued_def)
  note stale = stale_queued_intents [OF sound, of _ sid unread role cands, folded cleared_def]
  have owned2: "already_owned st2 sid m \<longleftrightarrow> already_owned st sid m" if "m \<in> set unread" for m
  proof -
    have "sound g H st2" using ok2 by (simp add: recover_ok_def)
    note iff = already_owned_iff [OF this] already_owned_iff [OF sound]
    have "(intent_at (set_states Intent_Completed cleared st) iid = Some i \<and> wi_slot i = sid
          \<and> wi_message i = Some m \<and> \<not> intent_is_terminal (wi_state i)) \<longleftrightarrow>
        (intent_at st iid = Some i \<and> wi_slot i = sid
          \<and> wi_message i = Some m \<and> \<not> intent_is_terminal (wi_state i))" for iid i
      using stale [of iid] that by (cases "iid \<in> set cleared") auto
    then show ?thesis unfolding iff at2 by simp
  qed
  have kept: "intent_at st' iid = Some i" if "intent_at st2 iid = Some i" for iid i
    using all that by (simp add: st')
  have 1: "\<forall>m \<in> set unread. already_owned st' sid m" using all by (simp add: st')
  have 2: "set (rp_created proj) = mk ` {m \<in> set unread. \<not> already_owned st sid m}"
    using all owned2 by (auto simp: st')
  have 3: "iid \<in> cands \<and> (\<exists>i m. intent_at st iid = Some i \<and> wi_state i = Intent_Queued
         \<and> wi_slot i = sid \<and> wi_message i = Some m \<and> m \<notin> set unread
         \<and> intent_at st' iid = Some (i\<lparr>wi_state := Intent_Completed\<rparr>))" if "iid \<in> set cleared" for iid
    using stale [OF that] kept [of iid] that by (auto simp: at2)
  have 4: "intent_at st' iid = Some i" if "intent_at st iid = Some i" "iid \<notin> set cleared" for iid i
    using kept [of iid i] that by (simp add: at2)
  from 1 2 3 4 show ?thesis unfolding proj by blast
qed

text \<open>Message \<open>m\<close> was read elsewhere, \<open>n\<close> is still queued, \<open>o\<close> was never enqueued.\<close>

end
