(* ===== verification/Team_Run.thy ===== *)
theory Team_Run
  imports Work_Boundary
begin

text \<open>
  The run manager, \<open>team_run/manager.rs\<close> of \<open>crates/aionui-team\<close>: the record of the team's current
  run, kept from the summaries the work coordinator applies, and the events broadcast about it. It is
  the coordinator's \<open>RunCausalityPort\<close>. Broadcasts are appended to \<open>rm_events\<close>; \<open>generate_id()\<close> and
  \<open>now_ms()\<close> are read from a \<open>team_env\<close> (the n-th id generated, the time of the n-th operation: the
  clock reads of one operation give one value). \<open>TeamRunTargetRole\<close> is \<^typ>\<open>team_role\<close>.
\<close>

section \<open>Data\<close>

datatype run_status =
  Run_Accepted | Run_Running | Run_Cancelling | Run_Completed | Run_Cancelled | Run_Failed

datatype run_source = RunSource_UserMessage | RunSource_SystemLifecycle

record team_run_record =
  tr_id :: string
  tr_source :: run_source
  tr_intervened :: bool
  tr_slot :: string
  tr_role :: team_role
  tr_status :: run_status
  tr_started :: "timestamp_ms option"
  tr_completed :: "timestamp_ms option"
  tr_reason :: "string option"
  tr_summary :: "run_work_summary option"
  tr_announced :: bool

datatype slot_work_state =
  SlotWork_Idle | SlotWork_Queued | SlotWork_Starting | SlotWork_Running | SlotWork_Paused | SlotWork_Blocked

datatype blocked_reason =
  Blocked_RuntimeStarting | Blocked_RuntimeFailed | Blocked_Removing | Blocked_SessionStopped

record slot_payload =
  sp_slot :: string
  sp_role :: team_role
  sp_state :: slot_work_state
  sp_queued_foreground :: nat
  sp_queued_background :: nat
  sp_turn :: "string option"
  sp_turn_started :: "timestamp_ms option"
  sp_turn_elapsed :: "u64 option"
  sp_turn_slow :: "bool option"
  sp_slow_threshold :: "u64 option"
  sp_blocked :: "blocked_reason option"
  sp_run :: "string option"

record run_payload =
  rp_team :: string
  rp_run :: string
  rp_source :: run_source
  rp_intervened :: bool
  rp_slot :: string
  rp_role :: team_role
  rp_status :: run_status
  rp_queued :: nat
  rp_starting :: nat
  rp_running :: nat
  rp_leases :: nat
  rp_slots :: "slot_payload list"

datatype run_event =
  RunEvent_Accepted | RunEvent_Started | RunEvent_Updated | RunEvent_Completed | RunEvent_Cancelled
  | RunEvent_Failed

datatype team_event = Event_Run run_event run_payload | Event_SlotWork string slot_payload

record run_manager =
  rm_team :: string
  rm_run :: "team_run_record option"
  rm_events :: "team_event list"
  rm_ids :: nat
  rm_reads :: nat

record team_env =
  env_id :: "nat \<Rightarrow> string"
  env_now :: "nat \<Rightarrow> timestamp_ms"

definition new_manager :: "string \<Rightarrow> run_manager" where
  "new_manager team = \<lparr>rm_team = team, rm_run = None, rm_events = [], rm_ids = 0, rm_reads = 0\<rparr>"

fun is_active_status :: "run_status \<Rightarrow> bool" where
  "is_active_status Run_Accepted = True"
| "is_active_status Run_Running = True"
| "is_active_status Run_Cancelling = True"
| "is_active_status _ = False"

abbreviation run_is_active :: "team_run_record \<Rightarrow> bool" where
  "run_is_active run \<equiv> is_active_status (tr_status run)"

definition active_run :: "run_manager \<Rightarrow> team_run_record option" where
  "active_run p = (case rm_run p of
      Some run \<Rightarrow> if run_is_active run then Some run else None | None \<Rightarrow> None)"

definition current_active_run_id :: "run_manager \<Rightarrow> string option" where
  "current_active_run_id p = map_option tr_id (active_run p)"


section \<open>Payloads\<close>

definition active_turn_slow_threshold_ms :: u64 where
  "active_turn_slow_threshold_ms = 10 * 60 * 1000"

text \<open>\<open>now.saturating_sub(started).max(0) as u64\<close> on \<open>i64\<close> times.\<close>

definition elapsed_ms :: "timestamp_ms \<Rightarrow> timestamp_ms \<Rightarrow> u64" where
  "elapsed_ms now started = word_of_int (max 0 (min (2 ^ 63 - 1) (now - started)))"

fun work_state_of :: "slot_phase \<Rightarrow> slot_work_state" where
  "work_state_of SlotPhase_Idle = SlotWork_Idle"
| "work_state_of SlotPhase_Queued = SlotWork_Queued"
| "work_state_of SlotPhase_Starting = SlotWork_Starting"
| "work_state_of SlotPhase_Running = SlotWork_Running"
| "work_state_of SlotPhase_Paused = SlotWork_Paused"
| "work_state_of SlotPhase_Blocked = SlotWork_Blocked"

fun blocked_reason_of :: "runtime_constraint \<Rightarrow> blocked_reason option" where
  "blocked_reason_of Constraint_Ready = None"
| "blocked_reason_of (Constraint_Starting _) = Some Blocked_RuntimeStarting"
| "blocked_reason_of (Constraint_Failed _ _) = Some Blocked_RuntimeFailed"
| "blocked_reason_of (Constraint_Removing _) = Some Blocked_Removing"
| "blocked_reason_of Constraint_SessionStopped = Some Blocked_SessionStopped"

definition slot_payload_of :: "timestamp_ms \<Rightarrow> slot_work_snapshot \<Rightarrow> slot_payload" where
  "slot_payload_of now sn =
    (let elapsed = map_option (elapsed_ms now) (sn_active_started sn)
     in \<lparr>sp_slot = sn_slot sn, sp_role = sn_role sn, sp_state = work_state_of (sn_phase sn),
         sp_queued_foreground = sn_queued_foreground sn, sp_queued_background = sn_queued_background sn,
         sp_turn = sn_active_turn sn, sp_turn_started = sn_active_started sn,
         sp_turn_elapsed = elapsed,
         sp_turn_slow = map_option (\<lambda>ms. active_turn_slow_threshold_ms \<le> ms) elapsed,
         sp_slow_threshold = map_option (\<lambda>_. active_turn_slow_threshold_ms) (sn_active_turn sn),
         sp_blocked = blocked_reason_of (sn_constraint sn), sp_run = sn_run sn\<rparr>)"

definition payload_of :: "string \<Rightarrow> timestamp_ms \<Rightarrow> team_run_record \<Rightarrow> run_work_summary \<Rightarrow> run_payload" where
  "payload_of team now run s =
     \<lparr>rp_team = team, rp_run = tr_id run, rp_source = tr_source run, rp_intervened = tr_intervened run,
      rp_slot = tr_slot run, rp_role = tr_role run, rp_status = tr_status run,
      rp_queued = su_queued s, rp_starting = su_starting s, rp_running = su_running s,
      rp_leases = su_leases s, rp_slots = map (slot_payload_of now) (su_slots s)\<rparr>"

definition empty_summary :: "string \<Rightarrow> run_work_summary" where
  "empty_summary rid = \<lparr>su_run = rid, su_queued = 0, su_starting = 0, su_running = 0, su_leases = 0,
     su_paused = 0, su_failed = 0, su_slots = []\<rparr>"

definition current_payload ::
  "timestamp_ms \<Rightarrow> coordinator_snapshot \<Rightarrow> run_manager \<Rightarrow> run_payload option" where
  "current_payload now snap p = (case rm_run p of
      None \<Rightarrow> None
    | Some run \<Rightarrow>
        (let summary = (case tr_summary run of
             Some s \<Rightarrow> Some s
           | None \<Rightarrow> (case cs_active_run snap of
               Some s \<Rightarrow> if su_run s = tr_id run then Some s else None | None \<Rightarrow> None))
         in Some (payload_of (rm_team p) now run
              (case summary of Some s \<Rightarrow> s | None \<Rightarrow> empty_summary (tr_id run)))))"

definition broadcast :: "team_event list \<Rightarrow> run_manager \<Rightarrow> run_manager" where
  "broadcast es p = p\<lparr>rm_events := rm_events p @ es\<rparr>"

definition tick :: "run_manager \<Rightarrow> run_manager" where
  "tick p = p\<lparr>rm_reads := Suc (rm_reads p)\<rparr>"

definition publish_snapshot_update :: "team_env \<Rightarrow> coordinator_snapshot \<Rightarrow> run_manager \<Rightarrow> run_manager" where
  "publish_snapshot_update env snap p = tick (case current_payload (env_now env (rm_reads p)) snap p of
      Some payload \<Rightarrow>
        if rp_status payload \<in> {Run_Accepted, Run_Running}
        then broadcast [Event_Run RunEvent_Updated payload] p else p
    | None \<Rightarrow> p)"


section \<open>The life of a run\<close>

definition new_run :: "string \<Rightarrow> run_source \<Rightarrow> string \<Rightarrow> team_role \<Rightarrow> team_run_record" where
  "new_run rid source slot role =
     \<lparr>tr_id = rid, tr_source = source, tr_intervened = False, tr_slot = slot, tr_role = role,
      tr_status = Run_Accepted, tr_started = None, tr_completed = None, tr_reason = None,
      tr_summary = None, tr_announced = False\<rparr>"

definition open_run ::
  "team_env \<Rightarrow> run_source \<Rightarrow> string \<Rightarrow> team_role \<Rightarrow> run_manager \<Rightarrow> run_binding \<times> run_manager" where
  "open_run env source slot role p =
    (let rid = env_id env (rm_ids p)
     in (\<lparr>rb_run = Some rid, rb_created = True, rb_intervention = False\<rparr>,
         p\<lparr>rm_run := Some (new_run rid source slot role), rm_ids := Suc (rm_ids p)\<rparr>))"

definition bind_user_enqueue ::
  "team_env \<Rightarrow> string \<Rightarrow> team_role \<Rightarrow> run_manager \<Rightarrow> run_binding \<times> run_manager" where
  "bind_user_enqueue env slot role p = (case active_run p of
      Some run \<Rightarrow> (\<lparr>rb_run = Some (tr_id run), rb_created = False, rb_intervention = True\<rparr>,
                   p\<lparr>rm_run := Some (run\<lparr>tr_intervened := True\<rparr>)\<rparr>)
    | None \<Rightarrow> open_run env RunSource_UserMessage slot role p)"

definition bind_system_enqueue ::
  "team_env \<Rightarrow> string \<Rightarrow> team_role \<Rightarrow> run_manager \<Rightarrow> run_binding \<times> run_manager" where
  "bind_system_enqueue env slot role p = (case active_run p of
      Some run \<Rightarrow> (\<lparr>rb_run = Some (tr_id run), rb_created = False, rb_intervention = False\<rparr>, p)
    | None \<Rightarrow> open_run env RunSource_SystemLifecycle slot role p)"

definition no_work :: "run_work_summary \<Rightarrow> bool" where
  "no_work s \<longleftrightarrow> su_queued s = 0 \<and> su_starting s = 0 \<and> su_running s = 0 \<and> su_leases s = 0 \<and> su_paused s = 0"

text \<open>What a summary makes of the run's record, and the event that announces it.\<close>

definition settle_run :: "timestamp_ms \<Rightarrow> run_work_summary \<Rightarrow> team_run_record \<Rightarrow> team_run_record" where
  "settle_run now s run0 =
    (let run = run0\<lparr>tr_summary := Some s\<rparr>
     in if su_failed s > 0 then run\<lparr>tr_status := Run_Failed, tr_completed := Some now\<rparr>
        else if no_work s then
          run\<lparr>tr_status := (if tr_status run0 = Run_Cancelling then Run_Cancelled else Run_Completed),
              tr_completed := Some now\<rparr>
        else if su_running s > 0 then
          run\<lparr>tr_status := Run_Running,
              tr_started := (case tr_started run of None \<Rightarrow> Some now | Some t \<Rightarrow> Some t)\<rparr>
        else run)"

definition status_event :: "run_status \<Rightarrow> run_status \<Rightarrow> run_event" where
  "status_event previous status =
     (if status = Run_Failed \<and> previous \<noteq> Run_Failed then RunEvent_Failed
      else if status = Run_Cancelled \<and> previous \<noteq> Run_Cancelled then RunEvent_Cancelled
      else if status = Run_Completed \<and> previous \<noteq> Run_Completed then RunEvent_Completed
      else if status = Run_Running \<and> previous \<noteq> Run_Running then RunEvent_Started
      else RunEvent_Updated)"

definition summary_event ::
  "string \<Rightarrow> timestamp_ms \<Rightarrow> run_work_summary \<Rightarrow> team_run_record \<Rightarrow> team_run_record \<Rightarrow> team_event" where
  "summary_event team now s run0 run = Event_Run
     (if \<not> tr_announced run0 then RunEvent_Accepted else status_event (tr_status run0) (tr_status run))
     (payload_of team now run s)"

definition apply_work_summary :: "team_env \<Rightarrow> run_work_summary \<Rightarrow> run_manager \<Rightarrow> run_manager" where
  "apply_work_summary env s p = (case rm_run p of
      None \<Rightarrow> p
    | Some run0 \<Rightarrow>
        if tr_id run0 \<noteq> su_run s then p
        else
          (let run = (settle_run (env_now env (rm_reads p)) s run0)\<lparr>tr_announced := True\<rparr>
           in broadcast [summary_event (rm_team p) (env_now env (rm_reads p)) s run0 run]
                (tick (p\<lparr>rm_run := Some run\<rparr>))))"

definition begin_cancel ::
  "team_env \<Rightarrow> string \<Rightarrow> string option \<Rightarrow> run_manager \<Rightarrow> (team_error + unit) \<times> run_manager" where
  "begin_cancel env rid reason p =
    (case (case active_run p of Some run \<Rightarrow> if tr_id run = rid then Some run else None | None \<Rightarrow> None) of
       None \<Rightarrow> (Inl (TeamError_InvalidRequest (''team run is not active: '' @ rid)), p)
     | Some run0 \<Rightarrow>
        (let run = run0\<lparr>tr_status := Run_Cancelling, tr_reason := reason\<rparr>;
             p1 = p\<lparr>rm_run := Some run\<rparr>
         in (Inr (), case tr_summary run of
               None \<Rightarrow> p1
             | Some s \<Rightarrow> broadcast
                 [Event_Run RunEvent_Updated (payload_of (rm_team p) (env_now env (rm_reads p)) run s)] (tick p1))))"

definition abort_run_binding :: "run_binding \<Rightarrow> run_manager \<Rightarrow> run_manager" where
  "abort_run_binding b p = (case rm_run p of
      Some run \<Rightarrow> if Some (tr_id run) = rb_run b then p\<lparr>rm_run := None\<rparr> else p
    | None \<Rightarrow> p)"


section \<open>The coordinator's port\<close>

definition bind_enqueue :: "team_env \<Rightarrow> enqueue_request \<Rightarrow> run_manager \<Rightarrow> run_binding \<times> run_manager" where
  "bind_enqueue env rq p = (case rq_binding rq of
      Binding_UserVisible \<Rightarrow> bind_user_enqueue env (rq_slot rq) (rq_role rq) p
    | Binding_ActiveRunOrBackground \<Rightarrow>
        (\<lparr>rb_run = current_active_run_id p, rb_created = False, rb_intervention = False\<rparr>, p)
    | Binding_InheritRunningBatch _ \<Rightarrow> (no_binding, p)
    | Binding_Background \<Rightarrow> (no_binding, p)
    | Binding_SystemInitiated _ \<Rightarrow> bind_system_enqueue env (rq_slot rq) (rq_role rq) p)"

definition publish_slot_work :: "team_env \<Rightarrow> slot_work_snapshot \<Rightarrow> run_manager \<Rightarrow> run_manager" where
  "publish_slot_work env sn p =
     tick (broadcast [Event_SlotWork (rm_team p) (slot_payload_of (env_now env (rm_reads p)) sn)] p)"

definition manager_port :: "team_env \<Rightarrow> run_manager run_causality_port" where
  "manager_port env =
     \<lparr>port_bind_enqueue = bind_enqueue env,
      port_bind_system_enqueue = (\<lambda>rq. bind_system_enqueue env (rq_slot rq) (rq_role rq)),
      port_abort_binding = abort_run_binding, port_apply_work_summary = apply_work_summary env,
      port_publish_slot_work = publish_slot_work env\<rparr>"

end
