(* ===== verification/Team_Laws.thy ===== *)
theory Team_Laws
  imports Team_Run
begin

text \<open>
  The coordinator and the run manager together. The locale states what the coordinator's client
  lemmas need of its \<open>RunCausalityPort\<close>; the run manager is shown to be such a port. Then the
  reachable states of the pair: a finished run has no open work, a cancelled run ends cancelled, and
  the events follow the status.
\<close>

section \<open>The port as an interface\<close>

locale run_causality =
  fixes port :: "'p run_causality_port" and active :: "'p \<Rightarrow> string option"
  assumes user_bound: "rq_binding rq = Binding_UserVisible \<Longrightarrow> port_bind_enqueue port rq p = (b, p') \<Longrightarrow>
      \<exists>r. rb_run b = Some r \<and> active p' = Some r"
    and system_bound: "port_bind_system_enqueue port rq p = (b, p') \<Longrightarrow> \<exists>r. rb_run b = Some r \<and> active p' = Some r"
    and active_bound: "rq_binding rq = Binding_ActiveRunOrBackground \<Longrightarrow> port_bind_enqueue port rq p = (b, p') \<Longrightarrow>
      rb_run b = active p \<and> p' = p"
    and quiet_ends: "\<not> is_open_summary s \<Longrightarrow> active (port_apply_work_summary port s p) \<noteq> Some (su_run s)"
    and others_stay: "su_run s \<noteq> r \<Longrightarrow> active (port_apply_work_summary port s p) = Some r \<longleftrightarrow> active p = Some r"
    and slot_silent: "active (port_publish_slot_work port sn p) = active p"
begin

lemma resolved_run:
  assumes "resolve_binding port st rq p = (b, p')"
    and "rq_binding rq \<notin> {Binding_Background, Binding_ActiveRunOrBackground}"
  shows "\<exists>r. rb_run b = Some r \<and> (active p' = Some r \<or>
    (\<exists>caller. inherited_run st caller = Some r \<and> rq_binding rq \<in> {Binding_InheritRunningBatch caller,
       Binding_SystemInitiated (Some caller)}))"
proof -
  have inherit: "\<exists>r. rb_run b = Some r \<and> (active p' = Some r \<or> x = Some r)"
    if "inherit_or_bind port rq x p = (b, p')" for x
    using that system_bound [of rq p b p'] by (auto simp: inherit_or_bind_def split: option.splits)
  show ?thesis
  proof (cases "rq_binding rq")
    case Binding_UserVisible
    then show ?thesis using assms(1) user_bound [of rq p b p'] by (auto simp: resolve_binding_def)
  next
    case (Binding_InheritRunningBatch caller)
    then show ?thesis using assms(1) inherit [of "inherited_run st caller"] by (auto simp: resolve_binding_def)
  next
    case (Binding_SystemInitiated origin)
    then show ?thesis
      using assms(1) inherit [of "Option.bind origin (inherited_run st)"]
      by (cases origin) (auto simp: resolve_binding_def)
  qed (use assms(2) in simp_all)
qed

lemma acquired_lease:
  assumes "acquire_enqueue port g rq lid (st, p) = (Inr le, st', p')"
  obtains b st1 where "resolve_binding port st1 rq p = (b, p')" "le_run le = rb_run b"
    "map_of (co_leases st') lid = Some \<lparr>lr_lease = le, lr_binding = b\<rparr>"
    "\<And>caller. inherited_run st1 caller = inherited_run st caller"
proof -
  let ?st1 = "on_slot (rq_slot rq) (\<lambda>sl. sl\<lparr>sl_role := rq_role rq\<rparr>) (ensure_slot (rq_slot rq) (rq_role rq) st)"
  obtain b p1 where r: "resolve_binding port ?st1 rq p = (b, p1)" by fastforce
  have "inherited_run ?st1 caller = inherited_run st caller" for caller
    by (cases "slot_at st caller") (auto simp: inherited_run_def)
  then show ?thesis
    using that [of ?st1 b] assms r by (auto simp: acquire_enqueue_def Let_def split: option.splits)
qed

lemma visible_work_bound:
  assumes "acquire_enqueue port g rq lid (st, p) = (Inr le, st', p')"
    and "rq_binding rq \<notin> {Binding_Background, Binding_ActiveRunOrBackground}"
  shows "\<exists>r. le_run le = Some r \<and> (active p' = Some r \<or> (\<exists>caller. inherited_run st caller = Some r))"
    and "rq_binding rq = Binding_UserVisible \<Longrightarrow> le_run le = active p'"
proof -
  from acquired_lease [OF assms(1)] obtain b st1 where b: "resolve_binding port st1 rq p = (b, p')"
    "le_run le = rb_run b" "\<And>caller. inherited_run st1 caller = inherited_run st caller"
    by blast
  from resolved_run [OF b(1) assms(2)] b(2,3)
  show "\<exists>r. le_run le = Some r \<and> (active p' = Some r \<or> (\<exists>caller. inherited_run st caller = Some r))"
    by auto
  show "le_run le = active p'" if "rq_binding rq = Binding_UserVisible"
    using resolved_run [OF b(1) assms(2)] b(2) that by auto
qed

text \<open>Reports that a run is quiet end it, whatever else is reported around them.\<close>

lemma quiet_calls_end:
  assumes "\<And>b. Abort_Binding b \<notin> set calls" "\<And>s. Apply_Summary s \<in> set calls \<Longrightarrow> su_run s = r \<Longrightarrow> \<not> is_open_summary s"
    and "active p \<noteq> Some r \<or> (\<exists>s. Apply_Summary s \<in> set calls \<and> su_run s = r)"
  shows "active (make_calls port calls p) \<noteq> Some r"
  using assms unfolding make_calls_def
proof (induction calls arbitrary: p)
  case (Cons c calls)
  have "active (make_call port c p) \<noteq> Some r \<or> (\<exists>s. Apply_Summary s \<in> set calls \<and> su_run s = r)"
  proof (cases c)
    case (Apply_Summary s)
    then show ?thesis
      using Cons.prems quiet_ends [of s p] others_stay [of s r p] by (cases "su_run s = r") auto
  next
    case (Publish_Slot sn)
    then show ?thesis using Cons.prems slot_silent by auto
  next
    case (Abort_Binding b)
    then show ?thesis using Cons.prems(1) [of b] by simp
  qed
  then have "active (fold (make_call port) calls (make_call port c p)) \<noteq> Some r"
    using Cons.prems(1,2) by (intro Cons.IH) auto
  then show ?case by simp
qed simp

lemma stop_ends_run:
  assumes "sound g H st" "r \<in> set (all_run_ids st)"
  shows "active (make_calls port (fst (snd (stop_coordinator st))) p) \<noteq> Some r"
proof -
  let ?st' = "snd (snd (stop_coordinator st))"
  have sound': "sound g H ?st'" by (rule sound_stop [OF assms(1)])
  have calls: "fst (snd (stop_coordinator st)) = map (\<lambda>r. Apply_Summary (run_summary ?st' r)) (all_run_ids st)"
    by (simp add: stop_coordinator_def Let_def publish_def comp_def)
  have run: "su_run (run_summary ?st' r') = r'" for r' by (simp add: run_summary_def Let_def)
  have int: "intent_at ?st' k = map_option (\<lambda>i. if intent_is_terminal (wi_state i) then i
      else i\<lparr>wi_state := Intent_Cancelled ''session_stopped''\<rparr>) (intent_at st k)" for k
    by (simp add: stop_coordinator_def Let_def map_of_map_values)
  have "co_leases ?st' = []" by (simp add: stop_coordinator_def Let_def)
  moreover have "intent_is_terminal (wi_state i)" if "intent_at ?st' k = Some i" for k i
  proof -
    from that obtain j where "i = (if intent_is_terminal (wi_state j) then j
        else j\<lparr>wi_state := Intent_Cancelled ''session_stopped''\<rparr>)"
      unfolding int by auto
    then show ?thesis by (cases "intent_is_terminal (wi_state j)") simp_all
  qed
  ultimately have "\<not> is_open_summary (run_summary ?st' r')" for r'
    unfolding summary_open_sound [OF sound'] by auto
  then show ?thesis
    unfolding calls using assms(2) by (intro quiet_calls_end) (auto simp: run)
qed

end

section \<open>The run manager is such a port\<close>

lemma open_summary_work: "is_open_summary s \<longleftrightarrow> \<not> no_work s"
  by (auto simp: is_open_summary_def no_work_def)

lemma settle_run_id [simp]: "tr_id (settle_run now s run) = tr_id run"
  by (simp add: settle_run_def Let_def)

lemma settle_run_status:
  "tr_status (settle_run now s run) =
     (if su_failed s > 0 then Run_Failed
      else if no_work s then (if tr_status run = Run_Cancelling then Run_Cancelled else Run_Completed)
      else if su_running s > 0 then Run_Running else tr_status run)"
  by (simp add: settle_run_def Let_def)

lemma apply_work_summary_run:
  "rm_run (apply_work_summary env s p) = map_option (\<lambda>run. if tr_id run = su_run s
     then (settle_run (env_now env (rm_reads p)) s run)\<lparr>tr_announced := True\<rparr> else run) (rm_run p)"
  by (simp add: apply_work_summary_def Let_def broadcast_def tick_def split: option.split)

lemma active_run_id_iff:
  "current_active_run_id p = Some r \<longleftrightarrow> (\<exists>run. rm_run p = Some run \<and> tr_id run = r \<and> run_is_active run)"
  by (auto simp: current_active_run_id_def active_run_def split: option.split)

lemma bound_to_active:
  "bind_user_enqueue env slot role p = (b, p') \<Longrightarrow> \<exists>r. rb_run b = Some r \<and> current_active_run_id p' = Some r"
  "bind_system_enqueue env slot role p = (b, p') \<Longrightarrow> \<exists>r. rb_run b = Some r \<and> current_active_run_id p' = Some r"
  by (auto simp: bind_user_enqueue_def bind_system_enqueue_def open_run_def Let_def new_run_def active_run_id_iff
      active_run_def split: option.splits if_splits)

interpretation manager: run_causality "manager_port env" current_active_run_id for env
proof
  show "\<exists>r. rb_run b = Some r \<and> current_active_run_id p' = Some r"
    if "rq_binding rq = Binding_UserVisible" "port_bind_enqueue (manager_port env) rq p = (b, p')" for rq p b p'
    using that bound_to_active(1) by (simp add: manager_port_def bind_enqueue_def)
  show "\<exists>r. rb_run b = Some r \<and> current_active_run_id p' = Some r"
    if "port_bind_system_enqueue (manager_port env) rq p = (b, p')" for rq p b p'
    using that bound_to_active(2) by (simp add: manager_port_def)
  show "rb_run b = current_active_run_id p \<and> p' = p"
    if "rq_binding rq = Binding_ActiveRunOrBackground" "port_bind_enqueue (manager_port env) rq p = (b, p')" for rq p b p'
    using that by (auto simp: manager_port_def bind_enqueue_def)
  show "current_active_run_id (port_apply_work_summary (manager_port env) s p) \<noteq> Some (su_run s)"
    if "\<not> is_open_summary s" for s p
    using that by (auto simp: manager_port_def active_run_id_iff apply_work_summary_run settle_run_status
        open_summary_work split: if_splits)
  show "current_active_run_id (port_apply_work_summary (manager_port env) s p) = Some r \<longleftrightarrow>
      current_active_run_id p = Some r" if "su_run s \<noteq> r" for s r p
    using that
    by (cases "rm_run p") (auto simp: manager_port_def active_run_id_iff apply_work_summary_run split: if_splits)
  show "current_active_run_id (port_publish_slot_work (manager_port env) sn p) = current_active_run_id p" for sn p
    by (simp add: manager_port_def publish_slot_work_def broadcast_def tick_def current_active_run_id_def active_run_def)
qed

text \<open>Work that is visible belongs to a run. An enqueue that is admitted under any binding but the
  background ones gets a lease of a run: the manager's active run, opened if there was none, or the
  run of the batch the caller is working on; for a user's enqueue it is the active run.\<close>
theorem visible_work_has_a_run:
  assumes "acquire_enqueue (manager_port env) g rq lid (st, p) = (Inr le, st', p')"
    and "rq_binding rq \<notin> {Binding_Background, Binding_ActiveRunOrBackground}"
  shows "\<exists>r. le_run le = Some r
    \<and> (current_active_run_id p' = Some r \<or> (\<exists>caller. inherited_run st caller = Some r))
    \<and> (rq_binding rq = Binding_UserVisible \<longrightarrow> current_active_run_id p' = Some r)"
  using manager.visible_work_bound [OF assms] by auto


section \<open>The pair's reachable states\<close>

text \<open>Besides the coordinator's calls, a run may be cancelled (\<open>begin_cancel\<close>) and the monitor for slow
  turns may republish the current run.\<close>

inductive team_reach ::
  "team_env \<Rightarrow> string \<Rightarrow> string \<Rightarrow> work_batch set \<Rightarrow> coordinator_state \<Rightarrow> run_manager \<Rightarrow> bool"
  for env g team where
  team_new: "team_reach env g team {} new_coordinator (new_manager team)"
| team_call: "team_reach env g team H st p \<Longrightarrow> call_ok H st c
    \<Longrightarrow> exec_call (manager_port env) g c (st, p) = Some (st', p')
    \<Longrightarrow> team_reach env g team (H \<union> issued g st c) st' p'"
| team_cancel: "team_reach env g team H st p
    \<Longrightarrow> team_reach env g team H st (snd (begin_cancel env rid reason p))"
| team_monitor: "team_reach env g team H st p
    \<Longrightarrow> team_reach env g team H st (publish_snapshot_update env (coordinator_snapshot g st) p)"

lemma team_sound: "team_reach env g team H st p \<Longrightarrow> sound g H st"
  by (induction rule: team_reach.induct) (auto intro: sound_new sound_exec)

definition has_work :: "coordinator_state \<Rightarrow> string \<Rightarrow> bool" where
  "has_work st r \<longleftrightarrow>
     (\<exists>iid i. intent_at st iid = Some i \<and> wi_run i = Some r \<and> \<not> intent_is_terminal (wi_state i))
     \<or> (\<exists>lid x. map_of (co_leases st) lid = Some x \<and> le_run (lr_lease x) = Some r)"

lemma summary_has_work: "sound g H st \<Longrightarrow> is_open_summary (run_summary st r) \<longleftrightarrow> has_work st r"
  by (simp add: summary_open_sound has_work_def)

text \<open>Only \<open>acquire_enqueue\<close> makes new leases, and a new intent is committed from a lease or, for a
  message found in the mailbox, belongs to no run.\<close>

definition no_new :: "coordinator_state \<Rightarrow> coordinator_state \<Rightarrow> bool" where
  "no_new st st' \<longleftrightarrow>
     (\<forall>k x. map_of (co_leases st') k = Some x \<longrightarrow> map_of (co_leases st) k = Some x)
     \<and> (\<forall>k i. intent_at st' k = Some i \<longrightarrow> intent_at st k = None \<longrightarrow> wi_run i = None
          \<or> (\<exists>l x. map_of (co_leases st) l = Some x \<and> le_run (lr_lease x) = wi_run i))"

lemma no_new_shrink:
  assumes "keys (co_intents st') = keys (co_intents st)"
    and "\<And>k x. map_of (co_leases st') k = Some x \<Longrightarrow> map_of (co_leases st) k = Some x"
  shows "no_new st st'"
proof -
  have none: "intent_at st' k = None" if "intent_at st k = None" for k
    using that arg_cong [OF assms(1), of set] unfolding map_of_eq_None_iff by simp
  have "wi_run i = None \<or> (\<exists>l x. map_of (co_leases st) l = Some x \<and> le_run (lr_lease x) = wi_run i)"
    if "intent_at st' k = Some i" "intent_at st k = None" for k i
    using none [OF that(2)] that(1) by simp
  with assms(2) show ?thesis unfolding no_new_def by blast
qed

lemma no_new_same:
  "keys (co_intents st') = keys (co_intents st) \<Longrightarrow> co_leases st' = co_leases st \<Longrightarrow> no_new st st'"
  by (rule no_new_shrink) simp_all

lemma has_work_no_new:
  assumes "keeps st st'" "no_new st st'" "has_work st' r"
  shows "has_work st r"
  using assms(3) unfolding has_work_def
proof
  assume "\<exists>lid x. map_of (co_leases st') lid = Some x \<and> le_run (lr_lease x) = Some r"
  with assms(2) show "(\<exists>iid i. intent_at st iid = Some i \<and> wi_run i = Some r \<and> \<not> intent_is_terminal (wi_state i))
     \<or> (\<exists>lid x. map_of (co_leases st) lid = Some x \<and> le_run (lr_lease x) = Some r)"
    unfolding no_new_def by blast
next
  assume "\<exists>iid i. intent_at st' iid = Some i \<and> wi_run i = Some r \<and> \<not> intent_is_terminal (wi_state i)"
  then obtain iid i where i: "intent_at st' iid = Some i" "wi_run i = Some r" "\<not> intent_is_terminal (wi_state i)"
    by blast
  show "(\<exists>iid i. intent_at st iid = Some i \<and> wi_run i = Some r \<and> \<not> intent_is_terminal (wi_state i))
     \<or> (\<exists>lid x. map_of (co_leases st) lid = Some x \<and> le_run (lr_lease x) = Some r)"
  proof (cases "intent_at st iid")
    case None
    with assms(2) i(1) have "wi_run i = None \<or> (\<exists>l x. map_of (co_leases st) l = Some x \<and> le_run (lr_lease x) = wi_run i)"
      unfolding no_new_def by blast
    then show ?thesis using i(2) by simp
  next
    case (Some j)
    with assms(1) obtain s where s: "intent_at st' iid = Some (j\<lparr>wi_state := s\<rparr>)"
      "intent_is_terminal (wi_state j) \<longrightarrow> s = wi_state j"
      unfolding keeps_def by blast
    then have "i = j\<lparr>wi_state := s\<rparr>" using i(1) by simp
    with s(2) i(2,3) have "wi_run j = Some r" "\<not> intent_is_terminal (wi_state j)" by auto
    with Some show ?thesis by blast
  qed
qed

lemma complete_frame:
  "keys (co_intents (snd (snd (complete_batch_with_ack g b st)))) = keys (co_intents st)"
  "co_leases (snd (snd (complete_batch_with_ack g b st))) = co_leases st"
  by (simp_all add: complete_batch_with_ack_def Let_def split: option.split)

lemma batch_op_frames:
  "keys (co_intents (snd (snd (mark_started g b t now st)))) = keys (co_intents st)"
  "co_leases (snd (snd (mark_started g b t now st))) = co_leases st"
  "keys (co_intents (snd (snd (retry_start g b st)))) = keys (co_intents st)"
  "co_leases (snd (snd (retry_start g b st))) = co_leases st"
  "keys (co_intents (snd (snd (terminalize_batch g b s d st)))) = keys (co_intents st)"
  "co_leases (snd (snd (terminalize_batch g b s d st))) = co_leases st"
  "keys (co_intents (snd (snd (interrupt_batch g b r m st)))) = keys (co_intents st)"
  "co_leases (snd (snd (interrupt_batch g b r m st))) = co_leases st"
  by (simp_all add: mark_started_def retry_start_def terminalize_batch_def interrupt_batch_def Let_def
      case_prod_beta split: option.split)

lemma other_frames:
  "keys (co_intents (snd (observe_messages sid bid ms st))) = keys (co_intents st)"
  "co_leases (snd (observe_messages sid bid ms st)) = co_leases st"
  "keys (co_intents (snd (snd (discard_queued_except sid m st)))) = keys (co_intents st)"
  "co_leases (snd (snd (discard_queued_except sid m st))) = co_leases st"
  "keys (co_intents (snd (snd (complete_signals sid iids st)))) = keys (co_intents st)"
  "co_leases (snd (snd (complete_signals sid iids st))) = co_leases st"
  "keys (co_intents (snd (snd (begin_runtime_restart_inner sid q st)))) = keys (co_intents st)"
  "co_leases (snd (snd (begin_runtime_restart_inner sid q st))) = co_leases st"
  "keys (co_intents (snd (abort_runtime_restart sid gate st))) = keys (co_intents st)"
  "co_leases (snd (abort_runtime_restart sid gate st)) = co_leases st"
  "keys (co_intents (snd (take_interrupt_metadata bid st))) = keys (co_intents st)"
  "co_leases (snd (take_interrupt_metadata bid st)) = co_leases st"
  by (simp_all add: observe_messages_def discard_queued_except_def complete_signals_def Let_def
      begin_runtime_restart_inner_def abort_runtime_restart_def take_interrupt_metadata_def
      split: option.split runtime_constraint.split)

lemma mcp_frames:
  "co_intents (snd (request_mcp_refresh sid f st)) = co_intents st"
  "co_leases (snd (request_mcp_refresh sid f st)) = co_leases st"
  "co_intents (defer_mcp_refresh sid f st) = co_intents st" "co_leases (defer_mcp_refresh sid f st) = co_leases st"
  "co_intents (snd (claim_pending_mcp_refresh sid st)) = co_intents st"
  "co_leases (snd (claim_pending_mcp_refresh sid st)) = co_leases st"
  "co_intents (complete_mcp_refresh sid f st) = co_intents st" "co_leases (complete_mcp_refresh sid f st) = co_leases st"
  "co_intents (release_mcp_refresh sid f st) = co_intents st" "co_leases (release_mcp_refresh sid f st) = co_leases st"
  "co_intents (settle_mcp_refresh_claim sid f st) = co_intents st"
  "co_leases (settle_mcp_refresh_claim sid f st) = co_leases st"
  by (simp_all add: request_mcp_refresh_def defer_mcp_refresh_def claim_pending_mcp_refresh_def Let_def
      complete_mcp_refresh_def release_mcp_refresh_def settle_mcp_refresh_claim_def split: option.split)

lemma next_frame:
  "keys (co_intents (snd (snd (next_batch g sid bid st)))) = keys (co_intents st)"
  "co_leases (snd (snd (next_batch g sid bid st))) = co_leases st"
  by (simp_all add: next_batch_def claim_batch_def Let_def case_prod_beta split: option.split)

lemma recover_new_intents:
  "intent_at (fst (fold (recover_message g sid role mk now) ms acc)) k = Some i
     \<Longrightarrow> intent_at (fst acc) k = Some i \<or> wi_run i = None"
proof (induction ms arbitrary: acc)
  case (Cons m ms)
  let ?r = "recover_message g sid role mk now m acc"
  have "intent_at (fst ?r) k = Some i \<or> wi_run i = None" using Cons.IH [of ?r] Cons.prems by simp
  then show ?case by (auto simp: recover_message_def case_prod_beta split: if_splits)
qed simp

lemma recover_leases [simp]:
  "co_leases (fst (fold (recover_message g sid role mk now) ms acc)) = co_leases (fst acc)"
  by (induction ms arbitrary: acc) (simp_all add: recover_message_def case_prod_beta)

lemma no_new_reconcile: "no_new st (snd (reconcile_mailbox_snapshot g sid unread role cands mk now st))"
proof -
  define st2 where "st2 = reconcile_cleared sid unread cands (reconcile_start sid unread role st)"
  have st2: "keys (co_intents st2) = keys (co_intents st)" "co_leases st2 = co_leases st"
    by (simp_all add: st2_def reconcile_cleared_def reconcile_start_def Let_def)
  have none: "intent_at st2 k = None" if "intent_at st k = None" for k
    using that arg_cong [OF st2(1), of set] unfolding map_of_eq_None_iff by simp
  let ?st' = "fst (fold (recover_message g sid role mk now) unread (st2, []))"
  have "wi_run i = None" if "intent_at ?st' k = Some i" "intent_at st k = None" for k i
    using recover_new_intents [OF that(1)] none [OF that(2)] by simp
  then show ?thesis unfolding reconcile_unfold no_new_def by (simp add: st2 flip: st2_def)
qed

lemma no_new_commit: "commit_enqueue g le m iid now st = Some out \<Longrightarrow> no_new st (snd (snd out))"
proof -
  assume out: "commit_enqueue g le m iid now st = Some out"
  show ?thesis
  proof (cases "snd (snd out) = st")
    case False
    then obtain x where x: "map_of (co_leases st) (le_id le) = Some x" "lr_lease x = le"
      using out by (auto simp: commit_enqueue_def split: option.splits if_splits)
    have "co_leases (snd (snd out)) = AList.delete (le_id le) (co_leases st)"
      "intent_at (snd (snd out)) k = Some i \<Longrightarrow> intent_at st k = None \<Longrightarrow> wi_run i = le_run le" for k i
      using out False by (auto simp: commit_enqueue_def Let_def split: option.splits if_splits bind_splits)
    with x show ?thesis by (auto simp: no_new_def)
  qed (simp add: no_new_same)
qed

lemma no_new_constraint:
  assumes "set_runtime_constraint sid c st = Some out"
  shows "no_new st (snd (snd out))"
  by (rule no_new_same)
    (use assms in \<open>auto simp: set_runtime_constraint_def Let_def split: if_splits bind_splits\<close>)

lemma no_new_cancel_run:
  assumes "cancel_run rid st = Some (res, calls, st')"
  shows "no_new st st'"
proof (rule no_new_shrink)
  have step: "keys (co_intents (cancel_active rid sa x)) = keys (co_intents x)"
    "keys (co_intents (cancel_queued i x)) = keys (co_intents x)" for sa x i
    by (simp_all add: cancel_active_def cancel_queued_def Let_def case_prod_beta)
  have "keys (co_intents (fold (cancel_active rid) as x)) = keys (co_intents x)" for as x
    by (induction as arbitrary: x) (simp_all add: step)
  moreover have "keys (co_intents (fold cancel_queued is x)) = keys (co_intents x)" for "is" x
    by (induction "is" arbitrary: x) (simp_all add: step)
  ultimately show "keys (co_intents st') = keys (co_intents st)"
    by (simp add: cancel_run_unfold(3) [OF assms] cancel_intents_def Let_def)
  show "map_of (co_leases st) k = Some x" if "map_of (co_leases st') k = Some x" for k x
    using that by (simp add: cancel_run_unfold(3) [OF assms] map_of_delete_all split: if_splits)
qed

lemma no_new_remaining:
  "no_new st (snd (snd (abort_enqueue g le st)))"
  "pause_slot sid st = Some po \<Longrightarrow> no_new st (snd (snd po))"
  "remove_slot sid st = Some ro \<Longrightarrow> no_new st (snd (snd ro))"
  "no_new st (snd (snd (stop_coordinator st)))"
proof -
  show "no_new st (snd (snd (abort_enqueue g le st)))"
    by (rule no_new_shrink) (auto simp: abort_enqueue_def Let_def split: option.splits if_splits)
  show "no_new st (snd (snd po))" if "pause_slot sid st = Some po"
    by (rule no_new_same) (use that in \<open>auto simp: pause_slot_def Let_def split: bind_splits\<close>)
  show "no_new st (snd (snd ro))" if "remove_slot sid st = Some ro"
    by (rule no_new_same) (use that in \<open>auto simp: remove_slot_def Let_def split: if_splits\<close>)
  show "no_new st (snd (snd (stop_coordinator st)))"
    by (rule no_new_shrink) (simp_all add: stop_coordinator_def Let_def)
qed

lemma no_new_exec:
  assumes "exec_call port g c (st, p) = Some (st', p')" "\<And>rq lid. c \<noteq> Call_AcquireEnqueue rq lid"
  shows "no_new st st'"
  using assms
  by (cases c)
    (auto simp: finish_call_iff begin_runtime_restart_def begin_mcp_runtime_restart_def fail_batch_def
      cancel_batch_def case_prod_beta Let_def complete_frame batch_op_frames other_frames mcp_frames next_frame
      no_new_reconcile no_new_remaining no_new_same
      dest: no_new_commit no_new_constraint no_new_cancel_run no_new_remaining(2,3))

text \<open>Every summary the coordinator reports is the one of the state it leaves behind.\<close>

definition truthful :: "'r \<times> port_call list \<times> coordinator_state \<Rightarrow> bool" where
  "truthful out \<longleftrightarrow> (\<forall>s. Apply_Summary s \<in> set (fst (snd out)) \<longrightarrow> s = run_summary (snd (snd out)) (su_run s))"

lemma su_run_summary [simp]: "su_run (run_summary st r) = r"
  by (simp add: run_summary_def Let_def)

lemma truthful_publish [simp]:
  "truthful (res, publish (run_summaries st rids) snap, st)" "truthful (res, [], st)"
  "truthful (res, publish [] snap, st)" "truthful (res, publish (map (run_summary st) rids) snap, st)"
  "truthful (res, [Apply_Summary (run_summary st rid)], st)"
  by (auto simp: truthful_def publish_def run_summaries_def split: option.splits)

lemma truthful_batch_ops:
  "truthful (abort_enqueue g le st)" "truthful (next_batch g sid bid st)" "truthful (mark_started g b t now st)"
  "truthful (retry_start g b st)" "truthful (complete_batch_with_ack g b st)"
  "truthful (terminalize_batch g b s d st)" "truthful (interrupt_batch g b r m st)"
  by (auto simp: abort_enqueue_def next_batch_def claim_batch_def mark_started_def retry_start_def
      complete_batch_with_ack_def terminalize_batch_def interrupt_batch_def Let_def case_prod_beta
      split: option.split)
    (auto simp: truthful_def publish_def run_summaries_def split: option.splits)

lemma truthful_other_ops:
  "truthful (discard_queued_except sid m st)" "truthful (complete_signals sid iids st)"
  "truthful (stop_coordinator st)" "truthful (begin_runtime_restart_inner sid q st)"
  "truthful ((), abort_runtime_restart sid gate st)"
  by (auto simp: discard_queued_except_def complete_signals_def stop_coordinator_def Let_def
      begin_runtime_restart_inner_def abort_runtime_restart_def split: option.split runtime_constraint.split)

lemma truthful_partial_ops:
  "commit_enqueue g le m iid now st = Some co \<Longrightarrow> truthful co" "cancel_run rid st = Some cr \<Longrightarrow> truthful cr"
  "pause_slot sid st = Some po \<Longrightarrow> truthful po" "set_runtime_constraint sid c st = Some so \<Longrightarrow> truthful so"
  "remove_slot sid st = Some ro \<Longrightarrow> truthful ro"
  by (auto simp: commit_enqueue_def cancel_run_def pause_slot_def set_runtime_constraint_def remove_slot_def
      Let_def split: option.splits if_splits bind_splits)

definition reports :: "'p run_causality_port \<Rightarrow> 'p \<Rightarrow> coordinator_state \<Rightarrow> 'p \<Rightarrow> bool" where
  "reports port p st' p' \<longleftrightarrow> (\<exists>calls. p' = make_calls port calls p
     \<and> (\<forall>s. Apply_Summary s \<in> set calls \<longrightarrow> s = run_summary st' (su_run s)))"

lemma reports_same [simp]: "reports port p st p"
  unfolding reports_def by (rule exI [of _ "[]"]) (simp add: make_calls_def)

lemma reports_finish: "truthful out \<Longrightarrow> finish_call port p out = (st', p') \<Longrightarrow> reports port p st' p'"
  unfolding reports_def truthful_def finish_call_iff by blast

lemma truthful_cancel_batch: "truthful (cancel_batch g b c st)" "truthful (fail_batch g b c st)"
proof -
  show "truthful (cancel_batch g b c st)"
    using truthful_batch_ops(6) [of g b "Intent_Cancelled c" Delivery_NotFailed st]
    by (simp add: cancel_batch_def truthful_def case_prod_beta Let_def)
  show "truthful (fail_batch g b c st)" unfolding fail_batch_def by (rule truthful_batch_ops)
qed

lemma exec_reports:
  assumes "exec_call port g c (st, p) = Some (st', p')" "\<And>rq lid. c \<noteq> Call_AcquireEnqueue rq lid"
  shows "reports port p st' p'"
  using assms
  by (cases c)
    (auto simp: truthful_batch_ops truthful_other_ops truthful_cancel_batch begin_runtime_restart_def
      begin_mcp_runtime_restart_def elim!: reports_finish [rotated] dest: truthful_partial_ops)


section \<open>Finished runs\<close>

definition run_finished :: "team_run_record \<Rightarrow> bool" where
  "run_finished run \<longleftrightarrow> tr_status run \<in> {Run_Completed, Run_Cancelled}"

lemma inherited_has_work:
  assumes "sound g H st" "inherited_run st caller = Some r"
  shows "has_work st r"
proof -
  from assms(2) obtain sl a where sl: "slot_at st caller = Some sl" "sl_active sl = Some a"
    and r: "first_opt (ba_runs (ac_batch a)) = Some r"
    by (auto simp: inherited_run_def split: bind_splits)
  note ok = soundD(5) [OF assms(1) sl(1)]
  have "r \<in> set (ba_runs (ac_batch a))" using r by (cases "ba_runs (ac_batch a)") auto
  then obtain iid where iid: "iid \<in> set (ba_intents (ac_batch a))" "run_of st iid = Some r"
    using slot_okD(3) [OF ok sl(2)] by (auto simp: batch_ok_def set_filter_map)
  from active_intents [OF ok sl(2) iid(1)] obtain i where i: "intent_at st iid = Some i"
    and place: "intent_place i = Some (In_Batch (ba_id (ac_batch a)) (ba_operation (ac_batch a)) (ac_turn a))"
    by blast
  have "\<not> intent_is_terminal (wi_state i)" using place place_terminal by (metis option.distinct(1))
  moreover have "wi_run i = Some r" using i iid(2) by (simp add: run_of_def)
  ultimately show ?thesis using i unfolding has_work_def by blast
qed

lemma resolve_finished:
  assumes "resolve_binding (manager_port env) st rq p = (b, p')" "rm_run p' = Some run" "run_finished run"
  shows "rm_run p = Some run \<and> (rb_run b = Some (tr_id run) \<longrightarrow> (\<exists>caller. inherited_run st caller = Some (tr_id run)))"
proof -
  have user: "bind_user_enqueue env slot role p \<noteq> (b, p')"
    and system: "bind_system_enqueue env slot role p \<noteq> (b, p')" for slot role
    using assms(2,3)
    by (auto simp: bind_user_enqueue_def bind_system_enqueue_def open_run_def Let_def new_run_def run_finished_def
        active_run_def split: option.splits if_splits)
  have inherit: "p' = p \<and> rb_run b = x" if "inherit_or_bind (manager_port env) rq x p = (b, p')" for x
    using that system by (auto simp: inherit_or_bind_def manager_port_def split: option.splits)
  have active: "current_active_run_id p \<noteq> Some (tr_id run)" if "rm_run p = Some run"
    using that assms(3) by (auto simp: active_run_id_iff run_finished_def)
  show ?thesis
  proof (cases "rq_binding rq")
    case Binding_UserVisible
    then show ?thesis using assms(1) user by (simp add: resolve_binding_def manager_port_def bind_enqueue_def)
  next
    case (Binding_InheritRunningBatch caller)
    then show ?thesis
      using assms inherit [of "inherited_run st caller"] by (auto simp: resolve_binding_def)
  next
    case (Binding_SystemInitiated origin)
    then show ?thesis
      using assms inherit [of "Option.bind origin (inherited_run st)"]
      by (cases origin) (auto simp: resolve_binding_def)
  qed (use assms active in \<open>auto simp: resolve_binding_def manager_port_def bind_enqueue_def no_binding_def\<close>)
qed

text \<open>Scenarios of the pair: the first run a session opens is \<open>r\<close>.\<close>

definition demo_env :: team_env where
  "demo_env = \<lparr>env_id = \<lambda>n. replicate (Suc n) (CHR ''r''), env_now = int\<rparr>"

definition team_run :: "work_call list \<Rightarrow> work_batch set \<times> coordinator_state \<times> run_manager" where
  "team_run cs = (case run_calls (manager_port demo_env) ''g'' cs ({}, new_coordinator, new_manager ''t'') of
     Some s \<Rightarrow> s | None \<Rightarrow> ({}, new_coordinator, new_manager ''t''))"

abbreviation team_coordinator :: "work_call list \<Rightarrow> coordinator_state" where
  "team_coordinator cs \<equiv> fst (snd (team_run cs))"

abbreviation team_manager :: "work_call list \<Rightarrow> run_manager" where
  "team_manager cs \<equiv> snd (snd (team_run cs))"

lemma run_calls_team:
  "team_reach env g team H st p \<Longrightarrow> run_calls (manager_port env) g cs (H, st, p) = Some (H', st', p')
     \<Longrightarrow> team_reach env g team H' st' p'"
proof (induction cs arbitrary: H st p)
  case (Cons c cs)
  from Cons.prems(2) obtain st1 p1 where "call_ok H st c" "exec_call (manager_port env) g c (st, p) = Some (st1, p1)"
    "run_calls (manager_port env) g cs (H \<union> issued g st c, st1, p1) = Some (H', st', p')"
    by (auto split: if_splits option.splits)
  then show ?case using Cons.IH team_call [OF Cons.prems(1)] by blast
qed simp

lemma team_run_reach: "team_reach demo_env ''g'' ''t'' (fst (team_run cs)) (team_coordinator cs) (team_manager cs)"
  using run_calls_team [OF team_new [of demo_env "''g''" "''t''"], of cs]
  by (cases "run_calls (manager_port demo_env) ''g'' cs ({}, new_coordinator, new_manager ''t'')")
    (auto simp: team_run_def intro: team_new)

definition team_busy :: "work_call list" where
  "team_busy = bound_enqueue Source_UserMessage ''m''"

definition team_request :: enqueue_request where
  "team_request = \<lparr>rq_slot = ''b'', rq_role = Role_Teammate, rq_source = Source_SpawnWelcome,
     rq_binding = Binding_SystemInitiated (Some ''a'')\<rparr>"

lemma visible_work_has_a_run_witness:
  "\<exists>le st' p'. acquire_enqueue (manager_port demo_env) ''g'' team_request ''l9''
        (team_coordinator team_busy, team_manager team_busy) = (Inr le, st', p') \<and> le_run le \<noteq> None"
proof -
  let ?out = "acquire_enqueue (manager_port demo_env) ''g'' team_request ''l9''
    (team_coordinator team_busy, team_manager team_busy)"
  have "\<not> isl (fst ?out)" by code_simp
  then have out: "?out = (Inr (projr (fst ?out)), fst (snd ?out), snd (snd ?out))"
    by (metis prod.collapse sum.collapse(2))
  have "rq_binding team_request \<notin> {Binding_Background, Binding_ActiveRunOrBackground}"
    by (simp add: team_request_def)
  from visible_work_has_a_run [OF out this] out show ?thesis by blast
qed


section \<open>Cancelling\<close>

text \<open>A cancelled run ends cancelled. When the manager accepts the cancellation of the active run
  and the coordinator then cancels its work, the record shows the run cancelled, with the reason given
  and a completion time (failed instead if one of its intents had failed), the team has
  no active run, and no work of the run is open.\<close>
theorem cancelled_run_ends_cancelled:
  assumes reach: "team_reach env g team H st p" and accepted: "begin_cancel env rid reason p = (Inr (), p1)"
    and exec: "exec_call (manager_port env) g (Call_CancelRun rid) (st, p1) = Some (st', p')"
  shows "\<exists>run. rm_run p' = Some run \<and> tr_id run = rid \<and> tr_reason run = reason \<and> tr_completed run \<noteq> None
    \<and> tr_status run = (if su_failed (run_summary st' rid) = 0 then Run_Cancelled else Run_Failed)
    \<and> current_active_run_id p' = None \<and> \<not> has_work st' rid"
proof -
  note sound = team_sound [OF reach]
  from exec obtain res calls where out: "cancel_run rid st = Some (res, calls, st')"
    and p': "p' = make_calls (manager_port env) calls p1"
    by (auto simp: finish_call_iff)
  have calls: "calls = [Apply_Summary (run_summary st' rid)]" by (rule cancel_run_unfold(2) [OF out])
  have closed: "\<not> is_open_summary (run_summary st' rid)"
    using cancel_run_sound [OF sound out] cancel_run_unfold(1) [OF out] by auto
  have quiet: "no_work (run_summary st' rid)" "\<not> has_work st' rid"
    using closed summary_has_work [OF sound_cancel_run [OF sound out], of rid]
    by (simp_all add: open_summary_work)
  from accepted obtain run1 where run1: "rm_run p1 = Some run1" "tr_id run1 = rid" "tr_status run1 = Run_Cancelling"
    "tr_reason run1 = reason"
    by (auto simp: begin_cancel_def Let_def broadcast_def tick_def split: option.splits if_splits)
  let ?run = "(settle_run (env_now env (rm_reads p1)) (run_summary st' rid) run1)\<lparr>tr_announced := True\<rparr>"
  have run: "rm_run p' = Some ?run"
    using run1 by (simp add: p' calls make_calls_def manager_port_def apply_work_summary_run)
  have "tr_status ?run = (if su_failed (run_summary st' rid) = 0 then Run_Cancelled else Run_Failed)"
    using run1(3) quiet(1) by (simp add: settle_run_status)
  moreover have "tr_reason ?run = reason" "tr_completed ?run \<noteq> None"
    using run1(4) quiet(1) by (simp_all add: settle_run_def Let_def)
  moreover from calculation(1) have "current_active_run_id p' = None"
    unfolding current_active_run_id_def active_run_def run by simp
  ultimately show ?thesis using run run1(2) quiet(2) by (intro exI [of _ ?run]) simp
qed

end
