(* ===== verification/Team_Publish.thy ===== *)
theory Team_Publish
  imports Team_Laws
begin

text \<open>
  The pair of coordinator and run manager with the publications under way. Every operation of
  \<open>work_coordinator/coordinator.rs\<close> but the binding of an enqueue drops the coordinator's lock before
  it tells the run manager what it did (\<open>drop(state); self.publish_run_summaries(summaries)\<close>), so
  between the change and the report other tasks may run, other operations may publish first, and a
  report may arrive when it is out of date. Here the calls wait in an outbox and are delivered in any
  order, one at a time (each takes the manager's own lock).
\<close>

section \<open>Publications under way\<close>

text \<open>The port as the locked part of an operation sees it: bindings are made at once
  (\<open>acquire_enqueue\<close> calls them under the lock), the other calls are noted for later.\<close>

definition outbox_port :: "team_env \<Rightarrow> (run_manager \<times> port_call list) run_causality_port" where
  "outbox_port env =
     \<lparr>port_bind_enqueue = (\<lambda>rq (p, out). case bind_enqueue env rq p of (b, p') \<Rightarrow> (b, p', out)),
      port_bind_system_enqueue = (\<lambda>rq (p, out).
        case bind_system_enqueue env (rq_slot rq) (rq_role rq) p of (b, p') \<Rightarrow> (b, p', out)),
      port_abort_binding = (\<lambda>b (p, out). (p, out @ [Abort_Binding b])),
      port_apply_work_summary = (\<lambda>s (p, out). (p, out @ [Apply_Summary s])),
      port_publish_slot_work = (\<lambda>sn (p, out). (p, out @ [Publish_Slot sn]))\<rparr>"

definition says_quiet :: "string \<Rightarrow> port_call \<Rightarrow> bool" where
  "says_quiet r c = (case c of Apply_Summary s \<Rightarrow> su_run s = r \<and> no_work s | _ \<Rightarrow> False)"

lemma says_quiet_iff: "says_quiet r c \<longleftrightarrow> (\<exists>s. c = Apply_Summary s \<and> su_run s = r \<and> no_work s)"
  by (cases c) (simp_all add: says_quiet_def)

text \<open>The runs that get new work while a report that they have none is under way.\<close>

definition overtaken :: "coordinator_state \<Rightarrow> coordinator_state \<Rightarrow> port_call list \<Rightarrow> string set" where
  "overtaken st st' out =
     {r. list_ex (says_quiet r) out \<and> \<not> has_work st r \<and> has_work st' r}"

text \<open>The states of the pair: the batches issued, the reports made (each with the state it was made
  in), the runs overtaken so far, the coordinator, the manager, and the calls under way.\<close>

inductive publish_reach ::
  "team_env \<Rightarrow> string \<Rightarrow> string \<Rightarrow> work_batch set \<Rightarrow> (coordinator_state \<times> run_work_summary) set
     \<Rightarrow> string set \<Rightarrow> coordinator_state \<Rightarrow> run_manager \<Rightarrow> port_call list \<Rightarrow> bool"
  for env g team where
  publish_new: "publish_reach env g team {} {} {} new_coordinator (new_manager team) []"
| publish_call: "publish_reach env g team H R X st p out \<Longrightarrow> call_ok H st c
    \<Longrightarrow> exec_call (outbox_port env) g c (st, p, []) = Some (st', p', calls)
    \<Longrightarrow> publish_reach env g team (H \<union> issued g st c) (R \<union> {(st', s) | s. Apply_Summary s \<in> set calls})
          (X \<union> overtaken st st' out) st' p' (out @ calls)"
| publish_deliver: "publish_reach env g team H R X st p (before @ c # after)
    \<Longrightarrow> publish_reach env g team H R X st (make_call (manager_port env) c p) (before @ after)"
| publish_cancel: "publish_reach env g team H R X st p out
    \<Longrightarrow> publish_reach env g team H R X st (snd (begin_cancel env rid reason p)) out"
| publish_monitor: "publish_reach env g team H R X st p out
    \<Longrightarrow> publish_reach env g team H R X st (publish_snapshot_update env (coordinator_snapshot g st) p) out"

lemma publish_sound: "publish_reach env g team H R X st p out \<Longrightarrow> sound g H st"
  by (induction rule: publish_reach.induct) (auto intro: sound_new sound_exec)

lemma outbox_calls: "make_calls (outbox_port env) calls (p, out) = (p, out @ calls)"
  unfolding make_calls_def
proof (induction calls arbitrary: out)
  case (Cons c calls)
  have "make_call (outbox_port env) c (p, out) = (p, out @ [c])" by (cases c) (simp_all add: outbox_port_def)
  then show ?case using Cons.IH by simp
qed simp

text \<open>The locked part of an enqueue is the one of the run manager's own port.\<close>

lemma outbox_resolve: "resolve_binding (outbox_port env) st rq (p, out) =
    (case resolve_binding (manager_port env) st rq p of (b, p') \<Rightarrow> (b, p', out))"
  by (auto simp: resolve_binding_def inherit_or_bind_def outbox_port_def manager_port_def
      split: causal_binding.split option.split)

lemma outbox_acquire: "acquire_enqueue (outbox_port env) g rq lid (st, p, out) =
    (case acquire_enqueue (manager_port env) g rq lid (st, p) of (res, st', p') \<Rightarrow> (res, st', p', out))"
  by (simp add: acquire_enqueue_def Let_def outbox_resolve split: option.split prod.split)

text \<open>Any other operation leaves the manager alone and reports the state it leaves behind.\<close>

lemma outbox_reports:
  assumes "exec_call (outbox_port env) g c (st, p, []) = Some (st', p', calls)"
    and "\<And>rq lid. c \<noteq> Call_AcquireEnqueue rq lid"
  shows "p' = p" and "Apply_Summary s \<in> set calls \<Longrightarrow> s = run_summary st' (su_run s)"
  using exec_reports [OF assms] unfolding reports_def outbox_calls by auto


section \<open>What a finished run says\<close>

text \<open>Every report was true of the state it was made in, and only such reports reach the record.\<close>

definition honest :: "(coordinator_state \<times> run_work_summary) set \<Rightarrow> run_manager \<Rightarrow> port_call list \<Rightarrow> bool" where
  "honest R p out \<longleftrightarrow>
     (\<forall>st0 s. (st0, s) \<in> R \<longrightarrow> s = run_summary st0 (su_run s) \<and> (no_work s \<longleftrightarrow> \<not> has_work st0 (su_run s)))
     \<and> (\<forall>s. Apply_Summary s \<in> set out \<longrightarrow> (\<exists>st0. (st0, s) \<in> R))
     \<and> (\<forall>run. rm_run p = Some run \<longrightarrow> run_finished run
          \<longrightarrow> (\<exists>st0 s. (st0, s) \<in> R \<and> su_run s = tr_id run \<and> no_work s))"

lemma honest_grow:
  assumes "honest R p out" "sound g H st"
    and "\<And>s. Apply_Summary s \<in> set calls \<Longrightarrow> s = run_summary st (su_run s)"
  shows "honest (R \<union> {(st, s) | s. Apply_Summary s \<in> set calls}) p (out @ calls)"
proof -
  have "no_work s \<longleftrightarrow> \<not> has_work st (su_run s)" if "Apply_Summary s \<in> set calls" for s
    using summary_has_work [OF assms(2), of "su_run s"] assms(3) [OF that] open_summary_work [of s] by metis
  then show ?thesis using assms(1,3) unfolding honest_def by fastforce
qed

lemma finished_deliver:
  assumes "rm_run (make_call (manager_port env) c p) = Some run" "run_finished run"
  shows "says_quiet (tr_id run) c \<or> (\<exists>run0. rm_run p = Some run0 \<and> run_finished run0 \<and> tr_id run0 = tr_id run)"
proof (cases c)
  case (Apply_Summary s)
  then show ?thesis
    using assms by (auto simp: says_quiet_def manager_port_def apply_work_summary_run run_finished_def
        settle_run_status split: if_splits)
next
  case (Publish_Slot sn)
  then show ?thesis using assms by (auto simp: manager_port_def publish_slot_work_def tick_def broadcast_def)
next
  case (Abort_Binding b)
  then show ?thesis
    using assms by (auto simp: manager_port_def abort_run_binding_def split: option.splits if_splits)
qed

lemma finished_other:
  assumes "p' = snd (begin_cancel env rid reason p) \<or> p' = publish_snapshot_update env snap p"
    and "rm_run p' = Some run" "run_finished run"
  shows "rm_run p = Some run"
  using assms
  by (auto simp: begin_cancel_def publish_snapshot_update_def Let_def broadcast_def tick_def run_finished_def
      split: option.splits if_splits)

text \<open>An enqueue is never bound to a finished run, unless by a caller that works for it.\<close>

lemma acquire_finished:
  assumes sound: "sound g H st"
    and out: "acquire_enqueue (manager_port env) g rq lid (st, p) = (res, st', p')"
    and run: "rm_run p' = Some run" "run_finished run"
  shows "rm_run p = Some run \<and> (has_work st' (tr_id run) \<longrightarrow> has_work st (tr_id run))"
proof (cases res)
  case (Inl e)
  then have "p' = p" "co_intents st' = co_intents st" "co_leases st' = co_leases st"
    using out by (auto simp: acquire_enqueue_def Let_def case_prod_beta split: option.splits)
  with run show ?thesis by (simp add: has_work_def)
next
  case (Inr le)
  from manager.acquired_lease [OF out [unfolded Inr]] obtain b st1
    where b: "resolve_binding (manager_port env) st1 rq p = (b, p')" "le_run le = rb_run b"
      "\<And>caller. inherited_run st1 caller = inherited_run st caller"
    by metis
  obtain x where st': "co_intents st' = co_intents st"
    "map_of (co_leases st') = (map_of (co_leases st))(lid \<mapsto> x)" "lr_lease x = le"
    using out Inr by (auto simp: acquire_enqueue_def Let_def case_prod_beta split: option.splits)
  have lease: "(\<exists>k y. map_of (co_leases st) k = Some y \<and> le_run (lr_lease y) = Some r) \<or> le_run le = Some r"
    if "map_of (co_leases st') k = Some y" "le_run (lr_lease y) = Some r" for k y r
    using that st'(2,3) by (cases "k = lid") auto
  have "has_work st r \<or> le_run le = Some r" if "has_work st' r" for r
    using that lease unfolding has_work_def st'(1) by blast
  then show ?thesis
    using resolve_finished [OF b(1) run] b(2,3) inherited_has_work [OF sound] by auto
qed

lemma publish_honest: "publish_reach env g team H R X st p out \<Longrightarrow> honest R p out"
proof (induction rule: publish_reach.induct)
  case (publish_call H R X st p out c st' p' calls)
  note sound = publish_sound [OF publish_call.hyps(1)]
  note sound' = sound_exec [OF sound publish_call.hyps(2,3)]
  show ?case
  proof (cases "\<exists>rq lid. c = Call_AcquireEnqueue rq lid")
    case True
    then obtain rq lid res where out: "acquire_enqueue (manager_port env) g rq lid (st, p) = (res, st', p')" "calls = []"
      using publish_call.hyps(3) by (auto simp: outbox_acquire split: prod.splits)
    have "honest R p' out"
      using publish_call.IH acquire_finished [OF sound out(1)] unfolding honest_def by blast
    then show ?thesis using out(2) by simp
  next
    case False
    then have "\<And>rq lid. c \<noteq> Call_AcquireEnqueue rq lid" by blast
    from outbox_reports [OF publish_call.hyps(3) this] publish_call.IH
    show ?thesis using honest_grow [OF _ sound'] by blast
  qed
next
  case (publish_deliver H R X st p before c after)
  have "\<exists>st0 s. (st0, s) \<in> R \<and> su_run s = tr_id run \<and> no_work s"
    if "rm_run (make_call (manager_port env) c p) = Some run" "run_finished run" for run
    using finished_deliver [OF that] publish_deliver.IH
    by (auto simp: honest_def says_quiet_iff) metis+
  then show ?case using publish_deliver.IH unfolding honest_def by auto
next
  case (publish_cancel H R X st p out rid reason)
  then show ?case
    using finished_other [of "snd (begin_cancel env rid reason p)" env rid reason p] unfolding honest_def by blast
next
  case (publish_monitor H R X st p out)
  then show ?case
    using finished_other [of "publish_snapshot_update env (coordinator_snapshot g st) p" env _ _ p]
    unfolding honest_def by blast
qed (simp add: honest_def new_manager_def)

text \<open>As long as a run has not been overtaken, nothing that says it is quiet is out of date.\<close>

definition up_to_date :: "string set \<Rightarrow> coordinator_state \<Rightarrow> run_manager \<Rightarrow> port_call list \<Rightarrow> bool" where
  "up_to_date X st p out \<longleftrightarrow>
     (\<forall>r. r \<notin> X \<longrightarrow> has_work st r \<longrightarrow> \<not> list_ex (says_quiet r) out)
     \<and> (\<forall>run. rm_run p = Some run \<longrightarrow> run_finished run \<longrightarrow> tr_id run \<notin> X \<longrightarrow> \<not> has_work st (tr_id run))"

lemma up_to_date_call:
  assumes "up_to_date X st p out"
    and "\<And>r. list_ex (says_quiet r) calls \<Longrightarrow> \<not> has_work st' r"
    and "\<And>run. rm_run p' = Some run \<Longrightarrow> run_finished run \<Longrightarrow>
      rm_run p = Some run \<and> (has_work st' (tr_id run) \<longrightarrow> has_work st (tr_id run))"
  shows "up_to_date (X \<union> overtaken st st' out) st' p' (out @ calls)"
  using assms unfolding up_to_date_def overtaken_def by auto

lemma publish_up_to_date: "publish_reach env g team H R X st p out \<Longrightarrow> up_to_date X st p out"
proof (induction rule: publish_reach.induct)
  case (publish_call H R X st p out c st' p' calls)
  note sound = publish_sound [OF publish_call.hyps(1)]
  note sound' = sound_exec [OF sound publish_call.hyps(2,3)]
  show ?case
  proof (cases "\<exists>rq lid. c = Call_AcquireEnqueue rq lid")
    case True
    then obtain rq lid res where out: "acquire_enqueue (manager_port env) g rq lid (st, p) = (res, st', p')" "calls = []"
      using publish_call.hyps(3) by (auto simp: outbox_acquire split: prod.splits)
    show ?thesis by (rule up_to_date_call [OF publish_call.IH]) (simp_all add: out acquire_finished [OF sound out(1)])
  next
    case False
    then have c: "\<And>rq lid. c \<noteq> Call_AcquireEnqueue rq lid" by blast
    note told = outbox_reports [OF publish_call.hyps(3) c]
    have less: "has_work st' r \<Longrightarrow> has_work st r" for r
      using has_work_no_new [OF keeps_exec [OF sound publish_call.hyps(2,3)] no_new_exec [OF publish_call.hyps(3) c]] .
    have "\<not> has_work st' r" if "list_ex (says_quiet r) calls" for r
    proof -
      from that obtain s where s: "Apply_Summary s \<in> set calls" "su_run s = r" "no_work s"
        by (auto simp: list_ex_iff says_quiet_iff)
      then show ?thesis
        using told(2) [OF s(1)] summary_has_work [OF sound', of r] open_summary_work [of s] by simp
    qed
    then show ?thesis using up_to_date_call [OF publish_call.IH] less told(1) by blast
  qed
next
  case (publish_deliver H R X st p before c after)
  then show ?case using finished_deliver [of env c p] unfolding up_to_date_def by fastforce
next
  case (publish_cancel H R X st p out rid reason)
  then show ?case
    using finished_other [of "snd (begin_cancel env rid reason p)" env rid reason p] unfolding up_to_date_def by blast
next
  case (publish_monitor H R X st p out)
  then show ?case
    using finished_other [of "publish_snapshot_update env (coordinator_snapshot g st) p" env _ _ p]
    unfolding up_to_date_def by blast
qed (simp add: up_to_date_def new_manager_def)

text \<open>C15: A finished run has no open work, but for an enqueue that overtook its report. Whatever the
  coordinator is asked to do, however its reports to the run manager are delayed and reordered, and
  whatever runs are cancelled meanwhile: when the team's current run is shown as completed or cancelled,
  then some operation left the coordinator without an unfinished intent or a pending enqueue of that
  run and reported so; and there is no such work of it now either, unless the run got new work at a
  moment when a report that it had none was still under way.\<close>
theorem finished_run_has_no_work:
  assumes "publish_reach env g team H R X st p out" and "rm_run p = Some run"
    and "tr_status run \<in> {Run_Completed, Run_Cancelled}"
  shows "(\<exists>st0. (st0, run_summary st0 (tr_id run)) \<in> R \<and> \<not> has_work st0 (tr_id run))
    \<and> (tr_id run \<in> X \<or> \<not> has_work st (tr_id run))"
proof
  have finished: "run_finished run" using assms(3) by (simp add: run_finished_def)
  show "tr_id run \<in> X \<or> \<not> has_work st (tr_id run)"
    using publish_up_to_date [OF assms(1)] assms(2) finished unfolding up_to_date_def by blast
  note honest = publish_honest [OF assms(1), unfolded honest_def]
  with assms(2) finished obtain st0 s where "(st0, s) \<in> R" "su_run s = tr_id run" "no_work s" by blast
  with honest show "\<exists>st0. (st0, run_summary st0 (tr_id run)) \<in> R \<and> \<not> has_work st0 (tr_id run)" by metis
qed

text \<open>Scenarios: operations of the coordinator, and deliveries by their place in the outbox. The flag
  says that no report of a quiet run was under way when an operation ran.\<close>

datatype team_step = Team_Call work_call | Team_Deliver nat

definition calm_outbox :: "port_call list \<Rightarrow> bool" where
  "calm_outbox out \<longleftrightarrow> list_all (\<lambda>c. case c of Apply_Summary s \<Rightarrow> \<not> no_work s | _ \<Rightarrow> True) out"

fun team_steps ::
  "team_env \<Rightarrow> string \<Rightarrow> team_step list
     \<Rightarrow> work_batch set \<times> coordinator_state \<times> run_manager \<times> port_call list \<times> bool
     \<Rightarrow> (work_batch set \<times> coordinator_state \<times> run_manager \<times> port_call list \<times> bool) option" where
  "team_steps env g [] x = Some x"
| "team_steps env g (Team_Call c # steps) (H, st, p, out, calm) =
     (if call_ok H st c then
        (case exec_call (outbox_port env) g c (st, p, []) of
           None \<Rightarrow> None
         | Some (st', p', calls) \<Rightarrow>
             team_steps env g steps (H \<union> issued g st c, st', p', out @ calls, calm \<and> calm_outbox out))
      else None)"
| "team_steps env g (Team_Deliver n # steps) (H, st, p, out, calm) =
     (if n < length out then
        team_steps env g steps
          (H, st, make_call (manager_port env) (out ! n) p, take n out @ drop (Suc n) out, calm)
      else None)"

lemma calm_overtakes_none: "calm_outbox out \<Longrightarrow> overtaken st st' out = {}"
  by (auto simp: overtaken_def calm_outbox_def list_ex_iff list_all_iff says_quiet_iff)

lemma team_steps_reach:
  "publish_reach env g team H R X st p out
     \<Longrightarrow> team_steps env g steps (H, st, p, out, calm) = Some (H', st', p', out', calm')
     \<Longrightarrow> \<exists>R' X'. publish_reach env g team H' R' X' st' p' out' \<and> (calm' \<longrightarrow> calm \<and> X' = X)"
proof (induction steps arbitrary: H R X st p out calm)
  case (Cons step steps)
  show ?case
  proof (cases step)
    case (Team_Call c)
    with Cons.prems(2) obtain st1 p1 calls where ok: "call_ok H st c"
      and exec: "exec_call (outbox_port env) g c (st, p, []) = Some (st1, p1, calls)"
      and rest: "team_steps env g steps (H \<union> issued g st c, st1, p1, out @ calls, calm \<and> calm_outbox out)
        = Some (H', st', p', out', calm')"
      by (auto split: if_splits option.splits)
    from Cons.IH [OF publish_call [OF Cons.prems(1) ok exec] rest] show ?thesis
      using calm_overtakes_none [of out st st1] by fastforce
  next
    case (Team_Deliver n)
    with Cons.prems(2) have "n < length out" and rest: "team_steps env g steps
        (H, st, make_call (manager_port env) (out ! n) p, take n out @ drop (Suc n) out, calm)
        = Some (H', st', p', out', calm')"
      by (auto split: if_splits)
    with Cons.prems(1) publish_deliver [of env g team H R X st p "take n out" "out ! n" "drop (Suc n) out"]
    have "publish_reach env g team H R X st (make_call (manager_port env) (out ! n) p) (take n out @ drop (Suc n) out)"
      by (simp add: id_take_nth_drop [symmetric])
    from Cons.IH [OF this rest] show ?thesis .
  qed
qed auto

definition team_result ::
  "team_step list \<Rightarrow> work_batch set \<times> coordinator_state \<times> run_manager \<times> port_call list \<times> bool" where
  "team_result steps = (case team_steps demo_env ''g'' steps ({}, new_coordinator, new_manager ''t'', [], True) of
     Some x \<Rightarrow> x | None \<Rightarrow> ({}, new_coordinator, new_manager ''t'', [], True))"

lemma team_result_reach:
  assumes "team_result steps = (H, st, p, out, calm)"
  obtains R X where "publish_reach demo_env ''g'' ''t'' H R X st p out" "calm \<longrightarrow> X = {}"
  using team_steps_reach [OF publish_new [of demo_env "''g''" "''t''"], of steps True H st p out calm] assms
    publish_new [of demo_env "''g''" "''t''"]
  by (cases "team_steps demo_env ''g'' steps ({}, new_coordinator, new_manager ''t'', [], True)")
    (auto simp: team_result_def)

text \<open>A session is stopped while a user's message waits, and the reports arrive one after the other.\<close>

definition stopped_steps :: "team_step list" where
  "stopped_steps = map Team_Call (team_busy @ [Call_Stop]) @ replicate 3 (Team_Deliver 0)"

lemma finished_run_has_no_work_witness:
  "\<exists>run. rm_run (fst (snd (snd (team_result stopped_steps)))) = Some run \<and> tr_status run = Run_Completed
     \<and> \<not> has_work (fst (snd (team_result stopped_steps))) (tr_id run)"
proof -
  obtain H st p out calm where res: "team_result stopped_steps = (H, st, p, out, calm)" by (metis surj_pair)
  have "map_option tr_status (rm_run (fst (snd (snd (team_result stopped_steps))))) = Some Run_Completed"
    and "snd (snd (snd (snd (team_result stopped_steps))))"
    by code_simp+
  then obtain run where run: "rm_run p = Some run" "tr_status run = Run_Completed" "calm" by (auto simp: res)
  from team_result_reach [OF res] run(3) obtain R where "publish_reach demo_env ''g'' ''t'' H R {} st p out" by auto
  from finished_run_has_no_work [OF this run(1)] run show ?thesis by (auto simp: res)
qed

text \<open>What the exception is about: the batch of a run completes, and before its report is delivered
  a second message is bound to the run, which the manager still shows as running. Then the report
  arrives, and the run is completed with an enqueue of it pending.\<close>

definition overtaking_steps :: "team_step list" where
  "overtaking_steps =
     (let b = demo_batch\<lparr>ba_runs := [''r'']\<rparr>
      in map Team_Call (team_busy @ [Call_SetConstraint ''a'' Constraint_Ready, Call_Next ''a'' ''b'',
           Call_MarkStarted b ''t'' 0]) @ replicate 7 (Team_Deliver 0)
         @ map Team_Call (Call_Complete b # take 1 (bound_enqueue Source_UserMessage ''n''))
         @ [Team_Deliver 0])"

lemma completed_run_with_work:
  "\<exists>H R X st p out run. publish_reach demo_env ''g'' ''t'' H R X st p out
     \<and> rm_run p = Some run \<and> tr_status run = Run_Completed \<and> has_work st (tr_id run)"
proof -
  obtain H st p out calm where res: "team_result overtaking_steps = (H, st, p, out, calm)" by (metis surj_pair)
  have "map_option (\<lambda>run. (tr_status run, tr_id run)) (rm_run (fst (snd (snd (team_result overtaking_steps)))))
      = Some (Run_Completed, ''r'')"
    and "map_option (\<lambda>x. le_run (lr_lease x)) (map_of (co_leases (fst (snd (team_result overtaking_steps)))) ''ln'')
      = Some (Some ''r'')"
    by code_simp+
  then obtain run x where run: "rm_run p = Some run" "tr_status run = Run_Completed" "tr_id run = ''r''"
    and "map_of (co_leases st) ''ln'' = Some x" "le_run (lr_lease x) = Some ''r''"
    by (auto simp: res)
  then have "has_work st (tr_id run)" unfolding has_work_def by auto
  with run team_result_reach [OF res] show ?thesis by metis
qed

end
