(* ===== verification/Message_Queue.thy ===== *)
theory Message_Queue
  imports Ki_Prelude
begin

text \<open>
  The in-memory queue of cross-session messages, \<open>queue.rs\<close> of \<open>crates/aionui-session-message\<close>, the
  drainer that delivers its heads (\<open>drainer.rs\<close>) and the hook that empties a cancelled
  conversation's part of it (\<open>hook.rs\<close>). \<open>DeliveryQueue\<close>'s methods run under one lock, so each is a
  function on the state; the drainer awaits a gate and a sink between them, and what other tasks do
  to the queue meanwhile is an argument of its pass. The clock's reading is an argument.
\<close>

section \<open>The queue\<close>

definition per_target_limit :: nat where "per_target_limit = 20"

definition global_limit :: nat where "global_limit = 200"

definition ttl_ms :: int where "ttl_ms = 10 * 60 * 1000"

record pending_delivery =
  pd_to :: string
  pd_user :: string
  pd_from :: string
  pd_message :: string
  pd_expires :: int

record queue_state =
  qs_by_target :: "(string, pending_delivery list) hashmap"
  qs_total :: nat

definition new_queue :: queue_state where
  "new_queue = \<lparr>qs_by_target = [], qs_total = 0\<rparr>"

datatype push_result = Push_Ok | Push_QueueFull

definition push :: "pending_delivery \<Rightarrow> queue_state \<Rightarrow> push_result \<times> queue_state" where
  "push item q =
    (if global_limit \<le> qs_total q then (Push_QueueFull, q)
     else
       (let m = (if map_of (qs_by_target q) (pd_to item) = None
                 then AList.update (pd_to item) [] (qs_by_target q) else qs_by_target q);
            bucket = (case map_of m (pd_to item) of Some b \<Rightarrow> b | None \<Rightarrow> [])
        in if per_target_limit \<le> length bucket then (Push_QueueFull, q\<lparr>qs_by_target := m\<rparr>)
           else (Push_Ok, \<lparr>qs_by_target = modify (pd_to item) (\<lambda>b. b @ [item]) m,
                           qs_total = qs_total q + 1\<rparr>)))"

definition alive :: "int \<Rightarrow> pending_delivery \<Rightarrow> bool" where
  "alive now item \<longleftrightarrow> now < pd_expires item"

definition drop_expired :: "int \<Rightarrow> queue_state \<Rightarrow> nat \<times> queue_state" where
  "drop_expired now q =
    (let dropped = sum_list (map (\<lambda>b. length b - length (filter (alive now) b)) (vals (qs_by_target q)))
     in (dropped,
         \<lparr>qs_by_target = filter (\<lambda>(_, b). b \<noteq> []) (map_values (filter (alive now)) (qs_by_target q)),
          qs_total = qs_total q - dropped\<rparr>))"

definition snapshot_heads :: "queue_state \<Rightarrow> pending_delivery list" where
  "snapshot_heads q = filter_map first_opt (vals (qs_by_target q))"

definition remove_head :: "string \<Rightarrow> queue_state \<Rightarrow> queue_state" where
  "remove_head to q = (case map_of (qs_by_target q) to of
      None \<Rightarrow> q
    | Some bucket \<Rightarrow>
        (let m = modify to tl (qs_by_target q)
         in \<lparr>qs_by_target = (if tl bucket = [] then AList.delete to m else m),
             qs_total = (if bucket \<noteq> [] then qs_total q - 1 else qs_total q)\<rparr>))"

definition pop_head :: "string \<Rightarrow> queue_state \<Rightarrow> queue_state" where
  "pop_head to q = remove_head to q"

definition drop_head :: "string \<Rightarrow> queue_state \<Rightarrow> queue_state" where
  "drop_head to q = remove_head to q"

definition clear_for :: "string \<Rightarrow> queue_state \<Rightarrow> nat \<times> queue_state" where
  "clear_for to q =
    (let removed = (case map_of (qs_by_target q) to of Some b \<Rightarrow> length b | None \<Rightarrow> 0)
     in (removed, \<lparr>qs_by_target = AList.delete to (qs_by_target q), qs_total = qs_total q - removed\<rparr>))"

definition queue_is_empty :: "queue_state \<Rightarrow> bool" where
  "queue_is_empty q \<longleftrightarrow> qs_total q = 0"

definition total_len :: "queue_state \<Rightarrow> nat" where
  "total_len q = qs_total q"

definition len_for :: "string \<Rightarrow> queue_state \<Rightarrow> nat" where
  "len_for to q = (case map_of (qs_by_target q) to of Some b \<Rightarrow> length b | None \<Rightarrow> 0)"

text \<open>The queue as its callers see it, one constructor per mutating method.\<close>

datatype queue_op =
    Op_Push pending_delivery
  | Op_DropExpired int
  | Op_PopHead string
  | Op_DropHead string
  | Op_ClearFor string

fun queue_exec :: "queue_op \<Rightarrow> queue_state \<Rightarrow> queue_state" where
  "queue_exec (Op_Push item) q = snd (push item q)"
| "queue_exec (Op_DropExpired now) q = snd (drop_expired now q)"
| "queue_exec (Op_PopHead to) q = pop_head to q"
| "queue_exec (Op_DropHead to) q = drop_head to q"
| "queue_exec (Op_ClearFor to) q = snd (clear_for to q)"

definition queue_run :: "queue_op list \<Rightarrow> queue_state \<Rightarrow> queue_state" where
  "queue_run ops q = fold queue_exec ops q"


section \<open>The drainer and the cancel hook\<close>

datatype drain_outcome = Drain_Delivered | Drain_Busy | Drain_HardError string

text \<open>What becomes of one snapshotted head once its gate and its delivery have answered.\<close>

definition drain_item ::
  "bool \<Rightarrow> drain_outcome \<Rightarrow> pending_delivery \<Rightarrow> queue_state \<Rightarrow> queue_state" where
  "drain_item enabled outcome item q =
    (if \<not> enabled then snd (clear_for (pd_to item) q)
     else case outcome of
       Drain_Delivered \<Rightarrow> pop_head (pd_to item) q
     | Drain_Busy \<Rightarrow> q
     | Drain_HardError _ \<Rightarrow> drop_head (pd_to item) q)"

text \<open>\<open>others item\<close> is what other tasks did to the queue while the gate and the sink of \<open>item\<close> were
  awaited.\<close>

definition tick_once ::
  "int \<Rightarrow> (string \<Rightarrow> bool) \<Rightarrow> (pending_delivery \<Rightarrow> drain_outcome) \<Rightarrow> (pending_delivery \<Rightarrow> queue_op list)
     \<Rightarrow> queue_state \<Rightarrow> queue_state" where
  "tick_once now gate sink others q =
    (let q1 = snd (drop_expired now q)
     in fold (\<lambda>item q. drain_item (gate (pd_user item)) (sink item) item (queue_run (others item) q))
          (snapshot_heads q1) q1)"

datatype cancel_cause = Cause_UserRequested | Cause_RuntimeRestart

definition on_turn_cancelled :: "string \<Rightarrow> cancel_cause \<Rightarrow> queue_state \<Rightarrow> queue_state" where
  "on_turn_cancelled conversation cause q =
     (if cause \<noteq> Cause_UserRequested then q else snd (clear_for conversation q))"


section \<open>The queue's integrity\<close>

definition backlog :: "queue_state \<Rightarrow> string \<Rightarrow> pending_delivery list" where
  "backlog q to = (case map_of (qs_by_target q) to of Some b \<Rightarrow> b | None \<Rightarrow> [])"

definition queue_ok :: "queue_state \<Rightarrow> bool" where
  "queue_ok q \<longleftrightarrow> distinct (keys (qs_by_target q)) \<and>
     (\<forall>(k, b) \<in> set (qs_by_target q). b \<noteq> [] \<and> length b \<le> per_target_limit \<and> (\<forall>i \<in> set b. pd_to i = k)) \<and>
     qs_total q = sum_list (map length (vals (qs_by_target q))) \<and> qs_total q \<le> global_limit"

declare map_of_eq_Some_iff [simp del]

abbreviation backlog_size :: "(string, pending_delivery list) hashmap \<Rightarrow> nat" where
  "backlog_size m \<equiv> sum_list (map length (vals m))"

lemma size_modify:
  "distinct (keys m) \<Longrightarrow> map_of m k = Some b
     \<Longrightarrow> backlog_size (modify k f m) + length b = backlog_size m + length (f b)"
proof (induction m)
  case (Cons e m)
  obtain k' b' where e: "e = (k', b')" by (cases e)
  show ?case
  proof (cases "k' = k")
    case True
    with e Cons.prems modify_absent_key [of k m f] show ?thesis by (simp add: modify_def)
  next
    case False
    with Cons e show ?thesis by (simp add: modify_def)
  qed
qed simp

lemma size_delete:
  "distinct (keys m) \<Longrightarrow> map_of m k = Some b \<Longrightarrow> backlog_size (AList.delete k m) + length b = backlog_size m"
proof (induction m)
  case (Cons e m)
  obtain k' b' where e: "e = (k', b')" by (cases e)
  show ?case
  proof (cases "k' = k")
    case True
    then have "AList.delete k m = m" using Cons.prems(1) e by (simp add: AList.delete_idem)
    with True e Cons.prems(2) show ?thesis by simp
  next
    case False
    with Cons e show ?thesis by simp
  qed
qed simp

lemma size_alive:
  "backlog_size (filter (\<lambda>(_, b). b \<noteq> []) (map_values (filter P) m))
     + sum_list (map (\<lambda>b. length b - length (filter P b)) (vals m)) = backlog_size m"
proof (induction m)
  case (Cons e m)
  obtain k b where e: "e = (k, b)" by (cases e)
  have "length (filter P b) \<le> length b" by (rule length_filter_le)
  with Cons e show ?case by (simp add: map_values_def del: length_filter_le)
qed (simp add: map_values_def)

lemma set_modify: "(k', b) \<in> set (modify k f m) \<Longrightarrow> (k' = k \<and> (\<exists>b0. (k, b0) \<in> set m \<and> b = f b0)) \<or> (k' \<noteq> k \<and> (k', b) \<in> set m)"
  by (auto simp: modify_def split: if_splits)

lemma queue_okI:
  assumes "distinct (keys (qs_by_target q))"
    and "\<And>k b. (k, b) \<in> set (qs_by_target q) \<Longrightarrow> b \<noteq> [] \<and> length b \<le> per_target_limit \<and> (\<forall>i \<in> set b. pd_to i = k)"
    and "qs_total q = backlog_size (qs_by_target q)" and "qs_total q \<le> global_limit"
  shows "queue_ok q"
  using assms by (auto simp: queue_ok_def)

lemma queue_okD:
  assumes "queue_ok q"
  shows "distinct (keys (qs_by_target q))" and "qs_total q = backlog_size (qs_by_target q)"
    and "qs_total q \<le> global_limit"
    and "(k, b) \<in> set (qs_by_target q) \<Longrightarrow> b \<noteq> [] \<and> length b \<le> per_target_limit \<and> (\<forall>i \<in> set b. pd_to i = k)"
  using assms by (auto simp: queue_ok_def)

lemma bucket_ok:
  assumes "queue_ok q" "map_of (qs_by_target q) k = Some b"
  shows "b \<noteq> []" and "length b \<le> per_target_limit" and "\<forall>i \<in> set b. pd_to i = k"
  using queue_okD(4) [OF assms(1) map_of_SomeD [OF assms(2)]] by auto

lemma backlog_ok:
  assumes "queue_ok q"
  shows "length (backlog q k) \<le> per_target_limit" and "\<forall>i \<in> set (backlog q k). pd_to i = k"
  by (cases "map_of (qs_by_target q) k"; use bucket_ok [OF assms] in \<open>simp add: backlog_def\<close>)+

lemma ok_new: "queue_ok new_queue"
  by (simp add: queue_ok_def new_queue_def)

text \<open>What a push does to the map, once: it is refused and changes nothing, or appends.\<close>

lemma push_cases:
  assumes "queue_ok q"
  shows "push item q = (Push_QueueFull, q) \<and>
      (global_limit \<le> qs_total q \<or> per_target_limit \<le> length (backlog q (pd_to item)))
    \<or> push item q = (Push_Ok, \<lparr>qs_by_target = AList.update (pd_to item) (backlog q (pd_to item) @ [item]) (qs_by_target q),
         qs_total = qs_total q + 1\<rparr>)
      \<and> qs_total q < global_limit \<and> length (backlog q (pd_to item)) < per_target_limit"
proof (cases "map_of (qs_by_target q) (pd_to item)")
  case None
  then show ?thesis by (simp add: push_def backlog_def per_target_limit_def modify_update_new)
next
  case (Some b)
  note update = modify_conv_update [OF queue_okD(1) [OF assms] Some]
  show ?thesis by (simp add: push_def backlog_def Let_def Some update)
qed

lemma ok_push:
  assumes "queue_ok q"
  shows "queue_ok (snd (push item q))"
proof -
  let ?k = "pd_to item" and ?m = "qs_by_target q"
  have room: "backlog_size (AList.update ?k (backlog q ?k @ [item]) ?m) = backlog_size ?m + 1"
  proof (cases "map_of ?m ?k")
    case None
    have "map_of m k = None \<Longrightarrow> AList.update k v m = m @ [(k, v)]"
      for k :: string and v :: "pending_delivery list" and m by (induction m) auto
    from this [OF None] show ?thesis by (simp add: backlog_def None)
  next
    case (Some b)
    then show ?thesis
      using size_modify [OF queue_okD(1) [OF assms] Some, of "\<lambda>b. b @ [item]"]
      by (simp add: backlog_def modify_conv_update [OF queue_okD(1) [OF assms] Some])
  qed
  have members: "b \<noteq> [] \<and> length b \<le> per_target_limit \<and> (\<forall>i \<in> set b. pd_to i = k)"
    if "(k, b) \<in> set (AList.update ?k (backlog q ?k @ [item]) ?m)" "length (backlog q ?k) < per_target_limit"
    for k b
  proof -
    have "map_of (AList.update ?k (backlog q ?k @ [item]) ?m) k = Some b"
      using map_of_is_SomeI [OF distinct_update [OF queue_okD(1) [OF assms]] that(1)] .
    then consider "k = ?k" "b = backlog q ?k @ [item]" | "k \<noteq> ?k" "map_of ?m k = Some b"
      by (auto simp: split: if_splits)
    then show ?thesis
    proof cases
      case 1
      then show ?thesis using that(2) backlog_ok(2) [OF assms, of ?k] by auto
    next
      case 2
      with bucket_ok [OF assms 2(2)] show ?thesis by blast
    qed
  qed
  from push_cases [OF assms, of item] show ?thesis
  proof
    assume "push item q = (Push_Ok, \<lparr>qs_by_target = AList.update ?k (backlog q ?k @ [item]) ?m,
      qs_total = qs_total q + 1\<rparr>) \<and> qs_total q < global_limit \<and> length (backlog q ?k) < per_target_limit"
    then have out: "snd (push item q) = \<lparr>qs_by_target = AList.update ?k (backlog q ?k @ [item]) ?m,
        qs_total = qs_total q + 1\<rparr>" "qs_total q < global_limit" "length (backlog q ?k) < per_target_limit"
      by simp_all
    show ?thesis unfolding out(1)
    proof (rule queue_okI, goal_cases)
      case (2 k b)
      show ?case by (rule members) (use 2 out(3) in simp_all)
    qed (use queue_okD(1,2) [OF assms] room out(2) in simp_all)
  qed (use assms in simp)
qed

lemma ok_expired:
  assumes "queue_ok q"
  shows "queue_ok (snd (drop_expired now q))"
proof (rule queue_okI)
  let ?m = "qs_by_target q"
  show "distinct (keys (qs_by_target (snd (drop_expired now q))))"
    using queue_okD(1) [OF assms] by (simp add: drop_expired_def Let_def distinct_map_filter)
  show "qs_total (snd (drop_expired now q)) = backlog_size (qs_by_target (snd (drop_expired now q)))"
    using size_alive [of "alive now" ?m] queue_okD(2) [OF assms] by (simp add: drop_expired_def Let_def)
  show "qs_total (snd (drop_expired now q)) \<le> global_limit"
    using queue_okD(3) [OF assms] by (simp add: drop_expired_def Let_def)
next
  fix k b assume "(k, b) \<in> set (qs_by_target (snd (drop_expired now q)))"
  then obtain b0 where b: "(k, b0) \<in> set (qs_by_target q)" "b = filter (alive now) b0" "b \<noteq> []"
    by (auto simp: drop_expired_def Let_def map_values_def)
  have "length b \<le> per_target_limit"
    unfolding b(2) using queue_okD(4) [OF assms b(1)] by (blast intro: le_trans length_filter_le)
  then show "b \<noteq> [] \<and> length b \<le> per_target_limit \<and> (\<forall>i \<in> set b. pd_to i = k)"
    using queue_okD(4) [OF assms b(1)] b(2,3) by auto
qed

lemma ok_clear:
  assumes "queue_ok q"
  shows "queue_ok (snd (clear_for to q))"
proof (cases "map_of (qs_by_target q) to")
  case None
  then have "AList.delete to (qs_by_target q) = qs_by_target q"
    by (simp add: map_of_eq_None_iff)
  then show ?thesis using assms None by (cases q) (simp add: clear_for_def Let_def)
next
  case (Some b)
  note size = size_delete [OF queue_okD(1) [OF assms] Some]
  show ?thesis
  proof (rule queue_okI)
    fix k c assume "(k, c) \<in> set (qs_by_target (snd (clear_for to q)))"
    then have "(k, c) \<in> set (qs_by_target q)" 
      by (auto simp: clear_for_def Let_def AList.delete_eq)
    then show "c \<noteq> [] \<and> length c \<le> per_target_limit \<and> (\<forall>i \<in> set c. pd_to i = k)"
      by (rule queue_okD(4) [OF assms])
  qed (use size queue_okD(1-3) [OF assms] in \<open>simp_all add: clear_for_def Let_def Some\<close>)
qed

lemma remove_head_some:
  assumes "queue_ok q" "map_of (qs_by_target q) to = Some b"
  shows "remove_head to q = \<lparr>qs_by_target = (if tl b = [] then AList.delete to (qs_by_target q)
      else AList.update to (tl b) (qs_by_target q)), qs_total = qs_total q - 1\<rparr>"
proof -
  show ?thesis
    using bucket_ok(1) [OF assms] modify_conv_update [OF queue_okD(1) [OF assms(1)] assms(2), of tl]
    by (simp add: remove_head_def Let_def assms(2) AList.delete_update_same)
qed

lemma ok_remove:
  assumes "queue_ok q"
  shows "queue_ok (remove_head to q)"
proof (cases "map_of (qs_by_target q) to")
  case None
  then show ?thesis using assms by (simp add: remove_head_def)
next
  case (Some b)
  note dist = queue_okD(1) [OF assms] and b = bucket_ok [OF assms Some]
  have size: "backlog_size (if tl b = [] then AList.delete to (qs_by_target q)
      else AList.update to (tl b) (qs_by_target q)) = backlog_size (qs_by_target q) - 1"
    using size_delete [OF dist Some] size_modify [OF dist Some, of tl] modify_conv_update [OF dist Some, of tl] b
    by (cases b; cases "tl b") auto
  show ?thesis unfolding remove_head_some [OF assms Some]
  proof (rule queue_okI)
    fix k c assume "(k, c) \<in> set (qs_by_target \<lparr>qs_by_target = (if tl b = []
      then AList.delete to (qs_by_target q) else AList.update to (tl b) (qs_by_target q)), qs_total = qs_total q - 1\<rparr>)"
    then have "map_of (if tl b = [] then AList.delete to (qs_by_target q)
      else AList.update to (tl b) (qs_by_target q)) k = Some c"
      by (intro map_of_is_SomeI) (use dist in \<open>auto simp: distinct_delete distinct_update\<close>)
    note at = this
    show "c \<noteq> [] \<and> length c \<le> per_target_limit \<and> (\<forall>i \<in> set c. pd_to i = k)"
    proof (cases "k = to")
      case True
      with at have "c = tl b" "tl b \<noteq> []" by (simp_all split: if_split_asm)
      moreover have "set (tl b) \<subseteq> set b" by (cases b) auto
      ultimately show ?thesis using b True by auto
    next
      case False
      with at have "map_of (qs_by_target q) k = Some c" by (simp split: if_split_asm)
      with bucket_ok [OF assms this] show ?thesis by blast
    qed
  qed (use dist size queue_okD(2,3) [OF assms] in \<open>simp_all add: distinct_delete distinct_update del: map_map\<close>)
qed

lemma ok_exec: "queue_ok q \<Longrightarrow> queue_ok (queue_exec op q)"
  by (cases op) (simp_all add: ok_push ok_expired ok_clear ok_remove pop_head_def drop_head_def)

lemma ok_run: "queue_ok q \<Longrightarrow> queue_ok (queue_run ops q)"
  unfolding queue_run_def by (induction ops arbitrary: q) (simp_all add: ok_exec)


section \<open>The queue as one first-in first-out list per target\<close>

lemma backlog_remove: "queue_ok q \<Longrightarrow> backlog (remove_head to q) u = (if u = to then tl (backlog q u) else backlog q u)"
  proof (cases "map_of (qs_by_target q) to")
  case (Some b)
  assume "queue_ok q"
  from remove_head_some [OF this Some] show ?thesis by (simp add: backlog_def Some)
qed (simp add: backlog_def remove_head_def)

lemma backlog_clear: "backlog (snd (clear_for to q)) u = (if u = to then [] else backlog q u)"
  by (simp add: backlog_def clear_for_def Let_def)

lemma map_of_alive:
  fixes m :: "(string \<times> pending_delivery list) list"
  shows "distinct (keys m) \<Longrightarrow> map_of (filter (\<lambda>(_, b). b \<noteq> []) (map_values (filter P) m)) k =
     (case map_of m k of Some b \<Rightarrow> if filter P b = [] then None else Some (filter P b) | None \<Rightarrow> None)"
proof (induction m)
  case (Cons e m)
  have "map_of (filter Q (map_values f m)) k = None" if "map_of m k = None"
    for Q and f :: "pending_delivery list \<Rightarrow> pending_delivery list" and m :: "(string \<times> pending_delivery list) list"
    using that by (induction m) (auto simp: map_values_def)
  moreover have "map_of m (fst e) = None" using Cons.prems by (simp add: map_of_eq_None_iff)
  ultimately show ?case using Cons by (cases e) (auto simp: map_values_def)
qed (simp add: map_values_def)

lemma backlog_expired: "queue_ok q \<Longrightarrow> backlog (snd (drop_expired now q)) u = filter (alive now) (backlog q u)"
  using map_of_alive [OF queue_okD(1), of q "alive now" u]
  by (simp add: backlog_def drop_expired_def Let_def split: option.split)

lemma backlog_push:
  "queue_ok q \<Longrightarrow> backlog (snd (push item q)) u =
     (if u = pd_to item \<and> fst (push item q) = Push_Ok then backlog q u @ [item] else backlog q u)"
  using push_cases [of q item] by (auto simp: backlog_def)

lemma first_opt_iff: "first_opt b = Some i \<longleftrightarrow> (\<exists>rest. b = i # rest)"
  by (cases b) auto

lemma heads_backlog:
  assumes "queue_ok q"
  shows "i \<in> set (snapshot_heads q) \<longleftrightarrow> (\<exists>rest. backlog q (pd_to i) = i # rest)"
proof
  assume "i \<in> set (snapshot_heads q)"
  then obtain k b rest where b: "(k, b) \<in> set (qs_by_target q)" "b = i # rest"
    by (auto simp: snapshot_heads_def set_filter_map first_opt_iff)
  have "pd_to i = k" using queue_okD(4) [OF assms b(1)] b(2) by simp
  moreover have "map_of (qs_by_target q) k = Some b"
    by (rule map_of_is_SomeI [OF queue_okD(1) [OF assms] b(1)])
  ultimately show "\<exists>rest. backlog q (pd_to i) = i # rest" using b(2) by (simp add: backlog_def)
next
  assume "\<exists>rest. backlog q (pd_to i) = i # rest"
  then obtain rest where "map_of (qs_by_target q) (pd_to i) = Some (i # rest)"
    by (auto simp: backlog_def split: option.splits)
  from map_of_SomeD [OF this] show "i \<in> set (snapshot_heads q)"
    by (force simp: snapshot_heads_def set_filter_map first_opt_iff)
qed

lemma heads_keys:
  "(\<And>k b. (k, b) \<in> set m \<Longrightarrow> b \<noteq> [] \<and> (\<forall>i \<in> set b. pd_to i = k))
     \<Longrightarrow> map pd_to (filter_map first_opt (vals m)) = keys m"
proof (induction m)
  case (Cons e m)
  obtain k b where e: "e = (k, b)" by (cases e)
  have "b \<noteq> [] \<and> (\<forall>i \<in> set b. pd_to i = k)" by (rule Cons.prems) (simp add: e)
  then obtain i rest where b: "b = i # rest" "pd_to i = k" by (cases b) auto
  have "map pd_to (filter_map first_opt (vals m)) = keys m" by (rule Cons.IH) (rule Cons.prems, simp)
  with e b show ?case by simp
qed simp

lemma distinct_heads:
  assumes "queue_ok q"
  shows "distinct (map pd_to (snapshot_heads q))"
proof -
  have "map pd_to (snapshot_heads q) = keys (qs_by_target q)"
    unfolding snapshot_heads_def by (rule heads_keys) (use queue_okD(4) [OF assms] in blast)
  then show ?thesis using queue_okD(1) [OF assms] by simp
qed

end
