(* ===== verification/Message_Drain.thy ===== *)
theory Message_Drain
  imports Message_Queue "HOL-Library.Sublist"
begin

text \<open>
  What the drainer does to the queue of cross-session messages. The pass relies only on the queue
  being, for each target, a first-in first-out list (the locale \<open>target_inbox\<close>), which the queue's
  model provides.
\<close>

section \<open>What the drainer needs of a queue\<close>

text \<open>The part of a target's list that a pass leaves, from its unexpired messages: all of them when
  the target is not ready, none when the feature is off for the user of the first, otherwise all but
  the first.\<close>

definition settle ::
  "(string \<Rightarrow> bool) \<Rightarrow> (pending_delivery \<Rightarrow> drain_outcome) \<Rightarrow> pending_delivery list \<Rightarrow> pending_delivery list" where
  "settle gate sink b = (case b of
      [] \<Rightarrow> []
    | i # rest \<Rightarrow> if \<not> gate (pd_user i) then [] else if sink i = Drain_Busy then b else rest)"

lemma settle_append:
  "b \<noteq> [] \<Longrightarrow> \<exists>extra'. settle gate sink (b @ extra) = settle gate sink b @ extra' \<and> set extra' \<subseteq> set extra"
  by (cases b) (auto simp: settle_def)

locale target_inbox =
  fixes good :: "'q \<Rightarrow> bool" and view :: "'q \<Rightarrow> string \<Rightarrow> pending_delivery list"
    and heads :: "'q \<Rightarrow> pending_delivery list"
    and remove clear :: "string \<Rightarrow> 'q \<Rightarrow> 'q" and add :: "pending_delivery \<Rightarrow> 'q \<Rightarrow> 'q"
  assumes good_remove: "good q \<Longrightarrow> good (remove to q)"
    and good_clear: "good q \<Longrightarrow> good (clear to q)"
    and good_add: "good q \<Longrightarrow> good (add i q)"
    and view_remove: "good q \<Longrightarrow> view (remove to q) u = (if u = to then tl (view q u) else view q u)"
    and view_clear: "good q \<Longrightarrow> view (clear to q) u = (if u = to then [] else view q u)"
    and view_add: "good q \<Longrightarrow> view (add i q) u = view q u \<or> (u = pd_to i \<and> view (add i q) u = view q u @ [i])"
    and heads_first: "good q \<Longrightarrow> i \<in> set (heads q) \<longleftrightarrow> (\<exists>rest. view q (pd_to i) = i # rest)"
    and heads_once: "good q \<Longrightarrow> distinct (map pd_to (heads q))"
begin

lemma add_all:
  "good q \<Longrightarrow> good (fold add items q)
     \<and> (\<exists>extra. view (fold add items q) u = view q u @ extra \<and> set extra \<subseteq> set items)"
proof (induction items arbitrary: q)
  case (Cons i items)
  obtain ex1 where "view (add i q) u = view q u @ ex1" "set ex1 \<subseteq> {i}"
    using view_add [OF Cons.prems, of i u] by force
  moreover obtain ex2 where "view (fold add items (add i q)) u = view (add i q) u @ ex2" "set ex2 \<subseteq> set items"
    using Cons.IH [OF good_add [OF Cons.prems]] by blast
  ultimately have "view (fold add (i # items) q) u = view q u @ ex1 @ ex2 \<and> set (ex1 @ ex2) \<subseteq> set (i # items)"
    by auto
  with Cons.IH [OF good_add [OF Cons.prems]] show ?case by (metis fold_simps(2))
qed simp

abbreviation dispose :: "bool \<Rightarrow> drain_outcome \<Rightarrow> string \<Rightarrow> 'q \<Rightarrow> 'q" where
  "dispose on out to q \<equiv> if \<not> on then clear to q else if out = Drain_Busy then q else remove to q"

lemma dispose_good: "good q \<Longrightarrow> good (dispose on out to q)"
  by (simp add: good_clear good_remove)

lemma pass:
  assumes "good q" and "distinct (map pd_to items)"
    and "\<And>i. i \<in> set items \<Longrightarrow> \<exists>rest. view q (pd_to i) = i # rest"
    and "\<And>i. i \<in> set items \<Longrightarrow> set (pushed i) \<subseteq> N"
  shows "good (fold (\<lambda>i q. dispose (gate (pd_user i)) (sink i) (pd_to i) (fold add (pushed i) q)) items q)
    \<and> (\<exists>extra. set extra \<subseteq> N \<and>
        view (fold (\<lambda>i q. dispose (gate (pd_user i)) (sink i) (pd_to i) (fold add (pushed i) q)) items q) u =
          (if u \<in> pd_to ` set items then settle gate sink (view q u) else view q u) @ extra)"
  using assms
proof (induction items arbitrary: q)
  case Nil
  then show ?case by simp
next
  case (Cons i items)
  define q1 where "q1 = fold add (pushed i) q"
  define q2 where "q2 = dispose (gate (pd_user i)) (sink i) (pd_to i) q1"
  have q1: "good q1" using add_all [OF Cons.prems(1)] by (simp add: q1_def)
  have q2: "good q2" using dispose_good [OF q1] by (simp add: q2_def)
  have grown: "\<exists>extra. view q1 v = view q v @ extra \<and> set extra \<subseteq> N" for v
    using add_all [OF Cons.prems(1), of "pushed i" v] Cons.prems(4) [of i] by (auto simp: q1_def)
  have other: "\<exists>extra. view q2 v = view q v @ extra \<and> set extra \<subseteq> N" if "v \<noteq> pd_to i" for v
    using grown [of v] that by (simp add: q2_def view_clear [OF q1] view_remove [OF q1])
  have mine: "\<exists>extra. view q2 (pd_to i) = settle gate sink (view q (pd_to i)) @ extra \<and> set extra \<subseteq> N"
  proof -
    obtain rest where rest: "view q (pd_to i) = i # rest" using Cons.prems(3) [of i] by auto
    obtain extra where extra: "view q1 (pd_to i) = view q (pd_to i) @ extra" "set extra \<subseteq> N" using grown by blast
    show ?thesis
    proof (cases "gate (pd_user i)")
      case True
      with rest extra show ?thesis by (auto simp: q2_def settle_def view_remove [OF q1])
    next
      case False
      with rest show ?thesis by (simp add: q2_def settle_def view_clear [OF q1])
    qed
  qed
  have later: "\<exists>rest. view q2 (pd_to j) = j # rest" if "j \<in> set items" for j
  proof -
    have "pd_to j \<noteq> pd_to i" using Cons.prems(2) that by (auto simp: image_iff)
    from other [OF this] Cons.prems(3) [of j] that show ?thesis by auto
  qed
  define q' where "q' = fold (\<lambda>i q. dispose (gate (pd_user i)) (sink i) (pd_to i) (fold add (pushed i) q)) items q2"
  have "distinct (map pd_to items)" "\<And>j. j \<in> set items \<Longrightarrow> set (pushed j) \<subseteq> N"
    using Cons.prems(2,4) by simp_all
  from Cons.IH [OF q2 this(1) later this(2)] have IH: "good q'" "\<exists>extra. set extra \<subseteq> N \<and>
      view q' u = (if u \<in> pd_to ` set items then settle gate sink (view q2 u) else view q2 u) @ extra"
    unfolding q'_def by blast+
  then obtain extra where extra: "set extra \<subseteq> N"
    "view q' u = (if u \<in> pd_to ` set items then settle gate sink (view q2 u) else view q2 u) @ extra" by blast
  have "\<exists>extra. set extra \<subseteq> N \<and>
    view q' u = (if u \<in> pd_to ` set (i # items) then settle gate sink (view q u) else view q u) @ extra"
  proof (cases "u = pd_to i")
    case True
    then have "u \<notin> pd_to ` set items" using Cons.prems(2) by auto
    then have "view q' u = view q2 u @ extra" using extra by simp
    moreover obtain ex where "view q2 u = settle gate sink (view q u) @ ex" "set ex \<subseteq> N" using mine True by blast
    ultimately show ?thesis using extra(1) True by (intro exI [where x = "ex @ extra"]) simp
  next
    case False
    then obtain ex where ex: "view q2 u = view q u @ ex" "set ex \<subseteq> N" using other by blast
    show ?thesis
    proof (cases "u \<in> pd_to ` set items")
      case True
      then obtain j where "j \<in> set items" "u = pd_to j" by blast
      with Cons.prems(3) [of j] have "view q u \<noteq> []" by auto
      from settle_append [OF this] obtain ex' where
        "settle gate sink (view q u @ ex) = settle gate sink (view q u) @ ex'" "set ex' \<subseteq> set ex" by blast
      with extra ex True show ?thesis by (intro exI [where x = "ex' @ extra"]) (simp add: subset_trans)
    next
      case False': False
      with extra ex \<open>u \<noteq> pd_to i\<close> show ?thesis by (intro exI [where x = "ex @ extra"]) (simp add: image_iff)
    qed
  qed
  moreover have "fold (\<lambda>i q. dispose (gate (pd_user i)) (sink i) (pd_to i) (fold add (pushed i) q)) (i # items) q = q'"
    by (simp only: fold_simps q'_def q2_def q1_def)
  ultimately show ?case using IH(1) by metis
qed

end

interpretation inbox: target_inbox queue_ok backlog snapshot_heads remove_head
    "\<lambda>to q. snd (clear_for to q)" "\<lambda>i q. snd (push i q)"
  by unfold_locales (auto simp: ok_remove ok_clear ok_push backlog_remove backlog_clear backlog_push
      heads_backlog distinct_heads)

section \<open>Passes over the model\<close>

lemma drain_item_dispose:
  "drain_item (gate (pd_user i)) (sink i) i q =
     (if \<not> gate (pd_user i) then snd (clear_for (pd_to i) q)
      else if sink i = Drain_Busy then q else remove_head (pd_to i) q)"
  by (simp add: drain_item_def pop_head_def drop_head_def split: drain_outcome.split)

lemma queue_run_pushes: "queue_run (map Op_Push items) q = fold (\<lambda>i q. snd (push i q)) items q"
  unfolding queue_run_def by (induction items arbitrary: q) simp_all

lemma ok_tick: "queue_ok q \<Longrightarrow> queue_ok (tick_once now gate sink others q)"
proof -
  have "queue_ok (fold (\<lambda>i q. drain_item (gate (pd_user i)) (sink i) i (queue_run (others i) q)) items q)"
    if "queue_ok q" for items q
    using that by (induction items arbitrary: q) (simp_all add: drain_item_dispose ok_clear ok_remove ok_run)
  then show "queue_ok q \<Longrightarrow> ?thesis" by (simp add: tick_once_def Let_def ok_expired)
qed

lemma tick_settles_each_head_pushes:
  assumes "queue_ok q" and "\<And>i. others i = map Op_Push (pushed i)"
  shows "\<exists>extra. set extra \<subseteq> (\<Union>i. set (pushed i)) \<and>
    backlog (tick_once now gate sink others q) t = settle gate sink (filter (alive now) (backlog q t)) @ extra"
proof -
  define q1 where "q1 = snd (drop_expired now q)"
  have q1: "queue_ok q1" using assms(1) by (simp add: q1_def ok_expired)
  have view: "backlog q1 t = filter (alive now) (backlog q t)"
    using assms(1) by (simp add: q1_def backlog_expired)
  have tick: "tick_once now gate sink others q =
    fold (\<lambda>i q. if \<not> gate (pd_user i) then snd (clear_for (pd_to i) (fold (\<lambda>i q. snd (push i q)) (pushed i) q))
      else if sink i = Drain_Busy then fold (\<lambda>i q. snd (push i q)) (pushed i) q
      else remove_head (pd_to i) (fold (\<lambda>i q. snd (push i q)) (pushed i) q)) (snapshot_heads q1) q1"
    by (simp add: tick_once_def Let_def drain_item_dispose assms(2) queue_run_pushes q1_def)
  obtain extra where extra: "set extra \<subseteq> (\<Union>i. set (pushed i))"
    "backlog (tick_once now gate sink others q) t = (if t \<in> pd_to ` set (snapshot_heads q1)
       then settle gate sink (backlog q1 t) else backlog q1 t) @ extra"
    using inbox.pass [OF q1 inbox.heads_once [OF q1], of pushed "\<Union>i. set (pushed i)" gate sink t]
      inbox.heads_first [OF q1] unfolding tick by blast
  have "settle gate sink (backlog q1 t) = backlog q1 t" if none: "t \<notin> pd_to ` set (snapshot_heads q1)"
  proof (cases "backlog q1 t")
    case (Cons i rest)
    then have "pd_to i = t" using backlog_ok(2) [OF q1, of t] by simp
    with Cons none inbox.heads_first [OF q1, of i] show ?thesis by (auto simp: image_iff)
  qed (simp add: settle_def)
  with extra view show ?thesis by metis
qed

text \<open>One pass of the drainer settles every target once and loses nothing. Whatever other tasks
  push meanwhile, after the pass the backlog of each target is what was there, without the expired
  messages and without the first of the rest if its delivery was attempted and answered anything but
  busy (all of it if the feature is off for that message's user), followed only by messages pushed
  during the pass.\<close>
theorem tick_settles_each_head:
  assumes "queue_ok q" and "\<And>i. others i = map Op_Push (pushed i)"
  shows "\<exists>extra. set extra \<subseteq> (\<Union>i. set (pushed i)) \<and>
    backlog (tick_once now gate sink others q) t = settle gate sink (filter (alive now) (backlog q t)) @ extra"
  by (rule tick_settles_each_head_pushes [OF assms])

definition demo_item :: "string \<Rightarrow> string \<Rightarrow> pending_delivery" where
  "demo_item to m = \<lparr>pd_to = to, pd_user = ''u'', pd_from = ''c'', pd_message = m, pd_expires = 100\<rparr>"

definition demo_inbox :: queue_state where
  "demo_inbox = queue_run (map Op_Push [demo_item ''b'' ''1'', demo_item ''b'' ''2'', demo_item ''a'' ''3'']) new_queue"

lemma tick_settles_each_head_witness:
  "\<exists>extra. set extra \<subseteq> {demo_item ''b'' ''4''} \<and>
     backlog (tick_once 0 (\<lambda>_. True) (\<lambda>_. Drain_Delivered) (\<lambda>_. [Op_Push (demo_item ''b'' ''4'')]) demo_inbox) ''b''
       = [demo_item ''b'' ''2''] @ extra"
proof -
  have "settle (\<lambda>_. True) (\<lambda>_. Drain_Delivered) (filter (alive 0) (backlog demo_inbox ''b'')) = [demo_item ''b'' ''2'']"
    by code_simp
  moreover have "queue_ok demo_inbox" unfolding demo_inbox_def by (rule ok_run [OF ok_new])
  ultimately show ?thesis
    using tick_settles_each_head [of demo_inbox "\<lambda>_. [Op_Push (demo_item ''b'' ''4'')]" "\<lambda>_. [demo_item ''b'' ''4'']" 0
        "\<lambda>_. True" "\<lambda>_. Drain_Delivered" "''b''"] by simp
qed

text \<open>What a pass does when no other task interferes.\<close>

lemma tick_alone:
  assumes "queue_ok q"
  shows "backlog (tick_once now gate sink (\<lambda>_. []) q) t = settle gate sink (filter (alive now) (backlog q t))"
proof -
  have "set extra \<subseteq> (\<Union>i::pending_delivery. set []) \<Longrightarrow> extra = []" for extra :: "pending_delivery list" by simp
  then show ?thesis using tick_settles_each_head_pushes [OF assms, of "\<lambda>_. []"] by auto
qed

lemma backlog_total:
  assumes "queue_ok q"
  shows "total_len q = (\<Sum>t | backlog q t \<noteq> []. len_for t q)"
proof -
  let ?m = "qs_by_target q"
  note dist = queue_okD(1) [OF assms]
  have "{t. backlog q t \<noteq> []} = set (keys ?m)"
  proof (intro equalityI subsetI)
    fix t assume "t \<in> {t. backlog q t \<noteq> []}"
    then show "t \<in> set (keys ?m)" by (auto simp: backlog_def dest: map_of_in_keys [unfolded set_map] split: option.splits)
  next
    fix t assume "t \<in> set (keys ?m)"
    then obtain b where "(t, b) \<in> set ?m" by auto
    with queue_okD(4) [OF assms this] map_of_is_SomeI [OF dist this] show "t \<in> {t. backlog q t \<noteq> []}"
      by (simp add: backlog_def)
  qed
  moreover have "sum (\<lambda>t. len_for t q) (set (keys ?m)) = sum_list (map (\<lambda>t. len_for t q) (keys ?m))"
    by (rule sum.distinct_set_conv_list [OF dist])
  moreover have "map (\<lambda>t. len_for t q) (keys ?m) = map length (vals ?m)"
    using map_of_is_SomeI [OF dist] by (auto simp: len_for_def)
  ultimately show ?thesis using queue_okD(2) [OF assms] by (simp add: total_len_def del: map_map)
qed

lemma len_for_backlog: "len_for t q = length (backlog q t)"
  by (simp add: len_for_def backlog_def split: option.split)

lemma push_room:
  "queue_ok q \<Longrightarrow> fst (push item q) = Push_Ok \<longleftrightarrow> total_len q < 200 \<and> len_for (pd_to item) q < 20"
  using push_cases [of q item] by (auto simp: total_len_def len_for_backlog global_limit_def per_target_limit_def)

text \<open>The queue stays within its caps. Whatever sequence of pushes, expiries, removals, clears and
  drainer passes has run, the counter of all queued messages is exactly the sum of the targets' backlogs and
  at most 200, no backlog is longer than 20 or holds a message for another target, and a push is accepted
  exactly when both caps leave room.\<close>
theorem queue_stays_bounded:
  fixes ops now gate sink others
  defines "q \<equiv> tick_once now gate sink others (queue_run ops new_queue)"
  shows "total_len q = (\<Sum>t | backlog q t \<noteq> []. len_for t q) \<and> total_len q \<le> 200
    \<and> (len_for t q \<le> 20 \<and> (\<forall>i \<in> set (backlog q t). pd_to i = t))
    \<and> (fst (push item q) = Push_Ok \<longleftrightarrow> total_len q < 200 \<and> len_for (pd_to item) q < 20)"
proof -
  have ok: "queue_ok q" unfolding q_def by (rule ok_tick [OF ok_run [OF ok_new]])
  from push_room [OF ok, of item] backlog_total [OF ok] queue_okD(3) [OF ok] backlog_ok [OF ok, of t] show ?thesis
    by (simp add: len_for_backlog total_len_def global_limit_def per_target_limit_def)
qed

section \<open>Passes that no other task disturbs\<close>

type_synonym drain_pass = "int \<times> (string \<Rightarrow> bool) \<times> (pending_delivery \<Rightarrow> drain_outcome)"

definition run_passes :: "drain_pass list \<Rightarrow> queue_state \<Rightarrow> queue_state" where
  "run_passes ps q = fold (\<lambda>(now, gate, sink) q. tick_once now gate sink (\<lambda>_. []) q) ps q"

text \<open>The messages for a target a pass, or a series of passes, hands to the sink, in their order: the heads of the
  snapshot for whose user the feature is on.\<close>

definition handed_in_pass :: "int \<Rightarrow> (string \<Rightarrow> bool) \<Rightarrow> queue_state \<Rightarrow> string \<Rightarrow> pending_delivery list" where
  "handed_in_pass now gate q t =
    filter (\<lambda>i. gate (pd_user i) \<and> pd_to i = t) (snapshot_heads (snd (drop_expired now q)))"

fun handed_over :: "drain_pass list \<Rightarrow> queue_state \<Rightarrow> string \<Rightarrow> pending_delivery list" where
  "handed_over [] q t = []"
| "handed_over ((now, gate, sink) # ps) q t =
    handed_in_pass now gate q t @ handed_over ps (tick_once now gate sink (\<lambda>_. []) q) t"

lemma run_passes_simps [simp]:
  "run_passes [] q = q"
  "run_passes ((now, gate, sink) # ps) q = run_passes ps (tick_once now gate sink (\<lambda>_. []) q)"
  by (simp_all add: run_passes_def)

lemma handed_head:
  assumes "queue_ok q"
  shows "handed_in_pass now gate q t =
    (case filter (alive now) (backlog q t) of [] \<Rightarrow> [] | i # _ \<Rightarrow> if gate (pd_user i) then [i] else [])"
proof -
  let ?q = "snd (drop_expired now q)"
  note ok = ok_expired [OF assms, of now]
  have single: "filter P xs = (if P x then [x] else [])"
    if "distinct (map pd_to xs)" "x \<in> set xs" "\<And>y. P y \<Longrightarrow> pd_to y = pd_to x" for P x xs
    using that
  proof (induction xs)
    case (Cons y ys)
    have none: "filter P zs = []" if "pd_to x \<notin> pd_to ` set zs" for zs
      unfolding filter_empty_conv using that Cons.prems(3) by (metis imageI)
    show ?case
    proof (cases "x = y")
      case True
      with Cons.prems(1) none [of ys] show ?thesis by simp
    next
      case False
      with Cons.prems(2) have x: "x \<in> set ys" by simp
      with Cons.prems(1) have "pd_to y \<noteq> pd_to x" by (auto simp: image_iff)
      with Cons x show ?thesis by auto
    qed
  qed simp
  have view: "backlog ?q t = filter (alive now) (backlog q t)" by (rule backlog_expired [OF assms])
  show ?thesis
  proof (cases "backlog ?q t")
    case Nil
    then have "pd_to i \<noteq> t" if "i \<in> set (snapshot_heads ?q)" for i using heads_backlog [OF ok, of i] that by auto
    with Nil view show ?thesis by (auto simp: handed_in_pass_def filter_empty_conv)
  next
    case (Cons i rest)
    then have to: "pd_to i = t" using backlog_ok(2) [OF ok, of t] by simp
    with Cons heads_backlog [OF ok, of i] have "i \<in> set (snapshot_heads ?q)" by simp
    from single [OF distinct_heads [OF ok] this, of "\<lambda>i. gate (pd_user i) \<and> pd_to i = t"] to
    show ?thesis using Cons view by (simp add: handed_in_pass_def)
  qed
qed

definition never_busy :: "drain_pass list \<Rightarrow> bool" where
  "never_busy ps \<longleftrightarrow> (\<forall>p \<in> set ps. \<forall>i. snd (snd p) i \<noteq> Drain_Busy)"

lemma passes_on_target:
  "queue_ok q \<Longrightarrow> never_busy ps \<Longrightarrow>
    queue_ok (run_passes ps q) \<and>
    length (backlog (run_passes ps q) t) \<le> length (backlog q t) - length ps \<and>
    subseq (handed_over ps q t) (backlog q t) \<and>
    (length (backlog q t) \<le> length ps \<longrightarrow> (\<forall>p \<in> set ps. \<forall>i \<in> set (backlog q t). fst (snd p) (pd_user i)) \<longrightarrow>
      subseq (filter (\<lambda>i. \<forall>p \<in> set ps. alive (fst p) i) (backlog q t)) (handed_over ps q t))"
proof (induction ps arbitrary: q)
  case (Cons p ps)
  obtain now gate sink where p: "p = (now, gate, sink)" by (cases p)
  let ?q = "tick_once now gate sink (\<lambda>_. []) q" and ?b = "filter (alive now) (backlog q t)"
  have busy: "sink i \<noteq> Drain_Busy" for i using Cons.prems(2) by (simp add: p never_busy_def)
  have ok: "queue_ok ?q" by (rule ok_tick [OF Cons.prems(1)])
  have "never_busy ps" using Cons.prems(2) by (simp add: never_busy_def)
  note IH = Cons.IH [OF ok this]
  have after: "backlog ?q t = settle gate sink ?b" by (rule tick_alone [OF Cons.prems(1)])
  have shrunk: "length (backlog ?q t) \<le> length (backlog q t) - 1"
  proof -
    have "length (backlog ?q t) \<le> length ?b - 1"
      unfolding after using busy by (cases ?b) (simp_all add: settle_def)
    then show ?thesis by (meson diff_le_mono le_trans length_filter_le)
  qed
  have sub: "subseq ?b (backlog q t)" by (rule subseq_filter_left)
  show ?case
  proof (cases ?b)
    case Nil
    then have none: "handed_in_pass now gate q t = []" "backlog ?q t = []"
      using handed_head [OF Cons.prems(1), of now gate t] after by (simp_all add: settle_def)
    have nil: "filter (\<lambda>i. \<forall>p \<in> set (p # ps). alive (fst p) i) (backlog q t) = []"
      using Nil by (auto simp: p filter_empty_conv)
    have handed: "handed_over (p # ps) q t = []" using none IH by (auto simp: p dest: list_emb_Nil2)
    show ?thesis unfolding nil handed using none(2) IH by (simp add: p)
  next
    case (Cons i rest)
    have handed: "handed_in_pass now gate q t = (if gate (pd_user i) then [i] else [])"
      using handed_head [OF Cons.prems(1), of now gate t] Cons by simp
    have rest: "backlog ?q t = (if gate (pd_user i) then rest else [])"
      unfolding after using Cons busy by (simp add: settle_def)
    have in_order: "subseq (handed_over (p # ps) q t) (backlog q t)"
    proof -
      have "subseq (handed_over (p # ps) q t) ?b"
        using IH handed rest Cons by (cases "gate (pd_user i)") (auto simp: p dest: list_emb_Nil2)
      from subseq_order.trans [OF this sub] show ?thesis .
    qed
    have all: "subseq (filter (\<lambda>i. \<forall>p \<in> set (p # ps). alive (fst p) i) (backlog q t)) (handed_over (p # ps) q t)"
      if short: "length (backlog q t) \<le> length (p # ps)"
        and gates: "\<forall>p \<in> set (p # ps). \<forall>i \<in> set (backlog q t). fst (snd p) (pd_user i)"
    proof -
      have "set (i # rest) \<subseteq> set (backlog q t)" using Cons by (metis filter_is_subset)
      then have members: "i \<in> set (backlog q t)" "set rest \<subseteq> set (backlog q t)" by auto
      then have on: "gate (pd_user i)" using gates by (auto simp: p)
      have "length (backlog ?q t) \<le> length ps" using shrunk short by simp
      moreover have "\<forall>p \<in> set ps. \<forall>i \<in> set (backlog ?q t). fst (snd p) (pd_user i)"
        using gates members rest on by fastforce
      ultimately have "subseq (filter (\<lambda>i. \<forall>p \<in> set ps. alive (fst p) i) rest) (handed_over ps ?q t)"
        using IH rest on by simp
      then have "subseq (filter (\<lambda>i. \<forall>p \<in> set ps. alive (fst p) i) (i # rest)) (handed_over (p # ps) q t)"
        using handed on by (auto simp: p intro: list_emb_Cons)
      moreover have "filter (\<lambda>i. \<forall>p \<in> set (p # ps). alive (fst p) i) (backlog q t)
          = filter (\<lambda>i. \<forall>p \<in> set ps. alive (fst p) i) ?b" by (simp add: p conj_commute)
      ultimately show ?thesis using Cons by simp
    qed
    show ?thesis using IH shrunk in_order all by (auto simp: p)
  qed
qed simp

text \<open>C30: Twenty passes deliver everything, in order. From any state the queue can get into, when no target answers
  busy and no other task touches the queue, it is empty after twenty passes of the drainer; and for each target the
  messages handed to the sink are messages of its backlog in the order of the backlog, each at most once, and,
  while the feature stays on for their users, every message that did not expire before one of the passes is among
  them.\<close>
theorem queue_drains:
  fixes ops :: "queue_op list"
  defines "q \<equiv> queue_run ops new_queue"
  assumes "20 \<le> length passes" and "never_busy passes"
  shows "queue_is_empty (run_passes passes q) \<and> subseq (handed_over passes q t) (backlog q t) \<and>
    ((\<forall>p \<in> set passes. \<forall>i \<in> set (backlog q t). fst (snd p) (pd_user i)) \<longrightarrow>
      subseq (filter (\<lambda>i. \<forall>p \<in> set passes. alive (fst p) i) (backlog q t)) (handed_over passes q t))"
proof -
  note ok = ok_run [OF ok_new, of ops, folded q_def]
  note run = passes_on_target [OF ok assms(3)]
  have short: "length (backlog q u) \<le> length passes" for u
    using backlog_ok(1) [OF ok, of u] assms(2) by (simp add: per_target_limit_def)
  then have "backlog (run_passes passes q) u = []" for u using run [of u] short [of u] by simp
  then have "queue_is_empty (run_passes passes q)"
    using run backlog_total [of "run_passes passes q"] by (simp add: queue_is_empty_def total_len_def)
  with run [of t] short [of t] show ?thesis by blast
qed

lemma queue_drains_witness:
  "handed_over (replicate 20 (0, \<lambda>_. True, \<lambda>_. Drain_Delivered))
     (queue_run (map Op_Push [demo_item ''b'' ''1'', demo_item ''b'' ''2'']) new_queue) ''b''
   = [demo_item ''b'' ''1'', demo_item ''b'' ''2'']"
proof -
  have "backlog (queue_run (map Op_Push [demo_item ''b'' ''1'', demo_item ''b'' ''2'']) new_queue) ''b''
      = [demo_item ''b'' ''1'', demo_item ''b'' ''2'']" by code_simp
  moreover have "alive 0 (demo_item ''b'' ''1'')" "alive 0 (demo_item ''b'' ''2'')" by code_simp+
  ultimately show ?thesis
    using queue_drains [of "replicate 20 (0, \<lambda>_. True, \<lambda>_. Drain_Delivered)"
        "map Op_Push [demo_item ''b'' ''1'', demo_item ''b'' ''2'']" "''b''"]
    by (auto simp: never_busy_def intro: subseq_order.antisym)
qed

text \<open>The pass removes a head by its target's name, not the message it delivered. If the target's
  backlog is cleared (its turn is cancelled) and a new message is queued for it while the delivery of the old
  one is awaited, the new message is removed although nobody tried to deliver it.\<close>

lemma cancel_race_loses_message:
  "set (snapshot_heads (snd (drop_expired 0 (queue_run [Op_Push (demo_item ''b'' ''1'')] new_queue))))
     = {demo_item ''b'' ''1''}
   \<and> backlog (tick_once 0 (\<lambda>_. True) (\<lambda>_. Drain_Delivered) (\<lambda>_. [Op_ClearFor ''b'', Op_Push (demo_item ''b'' ''2'')])
       (queue_run [Op_Push (demo_item ''b'' ''1'')] new_queue)) ''b'' = []"
  by code_simp

text \<open>A restart of the runtime keeps the backlog, a user's cancel drops the conversation's own.\<close>

lemma cancel_hook:
  "backlog (on_turn_cancelled c cause q) t =
     (if cause = Cause_UserRequested \<and> t = c then [] else backlog q t)"
  by (simp add: on_turn_cancelled_def backlog_clear)

end
