(* ===== verification/Rate_Limit.thy ===== *)
theory Rate_Limit
  imports Ki_Prelude
begin

text \<open>
  The two sliding windows that bound how often conversations may message each other, \<open>rate_limit.rs\<close>
  of \<open>crates/aionui-session-message\<close>. A check runs under one lock; the clock's reading is an argument.
  Counts are \<open>u32\<close> as in the source (\<open>len() as u32\<close>).
\<close>

section \<open>The limiter\<close>

definition window_ms :: int where "window_ms = 10 * 60 * 1000"

definition outbound_limit :: u32 where "outbound_limit = 20"

definition pair_limit :: u32 where "pair_limit = 10"

datatype rate_gate = Gate_Outbound | Gate_Pair

datatype rate_verdict = Verdict_Allowed | Verdict_Tripped rate_gate u32

record rate_windows =
  rw_outbound :: "(string, int list) hashmap"
  rw_pair :: "(string \<times> string, int list) hashmap"

definition new_windows :: rate_windows where
  "new_windows = \<lparr>rw_outbound = [], rw_pair = []\<rparr>"

definition bucket :: "('k, int list) hashmap \<Rightarrow> 'k \<Rightarrow> int list" where
  "bucket m k = (case map_of m k of Some ts \<Rightarrow> ts | None \<Rightarrow> [])"

definition check_and_record ::
  "int \<Rightarrow> string \<Rightarrow> string \<Rightarrow> rate_windows \<Rightarrow> rate_verdict \<times> rate_windows" where
  "check_and_record now from_id to_id w =
    (let cutoff = now - window_ms;
         outbound = filter (\<lambda>at. cutoff < at) (bucket (rw_outbound w) from_id);
         pair = filter (\<lambda>at. cutoff < at) (bucket (rw_pair w) (from_id, to_id));
         outbound_count = of_nat (length outbound) :: u32;
         pair_count = of_nat (length pair) :: u32;
         w1 = \<lparr>rw_outbound = AList.update from_id outbound (rw_outbound w),
               rw_pair = AList.update (from_id, to_id) pair (rw_pair w)\<rparr>
     in if pair_limit \<le> pair_count then (Verdict_Tripped Gate_Pair pair_count, w1)
        else if outbound_limit \<le> outbound_count then (Verdict_Tripped Gate_Outbound outbound_count, w1)
        else (Verdict_Allowed,
              \<lparr>rw_outbound = AList.update from_id (outbound @ [now]) (rw_outbound w1),
               rw_pair = AList.update (from_id, to_id) (pair @ [now]) (rw_pair w1)\<rparr>))"

text \<open>A history of requests: time, sender and recipient.\<close>

type_synonym rate_request = "int \<times> string \<times> string"

fun rate_run :: "rate_request list \<Rightarrow> rate_windows \<Rightarrow> rate_verdict list \<times> rate_windows" where
  "rate_run [] w = ([], w)"
| "rate_run ((now, from_id, to_id) # rs) w =
     (let (v, w1) = check_and_record now from_id to_id w; (vs, w2) = rate_run rs w1 in (v # vs, w2))"

definition verdicts :: "rate_request list \<Rightarrow> rate_verdict list" where
  "verdicts rs = fst (rate_run rs new_windows)"

definition allowed :: "rate_request list \<Rightarrow> rate_request list" where
  "allowed rs = map fst (filter (\<lambda>(_, v). v = Verdict_Allowed) (zip rs (verdicts rs)))"


section \<open>The reference: a log of everything sent\<close>

definition sent_pair :: "rate_request list \<Rightarrow> int \<Rightarrow> string \<Rightarrow> string \<Rightarrow> int list" where
  "sent_pair log cutoff f t = map fst (filter (\<lambda>(at, f', t'). cutoff < at \<and> f' = f \<and> t' = t) log)"

definition sent_from :: "rate_request list \<Rightarrow> int \<Rightarrow> string \<Rightarrow> int list" where
  "sent_from log cutoff f = map fst (filter (\<lambda>(at, f', _). cutoff < at \<and> f' = f) log)"

definition log_verdict :: "rate_request list \<Rightarrow> rate_request \<Rightarrow> rate_verdict" where
  "log_verdict log r = (case r of (now, f, t) \<Rightarrow>
     (let p = length (sent_pair log (now - window_ms) f t);
          n = length (sent_from log (now - window_ms) f)
      in if 10 \<le> p then Verdict_Tripped Gate_Pair (of_nat p)
         else if 20 \<le> n then Verdict_Tripped Gate_Outbound (of_nat n)
         else Verdict_Allowed))"

definition log_step :: "rate_request list \<Rightarrow> rate_request \<Rightarrow> rate_request list" where
  "log_step log r = (if log_verdict log r = Verdict_Allowed then log @ [r] else log)"

fun log_run :: "rate_request list \<Rightarrow> rate_request list \<Rightarrow> rate_verdict list" where
  "log_run [] log = []"
| "log_run (r # rs) log = log_verdict log r # log_run rs (log_step log r)"

text \<open>The windows and the log agree on everything a later cutoff can still see, and no window holds
  more than its limit.\<close>

definition agree :: "rate_windows \<Rightarrow> rate_request list \<Rightarrow> int \<Rightarrow> bool" where
  "agree w log prev \<longleftrightarrow> (\<forall>c f t. prev - window_ms \<le> c \<longrightarrow>
     filter (\<lambda>at. c < at) (bucket (rw_outbound w) f) = sent_from log c f \<and>
     filter (\<lambda>at. c < at) (bucket (rw_pair w) (f, t)) = sent_pair log c f t) \<and>
     (\<forall>f t. length (bucket (rw_outbound w) f) \<le> 20 \<and> length (bucket (rw_pair w) (f, t)) \<le> 10)"

lemma bucket_update [simp]: "bucket (AList.update k v m) k' = (if k' = k then v else bucket m k')"
  by (simp add: bucket_def)

lemma sent_append:
  "sent_from (log @ [(now, f', t')]) c f = sent_from log c f @ (if c < now \<and> f' = f then [now] else [])"
  "sent_pair (log @ [(now, f', t')]) c f t = sent_pair log c f t @ (if c < now \<and> f' = f \<and> t' = t then [now] else [])"
  by (auto simp: sent_from_def sent_pair_def)

lemma agree_new: "agree new_windows [] prev"
  by (simp add: agree_def new_windows_def bucket_def sent_from_def sent_pair_def)

lemma small_count: "k \<le> 20 \<Longrightarrow> n \<le> 20 \<Longrightarrow> (of_nat k :: u32) \<le> of_nat n \<longleftrightarrow> k \<le> n"
  by (simp add: word_le_nat_alt unat_of_nat)

lemma agree_step:
  assumes "agree w log prev" and "prev \<le> now"
  shows "fst (check_and_record now f t w) = log_verdict log (now, f, t)
    \<and> agree (snd (check_and_record now f t w)) (log_step log (now, f, t)) now"
proof -
  let ?c = "now - window_ms"
  let ?out = "filter (\<lambda>at. ?c < at) (bucket (rw_outbound w) f)"
  let ?pair = "filter (\<lambda>at. ?c < at) (bucket (rw_pair w) (f, t))"
  have later: "filter (\<lambda>at. c < at) (bucket (rw_outbound w) f) = sent_from log c f"
    "filter (\<lambda>at. c < at) (bucket (rw_pair w) (f, t)) = sent_pair log c f t" if "?c \<le> c" for c f t
    using assms that by (auto simp: agree_def)
  have short: "length (bucket (rw_outbound w) f) \<le> 20" "length (bucket (rw_pair w) (f, t)) \<le> 10" for f t
    using assms(1) by (auto simp: agree_def)
  have len: "length ?out \<le> 20" "length ?pair \<le> 10"
    using le_trans [OF length_filter_le short(1)] le_trans [OF length_filter_le short(2)] by blast+
  note now_lists = later(1) [of ?c f] later(2) [of ?c f t]
  then have count_le: "length (sent_from log ?c f) \<le> 20" "length (sent_pair log ?c f t) \<le> 10"
    using len by auto
  then have counts: "pair_limit \<le> of_nat (length (sent_pair log ?c f t)) \<longleftrightarrow> 10 \<le> length (sent_pair log ?c f t)"
    "outbound_limit \<le> of_nat (length (sent_from log ?c f)) \<longleftrightarrow> 20 \<le> length (sent_from log ?c f)"
    using small_count [of "10" "length (sent_pair log ?c f t)"] small_count [of "20" "length (sent_from log ?c f)"]
    by (simp_all add: pair_limit_def outbound_limit_def)
  have refilter: "filter (\<lambda>at. c < at) (filter (\<lambda>at. ?c < at) xs) = filter (\<lambda>at. c < at) xs" if "?c \<le> c" for c xs
    using that by (induction xs) auto
  have verdict: "fst (check_and_record now f t w) = log_verdict log (now, f, t)"
    using now_lists by (simp add: check_and_record_def Let_def counts log_verdict_def)
  moreover have "agree (snd (check_and_record now f t w)) (log_step log (now, f, t)) now"
  proof (cases "log_verdict log (now, f, t) = Verdict_Allowed")
    case True
    then have "\<not> 10 \<le> length (sent_pair log ?c f t)" "\<not> 20 \<le> length (sent_from log ?c f)"
      by (auto simp: log_verdict_def Let_def split: if_splits)
    then have out: "snd (check_and_record now f t w) =
        \<lparr>rw_outbound = AList.update f (?out @ [now]) (AList.update f ?out (rw_outbound w)),
         rw_pair = AList.update (f, t) (?pair @ [now]) (AList.update (f, t) ?pair (rw_pair w))\<rparr>"
      "length ?out < 20" "length ?pair < 10"
      using now_lists by (simp_all add: check_and_record_def Let_def counts)
    show ?thesis unfolding agree_def
    proof (intro conjI allI impI)
      fix c g u assume c: "now - window_ms \<le> c"
      show "filter (\<lambda>at. c < at) (bucket (rw_outbound (snd (check_and_record now f t w))) g) = sent_from (log_step log (now, f, t)) c g"
        using True later(1) [OF c, of g] refilter [OF c] by (auto simp: out(1) log_step_def sent_append)
      show "filter (\<lambda>at. c < at) (bucket (rw_pair (snd (check_and_record now f t w))) (g, u)) = sent_pair (log_step log (now, f, t)) c g u"
        using True later(2) [OF c, of g u] refilter [OF c] by (auto simp: out(1) log_step_def sent_append)
    qed (use short out in auto)
  next
    case False
    then have "10 \<le> length (sent_pair log ?c f t) \<or> 20 \<le> length (sent_from log ?c f)"
      by (auto simp: log_verdict_def Let_def split: if_splits)
    then have out: "snd (check_and_record now f t w) =
        \<lparr>rw_outbound = AList.update f ?out (rw_outbound w), rw_pair = AList.update (f, t) ?pair (rw_pair w)\<rparr>"
      using now_lists by (auto simp: check_and_record_def Let_def counts)
    show ?thesis unfolding agree_def
    proof (intro conjI allI impI)
      fix c g u assume c: "now - window_ms \<le> c"
      show "filter (\<lambda>at. c < at) (bucket (rw_outbound (snd (check_and_record now f t w))) g) = sent_from (log_step log (now, f, t)) c g"
        using False later(1) [OF c, of g] refilter [OF c] by (auto simp: out log_step_def)
      show "filter (\<lambda>at. c < at) (bucket (rw_pair (snd (check_and_record now f t w))) (g, u)) = sent_pair (log_step log (now, f, t)) c g u"
        using False later(2) [OF c, of g u] refilter [OF c] by (auto simp: out log_step_def)
    qed (use short len in \<open>auto simp: out\<close>)
  qed
  ultimately show ?thesis by blast
qed

section \<open>The limiter is the log\<close>

lemma rate_run_log:
  "agree w log prev \<Longrightarrow> sorted (map fst rs) \<Longrightarrow> (\<And>r. r \<in> set rs \<Longrightarrow> prev \<le> fst r)
     \<Longrightarrow> fst (rate_run rs w) = log_run rs log"
proof (induction rs arbitrary: w log prev)
  case (Cons r rs)
  obtain now f t where r: "r = (now, f, t)" by (cases r)
  have "prev \<le> now" using Cons.prems(3) [of r] r by simp
  note step = agree_step [OF Cons.prems(1) this, of f t]
  have "fst (rate_run rs (snd (check_and_record now f t w))) = log_run rs (log_step log r)"
    by (rule Cons.IH [of _ _ now]) (use step Cons.prems(2) r in auto)
  with step r show ?case by (simp add: case_prod_beta Let_def)
qed simp

lemma verdicts_log: "sorted (map fst rs) \<Longrightarrow> verdicts rs = log_run rs []"
proof (cases rs)
  case (Cons r rs')
  assume sorted: "sorted (map fst rs)"
  then show ?thesis
    unfolding verdicts_def by (intro rate_run_log [of _ _ "fst r"]) (auto simp: Cons agree_new)
qed (simp add: verdicts_def)

definition accepted_by :: "rate_request list \<Rightarrow> rate_request list \<Rightarrow> rate_request list" where
  "accepted_by rs log = map fst (filter (\<lambda>(_, v). v = Verdict_Allowed) (zip rs (log_run rs log)))"

lemma accepted_by_simps [simp]:
  "accepted_by [] log = []"
  "accepted_by (r # rs) log = (if log_verdict log r = Verdict_Allowed then r # accepted_by rs (log @ [r]) else accepted_by rs log)"
  by (simp_all add: accepted_by_def log_step_def)

lemma allowed_accepted: "sorted (map fst rs) \<Longrightarrow> allowed rs = accepted_by rs []"
  by (simp add: allowed_def accepted_by_def verdicts_log)

lemma log_run_append: "log_run (rs @ rest) log = log_run rs log @ log_run rest (log @ accepted_by rs log)"
  by (induction rs arbitrary: log) (simp_all add: log_step_def)

lemma accepted_append: "accepted_by (rs @ rest) log = accepted_by rs log @ accepted_by rest (log @ accepted_by rs log)"
  by (induction rs arbitrary: log) simp_all

lemma log_run_accepted: "log_run (accepted_by rs log) log = replicate (length (accepted_by rs log)) Verdict_Allowed"
  by (induction rs arbitrary: log) (simp_all add: log_step_def)

lemma accepted_accepted: "accepted_by (accepted_by rs log) log = accepted_by rs log"
  by (induction rs arbitrary: log) simp_all

lemma set_accepted: "set (accepted_by rs log) \<subseteq> set rs"
  by (induction rs arbitrary: log) auto

lemma sorted_accepted: "sorted (map fst rs) \<Longrightarrow> sorted (map fst (accepted_by rs log))"
proof (induction rs arbitrary: log)
  case (Cons r rs)
  then show ?case using set_accepted [of rs "log @ [r]"] by auto
qed simp

lemma length_log_run [simp]: "length (log_run rs log) = length rs"
  by (induction rs arbitrary: log) simp_all

text \<open>C36: The two in-memory windows decide exactly as a log of everything sent would. For requests
  at non-decreasing times, the next one is refused by the pair gate exactly when ten messages of
  that sender to that recipient were accepted in the last ten minutes, otherwise by the outbound gate
  exactly when twenty of the sender's were, with that number reported; otherwise it is accepted. No
  count wraps around.\<close>
theorem limiter_matches_log:
  assumes "sorted (map fst (rs @ [(now, f, t)]))"
  defines "p \<equiv> length (filter (\<lambda>(at, f', t'). now - window_ms < at \<and> f' = f \<and> t' = t) (allowed rs))"
    and "n \<equiv> length (filter (\<lambda>(at, f', _). now - window_ms < at \<and> f' = f) (allowed rs))"
  shows "verdicts (rs @ [(now, f, t)]) = verdicts rs @
    [if 10 \<le> p then Verdict_Tripped Gate_Pair (of_nat p)
     else if 20 \<le> n then Verdict_Tripped Gate_Outbound (of_nat n) else Verdict_Allowed]"
proof -
  have "sorted (map fst rs)" using assms(1) by (simp add: sorted_append)
  then show ?thesis
    using verdicts_log [OF assms(1)]
    by (simp add: verdicts_log log_run_append allowed_accepted log_verdict_def Let_def p_def n_def
        sent_pair_def sent_from_def)
qed

text \<open>At most \<open>limit\<close> elements of the log in any window, when each was accepted with fewer than
  \<open>limit\<close> in its own.\<close>

lemma window_bound:
  assumes "\<And>log1 r log2. log = log1 @ r # log2 \<Longrightarrow> P r
      \<Longrightarrow> length (filter (\<lambda>r'. fst r - window_ms < fst r' \<and> P r') log1) < limit"
    and "sorted (map fst log)"
  shows "length (filter (\<lambda>r. x - window_ms < fst r \<and> fst r \<le> x \<and> P r) log) \<le> limit"
  using assms
proof (induction log rule: rev_induct)
  case (snoc r log)
  show ?case
  proof (cases "x - window_ms < fst r \<and> fst r \<le> x \<and> P r")
    case True
    let ?recent = "filter (\<lambda>r'. fst r - window_ms < fst r' \<and> P r') log"
    have "filter (\<lambda>r. x - window_ms < fst r \<and> fst r \<le> x \<and> P r) log
      = filter (\<lambda>r'. x - window_ms < fst r' \<and> fst r' \<le> x) ?recent"
      unfolding filter_filter by (rule filter_cong) (use True in auto)
    then have "length (filter (\<lambda>r. x - window_ms < fst r \<and> fst r \<le> x \<and> P r) log) \<le> length ?recent"
      by (simp only: length_filter_le)
    also have "\<dots> < limit" using snoc.prems(1) [of log r "[]"] True by simp
    finally show ?thesis using True by simp
  next
    case False
    have "length (filter (\<lambda>r. x - window_ms < fst r \<and> fst r \<le> x \<and> P r) log) \<le> limit"
    proof (rule snoc.IH)
      show "sorted (map fst log)" using snoc.prems(2) by (simp add: sorted_append)
    qed (use snoc.prems(1) in fastforce)
    with False show ?thesis by auto
  qed
qed simp

lemma accepted_prefix:
  "accepted_by rs log = log1 @ r # log2 \<Longrightarrow> log_verdict (log @ log1) r = Verdict_Allowed"
proof (induction rs arbitrary: log log1)
  case (Cons q rs)
  show ?case
  proof (cases "log_verdict log q = Verdict_Allowed")
    case True
    then have eq: "q # accepted_by rs (log @ [q]) = log1 @ r # log2" using Cons.prems by simp
    show ?thesis
    proof (cases log1)
      case Nil
      with eq True show ?thesis by simp
    next
      case (Cons q' log1')
      with eq have "accepted_by rs (log @ [q]) = log1' @ r # log2" "q' = q" by auto
      from Cons.IH [OF this(1)] this(2) Cons show ?thesis by simp
    qed
  next
    case False
    with Cons show ?thesis by simp
  qed
qed simp

lemma allowed_bounded:
  assumes "sorted (map fst rs)"
  shows "length (filter (\<lambda>(at, f', _). x - window_ms < at \<and> at \<le> x \<and> f' = f) (allowed rs)) \<le> 20
    \<and> length (filter (\<lambda>(at, f', t'). x - window_ms < at \<and> at \<le> x \<and> f' = f \<and> t' = t) (allowed rs)) \<le> 10"
proof -
  let ?log = "accepted_by rs []"
  have ok: "log_verdict log1 r = Verdict_Allowed" if "?log = log1 @ r # log2" for log1 r log2
    using accepted_prefix [OF that] by simp
  have "length (filter (\<lambda>r. x - window_ms < fst r \<and> fst r \<le> x \<and> fst (snd r) = f) ?log) \<le> 20"
  proof (rule window_bound [OF _ sorted_accepted [OF assms]])
    fix log1 r log2 assume "?log = log1 @ r # log2" "fst (snd r) = f"
    with ok [OF this(1)] show "length (filter (\<lambda>r'. fst r - window_ms < fst r' \<and> fst (snd r') = f) log1) < 20"
      by (cases r) (simp add: log_verdict_def Let_def sent_from_def case_prod_unfold split: if_splits)
  qed
  moreover have "length (filter (\<lambda>r. x - window_ms < fst r \<and> fst r \<le> x \<and> fst (snd r) = f \<and> snd (snd r) = t) ?log) \<le> 10"
  proof (rule window_bound [OF _ sorted_accepted [OF assms]])
    fix log1 r log2 assume "?log = log1 @ r # log2" "fst (snd r) = f \<and> snd (snd r) = t"
    with ok [OF this(1)]
    show "length (filter (\<lambda>r'. fst r - window_ms < fst r' \<and> fst (snd r') = f \<and> snd (snd r') = t) log1) < 10"
      by (cases r) (simp add: log_verdict_def Let_def sent_pair_def case_prod_unfold split: if_splits)
  qed
  ultimately show ?thesis by (simp add: allowed_accepted [OF assms] case_prod_unfold)
qed

text \<open>Loops and storms are bounded. However often a conversation asks, in any ten minutes it gets
  at most twenty messages out, and at most ten to any one recipient.\<close>
theorem rate_is_bounded:
  assumes "sorted (map fst rs)"
  shows "length (filter (\<lambda>(at, f', _). x - window_ms < at \<and> at \<le> x \<and> f' = f) (allowed rs)) \<le> 20
    \<and> length (filter (\<lambda>(at, f', t'). x - window_ms < at \<and> at \<le> x \<and> f' = f \<and> t' = t) (allowed rs)) \<le> 10"
  by (rule allowed_bounded [OF assms])

text \<open>A refused request costs nothing: the verdicts on later requests are what they would be had
  the refused ones never been made. So a caller that keeps retrying never pushes its own window on.\<close>
theorem refusals_cost_nothing:
  assumes "sorted (map fst (rs @ rest))"
  shows "verdicts (allowed rs @ rest)
    = replicate (length (allowed rs)) Verdict_Allowed @ drop (length rs) (verdicts (rs @ rest))"
proof -
  have rs: "sorted (map fst rs)" and after: "sorted (map fst rest)"
    and cross: "\<forall>r \<in> set rs. \<forall>m \<in> set rest. fst r \<le> fst m"
    using assms by (auto simp: sorted_append)
  have "sorted (map fst (accepted_by rs [] @ rest))"
    using sorted_accepted [OF rs] after cross set_accepted [of rs "[]"] by (auto simp: sorted_append)
  then show ?thesis
    using assms by (simp add: allowed_accepted [OF rs] verdicts_log log_run_append log_run_accepted accepted_accepted)
qed

definition demo_burst :: "rate_request list" where
  "demo_burst = replicate 10 (0, ''a'', ''b'')"

lemma demo_burst_allowed: "allowed demo_burst = demo_burst"
  by code_simp

lemma limiter_matches_log_witness:
  "verdicts (demo_burst @ [(599999, ''a'', ''b'')])
     = replicate 10 Verdict_Allowed @ [Verdict_Tripped Gate_Pair 10]
   \<and> verdicts (demo_burst @ [(600000, ''a'', ''b'')]) = replicate 11 Verdict_Allowed"
proof -
  have sorted: "sorted (map fst (demo_burst @ [(599999, ''a'', ''b'')]))"
    "sorted (map fst (demo_burst @ [(600000, ''a'', ''b'')]))" by code_simp+
  have "verdicts demo_burst = replicate 10 Verdict_Allowed" by code_simp
  then show ?thesis
    unfolding limiter_matches_log [OF sorted(1)] limiter_matches_log [OF sorted(2)] demo_burst_allowed
    by (simp add: demo_burst_def window_ms_def numeral_eq_Suc)
qed

lemma rate_is_bounded_witness:
  "length (filter (\<lambda>(at, f', t'). 0 - window_ms < at \<and> at \<le> 0 \<and> f' = ''a'' \<and> t' = ''b'') (allowed demo_burst)) = 10
   \<and> length (filter (\<lambda>(at, f', t'). 0 - window_ms < at \<and> at \<le> 0 \<and> f' = ''a'' \<and> t' = ''b'') (allowed demo_burst)) \<le> 10"
proof -
  have "sorted (map fst demo_burst)" by code_simp
  from rate_is_bounded [OF this, THEN conjunct2, of 0 "''a''" "''b''"]
  show ?thesis unfolding demo_burst_allowed by (simp add: demo_burst_def window_ms_def)
qed

lemma refusals_cost_nothing_witness:
  "verdicts (demo_burst @ [(1, ''a'', ''c'')])
     = replicate 10 Verdict_Allowed @ drop 12 (verdicts ((demo_burst @ replicate 2 (0, ''a'', ''b'')) @ [(1, ''a'', ''c'')]))"
proof -
  let ?rs = "demo_burst @ replicate 2 (0, ''a'', ''b'')"
  have "sorted (map fst (?rs @ [(1, ''a'', ''c'')]))" by code_simp
  moreover have "allowed ?rs = demo_burst" by code_simp
  moreover have "length ?rs = 12" "length demo_burst = 10" by (simp_all add: demo_burst_def)
  ultimately show ?thesis using refusals_cost_nothing [of ?rs "[(1, ''a'', ''c'')]"] by simp
qed

end
