(* ===== verification/Ki_Text.thy ===== *)
theory Ki_Text
  imports Ki_Prelude "HOL-Library.Sublist"
begin

text \<open>
  The operations of Rust's \<open>str\<close> the modelled code uses, on \<^typ>\<open>string\<close> (a list of 8-bit characters;
  a Rust string is its UTF-8 bytes): trimming, decimal numbers, splitting on a character, prefixes,
  suffixes and replacement. White space is Unicode's, as \<open>char::is_whitespace\<close> has it.
\<close>

section \<open>Trimming\<close>

text \<open>The characters Unicode calls white space, each as its UTF-8 bytes.\<close>

definition white_spaces :: "string list" where
  "white_spaces =
   [[CHR 0x09], [CHR 0x0A], [CHR 0x0B], [CHR 0x0C], [CHR 0x0D], [CHR 0x20], [CHR 0xC2, CHR 0x85],
    [CHR 0xC2, CHR 0xA0], [CHR 0xE1, CHR 0x9A, CHR 0x80], [CHR 0xE2, CHR 0x80, CHR 0x80],
    [CHR 0xE2, CHR 0x80, CHR 0x81], [CHR 0xE2, CHR 0x80, CHR 0x82], [CHR 0xE2, CHR 0x80, CHR 0x83],
    [CHR 0xE2, CHR 0x80, CHR 0x84], [CHR 0xE2, CHR 0x80, CHR 0x85], [CHR 0xE2, CHR 0x80, CHR 0x86],
    [CHR 0xE2, CHR 0x80, CHR 0x87], [CHR 0xE2, CHR 0x80, CHR 0x88], [CHR 0xE2, CHR 0x80, CHR 0x89],
    [CHR 0xE2, CHR 0x80, CHR 0x8A], [CHR 0xE2, CHR 0x80, CHR 0xA8], [CHR 0xE2, CHR 0x80, CHR 0xA9],
    [CHR 0xE2, CHR 0x80, CHR 0xAF], [CHR 0xE2, CHR 0x81, CHR 0x9F], [CHR 0xE3, CHR 0x80, CHR 0x80]]"

definition space_before :: "string \<Rightarrow> string option" where
  "space_before s = find (\<lambda>w. prefix w s) white_spaces"

definition space_after :: "string \<Rightarrow> string option" where
  "space_after s = find (\<lambda>w. suffix w s) white_spaces"

lemma white_spaces_visible: "w \<in> set white_spaces \<Longrightarrow> w \<noteq> []"
  by (auto simp: white_spaces_def)

lemma space_before_found: "space_before s = Some w \<Longrightarrow> w \<noteq> [] \<and> prefix w s"
  by (auto simp: space_before_def find_Some_iff dest: nth_mem white_spaces_visible)

lemma space_after_found: "space_after s = Some w \<Longrightarrow> w \<noteq> [] \<and> suffix w s"
  by (auto simp: space_after_def find_Some_iff dest: nth_mem white_spaces_visible)

lemma space_before_shorter: "space_before s = Some w \<Longrightarrow> length (drop (length w) s) < length s"
  using space_before_found [of s w] by (auto simp: prefix_def)

lemma space_after_shorter: "space_after s = Some w \<Longrightarrow> length (take (length s - length w) s) < length s"
  using space_after_found [of s w] by (auto simp: suffix_def)

function trim_start :: "string \<Rightarrow> string" where
  "trim_start s = (case space_before s of None \<Rightarrow> s | Some w \<Rightarrow> trim_start (drop (length w) s))"
  by pat_completeness auto
termination
  by (relation "measure length") (simp_all only: wf_measure in_measure space_before_shorter)

function trim_end :: "string \<Rightarrow> string" where
  "trim_end s = (case space_after s of None \<Rightarrow> s | Some w \<Rightarrow> trim_end (take (length s - length w) s))"
  by pat_completeness auto
termination
  by (relation "measure length") (simp_all only: wf_measure in_measure space_after_shorter)

declare trim_start.simps [simp del] trim_end.simps [simp del]

definition trim :: "string \<Rightarrow> string" where
  "trim s = trim_end (trim_start s)"

lemma space_before_trimmed: "space_before (trim_start s) = None"
  by (induction s rule: trim_start.induct) (subst trim_start.simps, simp split: option.split)

lemma space_after_trimmed: "space_after (trim_end s) = None"
  by (induction s rule: trim_end.induct) (subst trim_end.simps, simp split: option.split)

lemma trim_start_id: "space_before s = None \<Longrightarrow> trim_start s = s"
  by (simp add: trim_start.simps)

lemma trim_end_id: "space_after s = None \<Longrightarrow> trim_end s = s"
  by (simp add: trim_end.simps)

lemma trim_end_prefix: "prefix (trim_end s) s"
proof (induction s rule: trim_end.induct)
  case (1 s)
  then show ?case by (subst trim_end.simps) (auto split: option.split intro: prefix_order.trans take_is_prefix)
qed

lemma no_space_before_prefix: "prefix p s \<Longrightarrow> space_before s = None \<Longrightarrow> space_before p = None"
  by (auto simp: space_before_def find_None_iff intro: prefix_order.trans)

lemma trim_Nil [simp]: "trim [] = []"
proof -
  have "space_before [] = None" "space_after [] = None"
    using white_spaces_visible by (auto simp: space_before_def space_after_def find_None_iff)
  then show ?thesis by (simp add: trim_def trim_start_id trim_end_id)
qed

lemma trim_idem [simp]: "trim (trim s) = trim s"
  using no_space_before_prefix [OF trim_end_prefix space_before_trimmed, of s] space_after_trimmed [of "trim_start s"]
  by (simp add: trim_def trim_start_id trim_end_id)

text \<open>A text that begins and ends with a visible ASCII character is its own trimming.\<close>

definition visible :: "char \<Rightarrow> bool" where
  "visible c \<longleftrightarrow> 32 < (of_char c :: nat) \<and> (of_char c :: nat) < 128"

lemma white_spaces_bytes:
  "w \<in> set white_spaces \<Longrightarrow> \<not> visible (hd w) \<and> \<not> visible (last w)"
  by (auto simp: white_spaces_def visible_def of_char_of)

lemma trim_id: "s \<noteq> [] \<Longrightarrow> visible (hd s) \<Longrightarrow> visible (last s) \<Longrightarrow> trim s = s"
proof -
  assume s: "s \<noteq> []" "visible (hd s)" "visible (last s)"
  have "\<not> prefix w s" "\<not> suffix w s" if "w \<in> set white_spaces" for w
    using s white_spaces_visible [OF that] white_spaces_bytes [OF that] by (auto simp: prefix_def suffix_def hd_append)
  then have "space_before s = None" "space_after s = None" by (auto simp: space_before_def space_after_def find_None_iff)
  then show ?thesis by (simp add: trim_def trim_start_id trim_end_id)
qed

text \<open>\<open>str::split_whitespace\<close>.\<close>

fun next_word :: "string \<Rightarrow> string \<times> string" where
  "next_word [] = ([], [])"
| "next_word (c # cs) =
    (if space_before (c # cs) \<noteq> None then ([], c # cs) else case next_word cs of (w, rest) \<Rightarrow> (c # w, rest))"

lemma next_word_rest: "length (snd (next_word s)) \<le> length s"
  by (induction s rule: next_word.induct) (auto split: prod.split)

lemma trim_start_length: "length (trim_start s) \<le> length s"
proof (induction s rule: trim_start.induct)
  case (1 s)
  then show ?case by (subst trim_start.simps) (force split: option.split dest: space_before_shorter)
qed

function split_whitespace :: "string \<Rightarrow> string list" where
  "split_whitespace s =
    (case trim_start s of [] \<Rightarrow> [] | c # cs \<Rightarrow> fst (next_word (c # cs)) # split_whitespace (snd (next_word (c # cs))))"
  by pat_completeness auto
termination
proof (relation "measure length", goal_cases)
  case (2 s c cs)
  then have "space_before (c # cs) = None" using space_before_trimmed [of s] by simp
  then have "length (snd (next_word (c # cs))) \<le> length cs"
    using next_word_rest [of cs] by (simp add: case_prod_unfold)
  with 2 trim_start_length [of s] show ?case by (simp del: next_word.simps)
qed simp

declare split_whitespace.simps [simp del]


section \<open>Decimal numbers\<close>

definition is_digit :: "char \<Rightarrow> bool" where
  "is_digit c \<longleftrightarrow> 48 \<le> (of_char c :: nat) \<and> (of_char c :: nat) \<le> 57"

definition digit_char :: "nat \<Rightarrow> char" where
  "digit_char d = char_of (48 + d)"

definition digit_value :: "char \<Rightarrow> nat" where
  "digit_value c = of_char c - 48"

fun show_nat :: "nat \<Rightarrow> string" where
  "show_nat n = (if n < 10 then [digit_char n] else show_nat (n div 10) @ [digit_char (n mod 10)])"

declare show_nat.simps [simp del]

definition digits_value :: "string \<Rightarrow> nat" where
  "digits_value s = foldl (\<lambda>n c. 10 * n + digit_value c) 0 s"

text \<open>\<open>str::parse\<close> into an unsigned integer below a bound: an optional plus sign, then digits only.\<close>

definition parse_unsigned :: "nat \<Rightarrow> string \<Rightarrow> nat option" where
  "parse_unsigned bound s =
    (let ds = (if s \<noteq> [] \<and> hd s = CHR ''+'' then tl s else s)
     in if ds \<noteq> [] \<and> list_all is_digit ds \<and> digits_value ds < bound then Some (digits_value ds) else None)"

lemma of_char_digit: "d < 10 \<Longrightarrow> (of_char (digit_char d) :: nat) = 48 + d"
  by (simp add: digit_char_def of_char_of)

lemma digit_chars:
  "digit_char 0 = CHR ''0''" "digit_char (Suc 0) = CHR ''1''" "digit_char 1 = CHR ''1''" "digit_char 2 = CHR ''2''"
  "digit_char 3 = CHR ''3''" "digit_char 4 = CHR ''4''" "digit_char 5 = CHR ''5''" "digit_char 6 = CHR ''6''"
  "digit_char 7 = CHR ''7''" "digit_char 8 = CHR ''8''" "digit_char 9 = CHR ''9''"
  by (simp_all add: digit_char_def char_of_def bit_0)

lemma is_digit_digit [simp]: "d < 10 \<Longrightarrow> is_digit (digit_char d)"
  by (simp add: is_digit_def of_char_digit)

lemma digit_value_digit [simp]: "d < 10 \<Longrightarrow> digit_value (digit_char d) = d"
  by (simp add: digit_value_def of_char_digit)

lemma digit_visible: "is_digit c \<Longrightarrow> visible c"
  by (auto simp: is_digit_def visible_def)

lemma digits_value_snoc: "digits_value (s @ [c]) = 10 * digits_value s + digit_value c"
  by (simp add: digits_value_def)

lemma show_nat_digits: "show_nat n \<noteq> [] \<and> list_all is_digit (show_nat n)"
proof (induction n rule: show_nat.induct)
  case (1 n)
  then show ?case by (subst show_nat.simps; subst show_nat.simps) auto
qed

lemma digits_value_show [simp]: "digits_value (show_nat n) = n"
proof (induction n rule: show_nat.induct)
  case (1 n)
  show ?case
  proof (cases "n < 10")
    case True
    then show ?thesis by (simp add: show_nat.simps [of n] digits_value_def)
  next
    case False
    with 1 show ?thesis by (subst show_nat.simps) (simp add: digits_value_snoc)
  qed
qed

lemma show_nat_visible: "visible (hd (show_nat n)) \<and> visible (last (show_nat n)) \<and> hd (show_nat n) \<noteq> CHR ''+''"
proof -
  have "is_digit (hd (show_nat n))" "is_digit (last (show_nat n))"
    using show_nat_digits [of n] by (auto simp: list_all_iff)
  then show ?thesis by (auto simp: digit_visible is_digit_def)
qed

lemma parse_show: "n < bound \<Longrightarrow> parse_unsigned bound (show_nat n) = Some n"
  using show_nat_digits [of n] show_nat_visible [of n] by (simp add: parse_unsigned_def Let_def)

lemma trim_show [simp]: "trim (show_nat n) = show_nat n"
  using show_nat_digits [of n] show_nat_visible [of n] by (intro trim_id) auto


section \<open>ASCII case\<close>

text \<open>\<open>to_ascii_lowercase\<close>, \<open>to_ascii_uppercase\<close> and \<open>eq_ignore_ascii_case\<close>: the other bytes stay.\<close>

definition ascii_lower :: "string \<Rightarrow> string" where
  "ascii_lower = map (\<lambda>c. if CHR ''A'' \<le> c \<and> c \<le> CHR ''Z'' then char_of (of_char c + 32 :: nat) else c)"

definition ascii_upper :: "string \<Rightarrow> string" where
  "ascii_upper = map (\<lambda>c. if CHR ''a'' \<le> c \<and> c \<le> CHR ''z'' then char_of (of_char c - 32 :: nat) else c)"

definition eq_ignore_case :: "string \<Rightarrow> string \<Rightarrow> bool" where
  "eq_ignore_case s t \<longleftrightarrow> ascii_lower s = ascii_lower t"

end
