(* ===== verification/Conversation_Error.thy ===== *)
theory Conversation_Error
  imports Ki_Prelude
begin

text \<open>
  The error type of the conversation service, \<open>error.rs\<close> of \<open>crates/aionui-conversation\<close>, with its
  rendering and its public code. \<open>Acp\<close> wraps a backend error that no modelled code reads.
\<close>

datatype conversation_error =
    Conv_NotFound string
  | Conv_MessageNotFound string
  | Conv_ArtifactNotFound string
  | Conv_ActiveAgentNotFound string
  | Conv_Archived string string
  | Conv_BadRequest string
  | Conv_Busy string
  | Conv_Forbidden string
  | Conv_NotFoundReason string
  | Conv_Unauthorized string
  | Conv_RateLimited
  | Conv_BadGateway string
  | Conv_Timeout string
  | Conv_ConfigConfirmationTimeout string string string "string option"
  | Conv_ConfigUpdateInProgress string string string
  | Conv_RuntimeRestarting string
  | Conv_TeamRuntimeRequired string string
  | Conv_Unprocessable string
  | Conv_Internal string
  | Conv_WorkspacePathUnavailable string
  | Conv_WorkspacePathRuntimeUnavailable string
  | Conv_OpenClawGatewayUnreachable string
  | Conv_Acp

fun conversation_error_text :: "conversation_error \<Rightarrow> string" where
  "conversation_error_text (Conv_NotFound i) = ''Conversation not found: '' @ i"
| "conversation_error_text (Conv_MessageNotFound i) = ''Message not found: '' @ i"
| "conversation_error_text (Conv_ArtifactNotFound i) = ''Artifact not found: '' @ i"
| "conversation_error_text (Conv_ActiveAgentNotFound c) = ''Active agent not found for conversation: '' @ c"
| "conversation_error_text (Conv_Archived _ r) = ''Conversation is archived: '' @ r"
| "conversation_error_text (Conv_BadRequest r) = ''Bad request: '' @ r"
| "conversation_error_text (Conv_Busy r) = ''Conversation is busy: '' @ r"
| "conversation_error_text (Conv_Forbidden r) = ''Forbidden: '' @ r"
| "conversation_error_text (Conv_NotFoundReason r) = ''Not found: '' @ r"
| "conversation_error_text (Conv_Unauthorized r) = ''Unauthorized: '' @ r"
| "conversation_error_text Conv_RateLimited = ''Rate limited''"
| "conversation_error_text (Conv_BadGateway r) = ''Bad gateway: '' @ r"
| "conversation_error_text (Conv_Timeout r) = ''Request timeout: '' @ r"
| "conversation_error_text (Conv_ConfigConfirmationTimeout _ _ _ _) = ''ACP config option confirmation timed out''"
| "conversation_error_text (Conv_ConfigUpdateInProgress _ _ _) = ''ACP config update is already in progress''"
| "conversation_error_text (Conv_RuntimeRestarting c) = ''Conversation runtime is restarting: '' @ c"
| "conversation_error_text (Conv_TeamRuntimeRequired c _) = ''Team runtime is required for conversation: '' @ c"
| "conversation_error_text (Conv_Unprocessable r) = ''Unprocessable entity: '' @ r"
| "conversation_error_text (Conv_Internal r) = ''Internal error: '' @ r"
| "conversation_error_text (Conv_WorkspacePathUnavailable p) = ''Workspace path is unavailable: '' @ p"
| "conversation_error_text (Conv_WorkspacePathRuntimeUnavailable p) =
     ''Workspace path is unavailable during execution: '' @ p"
| "conversation_error_text (Conv_OpenClawGatewayUnreachable d) = ''OpenClaw Gateway is not reachable: '' @ d"
| "conversation_error_text Conv_Acp = ''ACP error''"

fun conversation_error_code :: "conversation_error \<Rightarrow> string" where
  "conversation_error_code (Conv_NotFound _) = ''NOT_FOUND''"
| "conversation_error_code (Conv_MessageNotFound _) = ''NOT_FOUND''"
| "conversation_error_code (Conv_ArtifactNotFound _) = ''NOT_FOUND''"
| "conversation_error_code (Conv_ActiveAgentNotFound _) = ''NOT_FOUND''"
| "conversation_error_code (Conv_NotFoundReason _) = ''NOT_FOUND''"
| "conversation_error_code (Conv_BadRequest _) = ''BAD_REQUEST''"
| "conversation_error_code (Conv_Unauthorized _) = ''UNAUTHORIZED''"
| "conversation_error_code (Conv_Forbidden _) = ''FORBIDDEN''"
| "conversation_error_code (Conv_Busy _) = ''CONFLICT''"
| "conversation_error_code Conv_RateLimited = ''RATE_LIMITED''"
| "conversation_error_code (Conv_Internal _) = ''INTERNAL_ERROR''"
| "conversation_error_code Conv_Acp = ''INTERNAL_ERROR''"
| "conversation_error_code (Conv_BadGateway _) = ''BAD_GATEWAY''"
| "conversation_error_code (Conv_Timeout _) = ''TIMEOUT''"
| "conversation_error_code (Conv_ConfigConfirmationTimeout _ _ _ _) = ''confirmation_timeout''"
| "conversation_error_code (Conv_ConfigUpdateInProgress _ _ _) = ''config_update_in_progress''"
| "conversation_error_code (Conv_RuntimeRestarting _) = ''runtime_restarting''"
| "conversation_error_code (Conv_TeamRuntimeRequired _ _) = ''TEAM_RUNTIME_REQUIRED''"
| "conversation_error_code (Conv_Unprocessable _) = ''UNPROCESSABLE_ENTITY''"
| "conversation_error_code (Conv_Archived _ _) = ''CONVERSATION_ARCHIVED''"
| "conversation_error_code (Conv_WorkspacePathUnavailable _) = ''WORKSPACE_PATH_UNAVAILABLE''"
| "conversation_error_code (Conv_WorkspacePathRuntimeUnavailable _) = ''WORKSPACE_PATH_RUNTIME_UNAVAILABLE''"
| "conversation_error_code (Conv_OpenClawGatewayUnreachable _) = ''USER_AGENT_OPENCLAW_GATEWAY_UNREACHABLE''"

end
