(* ===== verification/Message_Service.thy ===== *)
theory Message_Service
  imports Message_Drain Rate_Limit Ki_Text Conversation_Error
begin

text \<open>
  Sending a message from one conversation's agent to another conversation: \<open>service.rs\<close>, \<open>error.rs\<close>
  and the error mapping of \<open>routes.rs\<close> of \<open>crates/aionui-session-message\<close>, with the workspace and
  team readers of \<open>session_mentions.rs\<close> of \<open>crates/aionui-conversation\<close> that it calls.

  The settings and conversation repositories, the human send path and \<open>serde_json\<close> are the fields of
  \<open>service_env\<close>. What other tasks do to the queue while \<open>send_message\<close> is awaited is one of them.
  A text is its UTF-8 bytes.
\<close>

section \<open>Errors\<close>

datatype tool_error_code =
    Code_TargetNotFound
  | Code_TargetIsTeam
  | Code_SenderIsTeam
  | Code_TargetIsSelf
  | Code_QueueFull
  | Code_RateLimited
  | Code_FeatureDisabled
  | Code_RuntimeAuthFailed
  | Code_SchemaValidationFailed
  | Code_TransportUnavailable

datatype message_error =
    TargetNotFound string
  | TargetIsTeam string
  | SenderIsTeam string
  | TargetIsSelf string
  | QueueFull
  | RateLimited
  | FeatureDisabled
  | SchemaValidation string
  | TransportUnavailable string

fun error_code :: "message_error \<Rightarrow> tool_error_code" where
  "error_code (TargetNotFound _) = Code_TargetNotFound"
| "error_code (TargetIsTeam _) = Code_TargetIsTeam"
| "error_code (SenderIsTeam _) = Code_SenderIsTeam"
| "error_code (TargetIsSelf _) = Code_TargetIsSelf"
| "error_code QueueFull = Code_QueueFull"
| "error_code RateLimited = Code_RateLimited"
| "error_code FeatureDisabled = Code_FeatureDisabled"
| "error_code (SchemaValidation _) = Code_SchemaValidationFailed"
| "error_code (TransportUnavailable _) = Code_TransportUnavailable"

fun http_status :: "message_error \<Rightarrow> u16" where
  "http_status (TargetNotFound _) = 404"
| "http_status (TargetIsTeam _) = 403"
| "http_status (SenderIsTeam _) = 403"
| "http_status FeatureDisabled = 403"
| "http_status (TargetIsSelf _) = 400"
| "http_status (SchemaValidation _) = 400"
| "http_status QueueFull = 409"
| "http_status (TransportUnavailable _) = 409"
| "http_status RateLimited = 429"

fun error_text :: "message_error \<Rightarrow> string" where
  "error_text (TargetNotFound i) = ''target conversation not found: '' @ i"
| "error_text (TargetIsTeam i) = ''target conversation is team-owned: '' @ i"
| "error_text (SenderIsTeam i) = ''sender conversation is team-owned: '' @ i"
| "error_text (TargetIsSelf i) = ''target conversation is the sender: '' @ i"
| "error_text QueueFull = ''pending-delivery queue is full''"
| "error_text RateLimited = ''cross-session message rate limit tripped''"
| "error_text FeatureDisabled = ''cross-session messaging is disabled for this user''"
| "error_text (SchemaValidation r) = ''stdin payload does not match the schema: '' @ r"
| "error_text (TransportUnavailable r) = ''delivery transport unavailable: '' @ r"

text \<open>The variants of \<open>aionui_common::ApiError\<close> the picker's route produces.\<close>

datatype api_error =
    Api_NotFound string
  | Api_BadRequest string
  | Api_Forbidden string
  | Api_Conflict string
  | Api_RateLimited

fun api_status :: "api_error \<Rightarrow> u16" where
  "api_status (Api_NotFound _) = 404"
| "api_status (Api_BadRequest _) = 400"
| "api_status (Api_Forbidden _) = 403"
| "api_status (Api_Conflict _) = 409"
| "api_status Api_RateLimited = 429"

definition to_api_error :: "message_error \<Rightarrow> api_error" where
  "to_api_error e =
    (let m = error_text e; s = http_status e
     in if s = 403 then Api_Forbidden m
        else if s = 404 then Api_NotFound m
        else if s = 409 then Api_Conflict m
        else if s = 429 then Api_RateLimited
        else Api_BadRequest m)"

datatype attempt_error = Transient string | Hard string

fun classify_delivery_failure :: "conversation_error \<Rightarrow> attempt_error" where
  "classify_delivery_failure (Conv_Busy r) = Transient (conversation_error_text (Conv_Busy r))"
| "classify_delivery_failure (Conv_RuntimeRestarting c) = Transient (conversation_error_text (Conv_RuntimeRestarting c))"
| "classify_delivery_failure e = Hard (conversation_error_text e)"


section \<open>The delivered content\<close>

definition utf8 :: "nat list \<Rightarrow> string" where
  "utf8 bytes = map char_of bytes"

text \<open>A line feed, a tab, and the source's full-width parentheses and Chinese remarks.\<close>

definition line_feed :: string where "line_feed = utf8 [10]"

definition tab :: string where "tab = utf8 [9]"

definition reply_hint :: string where
  "reply_hint = utf8 [0xEF, 0xBC, 0x88, 0xE5, 0x9B, 0x9E, 0xE4, 0xBF, 0xA1]
     @ '': session send-message, to=reply_to'' @ utf8 [0xEF, 0xBC, 0x89]"

definition differs_remark :: string where
  "differs_remark = utf8
     [0xEF, 0xBC, 0x88, 0xE4, 0xB8, 0x8E, 0xE4, 0xBD, 0xA0, 0xE4, 0xB8, 0x8D, 0xE5, 0x90, 0x8C,
      0xEF, 0xBC, 0x8C, 0xE5, 0x8B, 0xBF, 0xE7, 0x94, 0xA8, 0xE7, 0x9B, 0xB8, 0xE5, 0xAF, 0xB9,
      0xE8, 0xB7, 0xAF, 0xE5, 0xBE, 0x84, 0xEF, 0xBC, 0x8C, 0xE5, 0x8B, 0xBF, 0xE5, 0x81, 0x87,
      0xE8, 0xAE, 0xBE, 0xE5, 0x8F, 0xAF, 0xE8, 0xAF, 0xBB, 0xEF, 0xBC, 0x89]"

definition build_session_message_block :: "string \<Rightarrow> string \<Rightarrow> string \<Rightarrow> string \<Rightarrow> string" where
  "build_session_message_block from_name from_id workspace_field reply_to =
     ''[[AION_SESSION_MESSAGE]]'' @ line_feed
     @ ''from: '' @ from_name @ tab @ from_id @ line_feed
     @ ''workspace: '' @ workspace_field @ line_feed
     @ ''reply_to: '' @ reply_to @ tab @ reply_hint @ line_feed
     @ ''[[/AION_SESSION_MESSAGE]]''"

definition compose_delivery_content :: "string \<Rightarrow> string \<Rightarrow> string" where
  "compose_delivery_content block message = block @ line_feed @ line_feed @ message"

definition recipient_workspace_field :: "string option \<Rightarrow> string option \<Rightarrow> string" where
  "recipient_workspace_field sender target =
    (case sender of
       Some s \<Rightarrow> (if target = Some s then ''same'' else s @ differs_remark)
     | None \<Rightarrow> ''unknown'' @ differs_remark)"


section \<open>The service\<close>

record conversation_row =
  cr_name :: string
  cr_extra :: string

text \<open>\<open>env_json extra key\<close> is the string under a key of the row's JSON text, if it parses and has one
  there; \<open>env_send_message\<close> answers whether the message joined a running turn.\<close>

record service_env =
  env_settings :: "string \<Rightarrow> string + bool option"
  env_conversation :: "string \<Rightarrow> string \<Rightarrow> string + conversation_row option"
  env_json :: "string \<Rightarrow> string \<Rightarrow> string option"
  env_send_message :: "string \<Rightarrow> string \<Rightarrow> string \<Rightarrow> conversation_error + bool"
  env_now :: int
  env_meanwhile :: "queue_op list"

record rate_notice =
  rn_user :: string
  rn_from :: string
  rn_from_name :: string
  rn_to :: string
  rn_to_name :: string
  rn_window_count :: u32
  rn_gate :: rate_gate

text \<open>The shared queue and windows, and the service's effects: the calls of the human send path, the
  broadcasts, and the wake-ups of the drainer.\<close>

record service_state =
  sv_queue :: queue_state
  sv_windows :: rate_windows
  sv_attempts :: "(string \<times> string \<times> string) list"
  sv_notices :: "rate_notice list"
  sv_wakeups :: nat

definition team_id_from_extra :: "(string \<Rightarrow> string \<Rightarrow> string option) \<Rightarrow> string \<Rightarrow> string option" where
  "team_id_from_extra json extra =
    (case json extra ''teamId'' of Some v \<Rightarrow> (if trim v \<noteq> [] then Some v else None) | None \<Rightarrow> None)"

definition workspace_from_extra :: "(string \<Rightarrow> string \<Rightarrow> string option) \<Rightarrow> string \<Rightarrow> string option" where
  "workspace_from_extra json extra =
    (case json extra ''workspace'' of Some v \<Rightarrow> (if trim v \<noteq> [] then Some (trim v) else None) | None \<Rightarrow> None)"

definition is_enabled_for :: "service_env \<Rightarrow> string \<Rightarrow> bool" where
  "is_enabled_for env user =
    (case env_settings env user of Inr (Some enabled) \<Rightarrow> enabled | Inr None \<Rightarrow> True | Inl _ \<Rightarrow> True)"

definition load_sender :: "service_env \<Rightarrow> string \<Rightarrow> string \<Rightarrow> message_error + conversation_row" where
  "load_sender env user from_id =
    (case env_conversation env user from_id of
       Inl err \<Rightarrow> Inl (TransportUnavailable err)
     | Inr None \<Rightarrow> Inl (TransportUnavailable (''sender conversation missing: '' @ from_id))
     | Inr (Some row) \<Rightarrow> Inr row)"

definition guard_list_access :: "service_env \<Rightarrow> string \<Rightarrow> string \<Rightarrow> message_error + unit" where
  "guard_list_access env user from_id =
    (if \<not> is_enabled_for env user then Inl FeatureDisabled
     else if from_id = [] then Inr ()
     else case load_sender env user from_id of
       Inl err \<Rightarrow> Inl err
     | Inr sender \<Rightarrow>
         (if team_id_from_extra (env_json env) (cr_extra sender) \<noteq> None then Inl (SenderIsTeam from_id)
          else Inr ()))"

definition deliver_now ::
  "service_env \<Rightarrow> string \<Rightarrow> string \<Rightarrow> string \<Rightarrow> service_state \<Rightarrow> (attempt_error + bool) \<times> service_state" where
  "deliver_now env user to content st =
    ((case env_send_message env user to content of
        Inr midturn \<Rightarrow> Inr midturn
      | Inl err \<Rightarrow> Inl (classify_delivery_failure err)),
     st\<lparr>sv_attempts := sv_attempts st @ [(user, to, content)],
        sv_queue := queue_run (env_meanwhile env) (sv_queue st)\<rparr>)"

definition broadcast_rate_limited ::
  "service_env \<Rightarrow> string \<Rightarrow> string \<Rightarrow> string \<Rightarrow> string \<Rightarrow> rate_gate \<Rightarrow> u32 \<Rightarrow> service_state \<Rightarrow> service_state" where
  "broadcast_rate_limited env user from_name from_id to gate count st =
    (let to_name = (case env_conversation env user to of Inr (Some row) \<Rightarrow> cr_name row | _ \<Rightarrow> to)
     in st\<lparr>sv_notices := sv_notices st @
          [\<lparr>rn_user = user, rn_from = from_id, rn_from_name = from_name, rn_to = to, rn_to_name = to_name,
            rn_window_count = count, rn_gate = gate\<rparr>]\<rparr>)"

datatype delivery_status = Delivered | Queued

definition send ::
  "service_env \<Rightarrow> string \<Rightarrow> string \<Rightarrow> string \<Rightarrow> string \<Rightarrow> service_state
     \<Rightarrow> (message_error + delivery_status \<times> string) \<times> service_state" where
  "send env user from_id req_to req_message st =
    (if \<not> is_enabled_for env user then (Inl FeatureDisabled, st)
     else case load_sender env user from_id of
       Inl err \<Rightarrow> (Inl err, st)
     | Inr sender \<Rightarrow>
    if team_id_from_extra (env_json env) (cr_extra sender) \<noteq> None then (Inl (SenderIsTeam from_id), st)
    else let to = trim req_to in
    if to = [] \<or> to = ''*'' then
      (Inl (SchemaValidation ''`to` must be a conversation id; names and `*` are not supported''), st)
    else if trim req_message = [] then (Inl (SchemaValidation ''`message` must not be empty''), st)
    else case check_and_record (env_now env) from_id to (sv_windows st) of
      (Verdict_Tripped gate count, w) \<Rightarrow>
        (Inl RateLimited,
         broadcast_rate_limited env user (cr_name sender) from_id to gate count (st\<lparr>sv_windows := w\<rparr>))
    | (Verdict_Allowed, w) \<Rightarrow>
    (let st = st\<lparr>sv_windows := w\<rparr> in
    if to = from_id then (Inl (TargetIsSelf to), st)
    else case env_conversation env user to of
      Inl err \<Rightarrow> (Inl (TransportUnavailable err), st)
    | Inr None \<Rightarrow> (Inl (TargetNotFound to), st)
    | Inr (Some target) \<Rightarrow>
    if team_id_from_extra (env_json env) (cr_extra target) \<noteq> None then (Inl (TargetIsTeam to), st)
    else
      (let field = recipient_workspace_field (workspace_from_extra (env_json env) (cr_extra sender))
                     (workspace_from_extra (env_json env) (cr_extra target));
           content = compose_delivery_content
                       (build_session_message_block (cr_name sender) from_id field from_id) req_message;
           (outcome, st) = deliver_now env user to content st
       in case outcome of
            Inr _ \<Rightarrow> (Inr (Delivered, to), st)
          | Inl (Transient _) \<Rightarrow>
              (case push \<lparr>pd_to = to, pd_user = user, pd_from = from_id, pd_message = content,
                          pd_expires = env_now env + ttl_ms\<rparr> (sv_queue st) of
                 (Push_QueueFull, q) \<Rightarrow> (Inl QueueFull, st\<lparr>sv_queue := q\<rparr>)
               | (Push_Ok, q) \<Rightarrow>
                   (Inr (Queued, to), st\<lparr>sv_queue := q, sv_wakeups := sv_wakeups st + 1\<rparr>))
          | Inl (Hard reason) \<Rightarrow> (Inl (TransportUnavailable reason), st))))"

text \<open>The service as the drainer's sink and gate.\<close>

definition deliver :: "service_env \<Rightarrow> pending_delivery \<Rightarrow> drain_outcome" where
  "deliver env item =
    (case env_send_message env (pd_user item) (pd_to item) (pd_message item) of
       Inr _ \<Rightarrow> Drain_Delivered
     | Inl err \<Rightarrow> (case classify_delivery_failure err of
                     Transient _ \<Rightarrow> Drain_Busy
                   | Hard reason \<Rightarrow> Drain_HardError reason))"

section \<open>The two ways a call can go\<close>

text \<open>The item a message becomes, and what the service does with it once every check has passed.\<close>

definition composed :: "service_env \<Rightarrow> conversation_row \<Rightarrow> conversation_row \<Rightarrow> string \<Rightarrow> string \<Rightarrow> string" where
  "composed env sender target from_id message =
     compose_delivery_content
       (build_session_message_block (cr_name sender) from_id
          (recipient_workspace_field (workspace_from_extra (env_json env) (cr_extra sender))
             (workspace_from_extra (env_json env) (cr_extra target))) from_id) message"

definition item_of :: "service_env \<Rightarrow> string \<Rightarrow> string \<Rightarrow> string \<Rightarrow> string \<Rightarrow> pending_delivery" where
  "item_of env user from_id to content =
     \<lparr>pd_to = to, pd_user = user, pd_from = from_id, pd_message = content, pd_expires = env_now env + ttl_ms\<rparr>"

text \<open>The checks before the rate gate, as the request they let through.\<close>

definition gate_request :: "service_env \<Rightarrow> string \<Rightarrow> string \<Rightarrow> string \<Rightarrow> string \<Rightarrow> rate_request option" where
  "gate_request env user from_id req_to req_message =
    (case load_sender env user from_id of
       Inl _ \<Rightarrow> None
     | Inr sender \<Rightarrow>
         (if is_enabled_for env user \<and> team_id_from_extra (env_json env) (cr_extra sender) = None
             \<and> trim req_to \<noteq> [] \<and> trim req_to \<noteq> ''*'' \<and> trim req_message \<noteq> []
          then Some (env_now env, from_id, trim req_to) else None))"

text \<open>Who may be sent to: another conversation of the user's, not owned by a team.\<close>

definition open_target :: "service_env \<Rightarrow> string \<Rightarrow> string \<Rightarrow> string \<Rightarrow> conversation_row \<Rightarrow> bool" where
  "open_target env user from_id to target \<longleftrightarrow>
     to \<noteq> from_id \<and> env_conversation env user to = Inr (Some target)
     \<and> team_id_from_extra (env_json env) (cr_extra target) = None"

text \<open>Every check of a call passes: the user's toggle is on, the sender is a conversation of the user's that no team
  owns, the recipient another one, the message is not blank, and the sender is within its rate.\<close>

definition deliverable ::
  "service_env \<Rightarrow> string \<Rightarrow> string \<Rightarrow> string \<Rightarrow> string \<Rightarrow> rate_windows \<Rightarrow> conversation_row \<Rightarrow> conversation_row \<Rightarrow> bool"
where
  "deliverable env user from_id req_to req_message windows sender target \<longleftrightarrow>
     is_enabled_for env user
     \<and> env_conversation env user from_id = Inr (Some sender) \<and> team_id_from_extra (env_json env) (cr_extra sender) = None
     \<and> trim req_to \<notin> {[], ''*'', from_id} \<and> trim req_message \<noteq> []
     \<and> fst (check_and_record (env_now env) from_id (trim req_to) windows) = Verdict_Allowed
     \<and> env_conversation env user (trim req_to) = Inr (Some target)
     \<and> team_id_from_extra (env_json env) (cr_extra target) = None"

lemma send_ungated:
  assumes "gate_request env user f req_to msg = None"
  shows "\<exists>e. send env user f req_to msg st = (Inl e, st) \<and> e \<noteq> RateLimited \<and> e \<noteq> QueueFull"
proof (cases "load_sender env user f")
  case (Inl e)
  then have "e \<noteq> RateLimited" "e \<noteq> QueueFull"
    by (auto simp: load_sender_def split: sum.splits option.splits)
  with Inl show ?thesis by (simp add: send_def)
next
  case (Inr sender)
  with assms show ?thesis by (auto simp: send_def gate_request_def Let_def)
qed

lemma gate_requestD:
  assumes "gate_request env user f req_to msg = Some r"
  obtains sender where "load_sender env user f = Inr sender" "is_enabled_for env user"
    "team_id_from_extra (env_json env) (cr_extra sender) = None"
    "trim req_to \<noteq> []" "trim req_to \<noteq> ''*''" "trim msg \<noteq> []" "r = (env_now env, f, trim req_to)"
  using assms by (auto simp: gate_request_def split: sum.splits if_splits)

lemma load_sender_row: "load_sender env user f = Inr sender \<longleftrightarrow> env_conversation env user f = Inr (Some sender)"
  by (auto simp: load_sender_def split: sum.splits option.splits)

lemma deliverable_gate:
  "deliverable env user f req_to msg w sender target \<longleftrightarrow>
     load_sender env user f = Inr sender \<and> gate_request env user f req_to msg = Some (env_now env, f, trim req_to) \<and>
     fst (check_and_record (env_now env) f (trim req_to) w) = Verdict_Allowed \<and>
     open_target env user f (trim req_to) target"
proof (cases "load_sender env user f")
  case (Inl e)
  then have "env_conversation env user f \<noteq> Inr (Some sender)" using load_sender_row [of env user f sender] by auto
  with Inl show ?thesis by (simp add: deliverable_def)
next
  case (Inr x)
  then show ?thesis
    using load_sender_row [of env user f x] by (auto simp: deliverable_def gate_request_def open_target_def split: if_splits)
qed

lemma send_tripped:
  assumes "gate_request env user f req_to msg = Some (now, f', to)"
    and "check_and_record now f' to (sv_windows st) = (Verdict_Tripped g n, w)"
  shows "\<exists>notice. send env user f req_to msg st =
    (Inl RateLimited, st\<lparr>sv_windows := w, sv_notices := sv_notices st @ [notice]\<rparr>)"
  by (rule gate_requestD [OF assms(1)])
    (use assms(2) in \<open>simp add: send_def Let_def broadcast_rate_limited_def; blast\<close>)

lemma send_closed:
  assumes "gate_request env user f req_to msg = Some (now, f', to)"
    and "check_and_record now f' to (sv_windows st) = (Verdict_Allowed, w)"
    and "\<nexists>target. open_target env user f to target"
  shows "\<exists>e. send env user f req_to msg st = (Inl e, st\<lparr>sv_windows := w\<rparr>) \<and> e \<noteq> RateLimited \<and> e \<noteq> QueueFull"
proof (rule gate_requestD [OF assms(1)])
  fix sender assume *: "load_sender env user f = Inr sender" "is_enabled_for env user"
    "team_id_from_extra (env_json env) (cr_extra sender) = None"
    "trim req_to \<noteq> []" "trim req_to \<noteq> ''*''" "trim msg \<noteq> []" "(now, f', to) = (env_now env, f, trim req_to)"
  then have shape: "send env user f req_to msg st =
    (let st = st\<lparr>sv_windows := w\<rparr> in
      if to = f then (Inl (TargetIsSelf to), st)
      else case env_conversation env user to of
        Inl err \<Rightarrow> (Inl (TransportUnavailable err), st)
      | Inr None \<Rightarrow> (Inl (TargetNotFound to), st)
      | Inr (Some target) \<Rightarrow> (Inl (TargetIsTeam to), st))"
    using assms(2,3) by (auto simp: send_def Let_def open_target_def split: sum.splits option.splits)
  show ?thesis unfolding shape by (auto simp: Let_def split: sum.splits option.splits)
qed

lemma send_attempted:
  assumes "gate_request env user f req_to msg = Some (now, f', to)"
    and "check_and_record now f' to (sv_windows st) = (Verdict_Allowed, w)"
    and "open_target env user f to target"
  shows "\<exists>sender content. load_sender env user f = Inr sender \<and> content = composed env sender target f msg \<and>
    send env user f req_to msg st =
     (let st = st\<lparr>sv_windows := w, sv_attempts := sv_attempts st @ [(user, to, content)],
                 sv_queue := queue_run (env_meanwhile env) (sv_queue st)\<rparr>
      in case env_send_message env user to content of
           Inr _ \<Rightarrow> (Inr (Delivered, to), st)
         | Inl err \<Rightarrow>
            (case classify_delivery_failure err of
               Transient _ \<Rightarrow>
                 (case push (item_of env user f to content) (sv_queue st) of
                    (Push_QueueFull, q) \<Rightarrow> (Inl QueueFull, st\<lparr>sv_queue := q\<rparr>)
                  | (Push_Ok, q) \<Rightarrow> (Inr (Queued, to), st\<lparr>sv_queue := q, sv_wakeups := sv_wakeups st + 1\<rparr>))
             | Hard reason \<Rightarrow> (Inl (TransportUnavailable reason), st)))"
proof (rule gate_requestD [OF assms(1)])
  fix sender assume *: "load_sender env user f = Inr sender" "is_enabled_for env user"
    "team_id_from_extra (env_json env) (cr_extra sender) = None"
    "trim req_to \<noteq> []" "trim req_to \<noteq> ''*''" "trim msg \<noteq> []" "(now, f', to) = (env_now env, f, trim req_to)"
  then show ?thesis
    using assms(2,3)
    by (intro exI [where x = sender] exI [where x = "composed env sender target f msg"])
      (auto simp: send_def Let_def open_target_def deliver_now_def composed_def item_of_def
        split: sum.split attempt_error.split prod.split push_result.split)
qed

lemma push_item_cases:
  assumes "queue_ok q"
  shows "fst (push i q) = Push_QueueFull \<and> (\<forall>u. backlog (snd (push i q)) u = backlog q u)
    \<or> fst (push i q) = Push_Ok \<and> (\<forall>u. backlog (snd (push i q)) u = (if u = pd_to i then backlog q u @ [i] else backlog q u))"
  by (cases "fst (push i q)") (simp_all add: backlog_push [OF assms])

text \<open>The fate of one call, in three cases: it never reached the send path; it did and the message is
  gone for good or handed over; or the message waits.\<close>

inductive send_fate ::
  "service_env \<Rightarrow> string \<Rightarrow> string \<Rightarrow> string \<Rightarrow> string \<Rightarrow> service_state
     \<Rightarrow> (message_error + delivery_status \<times> string) \<Rightarrow> service_state \<Rightarrow> bool"
  for env user f req_to msg st where
  unsent: "sv_attempts st' = sv_attempts st \<Longrightarrow> sv_queue st' = sv_queue st \<Longrightarrow> sv_wakeups st' = sv_wakeups st
    \<Longrightarrow> e \<noteq> QueueFull \<Longrightarrow> (\<And>sender target. \<not> deliverable env user f req_to msg (sv_windows st) sender target)
    \<Longrightarrow> send_fate env user f req_to msg st (Inl e) st'"
| sent: "deliverable env user f req_to msg (sv_windows st) sender target \<Longrightarrow> to = trim req_to \<Longrightarrow>
    content = composed env sender target f msg \<Longrightarrow>
    sv_attempts st' = sv_attempts st @ [(user, to, content)] \<Longrightarrow>
    sv_queue st' = queue_run (env_meanwhile env) (sv_queue st) \<Longrightarrow> sv_wakeups st' = sv_wakeups st \<Longrightarrow>
    (\<exists>midturn. env_send_message env user to content = Inr midturn) \<and> r = Inr (Delivered, to)
      \<or> (\<exists>err reason. env_send_message env user to content = Inl err
            \<and> classify_delivery_failure err = Hard reason \<and> r = Inl (TransportUnavailable reason))
    \<Longrightarrow> send_fate env user f req_to msg st r st'"
| kept: "deliverable env user f req_to msg (sv_windows st) sender target \<Longrightarrow> to = trim req_to \<Longrightarrow>
    content = composed env sender target f msg \<Longrightarrow>
    sv_attempts st' = sv_attempts st @ [(user, to, content)] \<Longrightarrow>
    env_send_message env user to content = Inl err \<Longrightarrow> classify_delivery_failure err = Transient reason \<Longrightarrow>
    sv_queue st' = snd (push (item_of env user f to content) (queue_run (env_meanwhile env) (sv_queue st))) \<Longrightarrow>
    (if fst (push (item_of env user f to content) (queue_run (env_meanwhile env) (sv_queue st))) = Push_Ok
     then r = Inr (Queued, to) \<and> sv_wakeups st' = sv_wakeups st + 1
     else r = Inl QueueFull \<and> sv_wakeups st' = sv_wakeups st)
    \<Longrightarrow> send_fate env user f req_to msg st r st'"

lemma send_meets_fate:
  "send_fate env user f req_to msg st (fst (send env user f req_to msg st)) (snd (send env user f req_to msg st))"
proof (cases "gate_request env user f req_to msg")
  case None
  then have "\<not> deliverable env user f req_to msg (sv_windows st) sender target" for sender target
    by (simp add: deliverable_gate)
  with send_ungated [OF None, of st] show ?thesis by (auto intro!: send_fate.unsent)
next
  case (Some rq)
  have rq: "rq = (env_now env, f, trim req_to)" by (rule gate_requestD [OF Some])
  let ?to = "trim req_to"
  obtain v w where check: "check_and_record (env_now env) f ?to (sv_windows st) = (v, w)" by fastforce
  note gate = Some [unfolded rq]
  show ?thesis
  proof (cases v)
    case (Verdict_Tripped g n)
    from send_tripped [OF gate check [unfolded Verdict_Tripped]] check Verdict_Tripped show ?thesis
      by (auto simp: deliverable_gate intro!: send_fate.unsent)
  next
    case Verdict_Allowed
    note allowed = check [unfolded Verdict_Allowed]
    show ?thesis
    proof (cases "\<exists>target. open_target env user f ?to target")
      case False
      from send_closed [OF gate allowed this] False show ?thesis
        by (auto simp: deliverable_gate intro!: send_fate.unsent)
    next
      case True
      then obtain target where target: "open_target env user f ?to target" by blast
      obtain sender where sender: "load_sender env user f = Inr sender" by (rule gate_requestD [OF Some])
      have del: "deliverable env user f req_to msg (sv_windows st) sender target"
        using sender target gate allowed by (simp add: deliverable_gate)
      show ?thesis
      proof (cases "env_send_message env user ?to (composed env sender target f msg)")
        case (Inr m)
        with send_attempted [OF gate allowed target] sender show ?thesis
          by (auto simp: Let_def intro!: send_fate.sent [OF del refl])
      next
        case (Inl err)
        show ?thesis
        proof (cases "classify_delivery_failure err")
          case (Transient reason)
          with Inl send_attempted [OF gate allowed target] sender show ?thesis
            by (auto simp: Let_def intro!: send_fate.kept [OF del refl] split: prod.split push_result.split)
        next
          case (Hard reason)
          with Inl send_attempted [OF gate allowed target] sender show ?thesis
            by (auto simp: Let_def intro!: send_fate.sent [OF del refl])
        qed
      qed
    qed
  qed
qed

section \<open>Properties\<close>

text \<open>C23: A message is never lost or duplicated by the call that sends it. A call some check of which fails
  answers an error, hands nothing over and leaves the queue and the drainer as they were. Any other call composes the
  message, hands it over exactly once, and answers what became of it: \<open>Delivered\<close>, or an error when the failure
  is final, with the queue as other tasks left it during the delivery; when the recipient is not ready the
  message joins the end of its backlog, to expire one TTL from now, and the drainer is woken, or the call
  answers that the queue is full and no backlog has it.\<close>
theorem send_accounts_for_message:
  assumes "queue_ok (sv_queue st)" and "send env user f req_to msg st = (r, st')"
  defines "before \<equiv> queue_run (env_meanwhile env) (sv_queue st)" and "to \<equiv> trim req_to"
  shows "(\<nexists>sender target. deliverable env user f req_to msg (sv_windows st) sender target)
      \<and> (\<exists>e. r = Inl e \<and> e \<noteq> QueueFull)
      \<and> sv_attempts st' = sv_attempts st \<and> sv_queue st' = sv_queue st \<and> sv_wakeups st' = sv_wakeups st
    \<or> (\<exists>sender target content. deliverable env user f req_to msg (sv_windows st) sender target
      \<and> content = compose_delivery_content
          (build_session_message_block (cr_name sender) f
            (recipient_workspace_field (workspace_from_extra (env_json env) (cr_extra sender))
              (workspace_from_extra (env_json env) (cr_extra target))) f) msg
      \<and> sv_attempts st' = sv_attempts st @ [(user, to, content)]
      \<and> (case env_send_message env user to content of
           Inr _ \<Rightarrow> r = Inr (Delivered, to) \<and> sv_queue st' = before \<and> sv_wakeups st' = sv_wakeups st
         | Inl err \<Rightarrow>
            (case classify_delivery_failure err of
               Hard reason \<Rightarrow>
                 r = Inl (TransportUnavailable reason) \<and> sv_queue st' = before \<and> sv_wakeups st' = sv_wakeups st
             | Transient _ \<Rightarrow>
                 if total_len before < 200 \<and> len_for to before < 20
                 then r = Inr (Queued, to) \<and> sv_wakeups st' = sv_wakeups st + 1
                   \<and> backlog (sv_queue st') = (backlog before)(to := backlog before to @
                       [\<lparr>pd_to = to, pd_user = user, pd_from = f, pd_message = content, pd_expires = env_now env + 600000\<rparr>])
                 else r = Inl QueueFull \<and> sv_wakeups st' = sv_wakeups st \<and> backlog (sv_queue st') = backlog before)))"
proof -
  have ok: "queue_ok before" unfolding before_def by (rule ok_run [OF assms(1)])
  from send_meets_fate [of env user f req_to msg st] assms(2)
  have "send_fate env user f req_to msg st r st'" by simp
  then show ?thesis
  proof cases
    case (unsent e)
    then show ?thesis by blast
  next
    case (sent sender target to' content)
    then show ?thesis unfolding to_def before_def composed_def
      by (intro disjI2 exI [of _ sender] exI [of _ target] exI [of _ content]) auto
  next
    case (kept sender target to' content err reason)
    have "pd_to (item_of env user f to content) = to" by (simp add: item_of_def)
    with kept push_room [OF ok, of "item_of env user f to content"] push_item_cases [OF ok, of "item_of env user f to content"]
    show ?thesis unfolding to_def before_def composed_def
      by (intro disjI2 exI [of _ sender] exI [of _ target] exI [of _ content])
        (auto simp: item_of_def ttl_ms_def fun_eq_iff split: if_splits)
  qed
qed

text \<open>A refusal reads the same through both doors: the picker's API error has the status that the
  agent's CLI envelope has, and no service error claims to be a failed runtime authentication.\<close>
theorem refusal_status_agrees:
  "api_status (to_api_error e) = http_status e \<and> error_code e \<noteq> Code_RuntimeAuthFailed \<and> http_status e \<noteq> 401"
  by (cases e) (simp_all add: to_api_error_def)

section \<open>Histories of calls\<close>

record send_call =
  sc_env :: service_env
  sc_user :: string
  sc_from :: string
  sc_to :: string
  sc_message :: string

definition call :: "send_call \<Rightarrow> service_state \<Rightarrow> (message_error + delivery_status \<times> string) \<times> service_state" where
  "call c st = send (sc_env c) (sc_user c) (sc_from c) (sc_to c) (sc_message c) st"

text \<open>The calls of a history that got as far as the human send path: time, sender and recipient.\<close>

fun attempts_of :: "send_call list \<Rightarrow> service_state \<Rightarrow> rate_request list" where
  "attempts_of [] st = []"
| "attempts_of (c # cs) st =
     (let st' = snd (call c st)
      in (if sv_attempts st' = sv_attempts st then [] else [(env_now (sc_env c), sc_from c, trim (sc_to c))])
         @ attempts_of cs st')"

definition gate_of :: "send_call \<Rightarrow> rate_request option" where
  "gate_of c = gate_request (sc_env c) (sc_user c) (sc_from c) (sc_to c) (sc_message c)"

definition allowed_by :: "rate_windows \<Rightarrow> rate_request list \<Rightarrow> rate_request list" where
  "allowed_by w rs = map fst (filter (\<lambda>(_, v). v = Verdict_Allowed) (zip rs (fst (rate_run rs w))))"

lemma allowed_by_Cons:
  "allowed_by w ((now, f, t) # rs) =
     (if fst (check_and_record now f t w) = Verdict_Allowed then [(now, f, t)] else [])
       @ allowed_by (snd (check_and_record now f t w)) rs"
  by (simp add: allowed_by_def case_prod_unfold Let_def)

text \<open>One call moves the windows as the gate does on the request it lets through, and attempts only what
  the gate allows.\<close>

lemma call_windows:
  "case gate_of c of
     None \<Rightarrow> sv_windows (snd (call c st)) = sv_windows st \<and> sv_attempts (snd (call c st)) = sv_attempts st
   | Some (now, f, to) \<Rightarrow>
       sv_windows (snd (call c st)) = snd (check_and_record now f to (sv_windows st))
       \<and> (now, f, to) = (env_now (sc_env c), sc_from c, trim (sc_to c))
       \<and> (sv_attempts (snd (call c st)) = sv_attempts st
          \<or> fst (check_and_record now f to (sv_windows st)) = Verdict_Allowed)"
proof (cases "gate_of c")
  case None
  then have "gate_request (sc_env c) (sc_user c) (sc_from c) (sc_to c) (sc_message c) = None" by (simp add: gate_of_def)
  from send_ungated [OF this, of st] None show ?thesis by (auto simp: call_def)
next
  case (Some rq)
  then have gate: "gate_request (sc_env c) (sc_user c) (sc_from c) (sc_to c) (sc_message c) = Some rq"
    by (simp add: gate_of_def)
  have rq: "rq = (env_now (sc_env c), sc_from c, trim (sc_to c))" by (rule gate_requestD [OF gate])
  obtain v w where check: "check_and_record (env_now (sc_env c)) (sc_from c) (trim (sc_to c)) (sv_windows st) = (v, w)"
    by fastforce
  have "sv_windows (snd (call c st)) = w"
  proof (cases v)
    case (Verdict_Tripped g n)
    from send_tripped [OF gate [unfolded rq] check [unfolded this]] show ?thesis by (auto simp: call_def)
  next
    case Verdict_Allowed
    show ?thesis
    proof (cases "\<exists>target. open_target (sc_env c) (sc_user c) (sc_from c) (trim (sc_to c)) target")
      case False
      from send_closed [OF gate [unfolded rq] check [unfolded Verdict_Allowed] this] show ?thesis
        by (auto simp: call_def)
    next
      case True
      then obtain target where "open_target (sc_env c) (sc_user c) (sc_from c) (trim (sc_to c)) target" by blast
      from send_attempted [OF gate [unfolded rq] check [unfolded Verdict_Allowed] this] show ?thesis
        by (auto simp: call_def Let_def split: sum.split attempt_error.split prod.split push_result.split)
    qed
  qed
  moreover have "sv_attempts (snd (call c st)) = sv_attempts st \<or> v = Verdict_Allowed"
    using send_meets_fate [of "sc_env c" "sc_user c" "sc_from c" "sc_to c" "sc_message c" st] gate rq check
    by (auto simp: call_def deliverable_gate elim!: send_fate.cases)
  ultimately show ?thesis using Some check rq by simp
qed

lemma attempts_allowed: "subseq (attempts_of cs st) (allowed_by (sv_windows st) (filter_map gate_of cs))"
proof (induction cs arbitrary: st)
  case Nil
  then show ?case by simp
next
  case (Cons c cs)
  note ih = Cons.IH [of "snd (call c st)"]
  show ?case
  proof (cases "gate_of c")
    case None
    with call_windows [of c st] ih show ?thesis by (simp add: Let_def)
  next
    case (Some rq)
    obtain now f to where rq: "rq = (now, f, to)" by (cases rq)
    let ?check = "check_and_record now f to (sv_windows st)"
    from call_windows [of c st] have step: "sv_windows (snd (call c st)) = snd ?check"
      "attempts_of [c] st = (if sv_attempts (snd (call c st)) = sv_attempts st then [] else [rq])"
      "sv_attempts (snd (call c st)) = sv_attempts st \<or> fst ?check = Verdict_Allowed"
      by (auto simp: Some rq Let_def)
    then have "subseq (attempts_of [c] st) (if fst ?check = Verdict_Allowed then [rq] else [])" by auto
    from list_emb_append_mono [OF this ih] have "subseq (attempts_of [c] st @ attempts_of cs (snd (call c st)))
      ((if fst ?check = Verdict_Allowed then [rq] else []) @ allowed_by (snd ?check) (filter_map gate_of cs))"
      unfolding step(1) .
    moreover have "attempts_of (c # cs) st = attempts_of [c] st @ attempts_of cs (snd (call c st))"
      by (simp add: Let_def)
    ultimately show ?thesis by (simp only: Some rq filter_map_simps option.case allowed_by_Cons)
  qed
qed

lemma subseq_count: "subseq xs ys \<Longrightarrow> length (filter P xs) \<le> length (filter P ys)"
  by (rule list_emb_length [OF subseq_filter])

lemma gate_times: "sorted (map (\<lambda>c. env_now (sc_env c)) cs) \<Longrightarrow> sorted (map fst (filter_map gate_of cs))"
proof (induction cs)
  case (Cons c cs)
  have time: "fst rq = env_now (sc_env d)" if "gate_of d = Some rq" for d rq
    by (rule gate_requestD [OF that [unfolded gate_of_def]]) simp
  have "env_now (sc_env c) \<le> fst rq" if "rq \<in> set (filter_map gate_of cs)" for rq
  proof -
    from that obtain d where d: "d \<in> set cs" "gate_of d = Some rq" by (auto simp: set_filter_map)
    show ?thesis using Cons.prems d(1) by (simp add: time [OF d(2)])
  qed
  moreover have "fst rq = env_now (sc_env c)" if "gate_of c = Some rq" for rq by (rule time [OF that])
  ultimately show ?case using Cons.IH Cons.prems by (cases "gate_of c") auto
qed simp

text \<open>Two agents cannot keep each other busy. Over any history of send calls, whoever makes them and
  whatever the environment answers, one conversation's messages reach the human send path at most
  twenty times in any ten minutes, and at most ten times for one recipient.\<close>
theorem deliveries_are_bounded:
  assumes "sorted (map (\<lambda>c. env_now (sc_env c)) cs)" and "sv_windows st = new_windows"
  shows "length (filter (\<lambda>(at, f', _). x - 600000 < at \<and> at \<le> x \<and> f' = f) (attempts_of cs st)) \<le> 20
    \<and> length (filter (\<lambda>(at, f', t'). x - 600000 < at \<and> at \<le> x \<and> f' = f \<and> t' = t) (attempts_of cs st)) \<le> 10"
proof -
  have "allowed_by (sv_windows st) rs = allowed rs" for rs
    by (simp add: allowed_by_def allowed_def verdicts_def assms(2))
  with attempts_allowed [of cs st] have "subseq (attempts_of cs st) (allowed (filter_map gate_of cs))" by simp
  with allowed_bounded [OF gate_times [OF assms(1)], of x f t] show ?thesis
    by (auto simp: window_ms_def intro: order_trans [OF subseq_count])
qed

text \<open>Passes of the drainer over the service, with what its repositories answer at each.\<close>

definition pass :: "int \<times> service_env \<Rightarrow> queue_state \<Rightarrow> queue_state" where
  "pass p q = tick_once (fst p) (is_enabled_for (snd p)) (deliver (snd p)) (\<lambda>_. []) q"

definition not_ready :: "service_env \<Rightarrow> pending_delivery \<Rightarrow> bool" where
  "not_ready env i \<longleftrightarrow> (case env_send_message env (pd_user i) (pd_to i) (pd_message i) of
      Inl (Conv_Busy _) \<Rightarrow> True | Inl (Conv_RuntimeRestarting _) \<Rightarrow> True | _ \<Rightarrow> False)"

lemma deliver_busy: "deliver env i = Drain_Busy \<longleftrightarrow> not_ready env i"
  by (auto simp: deliver_def not_ready_def split: sum.split conversation_error.split)

lemma pass_backlog:
  "queue_ok q \<Longrightarrow> backlog (pass p q) t =
     settle (is_enabled_for (snd p)) (deliver (snd p)) (filter (alive (fst p)) (backlog q t))"
  by (simp add: pass_def tick_alone)

lemma ok_pass: "queue_ok q \<Longrightarrow> queue_ok (pass p q)"
  by (simp add: pass_def ok_tick)

lemma waiting_head_stays:
  assumes "queue_ok q" and "backlog q t = i # rest"
    and "\<forall>p \<in> set ps. fst p < pd_expires i \<and> is_enabled_for (snd p) (pd_user i) \<and> not_ready (snd p) i"
  shows "queue_ok (fold pass ps q) \<and>
    backlog (fold pass ps q) t = i # filter (\<lambda>j. \<forall>p \<in> set ps. alive (fst p) j) rest"
  using assms
proof (induction ps arbitrary: q rest)
  case (Cons p ps)
  have "backlog (pass p q) t = i # filter (alive (fst p)) rest"
    using Cons.prems by (simp add: pass_backlog settle_def alive_def deliver_busy)
  from Cons.IH [OF _ this] Cons.prems have "queue_ok (fold pass ps (pass p q)) \<and>
    backlog (fold pass ps (pass p q)) t = i # filter (\<lambda>j. \<forall>p \<in> set ps. alive (fst p) j) (filter (alive (fst p)) rest)"
    by (simp add: ok_pass)
  moreover have "filter (\<lambda>j. \<forall>p \<in> set ps. alive (fst p) j) (filter (alive (fst p)) rest)
      = filter (\<lambda>j. \<forall>p \<in> set (p # ps). alive (fst p) j) rest"
    by (auto intro: filter_cong)
  ultimately show ?case by simp
qed simp

text \<open>A queued message survives until its recipient is ready. However many passes the drainer makes
  while the recipient is busy or its runtime is restarting, as long as the message has not expired and its
  user keeps the feature on, it stays at the head, and the messages behind it only expire; the first
  pass that finds the recipient ready delivers it and no other.\<close>
theorem queued_until_ready:
  assumes "queue_ok q" and "backlog q t = i # rest"
    and "\<forall>p \<in> set ps. fst p < pd_expires i \<and> is_enabled_for (snd p) (pd_user i) \<and> not_ready (snd p) i"
    and "now < pd_expires i" and "is_enabled_for env (pd_user i)"
    and "env_send_message env (pd_user i) (pd_to i) (pd_message i) = Inr midturn"
  shows "backlog (fold pass ps q) t = i # filter (\<lambda>j. \<forall>p \<in> set ps. alive (fst p) j) rest
    \<and> deliver env i = Drain_Delivered
    \<and> backlog (pass (now, env) (fold pass ps q)) t
        = filter (alive now) (filter (\<lambda>j. \<forall>p \<in> set ps. alive (fst p) j) rest)"
proof -
  note waits = waiting_head_stays [OF assms(1-3)]
  moreover have out: "deliver env i = Drain_Delivered" by (simp add: deliver_def assms(6))
  ultimately show ?thesis using assms(4,5) by (simp add: pass_backlog settle_def alive_def)
qed

section \<open>Witnesses\<close>

definition demo_env :: "conversation_error + bool \<Rightarrow> service_env" where
  "demo_env answer =
     \<lparr>env_settings = (\<lambda>_. Inr None),
      env_conversation = (\<lambda>_ c. Inr (if c = ''a'' \<or> c = ''b'' then Some \<lparr>cr_name = c, cr_extra = []\<rparr> else None)),
      env_json = (\<lambda>_ _. None), env_send_message = (\<lambda>_ _ _. answer), env_now = 5, env_meanwhile = []\<rparr>"

definition demo_state :: service_state where
  "demo_state = \<lparr>sv_queue = new_queue, sv_windows = new_windows, sv_attempts = [], sv_notices = [], sv_wakeups = 0\<rparr>"

definition demo_send :: "conversation_error + bool \<Rightarrow> (message_error + delivery_status \<times> string) \<times> service_state" where
  "demo_send answer = send (demo_env answer) ''u'' ''a'' '' b '' ''hi'' demo_state"

lemma demo_send_queued: "fst (demo_send (Inl (Conv_RuntimeRestarting ''b''))) = Inr (Queued, ''b'')"
proof -
  have to: "trim '' b '' = ''b''" "trim ''hi'' = ''hi''" by code_simp+
  have gate: "check_and_record 5 ''a'' ''b'' new_windows
      = (Verdict_Allowed, \<lparr>rw_outbound = [(''a'', [5])], rw_pair = [((''a'', ''b''), [5])]\<rparr>)" by code_simp
  have put: "fst (push item new_queue) = Push_Ok" for item
    by (simp add: push_def new_queue_def global_limit_def per_target_limit_def)
  show ?thesis
    using gate put
    by (simp add: demo_send_def send_def demo_env_def demo_state_def is_enabled_for_def load_sender_def
        team_id_from_extra_def deliver_now_def queue_run_def Let_def to split: prod.split push_result.split)
      (metis fst_conv push_result.distinct(1))
qed

lemma send_accounts_for_message_witness:
  "\<exists>content. sv_attempts (snd (demo_send (Inl (Conv_RuntimeRestarting ''b'')))) = [(''u'', ''b'', content)]
     \<and> backlog (sv_queue (snd (demo_send (Inl (Conv_RuntimeRestarting ''b''))))) ''b''
       = [\<lparr>pd_to = ''b'', pd_user = ''u'', pd_from = ''a'', pd_message = content, pd_expires = 600005\<rparr>]"
proof -
  let ?env = "demo_env (Inl (Conv_RuntimeRestarting ''b''))"
  have ok: "queue_ok (sv_queue demo_state)" by (simp add: demo_state_def ok_new)
  have "send ?env ''u'' ''a'' '' b '' ''hi'' demo_state
      = (Inr (Queued, ''b''), snd (demo_send (Inl (Conv_RuntimeRestarting ''b''))))"
    using demo_send_queued by (simp add: demo_send_def prod_eq_iff)
  from send_accounts_for_message [OF ok this]
  show ?thesis
    by (auto simp: demo_env_def demo_state_def queue_run_def new_queue_def backlog_def total_len_def len_for_def
        fun_eq_iff split: if_splits)
qed

definition demo_call :: send_call where
  "demo_call = \<lparr>sc_env = demo_env (Inr False), sc_user = ''u'', sc_from = ''a'', sc_to = ''b'', sc_message = ''hi''\<rparr>"

lemma queued_until_ready_witness:
  "backlog (pass (9, demo_env (Inr True)) (pass (8, demo_env (Inl (Conv_RuntimeRestarting ''b''))) demo_inbox)) ''b''
     = [demo_item ''b'' ''2'']"
proof -
  have "queue_ok demo_inbox" unfolding demo_inbox_def by (rule ok_run [OF ok_new])
  moreover have "backlog demo_inbox ''b'' = [demo_item ''b'' ''1'', demo_item ''b'' ''2'']" by code_simp
  ultimately show ?thesis
    using queued_until_ready [of demo_inbox "''b''" "demo_item ''b'' ''1''" "[demo_item ''b'' ''2'']"
        "[(8, demo_env (Inl (Conv_RuntimeRestarting ''b'')))]" 9 "demo_env (Inr True)" True]
    by (simp add: demo_item_def demo_env_def not_ready_def is_enabled_for_def alive_def)
qed

end
