(* ===== verification/Message_History.thy ===== *)
theory Message_History
  imports Message_Service
begin

text \<open>
  Sends, drainer passes and cancels that run side by side. A send is two steps, what it does up to handing the
  message over and what it does when the delivery has answered (\<open>service.rs\<close>); a pass of the drainer is one step for its
  snapshot and two per message, the hand-over and what follows the answer (\<open>drainer.rs\<close>). The steps of different tasks
  interleave in any order. Two lemmas tie the steps to the whole operations: \<open>send_in_two_steps\<close> and
  \<open>pass_in_steps\<close>.
\<close>

section \<open>The steps\<close>

definition send_begin ::
  "service_env \<Rightarrow> string \<Rightarrow> string \<Rightarrow> string \<Rightarrow> string \<Rightarrow> service_state
     \<Rightarrow> (message_error + string \<times> string) \<times> service_state" where
  "send_begin env user from_id req_to req_message st =
    (if \<not> is_enabled_for env user then (Inl FeatureDisabled, st)
     else case load_sender env user from_id of
       Inl err \<Rightarrow> (Inl err, st)
     | Inr sender \<Rightarrow>
    if team_id_from_extra (env_json env) (cr_extra sender) \<noteq> None then (Inl (SenderIsTeam from_id), st)
    else let to = trim req_to in
    if to = [] \<or> to = ''*'' then
      (Inl (SchemaValidation ''`to` must be a conversation id; names and `*` are not supported''), st)
    else if trim req_message = [] then (Inl (SchemaValidation ''`message` must not be empty''), st)
    else case check_and_record (env_now env) from_id to (sv_windows st) of
      (Verdict_Tripped gate count, w) \<Rightarrow>
        (Inl RateLimited,
         broadcast_rate_limited env user (cr_name sender) from_id to gate count (st\<lparr>sv_windows := w\<rparr>))
    | (Verdict_Allowed, w) \<Rightarrow>
    (let st = st\<lparr>sv_windows := w\<rparr> in
    if to = from_id then (Inl (TargetIsSelf to), st)
    else case env_conversation env user to of
      Inl err \<Rightarrow> (Inl (TransportUnavailable err), st)
    | Inr None \<Rightarrow> (Inl (TargetNotFound to), st)
    | Inr (Some target) \<Rightarrow>
    if team_id_from_extra (env_json env) (cr_extra target) \<noteq> None then (Inl (TargetIsTeam to), st)
    else
      (let field = recipient_workspace_field (workspace_from_extra (env_json env) (cr_extra sender))
                     (workspace_from_extra (env_json env) (cr_extra target));
           content = compose_delivery_content
                       (build_session_message_block (cr_name sender) from_id field from_id) req_message
       in (Inr (to, content), st\<lparr>sv_attempts := sv_attempts st @ [(user, to, content)]\<rparr>))))"

definition send_end ::
  "service_env \<Rightarrow> string \<Rightarrow> string \<Rightarrow> string \<Rightarrow> string \<Rightarrow> service_state
     \<Rightarrow> (message_error + delivery_status \<times> string) \<times> service_state" where
  "send_end env user from_id to content st =
    (case env_send_message env user to content of
       Inr _ \<Rightarrow> (Inr (Delivered, to), st)
     | Inl err \<Rightarrow>
        (case classify_delivery_failure err of
           Transient _ \<Rightarrow>
             (case push \<lparr>pd_to = to, pd_user = user, pd_from = from_id, pd_message = content,
                         pd_expires = env_now env + ttl_ms\<rparr> (sv_queue st) of
                (Push_QueueFull, q) \<Rightarrow> (Inl QueueFull, st\<lparr>sv_queue := q\<rparr>)
              | (Push_Ok, q) \<Rightarrow> (Inr (Queued, to), st\<lparr>sv_queue := q, sv_wakeups := sv_wakeups st + 1\<rparr>))
         | Hard reason \<Rightarrow> (Inl (TransportUnavailable reason), st)))"

lemma send_in_two_steps:
  "send env user f req_to msg st =
    (case send_begin env user f req_to msg st of
       (Inl e, st') \<Rightarrow> (Inl e, st')
     | (Inr (to, content), st') \<Rightarrow>
         send_end env user f to content (st'\<lparr>sv_queue := queue_run (env_meanwhile env) (sv_queue st')\<rparr>))"
  by (auto simp: send_def send_begin_def send_end_def deliver_now_def Let_def
      split: sum.split option.split prod.split rate_verdict.split push_result.split attempt_error.split)

text \<open>The service with the sends whose delivery is awaited, what is left of the drainer's snapshot, and
  the message the drainer has handed over with what its delivery will answer.\<close>

record message_world =
  mw_service :: service_state
  mw_flying :: "(send_call \<times> string \<times> string) list"
  mw_snapshot :: "pending_delivery list"
  mw_awaited :: "(pending_delivery \<times> drain_outcome) option"

datatype message_step =
    Step_Begin send_call
  | Step_End nat
  | Step_Snapshot int
  | Step_Head service_env
  | Step_Settle
  | Step_Cancel string cancel_cause

abbreviation mw_queue :: "message_world \<Rightarrow> queue_state" where
  "mw_queue w \<equiv> sv_queue (mw_service w)"

definition on_queue :: "(queue_state \<Rightarrow> queue_state) \<Rightarrow> message_world \<Rightarrow> message_world" where
  "on_queue f w = w\<lparr>mw_service := (mw_service w)\<lparr>sv_queue := f (mw_queue w)\<rparr>\<rparr>"

fun message_exec :: "message_step \<Rightarrow> message_world \<Rightarrow> message_world" where
  "message_exec (Step_Begin c) w =
    (case send_begin (sc_env c) (sc_user c) (sc_from c) (sc_to c) (sc_message c) (mw_service w) of
       (Inl _, st) \<Rightarrow> w\<lparr>mw_service := st\<rparr>
     | (Inr (to, content), st) \<Rightarrow> w\<lparr>mw_service := st, mw_flying := mw_flying w @ [(c, to, content)]\<rparr>)"
| "message_exec (Step_End k) w =
    (if k < length (mw_flying w)
     then (case mw_flying w ! k of (c, to, content) \<Rightarrow>
       w\<lparr>mw_service := snd (send_end (sc_env c) (sc_user c) (sc_from c) to content (mw_service w)),
         mw_flying := take k (mw_flying w) @ drop (Suc k) (mw_flying w)\<rparr>)
     else w)"
| "message_exec (Step_Snapshot now) w =
    (if mw_awaited w = None \<and> mw_snapshot w = []
     then (let w' = on_queue (\<lambda>q. snd (drop_expired now q)) w in w'\<lparr>mw_snapshot := snapshot_heads (mw_queue w')\<rparr>)
     else w)"
| "message_exec (Step_Head env) w =
    (case (mw_awaited w, mw_snapshot w) of
       (None, i # rest) \<Rightarrow>
         (if \<not> is_enabled_for env (pd_user i)
          then (on_queue (\<lambda>q. snd (clear_for (pd_to i) q)) w)\<lparr>mw_snapshot := rest\<rparr>
          else w\<lparr>mw_service := (mw_service w)
                   \<lparr>sv_attempts := sv_attempts (mw_service w) @ [(pd_user i, pd_to i, pd_message i)]\<rparr>,
                 mw_snapshot := rest, mw_awaited := Some (i, deliver env i)\<rparr>)
     | _ \<Rightarrow> w)"
| "message_exec Step_Settle w =
    (case mw_awaited w of
       Some (i, outcome) \<Rightarrow> (on_queue (drain_item True outcome i) w)\<lparr>mw_awaited := None\<rparr>
     | None \<Rightarrow> w)"
| "message_exec (Step_Cancel c cause) w = on_queue (on_turn_cancelled c cause) w"

definition message_run :: "message_step list \<Rightarrow> message_world \<Rightarrow> message_world" where
  "message_run steps w = fold message_exec steps w"

text \<open>A service that has just started.\<close>

definition started :: message_world where
  "started = \<lparr>mw_service = \<lparr>sv_queue = new_queue, sv_windows = new_windows, sv_attempts = [], sv_notices = [],
     sv_wakeups = 0\<rparr>, mw_flying = [], mw_snapshot = [], mw_awaited = None\<rparr>"

text \<open>A pass of the drainer that is not interrupted is the steps of its snapshot and its heads.\<close>

lemma head_steps:
  assumes "mw_awaited w = None" "mw_snapshot w = i # rest"
  shows "message_exec Step_Settle (message_exec (Step_Head env) w) =
    (on_queue (drain_item (is_enabled_for env (pd_user i)) (deliver env i) i) w)\<lparr>mw_snapshot := rest,
       mw_service := (mw_service (on_queue (drain_item (is_enabled_for env (pd_user i)) (deliver env i) i) w))
         \<lparr>sv_attempts := sv_attempts (mw_service w) @
            (if is_enabled_for env (pd_user i) then [(pd_user i, pd_to i, pd_message i)] else [])\<rparr>\<rparr>"
  using assms by (simp add: on_queue_def drain_item_def)

lemma heads_in_steps:
  assumes "mw_awaited w = None"
  shows "mw_queue (message_run (concat (replicate (length (mw_snapshot w)) [Step_Head env, Step_Settle])) w) =
    fold (\<lambda>i q. drain_item (is_enabled_for env (pd_user i)) (deliver env i) i q) (mw_snapshot w) (mw_queue w)"
  using assms
proof (induction "mw_snapshot w" arbitrary: w)
  case (Cons i rest)
  let ?w = "message_exec Step_Settle (message_exec (Step_Head env) w)"
  note shape = head_steps [OF Cons.prems Cons.hyps(2) [symmetric], of env]
  have "rest = mw_snapshot ?w" "mw_awaited ?w = None"
    "mw_queue ?w = drain_item (is_enabled_for env (pd_user i)) (deliver env i) i (mw_queue w)"
    unfolding shape using Cons.prems by (simp_all add: on_queue_def)
  with Cons.hyps(1) [OF this(1,2)] Cons.hyps(2) [symmetric] show ?case
    by (simp add: message_run_def del: message_exec.simps)
qed (simp add: message_run_def)

lemma pass_in_steps:
  assumes "mw_awaited w = None" "mw_snapshot w = []"
  shows "mw_queue (message_run (Step_Snapshot now #
      concat (replicate (length (snapshot_heads (snd (drop_expired now (mw_queue w))))) [Step_Head env, Step_Settle])) w) =
    tick_once now (is_enabled_for env) (deliver env) (\<lambda>_. []) (mw_queue w)"
proof -
  let ?w = "message_exec (Step_Snapshot now) w"
  have "mw_awaited ?w = None" "mw_snapshot ?w = snapshot_heads (snd (drop_expired now (mw_queue w)))"
    "mw_queue ?w = snd (drop_expired now (mw_queue w))"
    using assms by (simp_all add: Let_def on_queue_def)
  with heads_in_steps [OF this(1), of env] show ?thesis
    by (simp add: message_run_def tick_once_def Let_def queue_run_def del: message_exec.simps)
qed


section \<open>Where every message comes from\<close>

text \<open>A call whose checks all pass, by the windows as it finds them, and the message it composes.\<close>

definition admits :: "send_call \<Rightarrow> rate_windows \<Rightarrow> string \<times> string \<times> string \<Rightarrow> bool" where
  "admits c windows m \<longleftrightarrow> (\<exists>sender target.
     deliverable (sc_env c) (sc_user c) (sc_from c) (sc_to c) (sc_message c) windows sender target \<and>
     m = (sc_user c, trim (sc_to c), composed (sc_env c) sender target (sc_from c) (sc_message c)))"

lemma begin_handed:
  assumes "deliverable env user f req_to msg (sv_windows st) sender target"
  shows "send_begin env user f req_to msg st = (Inr (trim req_to, composed env sender target f msg),
     st\<lparr>sv_windows := snd (check_and_record (env_now env) f (trim req_to) (sv_windows st)),
        sv_attempts := sv_attempts st @ [(user, trim req_to, composed env sender target f msg)]\<rparr>)"
proof -
  have "load_sender env user f = Inr sender" using assms by (simp add: deliverable_gate)
  with assms show ?thesis by (auto simp: deliverable_def send_begin_def composed_def Let_def split: prod.split)
qed

lemma begin_cases:
  obtains (refused) e st' where "send_begin env user f req_to msg st = (Inl e, st')"
      "sv_attempts st' = sv_attempts st" "sv_queue st' = sv_queue st"
      "\<And>sender target. \<not> deliverable env user f req_to msg (sv_windows st) sender target"
  | (handed) sender target where
      "send_begin env user f req_to msg st = (Inr (trim req_to, composed env sender target f msg),
         st\<lparr>sv_windows := snd (check_and_record (env_now env) f (trim req_to) (sv_windows st)),
            sv_attempts := sv_attempts st @ [(user, trim req_to, composed env sender target f msg)]\<rparr>)"
      "deliverable env user f req_to msg (sv_windows st) sender target"
proof -
  obtain r st' where out: "send_begin env user f req_to msg st = (r, st')" by fastforce
  show thesis
  proof (cases "\<exists>sender target. deliverable env user f req_to msg (sv_windows st) sender target")
    case True
    then obtain sender target where del: "deliverable env user f req_to msg (sv_windows st) sender target" by blast
    with begin_handed [OF this] show thesis by (intro handed)
  next
    case False
    have "\<exists>e. r = Inl e \<and> sv_attempts st' = sv_attempts st \<and> sv_queue st' = sv_queue st"
    proof (cases "load_sender env user f")
      case (Inl e)
      with out show ?thesis by (auto simp: send_begin_def split: if_splits)
    next
      case (Inr sender)
      then have "env_conversation env user f = Inr (Some sender)" by (simp add: load_sender_row)
      with False Inr out show ?thesis
        by (auto simp: send_begin_def deliverable_def Let_def broadcast_rate_limited_def
            split: if_splits prod.splits rate_verdict.splits sum.splits option.splits)
    qed
    with False out show thesis by (auto intro: refused)
  qed
qed

text \<open>The message of a queued item, and the items in any backlog.\<close>

definition message_of :: "pending_delivery \<Rightarrow> string \<times> string \<times> string" where
  "message_of i = (pd_user i, pd_to i, pd_message i)"

definition queued :: "queue_state \<Rightarrow> pending_delivery set" where
  "queued q = (\<Union>t. set (backlog q t))"

lemma queued_push: "queue_ok q \<Longrightarrow> queued (snd (push i q)) \<subseteq> insert i (queued q)"
  by (auto simp: queued_def backlog_push split: if_splits)

lemma queued_clear: "queued (snd (clear_for t q)) \<subseteq> queued q"
  by (auto simp: queued_def backlog_clear split: if_splits)

lemma queued_remove: "queue_ok q \<Longrightarrow> queued (remove_head t q) \<subseteq> queued q"
proof -
  assume "queue_ok q"
  then have "set (backlog (remove_head t q) u) \<subseteq> set (backlog q u)" for u
    by (auto simp: backlog_remove) (metis list.sel(2) list.set_sel(2))
  then show ?thesis by (auto simp: queued_def)
qed

lemma queued_expired: "queue_ok q \<Longrightarrow> queued (snd (drop_expired now q)) \<subseteq> queued q"
  by (auto simp: queued_def backlog_expired)

lemma queued_drain: "queue_ok q \<Longrightarrow> queued (drain_item b out i q) \<subseteq> queued q \<and> queue_ok (drain_item b out i q)"
  using queued_clear queued_remove
  by (auto simp: drain_item_def pop_head_def drop_head_def ok_clear ok_remove split: drain_outcome.split)

lemma queued_heads: "queue_ok q \<Longrightarrow> set (snapshot_heads q) \<subseteq> queued q"
proof
  fix i assume "queue_ok q" "i \<in> set (snapshot_heads q)"
  then obtain rest where "backlog q (pd_to i) = i # rest" using heads_backlog by blast
  then have "i \<in> set (backlog q (pd_to i))" by simp
  then show "i \<in> queued q" unfolding queued_def by blast
qed

text \<open>A call of the history whose message this is: all its checks passed when it began.\<close>

definition origin :: "message_step list \<Rightarrow> send_call \<Rightarrow> string \<times> string \<times> string \<Rightarrow> bool" where
  "origin steps c m \<longleftrightarrow> (\<exists>j < length steps. steps ! j = Step_Begin c \<and>
     admits c (sv_windows (mw_service (message_run (take j steps) started))) m)"

definition waited :: "send_call \<Rightarrow> string \<times> string \<times> string \<Rightarrow> bool" where
  "waited c m \<longleftrightarrow> (\<exists>err reason. env_send_message (sc_env c) (fst m) (fst (snd m)) (snd (snd m)) = Inl err \<and>
     classify_delivery_failure err = Transient reason)"

lemma origin_later: "origin steps c m \<Longrightarrow> origin (steps @ [s]) c m"
  unfolding origin_def by (metis append_take_drop_id less_SucI length_append_singleton less_imp_le_nat nth_append take_append
      diff_is_0_eq take_0 append_Nil2)

lemma origin_now:
  "admits c (sv_windows (mw_service (message_run steps started))) m \<Longrightarrow> origin (steps @ [Step_Begin c]) c m"
  unfolding origin_def by (intro exI [of _ "length steps"]) simp

definition traced :: "message_step list \<Rightarrow> message_world \<Rightarrow> bool" where
  "traced steps w \<longleftrightarrow> queue_ok (mw_queue w)
     \<and> (\<forall>x \<in> set (mw_flying w). origin steps (fst x) (sc_user (fst x), snd x))
     \<and> (\<forall>i \<in> queued (mw_queue w). \<exists>c. origin steps c (message_of i) \<and> waited c (message_of i))
     \<and> (\<forall>i \<in> set (mw_snapshot w). \<exists>c. origin steps c (message_of i))"

lemma traced_later: "traced steps w \<Longrightarrow> traced (steps @ [s]) w"
  unfolding traced_def by (meson origin_later)

text \<open>A step that only takes messages away keeps the account.\<close>

lemma traced_shrinks:
  assumes "traced steps w" "queue_ok (mw_queue w')" "queued (mw_queue w') \<subseteq> queued (mw_queue w)"
    and "set (mw_flying w') \<subseteq> set (mw_flying w)" "set (mw_snapshot w') \<subseteq> set (mw_snapshot w) \<union> queued (mw_queue w)"
  shows "traced steps w'"
  using assms unfolding traced_def by (meson UnE subsetD)

text \<open>Who is being asked for the user's toggle in a step.\<close>

fun step_env :: "message_step \<Rightarrow> service_env option" where
  "step_env (Step_Begin c) = Some (sc_env c)"
| "step_env (Step_Head env) = Some env"
| "step_env _ = None"

text \<open>What a step hands over, at most one message.\<close>

definition hands_over :: "message_step list \<Rightarrow> message_step \<Rightarrow> message_world \<Rightarrow> message_world \<Rightarrow> bool" where
  "hands_over steps s w w' \<longleftrightarrow> sv_attempts (mw_service w') = sv_attempts (mw_service w) \<or>
     (\<exists>m env. sv_attempts (mw_service w') = sv_attempts (mw_service w) @ [m] \<and>
        step_env s = Some env \<and> is_enabled_for env (fst m) \<and> (\<exists>c. origin (steps @ [s]) c m))"

lemma attempts_kept: "sv_attempts (mw_service w') = sv_attempts (mw_service w) \<Longrightarrow> hands_over steps s w w'"
  by (simp add: hands_over_def)

lemma begin_traced:
  assumes w: "w = message_run steps started" and t: "traced steps w"
  shows "traced (steps @ [Step_Begin c]) (message_exec (Step_Begin c) w) \<and>
    hands_over steps (Step_Begin c) w (message_exec (Step_Begin c) w)"
proof (cases rule: begin_cases [of "sc_env c" "sc_user c" "sc_from c" "sc_to c" "sc_message c" "mw_service w"])
  case (refused e st')
  then show ?thesis
    by (intro conjI attempts_kept traced_shrinks [OF traced_later [OF t]]) (use t in \<open>simp_all add: traced_def\<close>)
next
  case (handed sender target)
  let ?content = "composed (sc_env c) sender target (sc_from c) (sc_message c)"
  let ?m = "(sc_user c, trim (sc_to c), ?content)"
  have mine: "origin (steps @ [Step_Begin c]) c ?m"
    using handed(2) by (intro origin_now) (auto simp: admits_def w)
  have "is_enabled_for (sc_env c) (sc_user c)" using handed(2) by (simp add: deliverable_def)
  moreover have "traced (steps @ [Step_Begin c]) (message_exec (Step_Begin c) w)"
    using traced_later [OF t, of "Step_Begin c"] mine unfolding traced_def by (simp add: handed(1))
  ultimately show ?thesis using mine by (auto simp: handed(1) hands_over_def)
qed

lemma end_traced:
  assumes t: "traced steps w"
  shows "traced (steps @ [Step_End k]) (message_exec (Step_End k) w) \<and> hands_over steps (Step_End k) w (message_exec (Step_End k) w)"
proof (cases "k < length (mw_flying w)")
  case True
  obtain c to content where fly: "mw_flying w ! k = (c, to, content)" by (cases "mw_flying w ! k")
  let ?q = "mw_queue w" and ?m = "(sc_user c, to, content)"
  let ?i = "\<lparr>pd_to = to, pd_user = sc_user c, pd_from = sc_from c, pd_message = content,
    pd_expires = env_now (sc_env c) + ttl_ms\<rparr>"
  let ?st = "snd (send_end (sc_env c) (sc_user c) (sc_from c) to content (mw_service w))"
  have "(c, to, content) \<in> set (mw_flying w)" using True fly by (metis nth_mem)
  then have mine: "origin steps c ?m" using t by (force simp: traced_def)
  have ok: "queue_ok ?q" using t by (simp add: traced_def)
  have st: "sv_attempts ?st = sv_attempts (mw_service w) \<and> (sv_queue ?st = ?q \<or> sv_queue ?st = snd (push ?i ?q) \<and> waited c ?m)"
    by (auto simp: send_end_def waited_def split: sum.split attempt_error.split prod.split push_result.split)
  have "traced steps (w\<lparr>mw_service := ?st, mw_flying := take k (mw_flying w) @ drop (Suc k) (mw_flying w)\<rparr>)"
    unfolding traced_def
  proof (intro conjI ballI)
    show "queue_ok (mw_queue (w\<lparr>mw_service := ?st, mw_flying := take k (mw_flying w) @ drop (Suc k) (mw_flying w)\<rparr>))"
      using st ok ok_push [OF ok, of ?i] by auto
  next
    fix x assume "x \<in> set (mw_flying (w\<lparr>mw_service := ?st, mw_flying := take k (mw_flying w) @ drop (Suc k) (mw_flying w)\<rparr>))"
    then have "x \<in> set (mw_flying w)" by (auto dest: in_set_takeD in_set_dropD)
    with t show "origin steps (fst x) (sc_user (fst x), snd x)" by (simp add: traced_def)
  next
    fix i assume "i \<in> queued (mw_queue (w\<lparr>mw_service := ?st, mw_flying := take k (mw_flying w) @ drop (Suc k) (mw_flying w)\<rparr>))"
    then consider "i \<in> queued ?q" | "i = ?i" "waited c ?m" using st queued_push [OF ok, of ?i] by auto
    then show "\<exists>c. origin steps c (message_of i) \<and> waited c (message_of i)"
    proof cases
      case 1
      with t show ?thesis by (simp add: traced_def)
    next
      case 2
      with mine show ?thesis by (intro exI [of _ c]) (simp add: message_of_def)
    qed
  next
    fix i assume "i \<in> set (mw_snapshot (w\<lparr>mw_service := ?st, mw_flying := take k (mw_flying w) @ drop (Suc k) (mw_flying w)\<rparr>))"
    with t show "\<exists>c. origin steps c (message_of i)" by (simp add: traced_def)
  qed
  with True have "traced steps (message_exec (Step_End k) w)" by (simp add: fly)
  from traced_later [OF this] st True show ?thesis by (auto simp: fly intro: attempts_kept)
qed (use traced_later [OF t] in \<open>simp add: attempts_kept\<close>)

lemma drain_traced:
  assumes t: "traced steps w" and s: "s \<notin> range Step_Begin \<union> range Step_End"
  shows "traced (steps @ [s]) (message_exec s w) \<and> hands_over steps s w (message_exec s w)"
proof -
  have ok: "queue_ok (mw_queue w)" using t by (simp add: traced_def)
  note [simp] = queued_expired [OF ok] queued_clear ok_clear [OF ok] ok_expired [OF ok] queued_drain [OF ok]
  note shrink = traced_shrinks [OF traced_later [OF t]]
  show ?thesis
  proof (cases s)
    case (Step_Snapshot now)
    have "set (snapshot_heads (snd (drop_expired now (mw_queue w)))) \<subseteq> queued (mw_queue w)"
      using queued_heads [OF ok_expired [OF ok, of now]] queued_expired [OF ok, of now] by blast
    with Step_Snapshot show ?thesis
      by (intro conjI shrink attempts_kept) (auto simp: on_queue_def Let_def ok)
  next
    case (Step_Head env)
    show ?thesis
    proof (cases "mw_awaited w = None \<and> mw_snapshot w \<noteq> []")
      case True
      then obtain i rest where i: "mw_snapshot w = i # rest" by (cases "mw_snapshot w") auto
      then obtain c where c: "origin steps c (message_of i)" using t by (auto simp: traced_def)
      have "traced (steps @ [s]) (message_exec s w)"
        using True i Step_Head ok by (intro shrink) (auto simp: on_queue_def)
      moreover have "hands_over steps s w (message_exec s w)"
      proof (cases "is_enabled_for env (pd_user i)")
        case on: True
        with True i Step_Head origin_later [OF c, of s] show ?thesis
          unfolding hands_over_def by (intro disjI2 exI [of _ "message_of i"] exI [of _ env]) (auto simp: message_of_def)
      qed (use True i Step_Head in \<open>simp add: on_queue_def attempts_kept\<close>)
      ultimately show ?thesis ..
    next
      case False
      then have "message_exec s w = w" using Step_Head by (auto split: option.split list.split)
      with traced_later [OF t] show ?thesis by (simp add: attempts_kept)
    qed
  next
    case Step_Settle
    with ok show ?thesis
      by (cases "mw_awaited w")
        (auto simp: on_queue_def intro!: shrink attempts_kept dest: subsetD [OF conjunct1 [OF queued_drain [OF ok]]])
  next
    case (Step_Cancel c cause)
    with ok show ?thesis
      by (auto simp: on_queue_def on_turn_cancelled_def intro!: shrink attempts_kept
          dest: subsetD [OF queued_clear])
  qed (use s in auto)
qed

lemma message_step_traced:
  assumes "w = message_run steps started" "traced steps w"
  shows "traced (steps @ [s]) (message_exec s w) \<and> hands_over steps s w (message_exec s w)"
proof (cases "s \<in> range Step_Begin \<union> range Step_End")
  case True
  with begin_traced [OF assms] end_traced [OF assms(2)] show ?thesis by (auto simp del: message_exec.simps)
qed (rule drain_traced [OF assms(2)])

lemma message_run_snoc: "message_run (steps @ [s]) w = message_exec s (message_run steps w)"
  by (simp add: message_run_def)

lemma run_traced: "traced steps (message_run steps started)"
proof (induction steps rule: rev_induct)
  case Nil
  show ?case
    by (simp add: message_run_def started_def traced_def ok_new queued_def backlog_def) (simp add: new_queue_def)
next
  case (snoc s steps)
  with message_step_traced [OF refl snoc] show ?case by (simp add: message_run_snoc)
qed

text \<open>C37: Only deliverable messages reach the human send path, now or later. Over every interleaving of sends,
  drainer passes and cancels from a fresh service, a step hands at most one message over, and then the user's toggle is
  on at that moment and the message is the composed message of a call, begun by then, all of whose checks passed when it
  began: from a conversation of the user's that no team owns, to another one, not blank, and within the sender's rate.
  Every message in a backlog is that of such a call whose delivery found the recipient not ready: a refused
  message is never queued.\<close>
theorem only_open_targets_are_reached:
  fixes steps :: "message_step list"
  defines "world k \<equiv> message_run (take k steps) started"
  shows "(\<forall>k < length steps.
      sv_attempts (mw_service (world (Suc k))) = sv_attempts (mw_service (world k)) \<or>
      (\<exists>m env c j. sv_attempts (mw_service (world (Suc k))) = sv_attempts (mw_service (world k)) @ [m] \<and>
        step_env (steps ! k) = Some env \<and> is_enabled_for env (fst m) \<and>
        j \<le> k \<and> steps ! j = Step_Begin c \<and> admits c (sv_windows (mw_service (world j))) m))
    \<and> (\<forall>t. \<forall>i \<in> set (backlog (mw_queue (world (length steps))) t).
      \<exists>c j. j < length steps \<and> steps ! j = Step_Begin c \<and>
        admits c (sv_windows (mw_service (world j))) (pd_user i, pd_to i, pd_message i) \<and>
        waited c (pd_user i, pd_to i, pd_message i))"
proof (intro conjI allI impI ballI)
  fix k assume k: "k < length steps"
  have next_world: "world (Suc k) = message_exec (steps ! k) (world k)"
    using k by (simp add: world_def take_Suc_conv_app_nth message_run_snoc)
  have from_begin: "\<exists>j \<le> k. steps ! j = Step_Begin c \<and> admits c (sv_windows (mw_service (world j))) m"
    if o: "origin (take k steps @ [steps ! k]) c m" for c m
  proof -
    obtain j where j: "j < length (take k steps @ [steps ! k])" "(take k steps @ [steps ! k]) ! j = Step_Begin c"
      "admits c (sv_windows (mw_service (message_run (take j (take k steps @ [steps ! k])) started))) m"
      using o unfolding origin_def by blast
    then have "j < Suc k" using k by simp
    have same: "take j (take k steps @ [steps ! k]) = take j steps"
      using \<open>j < Suc k\<close> k by (cases "j = k") simp_all
    have "(take k steps @ [steps ! k]) ! j = steps ! j"
      using \<open>j < Suc k\<close> k by (cases "j = k") (simp_all add: nth_append)
    with j(2) have "steps ! j = Step_Begin c" by (simp only:)
    moreover have "admits c (sv_windows (mw_service (world j))) m" using j(3) unfolding same world_def .
    moreover have "j \<le> k" using \<open>j < Suc k\<close> by simp
    ultimately show ?thesis by blast
  qed
  have "hands_over (take k steps) (steps ! k) (world k) (world (Suc k))"
    using message_step_traced [OF refl run_traced, of "take k steps" "steps ! k"] next_world by (simp add: world_def)
  then show "sv_attempts (mw_service (world (Suc k))) = sv_attempts (mw_service (world k)) \<or>
      (\<exists>m env c j. sv_attempts (mw_service (world (Suc k))) = sv_attempts (mw_service (world k)) @ [m] \<and>
        step_env (steps ! k) = Some env \<and> is_enabled_for env (fst m) \<and>
        j \<le> k \<and> steps ! j = Step_Begin c \<and> admits c (sv_windows (mw_service (world j))) m)" (is ?thesis)
    unfolding hands_over_def
  proof (elim disjE exE conjE)
    fix m env c assume m: "sv_attempts (mw_service (world (Suc k))) = sv_attempts (mw_service (world k)) @ [m]"
      "step_env (steps ! k) = Some env" "is_enabled_for env (fst m)" "origin (take k steps @ [steps ! k]) c m"
    from from_begin [OF m(4)] obtain j where "j \<le> k" "steps ! j = Step_Begin c"
      "admits c (sv_windows (mw_service (world j))) m" by blast
    with m(1-3) show ?thesis by blast
  qed blast
next
  fix t i assume i: "i \<in> set (backlog (mw_queue (world (length steps))) t)"
  then have "i \<in> queued (mw_queue (message_run steps started))" by (auto simp: queued_def world_def)
  with run_traced [of steps] obtain c where "origin steps c (message_of i)" "waited c (message_of i)"
    by (auto simp: traced_def)
  then show "\<exists>c j. j < length steps \<and> steps ! j = Step_Begin c \<and>
      admits c (sv_windows (mw_service (world j))) (pd_user i, pd_to i, pd_message i) \<and>
      waited c (pd_user i, pd_to i, pd_message i)"
    by (auto simp: origin_def message_of_def world_def)
qed

text \<open>A message for a conversation whose runtime restarts is queued, and handed over again by the drainer.\<close>

definition waiting_call :: send_call where
  "waiting_call = \<lparr>sc_env = demo_env (Inl (Conv_RuntimeRestarting ''b'')), sc_user = ''u'', sc_from = ''a'',
     sc_to = ''b'', sc_message = ''hi''\<rparr>"

definition demo_steps :: "message_step list" where
  "demo_steps = [Step_Begin waiting_call, Step_End 0]"

lemma demo_queued: "backlog (mw_queue (message_run demo_steps started)) ''b'' \<noteq> []"
proof -
  define env where "env = demo_env (Inl (Conv_RuntimeRestarting ''b''))"
  let ?row = "\<lambda>c. \<lparr>cr_name = c, cr_extra = []\<rparr>"
  have trims: "trim ''b'' = ''b''" "trim ''hi'' = ''hi''" by (rule trim_id; simp add: visible_def)+
  have gate: "check_and_record 5 ''a'' ''b'' new_windows
      = (Verdict_Allowed, \<lparr>rw_outbound = [(''a'', [5])], rw_pair = [((''a'', ''b''), [5])]\<rparr>)" by code_simp
  have call: "sc_env waiting_call = env" "sc_user waiting_call = ''u''" "sc_from waiting_call = ''a''"
    "sc_to waiting_call = ''b''" "sc_message waiting_call = ''hi''" by (simp_all add: waiting_call_def env_def)
  have "deliverable env ''u'' ''a'' ''b'' ''hi'' (sv_windows (mw_service started)) (?row ''a'') (?row ''b'')"
    by (simp add: deliverable_def env_def demo_env_def is_enabled_for_def team_id_from_extra_def trims started_def gate)
  note begun = begin_handed [OF this]
  have later: "env_send_message env u t m = Inl (Conv_RuntimeRestarting ''b'')" for u t m
    by (simp add: env_def demo_env_def)
  have room: "push i new_queue = (Push_Ok, \<lparr>qs_by_target = [(pd_to i, [i])], qs_total = 1\<rparr>)" for i
    by (simp add: push_def new_queue_def global_limit_def per_target_limit_def modify_def)
  have "sv_queue (mw_service started) = new_queue" "mw_flying started = []" by (simp_all add: started_def)
  then show ?thesis
    by (simp add: demo_steps_def message_run_def call begun trims send_end_def later room backlog_def)
qed

lemma only_open_targets_are_reached_witness:
  "\<exists>i. backlog (mw_queue (message_run demo_steps started)) ''b'' \<noteq> [] \<and>
    hd (backlog (mw_queue (message_run demo_steps started)) ''b'') = i \<and>
    waited waiting_call (pd_user i, pd_to i, pd_message i) \<and>
    admits waiting_call (sv_windows (mw_service started)) (pd_user i, pd_to i, pd_message i)"
proof -
  let ?i = "hd (backlog (mw_queue (message_run demo_steps started)) ''b'')"
  have "?i \<in> set (backlog (mw_queue (message_run (take (length demo_steps) demo_steps) started)) ''b'')"
    using demo_queued by simp
  with only_open_targets_are_reached [of demo_steps] obtain c j where j: "j < length demo_steps" "demo_steps ! j = Step_Begin c"
    "admits c (sv_windows (mw_service (message_run (take j demo_steps) started))) (pd_user ?i, pd_to ?i, pd_message ?i)"
    "waited c (pd_user ?i, pd_to ?i, pd_message ?i)" by blast
  then have "j = 0" "c = waiting_call" by (auto simp: demo_steps_def less_Suc_eq nth_Cons split: nat.splits)
  with j(3,4) demo_queued show ?thesis by (simp add: message_run_def)
qed

end
