(* ===== verification/Message_Targets.thy ===== *)
theory Message_Targets
  imports Ki_Text
begin

text \<open>
  The paged list of conversations a message may be sent to, \<open>targets.rs\<close> of
  \<open>crates/aionui-session-message\<close>. The repository's ranked query is a parameter, a function of the row
  limit and the offset that answers a database error or rows; so are the reader of the team marker in a row's
  \<open>extra\<close> JSON and the project service. Offsets are \<open>u32\<close> in the source: the cursor is parsed with
  that bound, and the row count of a table stays below it.
\<close>

section \<open>The list\<close>

definition max_limit :: nat where "max_limit = 50"
definition default_limit :: nat where "default_limit = 20"
definition scan_slack :: nat where "scan_slack = 10"
definition max_scans :: nat where "max_scans = 5"

record mention_row =
  mr_id :: string
  mr_name :: string
  mr_project :: "string option"
  mr_extra :: string
  mr_updated :: timestamp_ms

record mention_target =
  mt_id :: string
  mt_name :: string
  mt_project :: "string option"
  mt_modified :: timestamp_ms

definition parse_cursor :: "string option \<Rightarrow> nat" where
  "parse_cursor cursor = (case cursor of
      None \<Rightarrow> 0
    | Some c \<Rightarrow> if trim c = [] then 0
        else (case parse_unsigned (2 ^ 32) (trim c) of Some n \<Rightarrow> n | None \<Rightarrow> 0))"

definition page_limit :: "nat option \<Rightarrow> nat" where
  "page_limit requested =
     min max_limit (max 1 (case requested of Some n \<Rightarrow> n | None \<Rightarrow> default_limit))"

text \<open>The hard filters: the caller's own conversation, and conversations a team owns.\<close>

definition mentionable :: "(string \<Rightarrow> string option) \<Rightarrow> string \<Rightarrow> mention_row \<Rightarrow> bool" where
  "mentionable team_id current row \<longleftrightarrow> mr_id row \<noteq> current \<and> team_id (mr_extra row) = None"

text \<open>One scanned page: the kept rows and the offset, stopping when the page is full.\<close>

fun scan_rows ::
  "(mention_row \<Rightarrow> bool) \<Rightarrow> nat \<Rightarrow> mention_row list \<Rightarrow> mention_row list \<times> nat \<Rightarrow> mention_row list \<times> nat" where
  "scan_rows ok limit [] (kept, offset) = (kept, offset)"
| "scan_rows ok limit (r # rows) (kept, offset) =
     (if ok r then
        (if length (kept @ [r]) = limit then (kept @ [r], offset + 1)
         else scan_rows ok limit rows (kept @ [r], offset + 1))
      else scan_rows ok limit rows (kept, offset + 1))"

text \<open>The scan loop, its first argument counting down \<open>MAX_SCANS\<close>. The last component of its answer
  tells whether the table ran out.\<close>

fun scan_loop ::
  "nat \<Rightarrow> (nat \<Rightarrow> nat \<Rightarrow> string + mention_row list) \<Rightarrow> (mention_row \<Rightarrow> bool) \<Rightarrow> nat
     \<Rightarrow> mention_row list \<times> nat \<Rightarrow> string + mention_row list \<times> nat \<times> bool" where
  "scan_loop 0 query ok limit (kept, offset) = Inr (kept, offset, False)"
| "scan_loop (Suc n) query ok limit (kept, offset) =
     (case query (limit + scan_slack) offset of
        Inl err \<Rightarrow> Inl err
      | Inr rows \<Rightarrow>
          (let (kept', offset') = scan_rows ok limit rows (kept, offset)
           in if length kept' = limit then Inr (kept', offset', False)
              else if length rows < limit + scan_slack then Inr (kept', offset', True)
              else scan_loop n query ok limit (kept', offset')))"

definition to_target :: "(string \<Rightarrow> string + string) \<Rightarrow> mention_row \<Rightarrow> mention_target" where
  "to_target project_name row =
     \<lparr>mt_id = mr_id row, mt_name = mr_name row,
      mt_project = Option.bind (mr_project row) (\<lambda>p. case project_name p of Inr n \<Rightarrow> Some n | Inl _ \<Rightarrow> None),
      mt_modified = mr_updated row\<rparr>"

definition list_targets ::
  "(nat \<Rightarrow> nat \<Rightarrow> string + mention_row list) \<Rightarrow> (string \<Rightarrow> string option) \<Rightarrow> (string \<Rightarrow> string + string)
     \<Rightarrow> string \<Rightarrow> nat option \<Rightarrow> string option \<Rightarrow> string + mention_target list \<times> string option" where
  "list_targets query team_id project_name current requested cursor =
     (case scan_loop max_scans query (mentionable team_id current) (page_limit requested) ([], parse_cursor cursor) of
        Inl err \<Rightarrow> Inl err
      | Inr (kept, offset, exhausted) \<Rightarrow>
          Inr (map (to_target project_name) kept, if exhausted then None else Some (show_nat offset)))"

text \<open>A client that follows the cursors, for at most the given number of pages: the items it has seen,
  and whether it reached the end of the list.\<close>

fun follow ::
  "nat \<Rightarrow> (nat \<Rightarrow> nat \<Rightarrow> string + mention_row list) \<Rightarrow> (string \<Rightarrow> string option) \<Rightarrow> (string \<Rightarrow> string + string)
     \<Rightarrow> string \<Rightarrow> nat option \<Rightarrow> string option \<Rightarrow> string + mention_target list \<times> bool" where
  "follow 0 query team_id project_name current requested cursor = Inr ([], False)"
| "follow (Suc n) query team_id project_name current requested cursor =
     (case list_targets query team_id project_name current requested cursor of
        Inl err \<Rightarrow> Inl err
      | Inr (items, None) \<Rightarrow> Inr (items, True)
      | Inr (items, Some c) \<Rightarrow>
          (case follow n query team_id project_name current requested (Some c) of
             Inl err \<Rightarrow> Inl err
           | Inr (rest, done) \<Rightarrow> Inr (items @ rest, done)))"


section \<open>Pages over a stable table\<close>

text \<open>The repository over an unchanging ranked table: \<open>LIMIT\<close> and \<open>OFFSET\<close>.\<close>

definition table_query :: "mention_row list \<Rightarrow> nat \<Rightarrow> nat \<Rightarrow> string + mention_row list" where
  "table_query rows limit offset = Inr (take limit (drop offset rows))"

lemma parse_cursor_show: "n < 2 ^ 32 \<Longrightarrow> parse_cursor (Some (show_nat n)) = n"
  using show_nat_digits [of n] by (simp add: parse_cursor_def parse_show)

lemma scan_rows_prefix:
  "length kept < limit \<Longrightarrow> scan_rows ok limit rows (kept, offset) = (kept', offset') \<Longrightarrow>
     \<exists>n \<le> length rows. offset' = offset + n \<and> kept' = kept @ filter ok (take n rows) \<and>
       (length kept' < limit \<and> n = length rows \<or> length kept' = limit \<and> 0 < n)"
proof (induction rows arbitrary: kept offset)
  case (Cons r rows)
  show ?case
  proof (cases "ok r \<and> length (kept @ [r]) = limit")
    case True
    with Cons.prems show ?thesis by (intro exI [where x = 1]) auto
  next
    case False
    let ?kept = "if ok r then kept @ [r] else kept"
    have "length ?kept < limit" using False Cons.prems(1) by auto
    moreover have "scan_rows ok limit rows (?kept, offset + 1) = (kept', offset')"
      using False Cons.prems(2) by (auto split: if_splits)
    ultimately obtain n where "n \<le> length rows" "offset' = offset + 1 + n"
      "kept' = ?kept @ filter ok (take n rows)"
      "length kept' < limit \<and> n = length rows \<or> length kept' = limit \<and> 0 < n"
      using Cons.IH by blast
    then show ?thesis by (intro exI [where x = "Suc n"]) auto
  qed
qed simp

lemma scan_loop_table:
  "length kept < limit \<Longrightarrow> offset \<le> length rows \<Longrightarrow>
     \<exists>n kept' exhausted. scan_loop k (table_query rows) ok limit (kept, offset) = Inr (kept', offset + n, exhausted)
       \<and> offset + n \<le> length rows \<and> kept' = kept @ filter ok (take n (drop offset rows)) \<and> length kept' \<le> limit
       \<and> (exhausted \<longrightarrow> offset + n = length rows) \<and> (\<not> exhausted \<longrightarrow> k = 0 \<or> 0 < n)"
proof (induction k arbitrary: kept offset)
  case 0
  then show ?case
    by (intro exI [where x = "0::nat"] exI [where x = kept] exI [where x = False]) simp
next
  case (Suc k)
  let ?rows = "take (limit + scan_slack) (drop offset rows)"
  have query: "table_query rows (limit + scan_slack) offset = Inr ?rows" by (simp add: table_query_def)
  obtain kept1 offset1 where scan: "scan_rows ok limit ?rows (kept, offset) = (kept1, offset1)" by fastforce
  obtain m where m: "m \<le> length ?rows" "offset1 = offset + m" "kept1 = kept @ filter ok (take m ?rows)"
    "length kept1 < limit \<and> m = length ?rows \<or> length kept1 = limit \<and> 0 < m"
    using scan_rows_prefix [OF Suc.prems(1) scan] by blast
  have "m \<le> limit + scan_slack" using m(1) by simp
  then have same: "take m ?rows = take m (drop offset rows)" by (simp add: min_absorb1)
  have inside: "offset1 \<le> length rows" using m(1,2) Suc.prems(2) by auto
  show ?case
  proof (cases "length kept1 = limit")
    case True
    with m have "0 < m" by auto
    with True m inside same scan show ?thesis
      by (intro exI [where x = m] exI [where x = kept1] exI [where x = False]) (simp add: query)
  next
    case False
    with m have full: "length kept1 < limit" "m = length ?rows" by auto
    show ?thesis
    proof (cases "length ?rows < limit + scan_slack")
      case True
      then have "length rows - offset < limit + scan_slack" by (simp add: min_def split: if_splits)
      moreover from this have "offset + m = length rows" using full(2) Suc.prems(2) by simp
      ultimately show ?thesis using True False full m inside same scan
        by (intro exI [where x = m] exI [where x = kept1] exI [where x = True]) (simp add: query)
    next
      case long: False
      then have "0 < m" using full(2) Suc.prems(1) by simp
      from Suc.IH [OF full(1) inside] obtain n kept' exhausted where IH:
        "scan_loop k (table_query rows) ok limit (kept1, offset1) = Inr (kept', offset1 + n, exhausted)"
        "offset1 + n \<le> length rows" "kept' = kept1 @ filter ok (take n (drop offset1 rows))"
        "length kept' \<le> limit" "exhausted \<longrightarrow> offset1 + n = length rows" by blast
      have "take (m + n) (drop offset rows) = take m (drop offset rows) @ take n (drop offset1 rows)"
        by (simp add: take_add m(2) add.commute)
      with IH m same scan False long \<open>0 < m\<close> show ?thesis
        by (intro exI [where x = "m + n"] exI [where x = kept'] exI [where x = exhausted]) (simp add: query add.assoc)
    qed
  qed
qed

lemma page_limit_range: "0 < page_limit requested \<and> page_limit requested \<le> 50"
  by (simp add: page_limit_def max_limit_def)

lemma list_targets_table:
  assumes "parse_cursor cursor = offset" "offset \<le> length rows"
  obtains n exhausted where
    "list_targets (table_query rows) team_id names current requested cursor =
       Inr (map (to_target names) (filter (mentionable team_id current) (take n (drop offset rows))),
            if exhausted then None else Some (show_nat (offset + n)))"
    "offset + n \<le> length rows" "exhausted \<longrightarrow> offset + n = length rows" "\<not> exhausted \<longrightarrow> 0 < n"
    "length (filter (mentionable team_id current) (take n (drop offset rows))) \<le> page_limit requested"
proof -
  have "length ([] :: mention_row list) < page_limit requested" using page_limit_range by simp
  from scan_loop_table [OF this assms(2), of max_scans "mentionable team_id current"]
  obtain n kept exhausted where
    "scan_loop max_scans (table_query rows) (mentionable team_id current) (page_limit requested) ([], offset)
       = Inr (kept, offset + n, exhausted)"
    "offset + n \<le> length rows" "kept = [] @ filter (mentionable team_id current) (take n (drop offset rows))"
    "length kept \<le> page_limit requested" "exhausted \<longrightarrow> offset + n = length rows"
    "\<not> exhausted \<longrightarrow> max_scans = 0 \<or> 0 < n" by blast
  then show ?thesis by - (rule that [of n exhausted], simp_all add: list_targets_def assms(1) max_scans_def)
qed

lemma follow_table:
  assumes "length rows < 2 ^ 32"
  shows "parse_cursor cursor = offset \<Longrightarrow> offset \<le> length rows \<Longrightarrow> length rows - offset < n \<Longrightarrow>
    follow n (table_query rows) team_id names current requested cursor =
      Inr (map (to_target names) (filter (mentionable team_id current) (drop offset rows)), True)"
proof (induction n arbitrary: cursor offset)
  case (Suc n)
  obtain m exhausted where page:
    "list_targets (table_query rows) team_id names current requested cursor =
       Inr (map (to_target names) (filter (mentionable team_id current) (take m (drop offset rows))),
            if exhausted then None else Some (show_nat (offset + m)))"
    and m: "offset + m \<le> length rows" "exhausted \<longrightarrow> offset + m = length rows" "\<not> exhausted \<longrightarrow> 0 < m"
    by (rule list_targets_table [OF Suc.prems(1,2)])
  have split: "drop offset rows = take m (drop offset rows) @ drop (offset + m) rows"
    by (metis append_take_drop_id drop_drop add.commute)
  show ?case
  proof (cases exhausted)
    case True
    with m(2) split page show ?thesis by simp
  next
    case False
    have "follow n (table_query rows) team_id names current requested (Some (show_nat (offset + m))) =
      Inr (map (to_target names) (filter (mentionable team_id current) (drop (offset + m) rows)), True)"
      by (rule Suc.IH) (use m False Suc.prems(3) assms in \<open>auto intro!: parse_cursor_show\<close>)
    with page False show ?thesis by (subst split) simp
  qed
qed simp

text \<open>C38: Following the cursors shows every legal target exactly once, in rank order, and ends. Over an
  unchanging ranked table, a client that starts without a cursor and passes each page's cursor back gets, in
  at most one page more than the table has rows, the rows that are neither its own conversation nor a team's,
  and then no cursor; no page is longer than fifty items.\<close>
theorem pages_enumerate_targets:
  assumes "length rows < 2 ^ 32" and "length rows < n"
  shows "follow n (table_query rows) team_id names current requested None =
      Inr (map (to_target names) (filter (mentionable team_id current) rows), True)
    \<and> (parse_cursor cursor \<le> length rows \<longrightarrow>
        (\<exists>items next. list_targets (table_query rows) team_id names current requested cursor = Inr (items, next)
           \<and> length items \<le> 50))"
proof (intro conjI impI)
  show "follow n (table_query rows) team_id names current requested None =
      Inr (map (to_target names) (filter (mentionable team_id current) rows), True)"
    using follow_table [OF assms(1), of None 0 n] assms(2) by (simp add: parse_cursor_def)
next
  assume "parse_cursor cursor \<le> length rows"
  from list_targets_table [OF refl this] obtain items "next" where
    "list_targets (table_query rows) team_id names current requested cursor = Inr (items, next)"
    "length items \<le> page_limit requested" by (metis length_map)
  with page_limit_range [of requested]
  show "\<exists>items next. list_targets (table_query rows) team_id names current requested cursor = Inr (items, next)
           \<and> length items \<le> 50" by (meson le_trans)
qed

definition demo_row :: "string \<times> string \<Rightarrow> mention_row" where
  "demo_row = (\<lambda>(rid, extra). \<lparr>mr_id = rid, mr_name = ''n'', mr_project = None, mr_extra = extra, mr_updated = 0\<rparr>)"

definition demo_rows :: "mention_row list" where
  "demo_rows = map demo_row [(''0'', []), (''1'', ''team''), (''2'', []), (''3'', []), (''4'', [])]"

definition demo_team_id :: "string \<Rightarrow> string option" where
  "demo_team_id x = (if x = [] then None else Some x)"

lemma pages_enumerate_targets_witness:
  "\<exists>items. follow 6 (table_query demo_rows) demo_team_id (\<lambda>_. Inl []) ''2'' (Some 1) None
      = Inr (items, True) \<and> map mt_id items = [''0'', ''3'', ''4'']"
proof -
  have "map mt_id (map (to_target (\<lambda>_. Inl [])) (filter (mentionable demo_team_id ''2'') demo_rows))
      = [''0'', ''3'', ''4'']"
    by (simp add: demo_rows_def demo_row_def mentionable_def demo_team_id_def to_target_def)
  moreover have five: "length demo_rows = 5" by (simp add: demo_rows_def)
  have "follow 6 (table_query demo_rows) demo_team_id (\<lambda>_. Inl []) ''2'' (Some 1) None
      = Inr (map (to_target (\<lambda>_. Inl [])) (filter (mentionable demo_team_id ''2'') demo_rows), True)"
    by (rule pages_enumerate_targets [THEN conjunct1]) (simp_all add: five)
  ultimately show ?thesis by (intro exI conjI)
qed

text \<open>A page cursor survives its trip through the client: printed as a decimal number and
  parsed back it is the same offset, for every 32-bit offset. Anything else restarts at the top.\<close>
theorem cursor_round_trip:
  "(n < 2 ^ 32 \<longrightarrow> parse_cursor (Some (show_nat n)) = n) \<and>
   (parse_unsigned (2 ^ 32) (trim c) = None \<longrightarrow> parse_cursor (Some c) = 0) \<and> parse_cursor None = 0"
  using parse_cursor_show [of n] by (auto simp: parse_cursor_def)

end
