(* ===== verification/Turn_Claims.thy ===== *)
theory Turn_Claims
  imports Conversation_Error
begin

text \<open>
  Which conversations are running a turn, and who may start one: \<open>runtime_state.rs\<close> of
  \<open>crates/aionui-conversation\<close>. Every method of \<open>ConversationRuntimeStateService\<close> runs under one
  mutex, so each is a function on the state; \<open>rt_poisoned\<close> says that a thread panicked holding
  it. \<open>rt_notified\<close> counts the calls of \<open>notify_waiters\<close>. A \<open>TurnClaim\<close> is the right to run one turn:
  it is released explicitly or when it is dropped. The service outlives its claims, so upgrading a claim's
  weak reference succeeds.
\<close>

section \<open>State\<close>

datatype once_per_turn = ClaimRejected | MidturnRefusal

record runtime_state =
  rt_active :: "(string, string) hashmap"
  rt_deleting :: "string set"
  rt_cancelling :: "string set"
  rt_restarting :: "string set"
  rt_deferred :: "string \<rightharpoonup> string"
  rt_logged :: "once_per_turn \<times> string \<rightharpoonup> string"
  rt_shutting_down :: bool
  rt_poisoned :: bool
  rt_notified :: nat

definition new_runtime :: runtime_state where
  "new_runtime = \<lparr>rt_active = [], rt_deleting = {}, rt_cancelling = {}, rt_restarting = {},
     rt_deferred = Map.empty, rt_logged = Map.empty, rt_shutting_down = False, rt_poisoned = False, rt_notified = 0\<rparr>"

record turn_claim =
  tc_conversation :: string
  tc_turn :: string
  tc_released :: bool

datatype lifecycle = Life_Active | Life_Deleting | Life_Cancelling | Life_ShuttingDown

section \<open>Operations\<close>

text \<open>\<open>if let Ok(mut state) = lock()\<close>, with the fallback of a poisoned lock.\<close>

definition locked :: "'a \<Rightarrow> (runtime_state \<Rightarrow> 'a \<times> runtime_state) \<Rightarrow> runtime_state \<Rightarrow> 'a \<times> runtime_state" where
  "locked fallback f s = (if rt_poisoned s then (fallback, s) else f s)"

definition reading :: "'a \<Rightarrow> (runtime_state \<Rightarrow> 'a) \<Rightarrow> runtime_state \<Rightarrow> 'a" where
  "reading fallback f s = (if rt_poisoned s then fallback else f s)"

definition notify_waiters :: "runtime_state \<Rightarrow> runtime_state" where
  "notify_waiters s = s\<lparr>rt_notified := rt_notified s + 1\<rparr>"

definition poisoned_error :: conversation_error where
  "poisoned_error = Conv_Internal ''conversation runtime state lock poisoned''"

definition try_claim_turn ::
  "string \<Rightarrow> string \<Rightarrow> runtime_state \<Rightarrow> (conversation_error + turn_claim) \<times> runtime_state" where
  "try_claim_turn conv turn = locked (Inl poisoned_error) (\<lambda>s.
     if rt_shutting_down s then (Inl (Conv_Busy ''conversation runtime is shutting down''), s)
     else if conv \<in> rt_deleting s then
       (Inl (Conv_Busy (''conversation '' @ conv @ '' is being deleted'')), s)
     else if conv \<in> rt_restarting s then (Inl (Conv_RuntimeRestarting conv), s)
     else case map_of (rt_active s) conv of
       Some running \<Rightarrow>
         (Inl (Conv_Busy (''conversation '' @ conv @ '' is already running'')),
          if rt_logged s (ClaimRejected, conv) \<noteq> Some running
          then s\<lparr>rt_logged := (rt_logged s)((ClaimRejected, conv) \<mapsto> running)\<rparr> else s)
     | None \<Rightarrow>
         (Inr \<lparr>tc_conversation = conv, tc_turn = turn, tc_released = False\<rparr>,
          s\<lparr>rt_active := AList.update conv turn (rt_active s)\<rparr>))"

definition claim_for_agent_turn :: "string \<Rightarrow> string \<Rightarrow> runtime_state \<Rightarrow> turn_claim option \<times> runtime_state" where
  "claim_for_agent_turn conv turn s =
    (case try_claim_turn conv turn s of (Inr c, s') \<Rightarrow> (Some c, s') | (Inl _, s') \<Rightarrow> (None, s'))"

definition is_claimed :: "string \<Rightarrow> runtime_state \<Rightarrow> bool" where
  "is_claimed conv = reading False (\<lambda>s. map_of (rt_active s) conv \<noteq> None)"

definition active_turn_id_for :: "string \<Rightarrow> runtime_state \<Rightarrow> string option" where
  "active_turn_id_for conv = reading None (\<lambda>s. map_of (rt_active s) conv)"

definition mark_deleting :: "string \<Rightarrow> runtime_state \<Rightarrow> bool \<times> runtime_state" where
  "mark_deleting conv = locked False (\<lambda>s.
     (map_of (rt_active s) conv \<noteq> None, s\<lparr>rt_deleting := insert conv (rt_deleting s)\<rparr>))"

definition clear_deleting :: "string \<Rightarrow> runtime_state \<Rightarrow> runtime_state" where
  "clear_deleting conv s = snd (locked () (\<lambda>s. ((), s\<lparr>rt_deleting := rt_deleting s - {conv}\<rparr>)) s)"

definition is_deleting :: "string \<Rightarrow> runtime_state \<Rightarrow> bool" where
  "is_deleting conv = reading False (\<lambda>s. conv \<in> rt_deleting s)"

definition mark_cancelling :: "string \<Rightarrow> runtime_state \<Rightarrow> runtime_state" where
  "mark_cancelling conv s = snd (locked () (\<lambda>s. ((), s\<lparr>rt_cancelling := insert conv (rt_cancelling s)\<rparr>)) s)"

definition clear_cancelling :: "string \<Rightarrow> runtime_state \<Rightarrow> runtime_state" where
  "clear_cancelling conv s = snd (locked () (\<lambda>s. ((), s\<lparr>rt_cancelling := rt_cancelling s - {conv}\<rparr>)) s)"

definition is_cancelling :: "string \<Rightarrow> runtime_state \<Rightarrow> bool" where
  "is_cancelling conv = reading False (\<lambda>s. conv \<in> rt_cancelling s)"

definition defer_cancel :: "string \<Rightarrow> string \<Rightarrow> runtime_state \<Rightarrow> runtime_state" where
  "defer_cancel conv turn s = snd (locked () (\<lambda>s. ((), s\<lparr>rt_deferred := (rt_deferred s)(conv \<mapsto> turn)\<rparr>)) s)"

definition take_deferred_cancel :: "string \<Rightarrow> string \<Rightarrow> runtime_state \<Rightarrow> bool \<times> runtime_state" where
  "take_deferred_cancel conv turn = locked False (\<lambda>s.
     if rt_deferred s conv = Some turn then (True, s\<lparr>rt_deferred := (rt_deferred s)(conv := None)\<rparr>)
     else (False, s))"

definition begin_restart :: "string \<Rightarrow> runtime_state \<Rightarrow> (conversation_error + unit) \<times> runtime_state" where
  "begin_restart conv = locked (Inl poisoned_error) (\<lambda>s.
     if rt_shutting_down s then (Inl (Conv_Busy ''conversation runtime is shutting down''), s)
     else if conv \<in> rt_deleting s then
       (Inl (Conv_Busy (''conversation '' @ conv @ '' is being deleted'')), s)
     else if conv \<in> rt_restarting s then (Inl (Conv_RuntimeRestarting conv), s)
     else (Inr (), s\<lparr>rt_restarting := insert conv (rt_restarting s)\<rparr>))"

definition should_log_once_for_turn ::
  "once_per_turn \<Rightarrow> string \<Rightarrow> string \<Rightarrow> runtime_state \<Rightarrow> bool \<times> runtime_state" where
  "should_log_once_for_turn event conv turn = locked True (\<lambda>s.
     if rt_logged s (event, conv) = Some turn then (False, s)
     else (True, s\<lparr>rt_logged := (rt_logged s)((event, conv) \<mapsto> turn)\<rparr>))"

definition clear_restarting :: "string \<Rightarrow> runtime_state \<Rightarrow> runtime_state" where
  "clear_restarting conv s = snd (locked () (\<lambda>s. ((),
     if conv \<in> rt_restarting s then notify_waiters (s\<lparr>rt_restarting := rt_restarting s - {conv}\<rparr>) else s)) s)"

definition is_restarting :: "string \<Rightarrow> runtime_state \<Rightarrow> bool" where
  "is_restarting conv = reading True (\<lambda>s. conv \<in> rt_restarting s)"

definition clear_turn_state_for_restart :: "string \<Rightarrow> runtime_state \<Rightarrow> runtime_state" where
  "clear_turn_state_for_restart conv s = snd (locked () (\<lambda>s. ((),
     let s' = s\<lparr>rt_active := AList.delete conv (rt_active s), rt_cancelling := rt_cancelling s - {conv},
                rt_deferred := (rt_deferred s)(conv := None)\<rparr>
     in if map_of (rt_active s) conv \<noteq> None \<or> conv \<in> rt_cancelling s then notify_waiters s' else s')) s)"

definition clear_conversation :: "string \<Rightarrow> runtime_state \<Rightarrow> runtime_state" where
  "clear_conversation conv s = snd (locked () (\<lambda>s. ((),
     let s' = s\<lparr>rt_active := AList.delete conv (rt_active s), rt_deleting := rt_deleting s - {conv},
                rt_cancelling := rt_cancelling s - {conv}, rt_restarting := rt_restarting s - {conv},
                rt_deferred := (rt_deferred s)(conv := None),
                rt_logged := (\<lambda>k. if snd k = conv then None else rt_logged s k)\<rparr>
     in if map_of (rt_active s) conv \<noteq> None \<or> conv \<in> rt_deleting s \<or> conv \<in> rt_cancelling s \<or> conv \<in> rt_restarting s
        then notify_waiters s' else s')) s)"

definition mark_shutting_down :: "runtime_state \<Rightarrow> nat \<times> runtime_state" where
  "mark_shutting_down = locked 0 (\<lambda>s. (length (rt_active s), s\<lparr>rt_shutting_down := True\<rparr>))"

definition is_shutting_down :: "runtime_state \<Rightarrow> bool" where
  "is_shutting_down = reading True rt_shutting_down"

definition lifecycle_for :: "string \<Rightarrow> runtime_state \<Rightarrow> lifecycle" where
  "lifecycle_for conv = reading Life_ShuttingDown (\<lambda>s.
     if rt_shutting_down s then Life_ShuttingDown
     else if conv \<in> rt_deleting s then Life_Deleting
     else if conv \<in> rt_cancelling s then Life_Cancelling
     else Life_Active)"

definition release :: "string \<Rightarrow> string \<Rightarrow> runtime_state \<Rightarrow> bool \<times> runtime_state" where
  "release conv turn = locked False (\<lambda>s.
     if map_of (rt_active s) conv = Some turn then
       (conv \<in> rt_deleting s,
        notify_waiters (s\<lparr>rt_active := AList.delete conv (rt_active s), rt_deleting := rt_deleting s - {conv},
                          rt_cancelling := rt_cancelling s - {conv}\<rparr>))
     else (False, s))"

text \<open>The methods of a claim.\<close>

definition release_inner :: "turn_claim \<Rightarrow> runtime_state \<Rightarrow> bool \<times> turn_claim \<times> runtime_state" where
  "release_inner c s =
    (if tc_released c then (False, c, s)
     else let (was_deleting, s') = release (tc_conversation c) (tc_turn c) s
          in (was_deleting, c\<lparr>tc_released := True\<rparr>, s'))"

definition release_for_turn :: "string \<Rightarrow> turn_claim \<Rightarrow> runtime_state \<Rightarrow> bool \<times> turn_claim \<times> runtime_state" where
  "release_for_turn turn c s = (if tc_turn c \<noteq> turn then (False, c, s) else release_inner c s)"

text \<open>What the user interface is told.\<close>

datatype conversation_status = Status_Pending | Status_Running | Status_Finished

datatype runtime_kind =
  Kind_Idle | Kind_Starting | Kind_Running | Kind_Cancelling | Kind_Restarting | Kind_WaitingConfirmation

record runtime_summary =
  su_state :: runtime_kind
  su_can_send :: bool
  su_has_task :: bool
  su_task_status :: "conversation_status option"
  su_is_processing :: bool
  su_confirmations :: nat
  su_turn :: "string option"
  su_midturn :: bool

definition summary_from_parts ::
  "string \<Rightarrow> conversation_status option \<Rightarrow> bool \<Rightarrow> nat \<Rightarrow> bool \<Rightarrow> runtime_state \<Rightarrow> runtime_summary" where
  "summary_from_parts conv status has_task confirmations midturn s =
    (let (turn, cancelling, restarting) =
           reading (None, False, True) (\<lambda>s. (map_of (rt_active s) conv, conv \<in> rt_cancelling s, conv \<in> rt_restarting s)) s;
         claimed = (turn \<noteq> None);
         kind = (if restarting then Kind_Restarting
                 else if 0 < confirmations then Kind_WaitingConfirmation
                 else if cancelling then Kind_Cancelling
                 else if claimed \<and> status \<noteq> Some Status_Running then Kind_Starting
                 else if claimed \<or> status = Some Status_Running then Kind_Running
                 else Kind_Idle)
     in \<lparr>su_state = kind, su_can_send = (kind = Kind_Idle), su_has_task = has_task, su_task_status = status,
         su_is_processing = (kind \<noteq> Kind_Idle), su_confirmations = confirmations, su_turn = turn,
         su_midturn = midturn\<rparr>)"

text \<open>\<open>wait_until_unclaimed\<close>: a waiter that had seen the given number of notifications when it began a
  round looks, and returns or sleeps until there are more.\<close>

datatype waiter = Returned | Asleep nat

definition waiter_look :: "string \<Rightarrow> nat \<Rightarrow> runtime_state \<Rightarrow> waiter" where
  "waiter_look conv seen s = (if is_claimed conv s then Asleep seen else Returned)"

definition waiter_runnable :: "waiter \<Rightarrow> runtime_state \<Rightarrow> bool" where
  "waiter_runnable w s = (case w of Returned \<Rightarrow> False | Asleep seen \<Rightarrow> seen < rt_notified s)"


section \<open>Histories\<close>

text \<open>The state together with the claims handed out and not yet dropped.\<close>

record claim_world =
  cw_state :: runtime_state
  cw_claims :: "turn_claim list"

datatype turn_op =
    Op_Claim string string
  | Op_Release nat
  | Op_ReleaseFor nat string
  | Op_Drop nat
  | Op_MarkDeleting string
  | Op_ClearDeleting string
  | Op_MarkCancelling string
  | Op_ClearCancelling string
  | Op_DeferCancel string string
  | Op_TakeDeferred string string
  | Op_BeginRestart string
  | Op_ClearRestarting string
  | Op_ClearTurnState string
  | Op_ClearConversation string
  | Op_LogOnce once_per_turn string string
  | Op_ShutDown
  | Op_Poison

definition on_claim :: "nat \<Rightarrow> (turn_claim \<Rightarrow> runtime_state \<Rightarrow> bool \<times> turn_claim \<times> runtime_state) \<Rightarrow> claim_world \<Rightarrow> claim_world" where
  "on_claim i f w =
    (if i < length (cw_claims w) then
       let (_, c, s) = f (cw_claims w ! i) (cw_state w) in \<lparr>cw_state = s, cw_claims = (cw_claims w)[i := c]\<rparr>
     else w)"

definition drop_claim :: "nat \<Rightarrow> claim_world \<Rightarrow> claim_world" where
  "drop_claim i w =
    (let w' = on_claim i release_inner w
     in w'\<lparr>cw_claims := take i (cw_claims w') @ drop (Suc i) (cw_claims w')\<rparr>)"

definition on_state :: "(runtime_state \<Rightarrow> runtime_state) \<Rightarrow> claim_world \<Rightarrow> claim_world" where
  "on_state f w = w\<lparr>cw_state := f (cw_state w)\<rparr>"

fun turn_exec :: "turn_op \<Rightarrow> claim_world \<Rightarrow> claim_world" where
  "turn_exec (Op_Claim conv turn) w =
     (case try_claim_turn conv turn (cw_state w) of
        (Inr c, s) \<Rightarrow> \<lparr>cw_state = s, cw_claims = cw_claims w @ [c]\<rparr>
      | (Inl _, s) \<Rightarrow> w\<lparr>cw_state := s\<rparr>)"
| "turn_exec (Op_Release i) w = on_claim i release_inner w"
| "turn_exec (Op_ReleaseFor i turn) w = on_claim i (release_for_turn turn) w"
| "turn_exec (Op_Drop i) w = drop_claim i w"
| "turn_exec (Op_MarkDeleting c) w = on_state (snd \<circ> mark_deleting c) w"
| "turn_exec (Op_ClearDeleting c) w = on_state (clear_deleting c) w"
| "turn_exec (Op_MarkCancelling c) w = on_state (mark_cancelling c) w"
| "turn_exec (Op_ClearCancelling c) w = on_state (clear_cancelling c) w"
| "turn_exec (Op_DeferCancel c t) w = on_state (defer_cancel c t) w"
| "turn_exec (Op_TakeDeferred c t) w = on_state (snd \<circ> take_deferred_cancel c t) w"
| "turn_exec (Op_BeginRestart c) w = on_state (snd \<circ> begin_restart c) w"
| "turn_exec (Op_ClearRestarting c) w = on_state (clear_restarting c) w"
| "turn_exec (Op_ClearTurnState c) w = on_state (clear_turn_state_for_restart c) w"
| "turn_exec (Op_ClearConversation c) w = on_state (clear_conversation c) w"
| "turn_exec (Op_LogOnce e c t) w = on_state (snd \<circ> should_log_once_for_turn e c t) w"
| "turn_exec Op_ShutDown w = on_state (snd \<circ> mark_shutting_down) w"
| "turn_exec Op_Poison w = on_state (\<lambda>s. s\<lparr>rt_poisoned := True\<rparr>) w"

definition turn_run :: "turn_op list \<Rightarrow> claim_world \<Rightarrow> claim_world" where
  "turn_run ops w = fold turn_exec ops w"

definition new_world :: claim_world where
  "new_world = \<lparr>cw_state = new_runtime, cw_claims = []\<rparr>"

definition claimed_turns :: "turn_op list \<Rightarrow> string list" where
  "claimed_turns ops = filter_map (\<lambda>op. case op of Op_Claim _ t \<Rightarrow> Some t | _ \<Rightarrow> None) ops"

end
