(* ===== verification/Turn_Laws.thy ===== *)
theory Turn_Laws
  imports Turn_Claims
begin

text \<open>
  What the turn claims guarantee over every history of the operations of \<open>runtime_state.rs\<close>: who ends a
  turn, that a busy conversation always has an owner, that the restart gate holds, that a deferred
  cancel is applied once, and that no waiter sleeps through a release.
\<close>

section \<open>One operation\<close>

named_theorems op_defs

lemmas [op_defs] = locked_def reading_def notify_waiters_def on_state_def
  mark_deleting_def clear_deleting_def mark_cancelling_def clear_cancelling_def defer_cancel_def
  take_deferred_cancel_def begin_restart_def clear_restarting_def clear_turn_state_for_restart_def
  clear_conversation_def should_log_once_for_turn_def mark_shutting_down_def

abbreviation active :: "claim_world \<Rightarrow> string \<Rightarrow> string option" where
  "active w c \<equiv> map_of (rt_active (cw_state w)) c"

abbreviation poisoned :: "claim_world \<Rightarrow> bool" where
  "poisoned w \<equiv> rt_poisoned (cw_state w)"

text \<open>What claiming and releasing do, as the other proofs use it.\<close>

lemma claim_cases:
  obtains (granted) "\<not> rt_poisoned s" "\<not> rt_shutting_down s" "conv \<notin> rt_deleting s" "conv \<notin> rt_restarting s"
      "map_of (rt_active s) conv = None"
      "try_claim_turn conv turn s = (Inr \<lparr>tc_conversation = conv, tc_turn = turn, tc_released = False\<rparr>,
         s\<lparr>rt_active := AList.update conv turn (rt_active s)\<rparr>)"
  | (refused) e logged where "try_claim_turn conv turn s = (Inl e, s\<lparr>rt_logged := logged\<rparr>)"
      "rt_poisoned s \<or> rt_shutting_down s \<or> conv \<in> rt_deleting s \<or> conv \<in> rt_restarting s
         \<or> map_of (rt_active s) conv \<noteq> None"
proof (cases "rt_poisoned s \<or> rt_shutting_down s \<or> conv \<in> rt_deleting s \<or> conv \<in> rt_restarting s
         \<or> map_of (rt_active s) conv \<noteq> None")
  case True
  have stay: "\<exists>l. s = s\<lparr>rt_logged := l\<rparr>" by (rule exI [of _ "rt_logged s"]) simp
  have changed: "\<exists>l'. s\<lparr>rt_logged := l\<rparr> = s\<lparr>rt_logged := l'\<rparr>" for l by blast
  from True have "\<exists>e logged. try_claim_turn conv turn s = (Inl e, s\<lparr>rt_logged := logged\<rparr>)"
    by (auto simp: try_claim_turn_def locked_def stay changed)
  with True refused show ?thesis by blast
next
  case False
  with granted show ?thesis by (simp add: try_claim_turn_def locked_def)
qed

lemma release_inner_cases:
  obtains (noop) "tc_released c \<or> rt_poisoned s \<or> map_of (rt_active s) (tc_conversation c) \<noteq> Some (tc_turn c)"
      "release_inner c s = (False, c\<lparr>tc_released := True\<rparr>, s)"
  | (ends) "\<not> tc_released c" "\<not> rt_poisoned s" "map_of (rt_active s) (tc_conversation c) = Some (tc_turn c)"
      "release_inner c s = (tc_conversation c \<in> rt_deleting s, c\<lparr>tc_released := True\<rparr>,
         s\<lparr>rt_active := AList.delete (tc_conversation c) (rt_active s),
           rt_deleting := rt_deleting s - {tc_conversation c},
           rt_cancelling := rt_cancelling s - {tc_conversation c}, rt_notified := rt_notified s + 1\<rparr>)"
  by (cases "tc_released c"; cases "rt_poisoned s";
      cases "map_of (rt_active s) (tc_conversation c) = Some (tc_turn c)")
    (simp_all add: release_inner_def release_def locked_def notify_waiters_def)

section \<open>Every running turn has an owner\<close>

definition accounted :: "string set \<Rightarrow> claim_world \<Rightarrow> bool" where
  "accounted used w \<longleftrightarrow> distinct (map tc_turn (cw_claims w)) \<and> tc_turn ` set (cw_claims w) \<subseteq> used
     \<and> (\<forall>c t. \<not> poisoned w \<longrightarrow> active w c = Some t \<longrightarrow>
          (\<exists>k \<in> set (cw_claims w). \<not> tc_released k \<and> tc_conversation k = c \<and> tc_turn k = t))"

lemma accountedI:
  assumes "distinct (map tc_turn (cw_claims w))" "tc_turn ` set (cw_claims w) \<subseteq> used"
    and "\<And>c t. \<not> poisoned w \<Longrightarrow> active w c = Some t \<Longrightarrow>
      \<exists>k \<in> set (cw_claims w). \<not> tc_released k \<and> tc_conversation k = c \<and> tc_turn k = t"
  shows "accounted used w"
  using assms by (auto simp: accounted_def)

lemma accountedD:
  assumes "accounted used w"
  shows "distinct (map tc_turn (cw_claims w))" "tc_turn ` set (cw_claims w) \<subseteq> used"
    and "\<not> poisoned w \<Longrightarrow> active w c = Some t \<Longrightarrow>
      \<exists>k \<in> set (cw_claims w). \<not> tc_released k \<and> tc_conversation k = c \<and> tc_turn k = t"
  using assms by (auto simp: accounted_def)

text \<open>An operation on the state that ends turns and starts none keeps the account.\<close>

definition only_ends :: "runtime_state \<Rightarrow> runtime_state \<Rightarrow> bool" where
  "only_ends s s' \<longleftrightarrow> (rt_poisoned s \<longrightarrow> rt_poisoned s')
     \<and> (\<forall>c. map_of (rt_active s') c = map_of (rt_active s) c \<or> map_of (rt_active s') c = None)"

lemma accounted_ends:
  assumes "accounted used w" "only_ends (cw_state w) s"
  shows "accounted used (w\<lparr>cw_state := s\<rparr>)"
proof (rule accountedI)
  fix c t assume now: "\<not> poisoned (w\<lparr>cw_state := s\<rparr>)" "active (w\<lparr>cw_state := s\<rparr>) c = Some t"
  have "map_of (rt_active s) c = active w c \<or> map_of (rt_active s) c = None"
    using assms(2) unfolding only_ends_def by (rule conjE) (erule allE [where x = c])
  with now assms(2) have "\<not> poisoned w" "active w c = Some t" by (auto simp: only_ends_def)
  from accountedD(3) [OF assms(1) this]
  show "\<exists>k \<in> set (cw_claims (w\<lparr>cw_state := s\<rparr>)). \<not> tc_released k \<and> tc_conversation k = c \<and> tc_turn k = t"
    by simp
qed (use accountedD(1,2) [OF assms(1)] in simp_all)

lemma state_ops_end:
  "only_ends s (snd (mark_deleting c s))" "only_ends s (clear_deleting c s)" "only_ends s (mark_cancelling c s)"
  "only_ends s (clear_cancelling c s)" "only_ends s (defer_cancel c t s)" "only_ends s (snd (take_deferred_cancel c t s))"
  "only_ends s (snd (begin_restart c s))" "only_ends s (clear_restarting c s)"
  "only_ends s (clear_turn_state_for_restart c s)" "only_ends s (clear_conversation c s)"
  "only_ends s (snd (should_log_once_for_turn e c t s))" "only_ends s (snd (mark_shutting_down s))"
  "only_ends s (s\<lparr>rt_poisoned := True\<rparr>)"
  by (simp_all add: only_ends_def op_defs Let_def)

lemma set_list_update: "k \<in> set (xs[i := x]) \<Longrightarrow> k = x \<or> k \<in> set xs"
  by (metis insert_iff set_update_subset_insert subsetD)

text \<open>What releasing a claim leaves, whichever case it was.\<close>

lemma release_inner_facts:
  assumes "release_inner c s = (r, c', s')"
  shows "c' = c\<lparr>tc_released := True\<rparr>" and "only_ends s s'"
    and "\<not> tc_released c \<Longrightarrow> rt_poisoned s' \<or> map_of (rt_active s') (tc_conversation c) \<noteq> Some (tc_turn c)"
proof (atomize (full), cases c s rule: release_inner_cases)
  case noop
  with assms show "c' = c\<lparr>tc_released := True\<rparr> \<and> only_ends s s' \<and>
      (\<not> tc_released c \<longrightarrow> rt_poisoned s' \<or> map_of (rt_active s') (tc_conversation c) \<noteq> Some (tc_turn c))"
    by (simp add: only_ends_def) blast
next
  case ends
  with assms show "c' = c\<lparr>tc_released := True\<rparr> \<and> only_ends s s' \<and>
      (\<not> tc_released c \<longrightarrow> rt_poisoned s' \<or> map_of (rt_active s') (tc_conversation c) \<noteq> Some (tc_turn c))"
    by (auto simp: only_ends_def split: if_splits)
qed

lemma accounted_release:
  assumes "accounted used w" "i < length (cw_claims w)"
    and "release_inner (cw_claims w ! i) (cw_state w) = (r, c', s')"
  shows "accounted used \<lparr>cw_state = s', cw_claims = (cw_claims w)[i := c']\<rparr>" and "tc_released c'"
proof -
  let ?c = "cw_claims w ! i"
  note facts = release_inner_facts [OF assms(3)]
  note c' = facts(1) and s' = facts(2)
  show "tc_released c'" by (simp add: c')
  have turns: "map tc_turn ((cw_claims w)[i := c']) = map tc_turn (cw_claims w)"
    using assms(2) by (simp add: c' map_update list_update_same_conv)
  show "accounted used \<lparr>cw_state = s', cw_claims = (cw_claims w)[i := c']\<rparr>"
  proof (rule accountedI)
    fix c t
    assume now: "\<not> poisoned \<lparr>cw_state = s', cw_claims = (cw_claims w)[i := c']\<rparr>"
      "active \<lparr>cw_state = s', cw_claims = (cw_claims w)[i := c']\<rparr> c = Some t"
    obtain k where k: "k \<in> set (cw_claims w)" "\<not> tc_released k" "tc_conversation k = c" "tc_turn k = t"
      using accountedD(3) [OF accounted_ends [OF assms(1) s'], of c t] now by auto
    then obtain j where j: "j < length (cw_claims w)" "cw_claims w ! j = k" by (auto simp: in_set_conv_nth)
    have "j \<noteq> i" using facts(3) now k j by auto
    then have "(cw_claims w)[i := c'] ! j = k" using j by simp
    with j k show "\<exists>k \<in> set (cw_claims \<lparr>cw_state = s', cw_claims = (cw_claims w)[i := c']\<rparr>).
        \<not> tc_released k \<and> tc_conversation k = c \<and> tc_turn k = t"
      by (metis length_list_update nth_mem select_convs(2))
  qed (use accountedD(1,2) [OF assms(1)] turns in \<open>simp_all del: set_map add: set_map [symmetric]\<close>)
qed

lemma accounted_on_claim:
  assumes "accounted used w" and "f = release_inner \<or> f = release_for_turn t"
  shows "accounted used (on_claim i f w)"
proof (cases "i < length (cw_claims w)")
  case True
  obtain r c' s' where out: "release_inner (cw_claims w ! i) (cw_state w) = (r, c', s')" by (cases rule: prod_cases3)
  have same: "(cw_claims w)[i := cw_claims w ! i] = cw_claims w" "\<lparr>cw_state = cw_state w, cw_claims = cw_claims w\<rparr> = w"
    by simp_all
  show ?thesis
    using accounted_release(1) [OF assms(1) True out] assms True
    by (auto simp: on_claim_def release_for_turn_def out same)
qed (simp add: on_claim_def assms(1))

lemma accounted_drop:
  assumes "accounted used w"
  shows "accounted used (drop_claim i w)"
proof (cases "i < length (cw_claims w)")
  case True
  obtain r c' s' where out: "release_inner (cw_claims w ! i) (cw_state w) = (r, c', s')" by (cases rule: prod_cases3)
  let ?w = "\<lparr>cw_state = s', cw_claims = (cw_claims w)[i := c']\<rparr>"
  note acc = accounted_release [OF assms True out]
  have split: "cw_claims ?w = take i (cw_claims w) @ c' # drop (Suc i) (cw_claims w)"
    using True by (simp add: upd_conv_take_nth_drop)
  have dropped: "drop_claim i w = ?w\<lparr>cw_claims := take i (cw_claims w) @ drop (Suc i) (cw_claims w)\<rparr>"
    by (simp add: drop_claim_def on_claim_def True out)
  show ?thesis unfolding dropped
  proof (rule accountedI)
    fix c t assume "\<not> poisoned (?w\<lparr>cw_claims := take i (cw_claims w) @ drop (Suc i) (cw_claims w)\<rparr>)"
      "active (?w\<lparr>cw_claims := take i (cw_claims w) @ drop (Suc i) (cw_claims w)\<rparr>) c = Some t"
    then obtain k where "k \<in> set (cw_claims ?w)" "\<not> tc_released k" "tc_conversation k = c" "tc_turn k = t"
      using accountedD(3) [OF acc(1), of c t] by auto
    with split acc(2)
    show "\<exists>k \<in> set (cw_claims (?w\<lparr>cw_claims := take i (cw_claims w) @ drop (Suc i) (cw_claims w)\<rparr>)).
        \<not> tc_released k \<and> tc_conversation k = c \<and> tc_turn k = t" by auto
  qed (use accountedD(1,2) [OF acc(1)] split in auto)
qed (simp add: drop_claim_def on_claim_def assms)

lemma accounted_claim:
  assumes "accounted used w" "t \<notin> used"
  shows "accounted (insert t used) (turn_exec (Op_Claim c t) w)"
proof (cases rule: claim_cases [of "cw_state w" c t])
  case granted
  show ?thesis
  proof (rule accountedI)
    fix c' t' assume now: "\<not> poisoned (turn_exec (Op_Claim c t) w)" "active (turn_exec (Op_Claim c t) w) c' = Some t'"
    show "\<exists>k \<in> set (cw_claims (turn_exec (Op_Claim c t) w)). \<not> tc_released k \<and> tc_conversation k = c' \<and> tc_turn k = t'"
    proof (cases "c' = c")
      case True
      with now granted show ?thesis by simp
    next
      case False
      with now granted have "\<not> poisoned w" "active w c' = Some t'" by simp_all
      from accountedD(3) [OF assms(1) this] show ?thesis using granted by auto
    qed
  qed (use accountedD(1,2) [OF assms(1)] assms(2) granted in auto)
next
  case (refused e logged)
  have "only_ends (cw_state w) (cw_state w\<lparr>rt_logged := logged\<rparr>)" by (simp add: only_ends_def)
  from accounted_ends [OF assms(1) this] have "accounted used (w\<lparr>cw_state := cw_state w\<lparr>rt_logged := logged\<rparr>\<rparr>)" .
  with refused(1) show ?thesis by (auto simp: accounted_def)
qed

lemma accounted_exec:
  assumes "accounted used w" "set (claimed_turns [op]) \<inter> used = {}"
  shows "accounted (used \<union> set (claimed_turns [op])) (turn_exec op w)"
proof (cases op)
  case (Op_Claim c t)
  then have "t \<notin> used" using assms(2) by (simp add: claimed_turns_def)
  from accounted_claim [OF assms(1) this] Op_Claim show ?thesis by (simp add: claimed_turns_def del: turn_exec.simps)
qed (use accounted_ends [OF assms(1) state_ops_end(1)] accounted_ends [OF assms(1) state_ops_end(2)]
    accounted_ends [OF assms(1) state_ops_end(3)] accounted_ends [OF assms(1) state_ops_end(4)]
    accounted_ends [OF assms(1) state_ops_end(5)] accounted_ends [OF assms(1) state_ops_end(6)]
    accounted_ends [OF assms(1) state_ops_end(7)] accounted_ends [OF assms(1) state_ops_end(8)]
    accounted_ends [OF assms(1) state_ops_end(9)] accounted_ends [OF assms(1) state_ops_end(10)]
    accounted_ends [OF assms(1) state_ops_end(11)] accounted_ends [OF assms(1) state_ops_end(12)]
    accounted_ends [OF assms(1) state_ops_end(13)] accounted_on_claim [OF assms(1) disjI1 [OF refl]]
    accounted_on_claim [OF assms(1) disjI2 [OF refl]] accounted_drop [OF assms(1)]
  in \<open>simp_all add: claimed_turns_def on_state_def\<close>)

lemma accounted_run:
  "accounted used w \<Longrightarrow> distinct (claimed_turns ops) \<Longrightarrow> set (claimed_turns ops) \<inter> used = {}
     \<Longrightarrow> accounted (used \<union> set (claimed_turns ops)) (turn_run ops w)"
proof (induction ops arbitrary: used w)
  case (Cons op ops)
  have split: "claimed_turns (op # ops) = claimed_turns [op] @ claimed_turns ops"
    by (simp add: claimed_turns_def split: option.split)
  have "accounted (used \<union> set (claimed_turns [op])) (turn_exec op w)"
    by (rule accounted_exec [OF Cons.prems(1)]) (use Cons.prems(3) split in auto)
  from Cons.IH [OF this] Cons.prems(2,3) show ?case
    by (auto simp: split turn_run_def Un_assoc del: turn_exec.simps)
qed (simp add: turn_run_def claimed_turns_def)

lemma accounted_reachable: "distinct (claimed_turns ops) \<Longrightarrow> accounted (set (claimed_turns ops)) (turn_run ops new_world)"
  using accounted_run [of "{}" new_world ops] by (simp add: accounted_def new_world_def new_runtime_def)

text \<open>Dropping the claim that holds a turn ends it.\<close>

lemma drop_ends:
  assumes "i < length (cw_claims w)" "\<not> tc_released (cw_claims w ! i)" "\<not> poisoned w"
    and "active w (tc_conversation (cw_claims w ! i)) = Some (tc_turn (cw_claims w ! i))"
  shows "active (drop_claim i w) (tc_conversation (cw_claims w ! i)) = None"
  using assms by (simp add: drop_claim_def on_claim_def release_inner_def release_def locked_def notify_waiters_def)

section \<open>Who ends a turn\<close>

lemma state_ops_keep:
  "map_of (rt_active (snd (mark_deleting d s))) c = map_of (rt_active s) c"
  "map_of (rt_active (clear_deleting d s)) c = map_of (rt_active s) c"
  "map_of (rt_active (mark_cancelling d s)) c = map_of (rt_active s) c"
  "map_of (rt_active (clear_cancelling d s)) c = map_of (rt_active s) c"
  "map_of (rt_active (defer_cancel d t s)) c = map_of (rt_active s) c"
  "map_of (rt_active (snd (take_deferred_cancel d t s))) c = map_of (rt_active s) c"
  "map_of (rt_active (snd (begin_restart d s))) c = map_of (rt_active s) c"
  "map_of (rt_active (clear_restarting d s)) c = map_of (rt_active s) c"
  "map_of (rt_active (snd (should_log_once_for_turn e d t s))) c = map_of (rt_active s) c"
  "map_of (rt_active (snd (mark_shutting_down s))) c = map_of (rt_active s) c"
  "d \<noteq> c \<Longrightarrow> map_of (rt_active (clear_turn_state_for_restart d s)) c = map_of (rt_active s) c"
  "d \<noteq> c \<Longrightarrow> map_of (rt_active (clear_conversation d s)) c = map_of (rt_active s) c"
  by (simp_all add: op_defs Let_def)

lemma claim_keeps: "active w c = Some t \<Longrightarrow> active (turn_exec (Op_Claim d u) w) c = Some t"
  by (cases rule: claim_cases [of "cw_state w" d u]) auto

definition holder :: "claim_world \<Rightarrow> nat \<Rightarrow> string \<Rightarrow> string \<Rightarrow> bool" where
  "holder w i c t \<longleftrightarrow> i < length (cw_claims w)
     \<and> cw_claims w ! i = \<lparr>tc_conversation = c, tc_turn = t, tc_released = False\<rparr>"

lemma release_inner_keeps:
  assumes "map_of (rt_active s) c = Some t" "k \<noteq> \<lparr>tc_conversation = c, tc_turn = t, tc_released = False\<rparr>"
  shows "map_of (rt_active (snd (snd (release_inner k s)))) c = Some t"
  using assms by (cases k s rule: release_inner_cases; cases k) auto

lemma on_claim_keeps:
  assumes "active w c = Some t" "\<not> holder w i c t"
  shows "active (on_claim i release_inner w) c = Some t" "active (on_claim i (release_for_turn u) w) c = Some t"
  using assms release_inner_keeps [of "cw_state w" c t "cw_claims w ! i"]
  by (auto simp: on_claim_def holder_def release_for_turn_def case_prod_unfold Let_def)

lemma holder_end:
  assumes "active w c = Some t" "holder w i c t"
  shows "active (on_claim i release_inner w) c \<in> {None, Some t}" "active (on_claim i (release_for_turn u) w) c \<in> {None, Some t}"
    and "u \<noteq> t \<Longrightarrow> active (on_claim i (release_for_turn u) w) c = Some t"
  using assms
  by (auto simp: on_claim_def holder_def release_for_turn_def release_inner_def release_def locked_def
      notify_waiters_def case_prod_unfold Let_def)

text \<open>C33: Nobody else ends your turn. A running turn ends only when the claim that holds it is released or
  dropped, when the conversation's runtime is restarted, or when the whole conversation is cleared: no
  stale claim of an earlier turn, late drop, cancel, deletion mark or other conversation's restart
  ends it, and none of these replaces it with another turn.\<close>
theorem turn_ends_by_its_owner:
  assumes "map_of (rt_active (cw_state w)) c = Some t" and "map_of (rt_active (cw_state (turn_exec op w))) c \<noteq> Some t"
  shows "(op \<in> {Op_ClearTurnState c, Op_ClearConversation c} \<or>
      (\<exists>i. op \<in> {Op_Release i, Op_ReleaseFor i t, Op_Drop i} \<and> i < length (cw_claims w)
        \<and> cw_claims w ! i = \<lparr>tc_conversation = c, tc_turn = t, tc_released = False\<rparr>))
    \<and> map_of (rt_active (cw_state (turn_exec op w))) c = None"
proof -
  have dropped: "active (drop_claim i w) c = active (on_claim i release_inner w) c" for i
    by (simp add: drop_claim_def Let_def)
  have "(op \<in> {Op_ClearTurnState c, Op_ClearConversation c} \<or>
      (\<exists>i. op \<in> {Op_Release i, Op_ReleaseFor i t, Op_Drop i} \<and> holder w i c t)) \<and> active (turn_exec op w) c = None"
  proof (cases op)
    case (Op_Claim d u)
    with claim_keeps [OF assms(1), of d u] assms(2) show ?thesis by simp
  next
    case (Op_Release i)
    with assms on_claim_keeps(1) [OF assms(1), of i] holder_end(1) [OF assms(1), of i] show ?thesis by auto
  next
    case (Op_ReleaseFor i u)
    with assms on_claim_keeps(2) [OF assms(1), of i u] holder_end(2,3) [OF assms(1), of i u] show ?thesis by auto
  next
    case (Op_Drop i)
    with assms on_claim_keeps(1) [OF assms(1), of i] holder_end(1) [OF assms(1), of i] show ?thesis
      by (auto simp: dropped)
  next
    case (Op_ClearTurnState d)
    with assms show ?thesis by (cases "d = c") (auto simp: on_state_def state_ops_keep op_defs Let_def split: if_splits)
  next
    case (Op_ClearConversation d)
    with assms show ?thesis by (cases "d = c") (auto simp: on_state_def state_ops_keep op_defs Let_def split: if_splits)
  qed (use assms in \<open>simp_all add: on_state_def state_ops_keep\<close>)
  then show ?thesis unfolding holder_def by blast
qed

section \<open>The claims held are the turns that run\<close>

definition held_active :: "string \<Rightarrow> claim_world \<Rightarrow> bool" where
  "held_active c w \<longleftrightarrow>
    (\<forall>k \<in> set (cw_claims w). \<not> tc_released k \<and> tc_conversation k = c \<longrightarrow> active w c = Some (tc_turn k))"

lemma held_release:
  assumes "accounted used w" "held_active c w" "i < length (cw_claims w)"
    and "release_inner (cw_claims w ! i) (cw_state w) = (r, c', s')"
  shows "held_active c \<lparr>cw_state = s', cw_claims = (cw_claims w)[i := c']\<rparr>"
  unfolding held_active_def
proof (intro ballI impI)
  fix k assume k: "k \<in> set (cw_claims \<lparr>cw_state = s', cw_claims = (cw_claims w)[i := c']\<rparr>)"
    "\<not> tc_released k \<and> tc_conversation k = c"
  note released = accounted_release(2) [OF assms(1,3,4)]
  from k obtain j where j: "j < length (cw_claims w)" "k = (cw_claims w)[i := c'] ! j"
    by (auto simp: in_set_conv_nth)
  with k released have ji: "j \<noteq> i" by auto
  with j have kj: "k = cw_claims w ! j" by simp
  have "k \<in> set (cw_claims w)" using j(1) kj by simp
  with k(2) assms(2) have act: "active w c = Some (tc_turn k)" unfolding held_active_def by blast
  have "map tc_turn (cw_claims w) ! j \<noteq> map tc_turn (cw_claims w) ! i"
    using accountedD(1) [OF assms(1)] j(1) assms(3) ji by (subst nth_eq_iff_index_eq) simp_all
  then have "cw_claims w ! i \<noteq> \<lparr>tc_conversation = c, tc_turn = tc_turn k, tc_released = False\<rparr>"
    using j(1) assms(3) kj by auto
  from release_inner_keeps [OF act this] assms(4)
  show "active \<lparr>cw_state = s', cw_claims = (cw_claims w)[i := c']\<rparr> c = Some (tc_turn k)" by simp
qed

lemma held_on_claim:
  assumes "accounted used w" "held_active c w" and "f = release_inner \<or> f = release_for_turn t"
  shows "held_active c (on_claim i f w)"
proof (cases "i < length (cw_claims w)")
  case True
  obtain r c' s' where out: "release_inner (cw_claims w ! i) (cw_state w) = (r, c', s')" by (cases rule: prod_cases3)
  have same: "(cw_claims w)[i := cw_claims w ! i] = cw_claims w" "\<lparr>cw_state = cw_state w, cw_claims = cw_claims w\<rparr> = w"
    by simp_all
  show ?thesis
    using held_release [OF assms(1,2) True out] assms True
    by (auto simp: on_claim_def release_for_turn_def out same)
qed (simp add: on_claim_def assms(2))

lemma held_exec:
  assumes "accounted used w" "held_active c w" "op \<notin> {Op_ClearTurnState c, Op_ClearConversation c}"
  shows "held_active c (turn_exec op w)"
proof (cases op)
  case (Op_Claim d t)
  from assms(2) show ?thesis
    by (cases rule: claim_cases [of "cw_state w" d t]) (auto simp: Op_Claim held_active_def)
next
  case (Op_Drop i)
  have "set (cw_claims (drop_claim i w)) \<subseteq> set (cw_claims (on_claim i release_inner w))"
    by (auto simp: drop_claim_def Let_def dest: in_set_takeD in_set_dropD)
  with held_on_claim [OF assms(1,2) disjI1 [OF refl], of i] Op_Drop show ?thesis
    by (auto simp: held_active_def drop_claim_def Let_def)
qed (use assms held_on_claim [OF assms(1,2) disjI1 [OF refl]] held_on_claim [OF assms(1,2) disjI2 [OF refl]]
  in \<open>simp_all add: held_active_def on_state_def state_ops_keep\<close>)

lemma held_run:
  "accounted used w \<Longrightarrow> held_active c w \<Longrightarrow> distinct (claimed_turns ops) \<Longrightarrow> set (claimed_turns ops) \<inter> used = {}
     \<Longrightarrow> set ops \<inter> {Op_ClearTurnState c, Op_ClearConversation c} = {} \<Longrightarrow> held_active c (turn_run ops w)"
proof (induction ops arbitrary: used w)
  case (Cons op ops)
  have split: "claimed_turns (op # ops) = claimed_turns [op] @ claimed_turns ops"
    by (simp add: claimed_turns_def split: option.split)
  have acc: "accounted (used \<union> set (claimed_turns [op])) (turn_exec op w)"
    by (rule accounted_exec [OF Cons.prems(1)]) (use Cons.prems(4) split in auto)
  have "held_active c (turn_exec op w)"
    by (rule held_exec [OF Cons.prems(1,2)]) (use Cons.prems(5) in auto)
  from Cons.IH [OF acc this] Cons.prems(3-5) show ?case
    by (auto simp: split turn_run_def simp del: turn_exec.simps)
qed (simp add: turn_run_def)

text \<open>C24: A busy conversation always has an owner, and only one. In every history of claims, releases, drops,
  cancels, restarts, deletions and shutdown in which turn identifiers are minted once and the lock was not
  poisoned, a conversation that is running a turn has exactly one unreleased claim for that turn among those
  still held, and dropping it, which Rust does when its owner goes away, frees the conversation: no conversation
  stays busy for ever because its turn was lost. Conversely, unless the history clears the conversation's turn, every
  unreleased claim held for the conversation is the claim of the turn it is running: two turns never run at once.\<close>
theorem busy_has_owner:
  assumes "distinct (claimed_turns ops)"
  defines "w \<equiv> turn_run ops new_world"
  assumes "\<not> rt_poisoned (cw_state w)"
  shows "(\<forall>t. map_of (rt_active (cw_state w)) c = Some t \<longrightarrow>
      (\<exists>!i. i < length (cw_claims w)
        \<and> cw_claims w ! i = \<lparr>tc_conversation = c, tc_turn = t, tc_released = False\<rparr>)
      \<and> (\<exists>i < length (cw_claims w). cw_claims w ! i = \<lparr>tc_conversation = c, tc_turn = t, tc_released = False\<rparr>
        \<and> active_turn_id_for c (cw_state (turn_run (ops @ [Op_Drop i]) new_world)) = None))
    \<and> (set ops \<inter> {Op_ClearTurnState c, Op_ClearConversation c} = {} \<longrightarrow>
      (\<forall>i < length (cw_claims w). \<forall>t. cw_claims w ! i = \<lparr>tc_conversation = c, tc_turn = t, tc_released = False\<rparr>
        \<longrightarrow> map_of (rt_active (cw_state w)) c = Some t))"
proof (intro conjI allI impI)
  fix t assume now: "active w c = Some t"
  let ?k = "\<lparr>tc_conversation = c, tc_turn = t, tc_released = False\<rparr>"
  note acc = accounted_reachable [OF assms(1), folded w_def]
  from accountedD(3) [OF acc assms(3) now] obtain k where
    k: "k \<in> set (cw_claims w)" "\<not> tc_released k \<and> tc_conversation k = c \<and> tc_turn k = t" by blast
  from k(2) have "k = ?k" by (intro turn_claim.equality) simp_all
  with k(1) obtain i where i: "i < length (cw_claims w)" "cw_claims w ! i = ?k" by (auto simp: in_set_conv_nth)
  have "j = i" if "j < length (cw_claims w)" "cw_claims w ! j = ?k" for j
  proof (rule ccontr)
    assume "j \<noteq> i"
    with that(1) i(1) accountedD(1) [OF acc] have "map tc_turn (cw_claims w) ! j \<noteq> map tc_turn (cw_claims w) ! i"
      by (subst nth_eq_iff_index_eq) simp_all
    with that i show False by simp
  qed
  with i show "\<exists>!i. i < length (cw_claims w) \<and> cw_claims w ! i = ?k" by blast
  have "active_turn_id_for c (cw_state (turn_run (ops @ [Op_Drop i]) new_world)) = None"
    using drop_ends [of i w] i assms(3) now by (simp add: turn_run_def active_turn_id_for_def reading_def w_def)
  with i show "\<exists>i < length (cw_claims w). cw_claims w ! i = ?k
      \<and> active_turn_id_for c (cw_state (turn_run (ops @ [Op_Drop i]) new_world)) = None" by blast
next
  fix i t assume "set ops \<inter> {Op_ClearTurnState c, Op_ClearConversation c} = {}" "i < length (cw_claims w)"
    and claim: "cw_claims w ! i = \<lparr>tc_conversation = c, tc_turn = t, tc_released = False\<rparr>"
  then have "held_active c w"
    using held_run [of "{}" new_world c ops] assms(1) unfolding w_def
    by (simp add: accounted_def held_active_def new_world_def new_runtime_def)
  with \<open>i < length (cw_claims w)\<close> claim show "active w c = Some t"
    by (auto simp: held_active_def dest: nth_mem)
qed


section \<open>The restart gate\<close>

lemma gate_exec:
  assumes "c \<in> rt_restarting (cw_state w)" "op \<notin> {Op_ClearRestarting c, Op_ClearConversation c}"
  shows "c \<in> rt_restarting (cw_state (turn_exec op w))"
proof -
  have claims: "rt_restarting (cw_state (on_claim i release_inner w)) = rt_restarting (cw_state w)"
    "rt_restarting (cw_state (on_claim i (release_for_turn t) w)) = rt_restarting (cw_state w)" for i t
    by (auto simp: on_claim_def release_for_turn_def release_inner_def release_def locked_def notify_waiters_def
        case_prod_unfold Let_def)
  show ?thesis
  proof (cases op)
    case (Op_Claim d t)
    with assms(1) show ?thesis by (cases rule: claim_cases [of "cw_state w" d t]) auto
  qed (use assms claims in \<open>auto simp: drop_claim_def Let_def op_defs\<close>)
qed

lemma gate_run:
  "c \<in> rt_restarting (cw_state w) \<Longrightarrow> set ops \<inter> {Op_ClearRestarting c, Op_ClearConversation c} = {}
     \<Longrightarrow> c \<in> rt_restarting (cw_state (turn_run ops w))"
proof (induction ops arbitrary: w)
  case (Cons op ops)
  have "c \<in> rt_restarting (cw_state (turn_exec op w))" by (rule gate_exec) (use Cons.prems in auto)
  from Cons.IH [OF this] Cons.prems(2) show ?case by (simp add: turn_run_def)
qed (simp add: turn_run_def)

text \<open>The restart gate holds. From the moment a restart is admitted until it is cleared, or the whole
  conversation is, no turn can be claimed for the conversation and no second restart begins,
  whatever else happens meanwhile, the clearing of its turn included; and the user interface sees it
  restarting.\<close>
theorem restart_gate_holds:
  assumes "fst (begin_restart c (cw_state w)) = Inr ()"
    and "set ops \<inter> {Op_ClearRestarting c, Op_ClearConversation c} = {}"
  shows "(\<exists>e. fst (try_claim_turn c t (cw_state (turn_run (Op_BeginRestart c # ops) w))) = Inl e)
    \<and> (\<exists>e. fst (begin_restart c (cw_state (turn_run (Op_BeginRestart c # ops) w))) = Inl e)
    \<and> su_state (summary_from_parts c status task n midturn (cw_state (turn_run (Op_BeginRestart c # ops) w)))
        = Kind_Restarting"
proof (intro conjI)
  let ?s = "cw_state (turn_run (Op_BeginRestart c # ops) w)"
  have "c \<in> rt_restarting (cw_state (turn_exec (Op_BeginRestart c) w))"
    using assms(1) by (simp add: on_state_def begin_restart_def locked_def split: if_splits)
  from gate_run [OF this assms(2)] have gate: "c \<in> rt_restarting ?s" by (simp add: turn_run_def)
  show "\<exists>e. fst (try_claim_turn c t ?s) = Inl e"
    by (cases rule: claim_cases [of ?s c t]) (use gate in auto)
  show "\<exists>e. fst (begin_restart c ?s) = Inl e" using gate by (simp add: begin_restart_def locked_def)
  show "su_state (summary_from_parts c status task n midturn ?s) = Kind_Restarting"
    using gate by (simp add: summary_from_parts_def reading_def Let_def)
qed

section \<open>Deferred cancels\<close>

definition leaves_cancel :: "string \<Rightarrow> string \<Rightarrow> turn_op \<Rightarrow> bool" where
  "leaves_cancel c t op = (case op of
      Op_DeferCancel d _ \<Rightarrow> d \<noteq> c
    | Op_TakeDeferred d u \<Rightarrow> (d, u) \<noteq> (c, t)
    | Op_ClearTurnState d \<Rightarrow> d \<noteq> c
    | Op_ClearConversation d \<Rightarrow> d \<noteq> c
    | Op_Poison \<Rightarrow> False
    | _ \<Rightarrow> True)"

abbreviation deferred :: "claim_world \<Rightarrow> string \<Rightarrow> string option" where
  "deferred w c \<equiv> rt_deferred (cw_state w) c"

lemma deferred_claims:
  "rt_deferred (cw_state (on_claim i release_inner w)) = rt_deferred (cw_state w)"
  "rt_deferred (cw_state (on_claim i (release_for_turn t) w)) = rt_deferred (cw_state w)"
  "rt_deferred (cw_state (drop_claim i w)) = rt_deferred (cw_state w)"
  "poisoned (on_claim i release_inner w) = poisoned w"
  "poisoned (on_claim i (release_for_turn t) w) = poisoned w" "poisoned (drop_claim i w) = poisoned w"
  by (auto simp: drop_claim_def on_claim_def release_for_turn_def release_inner_def release_def locked_def
      notify_waiters_def case_prod_unfold Let_def)

lemma deferred_exec:
  assumes "leaves_cancel c t op" "deferred w c = Some t \<and> \<not> poisoned w \<or> deferred w c \<noteq> Some t"
  shows "(deferred (turn_exec op w) c = Some t) = (deferred w c = Some t) \<and> poisoned (turn_exec op w) = poisoned w"
proof (cases op)
  case (Op_Claim d u)
  then show ?thesis by (cases rule: claim_cases [of "cw_state w" d u]) auto
qed (use assms in \<open>auto simp: leaves_cancel_def deferred_claims op_defs Let_def\<close>)

lemma deferred_run:
  "list_all (leaves_cancel c t) ops \<Longrightarrow> \<not> poisoned w \<Longrightarrow>
     (deferred (turn_run ops w) c = Some t) = (deferred w c = Some t) \<and> \<not> poisoned (turn_run ops w)"
proof (induction ops arbitrary: w)
  case (Cons op ops)
  have step: "(deferred (turn_exec op w) c = Some t) = (deferred w c = Some t)" "\<not> poisoned (turn_exec op w)"
    using deferred_exec [of c t op w] Cons.prems by auto
  from Cons.IH [OF _ step(2)] Cons.prems(1) step(1) show ?case by (simp add: turn_run_def)
qed (simp add: turn_run_def)

text \<open>A cancel that arrives before the agent exists is applied, to its own turn, once. After it has been
  deferred for a turn, and whatever happens to the state meanwhile short of another deferral, a wipe of the
  conversation's turn or a poisoned lock, the turn that asks gets it, a turn that asks later does not, and
  no other turn of the conversation ever does.\<close>
theorem deferred_cancel_applies_once:
  assumes "\<not> rt_poisoned (cw_state w)" and "list_all (leaves_cancel c t) before" and "list_all (leaves_cancel c t) after"
  shows "fst (take_deferred_cancel c t (cw_state (turn_run (Op_DeferCancel c t # before) w)))
    \<and> \<not> fst (take_deferred_cancel c t
          (cw_state (turn_run (Op_DeferCancel c t # before @ Op_TakeDeferred c t # after) w)))
    \<and> (u = t \<or> \<not> fst (take_deferred_cancel c u (cw_state (turn_run (Op_DeferCancel c t # before) w))))"
proof -
  let ?w0 = "turn_exec (Op_DeferCancel c t) w"
  let ?w1 = "turn_run before ?w0"
  have "\<not> poisoned ?w0" "deferred ?w0 c = Some t" using assms(1) by (simp_all add: op_defs)
  with deferred_run [OF assms(2), of ?w0] have w1: "deferred ?w1 c = Some t" "\<not> poisoned ?w1" by simp_all
  then have w2: "deferred (turn_exec (Op_TakeDeferred c t) ?w1) c \<noteq> Some t"
    "\<not> poisoned (turn_exec (Op_TakeDeferred c t) ?w1)"
    by (simp_all add: op_defs)
  from deferred_run [OF assms(3) w2(2)] w1 w2(1) show ?thesis
    by (auto simp: turn_run_def take_deferred_cancel_def locked_def)
qed

section \<open>Waiting for a conversation to be free\<close>

lemma notified_exec:
  "rt_notified (cw_state w) \<le> rt_notified (cw_state (turn_exec op w))
   \<and> (active w c \<noteq> None \<longrightarrow> active (turn_exec op w) c = None
        \<longrightarrow> rt_notified (cw_state w) < rt_notified (cw_state (turn_exec op w)))"
proof -
  have inner: "rt_notified s \<le> rt_notified (snd (snd (release_inner k s)))
      \<and> (map_of (rt_active s) c \<noteq> None \<longrightarrow> map_of (rt_active (snd (snd (release_inner k s)))) c = None
           \<longrightarrow> rt_notified s < rt_notified (snd (snd (release_inner k s))))" for k s
    by (cases k s rule: release_inner_cases) auto
  have claims: "rt_notified (cw_state w) \<le> rt_notified (cw_state (on_claim i f w))
      \<and> (active w c \<noteq> None \<longrightarrow> active (on_claim i f w) c = None
           \<longrightarrow> rt_notified (cw_state w) < rt_notified (cw_state (on_claim i f w)))"
    if "f = release_inner \<or> f = release_for_turn t" for i f t
    using that inner [of "cw_state w" "cw_claims w ! i"]
    by (cases "tc_turn (cw_claims w ! i) = t") (auto simp: on_claim_def release_for_turn_def case_prod_unfold Let_def)
  show ?thesis
  proof (cases op)
    case (Op_Claim d u)
    show ?thesis unfolding Op_Claim by (cases rule: claim_cases [of "cw_state w" d u]) auto
  next
    case (Op_Release i)
    then show ?thesis using claims [OF disjI1 [OF refl], of i] by simp
  next
    case (Op_ReleaseFor i u)
    then show ?thesis using claims [OF disjI2 [OF refl], of i u] by simp
  next
    case (Op_Drop i)
    then show ?thesis using claims [OF disjI1 [OF refl], of i] by (simp add: drop_claim_def Let_def)
  qed (auto simp: op_defs Let_def)
qed

lemma notified_run:
  "rt_notified (cw_state w) \<le> rt_notified (cw_state (turn_run ops w))
   \<and> (active w c \<noteq> None \<longrightarrow> active (turn_run ops w) c = None
        \<longrightarrow> rt_notified (cw_state w) < rt_notified (cw_state (turn_run ops w)))"
proof (induction ops arbitrary: w)
  case (Cons op ops)
  have run: "turn_run (op # ops) w = turn_run ops (turn_exec op w)" by (simp add: turn_run_def)
  show ?case
    using Cons.IH [of "turn_exec op w"] notified_exec [of w op c] unfolding run by linarith
qed (simp add: turn_run_def)

text \<open>C40: No waiter sleeps through the end of a turn. A waiter that began its round before some operations,
  found the conversation still busy after them and went to sleep can run again as soon as the
  conversation is free, whatever came between: its wake-up cannot fall between its look and its sleep.\<close>
theorem no_lost_wakeup:
  assumes "waiter_look c (rt_notified (cw_state w)) (cw_state (turn_run ops w)) = Asleep seen"
    and "\<not> rt_poisoned (cw_state (turn_run (ops @ later) w))"
    and "\<not> is_claimed c (cw_state (turn_run (ops @ later) w))"
  shows "waiter_runnable (Asleep seen) (cw_state (turn_run (ops @ later) w))"
proof -
  let ?w1 = "turn_run ops w"
  have seen: "seen = rt_notified (cw_state w)" and busy: "active ?w1 c \<noteq> None"
    using assms(1) by (auto simp: waiter_look_def is_claimed_def reading_def split: if_splits)
  have split: "turn_run (ops @ later) w = turn_run later ?w1" by (simp add: turn_run_def)
  with assms(2,3) have "active (turn_run later ?w1) c = None" by (simp add: is_claimed_def reading_def)
  with busy notified_run [of ?w1 later c] notified_run [of w ops c] show ?thesis
    by (simp add: waiter_runnable_def seen split)
qed

text \<open>What the user interface offers, the service honours. When the summary of a conversation says a message
  can be sent, a turn can be claimed at once unless the server is shutting down or the conversation is being
  deleted; and a turn that has been claimed closes the offer until it ends.\<close>
theorem summary_matches_claims:
  assumes "su_can_send (summary_from_parts c status task n midturn s)"
  shows "(rt_shutting_down s \<or> c \<in> rt_deleting s \<or>
      try_claim_turn c t s = (Inr \<lparr>tc_conversation = c, tc_turn = t, tc_released = False\<rparr>,
        s\<lparr>rt_active := AList.update c t (rt_active s)\<rparr>))
    \<and> \<not> su_can_send (summary_from_parts c status' task' n' midturn'
        (s\<lparr>rt_active := AList.update c t (rt_active s)\<rparr>))"
  using assms
  by (auto simp: summary_from_parts_def reading_def try_claim_turn_def locked_def Let_def split: if_splits)

section \<open>Witnesses\<close>

definition demo_ops :: "turn_op list" where
  "demo_ops = [Op_Claim ''a'' ''t1'', Op_Claim ''a'' ''t2'', Op_ClearTurnState ''a'', Op_Claim ''a'' ''t3'', Op_Drop 0]"

lemma demo_ops_end:
  "turn_run demo_ops new_world =
     \<lparr>cw_state = new_runtime\<lparr>rt_active := [(''a'', ''t3'')], rt_logged := [(ClaimRejected, ''a'') \<mapsto> ''t1''], rt_notified := 1\<rparr>,
      cw_claims = [\<lparr>tc_conversation = ''a'', tc_turn = ''t3'', tc_released = False\<rparr>]\<rparr>"
  by (simp add: demo_ops_def turn_run_def new_world_def new_runtime_def try_claim_turn_def drop_claim_def on_claim_def
      release_inner_def release_def op_defs)

definition handover_ops :: "turn_op list" where
  "handover_ops = [Op_Claim ''a'' ''t1'', Op_Claim ''a'' ''t2'', Op_Drop 0, Op_Claim ''a'' ''t3'']"

lemma handover_ops_end:
  "turn_run handover_ops new_world =
     \<lparr>cw_state = new_runtime\<lparr>rt_active := [(''a'', ''t3'')], rt_logged := [(ClaimRejected, ''a'') \<mapsto> ''t1''], rt_notified := 1\<rparr>,
      cw_claims = [\<lparr>tc_conversation = ''a'', tc_turn = ''t3'', tc_released = False\<rparr>]\<rparr>"
  by (simp add: handover_ops_def turn_run_def new_world_def new_runtime_def try_claim_turn_def drop_claim_def on_claim_def
      release_inner_def release_def op_defs)

lemma busy_has_owner_witness:
  "(\<exists>i < length (cw_claims (turn_run handover_ops new_world)).
     active_turn_id_for ''a'' (cw_state (turn_run (handover_ops @ [Op_Drop i]) new_world)) = None) \<and>
   map_of (rt_active (cw_state (turn_run handover_ops new_world))) ''a'' = Some ''t3''"
proof -
  have "distinct (claimed_turns handover_ops)" "\<not> rt_poisoned (cw_state (turn_run handover_ops new_world))"
    "set handover_ops \<inter> {Op_ClearTurnState ''a'', Op_ClearConversation ''a''} = {}"
    by (simp_all add: handover_ops_def claimed_turns_def handover_ops_end [unfolded handover_ops_def] new_runtime_def)
  from busy_has_owner [OF this(1,2), of "''a''"] this(3) show ?thesis
    by (auto simp: handover_ops_end new_runtime_def)
qed

lemma turn_ends_by_its_owner_witness:
  "map_of (rt_active (cw_state (turn_exec (Op_Drop 0) (turn_run demo_ops new_world)))) ''a'' = None"
proof -
  have "map_of (rt_active (cw_state (turn_exec (Op_Drop 0) (turn_run demo_ops new_world)))) ''a'' \<noteq> Some ''t3''"
    by (simp add: demo_ops_end new_runtime_def drop_claim_def on_claim_def release_inner_def release_def op_defs)
  from turn_ends_by_its_owner [OF _ this] show ?thesis by (simp add: demo_ops_end new_runtime_def)
qed

lemma turn_run_simps: "turn_run [] w = w" "turn_run (op # ops) w = turn_run ops (turn_exec op w)"
  by (simp_all add: turn_run_def)

lemma no_lost_wakeup_witness:
  "waiter_runnable (Asleep 1) (cw_state (turn_run ([] @ [Op_Drop 0]) (turn_run demo_ops new_world)))"
  by (rule no_lost_wakeup [of "''a''"])
    (simp_all add: demo_ops_end turn_run_simps new_runtime_def waiter_look_def is_claimed_def reading_def drop_claim_def
      on_claim_def release_inner_def release_def locked_def notify_waiters_def)

lemma summary_matches_claims_witness:
  "\<not> su_can_send (summary_from_parts ''b'' None False 0 False (new_runtime\<lparr>rt_active := [(''b'', ''t'')]\<rparr>))"
proof -
  have "su_can_send (summary_from_parts ''b'' None False 0 False new_runtime)"
    by (simp add: summary_from_parts_def reading_def new_runtime_def Let_def)
  from summary_matches_claims [OF this, of "''t''" None False 0 False] show ?thesis by (simp add: new_runtime_def)
qed

end
