(* ===== verification/Stream_Data.thy ===== *)
theory Stream_Data
  imports Turn_Claims Ki_Text
begin

text \<open>
  The data of the stream relay: the agent's events (\<open>protocol/events\<close> of \<open>crates/aionui-ai-agent\<close>), the
  summary of an attempt, the writes a conversation's lifecycle allows (\<open>runtime_persistence.rs\<close>), the
  message table with the three operations of its repository the relay calls, and the relay's own
  variables (\<open>stream_relay.rs\<close>, \<open>stream_persistence.rs\<close> of \<open>crates/aionui-conversation\<close>). JSON payloads
  are their text, row contents the values they render. Each call of the repository may fail
  (\<open>re_fault\<close> says which). The relay is built as the turn orchestrator builds it, with its runtime state and
  its persistence policy attached.
\<close>

section \<open>Events\<close>

datatype agent_error_code =
    AionuiConversationBusy | AionuiStreamBroken | AionuiStateInconsistent | AionuiPermissionError
  | AionuiInternalError | WorkspacePathRuntimeUnavailable | UserAgentHandshakeFailed
  | UserAgentHandshakeTimeout | UserAgentAcpInitFailed | UserAgentProtocolMismatch | UserAgentNotInstalled
  | UserAgentStartupFailed | UserAgentOpenClawGatewayUnreachable | UserAgentDisconnected
  | UserAgentAuthRequired | UserAgentSessionNotFound | UserAgentNoPreviousSession
  | UserAgentProtocolParseError | UserAgentInvalidRequest | UserAgentResourceNotFound
  | UserAgentProtocolError | UserAgentCommandNotFound | UserAgentMissingEnv
  | UserAgentUnsupportedMethod | UserAgentInvalidParams | UserLlmProviderAuthFailed
  | UserLlmProviderAwsSsoExpired | UserLlmProviderPermissionDenied | UserLlmProviderBillingRequired
  | UserLlmProviderConfigError | UserLlmProviderModelNotFound | UserLlmProviderUnsupportedModel
  | UserLlmProviderEndpointNotFound | UserLlmProviderInvalidRequest | UserLlmProviderInvalidToolSchema
  | UserLlmProviderContextTooLarge | UserLlmProviderRateLimited | UserLlmProviderTimeout
  | UserLlmProviderNetworkError | UserLlmProviderEmptyResponse | UserLlmProviderGatewayError
  | UnknownUpstreamError

datatype error_ownership = Own_Aionui | Own_UserAgent | Own_UserLlmProvider | Own_UnknownUpstream

text \<open>\<open>AgentStreamErrorData\<close>, less the fields that are only carried to the user interface.\<close>

record error_data =
  ed_message :: string
  ed_code :: "agent_error_code option"
  ed_ownership :: "error_ownership option"
  ed_detail :: "string option"
  ed_retryable :: "bool option"

datatype tip_type = Tip_Error | Tip_Info | Tip_Success | Tip_Warning

text \<open>A tip's parameters are the entries of a JSON object.\<close>

record tip_data =
  tip_content :: string
  tip_kind :: tip_type
  tip_code :: "string option"
  tip_params :: "(string, json) hashmap option"
  tip_supersedes :: "string option"

datatype tool_status = Tool_Running | Tool_Completed | Tool_Error | Tool_Canceled

record tool_call_data =
  tcd_call :: string
  tcd_status :: tool_status
  tcd_payload :: json

datatype acp_tool_status = Acp_Pending | Acp_InProgress | Acp_Completed | Acp_Failed

record acp_tool_call_data =
  atc_call :: string
  atc_status :: "acp_tool_status option"
  atc_payload :: json

datatype group_status = Group_Pending | Group_Confirming | Group_Executing | Group_Success | Group_Error | Group_Canceled

definition is_terminal :: "group_status \<Rightarrow> bool" where
  "is_terminal s \<longleftrightarrow> s \<in> {Group_Success, Group_Error, Group_Canceled}"

record group_entry =
  ge_call :: string
  ge_status :: group_status
  ge_payload :: json

record thinking_data =
  th_content :: string
  th_subject :: "string option"
  th_duration :: "nat option"
  th_status :: "string option"

datatype stream_event =
    Ev_Start json
  | Ev_Text string
  | Ev_Tips tip_data
  | Ev_ToolCall tool_call_data
  | Ev_AcpToolCall acp_tool_call_data
  | Ev_ToolGroup "group_entry list"
  | Ev_AgentStatus json
  | Ev_Thinking thinking_data
  | Ev_Plan json
  | Ev_Permission json
  | Ev_AcpPermission json
  | Ev_Ask json
  | Ev_SkillSuggest json
  | Ev_CronTrigger json
  | Ev_AcpModelInfo json
  | Ev_AcpModeInfo json
  | Ev_AcpConfigOption json
  | Ev_AcpSessionInfo json
  | Ev_AcpContextUsage json
  | Ev_AcpTerminalOutput json
  | Ev_AcpPromptHookWarning json
  | Ev_SlashCommandsUpdated json
  | Ev_AvailableCommands json
  | Ev_Finish json
  | Ev_Error error_data
  | Ev_System json
  | Ev_RequestTrace json
  | Ev_SessionAssigned string
  | Ev_SegmentBreak
  | Ev_BackendTurnBound string
  | Ev_WorkflowProgress tool_call_data "group_entry list" bool
  | Ev_MessageLifecycle json
  | Ev_AcpDialectSignal json

definition terminal_event :: "stream_event \<Rightarrow> bool" where
  "terminal_event e = (case e of Ev_Finish _ \<Rightarrow> True | Ev_Error _ \<Rightarrow> True | _ \<Rightarrow> False)"

section \<open>What one attempt did\<close>

record attempt_summary =
  at_visible :: bool
  at_tool :: bool
  at_persisted :: bool
  at_error :: "error_data option"
  at_deferred :: bool
  at_needs_auth :: bool

definition new_attempt :: attempt_summary where
  "new_attempt = \<lparr>at_visible = False, at_tool = False, at_persisted = False, at_error = None, at_deferred = False,
     at_needs_auth = False\<rparr>"

definition safe_to_auto_replay :: "attempt_summary \<Rightarrow> bool" where
  "safe_to_auto_replay a \<longleftrightarrow> \<not> at_visible a \<and> \<not> at_tool a \<and> \<not> at_persisted a"

definition merge_attempt :: "attempt_summary \<Rightarrow> attempt_summary \<Rightarrow> attempt_summary" where
  "merge_attempt a b =
     \<lparr>at_visible = at_visible a \<or> at_visible b, at_tool = at_tool a \<or> at_tool b,
      at_persisted = at_persisted a \<or> at_persisted b,
      at_error = (if at_error b \<noteq> None then at_error b else at_error a),
      at_deferred = at_deferred a \<or> at_deferred b, at_needs_auth = at_needs_auth a \<or> at_needs_auth b\<rparr>"

datatype relay_terminal = Term_Finish | Term_Error "agent_error_code option" "bool option" | Term_ChannelClosed

definition is_error :: "relay_terminal \<Rightarrow> bool" where
  "is_error t = (case t of Term_Error _ _ \<Rightarrow> True | _ \<Rightarrow> False)"

definition terminal_code :: "relay_terminal \<Rightarrow> agent_error_code option" where
  "terminal_code t = (case t of Term_Error c _ \<Rightarrow> c | _ \<Rightarrow> None)"

definition terminal_retryable :: "relay_terminal \<Rightarrow> bool option" where
  "terminal_retryable t = (case t of Term_Error _ r \<Rightarrow> r | _ \<Rightarrow> None)"

definition terminal_from_event :: "stream_event \<Rightarrow> relay_terminal" where
  "terminal_from_event e = (case e of
     Ev_Error d \<Rightarrow> Term_Error (ed_code d) (ed_retryable d) | Ev_Finish _ \<Rightarrow> Term_Finish | _ \<Rightarrow> Term_ChannelClosed)"

record relay_outcome =
  ro_responses :: "string list"
  ro_terminal :: relay_terminal
  ro_attempt :: attempt_summary

section \<open>Which writes a conversation's lifecycle allows\<close>

datatype write_kind =
    Write_UserMessage | Write_AssistantTextCreate | Write_AssistantTextFlush | Write_AssistantTextFinalize
  | Write_AssistantThinkingFinalize | Write_ToolCallPersist | Write_AcpToolCallPersist | Write_ToolGroupPersist
  | Write_TerminalFinalize | Write_ConversationFinished | Write_SendFailureTip | Write_SessionKey
  | Write_AcpRecoveryCleanup | Write_ResolvedWorkspace | Write_StartupRecovery

fun write_allowed :: "lifecycle \<Rightarrow> write_kind \<Rightarrow> bool" where
  "write_allowed Life_Active kind = True"
| "write_allowed Life_Deleting kind = (kind = Write_UserMessage)"
| "write_allowed Life_Cancelling kind =
     (kind \<in> {Write_AssistantTextCreate, Write_AssistantTextFlush, Write_AssistantTextFinalize,
               Write_AssistantThinkingFinalize, Write_ToolCallPersist, Write_AcpToolCallPersist,
               Write_ToolGroupPersist, Write_TerminalFinalize, Write_ConversationFinished})"
| "write_allowed Life_ShuttingDown kind = (kind = Write_UserMessage)"

section \<open>The message table\<close>

datatype row_body =
    Body_Text string
  | Body_Thinking string nat
  | Body_Error error_data
  | Body_Tip tip_data
  | Body_Tool tool_call_data
  | Body_AcpTool acp_tool_call_data
  | Body_Group "group_entry list"
  | Body_Plan json string
  | Body_Merged row_body row_body

record message_row =
  mw_type :: string
  mw_msg :: "string option"
  mw_body :: row_body
  mw_status :: string
  mw_hidden :: bool
  mw_created :: int
  mw_anchor :: "string option"

datatype frame =
    Fr_Event string stream_event
  | Fr_Override string string bool
  | Fr_System string string
  | Fr_ToolCard tool_call_data
  | Fr_ToolGroup "group_entry list"
  | Fr_TurnCompleted

record text_segment =
  ts_id :: string
  ts_buffer :: string
  ts_created :: int
  ts_record :: bool
  ts_flushes :: nat

record thinking_segment =
  tk_id :: string
  tk_buffer :: string
  tk_started :: int

text \<open>What the relay is given when it is built, and its library: fresh identifiers, the final text's
  middleware, and the failures of the repository.\<close>

record relay_env =
  re_conv :: string
  re_msg :: string
  re_turn :: string
  re_complete_turn :: bool
  re_defer :: bool
  re_process :: "string \<Rightarrow> string \<times> string list"
  re_mint :: "nat \<Rightarrow> string"
  re_fault :: "nat \<Rightarrow> bool"

record relay_state =
  rl_full :: string
  rl_segments :: "string list"
  rl_text :: "text_segment option"
  rl_thinking :: "thinking_segment option"
  rl_used_primary :: bool
  rl_send_done :: bool
  rl_pending :: "error_data option"
  rl_attempt :: attempt_summary
  rl_anchor :: "string option"
  rl_rows :: "(string, message_row) hashmap"
  rl_frames :: "(frame \<times> string option) list"
  rl_tips :: "string \<rightharpoonup> nat \<times> int"
  rl_minted :: nat
  rl_db_calls :: nat

text \<open>A relay starts over the table, the tips' totals and the counters its turn has reached.\<close>

record relay_world =
  wo_rows :: "(string, message_row) hashmap"
  wo_tips :: "string \<rightharpoonup> nat \<times> int"
  wo_minted :: nat
  wo_db_calls :: nat

definition start_relay :: "relay_world \<Rightarrow> relay_state" where
  "start_relay w = \<lparr>rl_full = [], rl_segments = [], rl_text = None, rl_thinking = None, rl_used_primary = False,
     rl_send_done = False, rl_pending = None, rl_attempt = new_attempt, rl_anchor = None, rl_rows = wo_rows w,
     rl_frames = [], rl_tips = wo_tips w, rl_minted = wo_minted w, rl_db_calls = wo_db_calls w\<rparr>"

definition insert_row :: "relay_env \<Rightarrow> string \<Rightarrow> message_row \<Rightarrow> relay_state \<Rightarrow> bool \<times> relay_state" where
  "insert_row env i row st =
    (let ok = (\<not> re_fault env (rl_db_calls st) \<and> map_of (rl_rows st) i = None)
     in (ok, st\<lparr>rl_db_calls := rl_db_calls st + 1,
               rl_rows := (if ok then AList.update i row (rl_rows st) else rl_rows st)\<rparr>))"

definition update_row :: "relay_env \<Rightarrow> string \<Rightarrow> (message_row \<Rightarrow> message_row) \<Rightarrow> relay_state \<Rightarrow> bool \<times> relay_state" where
  "update_row env i f st =
    (let ok = (\<not> re_fault env (rl_db_calls st) \<and> map_of (rl_rows st) i \<noteq> None)
     in (ok, st\<lparr>rl_db_calls := rl_db_calls st + 1,
               rl_rows := (if ok then modify i f (rl_rows st) else rl_rows st)\<rparr>))"

text \<open>\<open>ON CONFLICT(id) DO UPDATE\<close>: a settled row is not reopened; the contents are merged by SQLite.\<close>

definition upsert_row :: "relay_env \<Rightarrow> string \<Rightarrow> message_row \<Rightarrow> relay_state \<Rightarrow> relay_state" where
  "upsert_row env i row st =
    (let st' = st\<lparr>rl_db_calls := rl_db_calls st + 1\<rparr>
     in if re_fault env (rl_db_calls st) then st'
        else case map_of (rl_rows st) i of
          None \<Rightarrow> st'\<lparr>rl_rows := AList.update i row (rl_rows st)\<rparr>
        | Some old \<Rightarrow> st'\<lparr>rl_rows := AList.update i
            (old\<lparr>mw_body := Body_Merged (mw_body old) (mw_body row),
                mw_status := (if mw_status old \<in> {''finish'', ''error''} \<and> mw_status row = ''work''
                              then mw_status old else mw_status row),
                mw_hidden := mw_hidden row, mw_created := min (mw_created old) (mw_created row),
                mw_anchor := (if mw_anchor old \<noteq> None then mw_anchor old else mw_anchor row)\<rparr>) (rl_rows st)\<rparr>)"

definition find_row :: "relay_env \<Rightarrow> string \<Rightarrow> string \<Rightarrow> relay_state \<Rightarrow> message_row option \<times> relay_state" where
  "find_row env msg typ st =
    ((if re_fault env (rl_db_calls st) then None
      else find (\<lambda>r. mw_msg r = Some msg \<and> mw_type r = typ) (vals (rl_rows st))),
     st\<lparr>rl_db_calls := rl_db_calls st + 1\<rparr>)"

definition mint_msg_id :: "relay_env \<Rightarrow> relay_state \<Rightarrow> string \<times> relay_state" where
  "mint_msg_id env st = (re_mint env (rl_minted st), st\<lparr>rl_minted := rl_minted st + 1\<rparr>)"

definition broadcast :: "frame \<Rightarrow> relay_state \<Rightarrow> relay_state" where
  "broadcast f st = st\<lparr>rl_frames := rl_frames st @ [(f, rl_anchor st)]\<rparr>"

end
