(* ===== verification/Stream_Relay.thy ===== *)
theory Stream_Relay
  imports Stream_Data
begin

text \<open>
  The relay that turns one agent's event stream into frames for the user interface and rows of the message
  table: the loop of \<open>stream_relay.rs\<close> of \<open>crates/aionui-conversation\<close> and the writes of its adapter
  \<open>stream_persistence.rs\<close>. One iteration of the loop is a function of what it received, of the clock, and
  of the runtime state it reads (\<open>relay_tick\<close>); other tasks change the runtime state between iterations.
\<close>

section \<open>Texts\<close>

definition two_digits :: "nat \<Rightarrow> string" where
  "two_digits n = (if n < 10 then ''0'' @ show_nat n else show_nat n)"

definition humanize_ms :: "int \<Rightarrow> string" where
  "humanize_ms ms =
    (let total = nat (max ms 0) div 1000; h = total div 3600; m = total mod 3600 div 60; s = total mod 60
     in if h = 0 \<and> m = 0 then show_nat s @ ''s''
        else if h = 0 then show_nat m @ ''m'' @ two_digits s @ ''s''
        else show_nat h @ ''h'' @ two_digits m @ ''m'')"

text \<open>The totals a superseding tip carries, counted over the whole turn.\<close>

definition annotate ::
  "tip_data \<Rightarrow> int \<Rightarrow> (string \<rightharpoonup> nat \<times> int) \<Rightarrow> tip_data option \<times> (string \<rightharpoonup> nat \<times> int)" where
  "annotate tip now seen = (case tip_supersedes tip of
     None \<Rightarrow> (None, seen)
   | Some key \<Rightarrow>
       (let (n, first) = (case seen key of Some e \<Rightarrow> e | None \<Rightarrow> (0, now));
            params = (case tip_params tip of Some m \<Rightarrow> m | None \<Rightarrow> []);
            params = AList.update ''attempts'' (show_nat (n + 1)) params;
            params = AList.update ''elapsed'' (humanize_ms (now - first)) params
        in (Some (tip\<lparr>tip_params := Some params\<rparr>), seen(key \<mapsto> (n + 1, first)))))"

section \<open>The adapter's writes\<close>

text \<open>What one iteration sees: the runtime state, the clock, and what it received.\<close>

datatype poll =
    Got stream_event
  | Got_Lagged nat
  | Got_Closed
  | Got_Empty
  | Send_Failed error_data
  | Send_Dropped

record tick =
  tk_state :: runtime_state
  tk_now :: int
  tk_poll :: poll

definition allows :: "relay_env \<Rightarrow> tick \<Rightarrow> write_kind \<Rightarrow> bool" where
  "allows env tk kind = write_allowed (lifecycle_for (re_conv env) (tk_state tk)) kind"

definition text_row :: "text_segment \<Rightarrow> string \<Rightarrow> relay_state \<Rightarrow> message_row" where
  "text_row seg status st =
     \<lparr>mw_type = ''text'', mw_msg = Some (ts_id seg), mw_body = Body_Text (ts_buffer seg), mw_status = status,
      mw_hidden = False, mw_created = ts_created seg, mw_anchor = rl_anchor st\<rparr>"

definition flush_text_segment :: "relay_env \<Rightarrow> tick \<Rightarrow> text_segment \<Rightarrow> relay_state \<Rightarrow> text_segment \<times> relay_state" where
  "flush_text_segment env tk seg st =
    (if \<not> allows env tk Write_AssistantTextFlush \<or> ts_buffer seg = [] then (seg, st)
     else if ts_record seg then
       (seg, snd (update_row env (ts_id seg) (\<lambda>r. r\<lparr>mw_body := Body_Text (ts_buffer seg), mw_status := ''work''\<rparr>) st))
     else (seg\<lparr>ts_record := True\<rparr>, snd (insert_row env (ts_id seg) (text_row seg ''work'' st) st)))"

definition finalize_text_segment ::
  "relay_env \<Rightarrow> tick \<Rightarrow> text_segment \<Rightarrow> string \<Rightarrow> relay_state \<Rightarrow> string option \<times> relay_state" where
  "finalize_text_segment env tk seg status st =
    (if \<not> allows env tk Write_AssistantTextFinalize \<or> ts_buffer seg = [] then (None, st)
     else
       (let (ok, st') = (if ts_record seg then
              update_row env (ts_id seg)
                (\<lambda>r. r\<lparr>mw_body := Body_Text (ts_buffer seg), mw_status := status, mw_hidden := False\<rparr>) st
            else insert_row env (ts_id seg) (text_row seg status st) st)
        in (if ok then Some (ts_id seg) else None, st')))"

text \<open>\<open>persist_final_text\<close> with the broadcasts its caller makes of the overrides it returns.\<close>

definition persist_final_text ::
  "relay_env \<Rightarrow> tick \<Rightarrow> string list \<Rightarrow> string \<Rightarrow> string \<Rightarrow> bool \<Rightarrow> bool \<Rightarrow> relay_state
     \<Rightarrow> (string \<times> string \<times> bool) list \<times> relay_state" where
  "persist_final_text env tk segments status final hidden rewrite st =
    (if \<not> allows env tk Write_TerminalFinalize then ([], st)
     else case segments of
       i # rest \<Rightarrow>
         (if rewrite then
            ((i, final, hidden) # map (\<lambda>j. (j, [], True)) rest,
             fold (\<lambda>j st. snd (update_row env j (\<lambda>r. r\<lparr>mw_status := status, mw_hidden := True\<rparr>) st)) rest
               (snd (update_row env i
                  (\<lambda>r. r\<lparr>mw_body := Body_Text final, mw_status := status, mw_hidden := hidden\<rparr>) st)))
          else ([], fold (\<lambda>j st. snd (update_row env j (\<lambda>r. r\<lparr>mw_status := status, mw_hidden := False\<rparr>) st)) segments st))
     | [] \<Rightarrow>
         ([], if hidden then st
              else snd (insert_row env (re_msg env)
                \<lparr>mw_type = ''text'', mw_msg = Some (re_msg env), mw_body = Body_Text final, mw_status = status,
                 mw_hidden = False, mw_created = tk_now tk, mw_anchor = rl_anchor st\<rparr> st)))"

definition persist_tip_row :: "relay_env \<Rightarrow> tick \<Rightarrow> row_body \<Rightarrow> string \<Rightarrow> relay_state \<Rightarrow> relay_state" where
  "persist_tip_row env tk body status st =
    (if \<not> allows env tk Write_TerminalFinalize then st
     else
       (let (i, st') = mint_msg_id env st
        in snd (insert_row env i
             \<lparr>mw_type = ''tips'', mw_msg = None, mw_body = body, mw_status = status, mw_hidden = False,
              mw_created = tk_now tk, mw_anchor = rl_anchor st\<rparr> st')))"

definition persist_error_tip :: "relay_env \<Rightarrow> tick \<Rightarrow> error_data \<Rightarrow> relay_state \<Rightarrow> relay_state" where
  "persist_error_tip env tk d st = persist_tip_row env tk (Body_Error d) ''error'' st"

definition persist_tip :: "relay_env \<Rightarrow> tick \<Rightarrow> tip_data \<Rightarrow> relay_state \<Rightarrow> relay_state" where
  "persist_tip env tk tip st =
     persist_tip_row env tk (Body_Tip tip) (if tip_kind tip = Tip_Error then ''error'' else ''finish'') st"

definition persist_thinking_segment ::
  "relay_env \<Rightarrow> tick \<Rightarrow> thinking_segment \<Rightarrow> nat \<Rightarrow> relay_state \<Rightarrow> relay_state" where
  "persist_thinking_segment env tk seg duration st =
    (if tk_buffer seg = [] \<or> \<not> allows env tk Write_AssistantThinkingFinalize then st
     else snd (insert_row env (tk_id seg)
       \<lparr>mw_type = ''thinking'', mw_msg = Some (tk_id seg), mw_body = Body_Thinking (tk_buffer seg) duration,
        mw_status = ''finish'', mw_hidden = False, mw_created = tk_started seg, mw_anchor = rl_anchor st\<rparr> st))"

definition persist_tool_call :: "relay_env \<Rightarrow> tick \<Rightarrow> tool_call_data \<Rightarrow> relay_state \<Rightarrow> relay_state" where
  "persist_tool_call env tk d st =
    (if \<not> allows env tk Write_ToolCallPersist \<or> trim (tcd_call d) = [] then st
     else upsert_row env (tcd_call d)
       \<lparr>mw_type = ''tool_call'', mw_msg = Some (tcd_call d), mw_body = Body_Tool d,
        mw_status = (case tcd_status d of Tool_Running \<Rightarrow> ''work'' | Tool_Completed \<Rightarrow> ''finish''
                     | Tool_Error \<Rightarrow> ''error'' | Tool_Canceled \<Rightarrow> ''finish''),
        mw_hidden = False, mw_created = tk_now tk, mw_anchor = rl_anchor st\<rparr> st)"

definition persist_plan :: "relay_env \<Rightarrow> tick \<Rightarrow> json \<Rightarrow> relay_state \<Rightarrow> relay_state" where
  "persist_plan env tk d st =
    (if \<not> allows env tk Write_ToolCallPersist then st
     else upsert_row env (''plan:'' @ re_msg env)
       \<lparr>mw_type = ''plan'', mw_msg = Some (re_msg env), mw_body = Body_Plan d (re_turn env), mw_status = ''finish'',
        mw_hidden = False, mw_created = tk_now tk, mw_anchor = rl_anchor st\<rparr> st)"

definition persist_acp_tool_call :: "relay_env \<Rightarrow> tick \<Rightarrow> acp_tool_call_data \<Rightarrow> relay_state \<Rightarrow> relay_state" where
  "persist_acp_tool_call env tk d st =
    (if \<not> allows env tk Write_AcpToolCallPersist then st
     else upsert_row env (atc_call d)
       \<lparr>mw_type = ''acp_tool_call'', mw_msg = Some (atc_call d), mw_body = Body_AcpTool d,
        mw_status = (case atc_status d of None \<Rightarrow> ''work'' | Some Acp_Pending \<Rightarrow> ''work''
                     | Some Acp_InProgress \<Rightarrow> ''work'' | Some Acp_Completed \<Rightarrow> ''finish''
                     | Some Acp_Failed \<Rightarrow> ''error''),
        mw_hidden = False, mw_created = tk_now tk, mw_anchor = rl_anchor st\<rparr> st)"

definition settle_tool_call_if_present ::
  "relay_env \<Rightarrow> tick \<Rightarrow> tool_call_data \<Rightarrow> relay_state \<Rightarrow> bool \<times> relay_state" where
  "settle_tool_call_if_present env tk d st =
    (case find_row env (tcd_call d) ''tool_call'' st of
       (None, st') \<Rightarrow> (False, st')
     | (Some _, st') \<Rightarrow> (True, persist_tool_call env tk d st'))"

definition persist_tool_group :: "relay_env \<Rightarrow> tick \<Rightarrow> group_entry list \<Rightarrow> relay_state \<Rightarrow> relay_state" where
  "persist_tool_group env tk entries st =
    (if \<not> allows env tk Write_ToolGroupPersist then st
     else
       (let status = (if list_all (\<lambda>e. is_terminal (ge_status e)) entries then ''finish'' else ''work'');
            (i, st) = (case entries of e # _ \<Rightarrow> (ge_call e, st) | [] \<Rightarrow> mint_msg_id env st);
            (existing, st) = find_row env i ''tool_group'' st
        in case existing of
             Some _ \<Rightarrow> snd (update_row env i (\<lambda>r. r\<lparr>mw_body := Body_Group entries, mw_status := status\<rparr>) st)
           | None \<Rightarrow> snd (insert_row env i
               \<lparr>mw_type = ''tool_group'', mw_msg = Some i, mw_body = Body_Group entries, mw_status = status,
                mw_hidden = False, mw_created = tk_now tk, mw_anchor = rl_anchor st\<rparr> st)))"

section \<open>Segments\<close>

definition mint_segment_msg_id :: "relay_env \<Rightarrow> relay_state \<Rightarrow> string \<times> relay_state" where
  "mint_segment_msg_id env st =
    (if \<not> rl_used_primary st then (re_msg env, st\<lparr>rl_used_primary := True\<rparr>) else mint_msg_id env st)"

definition complete_active_thinking :: "relay_env \<Rightarrow> tick \<Rightarrow> relay_state \<Rightarrow> relay_state" where
  "complete_active_thinking env tk st = (case rl_thinking st of
     None \<Rightarrow> st
   | Some seg \<Rightarrow>
       (let duration = nat (max (tk_now tk - tk_started seg) 0);
            frame = Fr_Event (tk_id seg) (Ev_Thinking
              \<lparr>th_content = [], th_subject = None, th_duration = Some duration, th_status = Some ''done''\<rparr>)
        in persist_thinking_segment env tk seg duration (broadcast frame (st\<lparr>rl_thinking := None\<rparr>))))"

definition close_active_text_segment :: "relay_env \<Rightarrow> tick \<Rightarrow> string \<Rightarrow> relay_state \<Rightarrow> relay_state" where
  "close_active_text_segment env tk status st = (case rl_text st of
     None \<Rightarrow> st
   | Some seg \<Rightarrow>
       (case finalize_text_segment env tk seg status (st\<lparr>rl_text := None\<rparr>) of
          (Some i, st') \<Rightarrow> st'\<lparr>rl_segments := rl_segments st' @ [i]\<rparr>
        | (None, st') \<Rightarrow> st'))"

definition close_segments :: "relay_env \<Rightarrow> tick \<Rightarrow> string \<Rightarrow> relay_state \<Rightarrow> relay_state" where
  "close_segments env tk status st = close_active_text_segment env tk status (complete_active_thinking env tk st)"

definition forward :: "relay_env \<Rightarrow> stream_event \<Rightarrow> relay_state \<Rightarrow> relay_state" where
  "forward env e st = broadcast (Fr_Event (re_msg env) e) st"

definition forward_workflow_progress :: "tool_call_data \<Rightarrow> group_entry list \<Rightarrow> relay_state \<Rightarrow> relay_state" where
  "forward_workflow_progress tool agents st =
    (let st = broadcast (Fr_ToolCard tool) st in if agents = [] then st else broadcast (Fr_ToolGroup agents) st)"

definition send_system_responses :: "relay_env \<Rightarrow> string list \<Rightarrow> relay_state \<Rightarrow> relay_state" where
  "send_system_responses env rs st =
     fold (\<lambda>r st. let (i, st) = mint_msg_id env st in broadcast (Fr_System i r) st) rs st"

definition finalize :: "relay_env \<Rightarrow> tick \<Rightarrow> stream_event \<Rightarrow> relay_terminal \<Rightarrow> relay_state \<Rightarrow> relay_outcome \<times> relay_state" where
  "finalize env tk e terminal st =
    (let status = (case e of Ev_Error _ \<Rightarrow> ''error'' | _ \<Rightarrow> ''finish'');
         done_with = (\<lambda>rs. \<lparr>ro_responses = rs, ro_terminal = terminal, ro_attempt = new_attempt\<rparr>)
     in if rl_full st \<noteq> [] then
          (let (message, responses) = re_process env (rl_full st);
               final = trim message;
               hidden = (final = []);
               (overrides, st) = persist_final_text env tk (rl_segments st) status final hidden
                                   (message \<noteq> rl_full st \<or> hidden) st;
               st = fold (\<lambda>(i, t, h). broadcast (Fr_Override i t h)) overrides st
           in (done_with responses, send_system_responses env responses st))
        else case e of
          Ev_Error d \<Rightarrow> (done_with [], persist_error_tip env tk d st)
        | _ \<Rightarrow> (done_with [], st))"

text \<open>\<open>complete_conversation\<close> through \<open>RuntimeCompletionPublisher\<close>: the row must be there to be
  updated.\<close>

definition complete_conversation :: "relay_env \<Rightarrow> tick \<Rightarrow> relay_state \<Rightarrow> relay_state" where
  "complete_conversation env tk st =
    (if \<not> allows env tk Write_ConversationFinished then st
     else if re_fault env (rl_db_calls st) then st\<lparr>rl_db_calls := rl_db_calls st + 1\<rparr>
     else if re_fault env (rl_db_calls st + 1) then st\<lparr>rl_db_calls := rl_db_calls st + 2\<rparr>
     else broadcast Fr_TurnCompleted (st\<lparr>rl_db_calls := rl_db_calls st + 2\<rparr>))"

section \<open>The loop\<close>

datatype relay_step = Going relay_state | Ended relay_outcome relay_state

text \<open>A clean, retryable error is kept back for the turn to try again, when the relay was asked to.\<close>

definition defer_clean_error :: "relay_env \<Rightarrow> relay_terminal \<Rightarrow> relay_state \<Rightarrow> bool" where
  "defer_clean_error env terminal st \<longleftrightarrow> re_defer env \<and> is_error terminal \<and> terminal_retryable terminal = Some True
     \<and> terminal_code terminal \<noteq> Some UserLlmProviderModelNotFound \<and> safe_to_auto_replay (rl_attempt st)"

text \<open>The last iteration of a stream that ended, once its active segments may be closed.\<close>

definition end_stream ::
  "relay_env \<Rightarrow> tick \<Rightarrow> bool \<Rightarrow> stream_event \<Rightarrow> relay_terminal \<Rightarrow> bool \<Rightarrow> attempt_summary \<Rightarrow> relay_state \<Rightarrow> relay_step" where
  "end_stream env tk deleting e terminal forwarded attempt st =
    (let st = (if deleting then st
               else close_segments env tk (case e of Ev_Error _ \<Rightarrow> ''error'' | _ \<Rightarrow> ''finish'') st);
         st = (if forwarded then forward env e st else st);
         (outcome, st) =
           (if deleting then (\<lparr>ro_responses = [], ro_terminal = terminal, ro_attempt = attempt\<rparr>, st)
            else finalize env tk e terminal st);
         attempt = (if rl_full st \<noteq> [] then attempt\<lparr>at_persisted := True\<rparr> else attempt);
         st = (if re_complete_turn env \<and> \<not> deleting then complete_conversation env tk st else st)
     in Ended (outcome\<lparr>ro_attempt := attempt\<rparr>) st)"

definition terminal_step :: "relay_env \<Rightarrow> tick \<Rightarrow> bool \<Rightarrow> stream_event \<Rightarrow> relay_state \<Rightarrow> relay_step" where
  "terminal_step env tk deleting e st =
    (let terminal = terminal_from_event e
     in if defer_clean_error env terminal st then
          (let attempt = (case e of
                 Ev_Error d \<Rightarrow> rl_attempt st\<lparr>at_error := Some d, at_deferred := True\<rparr> | _ \<Rightarrow> rl_attempt st)
           in Ended \<lparr>ro_responses = [], ro_terminal = terminal, ro_attempt = attempt\<rparr> st)
        else
          end_stream env tk deleting e terminal True
            (case e of Ev_Error d \<Rightarrow> rl_attempt st\<lparr>at_error := Some d\<rparr> | _ \<Rightarrow> rl_attempt st) st)"

text \<open>The channel closed without a terminal event: the same, with nothing to forward.\<close>

definition closed_step :: "relay_env \<Rightarrow> tick \<Rightarrow> relay_state \<Rightarrow> relay_step" where
  "closed_step env tk st =
     end_stream env tk (is_deleting (re_conv env) (tk_state tk)) (Ev_Finish []) Term_ChannelClosed False (rl_attempt st) st"

definition saw_tool :: "relay_state \<Rightarrow> relay_state" where
  "saw_tool st = st\<lparr>rl_attempt := rl_attempt st\<lparr>at_tool := True\<rparr>\<rparr>"

definition saw_visible :: "bool \<Rightarrow> relay_state \<Rightarrow> relay_state" where
  "saw_visible b st = (if b then st\<lparr>rl_attempt := rl_attempt st\<lparr>at_visible := True\<rparr>\<rparr> else st)"

text \<open>\<open>get_or_insert_with\<close> on the active segments.\<close>

definition text_segment_for :: "relay_env \<Rightarrow> tick \<Rightarrow> relay_state \<Rightarrow> text_segment \<times> relay_state" where
  "text_segment_for env tk st = (case rl_text st of
     Some seg \<Rightarrow> (seg, st)
   | None \<Rightarrow>
       (let (i, st) = mint_segment_msg_id env st
        in (\<lparr>ts_id = i, ts_buffer = [], ts_created = tk_now tk, ts_record = False, ts_flushes = 0\<rparr>, st)))"

definition thinking_segment_for :: "relay_env \<Rightarrow> tick \<Rightarrow> relay_state \<Rightarrow> thinking_segment \<times> relay_state" where
  "thinking_segment_for env tk st = (case rl_thinking st of
     Some seg \<Rightarrow> (seg, st)
   | None \<Rightarrow>
       (let (i, st) = mint_segment_msg_id env st in (\<lparr>tk_id = i, tk_buffer = [], tk_started = tk_now tk\<rparr>, st)))"

definition text_event :: "relay_env \<Rightarrow> tick \<Rightarrow> string \<Rightarrow> relay_state \<Rightarrow> relay_state" where
  "text_event env tk content st =
    (let st = complete_active_thinking env tk st;
         st = saw_visible (content \<noteq> []) st;
         (seg, st) = text_segment_for env tk st;
         st = broadcast (Fr_Event (ts_id seg) (Ev_Text content)) st;
         seg = seg\<lparr>ts_buffer := ts_buffer seg @ content, ts_flushes := ts_flushes seg + 1\<rparr>;
         st = st\<lparr>rl_full := rl_full st @ content\<rparr>;
         (seg, st) = (if 20 \<le> ts_flushes seg then
              (let (seg, st) = flush_text_segment env tk seg st in (seg\<lparr>ts_flushes := 0\<rparr>, st))
            else (seg, st))
     in st\<lparr>rl_text := Some seg\<rparr>)"

definition thinking_event :: "relay_env \<Rightarrow> tick \<Rightarrow> thinking_data \<Rightarrow> relay_state \<Rightarrow> relay_state" where
  "thinking_event env tk d st =
    (if th_status d = Some ''done'' then complete_active_thinking env tk st
     else if th_content d = [] \<and> th_subject d = None then st
     else
       (let st = close_active_text_segment env tk ''finish'' st;
            st = saw_visible (th_content d \<noteq> []) st;
            (seg, st) = thinking_segment_for env tk st;
            seg = seg\<lparr>tk_buffer := tk_buffer seg @ th_content d\<rparr>
        in broadcast (Fr_Event (tk_id seg) (Ev_Thinking d)) (st\<lparr>rl_thinking := Some seg\<rparr>)))"

definition tips_event :: "relay_env \<Rightarrow> tick \<Rightarrow> tip_data \<Rightarrow> relay_state \<Rightarrow> relay_state" where
  "tips_event env tk d st =
    (let st = saw_visible (tip_kind d = Tip_Success) st;
         st = (if tip_code d = Some ''ACP_EMPTY_TURN_NEEDS_AUTH''
               then st\<lparr>rl_attempt := rl_attempt st\<lparr>at_needs_auth := True\<rparr>\<rparr> else st);
         (annotated, seen) = annotate d (tk_now tk) (rl_tips st);
         st = st\<lparr>rl_tips := seen\<rparr>;
         st = forward env (Ev_Tips (case annotated of Some a \<Rightarrow> a | None \<Rightarrow> d)) st
     in if tip_kind d \<in> {Tip_Success, Tip_Warning, Tip_Info}
        then persist_tip env tk (case annotated of Some a \<Rightarrow> a | None \<Rightarrow> d) st else st)"

fun event_step :: "relay_env \<Rightarrow> tick \<Rightarrow> stream_event \<Rightarrow> relay_state \<Rightarrow> relay_state" where
  "event_step env tk Ev_SegmentBreak st = close_segments env tk ''finish'' st"
| "event_step env tk (Ev_AcpDialectSignal _) st = st"
| "event_step env tk (Ev_BackendTurnBound t) st = st\<lparr>rl_anchor := Some t\<rparr>"
| "event_step env tk (Ev_Thinking d) st = thinking_event env tk d st"
| "event_step env tk (Ev_Text content) st = text_event env tk content st"
| "event_step env tk (Ev_ToolCall d) st =
     persist_tool_call env tk d (forward env (Ev_ToolCall d) (close_segments env tk ''finish'' (saw_tool st)))"
| "event_step env tk (Ev_AcpToolCall d) st =
     persist_acp_tool_call env tk d (forward env (Ev_AcpToolCall d) (close_segments env tk ''finish'' (saw_tool st)))"
| "event_step env tk (Ev_ToolGroup es) st =
     persist_tool_group env tk es (forward env (Ev_ToolGroup es) (close_segments env tk ''finish'' (saw_tool st)))"
| "event_step env tk (Ev_WorkflowProgress tool agents settle_only) st =
     (if settle_only then
        (case settle_tool_call_if_present env tk tool st of
           (True, st') \<Rightarrow> forward_workflow_progress tool agents st'
         | (False, st') \<Rightarrow> st')
      else
        (let st = persist_tool_call env tk tool (forward_workflow_progress tool agents st)
         in if agents = [] then st else persist_tool_group env tk agents st))"
| "event_step env tk (Ev_Tips d) st = tips_event env tk d st"
| "event_step env tk (Ev_CronTrigger j) st = forward env (Ev_CronTrigger j) (saw_tool st)"
| "event_step env tk (Ev_Permission j) st = forward env (Ev_Permission j) (saw_tool st)"
| "event_step env tk (Ev_AcpPermission j) st = forward env (Ev_AcpPermission j) (saw_tool st)"
| "event_step env tk (Ev_Ask j) st = forward env (Ev_Ask j) (saw_tool st)"
| "event_step env tk (Ev_MessageLifecycle _) st = st"
| "event_step env tk (Ev_Plan d) st = persist_plan env tk d (forward env (Ev_Plan d) st)"
| "event_step env tk e st = forward env e st"

text \<open>An event the loop received: nothing but the end of the stream is handled while the conversation is
  being deleted.\<close>

definition receive :: "relay_env \<Rightarrow> tick \<Rightarrow> stream_event \<Rightarrow> relay_state \<Rightarrow> relay_step" where
  "receive env tk e st =
    (let deleting = is_deleting (re_conv env) (tk_state tk)
     in if terminal_event e then terminal_step env tk deleting e st
        else if deleting then Going st
        else Going (event_step env tk e st))"

text \<open>What the loop does with what it received depends on whether the sending task is still awaited, and
  on a failure of it that waits for the channel to run empty. A received thing that cannot come up in a mode
  (the answer of a task already heard, or an empty channel that is awaited) changes nothing.\<close>

definition relay_tick :: "relay_env \<Rightarrow> tick \<Rightarrow> relay_state \<Rightarrow> relay_step" where
  "relay_tick env tk st =
    (if \<not> rl_send_done st then
       (case tk_poll tk of
          Got e \<Rightarrow> receive env tk e st
        | Got_Closed \<Rightarrow> closed_step env tk st
        | Got_Lagged _ \<Rightarrow> Going st
        | Send_Failed d \<Rightarrow> Going (st\<lparr>rl_send_done := True, rl_pending := Some d\<rparr>)
        | Send_Dropped \<Rightarrow> Going (st\<lparr>rl_send_done := True\<rparr>)
        | Got_Empty \<Rightarrow> Going st)
     else case rl_pending st of
       Some d \<Rightarrow>
         (case tk_poll tk of
            Got e \<Rightarrow>
              receive env tk e (st\<lparr>rl_pending := (if terminal_event e then None else Some d)\<rparr>)
          | Got_Empty \<Rightarrow> receive env tk (Ev_Error d) (st\<lparr>rl_pending := None\<rparr>)
          | Got_Closed \<Rightarrow> receive env tk (Ev_Error d) (st\<lparr>rl_pending := None\<rparr>)
          | Got_Lagged _ \<Rightarrow> Going (st\<lparr>rl_pending := None\<rparr>)
          | _ \<Rightarrow> Going st)
     | None \<Rightarrow>
         (case tk_poll tk of
            Got e \<Rightarrow> receive env tk e st
          | Got_Closed \<Rightarrow> closed_step env tk st
          | _ \<Rightarrow> Going st))"

text \<open>The loop over what it receives: \<^const>\<open>None\<close> while it still waits.\<close>

fun relay_run :: "relay_env \<Rightarrow> tick list \<Rightarrow> relay_state \<Rightarrow> (relay_outcome \<times> relay_state) option" where
  "relay_run env [] st = None"
| "relay_run env (tk # tks) st = (case relay_tick env tk st of
     Going st' \<Rightarrow> relay_run env tks st'
   | Ended outcome st' \<Rightarrow> Some (outcome, st'))"

definition consume :: "relay_env \<Rightarrow> tick list \<Rightarrow> relay_world \<Rightarrow> (relay_outcome \<times> relay_state) option" where
  "consume env tks w = relay_run env tks (start_relay w)"

end
