(* ===== verification/Relay_Laws.thy ===== *)
theory Relay_Laws
  imports Stream_Relay
begin

text \<open>
  What the stream relay guarantees: what an attempt that counts as clean has shown, what a deferred error
  leaves behind, that the text a user saw live is the text the table holds, that a conversation being
  deleted is not written to, and that a failed send ends the relay.
\<close>

section \<open>Writes touch only the table\<close>

text \<open>The part of a relay's state that no operation of the repository changes.\<close>

definition front :: "relay_state \<Rightarrow> relay_state" where
  "front st = st\<lparr>rl_rows := [], rl_minted := 0, rl_db_calls := 0\<rparr>"

lemma front_fields:
  assumes "front st = front st'"
  shows "rl_attempt st = rl_attempt st'" "rl_full st = rl_full st'" "rl_frames st = rl_frames st'"
    "rl_text st = rl_text st'" "rl_thinking st = rl_thinking st'" "rl_segments st = rl_segments st'"
    "rl_used_primary st = rl_used_primary st'" "rl_anchor st = rl_anchor st'" "rl_tips st = rl_tips st'"
    "rl_send_done st = rl_send_done st'" "rl_pending st = rl_pending st'"
  using arg_cong [OF assms, of rl_attempt]
    arg_cong [OF assms, of rl_full]
    arg_cong [OF assms, of rl_frames]
    arg_cong [OF assms, of rl_text]
    arg_cong [OF assms, of rl_thinking]
    arg_cong [OF assms, of rl_segments]
    arg_cong [OF assms, of rl_used_primary]
    arg_cong [OF assms, of rl_anchor]
    arg_cong [OF assms, of rl_tips]
    arg_cong [OF assms, of rl_send_done]
    arg_cong [OF assms, of rl_pending]
  by (simp_all add: front_def)

lemma front_table [simp]:
  "front (snd (insert_row env i row st)) = front st"
  "front (snd (update_row env i f st)) = front st"
  "front (upsert_row env i row st) = front st"
  "front (snd (find_row env i typ st)) = front st"
  "front (snd (mint_msg_id env st)) = front st"
  by (simp_all add: front_def insert_row_def update_row_def upsert_row_def find_row_def mint_msg_id_def Let_def
      split: option.split)

lemma front_fold: "(\<And>x st. front (g x st) = front st) \<Longrightarrow> front (fold g xs st) = front st"
  by (induction xs arbitrary: st) simp_all

lemma front_persist [simp]:
  "front (snd (flush_text_segment env tk seg st)) = front st"
  "front (snd (finalize_text_segment env tk seg status st)) = front st"
  "front (snd (persist_final_text env tk segs status final hidden rewrite st)) = front st"
  "front (persist_tip_row env tk body status st) = front st"
  "front (persist_error_tip env tk d st) = front st"
  "front (persist_tip env tk tip st) = front st"
  "front (persist_thinking_segment env tk tseg duration st) = front st"
  "front (persist_tool_call env tk tool st) = front st"
  "front (persist_plan env tk p st) = front st"
  "front (persist_acp_tool_call env tk acp st) = front st"
  "front (snd (settle_tool_call_if_present env tk tool st)) = front st"
  "front (persist_tool_group env tk entries st) = front st"
  by (simp_all add: flush_text_segment_def finalize_text_segment_def persist_final_text_def persist_tip_row_def
      persist_error_tip_def persist_tip_def persist_thinking_segment_def persist_tool_call_def persist_plan_def
      persist_acp_tool_call_def settle_tool_call_if_present_def persist_tool_group_def Let_def case_prod_unfold
      front_fold split: list.split option.split)

lemmas table_fields [simp] =
  front_table [THEN front_fields(1)] front_table [THEN front_fields(2)] front_table [THEN front_fields(3)]
  front_table [THEN front_fields(4)] front_table [THEN front_fields(5)] front_table [THEN front_fields(6)]
  front_table [THEN front_fields(7)] front_table [THEN front_fields(8)] front_table [THEN front_fields(9)]
  front_table [THEN front_fields(10)] front_table [THEN front_fields(11)]
  front_persist [THEN front_fields(1)] front_persist [THEN front_fields(2)] front_persist [THEN front_fields(3)]
  front_persist [THEN front_fields(4)] front_persist [THEN front_fields(5)] front_persist [THEN front_fields(6)]
  front_persist [THEN front_fields(7)] front_persist [THEN front_fields(8)] front_persist [THEN front_fields(9)]
  front_persist [THEN front_fields(10)] front_persist [THEN front_fields(11)]

lemma broadcast_fields [simp]:
  "rl_attempt (broadcast f st) = rl_attempt st" "rl_full (broadcast f st) = rl_full st"
  "rl_frames (broadcast f st) = rl_frames st @ [(f, rl_anchor st)]" "rl_text (broadcast f st) = rl_text st"
  "rl_thinking (broadcast f st) = rl_thinking st" "rl_segments (broadcast f st) = rl_segments st"
  "rl_used_primary (broadcast f st) = rl_used_primary st" "rl_rows (broadcast f st) = rl_rows st"
  "rl_minted (broadcast f st) = rl_minted st" "rl_db_calls (broadcast f st) = rl_db_calls st"
  "rl_send_done (broadcast f st) = rl_send_done st" "rl_pending (broadcast f st) = rl_pending st"
  by (simp_all add: broadcast_def)

lemma mint_segment_fields [simp]:
  "rl_attempt (snd (mint_segment_msg_id env st)) = rl_attempt st" "rl_full (snd (mint_segment_msg_id env st)) = rl_full st"
  "rl_frames (snd (mint_segment_msg_id env st)) = rl_frames st" "rl_text (snd (mint_segment_msg_id env st)) = rl_text st"
  "rl_thinking (snd (mint_segment_msg_id env st)) = rl_thinking st"
  "rl_segments (snd (mint_segment_msg_id env st)) = rl_segments st" "rl_rows (snd (mint_segment_msg_id env st)) = rl_rows st"
  "rl_db_calls (snd (mint_segment_msg_id env st)) = rl_db_calls st"
  by (simp_all add: mint_segment_msg_id_def mint_msg_id_def)

section \<open>What a clean attempt has shown\<close>

text \<open>A frame whose event the relay counts as visible output or as a side effect when it judges whether an
  attempt may be tried again. It does not count the cards of background workflows (sent as tool calls and
  tool groups), nor a thought that has a subject and no content, although the user sees both.\<close>

definition counted_output :: "frame \<Rightarrow> bool" where
  "counted_output f = (case f of
      Fr_Event _ e \<Rightarrow> (case e of
          Ev_Text c \<Rightarrow> c \<noteq> []
        | Ev_Thinking d \<Rightarrow> th_content d \<noteq> []
        | Ev_Tips t \<Rightarrow> tip_kind t = Tip_Success
        | Ev_ToolCall _ \<Rightarrow> True | Ev_AcpToolCall _ \<Rightarrow> True | Ev_ToolGroup _ \<Rightarrow> True
        | Ev_Permission _ \<Rightarrow> True | Ev_AcpPermission _ \<Rightarrow> True | Ev_Ask _ \<Rightarrow> True | Ev_CronTrigger _ \<Rightarrow> True
        | _ \<Rightarrow> False)
    | Fr_Override _ _ _ \<Rightarrow> True
    | Fr_System _ _ \<Rightarrow> True
    | Fr_ToolCard _ \<Rightarrow> False
    | Fr_ToolGroup _ \<Rightarrow> False
    | Fr_TurnCompleted \<Rightarrow> False)"

text \<open>The end of the stream, forwarded.\<close>

definition ends_stream :: "frame \<Rightarrow> bool" where
  "ends_stream f = (case f of Fr_Event _ e \<Rightarrow> terminal_event e | _ \<Rightarrow> False)"

definition honest :: "relay_state \<Rightarrow> bool" where
  "honest st \<longleftrightarrow> (\<forall>f \<in> fst ` set (rl_frames st). counted_output f \<longrightarrow> at_visible (rl_attempt st) \<or> at_tool (rl_attempt st))
     \<and> (rl_full st \<noteq> [] \<longrightarrow> at_visible (rl_attempt st))
     \<and> at_error (rl_attempt st) = None \<and> \<not> at_deferred (rl_attempt st) \<and> \<not> at_persisted (rl_attempt st)
     \<and> (\<forall>f \<in> fst ` set (rl_frames st). \<not> ends_stream f)"

lemma honest_front: "front st = front st' \<Longrightarrow> honest st = honest st'"
  using front_fields(1-3) [of st st'] by (simp add: honest_def)

lemma honest_broadcast:
  "honest st \<Longrightarrow> \<not> ends_stream f \<Longrightarrow> counted_output f \<longrightarrow> at_visible (rl_attempt st) \<or> at_tool (rl_attempt st)
     \<Longrightarrow> honest (broadcast f st)"
  by (auto simp: honest_def)

lemma honest_saw: "honest st \<Longrightarrow> honest (saw_tool st)" "honest st \<Longrightarrow> honest (saw_visible b st)"
  by (auto simp: honest_def saw_tool_def saw_visible_def)

lemma honest_other_fields [simp]:
  "honest (st\<lparr>rl_text := x\<rparr>) = honest st" "honest (st\<lparr>rl_thinking := y\<rparr>) = honest st"
  "honest (st\<lparr>rl_segments := z\<rparr>) = honest st" "honest (st\<lparr>rl_tips := t\<rparr>) = honest st"
  "honest (st\<lparr>rl_anchor := a\<rparr>) = honest st" "honest (st\<lparr>rl_pending := p\<rparr>) = honest st"
  "honest (st\<lparr>rl_send_done := d\<rparr>) = honest st"
  "honest (st\<lparr>rl_attempt := rl_attempt st\<lparr>at_needs_auth := b\<rparr>\<rparr>) = honest st"
  by (simp_all add: honest_def)

lemma honest_table [simp]: "honest (snd (insert_row env i row st)) = honest st"
  "honest (snd (flush_text_segment env tk seg st)) = honest st"
  "honest (snd (finalize_text_segment env tk seg status st)) = honest st"
  "honest (persist_tip env tk tip st) = honest st" "honest (persist_thinking_segment env tk tseg duration st) = honest st"
  "honest (persist_tool_call env tk tool st) = honest st" "honest (persist_plan env tk p st) = honest st"
  "honest (persist_acp_tool_call env tk acp st) = honest st" "honest (persist_tool_group env tk entries st) = honest st"
  "honest (snd (settle_tool_call_if_present env tk tool st)) = honest st"
  "honest (snd (mint_segment_msg_id env st)) = honest st"
  by (simp_all add: honest_def)

lemma honest_thinking: "honest st \<Longrightarrow> honest (complete_active_thinking env tk st)"
  by (auto simp: complete_active_thinking_def Let_def ends_stream_def counted_output_def terminal_event_def
      intro!: honest_broadcast split: option.split)

lemma honest_text: "honest st \<Longrightarrow> honest (close_active_text_segment env tk status st)"
proof (cases "rl_text st")
  case (Some seg)
  assume "honest st"
  then have "honest (snd (finalize_text_segment env tk seg status (st\<lparr>rl_text := None\<rparr>)))" by simp
  with Some show ?thesis
    by (cases "finalize_text_segment env tk seg status (st\<lparr>rl_text := None\<rparr>)")
      (simp add: close_active_text_segment_def split: option.split)
qed (simp add: close_active_text_segment_def)

lemma honest_close: "honest st \<Longrightarrow> honest (close_segments env tk status st)"
  by (simp add: close_segments_def honest_thinking honest_text)

lemma forward_fields [simp]:
  "rl_attempt (forward env e st) = rl_attempt st" "rl_full (forward env e st) = rl_full st"
  "rl_frames (forward env e st) = rl_frames st @ [(Fr_Event (re_msg env) e, rl_anchor st)]"
  "rl_rows (forward env e st) = rl_rows st" "rl_text (forward env e st) = rl_text st"
  by (simp_all add: forward_def)

lemma attempt_close [simp]: "rl_attempt (close_segments env tk status st) = rl_attempt st"
proof -
  have "rl_attempt (close_active_text_segment env tk status s) = rl_attempt s" for s
    using front_fields(1) [OF front_persist(2)]
    by (auto simp: close_active_text_segment_def split: option.split prod.split
        dest!: arg_cong [where f = "\<lambda>p. rl_attempt (snd p)"])
  moreover have "rl_attempt (complete_active_thinking env tk s) = rl_attempt s" for s
    by (simp add: complete_active_thinking_def Let_def split: option.split)
  ultimately show ?thesis by (simp add: close_segments_def)
qed

lemma honest_forward:
  "honest st \<Longrightarrow> \<not> terminal_event e \<Longrightarrow>
     counted_output (Fr_Event (re_msg env) e) \<longrightarrow> at_visible (rl_attempt st) \<or> at_tool (rl_attempt st)
     \<Longrightarrow> honest (forward env e st)"
  unfolding forward_def by (rule honest_broadcast) (simp_all add: ends_stream_def)

lemma segment_for_fields [simp]:
  "rl_attempt (snd (text_segment_for env tk st)) = rl_attempt st" "rl_full (snd (text_segment_for env tk st)) = rl_full st"
  "rl_frames (snd (text_segment_for env tk st)) = rl_frames st" "rl_rows (snd (text_segment_for env tk st)) = rl_rows st"
  "rl_attempt (snd (thinking_segment_for env tk st)) = rl_attempt st"
  "rl_full (snd (thinking_segment_for env tk st)) = rl_full st"
  "rl_frames (snd (thinking_segment_for env tk st)) = rl_frames st"
  "rl_rows (snd (thinking_segment_for env tk st)) = rl_rows st"
  by (simp_all add: text_segment_for_def thinking_segment_for_def Let_def case_prod_unfold split: option.split)

lemma honest_segment_for [simp]:
  "honest (snd (text_segment_for env tk st)) = honest st" "honest (snd (thinking_segment_for env tk st)) = honest st"
  by (simp_all add: honest_def)

lemma honest_append:
  "honest st \<Longrightarrow> content \<noteq> [] \<longrightarrow> at_visible (rl_attempt st) \<Longrightarrow> honest (st\<lparr>rl_full := rl_full st @ content\<rparr>)"
  by (auto simp: honest_def)

lemma visible_saw: "b \<Longrightarrow> at_visible (rl_attempt (saw_visible b st))"
  by (simp add: saw_visible_def)

lemma honest_text_event:
  assumes "honest st"
  shows "honest (text_event env tk content st)"
proof -
  let ?st = "saw_visible (content \<noteq> []) (complete_active_thinking env tk st)"
  have "honest ?st" by (rule honest_saw(2) [OF honest_thinking [OF assms]])
  moreover have shown: "content \<noteq> [] \<longrightarrow> at_visible (rl_attempt ?st)" by (simp add: visible_saw)
  ultimately have "honest (broadcast (Fr_Event i (Ev_Text content)) (snd (text_segment_for env tk ?st)))" for i
    by (intro honest_broadcast) (simp_all add: ends_stream_def terminal_event_def counted_output_def)
  from honest_append [OF this, of content] shown show ?thesis
    by (simp add: text_event_def Let_def case_prod_unfold)
qed

lemma honest_thinking_event:
  assumes "honest st"
  shows "honest (thinking_event env tk d st)"
proof -
  let ?st = "saw_visible (th_content d \<noteq> []) (close_active_text_segment env tk ''finish'' st)"
  have "honest ?st" by (rule honest_saw(2) [OF honest_text [OF assms]])
  then have "honest (broadcast (Fr_Event i (Ev_Thinking d)) (snd (thinking_segment_for env tk ?st)\<lparr>rl_thinking := s\<rparr>))" for i s
    by (intro honest_broadcast)
      (simp_all add: ends_stream_def terminal_event_def counted_output_def visible_saw)
  with assms show ?thesis by (simp add: thinking_event_def honest_thinking Let_def case_prod_unfold)
qed

lemma annotate_kind: "fst (annotate d now seen) = Some a \<Longrightarrow> tip_kind a = tip_kind d"
  by (auto simp: annotate_def Let_def case_prod_unfold split: option.splits)

lemma honest_tips_event:
  assumes "honest st"
  shows "honest (tips_event env tk d st)"
proof -
  let ?st = "saw_visible (tip_kind d = Tip_Success) st"
  have st: "honest (st1\<lparr>rl_tips := seen\<rparr>)" "tip_kind d = Tip_Success \<longrightarrow> at_visible (rl_attempt st1)"
    if "st1 = ?st \<or> st1 = ?st\<lparr>rl_attempt := rl_attempt ?st\<lparr>at_needs_auth := True\<rparr>\<rparr>" for st1 seen
    using that honest_saw(2) [OF assms, of "tip_kind d = Tip_Success"] by (auto simp: visible_saw)
  have "honest (forward env (Ev_Tips tip) (st1\<lparr>rl_tips := seen\<rparr>))"
    if "st1 = ?st \<or> st1 = ?st\<lparr>rl_attempt := rl_attempt ?st\<lparr>at_needs_auth := True\<rparr>\<rparr>" "tip_kind tip = tip_kind d"
    for st1 seen tip
    by (rule honest_forward [OF st(1) [OF that(1)]])
      (use st(2) [OF that(1)] that(2) in \<open>simp_all add: terminal_event_def counted_output_def\<close>)
  then show ?thesis
    using annotate_kind [of d "tk_now tk"]
    by (simp add: tips_event_def Let_def case_prod_unfold split: option.split)
qed

lemma honest_workflow: "honest st \<Longrightarrow> honest (forward_workflow_progress tool agents st)"
  by (auto simp: forward_workflow_progress_def Let_def ends_stream_def counted_output_def intro!: honest_broadcast)

lemma tool_saw: "at_tool (rl_attempt (saw_tool st))"
  by (simp add: saw_tool_def)

lemma honest_event: "honest st \<Longrightarrow> \<not> terminal_event e \<Longrightarrow> honest (event_step env tk e st)"
proof (cases e)
  case (Ev_WorkflowProgress tool agents settle_only)
  assume st: "honest st"
  obtain b s where out: "settle_tool_call_if_present env tk tool st = (b, s)" by fastforce
  with honest_table(10) [of env tk tool st] st have "honest s" by simp
  then show ?thesis
    by (cases settle_only; cases b) (simp_all add: Ev_WorkflowProgress out Let_def honest_workflow st)
qed (auto intro!: honest_forward honest_close honest_saw(1) honest_text_event honest_thinking_event honest_tips_event
    simp: terminal_event_def counted_output_def tool_saw)

lemma end_stream_ended: "\<exists>o' st'. end_stream env tk deleting e terminal forwarded attempt st = Ended o' st'"
  unfolding end_stream_def Let_def case_prod_unfold by blast

lemma steps_end [simp]: "terminal_step env tk deleting e st \<noteq> Going st'" "closed_step env tk st \<noteq> Going st'"
  using end_stream_ended by (auto simp: terminal_step_def closed_step_def Let_def) (metis relay_step.distinct(1))+

lemma receive_going: "receive env tk e st = Going st' \<Longrightarrow>
    \<not> terminal_event e \<and> (st' = st \<or> st' = event_step env tk e st)"
  by (auto simp: receive_def Let_def split: if_splits)

text \<open>The two kinds of iteration that do not end: one that handles no event, and one that handles one.\<close>

definition idles :: "relay_state \<Rightarrow> relay_state \<Rightarrow> bool" where
  "idles st st' \<longleftrightarrow> (\<exists>d p. st' = st\<lparr>rl_send_done := d, rl_pending := p\<rparr>)"

definition handles :: "relay_env \<Rightarrow> tick \<Rightarrow> relay_state \<Rightarrow> relay_state \<Rightarrow> bool" where
  "handles env tk st st' \<longleftrightarrow> (\<exists>p e. \<not> terminal_event e \<and> st' = event_step env tk e (st\<lparr>rl_pending := p\<rparr>))"

lemma idlesI [simp]: "idles st st" "idles st (st\<lparr>rl_pending := p\<rparr>)" "idles st (st\<lparr>rl_send_done := d, rl_pending := p\<rparr>)"
    "idles st (st\<lparr>rl_send_done := d\<rparr>)"
  unfolding idles_def
  by (rule exI [where x = "rl_send_done st"], rule exI [where x = "rl_pending st"], simp)
    (rule exI [where x = "rl_send_done st"], rule exI [where x = p], simp, blast,
     rule exI [where x = d], rule exI [where x = "rl_pending st"], simp)

lemma handlesI: "\<not> terminal_event e \<Longrightarrow> handles env tk st (event_step env tk e st)"
    "\<not> terminal_event e \<Longrightarrow> handles env tk st (event_step env tk e (st\<lparr>rl_pending := p\<rparr>))"
  unfolding handles_def
  by (rule exI [where x = "rl_pending st"], simp, blast) blast

lemma tick_going:
  assumes "relay_tick env tk st = Going st'"
  shows "idles st st' \<or> handles env tk st st'"
proof -
  have event: "idles st st' \<or> handles env tk st st'" if "receive env tk e s = Going st'"
    "s = st \<or> s = st\<lparr>rl_pending := p\<rparr>" for e s p
    using receive_going [OF that(1)] that(2) handlesI idlesI by metis
  show ?thesis
  proof (cases "\<exists>e p s. receive env tk e s = Going st' \<and> (s = st \<or> s = st\<lparr>rl_pending := p\<rparr>)")
    case True
    then show ?thesis using event by blast
  next
    case False
    then have no: "receive env tk e st \<noteq> Going st'" "receive env tk e (st\<lparr>rl_pending := p\<rparr>) \<noteq> Going st'" for e p
      by blast+
    then have "idles st st'"
      using assms
      by (cases "rl_send_done st"; cases "rl_pending st"; cases "tk_poll tk") (auto simp: relay_tick_def no)
    then show ?thesis ..
  qed
qed

lemma honest_going:
  assumes "honest st" "relay_tick env tk st = Going st'"
  shows "honest st'"
  using tick_going [OF assms(2)]
proof
  assume "idles st st'"
  then show ?thesis using assms(1) by (auto simp: idles_def honest_def)
next
  assume "handles env tk st st'"
  then obtain p e where "\<not> terminal_event e" "st' = event_step env tk e (st\<lparr>rl_pending := p\<rparr>)"
    unfolding handles_def by blast
  with honest_event [of "st\<lparr>rl_pending := p\<rparr>" e env tk] assms(1) show ?thesis by simp
qed

lemma honest_start: "honest (start_relay w)"
  by (simp add: honest_def start_relay_def new_attempt_def)

text \<open>A relay that ends does so by one last iteration from an honest state.\<close>

lemma run_ends:
  "relay_run env tks st = Some (o', st') \<Longrightarrow> honest st \<Longrightarrow>
     \<exists>tk st1. tk \<in> set tks \<and> honest st1 \<and> relay_tick env tk st1 = Ended o' st'"
proof (induction tks arbitrary: st)
  case (Cons tk tks)
  show ?case
  proof (cases "relay_tick env tk st")
    case (Going st1)
    with Cons.prems have "relay_run env tks st1 = Some (o', st')" by simp
    from Cons.IH [OF this honest_going [OF Cons.prems(2) Going]] show ?thesis by force
  next
    case (Ended o1 s1)
    with Cons.prems have "relay_tick env tk st = Ended o' st'" by simp
    with Cons.prems(2) show ?thesis by force
  qed
qed simp

section \<open>How a stream ends\<close>

abbreviation endings :: "relay_state \<Rightarrow> frame list" where
  "endings st \<equiv> filter ends_stream (map fst (rl_frames st))"

lemma honest_endings: "honest st \<Longrightarrow> endings st = []"
  by (auto simp: honest_def filter_empty_conv)

lemma not_ending [simp]:
  "\<not> ends_stream (Fr_Override i t h)" "\<not> ends_stream (Fr_System i r)" "\<not> ends_stream Fr_TurnCompleted"
  by (simp_all add: ends_stream_def)

lemma fold_overrides:
  "endings (fold (\<lambda>x. broadcast (Fr_Override (f x) (g x) (h x))) xs st) = endings st
   \<and> rl_full (fold (\<lambda>x. broadcast (Fr_Override (f x) (g x) (h x))) xs st) = rl_full st"
  by (induction xs arbitrary: st) simp_all

lemma fold_responses: "endings (send_system_responses env rs st) = endings st \<and> rl_full (send_system_responses env rs st) = rl_full st"
  unfolding send_system_responses_def
  by (induction rs arbitrary: st) (simp_all add: mint_msg_id_def Let_def)

lemma finalize_outcome:
  "ro_terminal (fst (finalize env tk e terminal st)) = terminal"
  "endings (snd (finalize env tk e terminal st)) = endings st"
  "rl_full (snd (finalize env tk e terminal st)) = rl_full st"
  "rl_full st = [] \<Longrightarrow> rl_frames (snd (finalize env tk e terminal st)) = rl_frames st"
  by (simp_all add: finalize_def Let_def case_prod_unfold fold_overrides fold_responses split: stream_event.split)

lemma complete_outcome:
  "endings (complete_conversation env tk st) = endings st"
  "filter counted_output (map fst (rl_frames (complete_conversation env tk st))) = filter counted_output (map fst (rl_frames st))"
  "rl_full (complete_conversation env tk st) = rl_full st"
  by (simp_all add: complete_conversation_def counted_output_def)

lemma full_close [simp]: "rl_full (close_segments env tk status st) = rl_full st"
proof -
  have "rl_full (close_active_text_segment env tk status s) = rl_full s" for s
    using front_fields(2) [OF front_persist(2)]
    by (auto simp: close_active_text_segment_def split: option.split prod.split
        dest!: arg_cong [where f = "\<lambda>p. rl_full (snd p)"])
  moreover have "rl_full (complete_active_thinking env tk s) = rl_full s" for s
    by (simp add: complete_active_thinking_def Let_def split: option.split)
  ultimately show ?thesis by (simp add: close_segments_def)
qed

text \<open>The last iteration: the outcome, the one frame that ends the stream, and what an attempt that
  wrote nothing has shown.\<close>

lemma end_stream_facts:
  assumes "end_stream env tk deleting e terminal forwarded attempt st = Ended o' st'"
    and "honest st" "terminal_event e"
  shows "ro_terminal o' = terminal"
    and "ro_attempt o' = (if rl_full st \<noteq> [] then attempt\<lparr>at_persisted := True\<rparr> else attempt)"
    and "endings st' = (if forwarded then [Fr_Event (re_msg env) e] else [])"
    and "rl_full st' = rl_full st"
    and "rl_full st = [] \<Longrightarrow> safe_to_auto_replay (rl_attempt st) \<Longrightarrow> filter counted_output (map fst (rl_frames st')) = []"
proof -
  define st1 where "st1 = (if deleting then st
    else close_segments env tk (case e of Ev_Error _ \<Rightarrow> ''error'' | _ \<Rightarrow> ''finish'') st)"
  define st2 where "st2 = (if forwarded then forward env e st1 else st1)"
  define p where "p = (if deleting then (\<lparr>ro_responses = [], ro_terminal = terminal, ro_attempt = attempt\<rparr>, st2)
    else finalize env tk e terminal st2)"
  define st4 where "st4 = (if re_complete_turn env \<and> \<not> deleting then complete_conversation env tk (snd p) else snd p)"
  have out: "o' = fst p\<lparr>ro_attempt := if rl_full (snd p) \<noteq> [] then attempt\<lparr>at_persisted := True\<rparr> else attempt\<rparr>" "st' = st4"
    using assms(1) [symmetric]
    by (simp_all only: end_stream_def Let_def case_prod_unfold relay_step.inject st1_def st2_def p_def st4_def)
  have st1: "honest st1" "rl_full st1 = rl_full st" "rl_attempt st1 = rl_attempt st"
    using assms(2) by (simp_all add: st1_def honest_close)
  have ends: "ends_stream (Fr_Event i e)" "\<not> counted_output (Fr_Event i e)" for i
    using assms(3) by (auto simp: ends_stream_def counted_output_def terminal_event_def split: stream_event.splits)
  have st2: "rl_full st2 = rl_full st" "endings st2 = (if forwarded then [Fr_Event (re_msg env) e] else [])"
    "filter counted_output (map fst (rl_frames st2)) = filter counted_output (map fst (rl_frames st1))"
    using honest_endings [OF st1(1)] by (simp_all add: st2_def st1(2) ends)
  have p: "ro_terminal (fst p) = terminal" "rl_full (snd p) = rl_full st" "endings (snd p) = endings st2"
    "rl_full st = [] \<Longrightarrow> rl_frames (snd p) = rl_frames st2"
    using st2(1) by (simp_all add: p_def finalize_outcome)
  show "ro_terminal o' = terminal" "ro_attempt o' = (if rl_full st \<noteq> [] then attempt\<lparr>at_persisted := True\<rparr> else attempt)"
    "rl_full st' = rl_full st"
    using out p(1,2) by (simp_all add: st4_def complete_outcome)
  show "endings st' = (if forwarded then [Fr_Event (re_msg env) e] else [])"
    using out p(3) st2(2) by (simp add: st4_def complete_outcome)
  assume quiet: "rl_full st = []" "safe_to_auto_replay (rl_attempt st)"
  then have "filter counted_output (map fst (rl_frames st1)) = []"
    using st1 by (auto simp: honest_def safe_to_auto_replay_def filter_empty_conv)
  then show "filter counted_output (map fst (rl_frames st')) = []"
    using out p(4) [OF quiet(1)] st2(3) by (simp add: st4_def complete_outcome)
qed

lemma receive_ended:
  "receive env tk e st = Ended o' st' \<Longrightarrow>
     terminal_event e \<and> terminal_step env tk (is_deleting (re_conv env) (tk_state tk)) e st = Ended o' st'"
  by (simp add: receive_def Let_def split: if_splits)

lemma tick_ended:
  assumes "relay_tick env tk st = Ended o' st'"
  shows "closed_step env tk st = Ended o' st'
    \<or> (\<exists>e p. terminal_event e
        \<and> terminal_step env tk (is_deleting (re_conv env) (tk_state tk)) e (st\<lparr>rl_pending := p\<rparr>) = Ended o' st')"
proof -
  have same: "st\<lparr>rl_pending := rl_pending st\<rparr> = st" by simp
  have "closed_step env tk st = Ended o' st' \<or> (\<exists>e p. receive env tk e (st\<lparr>rl_pending := p\<rparr>) = Ended o' st')"
  proof (rule ccontr)
    assume none: "\<not> ?thesis"
    then have no: "closed_step env tk st \<noteq> Ended o' st'" "receive env tk e (st\<lparr>rl_pending := p\<rparr>) \<noteq> Ended o' st'" for e p
      by blast+
    from no(2) [of _ "rl_pending st"] have no': "receive env tk e st \<noteq> Ended o' st'" for e by (simp add: same)
    show False
      using assms
      by (cases "rl_send_done st"; cases "rl_pending st"; cases "tk_poll tk") (simp_all add: relay_tick_def no no')
  qed
  then show ?thesis using receive_ended by blast
qed

text \<open>The four facts an ended relay leaves.\<close>

definition fair_end :: "relay_env \<Rightarrow> relay_outcome \<Rightarrow> relay_state \<Rightarrow> bool" where
  "fair_end env o' st' \<longleftrightarrow>
     (safe_to_auto_replay (ro_attempt o') \<longrightarrow> filter counted_output (map fst (rl_frames st')) = [] \<and> rl_full st' = [])
     \<and> (\<not> is_error (ro_terminal o') \<longrightarrow> at_error (ro_attempt o') = None \<and> \<not> at_deferred (ro_attempt o'))
     \<and> (is_error (ro_terminal o') \<longrightarrow>
          (\<exists>d. at_error (ro_attempt o') = Some d \<and> ro_terminal o' = Term_Error (ed_code d) (ed_retryable d)
             \<and> (if at_deferred (ro_attempt o')
                then endings st' = [] \<and> re_defer env \<and> ed_retryable d = Some True
                     \<and> ed_code d \<noteq> Some UserLlmProviderModelNotFound \<and> safe_to_auto_replay (ro_attempt o')
                     \<and> ro_responses o' = []
                else endings st' = [Fr_Event (re_msg env) (Ev_Error d)])))"

lemma fair_closed:
  assumes "closed_step env tk st = Ended o' st'" "honest st"
  shows "fair_end env o' st'"
proof -
  have "terminal_event (Ev_Finish [])" by (simp add: terminal_event_def)
  note facts = end_stream_facts [OF assms(1) [unfolded closed_step_def] assms(2) this]
  have "safe_to_auto_replay (ro_attempt o') \<Longrightarrow> rl_full st = [] \<and> safe_to_auto_replay (rl_attempt st)"
    by (auto simp: facts(2) safe_to_auto_replay_def split: if_splits)
  with facts(4,5) have "safe_to_auto_replay (ro_attempt o') \<longrightarrow>
      filter counted_output (map fst (rl_frames st')) = [] \<and> rl_full st' = []" by simp
  moreover have "at_error (ro_attempt o') = None" "\<not> at_deferred (ro_attempt o')"
    using assms(2) by (simp_all add: facts(2) honest_def)
  ultimately show ?thesis by (simp add: fair_end_def is_error_def facts(1))
qed

lemma fair_terminal:
  assumes "terminal_step env tk deleting e st = Ended o' st'" "honest st" "terminal_event e"
  shows "fair_end env o' st'"
proof (cases "defer_clean_error env (terminal_from_event e) st")
  case True
  then obtain d where d: "e = Ev_Error d" using assms(3)
    by (auto simp: defer_clean_error_def is_error_def terminal_from_event_def split: relay_terminal.splits stream_event.splits)
  from assms(1) True have out: "o' = \<lparr>ro_responses = [], ro_terminal = terminal_from_event e,
      ro_attempt = rl_attempt st\<lparr>at_error := Some d, at_deferred := True\<rparr>\<rparr>" "st' = st"
    by (auto simp: terminal_step_def Let_def d)
  from True assms(2) have "safe_to_auto_replay (rl_attempt st)" "filter counted_output (map fst (rl_frames st)) = []" "rl_full st = []"
    by (auto simp: defer_clean_error_def honest_def safe_to_auto_replay_def filter_empty_conv)
  with True honest_endings [OF assms(2)] show ?thesis
    by (simp add: fair_end_def out d terminal_from_event_def defer_clean_error_def is_error_def terminal_retryable_def
        terminal_code_def safe_to_auto_replay_def)
next
  case False
  let ?a = "case e of Ev_Error d \<Rightarrow> rl_attempt st\<lparr>at_error := Some d\<rparr> | _ \<Rightarrow> rl_attempt st"
  from assms(1) False have "end_stream env tk deleting e (terminal_from_event e) True ?a st = Ended o' st'"
    by (simp add: terminal_step_def Let_def)
  note facts = end_stream_facts [OF this assms(2,3)]
  have "safe_to_auto_replay (ro_attempt o') \<Longrightarrow> rl_full st = [] \<and> safe_to_auto_replay (rl_attempt st)"
    by (auto simp: facts(2) safe_to_auto_replay_def split: if_splits stream_event.splits)
  with facts(4,5) have shown: "safe_to_auto_replay (ro_attempt o') \<longrightarrow>
      filter counted_output (map fst (rl_frames st')) = [] \<and> rl_full st' = []" by simp
  have "at_error (ro_attempt o') = (case e of Ev_Error d \<Rightarrow> Some d | _ \<Rightarrow> None)" "\<not> at_deferred (ro_attempt o')"
    using assms(2) by (auto simp: facts(2) honest_def split: stream_event.split)
  with shown facts(1,3) assms(3) show ?thesis
    by (cases e) (simp_all add: fair_end_def is_error_def terminal_from_event_def terminal_event_def)
qed

lemma consume_fair: "consume env tks w = Some (o', st') \<Longrightarrow> fair_end env o' st'"
proof -
  assume "consume env tks w = Some (o', st')"
  from run_ends [OF this [unfolded consume_def] honest_start]
  obtain tk st where "honest st" "relay_tick env tk st = Ended o' st'" by blast
  with tick_ended fair_closed fair_terminal honest_other_fields(6) show ?thesis by metis
qed

text \<open>When the relay's summary says an attempt is safe to replay, it streamed no text, and no text, thought content,
  notice of success, tool call of the agent's, permission request or question of it was broadcast.\<close>
theorem clean_attempt_counted_nothing:
  assumes "consume env tks w = Some (o', st')" and "safe_to_auto_replay (ro_attempt o')"
  shows "(\<forall>f \<in> fst ` set (rl_frames st'). \<not> counted_output f) \<and> rl_full st' = []"
  using consume_fair [OF assms(1)] assms(2) by (auto simp: fair_end_def filter_empty_conv)

text \<open>C22: No error is swallowed. A relay that ends in an error either broadcast that very error, once and as the
  only end of the stream, or handed it back unshown; and it hands back only what it was asked to keep, an
  error marked retryable, not a missing model, of an attempt that is safe to replay. A relay that ends
  otherwise carries no error.\<close>
theorem errors_are_shown_or_deferred:
  assumes "consume env tks w = Some (o', st')"
  shows "case at_error (ro_attempt o') of
      None \<Rightarrow> \<not> is_error (ro_terminal o')
    | Some d \<Rightarrow> ro_terminal o' = Term_Error (ed_code d) (ed_retryable d)
        \<and> (if at_deferred (ro_attempt o')
           then filter ends_stream (map fst (rl_frames st')) = [] \<and> re_defer env \<and> ed_retryable d = Some True
                \<and> ed_code d \<noteq> Some UserLlmProviderModelNotFound \<and> safe_to_auto_replay (ro_attempt o')
           else filter ends_stream (map fst (rl_frames st')) = [Fr_Event (re_msg env) (Ev_Error d)])"
  using consume_fair [OF assms] by (auto simp: fair_end_def split: option.split)

text \<open>The frames that are not counted, one by one.\<close>

fun uncounted :: "frame \<Rightarrow> bool" where
  "uncounted (Fr_Event _ e) = (case e of
     Ev_Text c \<Rightarrow> c = []
   | Ev_Thinking d \<Rightarrow> th_content d = []
   | Ev_Tips t \<Rightarrow> tip_kind t \<noteq> Tip_Success
   | Ev_Start _ \<Rightarrow> True | Ev_AgentStatus _ \<Rightarrow> True | Ev_Plan _ \<Rightarrow> True | Ev_SkillSuggest _ \<Rightarrow> True
   | Ev_AcpModelInfo _ \<Rightarrow> True | Ev_AcpModeInfo _ \<Rightarrow> True | Ev_AcpConfigOption _ \<Rightarrow> True
   | Ev_AcpSessionInfo _ \<Rightarrow> True | Ev_AcpContextUsage _ \<Rightarrow> True | Ev_AcpTerminalOutput _ \<Rightarrow> True
   | Ev_AcpPromptHookWarning _ \<Rightarrow> True | Ev_SlashCommandsUpdated _ \<Rightarrow> True | Ev_AvailableCommands _ \<Rightarrow> True
   | Ev_System _ \<Rightarrow> True | Ev_RequestTrace _ \<Rightarrow> True | Ev_SessionAssigned _ \<Rightarrow> True | Ev_SegmentBreak \<Rightarrow> True
   | Ev_BackendTurnBound _ \<Rightarrow> True | Ev_WorkflowProgress _ _ _ \<Rightarrow> True | Ev_MessageLifecycle _ \<Rightarrow> True
   | Ev_AcpDialectSignal _ \<Rightarrow> True
   | Ev_Finish _ \<Rightarrow> True | Ev_Error _ \<Rightarrow> True
   | _ \<Rightarrow> False)"
| "uncounted (Fr_ToolCard _) = True"
| "uncounted (Fr_ToolGroup _) = True"
| "uncounted Fr_TurnCompleted = True"
| "uncounted _ = False"

lemma uncounted_iff: "uncounted f \<longleftrightarrow> \<not> counted_output f"
  by (cases f) (auto simp: counted_output_def split: stream_event.split)

section \<open>Deletion\<close>

lemma deleting_tick:
  assumes "is_deleting (re_conv env) (tk_state tk)"
  shows "case relay_tick env tk st of
      Going st' \<Rightarrow> rl_rows st' = rl_rows st \<and> rl_frames st' = rl_frames st
    | Ended o' st' \<Rightarrow> rl_rows st' = rl_rows st \<and> ro_responses o' = []
        \<and> (\<forall>f \<in> set (drop (length (rl_frames st)) (rl_frames st')). ends_stream (fst f))"
proof -
  let ?good = "\<lambda>r. case r of
      Going st' \<Rightarrow> rl_rows st' = rl_rows st \<and> rl_frames st' = rl_frames st
    | Ended o' st' \<Rightarrow> rl_rows st' = rl_rows st \<and> ro_responses o' = []
        \<and> (\<forall>f \<in> set (drop (length (rl_frames st)) (rl_frames st')). ends_stream (fst f))"
  have end': "?good (end_stream env tk True e terminal b a s)"
    if "terminal_event e" "rl_rows s = rl_rows st" "rl_frames s = rl_frames st" for e terminal b a s
    using that by (simp add: end_stream_def Let_def ends_stream_def)
  have rec: "?good (receive env tk e s)" if "rl_rows s = rl_rows st" "rl_frames s = rl_frames st" for e s
    using that end' [of e s "terminal_from_event e" True]
    by (simp add: receive_def assms terminal_step_def Let_def)
  have closed: "?good (closed_step env tk st)"
    using end' [of "Ev_Finish []" st] by (simp add: closed_step_def assms terminal_event_def)
  show ?thesis
    by (cases "rl_send_done st"; cases "rl_pending st"; cases "tk_poll tk") (simp_all add: relay_tick_def rec closed)
qed

text \<open>A deleted conversation is not written back. While a conversation is marked as being deleted its
  relay writes no row and broadcasts nothing but the end of its stream, and produces no responses that would
  carry the turn on.\<close>
theorem deletion_stops_the_relay:
  assumes "\<forall>tk \<in> set tks. is_deleting (re_conv env) (tk_state tk)"
    and "relay_run env tks st = Some (o', st')"
  shows "rl_rows st' = rl_rows st \<and> ro_responses o' = []
    \<and> (\<forall>f \<in> set (drop (length (rl_frames st)) (rl_frames st')). ends_stream (fst f))"
  using assms
proof (induction tks arbitrary: st)
  case (Cons tk tks)
  have del: "is_deleting (re_conv env) (tk_state tk)" using Cons.prems(1) by simp
  show ?case
  proof (cases "relay_tick env tk st")
    case (Going st1)
    with deleting_tick [OF del, of st] have "rl_rows st1 = rl_rows st" "rl_frames st1 = rl_frames st" by simp_all
    moreover have "relay_run env tks st1 = Some (o', st')" using Going Cons.prems(2) by simp
    ultimately show ?thesis using Cons.IH [of st1] Cons.prems(1) by simp
  next
    case (Ended o1 s1)
    with deleting_tick [OF del, of st] Cons.prems(2) show ?thesis by simp
  qed
qed simp

section \<open>Failed sends\<close>

lemma receive_terminal: "terminal_event e \<Longrightarrow> \<exists>o' st'. receive env tk e st = Ended o' st'"
proof -
  assume "terminal_event e"
  then have "receive env tk e st = terminal_step env tk (is_deleting (re_conv env) (tk_state tk)) e st"
    by (simp add: receive_def Let_def)
  then show ?thesis
    using steps_end(1) [of env tk "is_deleting (re_conv env) (tk_state tk)" e st]
    by (cases "terminal_step env tk (is_deleting (re_conv env) (tk_state tk)) e st") auto
qed

lemma receive_error_terminal:
  assumes "receive env tk (Ev_Error d) st = Ended o' st'"
  shows "ro_terminal o' = Term_Error (ed_code d) (ed_retryable d)"
proof -
  let ?del = "is_deleting (re_conv env) (tk_state tk)"
  have step: "terminal_step env tk ?del (Ev_Error d) st = Ended o' st'"
    using receive_ended [OF assms] by simp
  have out: "ro_terminal r = terminal"
    if "end_stream env tk ?del e terminal b a s = Ended r s'" for e terminal b a s r s'
    using that [symmetric] by (simp add: end_stream_def Let_def case_prod_unfold finalize_outcome(1))
  show ?thesis
  proof (cases "defer_clean_error env (terminal_from_event (Ev_Error d)) st")
    case True
    with step show ?thesis by (auto simp: terminal_step_def Let_def terminal_from_event_def)
  next
    case False
    with step out show ?thesis by (fastforce simp: terminal_step_def Let_def terminal_from_event_def)
  qed
qed

text \<open>Handling an event leaves alone what the loop knows of the sending task.\<close>

definition sender :: "relay_state \<Rightarrow> bool \<times> error_data option" where
  "sender st = (rl_send_done st, rl_pending st)"

lemma sender_fields [simp]:
  "sender (broadcast f st) = sender st" "sender (st\<lparr>rl_text := a\<rparr>) = sender st" "sender (st\<lparr>rl_thinking := b\<rparr>) = sender st"
  "sender (st\<lparr>rl_segments := c\<rparr>) = sender st" "sender (st\<lparr>rl_full := d\<rparr>) = sender st" "sender (st\<lparr>rl_tips := e\<rparr>) = sender st"
  "sender (st\<lparr>rl_anchor := g\<rparr>) = sender st" "sender (st\<lparr>rl_attempt := h\<rparr>) = sender st"
  "sender (forward env ev st) = sender st" "sender (saw_tool st) = sender st" "sender (saw_visible v st) = sender st"
  by (simp_all add: sender_def forward_def saw_tool_def saw_visible_def)

lemma sender_front: "front st = front st' \<Longrightarrow> sender st = sender st'"
  using front_fields(10,11) [of st st'] by (simp add: sender_def)

lemmas sender_writes [simp] = front_table [THEN sender_front] front_persist [THEN sender_front]

lemma sender_segments [simp]:
  "sender (snd (mint_segment_msg_id env st)) = sender st" "sender (snd (text_segment_for env tk st)) = sender st"
  "sender (snd (thinking_segment_for env tk st)) = sender st" "sender (complete_active_thinking env tk st) = sender st"
proof -
  show mint: "sender (snd (mint_segment_msg_id env st)) = sender st" for st
    by (simp add: mint_segment_msg_id_def) (simp add: sender_def)
  show "sender (snd (text_segment_for env tk st)) = sender st" "sender (snd (thinking_segment_for env tk st)) = sender st"
    by (simp_all add: text_segment_for_def thinking_segment_for_def Let_def case_prod_unfold mint split: option.split)
  show "sender (complete_active_thinking env tk st) = sender st"
    by (simp add: complete_active_thinking_def Let_def split: option.split)
qed

lemma sender_close_text [simp]: "sender (close_active_text_segment env tk status st) = sender st"
proof (cases "rl_text st")
  case (Some seg)
  have "sender (snd (finalize_text_segment env tk seg status (st\<lparr>rl_text := None\<rparr>))) = sender st" by simp
  with Some show ?thesis
    by (cases "finalize_text_segment env tk seg status (st\<lparr>rl_text := None\<rparr>)")
      (simp add: close_active_text_segment_def split: option.split)
qed (simp add: close_active_text_segment_def)

lemma sender_event: "sender (event_step env tk e st) = sender st"
proof (cases e)
  case (Ev_WorkflowProgress tool agents settle_only)
  obtain b s where out: "settle_tool_call_if_present env tk tool st = (b, s)" by fastforce
  with sender_writes(16) [of env tk tool st] have "sender s = sender st" by simp
  moreover have "sender (forward_workflow_progress tool as s') = sender s'" for s' as
    by (simp add: forward_workflow_progress_def Let_def)
  ultimately show ?thesis
    by (cases settle_only; cases b) (simp_all add: Ev_WorkflowProgress out Let_def)
qed (simp_all add: close_segments_def text_event_def thinking_event_def tips_event_def Let_def case_prod_unfold)

lemma pending_keeps:
  assumes "rl_send_done st" "rl_pending st = Some d" "tk_poll tk = Got e" "\<not> terminal_event e"
  shows "\<exists>st'. relay_tick env tk st = Going st' \<and> rl_send_done st' \<and> rl_pending st' = Some d"
  using assms sender_event [of env tk e "st\<lparr>rl_pending := Some d\<rparr>"]
  by (simp add: relay_tick_def receive_def Let_def sender_def)

lemma pending_ends:
  "rl_send_done st \<Longrightarrow> rl_pending st = Some d \<Longrightarrow> list_all (\<lambda>tk. \<exists>e. tk_poll tk = Got e) gots \<Longrightarrow>
     tk_poll tk \<in> {Got_Empty, Got_Closed} \<Longrightarrow>
     \<exists>o' st'. relay_run env (gots @ tk # rest) st = Some (o', st')
       \<and> ((\<exists>got \<in> set gots. \<exists>e. tk_poll got = Got e \<and> terminal_event e)
          \<or> ro_terminal o' = Term_Error (ed_code d) (ed_retryable d))"
proof (induction gots arbitrary: st)
  case Nil
  have err: "terminal_event (Ev_Error d)" by (simp add: terminal_event_def)
  obtain o' st' where out: "receive env tk (Ev_Error d) (st\<lparr>rl_pending := None\<rparr>) = Ended o' st'"
    using receive_terminal [OF err] by blast
  have "relay_tick env tk st = Ended o' st'" using Nil out by (auto simp: relay_tick_def)
  with receive_error_terminal [OF out] show ?case by simp
next
  case (Cons got gots)
  then obtain e where e: "tk_poll got = Got e" by auto
  show ?case
  proof (cases "terminal_event e")
    case True
    obtain o' st' where "receive env got e (st\<lparr>rl_pending := None\<rparr>) = Ended o' st'"
      using receive_terminal [OF True] by blast
    then have "relay_tick env got st = Ended o' st'" using Cons.prems(1,2) e True by (simp add: relay_tick_def)
    then show ?thesis using e True by simp
  next
    case False
    from pending_keeps [OF Cons.prems(1,2) e this] obtain st1 where
      st1: "relay_tick env got st = Going st1" "rl_send_done st1" "rl_pending st1 = Some d" by blast
    from Cons.IH [OF st1(2,3)] Cons.prems(3,4) st1(1) show ?thesis by fastforce
  qed
qed

text \<open>A failed send ends the turn. When the task that sent the prompt reports a failure, the relay returns
  as soon as it finds the event channel empty or closed, after handling whatever the agent had still emitted,
  and its outcome is that failure unless the agent's own end of the stream came first. The channel must
  not have overflowed in between (\<open>lagged_loses_send_error\<close>).\<close>
theorem failed_send_ends_relay:
  assumes "\<not> rl_send_done st" and "tk_poll failed = Send_Failed d"
    and "list_all (\<lambda>tk. \<exists>e. tk_poll tk = Got e) gots" and "tk_poll tk \<in> {Got_Empty, Got_Closed}"
  shows "\<exists>o' st'. relay_run env (failed # gots @ tk # rest) st = Some (o', st')
     \<and> ((\<exists>got \<in> set gots. \<exists>e. tk_poll got = Got e \<and> terminal_event e)
        \<or> ro_terminal o' = Term_Error (ed_code d) (ed_retryable d))"
  using pending_ends [of "st\<lparr>rl_send_done := True, rl_pending := Some d\<rparr>" d gots tk env rest] assms
  by (simp add: relay_tick_def)

text \<open>The exception: when the channel has overflowed by the time the relay looks for a terminal event, the
  pending failure has been taken out of its slot and is not put back. Nothing then ends the relay but
  another end of the stream.\<close>

lemma silent_run:
  "rl_send_done st \<Longrightarrow> rl_pending st = None \<Longrightarrow>
     list_all (\<lambda>tk. tk_poll tk \<noteq> Got_Closed \<and> (\<forall>e. tk_poll tk = Got e \<longrightarrow> \<not> terminal_event e)) tks
     \<Longrightarrow> relay_run env tks st = None"
proof (induction tks arbitrary: st)
  case (Cons tk tks)
  have "\<exists>st'. relay_tick env tk st = Going st' \<and> sender st' = sender st"
    using Cons.prems sender_event
    by (cases "tk_poll tk") (auto simp: relay_tick_def receive_def Let_def)
  then obtain st' where st': "relay_tick env tk st = Going st'" "rl_send_done st'" "rl_pending st' = None"
    using Cons.prems(1,2) by (auto simp: sender_def)
  with Cons.IH [OF st'(2,3)] Cons.prems(3) show ?case by simp
qed simp

lemma lagged_loses_send_error:
  assumes "\<not> rl_send_done st" "tk_poll failed = Send_Failed d" "tk_poll lagged = Got_Lagged n"
    and "list_all (\<lambda>tk. tk_poll tk \<noteq> Got_Closed \<and> (\<forall>e. tk_poll tk = Got e \<longrightarrow> \<not> terminal_event e)) tks"
  shows "relay_run env (failed # lagged # tks) st = None"
  using silent_run [of "st\<lparr>rl_send_done := True, rl_pending := None\<rparr>"] assms by (simp add: relay_tick_def)

section \<open>A concrete relay\<close>

text \<open>A relay asked to keep a clean error back, over an empty table, whose agent reports a retryable
  failure as the first thing.\<close>

definition sample_env :: relay_env where
  "sample_env = \<lparr>re_conv = ''c'', re_msg = ''m'', re_turn = ''t'', re_complete_turn = True, re_defer = True,
     re_process = (\<lambda>t. (t, [])), re_mint = (\<lambda>n. replicate (Suc n) CHR ''x''), re_fault = (\<lambda>_. False)\<rparr>"

definition sample_error :: error_data where
  "sample_error = \<lparr>ed_message = ''down'', ed_code = Some UserAgentDisconnected, ed_ownership = None,
     ed_detail = None, ed_retryable = Some True\<rparr>"

definition sample_world :: relay_world where
  "sample_world = \<lparr>wo_rows = [], wo_tips = Map.empty, wo_minted = 0, wo_db_calls = 0\<rparr>"

definition sample_tick :: "runtime_state \<Rightarrow> poll \<Rightarrow> tick" where
  "sample_tick s p = \<lparr>tk_state = s, tk_now = 0, tk_poll = p\<rparr>"

definition sample_end :: relay_outcome where
  "sample_end = \<lparr>ro_responses = [], ro_terminal = Term_Error (Some UserAgentDisconnected) (Some True),
     ro_attempt = new_attempt\<lparr>at_error := Some sample_error, at_deferred := True\<rparr>\<rparr>"

lemmas sample_defs = sample_env_def sample_error_def sample_world_def sample_tick_def sample_end_def

lemma sample_run:
  "consume sample_env [sample_tick new_runtime (Got (Ev_Error sample_error))] sample_world
     = Some (sample_end, start_relay sample_world)"
  by (simp add: sample_defs consume_def relay_tick_def receive_def Let_def terminal_event_def terminal_step_def
      start_relay_def defer_clean_error_def is_error_def terminal_from_event_def terminal_retryable_def
      terminal_code_def safe_to_auto_replay_def new_attempt_def)

lemma errors_are_shown_or_deferred_witness:
  "ro_terminal sample_end = Term_Error (ed_code sample_error) (ed_retryable sample_error) \<and> re_defer sample_env"
proof -
  have "at_error (ro_attempt sample_end) = Some sample_error" "at_deferred (ro_attempt sample_end) = True"
    by (simp_all add: sample_end_def)
  note end' = errors_are_shown_or_deferred [OF sample_run, unfolded this option.case if_True]
  show ?thesis by (intro conjI conjunct1 [OF end'] conjunct1 [OF conjunct2 [OF conjunct2 [OF end']]])
qed

text \<open>The same while the conversation is being deleted, with a piece of text that arrived before.\<close>

definition deleting_run :: "tick list" where
  "deleting_run = (let s = snd (mark_deleting ''c'' new_runtime)
     in [sample_tick s (Got (Ev_Text ''hi'')), sample_tick s (Got (Ev_Finish []))])"

end
