(* ===== verification/Relay_Text.thy ===== *)
theory Relay_Text
  imports Relay_Laws
begin

text \<open>
  The text of a turn, live and stored: when the repository works and the conversation is active, the text
  streamed to the user interface under an identifier is exactly the text of the visible row the
  table ends with under that identifier.
\<close>

section \<open>What was streamed and what is stored\<close>

definition text_of_frame :: "string \<Rightarrow> frame \<Rightarrow> string" where
  "text_of_frame i f = (case f of Fr_Event j (Ev_Text c) \<Rightarrow> (if j = i then c else []) | _ \<Rightarrow> [])"

definition streamed :: "relay_state \<Rightarrow> string \<Rightarrow> string" where
  "streamed st i = concat (map (\<lambda>f. text_of_frame i (fst f)) (rl_frames st))"

definition text_row_at :: "relay_state \<Rightarrow> string \<Rightarrow> bool" where
  "text_row_at st i \<longleftrightarrow> (\<exists>row. map_of (rl_rows st) i = Some row \<and> mw_type row = ''text'' \<and> \<not> mw_hidden row)"

definition stores :: "relay_state \<Rightarrow> string \<Rightarrow> string \<Rightarrow> bool" where
  "stores st i text \<longleftrightarrow> (\<exists>row. map_of (rl_rows st) i = Some row \<and> mw_type row = ''text'' \<and> \<not> mw_hidden row
     \<and> mw_body row = Body_Text text)"

definition own_ids :: "relay_env \<Rightarrow> string set" where
  "own_ids env = insert (re_msg env) (range (re_mint env))"

text \<open>The environment of the theorem: the repository works, and minted identifiers are unique and
  collide with nothing else.\<close>

definition healthy :: "relay_env \<Rightarrow> bool" where
  "healthy env \<longleftrightarrow> (\<forall>n. \<not> re_fault env n) \<and> inj (re_mint env) \<and> re_msg env \<notin> range (re_mint env)
     \<and> ''plan:'' @ re_msg env \<notin> range (re_mint env)"

definition foreign_calls :: "relay_env \<Rightarrow> stream_event \<Rightarrow> bool" where
  "foreign_calls env e = (case e of
     Ev_ToolCall d \<Rightarrow> tcd_call d \<notin> own_ids env
   | Ev_AcpToolCall d \<Rightarrow> atc_call d \<notin> own_ids env
   | Ev_ToolGroup es \<Rightarrow> ge_call ` set es \<inter> own_ids env = {}
   | Ev_WorkflowProgress d es _ \<Rightarrow> tcd_call d \<notin> own_ids env \<and> ge_call ` set es \<inter> own_ids env = {}
   | _ \<Rightarrow> True)"

text \<open>An identifier the relay may still take.\<close>

definition free_id :: "relay_env \<Rightarrow> relay_state \<Rightarrow> string \<Rightarrow> bool" where
  "free_id env st i \<longleftrightarrow> i = re_msg env \<and> \<not> rl_used_primary st \<or> (\<exists>n \<ge> rl_minted st. i = re_mint env n)"

definition in_step :: "relay_env \<Rightarrow> relay_state \<Rightarrow> bool" where
  "in_step env st \<longleftrightarrow>
     (\<forall>i. free_id env st i \<longrightarrow> map_of (rl_rows st) i = None \<and> streamed st i = [])
   \<and> (\<forall>i \<in> set (rl_segments st). i \<in> own_ids env \<and> \<not> free_id env st i \<and> stores st i (streamed st i))
   \<and> (\<forall>i. streamed st i \<noteq> [] \<longrightarrow> i \<in> set (rl_segments st) \<or> (\<exists>seg. rl_text st = Some seg \<and> ts_id seg = i))
   \<and> (\<forall>seg. rl_text st = Some seg \<longrightarrow> rl_thinking st = None \<and> ts_id seg \<in> own_ids env \<and> \<not> free_id env st (ts_id seg)
        \<and> ts_id seg \<notin> set (rl_segments st) \<and> streamed st (ts_id seg) = ts_buffer seg
        \<and> (if ts_record seg then text_row_at st (ts_id seg) else map_of (rl_rows st) (ts_id seg) = None))
   \<and> (\<forall>seg. rl_thinking st = Some seg \<longrightarrow> tk_id seg \<in> own_ids env \<and> \<not> free_id env st (tk_id seg)
        \<and> tk_id seg \<notin> set (rl_segments st) \<and> map_of (rl_rows st) (tk_id seg) = None \<and> streamed st (tk_id seg) = [])"

lemma in_stepD:
  assumes "in_step env st"
  shows "free_id env st i \<Longrightarrow> map_of (rl_rows st) i = None" "free_id env st i \<Longrightarrow> streamed st i = []"
    and "i \<in> set (rl_segments st) \<Longrightarrow> i \<in> own_ids env \<and> \<not> free_id env st i \<and> stores st i (streamed st i)"
    and "streamed st i \<noteq> [] \<Longrightarrow> i \<in> set (rl_segments st) \<or> (\<exists>seg. rl_text st = Some seg \<and> ts_id seg = i)"
    and "rl_text st = Some seg \<Longrightarrow> rl_thinking st = None \<and> ts_id seg \<in> own_ids env \<and> \<not> free_id env st (ts_id seg)
        \<and> ts_id seg \<notin> set (rl_segments st) \<and> streamed st (ts_id seg) = ts_buffer seg
        \<and> (if ts_record seg then text_row_at st (ts_id seg) else map_of (rl_rows st) (ts_id seg) = None)"
    and "rl_thinking st = Some tseg \<Longrightarrow> tk_id tseg \<in> own_ids env \<and> \<not> free_id env st (tk_id tseg)
        \<and> tk_id tseg \<notin> set (rl_segments st) \<and> map_of (rl_rows st) (tk_id tseg) = None \<and> streamed st (tk_id tseg) = []"
proof -
  note parts = assms [unfolded in_step_def]
  note free = parts [THEN conjunct1, rule_format] and segments = parts [THEN conjunct2, THEN conjunct1, rule_format]
    and others = parts [THEN conjunct2, THEN conjunct2, THEN conjunct1, rule_format]
    and active = parts [THEN conjunct2, THEN conjunct2, THEN conjunct2, THEN conjunct1, rule_format]
    and thinking = parts [THEN conjunct2, THEN conjunct2, THEN conjunct2, THEN conjunct2, rule_format]
  show "free_id env st i \<Longrightarrow> map_of (rl_rows st) i = None" "free_id env st i \<Longrightarrow> streamed st i = []"
    by (rule free [THEN conjunct1], assumption) (rule free [THEN conjunct2], assumption)
  show "i \<in> set (rl_segments st) \<Longrightarrow> i \<in> own_ids env \<and> \<not> free_id env st i \<and> stores st i (streamed st i)"
    by (rule segments)
  show "streamed st i \<noteq> [] \<Longrightarrow> i \<in> set (rl_segments st) \<or> (\<exists>seg. rl_text st = Some seg \<and> ts_id seg = i)"
    by (rule others)
  show "rl_text st = Some seg \<Longrightarrow> rl_thinking st = None \<and> ts_id seg \<in> own_ids env \<and> \<not> free_id env st (ts_id seg)
        \<and> ts_id seg \<notin> set (rl_segments st) \<and> streamed st (ts_id seg) = ts_buffer seg
        \<and> (if ts_record seg then text_row_at st (ts_id seg) else map_of (rl_rows st) (ts_id seg) = None)"
    by (rule active)
  show "rl_thinking st = Some tseg \<Longrightarrow> tk_id tseg \<in> own_ids env \<and> \<not> free_id env st (tk_id tseg)
        \<and> tk_id tseg \<notin> set (rl_segments st) \<and> map_of (rl_rows st) (tk_id tseg) = None \<and> streamed st (tk_id tseg) = []"
    by (rule thinking)
qed

section \<open>Operations that leave the text alone\<close>

text \<open>A change of the table outside the relay's own identifiers, or at one just taken.\<close>

definition outside :: "relay_env \<Rightarrow> relay_state \<Rightarrow> relay_state \<Rightarrow> bool" where
  "outside env st st' \<longleftrightarrow> rl_used_primary st' = rl_used_primary st \<and> rl_minted st \<le> rl_minted st'
     \<and> rl_text st' = rl_text st \<and> rl_thinking st' = rl_thinking st \<and> rl_segments st' = rl_segments st
     \<and> streamed st' = streamed st
     \<and> (\<forall>i \<in> own_ids env. map_of (rl_rows st') i = map_of (rl_rows st) i \<or> (free_id env st i \<and> \<not> free_id env st' i))"

lemma outsideI:
  assumes "rl_used_primary st' = rl_used_primary st" "rl_minted st \<le> rl_minted st'"
    "rl_text st' = rl_text st" "rl_thinking st' = rl_thinking st" "rl_segments st' = rl_segments st"
    "streamed st' = streamed st"
    "\<And>i. i \<in> own_ids env \<Longrightarrow> map_of (rl_rows st') i = map_of (rl_rows st) i \<or> (free_id env st i \<and> \<not> free_id env st' i)"
  shows "outside env st st'"
  using assms by (simp add: outside_def)

lemma free_own: "free_id env st i \<Longrightarrow> i \<in> own_ids env"
  by (auto simp: free_id_def own_ids_def)

lemma outside_free: "outside env st st' \<Longrightarrow> free_id env st' i \<Longrightarrow> free_id env st i"
  unfolding outside_def free_id_def by (metis order_trans)

lemma in_step_outside:
  assumes "in_step env st" "outside env st st'"
  shows "in_step env st'"
proof -
  note same = assms(2) [unfolded outside_def]
  note free = outside_free [OF assms(2)]
  have rows: "map_of (rl_rows st') i = map_of (rl_rows st) i" if "i \<in> own_ids env" "\<not> free_id env st i \<or> free_id env st' i" for i
    using same that by blast
  have str: "streamed st' i = streamed st i" for i using same by simp
  have fields: "rl_text st' = rl_text st" "rl_thinking st' = rl_thinking st" "rl_segments st' = rl_segments st" using same by auto
  show ?thesis unfolding in_step_def fields str
  proof (intro conjI allI ballI impI)
    fix i assume i: "free_id env st' i"
    show "map_of (rl_rows st') i = None" "streamed st i = []"
      using rows [OF free_own [OF i]] i in_stepD(1,2) [OF assms(1) free [OF i]] by auto
  next
    fix i assume i: "i \<in> set (rl_segments st)"
    from in_stepD(3) [OF assms(1) this] rows [of i] free [of i]
    show "i \<in> own_ids env" "\<not> free_id env st' i" "stores st' i (streamed st i)" by (auto simp: stores_def)
  next
    fix i assume "streamed st i \<noteq> []"
    then show "i \<in> set (rl_segments st) \<or> (\<exists>seg. rl_text st = Some seg \<and> ts_id seg = i)" by (rule in_stepD(4) [OF assms(1)])
  next
    fix seg assume seg: "rl_text st = Some seg"
    note old = in_stepD(5) [OF assms(1) seg]
    show "rl_thinking st = None" "ts_id seg \<in> own_ids env" "\<not> free_id env st' (ts_id seg)" "ts_id seg \<notin> set (rl_segments st)"
      "streamed st (ts_id seg) = ts_buffer seg"
      "if ts_record seg then text_row_at st' (ts_id seg) else map_of (rl_rows st') (ts_id seg) = None"
      using old rows [of "ts_id seg"] free [of "ts_id seg"] by (auto simp: text_row_at_def)
  next
    fix seg assume seg: "rl_thinking st = Some seg"
    note old = in_stepD(6) [OF assms(1) seg]
    show "tk_id seg \<in> own_ids env" "\<not> free_id env st' (tk_id seg)" "tk_id seg \<notin> set (rl_segments st)"
      "map_of (rl_rows st') (tk_id seg) = None" "streamed st (tk_id seg) = []"
      using old rows [of "tk_id seg"] free [of "tk_id seg"] by auto
  qed
qed

lemma outside_trans:
  assumes "outside env a b" "outside env b c"
  shows "outside env a c"
proof (rule outsideI)
  fix i assume "i \<in> own_ids env"
  with assms have "map_of (rl_rows b) i = map_of (rl_rows a) i \<or> free_id env a i \<and> \<not> free_id env b i"
    "map_of (rl_rows c) i = map_of (rl_rows b) i \<or> free_id env b i \<and> \<not> free_id env c i"
    unfolding outside_def by blast+
  then show "map_of (rl_rows c) i = map_of (rl_rows a) i \<or> free_id env a i \<and> \<not> free_id env c i"
    using outside_free [OF assms(1), of i] outside_free [OF assms(2), of i] by auto
qed (use assms in \<open>auto simp: outside_def\<close>)


section \<open>The rows each operation touches\<close>

lemma streamed_broadcast: "streamed (broadcast f st) i = streamed st i @ text_of_frame i f"
  by (simp add: streamed_def)

lemma streamed_frames: "rl_frames st' = rl_frames st \<Longrightarrow> streamed st' = streamed st"
  by (simp add: streamed_def fun_eq_iff)

lemma table_elsewhere:
  "j \<noteq> i \<Longrightarrow> map_of (rl_rows (snd (insert_row env i row st))) j = map_of (rl_rows st) j"
  "j \<noteq> i \<Longrightarrow> map_of (rl_rows (snd (update_row env i f st))) j = map_of (rl_rows st) j"
  "j \<noteq> i \<Longrightarrow> map_of (rl_rows (upsert_row env i row st)) j = map_of (rl_rows st) j"
  by (simp_all add: insert_row_def update_row_def upsert_row_def Let_def map_of_modify split: option.split)

lemma table_minted [simp]:
  "rl_minted (snd (insert_row env i row st)) = rl_minted st" "rl_minted (snd (update_row env i f st)) = rl_minted st"
  "rl_minted (upsert_row env i row st) = rl_minted st" "rl_minted (snd (find_row env i typ st)) = rl_minted st"
  "rl_rows (snd (find_row env i typ st)) = rl_rows st"
  "rl_minted (snd (mint_msg_id env st)) = rl_minted st + 1" "rl_rows (snd (mint_msg_id env st)) = rl_rows st"
  "fst (mint_msg_id env st) = re_mint env (rl_minted st)"
  by (simp_all add: insert_row_def update_row_def upsert_row_def find_row_def mint_msg_id_def Let_def split: option.split)

lemma outside_front:
  assumes "front st' = front st" "rl_minted st \<le> rl_minted st'"
    "\<And>i. i \<in> own_ids env \<Longrightarrow> map_of (rl_rows st') i = map_of (rl_rows st) i \<or> (free_id env st i \<and> \<not> free_id env st' i)"
  shows "outside env st st'"
  by (rule outsideI) (use front_fields [OF assms(1)] assms(2,3) in \<open>simp_all add: streamed_def fun_eq_iff\<close>)

lemma outside_refl [simp]: "outside env st st"
  by (rule outside_front) simp_all

text \<open>A change of the table at one identifier.\<close>

lemma outside_at:
  assumes "front st' = front st" "rl_minted st \<le> rl_minted st'"
    and "\<And>j. j \<noteq> i \<Longrightarrow> map_of (rl_rows st') j = map_of (rl_rows st) j"
    and "i \<notin> own_ids env \<or> (free_id env st i \<and> \<not> free_id env st' i)"
  shows "outside env st st'"
proof (rule outside_front [OF assms(1,2)])
  fix j assume "j \<in> own_ids env"
  with assms(3) [of j] assms(4) show "map_of (rl_rows st') j = map_of (rl_rows st) j \<or> free_id env st j \<and> \<not> free_id env st' j"
    by (cases "j = i") auto
qed

lemma outside_write:
  assumes "i \<notin> own_ids env"
  shows "outside env st (snd (insert_row env i row st))" "outside env st (snd (update_row env i f st))"
    "outside env st (upsert_row env i row st)"
  by (rule outside_at [where i = i]; simp add: table_elsewhere assms)+

lemma outside_find: "outside env st (snd (find_row env i typ st))"
  by (rule outside_front) simp_all

lemma mint_fresh: "healthy env \<Longrightarrow> re_mint env n \<noteq> re_msg env" "healthy env \<Longrightarrow> re_mint env n = re_mint env m \<longleftrightarrow> n = m"
  unfolding healthy_def by (metis rangeI) (metis injD)

lemma minted_taken:
  assumes "healthy env" "rl_minted st' = rl_minted st + 1"
  shows "free_id env st (re_mint env (rl_minted st))" "\<not> free_id env st' (re_mint env (rl_minted st))"
  using assms(2) by (auto simp: free_id_def mint_fresh [OF assms(1)])

text \<open>A row written under an identifier minted for it.\<close>

lemma outside_minted:
  assumes "healthy env" and "front s = front st" "rl_minted s = rl_minted st + 1" "rl_rows s = rl_rows st"
  shows "outside env st (snd (insert_row env (re_mint env (rl_minted st)) row s))"
    "outside env st (snd (update_row env (re_mint env (rl_minted st)) f s))"
  using minted_taken [OF assms(1), of _ st] assms(2-4)
  by (intro outside_at [where i = "re_mint env (rl_minted st)"]; simp add: table_elsewhere)+

lemma outside_broadcast: "(\<And>i. text_of_frame i f = []) \<Longrightarrow> outside env st (broadcast f st)"
  by (rule outsideI) (simp_all add: streamed_broadcast fun_eq_iff)

lemma outside_fields [simp]:
  "outside env st (st\<lparr>rl_attempt := a\<rparr>)" "outside env st (st\<lparr>rl_tips := t\<rparr>)" "outside env st (st\<lparr>rl_anchor := b\<rparr>)"
  "outside env st (st\<lparr>rl_pending := p\<rparr>)" "outside env st (st\<lparr>rl_send_done := d, rl_pending := p\<rparr>)"
  "outside env st (st\<lparr>rl_full := c\<rparr>)" "outside env st (saw_tool st)" "outside env st (saw_visible v st)"
  by (rule outsideI; simp add: streamed_def fun_eq_iff saw_tool_def saw_visible_def)+

lemma outside_forward: "(\<And>i. text_of_frame i (Fr_Event (re_msg env) e) = []) \<Longrightarrow> outside env st (forward env e st)"
  unfolding forward_def by (rule outside_broadcast)

lemma outside_tip_row: "healthy env \<Longrightarrow> outside env st (persist_tip_row env tk body status st)"
  using outside_minted(1) [of env "snd (mint_msg_id env st)" st] by (simp add: persist_tip_row_def case_prod_unfold Let_def)

lemma outside_tool_call: "tcd_call d \<notin> own_ids env \<Longrightarrow> outside env st (persist_tool_call env tk d st)"
  by (simp add: persist_tool_call_def outside_write)

lemma outside_acp: "atc_call d \<notin> own_ids env \<Longrightarrow> outside env st (persist_acp_tool_call env tk d st)"
  by (simp add: persist_acp_tool_call_def outside_write)

lemma plan_foreign: "healthy env \<Longrightarrow> ''plan:'' @ re_msg env \<notin> own_ids env"
  by (auto simp: healthy_def own_ids_def dest: arg_cong [where f = length])

lemma outside_plan: "healthy env \<Longrightarrow> outside env st (persist_plan env tk d st)"
  using plan_foreign [of env] by (simp add: persist_plan_def outside_write del: append.simps)

lemma outside_group:
  assumes "healthy env" "ge_call ` set es \<inter> own_ids env = {}"
  shows "outside env st (persist_tool_group env tk es st)"
proof (cases es)
  case Nil
  let ?i = "re_mint env (rl_minted st)" and ?s = "snd (mint_msg_id env st)"
  have "outside env st (snd (insert_row env ?i row (snd (find_row env ?i ty ?s))))"
    "outside env st (snd (update_row env ?i f (snd (find_row env ?i ty ?s))))" for row f ty
    by (rule outside_minted [OF assms(1)]; simp)+
  then show ?thesis by (simp add: Nil persist_tool_group_def Let_def case_prod_unfold split: option.split)
next
  case (Cons e es')
  then have "ge_call e \<notin> own_ids env" using assms(2) by auto
  then show ?thesis
    using outside_trans [OF outside_find outside_write(1)] outside_trans [OF outside_find outside_write(2)]
    by (simp add: Cons persist_tool_group_def Let_def case_prod_unfold split: option.split)
qed

section \<open>Operations on the active segments\<close>

lemma in_stepI:
  assumes "\<And>i. free_id env st i \<Longrightarrow> map_of (rl_rows st) i = None" "\<And>i. free_id env st i \<Longrightarrow> streamed st i = []"
    and "\<And>i. i \<in> set (rl_segments st) \<Longrightarrow> i \<in> own_ids env \<and> \<not> free_id env st i \<and> stores st i (streamed st i)"
    and "\<And>i. streamed st i \<noteq> [] \<Longrightarrow> i \<in> set (rl_segments st) \<or> (\<exists>seg. rl_text st = Some seg \<and> ts_id seg = i)"
    and "\<And>seg. rl_text st = Some seg \<Longrightarrow> rl_thinking st = None \<and> ts_id seg \<in> own_ids env \<and> \<not> free_id env st (ts_id seg)
        \<and> ts_id seg \<notin> set (rl_segments st) \<and> streamed st (ts_id seg) = ts_buffer seg
        \<and> (if ts_record seg then text_row_at st (ts_id seg) else map_of (rl_rows st) (ts_id seg) = None)"
    and "\<And>tseg. rl_thinking st = Some tseg \<Longrightarrow> tk_id tseg \<in> own_ids env \<and> \<not> free_id env st (tk_id tseg)
        \<and> tk_id tseg \<notin> set (rl_segments st) \<and> map_of (rl_rows st) (tk_id tseg) = None \<and> streamed st (tk_id tseg) = []"
  shows "in_step env st"
  unfolding in_step_def using assms by blast

lemma in_step_cong:
  assumes "rl_rows st' = rl_rows st" "rl_frames st' = rl_frames st" "rl_text st' = rl_text st"
    "rl_thinking st' = rl_thinking st" "rl_segments st' = rl_segments st" "rl_used_primary st' = rl_used_primary st"
    "rl_minted st' = rl_minted st"
  shows "in_step env st' = in_step env st"
  unfolding in_step_def free_id_def streamed_def stores_def text_row_at_def assms ..

lemma view_fields [simp]:
  "streamed (st\<lparr>rl_text := t\<rparr>) = streamed st" "streamed (st\<lparr>rl_thinking := h\<rparr>) = streamed st"
  "streamed (st\<lparr>rl_segments := s\<rparr>) = streamed st"
  "free_id env (st\<lparr>rl_text := t\<rparr>) = free_id env st" "free_id env (st\<lparr>rl_thinking := h\<rparr>) = free_id env st"
  "free_id env (st\<lparr>rl_segments := s\<rparr>) = free_id env st" "free_id env (broadcast f st) = free_id env st"
  "stores (st\<lparr>rl_text := t\<rparr>) = stores st" "stores (st\<lparr>rl_thinking := h\<rparr>) = stores st"
  "stores (st\<lparr>rl_segments := s\<rparr>) = stores st" "stores (broadcast f st) = stores st"
  "text_row_at (st\<lparr>rl_text := t\<rparr>) = text_row_at st" "text_row_at (st\<lparr>rl_thinking := h\<rparr>) = text_row_at st"
  "text_row_at (st\<lparr>rl_segments := s\<rparr>) = text_row_at st" "text_row_at (broadcast f st) = text_row_at st"
  by (simp_all add: streamed_def free_id_def stores_def text_row_at_def fun_eq_iff)

text \<open>A row written at an identifier that is taken, but is no piece of text's.\<close>

lemma in_step_other_row:
  assumes "in_step env st" "rl_text st' = rl_text st" "rl_thinking st' = rl_thinking st" "rl_segments st' = rl_segments st"
    "streamed st' = streamed st" "free_id env st' = free_id env st"
    and "\<not> free_id env st i" "i \<notin> set (rl_segments st)" "rl_text st = None" "rl_thinking st = None"
    and "\<And>j. j \<noteq> i \<Longrightarrow> map_of (rl_rows st') j = map_of (rl_rows st) j"
  shows "in_step env st'"
proof (rule in_stepI, unfold assms(2-6))
  fix j
  assume j: "free_id env st j"
  then have "j \<noteq> i" using assms(7) by blast
  with in_stepD(1) [OF assms(1) j] assms(11) show "map_of (rl_rows st') j = None" by simp
  show "streamed st j = []" by (rule in_stepD(2) [OF assms(1) j])
next
  fix j assume j: "j \<in> set (rl_segments st)"
  then have "j \<noteq> i" using assms(8) by blast
  with in_stepD(3) [OF assms(1) j] assms(11) show "j \<in> own_ids env \<and> \<not> free_id env st j \<and> stores st' j (streamed st j)"
    by (simp add: stores_def)
next
  fix j assume "streamed st j \<noteq> []"
  then show "j \<in> set (rl_segments st) \<or> (\<exists>seg. rl_text st = Some seg \<and> ts_id seg = j)" by (rule in_stepD(4) [OF assms(1)])
qed (simp_all add: assms(9,10))

lemma in_step_no_thinking: "in_step env st \<Longrightarrow> in_step env (st\<lparr>rl_thinking := None\<rparr>)"
  by (rule in_stepI) (auto dest: in_stepD)

lemma table_views [simp]:
  "free_id env (snd (insert_row env' i row st)) = free_id env st" "free_id env (snd (update_row env' i f st)) = free_id env st"
  "streamed (snd (insert_row env' i row st)) = streamed st" "streamed (snd (update_row env' i f st)) = streamed st"
  by (simp_all add: free_id_def streamed_def fun_eq_iff)

lemma in_step_complete_thinking:
  assumes "in_step env st"
  shows "in_step env (complete_active_thinking env tk st)" "rl_thinking (complete_active_thinking env tk st) = None"
proof -
  show "rl_thinking (complete_active_thinking env tk st) = None"
    by (simp add: complete_active_thinking_def Let_def split: option.split)
  show "in_step env (complete_active_thinking env tk st)"
  proof (cases "rl_thinking st")
    case None
    then show ?thesis using assms by (simp add: complete_active_thinking_def)
  next
    case (Some seg)
    note old = in_stepD(6) [OF assms Some]
    have none: "rl_text st = None"
    proof (rule ccontr)
      assume "rl_text st \<noteq> None"
      then obtain t where "rl_text st = Some t" by blast
      from in_stepD(5) [OF assms this] Some show False by simp
    qed
    let ?s = "st\<lparr>rl_thinking := None\<rparr>"
    have frame: "in_step env (broadcast (Fr_Event i (Ev_Thinking d)) ?s)" for i d
      by (rule in_step_outside [OF in_step_no_thinking [OF assms]]) (rule outside_broadcast, simp add: text_of_frame_def)
    have "in_step env (persist_thinking_segment env tk seg n (broadcast (Fr_Event i (Ev_Thinking d)) ?s))" for n i d
      unfolding persist_thinking_segment_def
      using in_step_other_row [OF frame, where i = "tk_id seg"] old none table_elsewhere(1) frame
      by auto
    then show ?thesis by (simp add: complete_active_thinking_def Some Let_def)
  qed
qed

text \<open>Closing the active text stores it.\<close>

abbreviation writes_allowed :: "relay_env \<Rightarrow> tick \<Rightarrow> bool" where
  "writes_allowed env tk \<equiv> \<forall>kind. allows env tk kind"

lemma finalize_stores:
  assumes "healthy env" "writes_allowed env tk" "ts_buffer seg \<noteq> []"
    and "if ts_record seg then text_row_at st (ts_id seg) else map_of (rl_rows st) (ts_id seg) = None"
  obtains st' where "finalize_text_segment env tk seg status st = (Some (ts_id seg), st')" "front st' = front st"
    "rl_minted st' = rl_minted st" "stores st' (ts_id seg) (ts_buffer seg)"
    "\<And>j. j \<noteq> ts_id seg \<Longrightarrow> map_of (rl_rows st') j = map_of (rl_rows st) j"
proof -
  let ?st = "snd (finalize_text_segment env tk seg status st)"
  have ok: "\<not> re_fault env n" for n using assms(1) by (simp add: healthy_def)
  have "finalize_text_segment env tk seg status st = (Some (ts_id seg), ?st)"
    using assms(2-4) ok
    by (auto simp: finalize_text_segment_def insert_row_def update_row_def text_row_at_def Let_def split: if_splits)
  moreover have "front ?st = front st" by simp
  moreover have "rl_minted ?st = rl_minted st" by (simp add: finalize_text_segment_def Let_def case_prod_unfold)
  moreover have "stores ?st (ts_id seg) (ts_buffer seg)"
    using assms(2-4) ok
    by (auto simp: finalize_text_segment_def insert_row_def update_row_def text_row_at_def stores_def text_row_def
        map_of_modify Let_def split: if_splits)
  moreover have "map_of (rl_rows ?st) j = map_of (rl_rows st) j" if "j \<noteq> ts_id seg" for j
    using table_elsewhere(1,2) [OF that] by (simp add: finalize_text_segment_def Let_def case_prod_unfold)
  ultimately show ?thesis using that by blast
qed

lemma in_step_close_text:
  assumes "in_step env st" "healthy env" "writes_allowed env tk"
  shows "in_step env (close_active_text_segment env tk status st)"
    "rl_text (close_active_text_segment env tk status st) = None"
    "rl_thinking (close_active_text_segment env tk status st) = rl_thinking st"
proof -
  let ?new = "close_active_text_segment env tk status st"
  have "in_step env ?new \<and> rl_text ?new = None \<and> rl_thinking ?new = rl_thinking st"
  proof (cases "rl_text st")
    case None
    then show ?thesis using assms(1) by (simp add: close_active_text_segment_def)
  next
    case (Some seg)
    note old = in_stepD(5) [OF assms(1) Some]
    let ?s = "st\<lparr>rl_text := None\<rparr>"
    show ?thesis
    proof (cases "ts_buffer seg = []")
      case True
      then have new: "?new = ?s" by (simp add: close_active_text_segment_def Some finalize_text_segment_def)
      have "streamed st i \<noteq> [] \<Longrightarrow> i \<in> set (rl_segments st)" for i
        using in_stepD(4) [OF assms(1), of i] Some old True by auto
      then have "in_step env ?s"
        by (intro in_stepI) (auto dest: in_stepD [OF assms(1)])
      with new show ?thesis by simp
    next
      case False
      have "if ts_record seg then text_row_at ?s (ts_id seg) else map_of (rl_rows ?s) (ts_id seg) = None"
        using old by simp
      from finalize_stores [OF assms(2,3) False this, of status] obtain st' where
        st': "finalize_text_segment env tk seg status ?s = (Some (ts_id seg), st')" "front st' = front ?s"
        "rl_minted st' = rl_minted ?s" "stores st' (ts_id seg) (ts_buffer seg)"
        "\<And>j. j \<noteq> ts_id seg \<Longrightarrow> map_of (rl_rows st') j = map_of (rl_rows ?s) j" by blast
      note same = front_fields [OF st'(2)]
      let ?r = "st'\<lparr>rl_segments := rl_segments st' @ [ts_id seg]\<rparr>"
      have new: "?new = ?r" by (simp add: close_active_text_segment_def Some st'(1))
      have free: "free_id env st' = free_id env st" using same(7) st'(3) by (simp add: free_id_def fun_eq_iff)
      have str: "streamed st' = streamed st" using same(3) by (simp add: streamed_def fun_eq_iff)
      have "in_step env ?r"
      proof (rule in_stepI)
        fix i assume "free_id env ?r i"
        then have i: "free_id env st i" by (simp add: free)
        then have "i \<noteq> ts_id seg" using old by blast
        with in_stepD(1) [OF assms(1) i] st'(5) show "map_of (rl_rows ?r) i = None" by simp
        from in_stepD(2) [OF assms(1) i] show "streamed ?r i = []" by (simp add: str)
      next
        fix i assume i: "i \<in> set (rl_segments ?r)"
        show "i \<in> own_ids env \<and> \<not> free_id env ?r i \<and> stores ?r i (streamed ?r i)"
        proof (cases "i = ts_id seg")
          case True
          with old st'(4) show ?thesis by (simp add: free str)
        next
          case False
          with i same(6) have "i \<in> set (rl_segments st)" by simp
          from in_stepD(3) [OF assms(1) this] st'(5) [OF False] show ?thesis by (simp add: free str stores_def)
        qed
      next
        fix i assume "streamed ?r i \<noteq> []"
        then have "streamed st i \<noteq> []" by (simp add: str)
        from in_stepD(4) [OF assms(1) this] Some same(6)
        show "i \<in> set (rl_segments ?r) \<or> (\<exists>seg. rl_text ?r = Some seg \<and> ts_id seg = i)" by auto
      next
        fix s assume "rl_text ?r = Some s"
        then show "rl_thinking ?r = None \<and> ts_id s \<in> own_ids env \<and> \<not> free_id env ?r (ts_id s) \<and> ts_id s \<notin> set (rl_segments ?r)
            \<and> streamed ?r (ts_id s) = ts_buffer s
            \<and> (if ts_record s then text_row_at ?r (ts_id s) else map_of (rl_rows ?r) (ts_id s) = None)"
          using same(4) by simp
      next
        fix s assume "rl_thinking ?r = Some s"
        then show "tk_id s \<in> own_ids env \<and> \<not> free_id env ?r (tk_id s) \<and> tk_id s \<notin> set (rl_segments ?r)
            \<and> map_of (rl_rows ?r) (tk_id s) = None \<and> streamed ?r (tk_id s) = []"
          using same(5) old by simp
      qed
      with new same(4,5) show ?thesis by simp
    qed
  qed
  then show "in_step env ?new" "rl_text ?new = None" "rl_thinking ?new = rl_thinking st" by auto
qed

lemma in_step_close:
  assumes "in_step env st" "healthy env" "writes_allowed env tk"
  shows "in_step env (close_segments env tk status st)" "rl_text (close_segments env tk status st) = None"
    "rl_thinking (close_segments env tk status st) = None"
  using in_step_close_text [OF in_step_complete_thinking(1) [OF assms(1), where tk = tk] assms(2,3), where status = status]
    in_step_complete_thinking(2) [OF assms(1), where tk = tk]
  by (simp_all add: close_segments_def)

text \<open>Opening a segment takes a free identifier.\<close>

lemma mint_segment_free:
  assumes "healthy env"
  shows "free_id env st (fst (mint_segment_msg_id env st))"
    "\<not> free_id env (snd (mint_segment_msg_id env st)) (fst (mint_segment_msg_id env st))"
    "free_id env (snd (mint_segment_msg_id env st)) i \<Longrightarrow> free_id env st i"
  using mint_fresh [OF assms] mint_fresh(1) [OF assms, THEN not_sym]
  by (auto simp: mint_segment_msg_id_def mint_msg_id_def free_id_def split: if_splits intro: exI [where x = "rl_minted st"]
      dest: Suc_leD)

lemma mint_segment_more [simp]:
  "streamed (snd (mint_segment_msg_id env st)) = streamed st" "stores (snd (mint_segment_msg_id env st)) = stores st"
  "text_row_at (snd (mint_segment_msg_id env st)) = text_row_at st"
  by (simp_all add: streamed_def stores_def text_row_at_def fun_eq_iff)

lemma in_step_mint:
  assumes "in_step env st" "healthy env" "rl_text st = None" "rl_thinking st = None"
  defines "i \<equiv> fst (mint_segment_msg_id env st)" and "s \<equiv> snd (mint_segment_msg_id env st)"
  shows "in_step env (s\<lparr>rl_text := Some \<lparr>ts_id = i, ts_buffer = [], ts_created = c, ts_record = False, ts_flushes = 0\<rparr>\<rparr>)"
    "in_step env (s\<lparr>rl_thinking := Some \<lparr>tk_id = i, tk_buffer = b, tk_started = c\<rparr>\<rparr>)"
proof -
  note mint = mint_segment_free [OF assms(2), of st, folded i_def s_def]
  have same: "rl_rows s = rl_rows st" "rl_segments s = rl_segments st" "streamed s = streamed st" "stores s = stores st"
    "rl_text s = None" "rl_thinking s = None"
    using assms(3,4) by (simp_all add: s_def)
  have i: "map_of (rl_rows st) i = None" "streamed st i = []" "i \<in> own_ids env" "i \<notin> set (rl_segments st)"
    using in_stepD(1,2) [OF assms(1) mint(1)] free_own [OF mint(1)] in_stepD(3) [OF assms(1), of i] mint(1) by auto
  have segments: "j \<in> own_ids env \<and> \<not> free_id env s j \<and> stores st j (streamed st j)" if "j \<in> set (rl_segments st)" for j
    using in_stepD(3) [OF assms(1) that] mint(3) [of j] by blast
  have others: "streamed st j \<noteq> [] \<Longrightarrow> j \<in> set (rl_segments st)" for j
    using in_stepD(4) [OF assms(1), of j] assms(3) by auto
  have free: "free_id env s j \<Longrightarrow> map_of (rl_rows st) j = None \<and> streamed st j = []" for j
    using in_stepD(1,2) [OF assms(1) mint(3)] by auto
  show "in_step env (s\<lparr>rl_text := Some \<lparr>ts_id = i, ts_buffer = [], ts_created = c, ts_record = False, ts_flushes = 0\<rparr>\<rparr>)"
    by (rule in_stepI) (auto simp: same i mint(2) segments free dest: others)
  show "in_step env (s\<lparr>rl_thinking := Some \<lparr>tk_id = i, tk_buffer = b, tk_started = c\<rparr>\<rparr>)"
    by (rule in_stepI) (auto simp: same i mint(2) segments free dest: others)
qed

lemma in_step_text_segment:
  assumes "in_step env st" "healthy env" "rl_thinking st = None"
  shows "in_step env ((snd (text_segment_for env tk st))\<lparr>rl_text := Some (fst (text_segment_for env tk st))\<rparr>)"
proof (cases "rl_text st")
  case None
  with in_step_mint(1) [OF assms(1,2) None assms(3)] show ?thesis
    by (simp add: text_segment_for_def case_prod_unfold Let_def)
next
  case (Some seg)
  then have "in_step env (st\<lparr>rl_text := Some seg\<rparr>) = in_step env st" by (intro in_step_cong) simp_all
  with Some assms(1) show ?thesis by (simp add: text_segment_for_def)
qed

lemma in_step_thinking_segment:
  assumes "in_step env st" "healthy env" "rl_text st = None"
  shows "in_step env ((snd (thinking_segment_for env tk st))\<lparr>rl_thinking := Some ((fst (thinking_segment_for env tk st))\<lparr>tk_buffer := b\<rparr>)\<rparr>)"
proof (cases "rl_thinking st")
  case None
  with in_step_mint(2) [OF assms(1,2,3) None] show ?thesis
    by (simp add: thinking_segment_for_def case_prod_unfold Let_def)
next
  case (Some seg)
  note old = in_stepD(6) [OF assms(1) Some]
  have "in_step env (st\<lparr>rl_thinking := Some (seg\<lparr>tk_buffer := b\<rparr>)\<rparr>)"
    by (rule in_stepI) (use old assms(3) in \<open>auto dest: in_stepD [OF assms(1)]\<close>)
  with Some show ?thesis by (simp add: thinking_segment_for_def)
qed

lemma in_step_append:
  assumes "in_step env (st\<lparr>rl_text := Some seg\<rparr>)"
  shows "in_step env ((broadcast (Fr_Event (ts_id seg) (Ev_Text c)) st)
     \<lparr>rl_text := Some (seg\<lparr>ts_buffer := ts_buffer seg @ c, ts_flushes := n\<rparr>)\<rparr>)"
proof -
  let ?s = "(broadcast (Fr_Event (ts_id seg) (Ev_Text c)) st)
     \<lparr>rl_text := Some (seg\<lparr>ts_buffer := ts_buffer seg @ c, ts_flushes := n\<rparr>)\<rparr>"
  have str: "streamed (broadcast (Fr_Event (ts_id seg) (Ev_Text c)) st) i = (if i = ts_id seg then streamed st i @ c else streamed st i)" for i
    by (simp add: streamed_broadcast text_of_frame_def)
  note old = in_stepD [OF assms]
  note seg = old(5) [of seg]
  show ?thesis
  proof (rule in_stepI)
    fix i assume "free_id env ?s i"
    then have i: "free_id env (st\<lparr>rl_text := Some seg\<rparr>) i" by simp
    with seg have "i \<noteq> ts_id seg" by auto
    with old(1,2) [OF i] show "map_of (rl_rows ?s) i = None"
      "streamed ?s i = []"
      by (simp_all add: str)
  next
    fix i assume "i \<in> set (rl_segments ?s)"
    then have "i \<in> set (rl_segments (st\<lparr>rl_text := Some seg\<rparr>))" by simp
    with old(3) [OF this] seg
    show "i \<in> own_ids env \<and> \<not> free_id env ?s i
     \<and> stores ?s i
     (streamed ?s i)"
      by (auto simp: str)
  next
    fix i assume "streamed ?s i \<noteq> []"
    with old(4) [of i]
    show "i \<in> set (rl_segments ?s) \<or>
      (\<exists>s. rl_text ?s = Some s \<and> ts_id s = i)"
      by (auto simp: str split: if_splits)
  qed (use seg in \<open>auto simp: str\<close>)
qed

lemma in_step_flush:
  assumes "in_step env (st\<lparr>rl_text := Some seg\<rparr>)" "healthy env" "flush_text_segment env tk seg st = (seg', st')"
  shows "in_step env (st'\<lparr>rl_text := Some (seg'\<lparr>ts_flushes := n\<rparr>)\<rparr>)"
proof -
  note old = in_stepD [OF assms(1)]
  note seg = old(5) [of seg]
  have ok: "\<not> re_fault env m" for m using assms(2) by (simp add: healthy_def)
  have st': "st' = snd (flush_text_segment env tk seg st)" and seg': "seg' = fst (flush_text_segment env tk seg st)"
    using assms(3) by simp_all
  have "front st' = front st" by (simp add: st')
  note same = front_fields [OF this]
  have rows: "map_of (rl_rows st') j = map_of (rl_rows st) j" if "j \<noteq> ts_id seg" for j
    using table_elsewhere(1,2) [OF that] by (simp add: st' flush_text_segment_def)
  have ids: "ts_id seg' = ts_id seg" "ts_buffer seg' = ts_buffer seg" by (simp_all add: seg' flush_text_segment_def)
  have row: "if ts_record seg' then text_row_at st' (ts_id seg) else map_of (rl_rows st') (ts_id seg) = None"
    using seg ok by (auto simp: st' seg' flush_text_segment_def insert_row_def update_row_def text_row_at_def text_row_def
        map_of_modify Let_def split: if_splits)
  have view: "free_id env st' = free_id env st" "streamed st' = streamed st"
    using same by (simp_all add: st' flush_text_segment_def streamed_def free_id_def fun_eq_iff)
  show ?thesis
  proof (rule in_stepI)
    fix i assume "free_id env (st'\<lparr>rl_text := Some (seg'\<lparr>ts_flushes := n\<rparr>)\<rparr>) i"
    then have i: "free_id env (st\<lparr>rl_text := Some seg\<rparr>) i" by (simp add: view)
    with seg have "i \<noteq> ts_id seg" by auto
    with old(1,2) [OF i] rows [of i] show "map_of (rl_rows (st'\<lparr>rl_text := Some (seg'\<lparr>ts_flushes := n\<rparr>)\<rparr>)) i = None"
      "streamed (st'\<lparr>rl_text := Some (seg'\<lparr>ts_flushes := n\<rparr>)\<rparr>) i = []" by (simp_all add: view)
  next
    fix i assume "i \<in> set (rl_segments (st'\<lparr>rl_text := Some (seg'\<lparr>ts_flushes := n\<rparr>)\<rparr>))"
    then have i: "i \<in> set (rl_segments (st\<lparr>rl_text := Some seg\<rparr>))" using same by simp
    with seg have "i \<noteq> ts_id seg" by auto
    with old(3) [OF i] rows [of i]
    show "i \<in> own_ids env \<and> \<not> free_id env (st'\<lparr>rl_text := Some (seg'\<lparr>ts_flushes := n\<rparr>)\<rparr>) i
      \<and> stores (st'\<lparr>rl_text := Some (seg'\<lparr>ts_flushes := n\<rparr>)\<rparr>) i (streamed (st'\<lparr>rl_text := Some (seg'\<lparr>ts_flushes := n\<rparr>)\<rparr>) i)"
      by (simp add: view stores_def)
  next
    fix i assume "streamed (st'\<lparr>rl_text := Some (seg'\<lparr>ts_flushes := n\<rparr>)\<rparr>) i \<noteq> []"
    with old(4) [of i] same
    show "i \<in> set (rl_segments (st'\<lparr>rl_text := Some (seg'\<lparr>ts_flushes := n\<rparr>)\<rparr>))
      \<or> (\<exists>s. rl_text (st'\<lparr>rl_text := Some (seg'\<lparr>ts_flushes := n\<rparr>)\<rparr>) = Some s \<and> ts_id s = i)"
      by (simp add: view ids)
  qed (use seg same row in \<open>auto simp: view ids\<close>)
qed

lemma in_step_visible: "in_step env st \<Longrightarrow> in_step env (saw_visible b st)" "rl_text (saw_visible b st) = rl_text st"
    "rl_thinking (saw_visible b st) = rl_thinking st"
  by (erule in_step_outside) (simp_all add: saw_visible_def)

lemma in_step_text_event:
  assumes "in_step env st" "healthy env"
  shows "in_step env (text_event env tk content st)"
proof -
  let ?s = "saw_visible (content \<noteq> []) (complete_active_thinking env tk st)"
  let ?seg = "fst (text_segment_for env tk ?s)" and ?t = "snd (text_segment_for env tk ?s)"
  let ?b = "broadcast (Fr_Event (ts_id ?seg) (Ev_Text content)) ?t"
  let ?seg' = "?seg\<lparr>ts_buffer := ts_buffer ?seg @ content, ts_flushes := ts_flushes ?seg + 1\<rparr>"
  let ?c = "?b\<lparr>rl_full := rl_full ?b @ content\<rparr>"
  have "in_step env ?s" "rl_thinking ?s = None"
    using in_step_visible in_step_complete_thinking [OF assms(1)] by simp_all
  from in_step_append [OF in_step_text_segment [OF this(1) assms(2) this(2)]]
  have "in_step env (?b\<lparr>rl_text := Some ?seg'\<rparr>)" .
  then have appended: "in_step env (?c\<lparr>rl_text := Some ?seg'\<rparr>)"
    by (rule iffD1 [OF in_step_cong, rotated 7]) simp_all
  obtain seg'' st'' where flushed: "flush_text_segment env tk ?seg' ?c = (seg'', st'')" by fastforce
  from in_step_flush [OF appended assms(2) this]
  have "in_step env (st''\<lparr>rl_text := Some (seg''\<lparr>ts_flushes := 0\<rparr>)\<rparr>)" .
  with appended flushed show ?thesis
    by (simp add: text_event_def Let_def case_prod_unfold)
qed

lemma in_step_thinking_event:
  assumes "in_step env st" "healthy env" "writes_allowed env tk"
  shows "in_step env (thinking_event env tk d st)"
proof -
  let ?s = "saw_visible (th_content d \<noteq> []) (close_active_text_segment env tk ''finish'' st)"
  have "in_step env ?s" "rl_text ?s = None"
    using in_step_visible in_step_close_text [OF assms] by simp_all
  note opened = in_step_thinking_segment [OF this(1) assms(2) this(2)]
  have "in_step env (broadcast (Fr_Event i (Ev_Thinking d)) s)" if "in_step env s" for i s
    by (rule in_step_outside [OF that]) (rule outside_broadcast, simp add: text_of_frame_def)
  from this [OF opened] show ?thesis
    using assms(1) in_step_complete_thinking(1) [OF assms(1)]
    by (simp add: thinking_event_def Let_def case_prod_unfold)
qed

section \<open>The whole run\<close>

lemma in_step_workflow:
  assumes "in_step env st"
  shows "in_step env (forward_workflow_progress tool agents st)"
proof -
  have card: "in_step env (broadcast (Fr_ToolCard tool) st)"
    by (rule in_step_outside [OF assms]) (rule outside_broadcast, simp add: text_of_frame_def)
  then have "in_step env (broadcast (Fr_ToolGroup agents) (broadcast (Fr_ToolCard tool) st))"
    by (rule in_step_outside) (rule outside_broadcast, simp add: text_of_frame_def)
  with card show ?thesis by (simp add: forward_workflow_progress_def Let_def)
qed

lemma in_step_forward: "in_step env st \<Longrightarrow> \<forall>c. e \<noteq> Ev_Text c \<Longrightarrow> in_step env (forward env e st)"
  by (erule in_step_outside) (auto simp: text_of_frame_def intro!: outside_forward split: stream_event.split)

lemma in_step_tips_event:
  assumes "in_step env st" "healthy env"
  shows "in_step env (tips_event env tk d st)"
proof -
  let ?v = "saw_visible (tip_kind d = Tip_Success) st"
  let ?w = "if tip_code d = Some ''ACP_EMPTY_TURN_NEEDS_AUTH'' then ?v\<lparr>rl_attempt := rl_attempt ?v\<lparr>at_needs_auth := True\<rparr>\<rparr> else ?v"
  let ?a = "annotate d (tk_now tk) (rl_tips ?w)"
  let ?tip = "case fst ?a of Some a \<Rightarrow> a | None \<Rightarrow> d"
  let ?f = "forward env (Ev_Tips ?tip) (?w\<lparr>rl_tips := snd ?a\<rparr>)"
  have "in_step env ?w"
    using in_step_outside [OF in_step_visible(1) [OF assms(1)] outside_fields(1)] in_step_visible(1) [OF assms(1)] by simp
  then have "in_step env (?w\<lparr>rl_tips := snd ?a\<rparr>)" by (rule in_step_outside) simp
  then have f: "in_step env ?f" by (rule in_step_forward) simp
  then have p: "in_step env (persist_tip env tk ?tip ?f)"
    unfolding persist_tip_def by (rule in_step_outside) (rule outside_tip_row [OF assms(2)])
  have "tips_event env tk d st = (if tip_kind d \<in> {Tip_Success, Tip_Warning, Tip_Info} then persist_tip env tk ?tip ?f else ?f)"
    by (simp only: tips_event_def Let_def case_prod_unfold)
  with f p show ?thesis by (cases "tip_kind d \<in> {Tip_Success, Tip_Warning, Tip_Info}") (simp_all only: if_True if_False)
qed

lemma in_step_event:
  assumes "in_step env st" "healthy env" "writes_allowed env tk" "foreign_calls env e" "\<not> terminal_event e"
  shows "in_step env (event_step env tk e st)"
proof -
  note go = in_step_outside
  have closed: "in_step env (close_segments env tk ''finish'' (saw_tool st))"
    by (rule in_step_close(1) [OF go [OF assms(1)] assms(2,3)]) simp
  note fwd = in_step_forward
  have tool: "in_step env (forward env e' (saw_tool st))" if "\<forall>c. e' \<noteq> Ev_Text c" for e'
    by (rule fwd [OF go [OF assms(1)] that]) simp
  show ?thesis
  proof (cases e)
    case (Ev_Text content)
    then show ?thesis using in_step_text_event [OF assms(1,2)] by simp
  next
    case (Ev_Thinking d)
    then show ?thesis using in_step_thinking_event [OF assms(1-3)] by simp
  next
    case Ev_SegmentBreak
    then show ?thesis using in_step_close(1) [OF assms(1-3)] by simp
  next
    case (Ev_BackendTurnBound t)
    then show ?thesis using go [OF assms(1)] by simp
  next
    case (Ev_ToolCall d)
    then show ?thesis using assms(4) go [OF fwd [OF closed] outside_tool_call] by (simp add: foreign_calls_def)
  next
    case (Ev_AcpToolCall d)
    then show ?thesis using assms(4) go [OF fwd [OF closed] outside_acp] by (simp add: foreign_calls_def)
  next
    case (Ev_ToolGroup es)
    then show ?thesis using assms(4) go [OF fwd [OF closed] outside_group [OF assms(2)]] by (simp add: foreign_calls_def)
  next
    case (Ev_WorkflowProgress d es settle_only)
    then have calls: "tcd_call d \<notin> own_ids env" "ge_call ` set es \<inter> own_ids env = {}"
      using assms(4) by (simp_all add: foreign_calls_def)
    note call' = go [OF in_step_workflow [OF assms(1)] outside_tool_call [OF calls(1)]]
    note group = go [OF call' outside_group [OF assms(2) calls(2)]]
    obtain b s where out: "settle_tool_call_if_present env tk d st = (b, s)" by fastforce
    have found: "in_step env (snd (find_row env i ty st))" for i ty by (rule go [OF assms(1) outside_find])
    have "in_step env s"
      using arg_cong [OF out, of snd] found go [OF found outside_tool_call [OF calls(1)]]
      by (auto simp: settle_tool_call_if_present_def case_prod_unfold split: option.splits)
    from this in_step_workflow [OF this] call' group show ?thesis
      by (cases settle_only; cases b) (simp_all add: Ev_WorkflowProgress out Let_def)
  next
    case (Ev_Tips d)
    then show ?thesis using in_step_tips_event [OF assms(1,2)] by simp
  next
    case (Ev_Plan d)
    then show ?thesis using go [OF fwd [OF assms(1)] outside_plan [OF assms(2)]] by simp
  qed (simp_all add: fwd [OF assms(1)] tool assms(1))
qed

lemma tick_event:
  assumes "relay_tick env tk st = Going st'"
  shows "\<exists>s. idles st s \<and> (st' = s \<or> (\<exists>e. tk_poll tk = Got e \<and> \<not> terminal_event e \<and> st' = event_step env tk e s))"
proof -
  have err: "receive env tk (Ev_Error d) s \<noteq> Going st'" for d s
    using receive_going [of env tk "Ev_Error d" s st'] by (auto simp: terminal_event_def)
  show ?thesis
    using assms
    by (cases "rl_send_done st"; cases "rl_pending st"; cases "tk_poll tk")
      (auto simp: relay_tick_def err dest!: receive_going intro: idlesI split: if_splits)
qed

lemma in_step_tick:
  assumes "in_step env st" "healthy env" "writes_allowed env tk" "relay_tick env tk st = Going st'"
    and "\<And>e. tk_poll tk = Got e \<Longrightarrow> foreign_calls env e"
  shows "in_step env st'"
proof -
  from tick_event [OF assms(4)] obtain s where s: "idles st s"
    "st' = s \<or> (\<exists>e. tk_poll tk = Got e \<and> \<not> terminal_event e \<and> st' = event_step env tk e s)" by blast
  from s(1) have "in_step env s" using assms(1) in_step_outside [OF assms(1)] by (auto simp: idles_def)
  with s(2) show ?thesis using in_step_event [OF _ assms(2,3)] assms(5) by blast
qed

lemma run_in_step:
  "relay_run env tks st = Some (o', st') \<Longrightarrow> in_step env st \<Longrightarrow> healthy env \<Longrightarrow>
     list_all (\<lambda>tk. writes_allowed env tk \<and> (\<forall>e. tk_poll tk = Got e \<longrightarrow> foreign_calls env e)) tks \<Longrightarrow>
     \<exists>tk st1. tk \<in> set tks \<and> in_step env st1 \<and> relay_tick env tk st1 = Ended o' st'"
proof (induction tks arbitrary: st)
  case (Cons tk tks)
  show ?case
  proof (cases "relay_tick env tk st")
    case (Going st1)
    with Cons.prems have run: "relay_run env tks st1 = Some (o', st')" by simp
    have "in_step env st1"
      by (rule in_step_tick [OF Cons.prems(2,3) _ Going]) (use Cons.prems(4) in auto)
    from Cons.IH [OF run this Cons.prems(3)] Cons.prems(4) show ?thesis by force
  next
    case (Ended o1 s1)
    with Cons.prems show ?thesis by force
  qed
qed simp

text \<open>What the table must hold in the end.\<close>

definition all_stored :: "relay_state \<Rightarrow> bool" where
  "all_stored st \<longleftrightarrow> (\<forall>i. streamed st i \<noteq> [] \<longrightarrow> stores st i (streamed st i))"

lemma all_stored_quiet:
  assumes "rl_rows st' = rl_rows st" "streamed st' = streamed st"
  shows "all_stored st' = all_stored st"
  by (simp add: all_stored_def stores_def assms)

lemma in_step_stored: "in_step env st \<Longrightarrow> rl_text st = None \<Longrightarrow> all_stored st"
  unfolding all_stored_def using in_stepD(3,4) by fastforce

lemma stored_status:
  "stores st i x \<Longrightarrow> stores (snd (update_row env j (\<lambda>r. r\<lparr>mw_status := s, mw_hidden := False\<rparr>) st)) i x"
  by (auto simp: stores_def update_row_def Let_def map_of_modify)

lemma stored_statuses:
  "all_stored st \<Longrightarrow> all_stored (fold (\<lambda>j st. snd (update_row env j (\<lambda>r. r\<lparr>mw_status := s, mw_hidden := False\<rparr>) st)) js st)
   \<and> streamed (fold (\<lambda>j st. snd (update_row env j (\<lambda>r. r\<lparr>mw_status := s, mw_hidden := False\<rparr>) st)) js st) = streamed st"
proof (induction js arbitrary: st)
  case (Cons j js)
  have "all_stored (snd (update_row env j (\<lambda>r. r\<lparr>mw_status := s, mw_hidden := False\<rparr>) st))"
    using Cons.prems stored_status by (simp add: all_stored_def)
  from Cons.IH [OF this] show ?case by simp
qed simp

lemma stored_responses: "all_stored st \<Longrightarrow> all_stored (send_system_responses env rs st)"
  unfolding send_system_responses_def
proof (induction rs arbitrary: st)
  case (Cons r rs)
  have "streamed (broadcast (Fr_System i r) s) = streamed s" for i s
    by (simp add: fun_eq_iff streamed_broadcast text_of_frame_def)
  moreover have "streamed (snd (mint_msg_id env st)) = streamed st" by (simp add: streamed_def fun_eq_iff)
  ultimately have "all_stored (let (i, s) = mint_msg_id env st in broadcast (Fr_System i r) s)"
    using Cons.prems all_stored_quiet [of "broadcast (Fr_System (fst (mint_msg_id env st)) r) (snd (mint_msg_id env st))" st]
    by (simp add: case_prod_unfold)
  from Cons.IH [OF this] show ?case by simp
qed simp

lemma stored_final:
  assumes "in_step env st" "rl_text st = None"
  shows "all_stored (snd (persist_final_text env tk (rl_segments st) status final False False st))
    \<and> fst (persist_final_text env tk (rl_segments st) status final False False st) = []"
proof (cases "rl_segments st")
  case Nil
  have quiet: "streamed st i = []" for i
    using in_stepD(4) [OF assms(1), of i] Nil assms(2) by auto
  have "all_stored s" if "rl_frames s = rl_frames st" for s
    unfolding all_stored_def streamed_frames [OF that] using quiet by simp
  from this [OF front_fields(3) [OF front_persist(3)]] show ?thesis
    by (simp add: Nil persist_final_text_def)
next
  case (Cons i rest)
  with stored_statuses [OF in_step_stored [OF assms], of env status "i # rest"] in_step_stored [OF assms]
  show ?thesis by (simp add: persist_final_text_def del: fold_simps)
qed

lemma stored_finalize:
  assumes "in_step env st" "rl_text st = None" "healthy env"
    and "rl_full st \<noteq> [] \<Longrightarrow> fst (re_process env (rl_full st)) = rl_full st \<and> trim (rl_full st) \<noteq> []"
  shows "all_stored (snd (finalize env tk e terminal st))"
proof (cases "rl_full st = []")
  case True
  have "in_step env (persist_error_tip env tk d st)" for d
    unfolding persist_error_tip_def by (rule in_step_outside [OF assms(1) outside_tip_row [OF assms(3)]])
  then have "all_stored (persist_error_tip env tk d st)" for d
    using assms(2) by (intro in_step_stored) simp_all
  with True in_step_stored [OF assms(1,2)] show ?thesis by (simp add: finalize_def split: stream_event.split)
next
  case False
  obtain rs where out: "re_process env (rl_full st) = (rl_full st, rs)"
    using assms(4) [OF False] by (cases "re_process env (rl_full st)") simp
  let ?status = "case e of Ev_Error _ \<Rightarrow> ''error'' | _ \<Rightarrow> ''finish''"
  obtain s where final: "persist_final_text env tk (rl_segments st) ?status (trim (rl_full st)) False False st = ([], s)"
    "all_stored s"
    using stored_final [OF assms(1,2), of tk ?status "trim (rl_full st)"] by (metis prod.collapse)
  with False assms(4) [OF False] show ?thesis by (simp add: finalize_def Let_def out stored_responses)
qed

lemma stored_completion: "all_stored (complete_conversation env tk st) = all_stored st"
  by (rule all_stored_quiet)
    (simp_all add: complete_conversation_def streamed_def fun_eq_iff text_of_frame_def)

lemma stored_end:
  assumes "end_stream env tk False e terminal forwarded attempt st = Ended o' st'" "terminal_event e"
    and "in_step env st" "healthy env" "writes_allowed env tk"
    and "rl_full st \<noteq> [] \<Longrightarrow> fst (re_process env (rl_full st)) = rl_full st \<and> trim (rl_full st) \<noteq> []"
  shows "all_stored st'"
proof -
  let ?s1 = "close_segments env tk (case e of Ev_Error _ \<Rightarrow> ''error'' | _ \<Rightarrow> ''finish'') st"
  let ?s2 = "if forwarded then forward env e ?s1 else ?s1"
  note closed = in_step_close [OF assms(3-5), of "case e of Ev_Error _ \<Rightarrow> ''error'' | _ \<Rightarrow> ''finish''"]
  have "in_step env (forward env e ?s1)"
    using assms(2) by (intro in_step_forward closed(1)) (auto simp: terminal_event_def)
  then have s2: "in_step env ?s2" "rl_text ?s2 = None" "rl_full ?s2 = rl_full st"
    using closed by simp_all
  have "all_stored (snd (finalize env tk e terminal ?s2))"
    by (rule stored_finalize [OF s2(1,2) assms(4)]) (unfold s2(3), rule assms(6))
  moreover have "st' = (if re_complete_turn env \<and> \<not> False
      then complete_conversation env tk (snd (finalize env tk e terminal ?s2)) else snd (finalize env tk e terminal ?s2))"
    using assms(1) [symmetric] by (simp only: end_stream_def Let_def case_prod_unfold relay_step.inject if_False snd_conv)
  ultimately show ?thesis by (simp add: stored_completion)
qed

lemma active_tick:
  assumes "lifecycle_for (re_conv env) (tk_state tk) = Life_Active"
  shows "writes_allowed env tk" "\<not> is_deleting (re_conv env) (tk_state tk)"
  using assms by (auto simp: allows_def lifecycle_for_def is_deleting_def reading_def split: if_splits)

lemma in_step_start:
  assumes "\<And>i. free_id env (start_relay w) i \<Longrightarrow> map_of (wo_rows w) i = None"
  shows "in_step env (start_relay w)"
  by (rule in_stepI) (use assms in \<open>simp_all add: streamed_def start_relay_def\<close>)

text \<open>An error handed back follows no text.\<close>

lemma quiet_streams_nothing:
  assumes "filter counted_output (map fst (rl_frames st)) = []"
  shows "streamed st i = []"
proof -
  have "text_of_frame i (fst f) = []" if "f \<in> set (rl_frames st)" for f
    using assms that by (force simp: filter_empty_conv counted_output_def text_of_frame_def split: frame.splits stream_event.splits)
  then show ?thesis by (simp add: streamed_def)
qed

lemma deferred_streams_nothing:
  assumes "consume env tks w = Some (o', st')" "at_deferred (ro_attempt o')"
  shows "streamed st' i = []"
proof -
  have fair: "fair_end env o' st'" by (rule consume_fair [OF assms(1)])
  then have "safe_to_auto_replay (ro_attempt o')" using assms(2) by (auto simp: fair_end_def)
  with fair show ?thesis by (intro quiet_streams_nothing) (simp add: fair_end_def)
qed

lemma full_end: "end_stream env tk deleting e terminal forwarded attempt st = Ended o' st' \<Longrightarrow> rl_full st' = rl_full st"
  by (auto simp: end_stream_def Let_def case_prod_unfold finalize_outcome(3) complete_outcome(3))

text \<open>C6: What the user read live is what the table keeps. In a conversation that stays active, over a repository
  that works, and when the final middleware leaves the text as it is, every identifier under which the
  relay streamed text ends as the identifier of a visible text row that holds exactly the text
  streamed under it, whatever events came between, however the text was cut into segments and flushed,
  and however the stream ended.\<close>
theorem streamed_text_is_stored:
  assumes "consume env tks w = Some (o', st')" and "healthy env"
    and "list_all (\<lambda>tk. lifecycle_for (re_conv env) (tk_state tk) = Life_Active
           \<and> (\<forall>e. tk_poll tk = Got e \<longrightarrow> foreign_calls env e)) tks"
    and "\<And>i. free_id env (start_relay w) i \<Longrightarrow> map_of (wo_rows w) i = None"
    and "rl_full st' \<noteq> [] \<Longrightarrow> fst (re_process env (rl_full st')) = rl_full st' \<and> trim (rl_full st') \<noteq> []"
  shows "streamed st' i \<noteq> [] \<Longrightarrow> stores st' i (streamed st' i)"
proof -
  have ticks: "list_all (\<lambda>tk. writes_allowed env tk \<and> (\<forall>e. tk_poll tk = Got e \<longrightarrow> foreign_calls env e)) tks"
    using assms(3) active_tick(1) by (auto simp: list_all_iff)
  from run_in_step [OF assms(1) [unfolded consume_def] in_step_start [OF assms(4)] assms(2) ticks]
  obtain tk st1 where tk: "tk \<in> set tks" and st1: "in_step env st1" and last: "relay_tick env tk st1 = Ended o' st'" by blast
  have active: "writes_allowed env tk" "\<not> is_deleting (re_conv env) (tk_state tk)"
    using assms(3) tk active_tick by (auto simp: list_all_iff)
  have ended: "all_stored st'"
    if "end_stream env tk False e terminal b a s = Ended o' st'" "terminal_event e" "in_step env s" for e terminal b a s
    by (rule stored_end [OF that assms(2) active(1)]) (unfold full_end [OF that(1), symmetric], rule assms(5))
  from tick_ended [OF last] have "all_stored st' \<or> streamed st' i = []"
  proof
    assume "closed_step env tk st1 = Ended o' st'"
    with ended [OF _ _ st1] active(2) show ?thesis by (auto simp: closed_step_def terminal_event_def)
  next
    assume "\<exists>e p. terminal_event e
      \<and> terminal_step env tk (is_deleting (re_conv env) (tk_state tk)) e (st1\<lparr>rl_pending := p\<rparr>) = Ended o' st'"
    then obtain e p where e: "terminal_event e" "terminal_step env tk False e (st1\<lparr>rl_pending := p\<rparr>) = Ended o' st'"
      using active(2) by auto
    have "in_step env (st1\<lparr>rl_pending := p\<rparr>)" by (rule in_step_outside [OF st1]) simp
    note stored = ended [OF _ e(1) this]
    show ?thesis
    proof (cases "defer_clean_error env (terminal_from_event e) (st1\<lparr>rl_pending := p\<rparr>)")
      case True
      then obtain d where "e = Ev_Error d" using e(1)
        by (auto simp: defer_clean_error_def is_error_def terminal_from_event_def split: stream_event.splits)
      with True e(2) have "at_deferred (ro_attempt o')" by (auto simp: terminal_step_def Let_def)
      then show ?thesis using deferred_streams_nothing [OF assms(1)] by blast
    next
      case False
      with e(2) stored show ?thesis by (auto simp: terminal_step_def Let_def)
    qed
  qed
  then show "streamed st' i \<noteq> [] \<Longrightarrow> stores st' i (streamed st' i)" by (auto simp: all_stored_def)
qed

section \<open>A concrete run\<close>

text \<open>Two pieces of text around a tool call.\<close>

definition sample_text :: "tick list" where
  "sample_text = map (\<lambda>e. sample_tick new_runtime (Got e))
     [Ev_Text ''hi'', Ev_ToolCall \<lparr>tcd_call = ''q'', tcd_status = Tool_Completed, tcd_payload = []\<rparr>, Ev_Text ''yo'', Ev_Finish []]"

lemma sample_text_run:
  "map_option (\<lambda>(o', st). (streamed st ''m'', streamed st ''x'', rl_full st)) (consume sample_env sample_text sample_world)
     = Some (''hi'', ''yo'', ''hiyo'')"
  by code_simp

lemma sample_healthy: "healthy sample_env"
  by (auto simp: healthy_def sample_env_def inj_def dest: arg_cong [where f = length] arg_cong [where f = hd])

lemma streamed_text_is_stored_witness:
  "\<exists>o' st'. consume sample_env sample_text sample_world = Some (o', st')
     \<and> stores st' ''m'' ''hi'' \<and> stores st' ''x'' ''yo''"
proof -
  obtain o' st' where run: "consume sample_env sample_text sample_world = Some (o', st')"
    and parts: "streamed st' ''m'' = ''hi''" "streamed st' ''x'' = ''yo''" "rl_full st' = ''hiyo''"
    using sample_text_run by (cases "consume sample_env sample_text sample_world") auto
  have ticks: "list_all (\<lambda>tk. lifecycle_for (re_conv sample_env) (tk_state tk) = Life_Active
      \<and> (\<forall>e. tk_poll tk = Got e \<longrightarrow> foreign_calls sample_env e)) sample_text"
    by (simp add: sample_text_def sample_tick_def lifecycle_for_def reading_def new_runtime_def foreign_calls_def own_ids_def
        sample_env_def) (auto dest: arg_cong [where f = hd])
  have final: "fst (re_process sample_env (rl_full st')) = rl_full st' \<and> trim (rl_full st') \<noteq> []"
    by (simp add: parts(3) sample_env_def) code_simp
  have rows: "map_of (wo_rows sample_world) i = None" for i by (simp add: sample_world_def)
  note stored = streamed_text_is_stored [OF run sample_healthy ticks rows final]
  have "stores st' ''m'' ''hi''" using stored [of "''m''"] by (simp add: parts)
  moreover have "stores st' ''x'' ''yo''" using stored [of "''x''"] by (simp add: parts)
  ultimately show ?thesis using run by blast
qed

end
