(* ===== verification/Turn_Policies.thy ===== *)
theory Turn_Policies
  imports Stream_Relay
begin

text \<open>
  What a turn does after an attempt: the policies of \<open>turn_continuation_policy.rs\<close>,
  \<open>turn_recovery_policy.rs\<close> and \<open>agent_health_policy.rs\<close>, the clean-up after a terminal error
  (\<open>acp_error_recovery.rs\<close>) and the choice of a required runtime mode (\<open>turn_orchestrator.rs\<close>), all of
  \<open>crates/aionui-conversation\<close>. They are functions of a relay's outcome and of the conversation's lifecycle.
\<close>

datatype agent_type = Acp | OpenclawGateway | Nanobot | Remote | Aionrs | Antigravity | Gemini | Codex

section \<open>Continuation\<close>

datatype continuation_stop_reason = NoSystemResponses | TerminalNotFinish | LifecycleNotActive | LimitReached

datatype continuation_decision = Continue string nat | Stop continuation_stop_reason

definition max_system_response_continuations_per_turn :: nat where
  "max_system_response_continuations_per_turn = 4"

fun join_lines :: "string list \<Rightarrow> string" where
  "join_lines [] = []"
| "join_lines [l] = l"
| "join_lines (l # ls) = l @ [CHR 0x0A] @ join_lines ls"

definition continuation :: "nat \<Rightarrow> nat \<Rightarrow> relay_outcome \<Rightarrow> lifecycle \<Rightarrow> continuation_decision" where
  "continuation max_continuations count outcome lc =
    (if lc \<noteq> Life_Active then Stop LifecycleNotActive
     else if is_error (ro_terminal outcome) then Stop TerminalNotFinish
     else if ro_responses outcome = [] then Stop NoSystemResponses
     else if max_continuations \<le> count then Stop LimitReached
     else Continue (join_lines (ro_responses outcome)) (count + 1))"

section \<open>Recovery\<close>

datatype session_recovery_signal = CompactFailed | ResumeFailed

datatype turn_recovery_decision = Recovery_None | AutoReplayOnce bool "session_recovery_signal option"

definition classify_session_recovery_signal :: "relay_outcome \<Rightarrow> session_recovery_signal option" where
  "classify_session_recovery_signal outcome = (case at_error (ro_attempt outcome) of
     None \<Rightarrow> None
   | Some d \<Rightarrow>
       (let haystack = ascii_lower (ed_message d @ [CHR 0x0A] @ (case ed_detail d of None \<Rightarrow> [] | Some t \<Rightarrow> t))
        in if sublist ''/responses/compact'' haystack \<or> sublist ''remote compact failed'' haystack then Some CompactFailed
           else if sublist ''session/load'' haystack \<or> sublist ''resume'' haystack then Some ResumeFailed
           else None))"

definition is_provider_turn_error :: "agent_error_code option \<Rightarrow> relay_outcome \<Rightarrow> bool" where
  "is_provider_turn_error code outcome =
    (Option.bind (at_error (ro_attempt outcome)) ed_ownership = Some Own_UserLlmProvider
     \<or> code \<in> Some ` {UserLlmProviderAuthFailed, UserLlmProviderAwsSsoExpired, UserLlmProviderPermissionDenied,
         UserLlmProviderBillingRequired, UserLlmProviderConfigError, UserLlmProviderModelNotFound,
         UserLlmProviderUnsupportedModel, UserLlmProviderEndpointNotFound, UserLlmProviderInvalidRequest,
         UserLlmProviderInvalidToolSchema, UserLlmProviderContextTooLarge, UserLlmProviderRateLimited,
         UserLlmProviderTimeout, UserLlmProviderNetworkError, UserLlmProviderEmptyResponse,
         UserLlmProviderGatewayError})"

definition turn_recovery :: "agent_type \<Rightarrow> relay_outcome \<Rightarrow> lifecycle \<Rightarrow> bool \<Rightarrow> turn_recovery_decision" where
  "turn_recovery typ outcome lc already_replayed =
    (let code = terminal_code (ro_terminal outcome);
         safe = safe_to_auto_replay (ro_attempt outcome);
         signal = classify_session_recovery_signal outcome
     in if lc = Life_Active \<and> typ = Acp \<and> is_error (ro_terminal outcome)
           \<and> terminal_retryable (ro_terminal outcome) = Some True
           \<and> code \<noteq> Some UserLlmProviderModelNotFound
           \<and> (signal \<noteq> None \<or> \<not> is_provider_turn_error code outcome)
           \<and> safe \<and> \<not> already_replayed
        then AutoReplayOnce safe signal else Recovery_None)"

section \<open>Health and clean-up\<close>

datatype agent_health_action = Health_Keep | EvictAcpTask "agent_error_code option" "bool option" bool

definition agent_health :: "agent_type \<Rightarrow> relay_outcome \<Rightarrow> lifecycle \<Rightarrow> agent_health_action" where
  "agent_health typ outcome lc =
    (if lc \<in> {Life_Deleting, Life_ShuttingDown} then Health_Keep
     else if typ \<noteq> Acp \<or> \<not> is_error (ro_terminal outcome) then Health_Keep
     else (let code = terminal_code (ro_terminal outcome)
           in EvictAcpTask code (terminal_retryable (ro_terminal outcome)) (code = Some UserLlmProviderModelNotFound)))"

text \<open>The calls the clean-up makes on the task manager and the repositories; the lifecycle is the one it reads
  once the task is dead.\<close>

datatype cleanup = Kill_Task | Clear_SessionId | Clear_AcpModel | Clear_ModelSeed

definition should_clear_persisted_model :: "agent_error_code option \<Rightarrow> bool" where
  "should_clear_persisted_model code \<longleftrightarrow> code = Some UserLlmProviderModelNotFound \<or> code = Some UserLlmProviderUnsupportedModel"

definition clear_persisted_acp_session_after_disown :: "agent_error_code option \<Rightarrow> lifecycle \<Rightarrow> cleanup list" where
  "clear_persisted_acp_session_after_disown code lc =
    (if code \<noteq> Some UserAgentSessionNotFound \<or> \<not> write_allowed lc Write_AcpRecoveryCleanup then [] else [Clear_SessionId])"

definition clear_model_after_model_error :: "cleanup \<Rightarrow> agent_error_code option \<Rightarrow> lifecycle \<Rightarrow> cleanup list" where
  "clear_model_after_model_error what code lc =
    (if \<not> should_clear_persisted_model code \<or> \<not> write_allowed lc Write_AcpRecoveryCleanup then [] else [what])"

definition evict_acp_task_after_terminal_error :: "agent_type \<Rightarrow> relay_outcome \<Rightarrow> lifecycle \<Rightarrow> cleanup list" where
  "evict_acp_task_after_terminal_error typ outcome lc =
    (if typ \<noteq> Acp \<or> \<not> is_error (ro_terminal outcome) then []
     else (let code = terminal_code (ro_terminal outcome)
           in [Kill_Task] @ clear_persisted_acp_session_after_disown code lc
              @ clear_model_after_model_error Clear_AcpModel code lc
              @ clear_model_after_model_error Clear_ModelSeed code lc))"

section \<open>Required runtime mode\<close>

datatype full_auto_application = Applied string | Skipped string

text \<open>A failure of a call beside the stream: its text (\<open>to_string\<close>) and the error that is shown.\<close>

type_synonym call_failure = "string \<times> error_data"

text \<open>What the agent answers: its own full-auto mode, its live catalogue, and the setting of a mode.\<close>

record mode_agent =
  ma_full_auto :: "call_failure + full_auto_application option"
  ma_catalog :: "string list option"
  ma_set_mode :: "string \<Rightarrow> call_failure option"

definition normalize_required_mode_for_catalog :: "string option \<Rightarrow> string \<Rightarrow> string list \<Rightarrow> string" where
  "normalize_required_mode_for_catalog backend mode available =
    (if backend \<noteq> Some ''codex'' \<or> mode \<noteq> ''agent-full-access'' then mode
     else if ''agent-full-access'' \<notin> set available \<and> ''full-access'' \<in> set available then ''full-access''
     else mode)"

definition resolve_required_runtime_mode :: "mode_agent \<Rightarrow> string option \<Rightarrow> string \<Rightarrow> string" where
  "resolve_required_runtime_mode agent backend mode =
    (if backend \<noteq> Some ''codex'' \<or> mode \<noteq> ''agent-full-access'' then mode
     else case ma_catalog agent of
       None \<Rightarrow> mode
     | Some available \<Rightarrow> normalize_required_mode_for_catalog backend mode available)"

definition apply_required_runtime_mode ::
  "mode_agent \<Rightarrow> string option \<Rightarrow> string \<Rightarrow> call_failure + full_auto_application" where
  "apply_required_runtime_mode agent backend mode = (case ma_full_auto agent of
     Inl e \<Rightarrow> Inl e
   | Inr (Some app) \<Rightarrow> Inr app
   | Inr None \<Rightarrow>
       (let effective = resolve_required_runtime_mode agent backend mode
        in case ma_set_mode agent effective of Some e \<Rightarrow> Inl e | None \<Rightarrow> Inr (Applied effective)))"

section \<open>What the policies guarantee\<close>

lemma continuation_advances:
  "continuation m count outcome lc = Continue content next \<Longrightarrow> next = count + 1 \<and> count < m"
  by (auto simp: continuation_def split: if_splits)

lemma replay_conditions:
  "turn_recovery typ outcome lc replayed = AutoReplayOnce safe signal \<Longrightarrow>
     \<not> replayed \<and> typ = Acp \<and> lc = Life_Active \<and> is_error (ro_terminal outcome)
     \<and> terminal_retryable (ro_terminal outcome) = Some True \<and> safe_to_auto_replay (ro_attempt outcome)"
  by (auto simp: turn_recovery_def Let_def split: if_splits)

lemma replayed_once: "turn_recovery typ outcome lc True = Recovery_None"
  by (simp add: turn_recovery_def Let_def)

text \<open>An agent is never set to a weaker mode than the one asked for.\<close>

lemma mode_never_weakened:
  "apply_required_runtime_mode agent backend mode = Inr (Applied m) \<Longrightarrow> ma_full_auto agent = Inr None \<Longrightarrow>
     m = mode \<or> (mode = ''agent-full-access'' \<and> m = ''full-access'')"
  by (auto simp: apply_required_runtime_mode_def resolve_required_runtime_mode_def normalize_required_mode_for_catalog_def
      Let_def split: if_splits option.splits)

end
