(* ===== verification/Turn_Run.thy ===== *)
theory Turn_Run
  imports Turn_Policies
begin

text \<open>
  A user turn, from the claimed turn to its completion: \<open>turn_orchestrator.rs\<close> of
  \<open>crates/aionui-conversation\<close>, with the service calls it makes. The turn runs beside other tasks that
  cancel, delete or shut down; so the runtime state is an observation of the environment at each point
  the code reads it, indexed by the attempt and by the send within the attempt. What the turn does beyond
  the message table is its log of actions, in order.
\<close>

section \<open>The world of a turn\<close>

record task_info =
  ti_type :: agent_type
  ti_workspace :: string

text \<open>\<open>te_ticks\<close> are the iterations of the relay of a send, \<open>te_send_error\<close> what its sending task reports; \<open>te_persisted\<close> is the failure of writing the
  resolved workspace back; \<open>te_session_key\<close> the key the agent reports after a send.\<close>

record turn_env =
  te_conv :: string
  te_turn :: string
  te_backend :: "string option"
  te_agent_id :: "string option"
  te_required_mode :: "string option"
  te_stored_workspace :: string
  te_process :: "string \<Rightarrow> string \<times> string list"
  te_mint :: "nat \<Rightarrow> string"
  te_fault :: "nat \<Rightarrow> bool"
  te_build :: "nat \<Rightarrow> error_data + task_info"
  te_persisted :: "nat \<Rightarrow> call_failure option"
  te_mode :: "nat \<Rightarrow> nat \<Rightarrow> mode_agent"
  te_ticks :: "nat \<Rightarrow> nat \<Rightarrow> tick list"
  te_send_error :: "nat \<Rightarrow> nat \<Rightarrow> error_data option"
  te_session_key :: "nat \<Rightarrow> nat \<Rightarrow> string option"
  te_ready :: "nat \<Rightarrow> runtime_state"
  te_before :: "nat \<Rightarrow> nat \<Rightarrow> runtime_state"
  te_sent :: "nat \<Rightarrow> nat \<Rightarrow> runtime_state"
  te_failing :: "nat \<Rightarrow> runtime_state"
  te_after :: "nat \<Rightarrow> runtime_state"
  te_evicted :: "nat \<Rightarrow> runtime_state"
  te_end :: runtime_state

datatype turn_action =
    Act_Build
  | Act_Workspace
  | Act_Settled string
  | Act_Mode string
  | Act_Send string string
  | Act_SessionKey string
  | Act_Tip error_data
  | Act_TipLost error_data
  | Act_Cleanup cleanup
  | Act_Refresh
  | Act_Failure string string
  | Act_Success
  | Act_Completed

record turn_state =
  tn_world :: relay_world
  tn_frames :: "frame list"
  tn_actions :: "turn_action list"

datatype turn_status = Turn_Completed | Turn_Failed

record turn_result =
  tr_result :: turn_status
  tr_message :: "string option"

definition act :: "turn_action \<Rightarrow> turn_state \<Rightarrow> turn_state" where
  "act a st = st\<lparr>tn_actions := tn_actions st @ [a]\<rparr>"

definition lifecycle_at :: "turn_env \<Rightarrow> runtime_state \<Rightarrow> lifecycle" where
  "lifecycle_at te s = lifecycle_for (te_conv te) s"

definition world_of :: "relay_state \<Rightarrow> relay_world" where
  "world_of st = \<lparr>wo_rows = rl_rows st, wo_tips = rl_tips st, wo_minted = rl_minted st, wo_db_calls = rl_db_calls st\<rparr>"

definition send_env :: "turn_env \<Rightarrow> string \<Rightarrow> bool \<Rightarrow> relay_env" where
  "send_env te msg defer =
     \<lparr>re_conv = te_conv te, re_msg = msg, re_turn = te_turn te, re_complete_turn = False, re_defer = defer,
      re_process = te_process te, re_mint = te_mint te, re_fault = te_fault te\<rparr>"

section \<open>Service calls\<close>

definition send_error_display_message :: "error_data \<Rightarrow> string" where
  "send_error_display_message d = (case ed_detail d of Some t \<Rightarrow> t | None \<Rightarrow> ed_message d)"

definition turn_attempt_error_message :: "attempt_summary \<Rightarrow> string option" where
  "turn_attempt_error_message a = map_option (\<lambda>d. case ed_detail d of
       Some t \<Rightarrow> if trim t \<noteq> [] then t else ed_message d
     | None \<Rightarrow> ed_message d) (at_error a)"

definition terminal_is_auth_failure :: "relay_outcome \<Rightarrow> bool" where
  "terminal_is_auth_failure outcome \<longleftrightarrow> at_needs_auth (ro_attempt outcome)
     \<or> terminal_code (ro_terminal outcome)
         \<in> {Some UserAgentAuthRequired, Some UserLlmProviderAuthFailed, Some UserLlmProviderAwsSsoExpired}"

definition record_agent_session_failure :: "turn_env \<Rightarrow> string \<Rightarrow> string \<Rightarrow> turn_state \<Rightarrow> turn_state" where
  "record_agent_session_failure te code message st =
    (if te_agent_id te = None then st else act (Act_Failure code message) st)"

definition record_agent_session_success :: "turn_env \<Rightarrow> turn_state \<Rightarrow> turn_state" where
  "record_agent_session_success te st = (if te_agent_id te = None then st else act Act_Success st)"

text \<open>\<open>persist_and_broadcast_send_failure_tip\<close>: the tip is shown once its row is stored; a row that cannot be
  stored is logged (\<open>Act_TipLost\<close>) and not shown.\<close>

definition send_failure_tip :: "turn_env \<Rightarrow> runtime_state \<Rightarrow> error_data \<Rightarrow> turn_state \<Rightarrow> turn_state" where
  "send_failure_tip te s d st =
    (if \<not> write_allowed (lifecycle_at te s) Write_SendFailureTip then st
     else
       (let env = send_env te [] False;
            (i, rs) = mint_msg_id env (start_relay (tn_world st));
            (ok, rs) = insert_row env i
              \<lparr>mw_type = ''tips'', mw_msg = None, mw_body = Body_Error d, mw_status = ''error'', mw_hidden = False,
               mw_created = 0, mw_anchor = None\<rparr> rs;
            st = st\<lparr>tn_world := world_of rs\<rparr>
        in act (if ok then Act_Tip d else Act_TipLost d) st))"

definition clean_up :: "cleanup list \<Rightarrow> turn_state \<Rightarrow> turn_state" where
  "clean_up cs st = fold (\<lambda>c. act (Act_Cleanup c)) cs st"

text \<open>\<open>maybe_persist_workspace\<close>: None when there is nothing to write or it was written.\<close>

definition maybe_persist_workspace ::
  "turn_env \<Rightarrow> nat \<Rightarrow> task_info \<Rightarrow> turn_state \<Rightarrow> call_failure option \<times> turn_state" where
  "maybe_persist_workspace te n task st =
    (if ti_workspace task = [] \<or> ti_workspace task = te_stored_workspace te then (None, st)
     else if \<not> write_allowed (lifecycle_at te (te_ready te n)) Write_ResolvedWorkspace then (None, st)
     else case te_persisted te n of Some e \<Rightarrow> (Some e, st) | None \<Rightarrow> (None, act Act_Workspace st))"

definition persist_session_key :: "turn_env \<Rightarrow> nat \<Rightarrow> nat \<Rightarrow> turn_state \<Rightarrow> turn_state" where
  "persist_session_key te n k st = (case te_session_key te n k of
     Some key \<Rightarrow> if write_allowed (lifecycle_at te (te_sent te n k)) Write_SessionKey then act (Act_SessionKey key) st else st
   | None \<Rightarrow> st)"

text \<open>The task that sends the prompt reports a failure to the availability record and to the relay.\<close>

definition note_send_error :: "turn_env \<Rightarrow> nat \<Rightarrow> nat \<Rightarrow> turn_state \<Rightarrow> turn_state" where
  "note_send_error te n k st = (case te_send_error te n k of
     Some d \<Rightarrow> record_agent_session_failure te ''session_send_failed'' (send_error_display_message d) st
   | None \<Rightarrow> st)"

section \<open>One attempt\<close>

datatype attempt_end =
    Attempt_Over turn_result
  | Attempt_Ran relay_outcome attempt_summary agent_type

definition failed :: "string \<Rightarrow> turn_result" where
  "failed message = \<lparr>tr_result = Turn_Failed, tr_message = Some message\<rparr>"

text \<open>The mode an agent turn was asked to run in, applied before the prompt goes out.\<close>

definition require_mode :: "turn_env \<Rightarrow> nat \<Rightarrow> nat \<Rightarrow> turn_state \<Rightarrow> call_failure option \<times> turn_state" where
  "require_mode te n k st = (case te_required_mode te of
     None \<Rightarrow> (None, st)
   | Some raw \<Rightarrow>
       (if trim raw = [] then (None, st)
        else case apply_required_runtime_mode (te_mode te n k) (te_backend te) (trim raw) of
          Inl e \<Rightarrow> (Some e, st)
        | Inr (Applied m) \<Rightarrow> (None, act (Act_Mode m) st)
        | Inr (Skipped _) \<Rightarrow> (None, st)))"

text \<open>The sends of an attempt: the prompt, and one more for every round of responses the agent's text asked
  for. \<^const>\<open>None\<close> while a relay still waits. The lifecycle a continuation is decided by is the one read
  before its send.\<close>

function send_loop ::
  "turn_env \<Rightarrow> nat \<Rightarrow> agent_type \<Rightarrow> bool \<Rightarrow> string \<Rightarrow> string \<Rightarrow> nat \<Rightarrow> attempt_summary \<Rightarrow> turn_state
     \<Rightarrow> (attempt_end \<times> turn_state) option" where
  "send_loop te n typ may_defer content msg count aggregate st =
    (let lc = lifecycle_at te (te_before te n count);
         defer = may_defer \<and> typ = Acp \<and> lc = Life_Active \<and> safe_to_auto_replay aggregate
     in case require_mode te n count st of
          (Some (text, e), st) \<Rightarrow>
            Some (Attempt_Over (failed text), send_failure_tip te (te_failing te n) e st)
        | (None, st) \<Rightarrow>
            (let st = note_send_error te n count (act (Act_Send content msg) st)
             in case consume (send_env te msg defer) (te_ticks te n count) (tn_world st) of
                  None \<Rightarrow> None
                | Some (outcome, rs) \<Rightarrow>
                    (let st = st\<lparr>tn_world := world_of rs, tn_frames := tn_frames st @ map fst (rl_frames rs)\<rparr>;
                         aggregate = merge_attempt aggregate (ro_attempt outcome);
                         st = persist_session_key te n count st
                     in case continuation max_system_response_continuations_per_turn count outcome lc of
                          Continue next_content next \<Rightarrow>
                            (let w = tn_world st;
                                 st = st\<lparr>tn_world := w\<lparr>wo_minted := wo_minted w + 1\<rparr>\<rparr>
                             in send_loop te n typ may_defer next_content (te_mint te (wo_minted w)) next aggregate st)
                        | Stop _ \<Rightarrow> Some (Attempt_Ran outcome aggregate typ, st))))"
  by pat_completeness auto

termination
  by (relation "measure (\<lambda>(te, n, typ, may_defer, content, msg, count, aggregate, st).
        max_system_response_continuations_per_turn - count)")
    (auto dest!: continuation_advances)

definition run_attempt :: "turn_env \<Rightarrow> nat \<Rightarrow> bool \<Rightarrow> string \<Rightarrow> string \<Rightarrow> turn_state \<Rightarrow> (attempt_end \<times> turn_state) option" where
  "run_attempt te n may_defer content msg st =
    (let st = act Act_Build st
     in case te_build te n of
          Inl e \<Rightarrow>
            (let message = send_error_display_message e;
                 st = clean_up (clear_persisted_acp_session_after_disown (ed_code e) (lifecycle_at te (te_failing te n))) st;
                 st = record_agent_session_failure te ''session_build_failed'' message st
             in Some (Attempt_Over (failed message), send_failure_tip te (te_failing te n) e st))
        | Inr task \<Rightarrow>
            (case maybe_persist_workspace te n task st of
               (Some (text, e), st) \<Rightarrow>
                 Some (Attempt_Over (failed text), send_failure_tip te (te_failing te n) e st)
             | (None, st) \<Rightarrow>
                 (if fst (take_deferred_cancel (te_conv te) (te_turn te) (te_ready te n)) then
                    Some (Attempt_Over \<lparr>tr_result = Turn_Completed, tr_message = None\<rparr>, act (Act_Settled msg) st)
                  else send_loop te n (ti_type task) may_defer content msg 0 new_attempt st)))"

section \<open>The turn\<close>

text \<open>How the loop over the attempts ends: whether the turn failed, its message, and whether its last attempt
  asked for a sign-in.\<close>

record turn_end =
  td_failed :: bool
  td_message :: "string option"
  td_auth :: bool

definition show_deferred :: "turn_env \<Rightarrow> nat \<Rightarrow> relay_outcome \<Rightarrow> turn_state \<Rightarrow> turn_state" where
  "show_deferred te n outcome st = (case at_error (ro_attempt outcome) of
     Some d \<Rightarrow> if at_deferred (ro_attempt outcome) then send_failure_tip te (te_failing te n) d st else st
   | None \<Rightarrow> st)"

definition evict :: "turn_env \<Rightarrow> nat \<Rightarrow> agent_type \<Rightarrow> relay_outcome \<Rightarrow> turn_state \<Rightarrow> turn_state" where
  "evict te n typ outcome st =
     clean_up (evict_acp_task_after_terminal_error typ outcome (lifecycle_at te (te_evicted te n))) st"

function attempts :: "turn_env \<Rightarrow> bool \<Rightarrow> bool \<Rightarrow> string \<Rightarrow> string \<Rightarrow> turn_state \<Rightarrow> (turn_end \<times> turn_state) option" where
  "attempts te replayed auth content msg st =
    (let n = (if replayed then 1 else 0)
     in case run_attempt te n (\<not> replayed) content msg st of
          None \<Rightarrow> None
        | Some (Attempt_Over r, st) \<Rightarrow>
            Some (\<lparr>td_failed = (tr_result r = Turn_Failed), td_message = tr_message r, td_auth = auth\<rparr>, st)
        | Some (Attempt_Ran outcome summary typ, st) \<Rightarrow>
            (let auth = terminal_is_auth_failure outcome;
                 lc = lifecycle_at te (te_after te n)
             in if \<not> is_error (ro_terminal outcome) then
                  Some (\<lparr>td_failed = False, td_message = None, td_auth = auth\<rparr>, st)
                else case turn_recovery typ (outcome\<lparr>ro_attempt := summary\<rparr>) lc replayed of
                  AutoReplayOnce _ _ \<Rightarrow> attempts te True auth content msg (act Act_Refresh (evict te n typ outcome st))
                | Recovery_None \<Rightarrow>
                    (let st = show_deferred te n outcome st;
                         st = (case agent_health typ outcome lc of
                                 Health_Keep \<Rightarrow> st | EvictAcpTask _ _ _ \<Rightarrow> evict te n typ outcome st)
                     in Some (\<lparr>td_failed = True, td_message = turn_attempt_error_message summary, td_auth = auth\<rparr>, st))))"
  by pat_completeness auto

termination
  by (relation "measure (\<lambda>(te, replayed, auth, content, msg, st). if replayed then 0 else 1)")
    (auto dest!: replay_conditions)

text \<open>\<open>complete_released_turn\<close> and the publisher behind it.\<close>

definition complete_released_turn :: "turn_env \<Rightarrow> runtime_state \<Rightarrow> bool \<Rightarrow> turn_state \<Rightarrow> turn_state" where
  "complete_released_turn te s was_deleting st =
    (let w = tn_world st; calls = wo_db_calls w
     in if was_deleting \<or> \<not> write_allowed (lifecycle_at te s) Write_ConversationFinished then st
        else if te_fault te calls then st\<lparr>tn_world := w\<lparr>wo_db_calls := calls + 1\<rparr>\<rparr>
        else if te_fault te (calls + 1) then st\<lparr>tn_world := w\<lparr>wo_db_calls := calls + 2\<rparr>\<rparr>
        else act Act_Completed (st\<lparr>tn_world := w\<lparr>wo_db_calls := calls + 2\<rparr>\<rparr>))"

definition give_feedback :: "turn_env \<Rightarrow> turn_end \<Rightarrow> turn_state \<Rightarrow> turn_state" where
  "give_feedback te e st =
    (if td_auth e then
       record_agent_session_failure te ''auth_required''
         (case td_message e of Some m \<Rightarrow> m | None \<Rightarrow> ''Agent requires sign-in to run.'') st
     else if \<not> td_failed e then record_agent_session_success te st
     else st)"

definition run_user_turn ::
  "turn_env \<Rightarrow> turn_claim \<Rightarrow> string \<Rightarrow> relay_world \<Rightarrow> (turn_result \<times> turn_claim \<times> runtime_state \<times> turn_state) option" where
  "run_user_turn te claim content w =
    (let msg = te_mint te (wo_minted w);
         st = \<lparr>tn_world = w\<lparr>wo_minted := wo_minted w + 1\<rparr>, tn_frames = [], tn_actions = []\<rparr>
     in case attempts te False False content msg st of
          None \<Rightarrow> None
        | Some (e, st) \<Rightarrow>
            (let st = give_feedback te e st;
                 (was_deleting, claim', s) = release_for_turn (te_turn te) claim (te_end te);
                 st = complete_released_turn te s was_deleting st
             in Some (\<lparr>tr_result = (if td_failed e then Turn_Failed else Turn_Completed),
                      tr_message = (if td_failed e then td_message e else None)\<rparr>, claim', s, st)))"

declare send_loop.simps [simp del] attempts.simps [simp del]

end
