(* ===== verification/Turn_Run_Laws.thy ===== *)
theory Turn_Run_Laws
  imports Turn_Run Relay_Laws
begin

text \<open>
  What a user turn guarantees: it returns, within two attempts of at most five sends; it replays only an
  attempt the user has seen nothing of; it reports a failure; a turn withdrawn in time sends nothing; and it
  lets go of its claim.
\<close>

section \<open>The log\<close>

definition sends :: "turn_state \<Rightarrow> nat" where
  "sends st = length (filter (\<lambda>a. case a of Act_Send _ _ \<Rightarrow> True | _ \<Rightarrow> False) (tn_actions st))"

definition builds :: "turn_state \<Rightarrow> nat" where
  "builds st = length (filter (\<lambda>a. a = Act_Build) (tn_actions st))"

lemma act_fields [simp]:
  "tn_world (act a st) = tn_world st" "tn_frames (act a st) = tn_frames st"
  "tn_actions (act a st) = tn_actions st @ [a]"
  by (simp_all add: act_def)

lemma sends_act [simp]: "sends (act a st) = sends st + (case a of Act_Send _ _ \<Rightarrow> 1 | _ \<Rightarrow> 0)"
  by (simp add: sends_def split: turn_action.split)

lemma builds_act [simp]: "builds (act a st) = builds st + (if a = Act_Build then 1 else 0)"
  by (simp add: builds_def)

lemma counts_fields [simp]:
  "sends (st\<lparr>tn_world := w\<rparr>) = sends st" "sends (st\<lparr>tn_frames := f\<rparr>) = sends st"
  "sends (st\<lparr>tn_world := w, tn_frames := f\<rparr>) = sends st"
  "builds (st\<lparr>tn_world := w\<rparr>) = builds st" "builds (st\<lparr>tn_frames := f\<rparr>) = builds st"
  "builds (st\<lparr>tn_world := w, tn_frames := f\<rparr>) = builds st"
  by (simp_all add: sends_def builds_def)

text \<open>What a service call adds to the log: neither a build, nor a send, nor the refresh before a replay; and
  it broadcasts no frame of the stream.\<close>

definition quiet :: "turn_state \<Rightarrow> turn_state \<Rightarrow> bool" where
  "quiet st st' \<longleftrightarrow> sends st' = sends st \<and> builds st' = builds st \<and> tn_frames st' = tn_frames st
     \<and> (\<exists>as. tn_actions st' = tn_actions st @ as \<and> Act_Refresh \<notin> set as)"

lemma quiet_refl [simp]: "quiet st st"
  by (simp add: quiet_def)

lemma quiet_trans: "quiet a b \<Longrightarrow> quiet b c \<Longrightarrow> quiet a c"
  by (auto simp: quiet_def)

lemma quiet_act: "(case a of Act_Send _ _ \<Rightarrow> False | Act_Build \<Rightarrow> False | Act_Refresh \<Rightarrow> False | _ \<Rightarrow> True) \<Longrightarrow> quiet st (act a st)"
  by (simp add: quiet_def split: turn_action.splits)

lemma quiet_world [simp]: "quiet st (st\<lparr>tn_world := w\<rparr>)"
  by (simp add: quiet_def)

lemma quiet_fold: "(\<And>x st. quiet st (g x st)) \<Longrightarrow> quiet st (fold g xs st)"
proof (induction xs arbitrary: st)
  case (Cons x xs)
  from quiet_trans [OF Cons.prems Cons.IH [OF Cons.prems]] show ?case by simp
qed simp

lemma quiet_tip: "quiet st (send_failure_tip te s d st)"
  by (auto simp: send_failure_tip_def Let_def case_prod_unfold intro!: quiet_trans [OF quiet_world quiet_act])

lemma quiet_services [simp]:
  "quiet st (record_agent_session_failure te code m st)" "quiet st (record_agent_session_success te st)"
  "quiet st (persist_session_key te n k st)" "quiet st (clean_up cs st)" "quiet st (evict te n typ outcome st)"
  "quiet st (note_send_error te n k st)" "quiet st (show_deferred te n outcome st)"
  "quiet st (snd (maybe_persist_workspace te n task st))" "quiet st (snd (require_mode te n k st))"
  "quiet st (complete_released_turn te s b st)" "quiet st (give_feedback te e st)"
proof -
  show clean: "quiet st (clean_up cs st)" for cs st
    unfolding clean_up_def by (rule quiet_fold) (rule quiet_act, simp)
  show fail: "quiet st (record_agent_session_failure te code m st)" for code m st
    by (simp add: record_agent_session_failure_def quiet_act)
  show "quiet st (record_agent_session_success te st)"
    by (simp add: record_agent_session_success_def quiet_act)
  then show "quiet st (give_feedback te e st)" by (simp add: give_feedback_def fail)
  show "quiet st (persist_session_key te n k st)"
    by (simp add: persist_session_key_def quiet_act split: option.split)
  show "quiet st (evict te n typ outcome st)" by (simp add: evict_def clean)
  show "quiet st (note_send_error te n k st)" by (simp add: note_send_error_def fail split: option.split)
  show "quiet st (show_deferred te n outcome st)" by (simp add: show_deferred_def quiet_tip split: option.split)
  show "quiet st (snd (maybe_persist_workspace te n task st))"
    by (simp add: maybe_persist_workspace_def quiet_act split: option.split)
  show "quiet st (snd (require_mode te n k st))"
    by (simp add: require_mode_def quiet_act split: option.split sum.split full_auto_application.split)
  show "quiet st (complete_released_turn te s b st)"
    by (auto simp: complete_released_turn_def Let_def intro!: quiet_trans [OF quiet_world quiet_act])
qed

lemma quiet_counts: "quiet st st' \<Longrightarrow> sends st' = sends st" "quiet st st' \<Longrightarrow> builds st' = builds st"
    "quiet st st' \<Longrightarrow> tn_frames st' = tn_frames st"
  by (simp_all add: quiet_def)

lemmas service_counts [simp] =
  quiet_services [THEN quiet_counts(1)] quiet_services [THEN quiet_counts(2)] quiet_services [THEN quiet_counts(3)]
  quiet_tip [THEN quiet_counts(1)] quiet_tip [THEN quiet_counts(2)] quiet_tip [THEN quiet_counts(3)]

section \<open>The sends of an attempt\<close>

text \<open>The state in which a prompt has gone out, what its relay was asked, and the state after it.\<close>

definition prompted :: "turn_env \<Rightarrow> nat \<Rightarrow> nat \<Rightarrow> string \<Rightarrow> string \<Rightarrow> turn_state \<Rightarrow> turn_state" where
  "prompted te n k content msg st = note_send_error te n k (act (Act_Send content msg) (snd (require_mode te n k st)))"

definition relayed :: "turn_env \<Rightarrow> nat \<Rightarrow> nat \<Rightarrow> relay_state \<Rightarrow> turn_state \<Rightarrow> turn_state" where
  "relayed te n k rs st =
     persist_session_key te n k (st\<lparr>tn_world := world_of rs, tn_frames := tn_frames st @ map fst (rl_frames rs)\<rparr>)"

definition defers :: "turn_env \<Rightarrow> nat \<Rightarrow> nat \<Rightarrow> agent_type \<Rightarrow> bool \<Rightarrow> attempt_summary \<Rightarrow> bool" where
  "defers te n k typ may_defer aggregate \<longleftrightarrow> may_defer \<and> typ = Acp
     \<and> lifecycle_at te (te_before te n k) = Life_Active \<and> safe_to_auto_replay aggregate"

lemma prompted_counts [simp]:
  "sends (prompted te n k content msg st) = sends st + 1" "builds (prompted te n k content msg st) = builds st"
  "tn_frames (prompted te n k content msg st) = tn_frames st"
  by (simp_all add: prompted_def)

lemma relayed_counts [simp]:
  "sends (relayed te n k rs st) = sends st" "builds (relayed te n k rs st) = builds st"
  "tn_frames (relayed te n k rs st) = tn_frames st @ map fst (rl_frames rs)"
  by (simp_all add: relayed_def)

lemma send_loop_unfold:
  "send_loop te n typ may_defer content msg count aggregate st =
    (case fst (require_mode te n count st) of
       Some e \<Rightarrow> Some (Attempt_Over (failed (fst e)),
                   send_failure_tip te (te_failing te n) (snd e) (snd (require_mode te n count st)))
     | None \<Rightarrow>
         (case consume (send_env te msg (defers te n count typ may_defer aggregate)) (te_ticks te n count)
                 (tn_world (prompted te n count content msg st)) of
            None \<Rightarrow> None
          | Some (outcome, rs) \<Rightarrow>
              (case continuation max_system_response_continuations_per_turn count outcome (lifecycle_at te (te_before te n count)) of
                 Continue next_content next \<Rightarrow>
                   (let st = relayed te n count rs (prompted te n count content msg st); w = tn_world st
                    in send_loop te n typ may_defer next_content (te_mint te (wo_minted w)) next
                         (merge_attempt aggregate (ro_attempt outcome))
                         (st\<lparr>tn_world := w\<lparr>wo_minted := wo_minted w + 1\<rparr>\<rparr>))
               | Stop _ \<Rightarrow> Some (Attempt_Ran outcome (merge_attempt aggregate (ro_attempt outcome)) typ,
                            relayed te n count rs (prompted te n count content msg st)))))"
  by (subst send_loop.simps)
    (simp only: Let_def case_prod_unfold prompted_def relayed_def defers_def)

text \<open>An attempt's sends, one at a time, from the last one back.\<close>

lemma send_loop_rule [consumes 1, case_names Mode Stop Next]:
  assumes "send_loop te n typ may_defer content msg count aggregate st = Some (e, st')"
    and refused: "\<And>content msg count aggregate st err. fst (require_mode te n count st) = Some err \<Longrightarrow>
        e = Attempt_Over (failed (fst err)) \<Longrightarrow>
        st' = send_failure_tip te (te_failing te n) (snd err) (snd (require_mode te n count st)) \<Longrightarrow>
        P content msg count aggregate st"
    and stop: "\<And>content msg count aggregate st outcome rs.
        consume (send_env te msg (defers te n count typ may_defer aggregate)) (te_ticks te n count)
          (tn_world (prompted te n count content msg st)) = Some (outcome, rs) \<Longrightarrow>
        e = Attempt_Ran outcome (merge_attempt aggregate (ro_attempt outcome)) typ \<Longrightarrow>
        st' = relayed te n count rs (prompted te n count content msg st) \<Longrightarrow> P content msg count aggregate st"
    and again: "\<And>content msg count aggregate st outcome rs next_content next_msg w.
        consume (send_env te msg (defers te n count typ may_defer aggregate)) (te_ticks te n count)
          (tn_world (prompted te n count content msg st)) = Some (outcome, rs) \<Longrightarrow>
        \<not> is_error (ro_terminal outcome) \<Longrightarrow>
        count < max_system_response_continuations_per_turn \<Longrightarrow>
        P next_content next_msg (count + 1) (merge_attempt aggregate (ro_attempt outcome))
          ((relayed te n count rs (prompted te n count content msg st))\<lparr>tn_world := w\<rparr>) \<Longrightarrow> P content msg count aggregate st"
  shows "P content msg count aggregate st"
  using assms(1)
proof (induction "max_system_response_continuations_per_turn - count" arbitrary: content msg count aggregate st rule: less_induct)
  case less
  show ?case
  proof (cases "fst (require_mode te n count st)")
    case (Some err)
    with less.prems show ?thesis by (intro refused) (auto simp: send_loop_unfold [of te n _ may_defer content])
  next
    case None
    with less.prems obtain outcome rs where run: "consume (send_env te msg (defers te n count typ may_defer aggregate))
        (te_ticks te n count) (tn_world (prompted te n count content msg st)) = Some (outcome, rs)"
      by (auto simp: send_loop_unfold [of te n _ may_defer content] split: option.splits)
    show ?thesis
    proof (cases "continuation max_system_response_continuations_per_turn count outcome (lifecycle_at te (te_before te n count))")
      case (Continue next_content nextk)
      then have k: "nextk = count + 1" "count < max_system_response_continuations_per_turn" "\<not> is_error (ro_terminal outcome)"
        using continuation_advances [OF Continue] by (auto simp: continuation_def split: if_splits)
      let ?st = "relayed te n count rs (prompted te n count content msg st)"
      let ?w = "tn_world ?st"
      have "send_loop te n typ may_defer next_content (te_mint te (wo_minted ?w)) (count + 1)
          (merge_attempt aggregate (ro_attempt outcome)) (?st\<lparr>tn_world := ?w\<lparr>wo_minted := wo_minted ?w + 1\<rparr>\<rparr>) = Some (e, st')"
        using less.prems None run Continue k(1) by (simp add: send_loop_unfold [of te n _ may_defer content] Let_def)
      from less.hyps [OF _ this] k(2) have "P next_content (te_mint te (wo_minted ?w)) (count + 1)
          (merge_attempt aggregate (ro_attempt outcome)) (?st\<lparr>tn_world := ?w\<lparr>wo_minted := wo_minted ?w + 1\<rparr>\<rparr>)" by simp
      from again [OF run k(3,2) this] show ?thesis .
    next
      case (Stop why)
      with less.prems None run show ?thesis
        by (intro stop [OF run]) (auto simp: send_loop_unfold [of te n _ may_defer content])
    qed
  qed
qed

lemma send_loop_counts:
  assumes "send_loop te n typ may_defer content msg count aggregate st = Some (e, st')"
    and "count \<le> max_system_response_continuations_per_turn"
  shows "sends st' \<le> sends st + (max_system_response_continuations_per_turn + 1 - count) \<and> builds st' = builds st"
  using assms(1,2)
  by (induction rule: send_loop_rule) (auto simp: max_system_response_continuations_per_turn_def)

section \<open>An attempt\<close>

text \<open>An attempt ends before its first send, or by its sends.\<close>

lemma run_attempt_cases:
  assumes "run_attempt te n may_defer content msg st = Some (e, st')"
  obtains (Failed) m err st1 where "e = Attempt_Over (failed m)" "quiet (act Act_Build st) st1"
      "st' = send_failure_tip te (te_failing te n) err st1"
  | (Withdrawn) "e = Attempt_Over \<lparr>tr_result = Turn_Completed, tr_message = None\<rparr>" "quiet (act Act_Build st) st'"
  | (Sent) task :: task_info and st1 where "send_loop te n (ti_type task) may_defer content msg 0 new_attempt st1 = Some (e, st')"
      "quiet (act Act_Build st) st1"
proof (cases "te_build te n")
  case (Inl err)
  with assms show ?thesis
    by (intro Failed [of "send_error_display_message err" _ err]) (auto simp: run_attempt_def Let_def intro: quiet_trans [OF quiet_services(4) quiet_services(1)])
next
  case (Inr task)
  let ?st1 = "snd (maybe_persist_workspace te n task (act Act_Build st))"
  have q: "quiet (act Act_Build st) ?st1" by simp
  show ?thesis
  proof (cases "fst (maybe_persist_workspace te n task (act Act_Build st))")
    case (Some err)
    with assms Inr q show ?thesis
      by (intro Failed [of "fst err" ?st1 "snd err"]) (auto simp: run_attempt_def Let_def case_prod_unfold)
  next
    case None
    show ?thesis
    proof (cases "fst (take_deferred_cancel (te_conv te) (te_turn te) (te_ready te n))")
      case True
      with assms Inr None have "e = Attempt_Over \<lparr>tr_result = Turn_Completed, tr_message = None\<rparr>" "st' = act (Act_Settled msg) ?st1"
        by (auto simp: run_attempt_def Let_def case_prod_unfold)
      moreover from this(2) have "quiet (act Act_Build st) st'" by (auto intro: quiet_trans [OF q quiet_act])
      ultimately show ?thesis using Withdrawn by blast
    next
      case False
      with assms Inr None q show ?thesis by (intro Sent [of task]) (auto simp: run_attempt_def Let_def case_prod_unfold)
    qed
  qed
qed

lemma run_attempt_counts:
  assumes "run_attempt te n may_defer content msg st = Some (e, st')"
  shows "builds st' = builds st + 1 \<and> sends st' \<le> sends st + (max_system_response_continuations_per_turn + 1)"
  using assms
proof (cases rule: run_attempt_cases)
  case (Failed m err st1)
  with quiet_counts(1,2) [OF Failed(2)] show ?thesis by simp
next
  case Withdrawn
  with quiet_counts(1,2) [OF Withdrawn(2)] show ?thesis by simp
next
  case (Sent task st1)
  with quiet_counts(1,2) [OF Sent(2)] send_loop_counts [OF Sent(1)] show ?thesis by simp
qed





text \<open>An error of a send has been shown, or is handed on to be shown.\<close>

lemma send_loop_error:
  assumes "send_loop te n typ may_defer content msg count aggregate st = Some (Attempt_Ran outcome summary typ', st')"
    and "is_error (ro_terminal outcome)"
  shows "\<exists>d. at_error (ro_attempt outcome) = Some d \<and> at_error summary = Some d
    \<and> (at_deferred (ro_attempt outcome) \<or> (\<exists>m. Fr_Event m (Ev_Error d) \<in> set (tn_frames st')))"
  using assms
proof (induction rule: send_loop_rule)
  case (Stop content msg count aggregate st o' rs)
  let ?env = "send_env te msg (defers te n count typ may_defer aggregate)"
  from Stop have same: "o' = outcome" "summary = merge_attempt aggregate (ro_attempt outcome)" by auto
  from consume_fair [OF Stop(1)] Stop(4) same obtain d where d: "at_error (ro_attempt outcome) = Some d"
    "at_deferred (ro_attempt outcome) \<or> endings rs = [Fr_Event (re_msg ?env) (Ev_Error d)]"
    by (auto simp: fair_end_def split: if_splits)
  have "Fr_Event (re_msg ?env) (Ev_Error d) \<in> set (tn_frames st')" if "endings rs = [Fr_Event (re_msg ?env) (Ev_Error d)]"
    using arg_cong [OF that, of set] Stop(3) by auto
  with d same show ?case by (auto simp: merge_attempt_def)
qed auto

section \<open>The attempts of a turn\<close>

text \<open>What follows an attempt that ended in an error and is not tried again.\<close>

definition gave_up :: "turn_env \<Rightarrow> nat \<Rightarrow> agent_type \<Rightarrow> relay_outcome \<Rightarrow> turn_state \<Rightarrow> turn_state" where
  "gave_up te n typ outcome st =
    (let st = show_deferred te n outcome st
     in case agent_health typ outcome (lifecycle_at te (te_after te n)) of
          Health_Keep \<Rightarrow> st | EvictAcpTask _ _ _ \<Rightarrow> evict te n typ outcome st)"

lemma quiet_gave_up: "quiet (show_deferred te n outcome st) (gave_up te n typ outcome st)" "quiet st (gave_up te n typ outcome st)"
proof -
  show "quiet (show_deferred te n outcome st) (gave_up te n typ outcome st)"
    by (simp add: gave_up_def Let_def split: agent_health_action.split)
  from quiet_trans [OF quiet_services(7) this] show "quiet st (gave_up te n typ outcome st)" .
qed

text \<open>The attempts, seen from the last one: it ends the turn.\<close>

definition ends_turn ::
  "turn_env \<Rightarrow> nat \<Rightarrow> attempt_end \<Rightarrow> turn_state \<Rightarrow> turn_end \<Rightarrow> turn_state \<Rightarrow> bool" where
  "ends_turn te n ae st1 e st' \<longleftrightarrow> (case ae of
     Attempt_Over r \<Rightarrow> td_failed e = (tr_result r = Turn_Failed) \<and> td_message e = tr_message r \<and> st' = st1
   | Attempt_Ran outcome summary typ \<Rightarrow>
       (if is_error (ro_terminal outcome) then
          td_failed e \<and> td_message e = turn_attempt_error_message summary \<and> st' = gave_up te n typ outcome st1
        else \<not> td_failed e \<and> st' = st1))"

definition replays :: "turn_env \<Rightarrow> relay_outcome \<Rightarrow> attempt_summary \<Rightarrow> agent_type \<Rightarrow> bool" where
  "replays te outcome summary typ \<longleftrightarrow> typ = Acp \<and> lifecycle_at te (te_after te 0) = Life_Active
     \<and> terminal_retryable (ro_terminal outcome) = Some True \<and> safe_to_auto_replay summary"

lemma attempts_cases:
  assumes "attempts te replayed auth content msg st = Some (e, st')"
  obtains (Last) ae st1 where "run_attempt te (if replayed then 1 else 0) (\<not> replayed) content msg st = Some (ae, st1)"
      "ends_turn te (if replayed then 1 else 0) ae st1 e st'"
  | (Again) outcome summary kind st1 auth' where "\<not> replayed"
      "run_attempt te 0 True content msg st = Some (Attempt_Ran outcome summary kind, st1)" "replays te outcome summary kind"
      "attempts te True auth' content msg (act Act_Refresh (evict te 0 kind outcome st1)) = Some (e, st')"
proof -
  let ?n = "if replayed then 1 else 0 :: nat"
  obtain ae st1 where run: "run_attempt te ?n (\<not> replayed) content msg st = Some (ae, st1)"
    using assms by (auto simp: attempts.simps [of te replayed] Let_def split: option.splits)
  show ?thesis
  proof (cases ae)
    case (Attempt_Over r)
    with assms run show ?thesis
      by (intro Last [OF run]) (auto simp: attempts.simps [of te replayed] Let_def ends_turn_def)
  next
    case (Attempt_Ran outcome summary kind)
    show ?thesis
    proof (cases "is_error (ro_terminal outcome)")
      case False
      with assms run Attempt_Ran show ?thesis
        by (intro Last [OF run]) (auto simp: attempts.simps [of te replayed] Let_def ends_turn_def)
    next
      case True
      show ?thesis
      proof (cases "turn_recovery kind (outcome\<lparr>ro_attempt := summary\<rparr>) (lifecycle_at te (te_after te ?n)) replayed")
        case Recovery_None
        with assms run Attempt_Ran True show ?thesis
          by (intro Last [OF run]) (auto simp: attempts.simps [of te replayed] Let_def ends_turn_def gave_up_def)
      next
        case (AutoReplayOnce safe signal)
        note conditions = replay_conditions [OF this]
        then have "\<not> replayed" "replays te outcome summary kind" by (auto simp: replays_def split: if_splits)
        with assms run Attempt_Ran True AutoReplayOnce show ?thesis
          by (intro Again [where auth' = "terminal_is_auth_failure outcome"]) (auto simp: attempts.simps [of te False] Let_def)
      qed
    qed
  qed
qed

lemma ends_turn_quiet: "ends_turn te n ae st1 e st' \<Longrightarrow> quiet st1 st'"
  by (auto simp: ends_turn_def quiet_gave_up split: attempt_end.splits if_splits)

lemma attempts_counts:
  "attempts te True auth content msg st = Some (e, st') \<Longrightarrow>
     builds st' = builds st + 1 \<and> sends st' \<le> sends st + (max_system_response_continuations_per_turn + 1)"
  "attempts te False auth content msg st = Some (e, st') \<Longrightarrow>
     builds st' \<le> builds st + 2 \<and> builds st < builds st'
     \<and> sends st' \<le> sends st + (max_system_response_continuations_per_turn + 1) * (builds st' - builds st)"
proof -
  have once: "builds st' = builds st + 1 \<and> sends st' \<le> sends st + (max_system_response_continuations_per_turn + 1)"
    if "run_attempt te n d content msg st = Some (ae, st1)" "ends_turn te n ae st1 e st'" for n d st ae st1
    using run_attempt_counts [OF that(1)] quiet_counts(1,2) [OF ends_turn_quiet [OF that(2)]] by simp
  show again: "attempts te True auth content msg st = Some (e, st') \<Longrightarrow>
     builds st' = builds st + 1 \<and> sends st' \<le> sends st + (max_system_response_continuations_per_turn + 1)" for auth st
    by (erule attempts_cases) (auto dest: once)
  show "attempts te False auth content msg st = Some (e, st') \<Longrightarrow>
     builds st' \<le> builds st + 2 \<and> builds st < builds st'
     \<and> sends st' \<le> sends st + (max_system_response_continuations_per_turn + 1) * (builds st' - builds st)"
  proof (erule attempts_cases)
    fix outcome summary kind st1 auth'
    assume first: "run_attempt te 0 True content msg st = Some (Attempt_Ran outcome summary kind, st1)"
      and second: "attempts te True auth' content msg (act Act_Refresh (evict te 0 kind outcome st1)) = Some (e, st')"
    from run_attempt_counts [OF first] again [OF second]
    have "builds st' = builds st + 2" "sends st' \<le> sends st + (max_system_response_continuations_per_turn + 1) * 2" by simp_all
    then show ?thesis by simp
  qed (auto dest!: once)
qed

text \<open>A turn's own steps around the attempts.\<close>

definition first_state :: "turn_env \<Rightarrow> relay_world \<Rightarrow> turn_state" where
  "first_state te w = \<lparr>tn_world = w\<lparr>wo_minted := wo_minted w + 1\<rparr>, tn_frames = [], tn_actions = []\<rparr>"

lemma first_state_counts [simp]: "sends (first_state te w) = 0" "builds (first_state te w) = 0"
    "tn_frames (first_state te w) = []" "tn_actions (first_state te w) = []"
  by (simp_all add: first_state_def sends_def builds_def)

lemma run_user_turn_cases:
  assumes "run_user_turn te claim content w = Some (r, claim', s, st')"
  obtains e st1 where "attempts te False False content (te_mint te (wo_minted w)) (first_state te w) = Some (e, st1)"
    "quiet st1 st'" "r = \<lparr>tr_result = (if td_failed e then Turn_Failed else Turn_Completed),
       tr_message = (if td_failed e then td_message e else None)\<rparr>"
    "(claim', s) = snd (release_for_turn (te_turn te) claim (te_end te))"
proof -
  obtain e st1 where run: "attempts te False False content (te_mint te (wo_minted w)) (first_state te w) = Some (e, st1)"
    using assms by (auto simp: run_user_turn_def first_state_def Let_def split: option.splits)
  let ?b = "fst (release_for_turn (te_turn te) claim (te_end te))"
  from assms run have "st' = complete_released_turn te s ?b (give_feedback te e st1)"
    "r = \<lparr>tr_result = (if td_failed e then Turn_Failed else Turn_Completed),
       tr_message = (if td_failed e then td_message e else None)\<rparr>"
    "(claim', s) = snd (release_for_turn (te_turn te) claim (te_end te))"
    by (auto simp: run_user_turn_def first_state_def Let_def case_prod_unfold)
  with run quiet_trans [OF quiet_services(11) quiet_services(10)] show ?thesis by (intro that) auto
qed

text \<open>A turn is bounded. A user turn makes at most two attempts, and its agent is prompted at most five
  times in each: the user's prompt and four rounds of responses the agent's own text asked for.\<close>
theorem turn_is_bounded:
  assumes "run_user_turn te claim content w = Some (r, claim', s, st')"
  shows "builds st' \<le> 2 \<and> sends st' \<le> 5 * builds st'"
  using assms
proof (rule run_user_turn_cases)
  fix e st1
  assume run: "attempts te False False content (te_mint te (wo_minted w)) (first_state te w) = Some (e, st1)" and "quiet st1 st'"
  with attempts_counts(2) [OF run] quiet_counts(1,2) [OF this(2)] show ?thesis
    by (simp add: max_system_response_continuations_per_turn_def)
qed


section \<open>Returning\<close>

lemma closed_tick_ends: "tk_poll tk = Got_Closed \<Longrightarrow> \<exists>o' st'. relay_tick env tk st = Ended o' st'"
proof -
  assume closed: "tk_poll tk = Got_Closed"
  have "terminal_event (Ev_Error d)" for d by (simp add: terminal_event_def)
  note received = receive_terminal [OF this, of env tk]
  have "\<exists>o' st'. closed_step env tk st = Ended o' st'"
    unfolding closed_step_def by (rule end_stream_ended)
  with closed received show ?thesis
    by (cases "rl_send_done st"; cases "rl_pending st") (auto simp: relay_tick_def)
qed

lemma closed_run_ends: "list_ex (\<lambda>tk. tk_poll tk = Got_Closed) tks \<Longrightarrow> relay_run env tks st \<noteq> None"
proof (induction tks arbitrary: st)
  case (Cons tk tks)
  show ?case
  proof (cases "tk_poll tk = Got_Closed")
    case True
    from closed_tick_ends [OF this, of env st] show ?thesis by auto
  next
    case False
    with Cons show ?thesis by (cases "relay_tick env tk st") auto
  qed
qed simp

definition channels_close :: "turn_env \<Rightarrow> bool" where
  "channels_close te \<longleftrightarrow> (\<forall>n k. list_ex (\<lambda>tk. tk_poll tk = Got_Closed) (te_ticks te n k))"

lemma send_loop_returns:
  assumes "channels_close te"
  shows "send_loop te n typ may_defer content msg count aggregate st \<noteq> None"
proof (induction "max_system_response_continuations_per_turn - count" arbitrary: content msg count aggregate st rule: less_induct)
  case less
  have "consume env (te_ticks te n count) w \<noteq> None" for env w
    using assms closed_run_ends by (simp add: consume_def channels_close_def)
  then obtain outcome rs where run: "consume (send_env te msg (defers te n count typ may_defer aggregate)) (te_ticks te n count)
      (tn_world (prompted te n count content msg st)) = Some (outcome, rs)" by force
  show ?case
  proof (cases "continuation max_system_response_continuations_per_turn count outcome (lifecycle_at te (te_before te n count))")
    case (Continue next_content nextk)
    then have "max_system_response_continuations_per_turn - nextk < max_system_response_continuations_per_turn - count"
      using continuation_advances [OF Continue] by (metis Suc_eq_plus1 diff_less_mono2 lessI)
    from less [OF this] show ?thesis
      by (simp add: send_loop_unfold [of te n _ may_defer content] Let_def run Continue split: option.split)
  qed (simp add: send_loop_unfold [of te n _ may_defer content] run split: option.split)
qed

lemma run_attempt_returns: "channels_close te \<Longrightarrow> run_attempt te n may_defer content msg st \<noteq> None"
  using send_loop_returns by (auto simp: run_attempt_def Let_def case_prod_unfold split: sum.split option.split)

lemma attempts_return:
  assumes "channels_close te"
  shows "attempts te replayed auth content msg st \<noteq> None"
proof -
  have again: "attempts te True auth content msg st \<noteq> None" for auth st
    using run_attempt_returns [OF assms, of 1 False content msg st] replayed_once
    by (auto simp: attempts.simps [of te True] Let_def split: option.split prod.split attempt_end.split)
  have "attempts te False auth content msg st \<noteq> None"
    using run_attempt_returns [OF assms, of 0 True content msg st] again
    by (auto simp: attempts.simps [of te False] Let_def split: option.split prod.split attempt_end.split turn_recovery_decision.split)
  with again show ?thesis by (cases replayed) simp_all
qed

text \<open>C21: A turn ends. If the event channel of every send closes sooner or later, a user turn returns, whatever the
  agent emits, however its sends fail and whatever happens to the conversation meanwhile.\<close>
theorem turn_returns:
  assumes "\<And>n k. list_ex (\<lambda>tk. tk_poll tk = Got_Closed) (te_ticks te n k)"
  shows "\<exists>r claim' s st'. run_user_turn te claim content w = Some (r, claim', s, st')"
proof -
  have "channels_close te" using assms by (simp add: channels_close_def)
  from attempts_return [OF this, of False False content "te_mint te (wo_minted w)" "first_state te w"]
  show ?thesis by (auto simp: run_user_turn_def first_state_def Let_def case_prod_unfold)
qed

section \<open>Failures\<close>

text \<open>The user was told of an error: by the end of the stream, or by a tip, unless its row could not be stored.\<close>

definition reported :: "turn_state \<Rightarrow> bool" where
  "reported st \<longleftrightarrow> (\<exists>d. Act_Tip d \<in> set (tn_actions st) \<or> Act_TipLost d \<in> set (tn_actions st)
     \<or> (\<exists>m. Fr_Event m (Ev_Error d) \<in> set (tn_frames st)))"

lemma quiet_reported: "quiet st st' \<Longrightarrow> reported st \<Longrightarrow> reported st'"
  by (auto simp: quiet_def reported_def)

lemma tip_reported: "lifecycle_at te s = Life_Active \<Longrightarrow> reported (send_failure_tip te s d st)"
  by (auto simp: send_failure_tip_def reported_def Let_def case_prod_unfold)

lemma send_loop_failed:
  assumes "send_loop te n typ may_defer content msg count aggregate st = Some (Attempt_Over r, st')"
    and "lifecycle_at te (te_failing te n) = Life_Active"
  shows "tr_message r \<noteq> None \<and> reported st'"
  using assms by (induction rule: send_loop_rule) (auto simp: tip_reported failed_def)

lemma attempt_failed:
  assumes "run_attempt te n may_defer content msg st = Some (Attempt_Over r, st')" "tr_result r = Turn_Failed"
    and "lifecycle_at te (te_failing te n) = Life_Active"
  shows "tr_message r \<noteq> None \<and> reported st'"
  using assms(1)
proof (cases rule: run_attempt_cases)
  case (Failed m err st1)
  with tip_reported [OF assms(3)] show ?thesis by (simp add: failed_def)
next
  case Withdrawn
  with assms(2) show ?thesis by simp
next
  case (Sent task st1)
  with send_loop_failed [OF Sent(1) assms(3)] show ?thesis by simp
qed

lemma attempt_error:
  assumes "run_attempt te n may_defer content msg st = Some (Attempt_Ran outcome summary kind, st')" "is_error (ro_terminal outcome)"
    and "lifecycle_at te (te_failing te n) = Life_Active"
  shows "turn_attempt_error_message summary \<noteq> None \<and> reported (show_deferred te n outcome st')"
  using assms(1)
proof (cases rule: run_attempt_cases)
  case (Sent task st1)
  from send_loop_error [OF Sent(1) assms(2)] obtain d where d: "at_error (ro_attempt outcome) = Some d" "at_error summary = Some d"
    "at_deferred (ro_attempt outcome) \<or> (\<exists>m. Fr_Event m (Ev_Error d) \<in> set (tn_frames st'))" by blast
  have "reported (show_deferred te n outcome st')"
  proof (cases "at_deferred (ro_attempt outcome)")
    case True
    with d(1) tip_reported [OF assms(3)] show ?thesis by (simp add: show_deferred_def)
  next
    case False
    with d(3) have "reported st'" by (auto simp: reported_def)
    with quiet_reported [OF quiet_services(7)] show ?thesis by blast
  qed
  with d(2) show ?thesis by (simp add: turn_attempt_error_message_def)
qed simp_all

lemma turn_end_failed:
  assumes "run_attempt te n may_defer content msg st = Some (ae, st1)" "ends_turn te n ae st1 e st'" "td_failed e"
    and "lifecycle_at te (te_failing te n) = Life_Active"
  shows "td_message e \<noteq> None \<and> reported st'"
proof (cases ae)
  case (Attempt_Over r)
  with assms attempt_failed [of te n may_defer content msg st r st1] show ?thesis by (simp add: ends_turn_def)
next
  case (Attempt_Ran outcome summary kind)
  with assms(2,3) have ends: "is_error (ro_terminal outcome)" "td_message e = turn_attempt_error_message summary"
    "st' = gave_up te n kind outcome st1" by (auto simp: ends_turn_def split: if_splits)
  from attempt_error [OF assms(1) [unfolded Attempt_Ran] ends(1) assms(4)] ends(2,3) quiet_reported [OF quiet_gave_up(1)]
  show ?thesis by simp
qed

lemma attempts_failed:
  assumes "attempts te replayed auth content msg st = Some (e, st')" "td_failed e"
    and "\<And>n. lifecycle_at te (te_failing te n) = Life_Active"
  shows "td_message e \<noteq> None \<and> reported st'"
proof -
  have again: "td_message e \<noteq> None \<and> reported st'" if "attempts te True auth content msg st = Some (e, st')" for auth st
    using that
  proof (cases rule: attempts_cases)
    case (Last ae st1)
    from turn_end_failed [OF Last assms(2,3)] show ?thesis .
  qed simp
  from assms(1) show ?thesis
  proof (cases rule: attempts_cases)
    case (Last ae st1)
    from turn_end_failed [OF Last assms(2,3)] show ?thesis .
  next
    case (Again outcome summary kind st1 auth')
    from again [OF Again(4)] show ?thesis .
  qed
qed

text \<open>C11: A failed turn is never silent. While the conversation stays active, a turn that returns as failed carries an
  error message, and the user was shown an error: as the end of the stream, or as a tip in the
  conversation, unless the row of that tip could not be stored.\<close>
theorem failed_turn_is_reported:
  assumes "run_user_turn te claim content w = Some (r, claim', s, st')" and "tr_result r = Turn_Failed"
    and "\<And>n. lifecycle_for (te_conv te) (te_failing te n) = Life_Active"
  shows "tr_message r \<noteq> None \<and> (\<exists>d. Act_Tip d \<in> set (tn_actions st') \<or> Act_TipLost d \<in> set (tn_actions st')
     \<or> (\<exists>m. Fr_Event m (Ev_Error d) \<in> set (tn_frames st')))"
  using assms(1)
proof (rule run_user_turn_cases)
  fix e st1
  assume run: "attempts te False False content (te_mint te (wo_minted w)) (first_state te w) = Some (e, st1)" and q: "quiet st1 st'"
    and r: "r = \<lparr>tr_result = (if td_failed e then Turn_Failed else Turn_Completed),
       tr_message = (if td_failed e then td_message e else None)\<rparr>"
  from assms(2) r have "td_failed e" by (simp split: if_splits)
  with attempts_failed [OF run this] assms(3) r quiet_reported [OF q] show ?thesis
    by (simp add: lifecycle_at_def reported_def)
qed

section \<open>Withdrawn turns, and the end of the claim\<close>

text \<open>A turn withdrawn in time never reaches the agent. When the user cancelled the turn while its agent was still
  being built, the turn returns as completed without an error, it prompts the agent not once and
  broadcasts nothing of an answer, and the user interface is told that the turn is settled.\<close>
theorem withdrawn_turn_sends_nothing:
  assumes "te_build te 0 = Inr task" and "te_persisted te 0 = None"
    and "rt_deferred (te_ready te 0) (te_conv te) = Some (te_turn te)" and "\<not> rt_poisoned (te_ready te 0)"
  shows "\<exists>claim' s st'. run_user_turn te claim content w
      = Some (\<lparr>tr_result = Turn_Completed, tr_message = None\<rparr>, claim', s, st')
    \<and> sends st' = 0 \<and> tn_frames st' = [] \<and> Act_Settled (te_mint te (wo_minted w)) \<in> set (tn_actions st')"
proof -
  let ?msg = "te_mint te (wo_minted w)" and ?st = "act Act_Build (first_state te w)"
  let ?st1 = "snd (maybe_persist_workspace te 0 task ?st)"
  have none: "fst (maybe_persist_workspace te 0 task ?st) = None"
    using assms(2) by (simp add: maybe_persist_workspace_def)
  have taken: "fst (take_deferred_cancel (te_conv te) (te_turn te) (te_ready te 0))"
    using assms(3,4) by (simp add: take_deferred_cancel_def locked_def)
  have over: "run_attempt te 0 True content ?msg (first_state te w)
      = Some (Attempt_Over \<lparr>tr_result = Turn_Completed, tr_message = None\<rparr>, act (Act_Settled ?msg) ?st1)"
    using assms(1) none taken by (simp add: run_attempt_def Let_def case_prod_unfold)
  then obtain e where run: "attempts te False False content ?msg (first_state te w) = Some (e, act (Act_Settled ?msg) ?st1)"
    and ok: "\<not> td_failed e"
    by (simp add: attempts.simps [of te False] Let_def)
  obtain b claim' s where released: "release_for_turn (te_turn te) claim (te_end te) = (b, claim', s)"
    by (cases "release_for_turn (te_turn te) claim (te_end te)") auto
  define st' where "st' = complete_released_turn te s b (give_feedback te e (act (Act_Settled ?msg) ?st1))"
  have "quiet (act (Act_Settled ?msg) ?st1) st'"
    unfolding st'_def by (rule quiet_trans [OF quiet_services(11) quiet_services(10)])
  then obtain as where st': "sends st' = sends (act (Act_Settled ?msg) ?st1)" "tn_frames st' = tn_frames (act (Act_Settled ?msg) ?st1)"
    "tn_actions st' = tn_actions (act (Act_Settled ?msg) ?st1) @ as" unfolding quiet_def by blast
  have "run_user_turn te claim content w = Some (\<lparr>tr_result = Turn_Completed, tr_message = None\<rparr>, claim', s, st')"
    using run ok released by (simp add: run_user_turn_def first_state_def Let_def st'_def)
  moreover have "sends st' = 0" "tn_frames st' = []" "Act_Settled ?msg \<in> set (tn_actions st')"
    unfolding st' by simp_all
  ultimately show ?thesis by blast
qed

text \<open>A turn lets go of its conversation. When a turn returns, its claim is released and the conversation is no
  longer held by the turn, while every other conversation is held as before.\<close>
theorem turn_lets_go:
  assumes "run_user_turn te claim content w = Some (r, claim', s, st')"
    and "tc_conversation claim = te_conv te" and "tc_turn claim = te_turn te" and "\<not> tc_released claim"
    and "\<not> rt_poisoned (te_end te)"
  shows "tc_released claim' \<and> active_turn_id_for (te_conv te) s \<noteq> Some (te_turn te)
    \<and> (\<forall>c. c \<noteq> te_conv te \<longrightarrow> active_turn_id_for c s = active_turn_id_for c (te_end te))"
  using assms(1)
proof (rule run_user_turn_cases)
  assume "(claim', s) = snd (release_for_turn (te_turn te) claim (te_end te))"
  with assms(2-5) show ?thesis
    by (auto simp: release_for_turn_def release_inner_def release_def locked_def active_turn_id_for_def reading_def
        notify_waiters_def split: if_splits)
qed

section \<open>Concrete turns\<close>

text \<open>A turn of an ACP agent in the conversation \<open>c\<close>, claimed and not yet released; what its relays receive is
  given.\<close>

definition claimed_runtime :: runtime_state where
  "claimed_runtime = new_runtime\<lparr>rt_active := [(''c'', ''t'')]\<rparr>"

definition sample_claim :: turn_claim where
  "sample_claim = \<lparr>tc_conversation = ''c'', tc_turn = ''t'', tc_released = False\<rparr>"

definition sample_turn :: "(string \<Rightarrow> string \<times> string list) \<Rightarrow> (nat \<Rightarrow> nat \<Rightarrow> tick list) \<Rightarrow> turn_env" where
  "sample_turn process ticks = \<lparr>te_conv = ''c'', te_turn = ''t'', te_backend = None, te_agent_id = Some ''a'',
     te_required_mode = None, te_stored_workspace = ''w'', te_process = process,
     te_mint = (\<lambda>n. replicate (Suc n) CHR ''x''), te_fault = (\<lambda>_. False),
     te_build = (\<lambda>_. Inr \<lparr>ti_type = Acp, ti_workspace = ''w''\<rparr>), te_persisted = (\<lambda>_. None),
     te_mode = (\<lambda>_ _. \<lparr>ma_full_auto = Inr None, ma_catalog = None, ma_set_mode = (\<lambda>_. None)\<rparr>),
     te_ticks = ticks, te_send_error = (\<lambda>_ _. None), te_session_key = (\<lambda>_ _. None),
     te_ready = (\<lambda>_. claimed_runtime), te_before = (\<lambda>_ _. claimed_runtime), te_sent = (\<lambda>_ _. claimed_runtime),
     te_failing = (\<lambda>_. claimed_runtime), te_after = (\<lambda>_. claimed_runtime), te_evicted = (\<lambda>_. claimed_runtime),
     te_end = claimed_runtime\<rparr>"


definition given_up_turn :: turn_env where
  "given_up_turn = sample_turn (\<lambda>t. (t, []))
     (\<lambda>n k. [sample_tick claimed_runtime (Got (Ev_Error (sample_error\<lparr>ed_retryable := None\<rparr>)))])"

definition closing_turn :: turn_env where
  "closing_turn = sample_turn (\<lambda>t. (t, [])) (\<lambda>n k. [sample_tick claimed_runtime Got_Closed])"


lemma given_up_run:
  "map_option (\<lambda>(r, c, s, st). (tr_result r, builds st, sends st)) (run_user_turn given_up_turn sample_claim ''hi'' sample_world)
     = Some (Turn_Failed, 1, 1)"
  by code_simp


text \<open>What the user sees and the relay does not count is shown by both attempts: the first reports a background
  workflow and the subject of a thought, fails, and is tried again; the second reports them anew.\<close>

definition workflow_events :: "stream_event list" where
  "workflow_events =
    [Ev_WorkflowProgress \<lparr>tcd_call = ''w1'', tcd_status = Tool_Running, tcd_payload = []\<rparr> [] False,
     Ev_Thinking \<lparr>th_content = [], th_subject = Some ''plan'', th_duration = None, th_status = None\<rparr>]"

definition workflow_turn :: turn_env where
  "workflow_turn = sample_turn (\<lambda>t. (t, []))
     (\<lambda>n k. map (\<lambda>e. sample_tick claimed_runtime (Got e))
        (workflow_events @ [if n = 0 then Ev_Error sample_error else Ev_Finish []]))"

definition seen_kind :: "frame \<Rightarrow> nat option" where
  "seen_kind f = (case f of Fr_ToolCard _ \<Rightarrow> Some 0
     | Fr_Event _ (Ev_Thinking d) \<Rightarrow> (if th_subject d \<noteq> None then Some 1 else None) | _ \<Rightarrow> None)"

lemma workflow_shown_twice:
  "map_option (\<lambda>(r, c, s, st). (builds st, filter_map seen_kind (tn_frames st)))
     (run_user_turn workflow_turn sample_claim ''hi'' sample_world) = Some (2, [0, 1, 0, 1])"
  by code_simp

lemma turn_returns_witness:
  "\<exists>r c s st. run_user_turn closing_turn sample_claim ''hi'' sample_world = Some (r, c, s, st)"
  by (rule turn_returns) (simp add: closing_turn_def sample_turn_def sample_tick_def)

lemma failed_turn_is_reported_witness:
  "\<exists>r c s st. run_user_turn given_up_turn sample_claim ''hi'' sample_world = Some (r, c, s, st)
     \<and> tr_result r = Turn_Failed \<and> tr_message r \<noteq> None \<and> reported st"
proof -
  obtain r c s st where run: "run_user_turn given_up_turn sample_claim ''hi'' sample_world = Some (r, c, s, st)"
    and "tr_result r = Turn_Failed"
    using given_up_run by (cases "run_user_turn given_up_turn sample_claim ''hi'' sample_world") auto
  moreover have "lifecycle_for (te_conv given_up_turn) (te_failing given_up_turn n) = Life_Active" for n
    by (simp add: given_up_turn_def sample_turn_def claimed_runtime_def new_runtime_def lifecycle_for_def reading_def)
  ultimately show ?thesis using failed_turn_is_reported [OF run] by (auto simp: reported_def)
qed

text \<open>A cancel that arrives while the agent answers does not stop the turn from prompting the agent once more:
  the continuation is decided by the lifecycle read before the prompt went out.\<close>

definition cancelling_runtime :: runtime_state where
  "cancelling_runtime = mark_cancelling ''c'' claimed_runtime"

definition stale_turn :: turn_env where
  "stale_turn = (sample_turn (\<lambda>t. (t, [''result'']))
     (\<lambda>n k. if k = 0 then [sample_tick cancelling_runtime (Got (Ev_Text ''look up'')), sample_tick cancelling_runtime (Got (Ev_Finish []))]
            else [sample_tick cancelling_runtime (Got (Ev_Finish []))]))
     \<lparr>te_before := (\<lambda>n k. if k = 0 then claimed_runtime else cancelling_runtime)\<rparr>"

lemma cancelled_turn_continues:
  "map_option (\<lambda>(r, c, s, st). sends st) (run_user_turn stale_turn sample_claim ''hi'' sample_world) = Some 2
   \<and> list_all (\<lambda>tk. is_cancelling ''c'' (tk_state tk)) (te_ticks stale_turn 0 0)"
  by (rule conjI; code_simp)

end
