(* ===== verification/Cron_Schedule.thy ===== *)
theory Cron_Schedule
  imports Ki_Text Conversation_Error
begin

text \<open>
  The schedules of the cron service: \<open>types.rs\<close> (schedules, modes, statuses), \<open>error.rs\<close> and the
  computations of \<open>scheduler.rs\<close> in \<open>crates/aionui-cron\<close>.

  Times are milliseconds in an \<open>i64\<close>, modelled as integers with the width of each operation written
  out: \<open>checked_add\<close> and \<open>checked_mul\<close> fail outside the range, \<open>saturating_sub\<close> stops at its ends,
  and a plain \<open>+\<close> wraps, as it does in the release build (a debug build panics there).
  The \<open>cron\<close> and \<open>chrono-tz\<close> crates are parameters: how an expression and a zone name are parsed,
  which times exist in a zone and when a schedule fires next.
\<close>

section \<open>Signed 64-bit integers\<close>

definition i64_ok :: "int \<Rightarrow> bool" where
  "i64_ok x \<longleftrightarrow> - (2 ^ 63) \<le> x \<and> x < 2 ^ 63"

definition wrap_i64 :: "int \<Rightarrow> int" where
  "wrap_i64 x = (x + 2 ^ 63) mod 2 ^ 64 - 2 ^ 63"

definition checked_i64 :: "int \<Rightarrow> int option" where
  "checked_i64 x = (if i64_ok x then Some x else None)"

definition sat_i64 :: "int \<Rightarrow> int" where
  "sat_i64 x = max (- (2 ^ 63)) (min (2 ^ 63 - 1) x)"

lemma wrap_i64_id [simp]: "i64_ok x \<Longrightarrow> wrap_i64 x = x"
  by (simp add: wrap_i64_def i64_ok_def)

lemma sat_i64_id [simp]: "i64_ok x \<Longrightarrow> sat_i64 x = x"
  by (simp add: sat_i64_def i64_ok_def)

lemma wrap_i64_ok [simp]: "i64_ok (wrap_i64 x)"
proof -
  have "0 \<le> (x + 2 ^ 63) mod 2 ^ 64" "(x + 2 ^ 63) mod 2 ^ 64 < 2 ^ 64" by simp_all
  then show ?thesis by (simp add: wrap_i64_def i64_ok_def)
qed

definition show_i64 :: "int \<Rightarrow> string" where
  "show_i64 x = (if x < 0 then CHR ''-'' # show_nat (nat (- x)) else show_nat (nat x))"

text \<open>
  \<open>str::parse::<i64>\<close>: an optional sign, then digits read from the left, each invalid character and
  each overflow reported where it is met. The error is the text of \<open>ParseIntError\<close>.
\<close>

fun read_digits :: "bool \<Rightarrow> int \<Rightarrow> string \<Rightarrow> string + int" where
  "read_digits negative acc [] = Inr acc"
| "read_digits negative acc (c # cs) =
    (if \<not> is_digit c then Inl ''invalid digit found in string''
     else let d = int (digit_value c); acc' = (if negative then 10 * acc - d else 10 * acc + d)
          in if i64_ok acc' then read_digits negative acc' cs
             else Inl (if negative then ''number too small to fit in target type''
                       else ''number too large to fit in target type''))"

definition parse_i64 :: "string \<Rightarrow> string + int" where
  "parse_i64 s =
    (if s = [] then Inl ''cannot parse integer from empty string''
     else if s = ''-'' \<or> s = ''+'' then Inl ''invalid digit found in string''
     else if hd s = CHR ''-'' then read_digits True 0 (tl s)
     else if hd s = CHR ''+'' then read_digits False 0 (tl s)
     else read_digits False 0 s)"

lemma digits_grow: "m \<le> foldl (\<lambda>n c. 10 * n + digit_value c) m ds"
proof (induction ds arbitrary: m)
  case (Cons c ds)
  show ?case using Cons [of "10 * m + digit_value c"] by simp
qed simp

lemma read_digits_value:
  assumes "list_all is_digit ds" "i64_ok (\<sigma> * int (foldl (\<lambda>n c. 10 * n + digit_value c) m ds))"
    and "\<sigma> = (if negative then - 1 else 1)"
  shows "read_digits negative (\<sigma> * int m) ds = Inr (\<sigma> * int (foldl (\<lambda>n c. 10 * n + digit_value c) m ds))"
  using assms
proof (induction ds arbitrary: m)
  case (Cons c ds)
  let ?m = "10 * m + digit_value c"
  have "i64_ok (\<sigma> * int ?m)"
    using Cons.prems digits_grow [of ?m ds] by (auto simp: i64_ok_def split: if_splits)
  moreover have "(if negative then 10 * (\<sigma> * int m) - int (digit_value c) else 10 * (\<sigma> * int m) + int (digit_value c))
      = \<sigma> * int ?m"
    using Cons.prems(3) by simp
  moreover have "is_digit c" using Cons.prems(1) by simp
  ultimately have "read_digits negative (\<sigma> * int m) (c # ds) = read_digits negative (\<sigma> * int ?m) ds"
    by (simp only: read_digits.simps Let_def not_True_eq_False if_False if_True)
  then show ?case using Cons.IH [of ?m] Cons.prems by simp
qed simp

lemma show_nat_first: "hd (show_nat n) \<noteq> CHR ''-'' \<and> hd (show_nat n) \<noteq> CHR ''+''"
proof -
  have "is_digit (hd (show_nat n))" using show_nat_digits [of n] by (auto simp: list_all_iff)
  then show ?thesis by (auto simp: is_digit_def)
qed

lemma parse_show_i64 [simp]:
  assumes "i64_ok x"
  shows "parse_i64 (show_i64 x) = Inr x"
proof -
  have "read_digits (x < 0) 0 (show_nat (nat \<bar>x\<bar>)) = Inr x"
    using read_digits_value [of "show_nat (nat \<bar>x\<bar>)" "if x < 0 then - 1 else 1" 0 "x < 0"]
      show_nat_digits [of "nat \<bar>x\<bar>"] digits_value_show [of "nat \<bar>x\<bar>"] assms
    by (auto simp: digits_value_def split: if_splits)
  moreover have "show_nat n \<noteq> []" "show_nat n \<noteq> ''-''" "show_nat n \<noteq> ''+''" for n
    using show_nat_digits [of n] show_nat_first [of n] by auto
  ultimately show ?thesis
    using show_nat_first by (auto simp: parse_i64_def show_i64_def split: if_splits)
qed


section \<open>Errors\<close>

datatype db_error =
    Db_Query string
  | Db_Migration string
  | Db_NotFound string
  | Db_Conflict string
  | Db_Init string

fun db_error_text :: "db_error \<Rightarrow> string" where
  "db_error_text (Db_Query e) = ''Database query failed: '' @ e"
| "db_error_text (Db_Migration e) = ''Migration failed: '' @ e"
| "db_error_text (Db_NotFound e) = ''Record not found: '' @ e"
| "db_error_text (Db_Conflict e) = ''Duplicate record: '' @ e"
| "db_error_text (Db_Init e) = ''Database initialization failed: '' @ e"

datatype cron_error =
    Cron_JobNotFound string
  | Cron_InvalidSchedule string
  | Cron_InvalidCronExpression string
  | Cron_InvalidExecutionMode string
  | Cron_InvalidCreatedBy string
  | Cron_InvalidJobStatus string
  | Cron_InvalidTimezone string
  | Cron_InvalidSkillContent string
  | Cron_InvalidAgentConfig string
  | Cron_CrossAccountReference string
  | Cron_Scheduler string
  | Cron_WorkspacePathUnavailable string
  | Cron_WorkspacePathRuntimeUnavailable string
  | Cron_Conversation conversation_error
  | Cron_Database db_error
  | Cron_Json string

fun cron_error_text :: "cron_error \<Rightarrow> string" where
  "cron_error_text (Cron_JobNotFound e) = ''Cron job not found: '' @ e"
| "cron_error_text (Cron_InvalidSchedule e) = ''Invalid schedule: '' @ e"
| "cron_error_text (Cron_InvalidCronExpression e) = ''Invalid cron expression: '' @ e"
| "cron_error_text (Cron_InvalidExecutionMode e) = ''Invalid execution mode: '' @ e"
| "cron_error_text (Cron_InvalidCreatedBy e) = ''Invalid created-by value: '' @ e"
| "cron_error_text (Cron_InvalidJobStatus e) = ''Invalid job status: '' @ e"
| "cron_error_text (Cron_InvalidTimezone e) = ''Invalid timezone: '' @ e"
| "cron_error_text (Cron_InvalidSkillContent e) = ''Invalid skill content: '' @ e"
| "cron_error_text (Cron_InvalidAgentConfig e) = ''Invalid agent config: '' @ e"
| "cron_error_text (Cron_CrossAccountReference e) = ''Cross-account reference: '' @ e"
| "cron_error_text (Cron_Scheduler e) = ''Scheduler error: '' @ e"
| "cron_error_text (Cron_WorkspacePathUnavailable e) = ''Workspace path is unavailable: '' @ e"
| "cron_error_text (Cron_WorkspacePathRuntimeUnavailable e) = ''Workspace path is unavailable during execution: '' @ e"
| "cron_error_text (Cron_Conversation e) = conversation_error_text e"
| "cron_error_text (Cron_Database e) = db_error_text e"
| "cron_error_text (Cron_Json e) = ''JSON error: '' @ e"

fun from_conversation_create :: "conversation_error \<Rightarrow> cron_error" where
  "from_conversation_create (Conv_WorkspacePathUnavailable p) = Cron_WorkspacePathUnavailable p"
| "from_conversation_create (Conv_WorkspacePathRuntimeUnavailable p) = Cron_WorkspacePathRuntimeUnavailable p"
| "from_conversation_create e = Cron_Scheduler (''create conversation: '' @ conversation_error_text e)"


section \<open>Schedules\<close>

datatype cron_schedule =
    At timestamp_ms "string option"
  | Every int "string option"
  | Cron string "string option" "string option"

fun is_at :: "cron_schedule \<Rightarrow> bool" where
  "is_at (At _ _) \<longleftrightarrow> True"
| "is_at _ \<longleftrightarrow> False"

definition normalize_cron_expr :: "string \<Rightarrow> string" where
  "normalize_cron_expr expr =
    (let trimmed = trim expr
     in if length (split_whitespace trimmed) = 5 then ''0 '' @ trimmed else trimmed)"

text \<open>What the cron and time zone crates provide.\<close>

record ('s, 'z) calendar =
  parse_expr :: "string \<Rightarrow> string + 's"
  parse_zone :: "string \<Rightarrow> 'z option"
  utc_zone :: 'z
  time_exists :: "'z \<Rightarrow> timestamp_ms \<Rightarrow> bool"
  next_after :: "'s \<Rightarrow> 'z \<Rightarrow> timestamp_ms \<Rightarrow> timestamp_ms option"

definition validate_cron_expression :: "('s, 'z) calendar \<Rightarrow> string \<Rightarrow> cron_error + 's" where
  "validate_cron_expression cal expr =
    (case parse_expr cal (normalize_cron_expr expr) of
       Inl e \<Rightarrow> Inl (Cron_InvalidCronExpression (expr @ '': '' @ e))
     | Inr s \<Rightarrow> Inr s)"

definition validate_timezone :: "('s, 'z) calendar \<Rightarrow> string \<Rightarrow> cron_error + 'z" where
  "validate_timezone cal tz =
    (case parse_zone cal tz of None \<Rightarrow> Inl (Cron_InvalidTimezone tz) | Some z \<Rightarrow> Inr z)"

definition compute_cron_next_run ::
  "('s, 'z) calendar \<Rightarrow> string \<Rightarrow> string option \<Rightarrow> timestamp_ms \<Rightarrow> timestamp_ms option" where
  "compute_cron_next_run cal expr tz now =
    (case parse_expr cal (normalize_cron_expr expr) of
       Inl _ \<Rightarrow> None
     | Inr s \<Rightarrow>
        (case tz of
           Some name \<Rightarrow>
             (case parse_zone cal name of
                None \<Rightarrow> None
              | Some z \<Rightarrow> if time_exists cal z now then next_after cal s z now else None)
         | None \<Rightarrow> if time_exists cal (utc_zone cal) now then next_after cal s (utc_zone cal) now else None))"

fun compute_next_run :: "('s, 'z) calendar \<Rightarrow> cron_schedule \<Rightarrow> timestamp_ms \<Rightarrow> timestamp_ms option" where
  "compute_next_run cal (At at_ms _) now = Some at_ms"
| "compute_next_run cal (Every every_ms _) now =
    (if every_ms \<le> 0 then None else Some (wrap_i64 (now + every_ms)))"
| "compute_next_run cal (Cron expr tz _) now = compute_cron_next_run cal expr tz now"

fun compute_next_run_after_occurrence ::
  "('s, 'z) calendar \<Rightarrow> cron_schedule \<Rightarrow> timestamp_ms \<Rightarrow> timestamp_ms \<Rightarrow> timestamp_ms option" where
  "compute_next_run_after_occurrence cal (At _ _) scheduled_at now = None"
| "compute_next_run_after_occurrence cal (Every every_ms _) scheduled_at now =
    (if every_ms \<le> 0 then None
     else let elapsed = sat_i64 (now - scheduled_at);
              steps = wrap_i64 (elapsed div every_ms + 1)
          in Option.bind (checked_i64 (steps * every_ms)) (\<lambda>d. checked_i64 (scheduled_at + d)))"
| "compute_next_run_after_occurrence cal (Cron expr tz _) scheduled_at now =
    compute_cron_next_run cal expr tz (max now scheduled_at)"

fun validate_schedule :: "('s, 'z) calendar \<Rightarrow> cron_schedule \<Rightarrow> cron_error + unit" where
  "validate_schedule cal (At _ _) = Inr ()"
| "validate_schedule cal (Every every_ms _) =
    (if every_ms \<le> 0 then Inl (Cron_InvalidSchedule ''every_ms must be positive'') else Inr ())"
| "validate_schedule cal (Cron expr tz _) =
    (if trim expr = [] then Inr ()
     else case validate_cron_expression cal expr of
       Inl e \<Rightarrow> Inl e
     | Inr _ \<Rightarrow>
        (case tz of
           None \<Rightarrow> Inr ()
         | Some name \<Rightarrow> (case validate_timezone cal name of Inl e \<Rightarrow> Inl e | Inr _ \<Rightarrow> Inr ())))"


section \<open>The next occurrence\<close>

text \<open>
  The next occurrence of a recurring job is the first point of its grid that is still to come: none is
  repeated, none in the past is run, and the grid is never shifted by the time an execution took.
\<close>

lemma grid_next:
  fixes every s now :: int
  assumes "0 < every" and t: "t = s + ((now - s) div every + 1) * every"
  shows "now < t" and "t \<le> now + every" and "every dvd t - s"
    and "now < t' \<Longrightarrow> every dvd t' - s \<Longrightarrow> t \<le> t'"
proof -
  define q r where "q = (now - s) div every" and "r = (now - s) mod every"
  have "now = s + q * every + r" unfolding q_def r_def by simp
  moreover have "0 \<le> r" "r < every" using assms(1) by (simp_all add: r_def)
  moreover have t': "t = s + q * every + every" by (simp add: t q_def algebra_simps)
  ultimately show lt: "now < t" and le: "t \<le> now + every" by simp_all
  show dvd: "every dvd t - s" by (simp add: t)
  assume t': "now < t'" "every dvd t' - s"
  show "t \<le> t'"
  proof (rule ccontr)
    assume "\<not> t \<le> t'"
    moreover have "every dvd t - t'" using dvd_diff [OF dvd t'(2)] by simp
    ultimately have "every \<le> t - t'" by (simp add: zdvd_imp_le)
    with le t'(1) show False by simp
  qed
qed

lemma div_bounded:
  fixes x e :: int
  assumes "0 < e"
  shows "min 0 x \<le> x div e" and "x div e \<le> max 0 x"
proof -
  have "x \<le> x div e" if "x < 0" using zdiv_mono2_neg [of x 1 e] that assms by simp
  moreover have "x div e \<le> x" if "0 \<le> x" using zdiv_mono2 [of x 1 e] that assms by simp
  moreover have "0 \<le> x \<Longrightarrow> 0 \<le> x div e" "x < 0 \<Longrightarrow> x div e < 0"
    using assms by (simp_all add: pos_imp_zdiv_nonneg_iff pos_imp_zdiv_neg_iff)
  ultimately show "min 0 x \<le> x div e" and "x div e \<le> max 0 x" by (cases "x < 0"; simp)+
qed

text \<open>The arithmetic of the code reaches the grid point exactly, or leaves the range with it.\<close>

lemma every_next:
  assumes "0 < every" and "0 \<le> s" "i64_ok s" and "0 \<le> now" "i64_ok (now + 1)"
  shows "compute_next_run_after_occurrence cal (Every every d) s now
    = checked_i64 (s + ((now - s) div every + 1) * every)"
proof -
  define k where "k = (now - s) div every + 1"
  have t: "s + k * every = s + ((now - s) div every + 1) * every" by (simp add: k_def)
  from assms have el: "i64_ok (now - s)" by (simp add: i64_ok_def)
  have k: "i64_ok k"
    using div_bounded [OF assms(1), of "now - s"] assms(2-) unfolding k_def i64_ok_def by linarith
  have pos: "0 < s + k * every" using grid_next(1) [OF assms(1) t] assms by simp
  have result: "compute_next_run_after_occurrence cal (Every every d) s now =
      Option.bind (checked_i64 (k * every)) (\<lambda>d. checked_i64 (s + d))"
    using el k assms(1) by (simp add: Let_def k_def)
  have "i64_ok (s + k * every) \<Longrightarrow> i64_ok (k * every)" using assms(2,3) pos unfolding i64_ok_def by linarith
  then show ?thesis unfolding result t [symmetric] by (auto simp: checked_i64_def)
qed

text \<open>C31: the next occurrence of a recurring schedule after one that was scheduled at any time is the
  earliest point of its grid still in the future; when there is none the time range is exhausted.\<close>

theorem next_occurrence_is_first_on_grid:
  assumes "0 < every" and "0 \<le> scheduled_at" "i64_ok scheduled_at" and "0 \<le> now" "i64_ok (now + 1)"
  shows "case compute_next_run_after_occurrence cal (Every every d) scheduled_at now of
      Some t \<Rightarrow> now < t \<and> t \<le> now + every \<and> every dvd t - scheduled_at \<and>
        (\<forall>t'. now < t' \<and> every dvd t' - scheduled_at \<longrightarrow> t \<le> t')
    | None \<Rightarrow> \<forall>t. now < t \<and> every dvd t - scheduled_at \<longrightarrow> \<not> i64_ok t"
proof -
  define t where "t = scheduled_at + ((now - scheduled_at) div every + 1) * every"
  note grid = grid_next [OF assms(1) t_def]
  have "compute_next_run_after_occurrence cal (Every every d) scheduled_at now = checked_i64 t"
    unfolding t_def by (rule every_next [OF assms])
  moreover have "\<not> i64_ok t \<Longrightarrow> now < t' \<Longrightarrow> every dvd t' - scheduled_at \<Longrightarrow> \<not> i64_ok t'" for t'
    using grid(1) grid(4) [of t'] assms(4) unfolding i64_ok_def by linarith
  ultimately show ?thesis using grid by (auto simp: checked_i64_def)
qed

definition clockless_calendar :: "(unit, unit) calendar" where
  "clockless_calendar = \<lparr>parse_expr = (\<lambda>_. Inl []), parse_zone = (\<lambda>_. None), utc_zone = (),
     time_exists = (\<lambda>_ _. True), next_after = (\<lambda>_ _ _. None)\<rparr>"

lemma next_occurrence_is_first_on_grid_witness:
  "compute_next_run_after_occurrence clockless_calendar (Every 10000 None) 5000 31000 = Some 35000
    \<and> \<not> (\<exists>t'. 31000 < t' \<and> t' < 35000 \<and> 10000 dvd t' - (5000::int))"
proof -
  have "compute_next_run_after_occurrence clockless_calendar (Every 10000 None) 5000 31000 = Some 35000"
    by (simp add: Let_def sat_i64_def wrap_i64_def checked_i64_def i64_ok_def)
  with next_occurrence_is_first_on_grid [of 10000 5000 31000 clockless_calendar None] show ?thesis
    by (auto simp: i64_ok_def)
qed

text \<open>
  The first run is not protected in the same way: \<open>validate_schedule\<close> accepts every positive interval,
  and a huge one wraps in the release build, so the first run of the job lies in the past.
\<close>

lemma huge_interval_runs_at_once:
  assumes "0 < now" "i64_ok now"
  shows "validate_schedule cal (Every (2 ^ 63 - 1) d) = Inr ()"
    and "\<exists>t. compute_next_run cal (Every (2 ^ 63 - 1) d) now = Some t \<and> t < now"
proof -
  have "now + (2 ^ 63 - 1) + 2 ^ 63 = (now - 1) + 2 ^ 64" by simp
  then have "(now + (2 ^ 63 - 1) + 2 ^ 63) mod 2 ^ 64 = (now - 1 :: int)"
    using assms by (simp only: mod_add_self2) (simp add: i64_ok_def)
  then show "\<exists>t. compute_next_run cal (Every (2 ^ 63 - 1) d) now = Some t \<and> t < now"
    by (simp add: wrap_i64_def)
qed simp

end
