(* ===== verification/Cron_Jobs.thy ===== *)
theory Cron_Jobs
  imports Cron_Schedule
begin

text \<open>
  The cron job as the service keeps it and as the database stores it: \<open>types.rs\<close> of
  \<open>crates/aionui-cron\<close> and \<open>models/cron_job.rs\<close> of \<open>crates/aionui-db\<close>, with the conversions between
  the two. A row holds texts where the job has enumerations; the agent configuration is stored as
  JSON, whose encoder and decoder (\<open>serde_json\<close>) are parameters.
\<close>

section \<open>Enumerations\<close>

datatype execution_mode = Existing | NewConversation

fun execution_mode_as_str :: "execution_mode \<Rightarrow> string" where
  "execution_mode_as_str Existing = ''existing''"
| "execution_mode_as_str NewConversation = ''new_conversation''"

definition execution_mode_from_str :: "string \<Rightarrow> cron_error + execution_mode" where
  "execution_mode_from_str s =
    (if s = ''existing'' then Inr Existing
     else if s = ''new_conversation'' then Inr NewConversation
     else Inl (Cron_InvalidExecutionMode s))"

datatype created_by = User | Agent

fun created_by_as_str :: "created_by \<Rightarrow> string" where
  "created_by_as_str User = ''user''"
| "created_by_as_str Agent = ''agent''"

definition created_by_from_str :: "string \<Rightarrow> cron_error + created_by" where
  "created_by_from_str s =
    (if s = ''user'' then Inr User
     else if s = ''agent'' then Inr Agent
     else Inl (Cron_InvalidCreatedBy s))"

datatype job_status = JobOk | JobError | JobSkipped | JobMissed

fun job_status_as_str :: "job_status \<Rightarrow> string" where
  "job_status_as_str JobOk = ''ok''"
| "job_status_as_str JobError = ''error''"
| "job_status_as_str JobSkipped = ''skipped''"
| "job_status_as_str JobMissed = ''missed''"

definition job_status_from_str :: "string \<Rightarrow> cron_error + job_status" where
  "job_status_from_str s =
    (if s = ''ok'' then Inr JobOk
     else if s = ''error'' then Inr JobError
     else if s = ''skipped'' then Inr JobSkipped
     else if s = ''missed'' then Inr JobMissed
     else Inl (Cron_InvalidJobStatus s))"

named_theorems cron_text \<open>the texts of the enumerations parse back\<close>

lemma execution_mode_round [simp, cron_text]: "execution_mode_from_str (execution_mode_as_str m) = Inr m"
  by (cases m) (simp_all add: execution_mode_from_str_def)

lemma created_by_round [simp, cron_text]: "created_by_from_str (created_by_as_str c) = Inr c"
  by (cases c) (simp_all add: created_by_from_str_def)

lemma job_status_round [simp, cron_text]: "job_status_from_str (job_status_as_str s) = Inr s"
  by (cases s) (simp_all add: job_status_from_str_def)


section \<open>Jobs and rows\<close>

record provider_with_model =
  pm_provider_id :: string
  pm_model :: string
  pm_use_model :: "string option"

record cron_agent_config =
  cfg_name :: string
  cfg_cli_path :: "string option"
  cfg_is_preset :: "bool option"
  cfg_assistant_id :: "string option"
  cfg_custom_agent_id :: "string option"
  cfg_mode :: "string option"
  cfg_model_id :: "string option"
  cfg_model :: "provider_with_model option"
  cfg_config_options :: "(string \<times> string) list option"
  cfg_workspace :: "string option"
  cfg_skill_ids :: "string list"
  cfg_disabled_builtin_skill_ids :: "string list"
  cfg_mcp_ids :: "string list"
  cfg_exclude_auto_inject_skills :: "string list"

record cron_job =
  job_id :: string
  job_user_id :: string
  job_name :: string
  job_enabled :: bool
  job_schedule :: cron_schedule
  job_message :: string
  job_execution_mode :: execution_mode
  job_agent_config :: "cron_agent_config option"
  job_conversation_id :: string
  job_conversation_title :: "string option"
  job_agent_type :: string
  job_created_by :: created_by
  job_skill_content :: "string option"
  job_description :: "string option"
  job_created_at :: timestamp_ms
  job_updated_at :: timestamp_ms
  job_next_run_at :: "timestamp_ms option"
  job_last_run_at :: "timestamp_ms option"
  job_last_status :: "job_status option"
  job_last_error :: "string option"
  job_run_count :: int
  job_retry_count :: int
  job_max_retries :: int
  job_queue_enabled :: bool

record cron_job_row =
  row_id :: string
  row_user_id :: string
  row_name :: string
  row_enabled :: bool
  row_schedule_kind :: string
  row_schedule_value :: string
  row_schedule_tz :: "string option"
  row_schedule_description :: "string option"
  row_payload_message :: string
  row_execution_mode :: string
  row_agent_config :: "string option"
  row_conversation_id :: string
  row_conversation_title :: "string option"
  row_created_by :: string
  row_skill_content :: "string option"
  row_description :: "string option"
  row_created_at :: timestamp_ms
  row_updated_at :: timestamp_ms
  row_next_run_at :: "timestamp_ms option"
  row_last_run_at :: "timestamp_ms option"
  row_last_status :: "string option"
  row_last_error :: "string option"
  row_run_count :: int
  row_retry_count :: int
  row_max_retries :: int
  row_queue_enabled :: bool


section \<open>Between jobs and rows\<close>

text \<open>A text between single quotation marks.\<close>

definition quoted :: "string \<Rightarrow> string" where
  "quoted s = CHR 0x27 # s @ [CHR 0x27]"

text \<open>\<open>Option::transpose\<close>: a missing value is no error.\<close>

fun transpose_result :: "('e + 'a) option \<Rightarrow> 'e + 'a option" where
  "transpose_result None = Inr None"
| "transpose_result (Some (Inl e)) = Inl e"
| "transpose_result (Some (Inr a)) = Inr (Some a)"

definition parse_schedule ::
  "string \<Rightarrow> string \<Rightarrow> string option \<Rightarrow> string option \<Rightarrow> cron_error + cron_schedule" where
  "parse_schedule kind value tz description =
    (if kind = ''at'' then
       (case parse_i64 value of
          Inl e \<Rightarrow> Inl (Cron_InvalidSchedule (''invalid at_ms '' @ quoted value @ '': '' @ e))
        | Inr at_ms \<Rightarrow> Inr (At at_ms description))
     else if kind = ''every'' then
       (case parse_i64 value of
          Inl e \<Rightarrow> Inl (Cron_InvalidSchedule (''invalid every_ms '' @ quoted value @ '': '' @ e))
        | Inr every_ms \<Rightarrow> Inr (Every every_ms description))
     else if kind = ''cron'' then Inr (Cron value tz description)
     else Inl (Cron_InvalidSchedule (''unknown schedule kind: '' @ kind)))"

fun schedule_to_row_fields :: "cron_schedule \<Rightarrow> string \<times> string \<times> string option \<times> string option" where
  "schedule_to_row_fields (At at_ms d) = (''at'', show_i64 at_ms, None, d)"
| "schedule_to_row_fields (Every every_ms d) = (''every'', show_i64 every_ms, None, d)"
| "schedule_to_row_fields (Cron expr tz d) = (''cron'', expr, tz, d)"


text \<open>What \<open>serde_json\<close> provides: the texts of an agent configuration.\<close>

record codec =
  config_to_json :: "cron_agent_config \<Rightarrow> string"
  config_from_json :: "string \<Rightarrow> string + cron_agent_config"

definition cron_job_to_row :: "codec \<Rightarrow> cron_job \<Rightarrow> cron_job_row" where
  "cron_job_to_row js job =
    (case schedule_to_row_fields (job_schedule job) of (kind, value, tz, description) \<Rightarrow>
     \<lparr>row_id = job_id job, row_user_id = job_user_id job, row_name = job_name job, row_enabled = job_enabled job,
      row_schedule_kind = kind, row_schedule_value = value, row_schedule_tz = tz,
      row_schedule_description = description, row_payload_message = job_message job,
      row_execution_mode = execution_mode_as_str (job_execution_mode job),
      row_agent_config = map_option (config_to_json js) (job_agent_config job),
      row_conversation_id = job_conversation_id job, row_conversation_title = job_conversation_title job,
      row_created_by = created_by_as_str (job_created_by job), row_skill_content = job_skill_content job,
      row_description = job_description job, row_created_at = job_created_at job,
      row_updated_at = job_updated_at job, row_next_run_at = job_next_run_at job,
      row_last_run_at = job_last_run_at job, row_last_status = map_option job_status_as_str (job_last_status job),
      row_last_error = job_last_error job, row_run_count = job_run_count job,
      row_retry_count = job_retry_count job, row_max_retries = job_max_retries job,
      row_queue_enabled = job_queue_enabled job\<rparr>)"

definition decode_config :: "codec \<Rightarrow> string \<Rightarrow> cron_error + cron_agent_config" where
  "decode_config js s = (case config_from_json js s of Inl e \<Rightarrow> Inl (Cron_Json e) | Inr c \<Rightarrow> Inr c)"

definition cron_job_from_row :: "codec \<Rightarrow> cron_job_row \<Rightarrow> cron_error + cron_job" where
  "cron_job_from_row js row =
    (case parse_schedule (row_schedule_kind row) (row_schedule_value row) (row_schedule_tz row)
        (row_schedule_description row) of
       Inl e \<Rightarrow> Inl e
     | Inr schedule \<Rightarrow>
    (case execution_mode_from_str (row_execution_mode row) of
       Inl e \<Rightarrow> Inl e
     | Inr mode \<Rightarrow>
    (case created_by_from_str (row_created_by row) of
       Inl e \<Rightarrow> Inl e
     | Inr creator \<Rightarrow>
    (case transpose_result (map_option (decode_config js) (row_agent_config row)) of
       Inl e \<Rightarrow> Inl e
     | Inr config \<Rightarrow>
    (case transpose_result (map_option job_status_from_str (row_last_status row)) of
       Inl e \<Rightarrow> Inl e
     | Inr status \<Rightarrow>
       Inr \<lparr>job_id = row_id row, job_user_id = row_user_id row, job_name = row_name row,
         job_enabled = row_enabled row, job_schedule = schedule, job_message = row_payload_message row,
         job_execution_mode = mode, job_agent_config = config, job_conversation_id = row_conversation_id row,
         job_conversation_title = row_conversation_title row, job_agent_type = [], job_created_by = creator,
         job_skill_content = row_skill_content row, job_description = row_description row,
         job_created_at = row_created_at row, job_updated_at = row_updated_at row,
         job_next_run_at = row_next_run_at row, job_last_run_at = row_last_run_at row,
         job_last_status = status, job_last_error = row_last_error row, job_run_count = row_run_count row,
         job_retry_count = row_retry_count row, job_max_retries = row_max_retries row,
         job_queue_enabled = row_queue_enabled row\<rparr>)))))"

text \<open>A schedule whose numbers fit their type, as every value of the source's type does.\<close>

fun schedule_ok :: "cron_schedule \<Rightarrow> bool" where
  "schedule_ok (At at_ms _) \<longleftrightarrow> i64_ok at_ms"
| "schedule_ok (Every every_ms _) \<longleftrightarrow> i64_ok every_ms"
| "schedule_ok (Cron _ _ _) \<longleftrightarrow> True"

lemma schedule_round:
  "schedule_ok s \<Longrightarrow> schedule_to_row_fields s = (k, v, tz, d) \<Longrightarrow> parse_schedule k v tz d = Inr s"
  by (cases s) (auto simp: parse_schedule_def)

lemma transpose_round:
  "(\<And>a. x = Some a \<Longrightarrow> from (to a) = Inr a) \<Longrightarrow> transpose_result (map_option from (map_option to x)) = Inr x"
  by (cases x) simp_all

lemma job_row_round:
  assumes "schedule_ok (job_schedule job)"
    and "\<And>c. job_agent_config job = Some c \<Longrightarrow> config_from_json js (config_to_json js c) = Inr c"
  shows "cron_job_from_row js (cron_job_to_row js job) = Inr (job\<lparr>job_agent_type := []\<rparr>)"
proof -
  obtain k v tz d where fields: "schedule_to_row_fields (job_schedule job) = (k, v, tz, d)"
    by (metis prod_cases4)
  have "transpose_result (map_option (decode_config js) (map_option (config_to_json js) (job_agent_config job)))
      = Inr (job_agent_config job)"
    by (rule transpose_round) (simp add: decode_config_def assms(2))
  then show ?thesis
    using schedule_round [OF assms(1) fields]
    by (simp add: cron_job_from_row_def cron_job_to_row_def fields transpose_round)
qed

text \<open>C32: a job that is stored and read back is the job that was stored, save for the runtime type
  of its agent, which is not stored.\<close>

theorem stored_job_reads_back:
  assumes "schedule_ok (job_schedule job)"
    and "\<And>c. job_agent_config job = Some c \<Longrightarrow> config_from_json js (config_to_json js c) = Inr c"
  shows "cron_job_from_row js (cron_job_to_row js job) = Inr (job\<lparr>job_agent_type := []\<rparr>)"
  using assms by (rule job_row_round)

definition sample_config :: cron_agent_config where
  "sample_config = \<lparr>cfg_name = ''Claude'', cfg_cli_path = None, cfg_is_preset = None,
     cfg_assistant_id = Some ''a1'', cfg_custom_agent_id = None, cfg_mode = None, cfg_model_id = None,
     cfg_model = None, cfg_config_options = None, cfg_workspace = None, cfg_skill_ids = [],
     cfg_disabled_builtin_skill_ids = [], cfg_mcp_ids = [], cfg_exclude_auto_inject_skills = []\<rparr>"

definition sample_codec :: codec where
  "sample_codec = \<lparr>config_to_json = (\<lambda>_. ''{}''), config_from_json = (\<lambda>_. Inr sample_config)\<rparr>"

definition sample_job :: cron_job where
  "sample_job = \<lparr>job_id = ''cron_1'', job_user_id = ''u1'', job_name = ''Report'', job_enabled = True,
     job_schedule = Every 60000 None, job_message = ''go'', job_execution_mode = Existing,
     job_agent_config = Some sample_config, job_conversation_id = ''c1'', job_conversation_title = None,
     job_agent_type = ''acp'', job_created_by = User, job_skill_content = None, job_description = None,
     job_created_at = 1000, job_updated_at = 1000, job_next_run_at = Some 61000, job_last_run_at = None,
     job_last_status = Some JobMissed, job_last_error = None, job_run_count = 0, job_retry_count = 0,
     job_max_retries = 3, job_queue_enabled = False\<rparr>"

lemma sample_job_round:
  "cron_job_from_row sample_codec (cron_job_to_row sample_codec sample_job) = Inr (sample_job\<lparr>job_agent_type := []\<rparr>)"
  by (rule job_row_round) (simp_all add: sample_job_def sample_codec_def i64_ok_def)

lemma stored_job_reads_back_witness:
  "cron_job_from_row sample_codec (cron_job_to_row sample_codec sample_job) = Inr (sample_job\<lparr>job_agent_type := []\<rparr>)
    \<and> row_schedule_value (cron_job_to_row sample_codec sample_job) = ''60000''"
proof -
  have "schedule_ok (job_schedule sample_job)" by (simp add: sample_job_def i64_ok_def)
  moreover have "config_from_json sample_codec (config_to_json sample_codec c) = Inr c"
    if "job_agent_config sample_job = Some c" for c using that by (simp add: sample_job_def sample_codec_def)
  moreover have "row_schedule_value (cron_job_to_row sample_codec sample_job) = ''60000''"
    by (simp add: cron_job_to_row_def sample_job_def show_i64_def show_nat.simps digit_chars)
  ultimately show ?thesis using stored_job_reads_back [of sample_job sample_codec] by blast
qed

end
