(* ===== verification/Cron_Store.thy ===== *)
theory Cron_Store
  imports Cron_Jobs
begin

text \<open>
  The tables of the cron service, \<open>repository/cron.rs\<close> and \<open>repository/sqlite_cron.rs\<close> of
  \<open>crates/aionui-db\<close> with the migration \<open>022_cron_execution_dedup.sql\<close>: the jobs, the runs of their
  occurrences and, of the conversations, who owns each.

  A table is an association list in insertion order. An \<open>UPDATE .. WHERE\<close> changes the rows that match
  and answers whether there was one; a transaction is one step, as SQLite serialises writers. A query
  that fails leaves the tables as they are: the services decide what a failure means. The random
  identifier of a run is never read and is left out.
\<close>

section \<open>Runs of occurrences\<close>

text \<open>The texts the table's \<open>CHECK\<close> allows for a run's status.\<close>

datatype cron_run_status = Running | Retrying | RunOk | RunError | RunSkipped

record cron_run =
  run_state :: cron_run_status
  run_owner :: "string option"
  run_lease :: "timestamp_ms option"
  run_conversation :: "string option"
  run_error :: "string option"
  run_started :: "timestamp_ms option"
  run_finished :: "timestamp_ms option"
  run_created :: timestamp_ms
  run_updated :: timestamp_ms

record cron_db =
  db_jobs :: "(string \<times> cron_job_row) list"
  db_runs :: "((string \<times> timestamp_ms) \<times> cron_run) list"
  db_conversations :: "(string \<times> string) list"

abbreviation the_run :: "cron_db \<Rightarrow> string \<Rightarrow> timestamp_ms \<Rightarrow> cron_run option" where
  "the_run db j t \<equiv> map_of (db_runs db) (j, t)"

text \<open>\<open>EXISTS (SELECT 1 FROM cron_jobs WHERE id = ? AND user_id IS NOT NULL AND user_id != '')\<close>.\<close>

definition job_has_owner :: "cron_db \<Rightarrow> string \<Rightarrow> bool" where
  "job_has_owner db j = (case map_of (db_jobs db) j of Some row \<Rightarrow> row_user_id row \<noteq> [] | None \<Rightarrow> False)"

definition unfinished :: "cron_run \<Rightarrow> bool" where
  "unfinished r \<longleftrightarrow> run_state r = Running \<or> run_state r = Retrying"

definition lease_passed :: "timestamp_ms \<Rightarrow> cron_run \<Rightarrow> bool" where
  "lease_passed now r = (case run_lease r of Some l \<Rightarrow> l \<le> now | None \<Rightarrow> False)"

definition lease_running :: "timestamp_ms \<Rightarrow> cron_run \<Rightarrow> bool" where
  "lease_running now r = (case run_lease r of Some l \<Rightarrow> now < l | None \<Rightarrow> False)"

definition has_active_run :: "cron_db \<Rightarrow> string \<Rightarrow> timestamp_ms \<Rightarrow> bool" where
  "has_active_run db j now = list_ex (\<lambda>((j', _), r). j' = j \<and> unfinished r \<and> lease_running now r) (db_runs db)"

definition set_run :: "string \<Rightarrow> timestamp_ms \<Rightarrow> cron_run \<Rightarrow> cron_db \<Rightarrow> cron_db" where
  "set_run j t r db = db\<lparr>db_runs := AList.update (j, t) r (db_runs db)\<rparr>"


section \<open>Claiming an occurrence\<close>

record claim_params =
  claim_job_id :: string
  claim_scheduled_at :: timestamp_ms
  claim_owner_id :: string
  claim_now :: timestamp_ms
  claim_lease_until :: timestamp_ms
  claim_queue_enabled :: bool

datatype claim_result = Claimed | Duplicate | QueueBusy

definition claim_run :: "claim_params \<Rightarrow> cron_db \<Rightarrow> claim_result \<times> cron_db" where
  "claim_run p db =
    (let j = claim_job_id p; t = claim_scheduled_at p; now = claim_now p
     in if \<not> job_has_owner db j then (Duplicate, db)
     else case the_run db j t of
       Some r \<Rightarrow>
         if unfinished r \<and> lease_passed now r
         then (Claimed, set_run j t (r\<lparr>run_state := Running, run_owner := Some (claim_owner_id p),
                 run_lease := Some (claim_lease_until p),
                 run_started := (case run_started r of None \<Rightarrow> Some now | Some s \<Rightarrow> Some s),
                 run_finished := None, run_error := None, run_updated := now\<rparr>) db)
         else (Duplicate, db)
     | None \<Rightarrow>
         if claim_queue_enabled p \<and> has_active_run db j now
         then (QueueBusy, set_run j t \<lparr>run_state = RunSkipped, run_owner = None, run_lease = None,
                 run_conversation = None, run_error = None, run_started = None, run_finished = Some now,
                 run_created = now, run_updated = now\<rparr> db)
         else (Claimed, set_run j t \<lparr>run_state = Running, run_owner = Some (claim_owner_id p),
                 run_lease = Some (claim_lease_until p), run_conversation = None, run_error = None,
                 run_started = Some now, run_finished = None, run_created = now, run_updated = now\<rparr> db))"

text \<open>The condition under which \<open>renew_run_lease\<close>, \<open>defer_run\<close> and \<open>finish_run\<close> find their row.\<close>

definition held_run :: "cron_db \<Rightarrow> string \<Rightarrow> timestamp_ms \<Rightarrow> string \<Rightarrow> cron_run option" where
  "held_run db j t owner =
    (case the_run db j t of
       Some r \<Rightarrow> if run_state r = Running \<and> run_owner r = Some owner \<and> job_has_owner db j then Some r else None
     | None \<Rightarrow> None)"

definition renew_run_lease ::
  "string \<Rightarrow> timestamp_ms \<Rightarrow> string \<Rightarrow> timestamp_ms \<Rightarrow> timestamp_ms \<Rightarrow> cron_db \<Rightarrow> bool \<times> cron_db" where
  "renew_run_lease j t owner lease_until now db =
    (case held_run db j t owner of
       None \<Rightarrow> (False, db)
     | Some r \<Rightarrow> (True, set_run j t (r\<lparr>run_lease := Some lease_until, run_updated := now\<rparr>) db))"

definition defer_run ::
  "string \<Rightarrow> timestamp_ms \<Rightarrow> string \<Rightarrow> timestamp_ms \<Rightarrow> timestamp_ms \<Rightarrow> cron_db \<Rightarrow> bool \<times> cron_db" where
  "defer_run j t owner retry_at now db =
    (case held_run db j t owner of
       None \<Rightarrow> (False, db)
     | Some r \<Rightarrow> (True, set_run j t (r\<lparr>run_state := Retrying, run_owner := None, run_lease := Some retry_at,
                      run_updated := now\<rparr>) db))"

record finish_params =
  fin_job_id :: string
  fin_scheduled_at :: timestamp_ms
  fin_owner_id :: string
  fin_status :: cron_run_status
  fin_conversation_id :: "string option"
  fin_error :: "string option"
  fin_finished_at :: timestamp_ms

definition finish_run :: "finish_params \<Rightarrow> cron_db \<Rightarrow> bool \<times> cron_db" where
  "finish_run p db =
    (case held_run db (fin_job_id p) (fin_scheduled_at p) (fin_owner_id p) of
       None \<Rightarrow> (False, db)
     | Some r \<Rightarrow> (True, set_run (fin_job_id p) (fin_scheduled_at p)
         (r\<lparr>run_state := fin_status p, run_conversation := fin_conversation_id p, run_error := fin_error p,
            run_lease := None, run_finished := Some (fin_finished_at p), run_updated := fin_finished_at p\<rparr>) db))"

definition is_stale :: "timestamp_ms \<Rightarrow> cron_run \<Rightarrow> bool" where
  "is_stale cutoff r \<longleftrightarrow> \<not> unfinished r \<and> (case run_finished r of Some f \<Rightarrow> f < cutoff | None \<Rightarrow> False)"

definition cleanup_runs_before :: "timestamp_ms \<Rightarrow> cron_db \<Rightarrow> nat \<times> cron_db" where
  "cleanup_runs_before cutoff db =
    (length (filter (is_stale cutoff \<circ> snd) (db_runs db)),
     db\<lparr>db_runs := filter (\<lambda>e. \<not> is_stale cutoff (snd e)) (db_runs db)\<rparr>)"

record recoverable_run =
  rec_scheduled_at :: timestamp_ms
  rec_wake_at :: timestamp_ms

text \<open>The job's unfinished runs, earliest lease first.\<close>

definition unfinished_runs :: "string \<Rightarrow> cron_db \<Rightarrow> ((string \<times> timestamp_ms) \<times> cron_run) list" where
  "unfinished_runs j db = sort_key (\<lambda>(_, r). the (run_lease r))
     (filter (\<lambda>((j', _), r). j' = j \<and> unfinished r \<and> run_lease r \<noteq> None) (db_runs db))"

definition get_recoverable_run :: "string \<Rightarrow> timestamp_ms \<Rightarrow> cron_db \<Rightarrow> recoverable_run option" where
  "get_recoverable_run j now db =
    (if \<not> job_has_owner db j then None
     else case unfinished_runs j db of
       [] \<Rightarrow> None
     | ((_, t), r) # _ \<Rightarrow> Some \<lparr>rec_scheduled_at = t, rec_wake_at = max (the (run_lease r)) now\<rparr>)"


section \<open>Jobs\<close>

record update_params =
  up_name :: "string option"
  up_enabled :: "bool option"
  up_schedule_kind :: "string option"
  up_schedule_value :: "string option"
  up_schedule_tz :: "string option option"
  up_schedule_description :: "string option option"
  up_payload_message :: "string option"
  up_execution_mode :: "string option"
  up_agent_config :: "string option option"
  up_conversation_id :: "string option"
  up_conversation_title :: "string option option"
  up_skill_content :: "string option option"
  up_description :: "string option option"
  up_next_run_at :: "timestamp_ms option option"
  up_last_run_at :: "timestamp_ms option option"
  up_last_status :: "string option option"
  up_last_error :: "string option option"
  up_run_count :: "int option"
  up_retry_count :: "int option"
  up_queue_enabled :: "bool option"

definition no_update :: update_params where
  "no_update = \<lparr>up_name = None, up_enabled = None, up_schedule_kind = None, up_schedule_value = None,
     up_schedule_tz = None, up_schedule_description = None, up_payload_message = None,
     up_execution_mode = None, up_agent_config = None, up_conversation_id = None,
     up_conversation_title = None, up_skill_content = None, up_description = None, up_next_run_at = None,
     up_last_run_at = None, up_last_status = None, up_last_error = None, up_run_count = None,
     up_retry_count = None, up_queue_enabled = None\<rparr>"

text \<open>\<open>SET column = ?\<close> for the columns that are given.\<close>

abbreviation given :: "'a option \<Rightarrow> 'a \<Rightarrow> 'a" where
  "given v old \<equiv> (case v of Some x \<Rightarrow> x | None \<Rightarrow> old)"

definition apply_update :: "update_params \<Rightarrow> timestamp_ms \<Rightarrow> cron_job_row \<Rightarrow> cron_job_row" where
  "apply_update p now row = row\<lparr>
     row_enabled := given (up_enabled p) (row_enabled row),
     row_queue_enabled := given (up_queue_enabled p) (row_queue_enabled row),
     row_name := given (up_name p) (row_name row),
     row_schedule_kind := given (up_schedule_kind p) (row_schedule_kind row),
     row_schedule_value := given (up_schedule_value p) (row_schedule_value row),
     row_schedule_tz := given (up_schedule_tz p) (row_schedule_tz row),
     row_schedule_description := given (up_schedule_description p) (row_schedule_description row),
     row_payload_message := given (up_payload_message p) (row_payload_message row),
     row_execution_mode := given (up_execution_mode p) (row_execution_mode row),
     row_agent_config := given (up_agent_config p) (row_agent_config row),
     row_conversation_id := given (up_conversation_id p) (row_conversation_id row),
     row_conversation_title := given (up_conversation_title p) (row_conversation_title row),
     row_skill_content := given (up_skill_content p) (row_skill_content row),
     row_description := given (up_description p) (row_description row),
     row_next_run_at := given (up_next_run_at p) (row_next_run_at row),
     row_last_run_at := given (up_last_run_at p) (row_last_run_at row),
     row_last_status := given (up_last_status p) (row_last_status row),
     row_last_error := given (up_last_error p) (row_last_error row),
     row_run_count := given (up_run_count p) (row_run_count row),
     row_retry_count := given (up_retry_count p) (row_retry_count row),
     row_updated_at := now\<rparr>"

definition owns_conversation :: "cron_db \<Rightarrow> string \<Rightarrow> string \<Rightarrow> bool" where
  "owns_conversation db user c \<longleftrightarrow> map_of (db_conversations db) c = Some user"

definition validate_conversation_owner :: "cron_db \<Rightarrow> string \<Rightarrow> string \<Rightarrow> db_error + unit" where
  "validate_conversation_owner db user c =
    (if trim c = [] \<or> owns_conversation db user c then Inr ()
     else Inl (Db_NotFound (''conversation '' @ quoted c)))"

abbreviation no_job :: "string \<Rightarrow> db_error" where
  "no_job j \<equiv> Db_NotFound (''cron job '' @ quoted j)"

text \<open>The row of a job, when it belongs to the user.\<close>

definition get_by_id_for_user :: "string \<Rightarrow> string \<Rightarrow> cron_db \<Rightarrow> cron_job_row option" where
  "get_by_id_for_user user j db =
    (case map_of (db_jobs db) j of
       Some row \<Rightarrow> if row_user_id row = user then Some row else None
     | None \<Rightarrow> None)"

definition get_by_id_system :: "string \<Rightarrow> cron_db \<Rightarrow> cron_job_row option" where
  "get_by_id_system j db = map_of (db_jobs db) j"

definition update_for_user ::
  "string \<Rightarrow> string \<Rightarrow> update_params \<Rightarrow> timestamp_ms \<Rightarrow> cron_db \<Rightarrow> (db_error + unit) \<times> cron_db" where
  "update_for_user user j p now db =
    (if p = no_update then (Inr (), db)
     else case (case up_conversation_id p of
                  Some c \<Rightarrow> validate_conversation_owner db user c | None \<Rightarrow> Inr ()) of
       Inl e \<Rightarrow> (Inl e, db)
     | Inr _ \<Rightarrow>
       (case get_by_id_for_user user j db of
          None \<Rightarrow> (Inl (no_job j), db)
        | Some row \<Rightarrow> (Inr (), db\<lparr>db_jobs := modify j (apply_update p now) (db_jobs db)\<rparr>)))"

definition insert_job :: "cron_job_row \<Rightarrow> cron_db \<Rightarrow> (db_error + unit) \<times> cron_db" where
  "insert_job row db =
    (case (if row_execution_mode row = ''existing''
           then validate_conversation_owner db (row_user_id row) (row_conversation_id row) else Inr ()) of
       Inl e \<Rightarrow> (Inl e, db)
     | Inr _ \<Rightarrow>
       if map_of (db_jobs db) (row_id row) \<noteq> None then (Inl (Db_Query ''UNIQUE constraint failed''), db)
       else (Inr (), db\<lparr>db_jobs := db_jobs db @ [(row_id row, row)]\<rparr>))"

text \<open>Deleting a job deletes its runs with it (\<open>ON DELETE CASCADE\<close>).\<close>

definition delete_for_user :: "string \<Rightarrow> string \<Rightarrow> cron_db \<Rightarrow> (db_error + unit) \<times> cron_db" where
  "delete_for_user user j db =
    (case get_by_id_for_user user j db of
       None \<Rightarrow> (Inl (no_job j), db)
     | Some row \<Rightarrow> (Inr (), db\<lparr>db_jobs := AList.delete j (db_jobs db),
         db_runs := filter (\<lambda>((j', _), _). j' \<noteq> j) (db_runs db)\<rparr>))"

definition list_all_for_user :: "string \<Rightarrow> cron_db \<Rightarrow> cron_job_row list" where
  "list_all_for_user user db = sort_key row_created_at (filter (\<lambda>row. row_user_id row = user) (vals (db_jobs db)))"

definition list_by_conversation_for_user :: "string \<Rightarrow> string \<Rightarrow> cron_db \<Rightarrow> cron_job_row list" where
  "list_by_conversation_for_user user c db =
    sort_key row_created_at (filter (\<lambda>row. row_user_id row = user \<and> row_conversation_id row = c) (vals (db_jobs db)))"

definition list_enabled_system :: "cron_db \<Rightarrow> cron_job_row list" where
  "list_enabled_system db = sort_key row_created_at (filter row_enabled (vals (db_jobs db)))"

end
