(* ===== verification/Cron_Executor.thy ===== *)
theory Cron_Executor
  imports Cron_Store
begin

text \<open>
  How one occurrence of a job is executed: \<open>executor.rs\<close> of \<open>crates/aionui-cron\<close>. The conversations,
  the skill files, the workspace check and the agent turn are services of other crates: parameters of
  the model, collected in one record. What the executor decides from their answers is modelled: which
  conversation an occurrence runs in, when it may not run, and what its result is.
\<close>

datatype execution_result =
    Exec_Success string
  | Exec_Retrying int
  | Exec_Skipped
  | Exec_Error string

type_synonym saved_skill = "string \<times> string"

record prepared_execution =
  prep_conversation_id :: string
  prep_saved_skill :: "saved_skill option"

datatype prepared_run_now =
    Ready prepared_execution
  | AlreadyRunning string

datatype conversation_purpose = ExistingReplacement | NewConversationExecution

datatype agent_turn_status = AgentTurn_Completed | AgentTurn_Failed

record agent_turn_outcome =
  ato_turn_id :: string
  ato_status :: agent_turn_status
  ato_error_message :: "string option"

record executor_env =
  saved_skill_of :: "cron_job \<Rightarrow> cron_error + saved_skill option"
  runtime_workspace :: "cron_job \<Rightarrow> cron_error + unit"
  conversation_owner :: "string \<Rightarrow> db_error + string option"
  conversations_of_job :: "string \<Rightarrow> string \<Rightarrow> db_error + string list"
  create_conversation :: "cron_job \<Rightarrow> saved_skill option \<Rightarrow> conversation_purpose \<Rightarrow> cron_error + string"
  conversation_claimed :: "string \<Rightarrow> bool"
  task_skill_names :: "cron_job \<Rightarrow> string \<Rightarrow> saved_skill option \<Rightarrow> cron_error + string list"
  agent_turn :: "string \<Rightarrow> string \<Rightarrow> cron_job \<Rightarrow> string list \<Rightarrow> conversation_error + agent_turn_outcome"
  latest_error_message :: "string \<Rightarrow> string \<Rightarrow> conversation_error + string option"

definition max_retries_default :: int where
  "max_retries_default = 3"

definition handle_busy :: "cron_job \<Rightarrow> execution_result" where
  "handle_busy job =
    (if job_queue_enabled job then Exec_Skipped
     else if job_retry_count job \<ge> job_max_retries job then Exec_Skipped
     else Exec_Retrying (job_retry_count job + 1))"

definition resolve_conversation_owner_user_id :: "executor_env \<Rightarrow> cron_job \<Rightarrow> cron_error + string" where
  "resolve_conversation_owner_user_id ee job =
    (if trim (job_user_id job) \<noteq> [] then Inr (job_user_id job)
     else if trim (job_conversation_id job) = []
     then Inl (Cron_Scheduler (''cron job '' @ job_id job @ '' has no conversation owner''))
     else case conversation_owner ee (job_conversation_id job) of
       Inl e \<Rightarrow> Inl (Cron_Database e)
     | Inr owner \<Rightarrow>
        (case owner of
           Some u \<Rightarrow> if trim u \<noteq> [] then Inr u
             else Inl (Cron_Scheduler (''cron job '' @ job_id job @ '' conversation '' @ job_conversation_id job
               @ '' has no resolvable owner''))
         | None \<Rightarrow> Inl (Cron_Scheduler (''cron job '' @ job_id job @ '' conversation '' @ job_conversation_id job
               @ '' has no resolvable owner''))))"

definition find_active_cron_conversation :: "executor_env \<Rightarrow> cron_job \<Rightarrow> cron_error + string option" where
  "find_active_cron_conversation ee job =
    (case resolve_conversation_owner_user_id ee job of
       Inl e \<Rightarrow> Inl e
     | Inr user \<Rightarrow>
        (case conversations_of_job ee user (job_id job) of
           Inl e \<Rightarrow> Inl (Cron_Database e)
         | Inr cs \<Rightarrow> Inr (find (conversation_claimed ee) cs)))"

definition resolve_conversation :: "executor_env \<Rightarrow> cron_job \<Rightarrow> saved_skill option \<Rightarrow> cron_error + string" where
  "resolve_conversation ee job skill =
    (case job_execution_mode job of
       Existing \<Rightarrow>
         (let c = trim (job_conversation_id job)
          in if c = [] then create_conversation ee job skill ExistingReplacement
          else case conversation_owner ee c of
            Inl e \<Rightarrow> Inl (Cron_Database e)
          | Inr None \<Rightarrow> create_conversation ee job skill ExistingReplacement
          | Inr (Some owner) \<Rightarrow>
              if trim (job_user_id job) \<noteq> [] \<and> owner \<noteq> job_user_id job
              then Inl (Cron_Scheduler (''cron job '' @ job_id job @ '' targets conversation '' @ c
                @ '' owned by another user''))
              else Inr (job_conversation_id job))
     | NewConversation \<Rightarrow> create_conversation ee job skill NewConversationExecution)"

definition prepare_scheduled :: "executor_env \<Rightarrow> cron_job \<Rightarrow> execution_result + prepared_execution" where
  "prepare_scheduled ee job =
    (case saved_skill_of ee job of
       Inl e \<Rightarrow> Inl (Exec_Error (cron_error_text e))
     | Inr skill \<Rightarrow>
    (case runtime_workspace ee job of
       Inl e \<Rightarrow> Inl (Exec_Error (cron_error_text e))
     | Inr _ \<Rightarrow>
    (case (if job_queue_enabled job \<and> job_execution_mode job = NewConversation
           then find_active_cron_conversation ee job else Inr None) of
       Inl e \<Rightarrow> Inl (Exec_Error (cron_error_text e))
     | Inr (Some _) \<Rightarrow> Inl Exec_Skipped
     | Inr None \<Rightarrow>
    (case resolve_conversation ee job skill of
       Inl e \<Rightarrow> Inl (Exec_Error (cron_error_text e))
     | Inr c \<Rightarrow>
        if conversation_claimed ee c then Inl (handle_busy job)
        else Inr \<lparr>prep_conversation_id = c, prep_saved_skill = skill\<rparr>))))"

definition prepare_run_now :: "executor_env \<Rightarrow> cron_job \<Rightarrow> cron_error + prepared_run_now" where
  "prepare_run_now ee job =
    (case saved_skill_of ee job of
       Inl e \<Rightarrow> Inl e
     | Inr skill \<Rightarrow>
    (case runtime_workspace ee job of
       Inl e \<Rightarrow> Inl e
     | Inr _ \<Rightarrow>
    (case resolve_conversation ee job skill of
       Inl e \<Rightarrow> Inl e
     | Inr c \<Rightarrow>
        if conversation_claimed ee c then Inr (AlreadyRunning c)
        else Inr (Ready \<lparr>prep_conversation_id = c, prep_saved_skill = skill\<rparr>))))"

definition resolve_target_conversation_user_id :: "executor_env \<Rightarrow> string \<Rightarrow> cron_error + string" where
  "resolve_target_conversation_user_id ee c =
    (case conversation_owner ee c of
       Inl e \<Rightarrow> Inl (Cron_Database e)
     | Inr None \<Rightarrow> Inl (Cron_Scheduler (''conversation '' @ c @ '' not found''))
     | Inr (Some u) \<Rightarrow> if trim u = [] then Inl (Cron_Scheduler (''conversation '' @ c @ '' has no owner'')) else Inr u)"

definition conversation_turn_failed_message :: "executor_env \<Rightarrow> string \<Rightarrow> string \<Rightarrow> agent_turn_outcome \<Rightarrow> string" where
  "conversation_turn_failed_message ee user c outcome =
    (case map_option trim (ato_error_message outcome) of
       Some m \<Rightarrow> if m \<noteq> [] then m else
         (case latest_error_message ee user c of
            Inr (Some m) \<Rightarrow> m
          | _ \<Rightarrow> ''Conversation turn '' @ ato_turn_id outcome @ '' failed without agent error details'')
     | None \<Rightarrow>
         (case latest_error_message ee user c of
            Inr (Some m) \<Rightarrow> m
          | _ \<Rightarrow> ''Conversation turn '' @ ato_turn_id outcome @ '' failed without agent error details''))"

definition execute_inner_with_busy_retry ::
  "executor_env \<Rightarrow> cron_job \<Rightarrow> string \<Rightarrow> saved_skill option \<Rightarrow> bool \<Rightarrow> execution_result" where
  "execute_inner_with_busy_retry ee job c skill retry_on_busy =
    (case conversation_owner ee c of
       Inl e \<Rightarrow> Exec_Error (cron_error_text (Cron_Database e))
     | Inr None \<Rightarrow> Exec_Error (''conversation '' @ c @ '' not found'')
     | Inr (Some _) \<Rightarrow>
    (case task_skill_names ee job c skill of
       Inl e \<Rightarrow> Exec_Error (cron_error_text e)
     | Inr skills \<Rightarrow>
    (case resolve_target_conversation_user_id ee c of
       Inl e \<Rightarrow> Exec_Error (cron_error_text e)
     | Inr user \<Rightarrow>
    (case agent_turn ee user c job skills of
       Inr outcome \<Rightarrow>
         if ato_status outcome = AgentTurn_Failed
         then Exec_Error (conversation_turn_failed_message ee user c outcome)
         else Exec_Success c
     | Inl e \<Rightarrow>
         (case e of
            Conv_Busy _ \<Rightarrow> if retry_on_busy then handle_busy job else Exec_Error (conversation_error_text e)
          | _ \<Rightarrow> Exec_Error (conversation_error_text e))))))"

definition execute_prepared :: "executor_env \<Rightarrow> cron_job \<Rightarrow> prepared_execution \<Rightarrow> execution_result" where
  "execute_prepared ee job p =
    execute_inner_with_busy_retry ee job (prep_conversation_id p) (prep_saved_skill p) False"

definition execute_prepared_scheduled :: "executor_env \<Rightarrow> cron_job \<Rightarrow> prepared_execution \<Rightarrow> execution_result" where
  "execute_prepared_scheduled ee job p =
    execute_inner_with_busy_retry ee job (prep_conversation_id p) (prep_saved_skill p) True"

definition execute :: "executor_env \<Rightarrow> cron_job \<Rightarrow> execution_result" where
  "execute ee job = (case prepare_scheduled ee job of
     Inl r \<Rightarrow> r | Inr p \<Rightarrow> execute_prepared_scheduled ee job p)"


section \<open>What an execution may answer\<close>

lemma handle_busy_retrying:
  "handle_busy job = Exec_Retrying n \<longleftrightarrow>
    \<not> job_queue_enabled job \<and> job_retry_count job < job_max_retries job \<and> n = job_retry_count job + 1"
  by (auto simp: handle_busy_def)

lemma handle_busy_cases: "handle_busy job = Exec_Skipped \<or> (\<exists>n. handle_busy job = Exec_Retrying n)"
  by (simp add: handle_busy_def)

lemma run_now_never_retries: "execute_prepared ee job p \<noteq> Exec_Retrying n"
  by (auto simp: execute_prepared_def execute_inner_with_busy_retry_def split: sum.splits option.splits
      conversation_error.splits if_splits)

lemma prepared_retries:
  "execute_prepared_scheduled ee job p = Exec_Retrying n \<Longrightarrow> handle_busy job = Exec_Retrying n"
  by (auto simp: execute_prepared_scheduled_def execute_inner_with_busy_retry_def split: sum.splits option.splits
      conversation_error.splits if_splits)

lemma preparation_retries: "prepare_scheduled ee job = Inl (Exec_Retrying n) \<Longrightarrow> handle_busy job = Exec_Retrying n"
  by (auto simp: prepare_scheduled_def split: sum.splits option.splits if_splits)

text \<open>A prepared execution runs in a conversation nobody is using, and never in another user's.\<close>

lemma prepared_conversation_free:
  "prepare_scheduled ee job = Inr p \<Longrightarrow> \<not> conversation_claimed ee (prep_conversation_id p)"
  by (auto simp: prepare_scheduled_def split: sum.splits option.splits if_splits)

lemma never_another_users_conversation:
  assumes "resolve_conversation ee job skill = Inr c" "job_execution_mode job = Existing"
    and "conversation_owner ee (trim (job_conversation_id job)) = Inr (Some owner)"
    and "trim (job_conversation_id job) \<noteq> []" "trim (job_user_id job) \<noteq> []"
  shows "owner = job_user_id job \<and> c = job_conversation_id job"
  using assms by (auto simp: resolve_conversation_def Let_def split: if_splits)

end
