(* ===== verification/Cron_Service.thy ===== *)
theory Cron_Service
  imports Cron_Executor
begin

text \<open>
  The cron service: the timers of \<open>scheduler.rs\<close> and the operations of \<open>service.rs\<close> that claim an
  occurrence, run it, record its result and schedule the next one.

  An operation maps a world (the tables, the timers and what was sent out) to a world. Every clock
  reading and every database call takes the next index of the world's counter; what the clock shows
  at an index and whether the call at an index fails come from the environment, so the theorems cover
  every clock and every pattern of failures. A call that fails changes nothing.
\<close>

section \<open>Timers\<close>

text \<open>
  A running timer task: one tick for an occurrence, ticks at a fixed distance, or ticks at the times
  of a cron expression.
\<close>

datatype timer =
    Occurrence_Timer timestamp_ms timestamp_ms
  | Every_Timer timestamp_ms int
  | Cron_Timer timestamp_ms string "string option"

type_synonym timers = "(string \<times> timer) list"

definition cancel_job :: "string \<Rightarrow> timers \<Rightarrow> timers" where
  "cancel_job j ts = AList.delete j ts"

fun timer_for :: "cron_schedule \<Rightarrow> timestamp_ms \<Rightarrow> timer" where
  "timer_for (At _ _) next_run_at = Occurrence_Timer next_run_at next_run_at"
| "timer_for (Every every_ms _) next_run_at = Every_Timer next_run_at every_ms"
| "timer_for (Cron expr tz _) next_run_at = Cron_Timer next_run_at expr tz"

definition schedule_job :: "cron_job \<Rightarrow> timers \<Rightarrow> timers" where
  "schedule_job job ts =
    (let ts = cancel_job (job_id job) ts
     in if \<not> job_enabled job then ts
     else case job_next_run_at job of
       None \<Rightarrow> ts
     | Some next_run_at \<Rightarrow> AList.update (job_id job) (timer_for (job_schedule job) next_run_at) ts)"

definition schedule_retry_timer :: "string \<Rightarrow> timestamp_ms \<Rightarrow> timestamp_ms \<Rightarrow> timers \<Rightarrow> timers" where
  "schedule_retry_timer j scheduled_at retry_at ts =
    AList.update j (Occurrence_Timer scheduled_at retry_at) (cancel_job j ts)"

definition active_count :: "timers \<Rightarrow> nat" where
  "active_count ts = length ts"

definition is_scheduled :: "string \<Rightarrow> timers \<Rightarrow> bool" where
  "is_scheduled j ts \<longleftrightarrow> j \<in> set (keys ts)"

text \<open>How long a task sleeps before its first tick.\<close>

definition delay_until :: "timestamp_ms \<Rightarrow> timestamp_ms \<Rightarrow> int" where
  "delay_until now target_ms = max (wrap_i64 (target_ms - now)) 0"


section \<open>The world\<close>

datatype cron_event =
    Job_Created string cron_job
  | Job_Updated string cron_job
  | Job_Removed string string
  | Job_Executed string string string "string option"
  | Conversation_Tips string string string string

record cron_world =
  w_db :: cron_db
  w_timers :: timers
  w_events :: "cron_event list"
  w_bound :: "(string \<times> string \<times> string option) list"
  w_calls :: nat

record ('s, 'z) service_env =
  env_calendar :: "('s, 'z) calendar"
  env_codec :: codec
  clock_at :: "nat \<Rightarrow> timestamp_ms"
  db_fault :: "nat \<Rightarrow> db_error option"
  bind_fault :: "nat \<Rightarrow> cron_error option"
  tips_fault :: "nat \<Rightarrow> cron_error option"
  assistant_agent_type :: "string \<Rightarrow> string \<Rightarrow> cron_error + string"
  instance_id :: string

definition tick_call :: "cron_world \<Rightarrow> cron_world" where
  "tick_call w = w\<lparr>w_calls := Suc (w_calls w)\<rparr>"

definition now_ms :: "('s, 'z) service_env \<Rightarrow> cron_world \<Rightarrow> timestamp_ms \<times> cron_world" where
  "now_ms env w = (clock_at env (w_calls w), tick_call w)"

definition db_read :: "('s, 'z) service_env \<Rightarrow> (cron_db \<Rightarrow> 'a) \<Rightarrow> cron_world \<Rightarrow> (db_error + 'a) \<times> cron_world" where
  "db_read env f w =
    (case db_fault env (w_calls w) of
       Some e \<Rightarrow> (Inl e, tick_call w)
     | None \<Rightarrow> (Inr (f (w_db w)), tick_call w))"

definition db_write ::
  "('s, 'z) service_env \<Rightarrow> (timestamp_ms \<Rightarrow> cron_db \<Rightarrow> (db_error + 'a) \<times> cron_db) \<Rightarrow> cron_world \<Rightarrow> (db_error + 'a) \<times> cron_world"
where
  "db_write env f w =
    (case db_fault env (w_calls w) of
       Some e \<Rightarrow> (Inl e, tick_call w)
     | None \<Rightarrow>
        (case f (clock_at env (w_calls w)) (w_db w) of (r, db) \<Rightarrow> (r, tick_call (w\<lparr>w_db := db\<rparr>))))"

abbreviation update_job_row ::
  "('s, 'z) service_env \<Rightarrow> string \<Rightarrow> string \<Rightarrow> update_params \<Rightarrow> cron_world \<Rightarrow> (db_error + unit) \<times> cron_world" where
  "update_job_row env user j p \<equiv> db_write env (update_for_user user j p)"

definition emit :: "cron_event \<Rightarrow> cron_world \<Rightarrow> cron_world" where
  "emit e w = w\<lparr>w_events := w_events w @ [e]\<rparr>"

definition with_timers :: "(timers \<Rightarrow> timers) \<Rightarrow> cron_world \<Rightarrow> cron_world" where
  "with_timers f w = w\<lparr>w_timers := f (w_timers w)\<rparr>"

definition emit_executed :: "string option \<Rightarrow> string \<Rightarrow> string \<Rightarrow> string option \<Rightarrow> cron_world \<Rightarrow> cron_world" where
  "emit_executed user j status err w =
    (case user of None \<Rightarrow> w | Some u \<Rightarrow> emit (Job_Executed u j status err) w)"

text \<open>The binding of a job in its conversation's settings, which the conversation service keeps.\<close>

definition bind_cron_job_to_conversation ::
  "('s, 'z) service_env \<Rightarrow> string \<Rightarrow> string \<Rightarrow> string option \<Rightarrow> cron_world \<Rightarrow> (cron_error + unit) \<times> cron_world" where
  "bind_cron_job_to_conversation env c j mode w =
    (case bind_fault env (w_calls w) of
       Some e \<Rightarrow> (Inl e, tick_call w)
     | None \<Rightarrow> (Inr (), tick_call (w\<lparr>w_bound := w_bound w @ [(c, j, mode)]\<rparr>)))"

definition run_lease_ms :: int where
  "run_lease_ms = 60000"

definition retry_interval_ms :: int where
  "retry_interval_ms = 30000"

definition run_history_retention_ms :: int where
  "run_history_retention_ms = 30 * 24 * 60 * 60 * 1000"

definition resolve_job_agent_type :: "('s, 'z) service_env \<Rightarrow> cron_job \<Rightarrow> cron_error + string" where
  "resolve_job_agent_type env job =
    (if trim (job_agent_type job) \<noteq> [] then Inr (job_agent_type job)
     else case Option.bind (job_agent_config job) (\<lambda>c. case cfg_assistant_id c of
         Some a \<Rightarrow> Some a | None \<Rightarrow> cfg_custom_agent_id c) of
       Some a \<Rightarrow>
         if trim a = [] then Inl (Cron_InvalidAgentConfig ''assistant_id is required for cron jobs'')
         else assistant_agent_type env (job_user_id job) a
     | None \<Rightarrow> Inl (Cron_InvalidAgentConfig ''assistant_id is required for cron jobs''))"

definition owner_user_id_for_job ::
  "('s, 'z) service_env \<Rightarrow> cron_job \<Rightarrow> cron_world \<Rightarrow> string option \<times> cron_world" where
  "owner_user_id_for_job env job w =
    (let c = trim (job_conversation_id job)
     in if trim (job_user_id job) \<noteq> [] then (Some (job_user_id job), w)
     else if c = [] then (None, w)
     else case db_read env (\<lambda>db. map_of (db_conversations db) c) w of
       (Inr (Some u), w) \<Rightarrow> (if trim u \<noteq> [] then Some u else None, w)
     | (_, w) \<Rightarrow> (None, w))"

fun persisted_job_parse_error :: "cron_error \<Rightarrow> cron_error" where
  "persisted_job_parse_error (Cron_Json _) = Cron_InvalidAgentConfig ''persisted cron agent config is invalid''"
| "persisted_job_parse_error e = e"

definition should_bind_success_conversation :: "string \<Rightarrow> string \<Rightarrow> string \<Rightarrow> bool" where
  "should_bind_success_conversation mode existing success \<longleftrightarrow>
    mode = execution_mode_as_str Existing \<and> trim success \<noteq> [] \<and> trim existing \<noteq> trim success"


section \<open>Recording what became of an occurrence\<close>

definition finish_scheduled_run ::
  "('s, 'z) service_env \<Rightarrow> string \<Rightarrow> timestamp_ms \<Rightarrow> cron_run_status \<Rightarrow> string option \<Rightarrow> string option \<Rightarrow> cron_world \<Rightarrow> bool \<times> cron_world"
where
  "finish_scheduled_run env j scheduled_at status c err w =
    (case now_ms env w of (finished_at, w) \<Rightarrow>
     case db_write env (\<lambda>_ db. map_prod Inr id (finish_run
            \<lparr>fin_job_id = j, fin_scheduled_at = scheduled_at, fin_owner_id = instance_id env, fin_status = status,
             fin_conversation_id = c, fin_error = err, fin_finished_at = finished_at\<rparr> db)) w of
       (Inr True, w) \<Rightarrow> (True, w)
     | (_, w) \<Rightarrow> (False, w))"

definition update_job_after_success ::
  "('s, 'z) service_env \<Rightarrow> string \<Rightarrow> string \<Rightarrow> string \<Rightarrow> cron_world \<Rightarrow> cron_world" where
  "update_job_after_success env user j c w =
    (case db_read env (get_by_id_for_user user j) w of
       (Inr (Some row), w) \<Rightarrow>
         (case now_ms env w of (now, w) \<Rightarrow>
          let needs_bind = should_bind_success_conversation (row_execution_mode row) (row_conversation_id row) c
          in case update_job_row env user j (no_update\<lparr>up_last_run_at := Some (Some now), up_last_status := Some (Some ''ok''),
                 up_last_error := Some None, up_retry_count := Some 0, up_run_count := Some (wrap_i64 (row_run_count row + 1)),
                 up_conversation_id := (if needs_bind then Some c else None)\<rparr>) w of
            (Inl _, w) \<Rightarrow> w
          | (Inr _, w) \<Rightarrow> if needs_bind then snd (bind_cron_job_to_conversation env c j None w) else w)
     | (_, w) \<Rightarrow> w)"

definition update_job_after_error ::
  "('s, 'z) service_env \<Rightarrow> string \<Rightarrow> string \<Rightarrow> string \<Rightarrow> cron_world \<Rightarrow> cron_world" where
  "update_job_after_error env user j message w =
    (case db_read env (get_by_id_for_user user j) w of
       (Inr (Some row), w) \<Rightarrow>
         (case now_ms env w of (now, w) \<Rightarrow>
          snd (update_job_row env user j (no_update\<lparr>up_last_run_at := Some (Some now), up_last_status := Some (Some ''error''),
                 up_last_error := Some (Some message), up_retry_count := Some 0,
                 up_run_count := Some (wrap_i64 (row_run_count row + 1))\<rparr>) w))
     | (_, w) \<Rightarrow> w)"

definition skipped_update :: update_params where
  "skipped_update = no_update\<lparr>up_last_status := Some (Some ''skipped''), up_retry_count := Some 0\<rparr>"

definition disable_update :: update_params where
  "disable_update = no_update\<lparr>up_enabled := Some False, up_next_run_at := Some None\<rparr>"

text \<open>The occurrences still unfinished come first; a one-shot job is disabled; any other gets its next run.\<close>

definition reschedule_after_execution ::
  "('s, 'z) service_env \<Rightarrow> cron_job \<Rightarrow> timestamp_ms \<Rightarrow> cron_world \<Rightarrow> cron_world" where
  "reschedule_after_execution env job scheduled_at w =
    (case now_ms env w of (now, w) \<Rightarrow>
     case db_read env (get_recoverable_run (job_id job) now) w of
       (Inr (Some run), w) \<Rightarrow>
         with_timers (schedule_retry_timer (job_id job) (rec_scheduled_at run) (rec_wake_at run)) w
     | (_, w) \<Rightarrow>
         if is_at (job_schedule job)
         then (let w = snd (update_job_row env (job_user_id job) (job_id job) disable_update w);
                   w = with_timers (cancel_job (job_id job)) w
               in case owner_user_id_for_job env job w of
                    (Some u, w) \<Rightarrow> emit (Job_Updated u (job\<lparr>job_enabled := False, job_next_run_at := None\<rparr>)) w
                  | (None, w) \<Rightarrow> w)
         else (case now_ms env w of (now, w) \<Rightarrow>
               let run_at = compute_next_run_after_occurrence (env_calendar env) (job_schedule job) scheduled_at now;
                   w = snd (update_job_row env (job_user_id job) (job_id job) (no_update\<lparr>up_next_run_at := Some run_at\<rparr>) w)
               in with_timers (schedule_job (job\<lparr>job_next_run_at := run_at\<rparr>)) w))"

definition schedule_retry ::
  "('s, 'z) service_env \<Rightarrow> string \<Rightarrow> timestamp_ms \<Rightarrow> cron_world \<Rightarrow> bool \<times> cron_world" where
  "schedule_retry env j scheduled_at w =
    (case now_ms env w of (now, w) \<Rightarrow>
     let next_run = wrap_i64 (now + retry_interval_ms)
     in case db_write env (\<lambda>now db. map_prod Inr id (defer_run j scheduled_at (instance_id env) next_run now db)) w of
          (Inr True, w) \<Rightarrow> (True, with_timers (schedule_retry_timer j scheduled_at next_run) w)
        | (_, w) \<Rightarrow> (False, w))"

fun handle_execution_result ::
  "('s, 'z) service_env \<Rightarrow> cron_job \<Rightarrow> timestamp_ms \<Rightarrow> execution_result \<Rightarrow> cron_world \<Rightarrow> cron_world" where
  "handle_execution_result env job scheduled_at (Exec_Success c) w =
    (case owner_user_id_for_job env job w of (owner, w) \<Rightarrow>
     case finish_scheduled_run env (job_id job) scheduled_at RunOk (Some c) None w of
       (False, w) \<Rightarrow> w
     | (True, w) \<Rightarrow>
        emit_executed owner (job_id job) ''ok'' None
          (reschedule_after_execution env job scheduled_at
            (update_job_after_success env (job_user_id job) (job_id job) c w)))"
| "handle_execution_result env job scheduled_at (Exec_Retrying attempt) w =
    (case owner_user_id_for_job env job w of (owner, w) \<Rightarrow>
     case schedule_retry env (job_id job) scheduled_at w of
       (False, w) \<Rightarrow> w
     | (True, w) \<Rightarrow>
        snd (update_job_row env (job_user_id job) (job_id job) (no_update\<lparr>up_retry_count := Some attempt\<rparr>) w))"
| "handle_execution_result env job scheduled_at Exec_Skipped w =
    (case owner_user_id_for_job env job w of (owner, w) \<Rightarrow>
     case finish_scheduled_run env (job_id job) scheduled_at RunSkipped None None w of
       (False, w) \<Rightarrow> w
     | (True, w) \<Rightarrow>
        emit_executed owner (job_id job) ''skipped'' None
          (reschedule_after_execution env job scheduled_at
            (snd (update_job_row env (job_user_id job) (job_id job) skipped_update w))))"
| "handle_execution_result env job scheduled_at (Exec_Error message) w =
    (case owner_user_id_for_job env job w of (owner, w) \<Rightarrow>
     case finish_scheduled_run env (job_id job) scheduled_at RunError None (Some message) w of
       (False, w) \<Rightarrow> w
     | (True, w) \<Rightarrow>
        emit_executed owner (job_id job) ''error'' (Some message)
          (reschedule_after_execution env job scheduled_at
            (update_job_after_error env (job_user_id job) (job_id job) message w)))"

fun handle_run_now_result ::
  "('s, 'z) service_env \<Rightarrow> string \<Rightarrow> string \<Rightarrow> execution_result \<Rightarrow> cron_world \<Rightarrow> cron_world" where
  "handle_run_now_result env user j (Exec_Success c) w =
    emit (Job_Executed user j ''ok'' None) (update_job_after_success env user j c w)"
| "handle_run_now_result env user j (Exec_Error message) w =
    emit (Job_Executed user j ''error'' (Some message)) (update_job_after_error env user j message w)"
| "handle_run_now_result env user j (Exec_Retrying attempt) w =
    snd (update_job_row env user j (no_update\<lparr>up_retry_count := Some attempt\<rparr>) w)"
| "handle_run_now_result env user j Exec_Skipped w =
    emit (Job_Executed user j ''skipped'' None) (snd (update_job_row env user j skipped_update w))"


section \<open>The tick of a timer\<close>

definition bind_materialized_existing_conversation_if_needed ::
  "('s, 'z) service_env \<Rightarrow> cron_job \<Rightarrow> string \<Rightarrow> cron_world \<Rightarrow> (cron_error + cron_job) \<times> cron_world" where
  "bind_materialized_existing_conversation_if_needed env job conversation_id w =
    (let c = trim conversation_id
     in if job_execution_mode job \<noteq> Existing \<or> c = [] \<or> trim (job_conversation_id job) = c then (Inr job, w)
     else case update_job_row env (job_user_id job) (job_id job) (no_update\<lparr>up_conversation_id := Some c\<rparr>) w of
       (Inl e, w) \<Rightarrow> (Inl (Cron_Database e), w)
     | (Inr _, w) \<Rightarrow>
        (case bind_cron_job_to_conversation env c (job_id job) (Option.bind (job_agent_config job) cfg_mode) w of
           (Inl e, w) \<Rightarrow> (Inl e, w)
         | (Inr _, w) \<Rightarrow> (Inr (job\<lparr>job_conversation_id := c\<rparr>), w)))"

definition record_queue_busy_skip :: "('s, 'z) service_env \<Rightarrow> cron_job \<Rightarrow> cron_world \<Rightarrow> cron_world" where
  "record_queue_busy_skip env job w = snd (update_job_row env (job_user_id job) (job_id job) skipped_update w)"

text \<open>
  The first part of a tick: the job is loaded and its occurrence claimed. It answers the job when the
  occurrence is this process's to execute, and nothing when the tick has ended.
\<close>

definition claim_params_of ::
  "('s, 'z) service_env \<Rightarrow> cron_job \<Rightarrow> string \<Rightarrow> timestamp_ms \<Rightarrow> timestamp_ms \<Rightarrow> claim_params" where
  "claim_params_of env job j scheduled_at now =
    \<lparr>claim_job_id = j, claim_scheduled_at = scheduled_at, claim_owner_id = instance_id env, claim_now = now,
     claim_lease_until = wrap_i64 (now + run_lease_ms), claim_queue_enabled = job_queue_enabled job\<rparr>"

definition claim_occurrence ::
  "('s, 'z) service_env \<Rightarrow> cron_job \<Rightarrow> string \<Rightarrow> timestamp_ms \<Rightarrow> cron_world \<Rightarrow> cron_job option \<times> cron_world" where
  "claim_occurrence env job j scheduled_at w =
    (case now_ms env w of (now, w) \<Rightarrow>
     case db_write env (\<lambda>_ db. map_prod Inr id (claim_run (claim_params_of env job j scheduled_at now) db)) w of
       (Inr Claimed, w) \<Rightarrow> (Some job, w)
     | (Inr Duplicate, w) \<Rightarrow>
         (case db_read env (get_recoverable_run j now) w of
            (Inr (Some run), w) \<Rightarrow>
              (None, with_timers (schedule_retry_timer j (rec_scheduled_at run) (rec_wake_at run)) w)
          | (_, w) \<Rightarrow> (None, reschedule_after_execution env job scheduled_at w))
     | (Inr QueueBusy, w) \<Rightarrow>
         (let w = reschedule_after_execution env job scheduled_at (record_queue_busy_skip env job w)
          in case owner_user_id_for_job env job w of (owner, w) \<Rightarrow> (None, emit_executed owner j ''skipped'' None w))
     | (Inl _, w) \<Rightarrow> (None, w))"

definition tick_begin ::
  "('s, 'z) service_env \<Rightarrow> string \<Rightarrow> timestamp_ms \<Rightarrow> cron_world \<Rightarrow> cron_job option \<times> cron_world" where
  "tick_begin env j scheduled_at w =
    (case db_read env (get_by_id_system j) w of
       (Inl _, w) \<Rightarrow> (None, w)
     | (Inr None, w) \<Rightarrow> (None, with_timers (cancel_job j) w)
     | (Inr (Some row), w) \<Rightarrow>
        (case cron_job_from_row (env_codec env) row of
           Inl e \<Rightarrow>
             (let message = cron_error_text (persisted_job_parse_error e)
              in (None, emit (Job_Executed (row_user_id row) j ''error'' (Some message))
                   (update_job_after_error env (row_user_id row) j message (with_timers (cancel_job j) w))))
         | Inr job \<Rightarrow>
            (case resolve_job_agent_type env job of
               Inl _ \<Rightarrow> (None, w)
             | Inr agent_type \<Rightarrow>
                 if \<not> job_enabled job then (None, w)
                 else claim_occurrence env (job\<lparr>job_agent_type := agent_type\<rparr>) j scheduled_at w)))"

text \<open>
  The second part: the prepared occurrence is run and its result recorded. The run takes as long as
  the agent takes; \<open>meanwhile\<close> is whatever else happens to the world in that time, the renewals of
  the lease included.
\<close>

definition tick_execute ::
  "('s, 'z) service_env \<Rightarrow> executor_env \<Rightarrow> (cron_world \<Rightarrow> cron_world) \<Rightarrow> cron_job \<Rightarrow> timestamp_ms \<Rightarrow> cron_world \<Rightarrow> cron_world"
where
  "tick_execute env ee meanwhile job scheduled_at w =
    (case prepare_scheduled ee job of
       Inl result \<Rightarrow> handle_execution_result env job scheduled_at result w
     | Inr prepared \<Rightarrow>
        (case bind_materialized_existing_conversation_if_needed env job (prep_conversation_id prepared) w of
           (Inl e, w) \<Rightarrow> handle_execution_result env job scheduled_at (Exec_Error (cron_error_text e)) w
         | (Inr job, w) \<Rightarrow>
             handle_execution_result env job scheduled_at (execute_prepared_scheduled ee job prepared) (meanwhile w)))"

definition tick ::
  "('s, 'z) service_env \<Rightarrow> executor_env \<Rightarrow> (cron_world \<Rightarrow> cron_world) \<Rightarrow> string \<Rightarrow> timestamp_ms \<Rightarrow> cron_world \<Rightarrow> cron_world" where
  "tick env ee meanwhile j scheduled_at w =
    (case tick_begin env j scheduled_at w of
       (None, w) \<Rightarrow> w
     | (Some job, w) \<Rightarrow> tick_execute env ee meanwhile job scheduled_at w)"

text \<open>One beat of the lease heartbeat; it answers whether the heartbeat goes on.\<close>

definition heartbeat ::
  "('s, 'z) service_env \<Rightarrow> string \<Rightarrow> timestamp_ms \<Rightarrow> cron_world \<Rightarrow> bool \<times> cron_world" where
  "heartbeat env j scheduled_at w =
    (case now_ms env w of (now, w) \<Rightarrow>
     case db_write env (\<lambda>_ db. map_prod Inr id (renew_run_lease j scheduled_at (instance_id env)
            (wrap_i64 (now + run_lease_ms)) now db)) w of
       (Inr False, w) \<Rightarrow> (False, w)
     | (_, w) \<Rightarrow> (True, w))"

end
