(* ===== verification/Cron_Admin.thy ===== *)
theory Cron_Admin
  imports Cron_Service
begin

text \<open>
  The rest of the cron service: start-up and resume, running a job at once, and the operations by which
  a user creates, changes, reads and removes jobs (\<open>service.rs\<close> of \<open>crates/aionui-cron\<close>). What these ask
  of the assistant catalogue, the file system and the conversation service is a parameter.
\<close>

section \<open>Start-up\<close>

text \<open>What \<open>init\<close> does for one enabled row.\<close>

definition init_row :: "('s, 'z) service_env \<Rightarrow> timestamp_ms \<Rightarrow> cron_job_row \<Rightarrow> cron_world \<Rightarrow> cron_world" where
  "init_row env now row w =
    (case cron_job_from_row (env_codec env) row of
       Inl _ \<Rightarrow> w
     | Inr job \<Rightarrow>
        (case db_read env (get_recoverable_run (job_id job) now) w of
           (Inr (Some run), w) \<Rightarrow>
             with_timers (schedule_retry_timer (job_id job) (rec_scheduled_at run) (rec_wake_at run)) w
         | (_, w) \<Rightarrow> with_timers (schedule_job job) w))"

definition init :: "('s, 'z) service_env \<Rightarrow> cron_world \<Rightarrow> cron_world" where
  "init env w =
    (case now_ms env w of (now, w) \<Rightarrow>
     let w = snd (db_write env (\<lambda>_ db. map_prod Inr id
               (cleanup_runs_before (wrap_i64 (now - run_history_retention_ms)) db)) w)
     in case db_read env list_enabled_system w of
          (Inl _, w) \<Rightarrow> w
        | (Inr rows, w) \<Rightarrow> fold (init_row env now) rows w)"


section \<open>Resuming after the system slept\<close>

definition record_missed_execution :: "('s, 'z) service_env \<Rightarrow> cron_job \<Rightarrow> cron_world \<Rightarrow> cron_world" where
  "record_missed_execution env job w =
    snd (update_job_row env (job_user_id job) (job_id job)
      (no_update\<lparr>up_last_status := Some (Some ''missed''), up_last_error := Some None, up_retry_count := Some 0\<rparr>) w)"

definition missed_tip :: "cron_job \<Rightarrow> string" where
  "missed_tip job = ''Scheduled task \"'' @ job_name job
     @ ''\" was missed while the system was unavailable. It was not run automatically.''"

definition insert_missed_job_tips :: "('s, 'z) service_env \<Rightarrow> cron_job \<Rightarrow> cron_world \<Rightarrow> cron_world" where
  "insert_missed_job_tips env job w =
    (if trim (job_conversation_id job) = [] then w
     else case tips_fault env (w_calls w) of
       Some _ \<Rightarrow> tick_call w
     | None \<Rightarrow>
        (case owner_user_id_for_job env job (tick_call w) of
           (Some u, w) \<Rightarrow> emit (Conversation_Tips u (job_conversation_id job) (missed_tip job) ''warning'') w
         | (None, w) \<Rightarrow> w))"

definition reschedule_after_missed :: "('s, 'z) service_env \<Rightarrow> cron_job \<Rightarrow> cron_world \<Rightarrow> cron_world" where
  "reschedule_after_missed env job w =
    (if is_at (job_schedule job)
     then with_timers (cancel_job (job_id job)) (snd (update_job_row env (job_user_id job) (job_id job) disable_update w))
     else case now_ms env w of (now, w) \<Rightarrow>
       let run_at = compute_next_run (env_calendar env) (job_schedule job) now
       in case update_job_row env (job_user_id job) (job_id job) (no_update\<lparr>up_next_run_at := Some run_at\<rparr>) w of
            (Inl _, w) \<Rightarrow> w
          | (Inr _, w) \<Rightarrow> with_timers (schedule_job (job\<lparr>job_next_run_at := run_at\<rparr>)) w)"

definition overdue :: "timestamp_ms \<Rightarrow> cron_job \<Rightarrow> bool" where
  "overdue now job = (case job_next_run_at job of Some t \<Rightarrow> t < now | None \<Rightarrow> False)"

definition resume_row :: "('s, 'z) service_env \<Rightarrow> timestamp_ms \<Rightarrow> cron_job_row \<Rightarrow> cron_world \<Rightarrow> cron_world" where
  "resume_row env now row w =
    (case cron_job_from_row (env_codec env) row of
       Inl _ \<Rightarrow> w
     | Inr job \<Rightarrow>
        (case db_read env (get_recoverable_run (job_id job) now) w of
           (Inr (Some run), w) \<Rightarrow>
             with_timers (schedule_retry_timer (job_id job) (rec_scheduled_at run) (rec_wake_at run)) w
         | (_, w) \<Rightarrow>
             if overdue now job
             then (case owner_user_id_for_job env job
                     (reschedule_after_missed env job (insert_missed_job_tips env job (record_missed_execution env job w))) of
                   (owner, w) \<Rightarrow> emit_executed owner (job_id job) ''missed'' None w)
             else with_timers (schedule_job job) w))"

definition handle_system_resume :: "('s, 'z) service_env \<Rightarrow> cron_world \<Rightarrow> cron_world" where
  "handle_system_resume env w =
    (case db_read env list_enabled_system w of
       (Inl _, w) \<Rightarrow> w
     | (Inr rows, w) \<Rightarrow> (case now_ms env w of (now, w) \<Rightarrow> fold (resume_row env now) rows w))"


section \<open>Running a job at once\<close>

text \<open>
  The answer of \<open>run_now\<close> and, when the job is to run, the spawned task: the job and its prepared
  execution, which \<open>run_now_task\<close> carries out after whatever happens meanwhile.
\<close>

definition run_now ::
  "('s, 'z) service_env \<Rightarrow> executor_env \<Rightarrow> string \<Rightarrow> string \<Rightarrow> cron_world \<Rightarrow>
    (cron_error + string \<times> (cron_job \<times> prepared_execution) option) \<times> cron_world" where
  "run_now env ee user j w =
    (case db_read env (get_by_id_for_user user j) w of
       (Inl e, w) \<Rightarrow> (Inl (Cron_Database e), w)
     | (Inr None, w) \<Rightarrow> (Inl (Cron_JobNotFound j), w)
     | (Inr (Some row), w) \<Rightarrow>
    (case cron_job_from_row (env_codec env) row of
       Inl e \<Rightarrow>
         (let e = persisted_job_parse_error e; message = cron_error_text e
          in (Inl e, emit (Job_Executed user j ''error'' (Some message)) (update_job_after_error env user j message w)))
     | Inr job \<Rightarrow>
    (case resolve_job_agent_type env job of
       Inl e \<Rightarrow> (Inl e, w)
     | Inr agent_type \<Rightarrow>
    (let job = job\<lparr>job_agent_type := agent_type\<rparr>
     in case prepare_run_now ee job of
       Inl e \<Rightarrow>
         (let message = cron_error_text e
          in (Inl e, emit (Job_Executed user j ''error'' (Some message)) (update_job_after_error env user j message w)))
     | Inr (AlreadyRunning c) \<Rightarrow> (Inr (c, None), w)
     | Inr (Ready prepared) \<Rightarrow>
         (case bind_materialized_existing_conversation_if_needed env job (prep_conversation_id prepared) w of
            (Inl e, w) \<Rightarrow> (Inl e, w)
          | (Inr job, w) \<Rightarrow> (Inr (prep_conversation_id prepared, Some (job, prepared)), w))))))"

definition run_now_task ::
  "('s, 'z) service_env \<Rightarrow> executor_env \<Rightarrow> string \<Rightarrow> cron_job \<times> prepared_execution \<Rightarrow> cron_world \<Rightarrow> cron_world" where
  "run_now_task env ee user task w =
    (case task of (job, prepared) \<Rightarrow> handle_run_now_result env user (job_id job) (execute_prepared ee job prepared) w)"


section \<open>Requests\<close>

datatype cron_schedule_dto =
    Dto_At timestamp_ms "string option"
  | Dto_Every int "string option"
  | Dto_Cron string "string option" "string option"

fun schedule_from_dto :: "cron_schedule_dto \<Rightarrow> cron_schedule" where
  "schedule_from_dto (Dto_At at_ms d) = At at_ms d"
| "schedule_from_dto (Dto_Every every_ms d) = Every every_ms d"
| "schedule_from_dto (Dto_Cron expr tz d) = Cron expr tz d"

fun schedule_from_dto_with_existing_timezone :: "cron_schedule_dto \<Rightarrow> cron_schedule \<Rightarrow> cron_schedule" where
  "schedule_from_dto_with_existing_timezone (Dto_Cron expr tz d) existing =
     Cron expr (case tz of Some z \<Rightarrow> Some z | None \<Rightarrow> (case existing of Cron _ z _ \<Rightarrow> z | _ \<Rightarrow> None)) d"
| "schedule_from_dto_with_existing_timezone dto existing = schedule_from_dto dto"

record config_dto =
  dto_name :: string
  dto_cli_path :: "string option"
  dto_assistant_id :: "string option"
  dto_mode :: "string option"
  dto_model_id :: "string option"
  dto_model :: "provider_with_model option"
  dto_config_options :: "(string \<times> string) list option"
  dto_workspace :: "string option"
  dto_skill_ids :: "string list"
  dto_disabled_builtin_skill_ids :: "string list"
  dto_mcp_ids :: "string list"
  dto_exclude_auto_inject_skills :: "string list"

record create_request =
  cr_name :: string
  cr_description :: "string option"
  cr_schedule :: cron_schedule_dto
  cr_prompt :: "string option"
  cr_message :: "string option"
  cr_conversation_id :: string
  cr_conversation_title :: "string option"
  cr_created_by :: string
  cr_execution_mode :: "string option"
  cr_queue_enabled :: bool
  cr_agent_config :: "config_dto option"

record update_request =
  ur_name :: "string option"
  ur_description :: "string option"
  ur_enabled :: "bool option"
  ur_schedule :: "cron_schedule_dto option"
  ur_message :: "string option"
  ur_execution_mode :: "string option"
  ur_agent_config :: "config_dto option"
  ur_conversation_title :: "string option"
  ur_max_retries :: "int option"
  ur_queue_enabled :: "bool option"

definition parse_execution_mode :: "string option \<Rightarrow> cron_error + execution_mode" where
  "parse_execution_mode mode =
    (case mode of None \<Rightarrow> Inr Existing | Some s \<Rightarrow> if s = ''existing'' then Inr Existing else execution_mode_from_str s)"

text \<open>Trimmed, without empty texts and repetitions, in the order of first appearance.\<close>

definition sanitize_string_list :: "string list \<Rightarrow> string list" where
  "sanitize_string_list values =
    fold (\<lambda>v acc. let v = trim v in if v \<noteq> [] \<and> v \<notin> set acc then acc @ [v] else acc) values []"

definition sanitize_agent_config_dto :: "config_dto \<Rightarrow> config_dto" where
  "sanitize_agent_config_dto c = c\<lparr>
     dto_assistant_id := Option.bind (dto_assistant_id c) (\<lambda>a. if trim a = [] then None else Some (trim a)),
     dto_skill_ids := sanitize_string_list (dto_skill_ids c),
     dto_disabled_builtin_skill_ids := sanitize_string_list (dto_disabled_builtin_skill_ids c),
     dto_mcp_ids := sanitize_string_list (dto_mcp_ids c),
     dto_exclude_auto_inject_skills := sanitize_string_list (dto_exclude_auto_inject_skills c)\<rparr>"

definition aionrs_model_error :: cron_error where
  "aionrs_model_error = Cron_InvalidAgentConfig
    ''aionrs cron jobs require agent_config.model.provider_id and agent_config.model.model''"

definition validate_aionrs_agent_config :: "string \<Rightarrow> config_dto option \<Rightarrow> cron_error + unit" where
  "validate_aionrs_agent_config agent_type config =
    (if agent_type \<noteq> ''aionrs'' then Inr ()
     else case Option.bind config dto_model of
       Some m \<Rightarrow> if trim (pm_provider_id m) \<noteq> [] \<and> trim (pm_model m) \<noteq> [] then Inr () else Inl aionrs_model_error
     | None \<Rightarrow> Inl aionrs_model_error)"

definition normalize_model :: "provider_with_model option \<Rightarrow> string \<Rightarrow> cron_error + provider_with_model option" where
  "normalize_model model agent_type =
    (case model of
       None \<Rightarrow> Inr None
     | Some m \<Rightarrow>
        (let m = m\<lparr>pm_provider_id := trim (pm_provider_id m), pm_model := trim (pm_model m),
                   pm_use_model := Option.bind (pm_use_model m) (\<lambda>u. if trim u = [] then None else Some (trim u))\<rparr>;
             incomplete = (pm_provider_id m = [] \<or> pm_model m = [])
         in if agent_type = ''aionrs'' \<and> incomplete then Inl aionrs_model_error
            else if incomplete then Inr None else Inr (Some m)))"


section \<open>Creating a job\<close>

text \<open>What the assistant catalogue, the file system and the conversation service answer.\<close>

record admin_env =
  assistant_backend :: "string \<Rightarrow> string \<Rightarrow> cron_error + string option"
  cron_full_auto_mode :: "string \<Rightarrow> string \<Rightarrow> string \<Rightarrow> string \<Rightarrow> cron_error + string"
  fresh_job_id :: "cron_world \<Rightarrow> string"
  workspace_available :: "cron_job \<Rightarrow> cron_error + unit"
  auto_workspace :: "string \<Rightarrow> string \<Rightarrow> cron_error + string option"
  workspace_matches_path :: "string \<Rightarrow> string \<Rightarrow> bool"
  is_team_conversation :: "string \<Rightarrow> cron_error + bool"

definition resolve_new_job_agent_type ::
  "('s, 'z) service_env \<Rightarrow> string \<Rightarrow> config_dto option \<Rightarrow> cron_error + string" where
  "resolve_new_job_agent_type env user config =
    (case Option.bind config dto_assistant_id of
       None \<Rightarrow> Inl (Cron_InvalidAgentConfig ''assistant_id is required for new cron jobs'')
     | Some a \<Rightarrow> assistant_agent_type env user a)"

definition build_cron_agent_config ::
  "admin_env \<Rightarrow> string \<Rightarrow> string \<Rightarrow> config_dto \<Rightarrow> cron_error + cron_agent_config" where
  "build_cron_agent_config ae user agent_type c =
    (case dto_assistant_id c of
       None \<Rightarrow> Inl (Cron_InvalidAgentConfig ''assistant_id is required for cron jobs'')
     | Some a \<Rightarrow>
    (if trim a = [] then Inl (Cron_InvalidAgentConfig ''assistant_id is required for cron jobs'') else
     case assistant_backend ae user a of
       Inl e \<Rightarrow> Inl e
     | Inr None \<Rightarrow> Inl (Cron_InvalidAgentConfig (''assistant '' @ quoted a @ '' could not resolve a runtime backend''))
     | Inr (Some backend) \<Rightarrow>
    (case cron_full_auto_mode ae user agent_type a backend of
       Inl e \<Rightarrow> Inl e
     | Inr mode \<Rightarrow>
    (case normalize_model (dto_model c) agent_type of
       Inl e \<Rightarrow> Inl e
     | Inr model \<Rightarrow>
        Inr \<lparr>cfg_name = dto_name c, cfg_cli_path = dto_cli_path c, cfg_is_preset = None,
          cfg_assistant_id = dto_assistant_id c, cfg_custom_agent_id = None, cfg_mode = Some mode,
          cfg_model_id = dto_model_id c, cfg_model = model, cfg_config_options = dto_config_options c,
          cfg_workspace = dto_workspace c, cfg_skill_ids = dto_skill_ids c,
          cfg_disabled_builtin_skill_ids = dto_disabled_builtin_skill_ids c, cfg_mcp_ids = dto_mcp_ids c,
          cfg_exclude_auto_inject_skills = dto_exclude_auto_inject_skills c\<rparr>))))"

definition require_existing_conversation_scope ::
  "('s, 'z) service_env \<Rightarrow> string \<Rightarrow> string \<Rightarrow> cron_world \<Rightarrow> (cron_error + unit) \<times> cron_world" where
  "require_existing_conversation_scope env user c w =
    (if c = [] then (Inl (Cron_Conversation (Conv_NotFound c)), w)
     else case db_read env (\<lambda>db. map_of (db_conversations db) c) w of
       (Inl e, w) \<Rightarrow> (Inl (Cron_Database e), w)
     | (Inr None, w) \<Rightarrow> (Inl (Cron_Conversation (Conv_NotFound c)), w)
     | (Inr (Some owner), w) \<Rightarrow>
         if owner \<noteq> user
         then (Inl (Cron_CrossAccountReference ''Referenced conversation belongs to another user.''), w)
         else (Inr (), w))"

definition bind_existing_conversation_if_needed ::
  "('s, 'z) service_env \<Rightarrow> cron_job \<Rightarrow> cron_world \<Rightarrow> cron_world" where
  "bind_existing_conversation_if_needed env job w =
    (if job_execution_mode job \<noteq> Existing \<or> trim (job_conversation_id job) = [] then w
     else snd (bind_cron_job_to_conversation env (job_conversation_id job) (job_id job)
            (Option.bind (job_agent_config job) cfg_mode) w))"

definition new_agent_config ::
  "admin_env \<Rightarrow> string \<Rightarrow> string \<Rightarrow> config_dto option \<Rightarrow> cron_error + cron_agent_config option" where
  "new_agent_config ae user agent_type config =
    (case config of
       None \<Rightarrow> Inr None
     | Some c \<Rightarrow>
        (case build_cron_agent_config ae user agent_type (sanitize_agent_config_dto c) of
           Inl e \<Rightarrow> Inl e | Inr c \<Rightarrow> Inr (Some c)))"

text \<open>The checks of a creation before anything is read or written.\<close>

definition check_create ::
  "('s, 'z) service_env \<Rightarrow> string \<Rightarrow> create_request \<Rightarrow> string option \<Rightarrow>
    cron_error + cron_schedule \<times> string \<times> execution_mode \<times> created_by" where
  "check_create env user req runtime_type =
    (let schedule = schedule_from_dto (cr_schedule req)
     in case validate_schedule (env_calendar env) schedule of
       Inl e \<Rightarrow> Inl e
     | Inr _ \<Rightarrow>
    (case (case runtime_type of Some t \<Rightarrow> Inr t | None \<Rightarrow> resolve_new_job_agent_type env user (cr_agent_config req)) of
       Inl e \<Rightarrow> Inl e
     | Inr agent_type \<Rightarrow>
    (case validate_aionrs_agent_config agent_type (cr_agent_config req) of
       Inl e \<Rightarrow> Inl e
     | Inr _ \<Rightarrow>
    (case parse_execution_mode (cr_execution_mode req) of
       Inl e \<Rightarrow> Inl e
     | Inr mode \<Rightarrow>
    (case created_by_from_str (cr_created_by req) of
       Inl e \<Rightarrow> Inl e
     | Inr creator \<Rightarrow> Inr (schedule, agent_type, mode, creator))))))"

definition add_job_internal ::
  "('s, 'z) service_env \<Rightarrow> admin_env \<Rightarrow> string \<Rightarrow> create_request \<Rightarrow> string option \<Rightarrow> cron_world \<Rightarrow>
    (cron_error + cron_job) \<times> cron_world" where
  "add_job_internal env ae user req runtime_type w =
    (case check_create env user req runtime_type of
       Inl e \<Rightarrow> (Inl e, w)
     | Inr (schedule, agent_type, mode, creator) \<Rightarrow>
     (let c = trim (cr_conversation_id req)
      in case (if mode = Existing then require_existing_conversation_scope env user c w else (Inr (), w)) of
       (Inl e, w) \<Rightarrow> (Inl e, w)
     | (Inr _, w) \<Rightarrow>
     (case new_agent_config ae user agent_type (cr_agent_config req) of
       Inl e \<Rightarrow> (Inl e, w)
     | Inr config \<Rightarrow>
     (case now_ms env w of (now, w) \<Rightarrow>
      let job = \<lparr>job_id = fresh_job_id ae w, job_user_id = user, job_name = cr_name req, job_enabled = True,
            job_schedule = schedule,
            job_message = (case cr_message req of Some m \<Rightarrow> m | None \<Rightarrow> (case cr_prompt req of Some p \<Rightarrow> p | None \<Rightarrow> [])),
            job_execution_mode = mode, job_agent_config = config, job_conversation_id = c,
            job_conversation_title = cr_conversation_title req, job_agent_type = agent_type,
            job_created_by = creator, job_skill_content = None, job_description = cr_description req,
            job_created_at = now, job_updated_at = now,
            job_next_run_at = compute_next_run (env_calendar env) schedule now, job_last_run_at = None,
            job_last_status = None, job_last_error = None, job_run_count = 0, job_retry_count = 0,
            job_max_retries = 3, job_queue_enabled = cr_queue_enabled req\<rparr>
      in case workspace_available ae job of
        Inl e \<Rightarrow> (Inl e, w)
      | Inr _ \<Rightarrow>
      (case db_write env (\<lambda>_. insert_job (cron_job_to_row (env_codec env) job)) w of
        (Inl e, w) \<Rightarrow> (Inl (Cron_Database e), w)
      | (Inr _, w) \<Rightarrow>
         (Inr job, emit (Job_Created user job)
            (with_timers (schedule_job job) (bind_existing_conversation_if_needed env job w))))))))"

definition add_job ::
  "('s, 'z) service_env \<Rightarrow> admin_env \<Rightarrow> string \<Rightarrow> create_request \<Rightarrow> cron_world \<Rightarrow> (cron_error + cron_job) \<times> cron_world" where
  "add_job env ae user req w = add_job_internal env ae user req None w"


section \<open>Changing a job\<close>

definition build_update_params :: "codec \<Rightarrow> cron_job \<Rightarrow> update_request \<Rightarrow> update_params" where
  "build_update_params js job req =
    (case schedule_to_row_fields (job_schedule job) of (k, v, tz, d) \<Rightarrow>
     let sched = (\<lambda>x. if ur_schedule req \<noteq> None then Some x else None)
     in no_update\<lparr>up_name := ur_name req, up_enabled := ur_enabled req,
       up_schedule_kind := (if ur_schedule req \<noteq> None then Some k else None),
       up_schedule_value := (if ur_schedule req \<noteq> None then Some v else None),
       up_schedule_tz := sched tz, up_schedule_description := sched d,
       up_payload_message := ur_message req, up_execution_mode := ur_execution_mode req,
       up_agent_config := (case ur_agent_config req of None \<Rightarrow> None
         | Some _ \<Rightarrow> map_option (\<lambda>c. Some (config_to_json js c)) (job_agent_config job)),
       up_conversation_title := map_option Some (ur_conversation_title req),
       up_description := map_option Some (ur_description req),
       up_next_run_at := (if ur_schedule req \<noteq> None \<or> ur_enabled req \<noteq> None then Some (job_next_run_at job) else None),
       up_queue_enabled := ur_queue_enabled req\<rparr>)"

definition request_mode ::
  "admin_env \<Rightarrow> cron_job \<Rightarrow> update_request \<Rightarrow> cron_error + execution_mode" where
  "request_mode ae job req =
    (case ur_execution_mode req of
       None \<Rightarrow> Inr (job_execution_mode job)
     | Some s \<Rightarrow>
        (case parse_execution_mode (Some s) of
           Inl e \<Rightarrow> Inl e
         | Inr mode \<Rightarrow>
            (case (if mode \<noteq> job_execution_mode job
                   then (if trim (job_conversation_id job) = [] then Inr False
                         else is_team_conversation ae (trim (job_conversation_id job)))
                   else Inr False) of
               Inl e \<Rightarrow> Inl e
             | Inr True \<Rightarrow> Inl (Cron_InvalidExecutionMode
                 ''Team cron jobs must keep running in their owning Team conversation'')
             | Inr False \<Rightarrow> Inr mode)))"

text \<open>The job as the request changes it, without its next run; whether its conversation is unbound.\<close>

definition apply_request ::
  "('s, 'z) service_env \<Rightarrow> admin_env \<Rightarrow> cron_job \<Rightarrow> update_request \<Rightarrow> cron_error + cron_job \<times> bool" where
  "apply_request env ae job req =
    (let schedule = (case ur_schedule req of
           None \<Rightarrow> job_schedule job
         | Some dto \<Rightarrow> schedule_from_dto_with_existing_timezone dto (job_schedule job))
     in case (if ur_schedule req = None then Inr () else validate_schedule (env_calendar env) schedule) of
       Inl e \<Rightarrow> Inl e
     | Inr _ \<Rightarrow>
    (case request_mode ae job req of
       Inl e \<Rightarrow> Inl e
     | Inr mode \<Rightarrow>
    (let unbinds = (ur_execution_mode req \<noteq> None \<and> mode \<noteq> job_execution_mode job \<and> mode = NewConversation)
     in if ur_agent_config req \<noteq> None \<and> (job_execution_mode job = Existing \<or> mode = Existing)
     then Inl (Cron_InvalidAgentConfig ''ongoing conversation jobs must keep their original assistant'')
     else case (case ur_agent_config req of
         None \<Rightarrow> Inr (job_agent_type job, job_agent_config job)
       | Some dto \<Rightarrow>
          (let dto = sanitize_agent_config_dto dto
           in case resolve_new_job_agent_type env (job_user_id job) (Some dto) of
             Inl e \<Rightarrow> Inl e
           | Inr agent_type \<Rightarrow>
             (case validate_aionrs_agent_config agent_type (Some dto) of
                Inl e \<Rightarrow> Inl e
              | Inr _ \<Rightarrow>
                 (case build_cron_agent_config ae (job_user_id job) agent_type dto of
                    Inl e \<Rightarrow> Inl e | Inr c \<Rightarrow> Inr (agent_type, Some c))))) of
       Inl e \<Rightarrow> Inl e
     | Inr (agent_type, config) \<Rightarrow>
        Inr (job\<lparr>job_name := given (ur_name req) (job_name job),
               job_description := (case ur_description req of Some d \<Rightarrow> Some d | None \<Rightarrow> job_description job),
               job_enabled := given (ur_enabled req) (job_enabled job),
               job_schedule := schedule,
               job_message := given (ur_message req) (job_message job),
               job_execution_mode := mode, job_agent_type := agent_type, job_agent_config := config,
               job_conversation_title := (case ur_conversation_title req of
                   Some t \<Rightarrow> if unbinds then job_conversation_title job else Some t
                 | None \<Rightarrow> job_conversation_title job),
               job_max_retries := given (ur_max_retries req) (job_max_retries job),
               job_queue_enabled := given (ur_queue_enabled req) (job_queue_enabled job)\<rparr>, unbinds))))"

definition clear_auto_workspace_from_job_config :: "admin_env \<Rightarrow> cron_job \<Rightarrow> string \<Rightarrow> cron_job \<times> bool" where
  "clear_auto_workspace_from_job_config ae job c =
    (case job_agent_config job of
       None \<Rightarrow> (job, False)
     | Some config \<Rightarrow>
    (case cfg_workspace config of
       None \<Rightarrow> (job, False)
     | Some workspace \<Rightarrow>
    (case auto_workspace ae (job_user_id job) c of
       Inr (Some path) \<Rightarrow>
         if workspace_matches_path ae workspace path
         then (job\<lparr>job_agent_config := Some (config\<lparr>cfg_workspace := None\<rparr>)\<rparr>, True) else (job, False)
     | _ \<Rightarrow> (job, False))))"

definition finish_update ::
  "('s, 'z) service_env \<Rightarrow> admin_env \<Rightarrow> string \<Rightarrow> string \<Rightarrow> update_request \<Rightarrow> string \<Rightarrow> cron_job \<Rightarrow> bool \<Rightarrow> cron_world \<Rightarrow>
    (cron_error + cron_job) \<times> cron_world" where
  "finish_update env ae user j req original_conversation job unbinds w =
    (case (if ur_schedule req \<noteq> None \<or> ur_enabled req \<noteq> None
           then (case now_ms env w of (now, w) \<Rightarrow>
                 (job\<lparr>job_next_run_at := compute_next_run (env_calendar env) (job_schedule job) now\<rparr>, w))
           else (job, w)) of (job, w) \<Rightarrow>
     case (if unbinds then clear_auto_workspace_from_job_config ae job original_conversation else (job, False)) of
       (job, config_changed) \<Rightarrow>
     case now_ms env w of (now, w) \<Rightarrow>
     let job = job\<lparr>job_updated_at := now\<rparr>
     in case workspace_available ae job of
       Inl e \<Rightarrow> (Inl e, w)
     | Inr _ \<Rightarrow>
      (let params = build_update_params (env_codec env) job req;
           params = (if unbinds then params\<lparr>up_conversation_title := Some None\<rparr> else params);
           params = (if config_changed
             then params\<lparr>up_agent_config := Some (map_option (config_to_json (env_codec env)) (job_agent_config job))\<rparr>
             else params)
       in case update_job_row env user j params w of
         (Inl e, w) \<Rightarrow> (Inl (Cron_Database e), w)
       | (Inr _, w) \<Rightarrow>
          (Inr job, emit (Job_Updated user job)
             (with_timers (schedule_job job) (bind_existing_conversation_if_needed env job
                (if unbinds then tick_call w else w))))))"

definition update_job ::
  "('s, 'z) service_env \<Rightarrow> admin_env \<Rightarrow> string \<Rightarrow> string \<Rightarrow> update_request \<Rightarrow> cron_world \<Rightarrow>
    (cron_error + cron_job) \<times> cron_world" where
  "update_job env ae user j req w =
    (case db_read env (get_by_id_for_user user j) w of
       (Inl e, w) \<Rightarrow> (Inl (Cron_Database e), w)
     | (Inr None, w) \<Rightarrow> (Inl (Cron_JobNotFound j), w)
     | (Inr (Some row), w) \<Rightarrow>
    (case cron_job_from_row (env_codec env) row of
       Inl e \<Rightarrow> (Inl e, w)
     | Inr job \<Rightarrow>
    (case resolve_job_agent_type env job of
       Inl e \<Rightarrow> (Inl e, w)
     | Inr agent_type \<Rightarrow>
    (case apply_request env ae (job\<lparr>job_agent_type := agent_type\<rparr>) req of
       Inl e \<Rightarrow> (Inl e, w)
     | Inr (job', unbinds) \<Rightarrow> finish_update env ae user j req (job_conversation_id job) job' unbinds w))))"


section \<open>Removing and reading jobs\<close>

text \<open>The timer is cancelled before the owner of the job is known. So are the job's skill file and skill
  row deleted, between the two; the model has no skill files, and these two steps are left out.\<close>

definition remove_job ::
  "('s, 'z) service_env \<Rightarrow> string \<Rightarrow> string \<Rightarrow> cron_world \<Rightarrow> (cron_error + unit) \<times> cron_world" where
  "remove_job env user j w =
    (case db_write env (\<lambda>_. delete_for_user user j) (with_timers (cancel_job j) w) of
       (Inl e, w) \<Rightarrow> (Inl (Cron_Database e), w)
     | (Inr _, w) \<Rightarrow> (Inr (), emit (Job_Removed user j) w))"

definition read_job :: "('s, 'z) service_env \<Rightarrow> cron_job_row \<Rightarrow> cron_error + cron_job" where
  "read_job env row =
    (case cron_job_from_row (env_codec env) row of
       Inl e \<Rightarrow> Inl e
     | Inr job \<Rightarrow>
        (case resolve_job_agent_type env job of
           Inl e \<Rightarrow> Inl e
         | Inr agent_type \<Rightarrow> Inr (job\<lparr>job_agent_type := agent_type\<rparr>)))"

definition get_job ::
  "('s, 'z) service_env \<Rightarrow> string \<Rightarrow> string \<Rightarrow> cron_world \<Rightarrow> (cron_error + cron_job) \<times> cron_world" where
  "get_job env user j w =
    (case db_read env (get_by_id_for_user user j) w of
       (Inl e, w) \<Rightarrow> (Inl (Cron_Database e), w)
     | (Inr None, w) \<Rightarrow> (Inl (Cron_JobNotFound j), w)
     | (Inr (Some row), w) \<Rightarrow> (read_job env row, w))"

fun read_jobs :: "('s, 'z) service_env \<Rightarrow> cron_job_row list \<Rightarrow> cron_error + cron_job list" where
  "read_jobs env [] = Inr []"
| "read_jobs env (row # rows) =
    (case read_job env row of
       Inl e \<Rightarrow> Inl e
     | Inr job \<Rightarrow> (case read_jobs env rows of Inl e \<Rightarrow> Inl e | Inr jobs \<Rightarrow> Inr (job # jobs)))"

definition list_jobs ::
  "('s, 'z) service_env \<Rightarrow> string \<Rightarrow> string option \<Rightarrow> cron_world \<Rightarrow> (cron_error + cron_job list) \<times> cron_world" where
  "list_jobs env user conversation_id w =
    (case db_read env (case conversation_id of
         Some c \<Rightarrow> list_by_conversation_for_user user c | None \<Rightarrow> list_all_for_user user) w of
       (Inl e, w) \<Rightarrow> (Inl (Cron_Database e), w)
     | (Inr rows, w) \<Rightarrow> (read_jobs env rows, w))"

end
