(* ===== verification/Cron_Leases.thy ===== *)
theory Cron_Leases
  imports Cron_Store
begin

text \<open>
  What the run table promises to the backend processes that share it: a claimed occurrence is nobody
  else's while its lease runs, every occurrence is completed at most once, and an unfinished
  occurrence is found again and can be taken over when its lease is over. A history is any sequence
  of the table's operations, by any owners, with any clock readings.
\<close>

section \<open>Histories\<close>

datatype store_op =
    Claim claim_params
  | Renew string timestamp_ms string timestamp_ms timestamp_ms
  | Defer string timestamp_ms string timestamp_ms timestamp_ms
  | Finish finish_params
  | Cleanup timestamp_ms
  | InsertJob cron_job_row
  | UpdateJob string string update_params timestamp_ms
  | DeleteJob string string

datatype store_answer = ClaimAnswer claim_result | Done bool

definition succeeded :: "('e + 'a) \<times> 'b \<Rightarrow> store_answer \<times> 'b" where
  "succeeded r = (Done (case fst r of Inr _ \<Rightarrow> True | Inl _ \<Rightarrow> False), snd r)"

fun store_do :: "store_op \<Rightarrow> cron_db \<Rightarrow> store_answer \<times> cron_db" where
  "store_do (Claim p) db = map_prod ClaimAnswer id (claim_run p db)"
| "store_do (Renew j t o' lease now) db = map_prod Done id (renew_run_lease j t o' lease now db)"
| "store_do (Defer j t o' retry now) db = map_prod Done id (defer_run j t o' retry now db)"
| "store_do (Finish p) db = map_prod Done id (finish_run p db)"
| "store_do (Cleanup cutoff) db = (Done True, snd (cleanup_runs_before cutoff db))"
| "store_do (InsertJob row) db = succeeded (insert_job row db)"
| "store_do (UpdateJob user j p now) db = succeeded (update_for_user user j p now db)"
| "store_do (DeleteJob user j) db = succeeded (delete_for_user user j db)"

fun store_trace :: "store_op list \<Rightarrow> cron_db \<Rightarrow> (store_op \<times> store_answer) list" where
  "store_trace [] db = []"
| "store_trace (x # xs) db = (x, fst (store_do x db)) # store_trace xs (snd (store_do x db))"

fun store_run :: "store_op list \<Rightarrow> cron_db \<Rightarrow> cron_db" where
  "store_run [] db = db"
| "store_run (x # xs) db = store_run xs (snd (store_do x db))"

named_theorems store_defs \<open>the operations of the run table\<close>

declare claim_run_def [store_defs] renew_run_lease_def [store_defs] defer_run_def [store_defs]
  finish_run_def [store_defs] cleanup_runs_before_def [store_defs] insert_job_def [store_defs]
  update_for_user_def [store_defs] delete_for_user_def [store_defs]

lemma the_run_set_run [simp]: "map_of (db_runs (set_run j t r db)) = (map_of (db_runs db))((j, t) \<mapsto> r)"
  by (simp add: set_run_def)

lemma db_jobs_set_run [simp]: "db_jobs (set_run j t r db) = db_jobs db"
  by (simp add: set_run_def)

lemma job_has_owner_set_run [simp]: "job_has_owner (set_run j t r db) k = job_has_owner db k"
  by (simp add: job_has_owner_def)

lemma map_of_filter_key:
  "map_of (filter (\<lambda>e. P (fst e)) m) = (\<lambda>k. if P k then map_of m k else None)"
  by (induction m) (auto simp: fun_eq_iff)

text \<open>What each operation can do to the run of one occurrence.\<close>

lemma run_after_delete:
  "the_run (snd (delete_for_user user j' db)) j t =
    (if j' = j \<and> get_by_id_for_user user j' db \<noteq> None then None else the_run db j t)"
proof -
  have "(\<lambda>((i, _), _). i \<noteq> j') = (\<lambda>e :: (string \<times> timestamp_ms) \<times> cron_run. fst (fst e) \<noteq> j')" by auto
  then show ?thesis
    using map_of_filter_key [of "\<lambda>k. fst k \<noteq> j'" "db_runs db"]
    by (auto simp: delete_for_user_def split: option.splits)
qed

lemma run_after_job_change [simp]:
  "db_runs (snd (insert_job row db)) = db_runs db"
  "db_runs (snd (update_for_user user j p now db)) = db_runs db"
  by (auto simp: insert_job_def update_for_user_def split: option.splits sum.splits)

text \<open>What each operation can do to the run of one occurrence, by what the operation answers.\<close>

lemma map_of_filter_kept: "map_of m k = Some v \<Longrightarrow> P (k, v) \<Longrightarrow> map_of (filter P m) k = Some v"
  by (induction m) (auto split: if_splits)

lemma run_after_cleanup:
  "the_run db j t = Some r \<Longrightarrow> unfinished r \<Longrightarrow> the_run (snd (cleanup_runs_before cutoff db)) j t = Some r"
  by (auto simp: cleanup_runs_before_def is_stale_def intro!: map_of_filter_kept)

lemma jobs_after_runs [simp]:
  "db_jobs (snd (claim_run p db)) = db_jobs db"
  "db_jobs (snd (renew_run_lease j t o' l now db)) = db_jobs db"
  "db_jobs (snd (defer_run j t o' l now db)) = db_jobs db"
  "db_jobs (snd (finish_run q db)) = db_jobs db"
  "db_jobs (snd (cleanup_runs_before c db)) = db_jobs db"
  by (auto simp: store_defs Let_def split: option.splits)


section \<open>One completion for each occurrence\<close>

definition terminal_status :: "cron_run_status \<Rightarrow> bool" where
  "terminal_status s \<longleftrightarrow> s \<noteq> Running \<and> s \<noteq> Retrying"

fun reports_terminal :: "store_op \<Rightarrow> bool" where
  "reports_terminal (Finish p) \<longleftrightarrow> terminal_status (fin_status p)"
| "reports_terminal _ \<longleftrightarrow> True"

fun completes_run :: "string \<Rightarrow> timestamp_ms \<Rightarrow> store_op \<times> store_answer \<Rightarrow> bool" where
  "completes_run j t (Finish p, Done True) \<longleftrightarrow> fin_job_id p = j \<and> fin_scheduled_at p = t"
| "completes_run j t _ \<longleftrightarrow> False"

fun forgets :: "string \<Rightarrow> store_op \<Rightarrow> bool" where
  "forgets j (Cleanup _) \<longleftrightarrow> True"
| "forgets j (DeleteJob _ j') \<longleftrightarrow> j' = j"
| "forgets j _ \<longleftrightarrow> False"

definition can_complete :: "cron_db \<Rightarrow> string \<Rightarrow> timestamp_ms \<Rightarrow> nat" where
  "can_complete db j t = (case the_run db j t of Some r \<Rightarrow> of_bool (unfinished r) | None \<Rightarrow> 1)"

lemma can_complete_cong: "the_run db' j t = the_run db j t \<Longrightarrow> can_complete db' j t = can_complete db j t"
  by (simp add: can_complete_def)

lemma completion_step:
  assumes "reports_terminal x"
  shows "of_bool (completes_run j t (x, fst (store_do x db))) + can_complete (snd (store_do x db)) j t
    \<le> can_complete db j t + of_bool (forgets j x)"
proof (cases x)
  case (Finish p)
  with assms show ?thesis
    by (auto simp: finish_run_def held_run_def can_complete_def unfinished_def terminal_status_def
        split: option.splits if_splits)
next
  case (DeleteJob user j')
  then show ?thesis
    by (auto simp: succeeded_def run_after_delete can_complete_def split: option.splits)
next
  case (Cleanup c)
  then show ?thesis by (auto simp: can_complete_def split: option.splits)
qed (auto simp: store_defs held_run_def can_complete_def unfinished_def Let_def map_prod_def succeeded_def
  split: option.splits if_splits sum.splits)

definition completions :: "string \<Rightarrow> timestamp_ms \<Rightarrow> store_op list \<Rightarrow> cron_db \<Rightarrow> nat" where
  "completions j t ops db = length (filter (completes_run j t) (store_trace ops db))"

lemma completions_bounded:
  assumes "\<forall>x \<in> set ops. reports_terminal x"
  shows "completions j t ops db \<le> can_complete db j t + length (filter (forgets j) ops)"
  using assms
proof (induction ops arbitrary: db)
  case (Cons x ops)
  let ?db = "snd (store_do x db)"
  have "of_bool (completes_run j t (x, fst (store_do x db))) + can_complete ?db j t
      \<le> can_complete db j t + of_bool (forgets j x)"
    using Cons.prems by (intro completion_step) simp
  moreover have "completions j t ops ?db \<le> can_complete ?db j t + length (filter (forgets j) ops)"
    using Cons by simp
  moreover have "completions j t (x # ops) db
      = of_bool (completes_run j t (x, fst (store_do x db))) + completions j t ops ?db"
    by (simp add: completions_def)
  moreover have "length (filter (forgets j) (x # ops)) = of_bool (forgets j x) + length (filter (forgets j) ops)"
    by simp
  ultimately show ?case by linarith
qed (simp add: completions_def)

text \<open>C7: however the backend processes interleave and whatever their clocks say, an occurrence is
  reported complete at most once in a history without a call that discards records of runs: a deletion of the job,
  or any clean-up of old runs, whether or not it meets this record.\<close>

theorem occurrence_completes_once:
  assumes "\<forall>x \<in> set ops. reports_terminal x" and "\<forall>x \<in> set ops. \<not> forgets j x"
  shows "completions j t ops db \<le> 1"
proof -
  have "filter (forgets j) ops = []" using assms(2) by (simp add: filter_empty_conv)
  moreover have "can_complete db j t \<le> 1" by (auto simp: can_complete_def split: option.splits)
  ultimately show ?thesis using completions_bounded [OF assms(1), of j t db] by simp
qed


section \<open>A lease keeps the others out\<close>

text \<open>
  What a history may hold for a claim to stay good: nobody's clock has reached the end of the lease,
  the holder itself has not let go, and the job is not deleted.
\<close>

fun keeps_lease :: "claim_params \<Rightarrow> store_op \<Rightarrow> bool" where
  "keeps_lease p (Claim q) \<longleftrightarrow>
     (claim_job_id q = claim_job_id p \<and> claim_scheduled_at q = claim_scheduled_at p \<longrightarrow>
      claim_now q < claim_lease_until p)"
| "keeps_lease p (Renew j t owner lease _) \<longleftrightarrow>
     (j = claim_job_id p \<and> t = claim_scheduled_at p \<and> owner = claim_owner_id p \<longrightarrow> claim_lease_until p \<le> lease)"
| "keeps_lease p (Defer j t owner _ _) \<longleftrightarrow>
     \<not> (j = claim_job_id p \<and> t = claim_scheduled_at p \<and> owner = claim_owner_id p)"
| "keeps_lease p (Finish q) \<longleftrightarrow>
     \<not> (fin_job_id q = claim_job_id p \<and> fin_scheduled_at q = claim_scheduled_at p \<and> fin_owner_id q = claim_owner_id p)"
| "keeps_lease p (DeleteJob _ j) \<longleftrightarrow> j \<noteq> claim_job_id p"
| "keeps_lease p _ \<longleftrightarrow> True"

text \<open>How the table answers everyone else meanwhile, and the holder's renewals.\<close>

fun kept_out :: "claim_params \<Rightarrow> store_op \<times> store_answer \<Rightarrow> bool" where
  "kept_out p (Claim q, ans) \<longleftrightarrow>
     (claim_job_id q = claim_job_id p \<and> claim_scheduled_at q = claim_scheduled_at p \<longrightarrow> ans = ClaimAnswer Duplicate)"
| "kept_out p (Renew j t owner _ _, ans) \<longleftrightarrow>
     (j = claim_job_id p \<and> t = claim_scheduled_at p \<longrightarrow> ans = Done (owner = claim_owner_id p))"
| "kept_out p (Defer j t _ _ _, ans) \<longleftrightarrow>
     (j = claim_job_id p \<and> t = claim_scheduled_at p \<longrightarrow> ans = Done False)"
| "kept_out p (Finish q, ans) \<longleftrightarrow>
     (fin_job_id q = claim_job_id p \<and> fin_scheduled_at q = claim_scheduled_at p \<longrightarrow> ans = Done False)"
| "kept_out p _ \<longleftrightarrow> True"

definition holds_lease :: "claim_params \<Rightarrow> cron_db \<Rightarrow> bool" where
  "holds_lease p db \<longleftrightarrow> (\<exists>r l. held_run db (claim_job_id p) (claim_scheduled_at p) (claim_owner_id p) = Some r
     \<and> run_lease r = Some l \<and> claim_lease_until p \<le> l)"

lemma claimed_holds: "claim_run p db = (Claimed, db') \<Longrightarrow> holds_lease p db'"
  by (auto simp: claim_run_def holds_lease_def held_run_def Let_def split: if_splits option.splits)

lemma owner_after_insert: "job_has_owner db j \<Longrightarrow> job_has_owner (snd (insert_job row db)) j"
  by (auto simp: job_has_owner_def insert_job_def split: option.splits sum.splits)

lemma update_keeps_owner [simp]: "row_user_id (apply_update p now row) = row_user_id row"
  by (simp add: apply_update_def)

lemma user_after_update:
  "map_option row_user_id (map_of (modify j' (apply_update p now) m) j) = map_option row_user_id (map_of m j)"
  by (cases "map_of m j") (auto simp: map_of_modify)

lemma job_has_owner_alt:
  "job_has_owner db j = (case map_option row_user_id (map_of (db_jobs db) j) of Some u \<Rightarrow> u \<noteq> [] | None \<Rightarrow> False)"
  by (simp add: job_has_owner_def option.case_eq_if option.map_sel)

lemma update_shape:
  "snd (update_for_user user j p now db) = db \<or>
   snd (update_for_user user j p now db) = db\<lparr>db_jobs := modify j (apply_update p now) (db_jobs db)\<rparr>"
  by (simp add: update_for_user_def split: option.split sum.split)

lemma owner_after_update [simp]: "job_has_owner (snd (update_for_user user j' p now db)) j = job_has_owner db j"
  using update_shape [of user j' p now db] by (elim disjE) (simp_all add: job_has_owner_alt user_after_update)

lemma owner_after_delete: "j' \<noteq> j \<Longrightarrow> job_has_owner (snd (delete_for_user user j' db)) j = job_has_owner db j"
  by (simp add: job_has_owner_def delete_for_user_def delete_conv' split: option.splits)

text \<open>An operation on another occurrence leaves the run alone.\<close>

lemma set_run_self [simp]: "\<exists>r'. set_run j t r db = set_run j t r' db"
  by blast

lemma run_op_shape:
  "snd (claim_run q db) = db \<or> (\<exists>r. snd (claim_run q db) = set_run (claim_job_id q) (claim_scheduled_at q) r db)"
  "snd (renew_run_lease j t o' l now db) = db \<or> (\<exists>r. snd (renew_run_lease j t o' l now db) = set_run j t r db)"
  "snd (defer_run j t o' l now db) = db \<or> (\<exists>r. snd (defer_run j t o' l now db) = set_run j t r db)"
  "snd (finish_run f db) = db \<or> (\<exists>r. snd (finish_run f db) = set_run (fin_job_id f) (fin_scheduled_at f) r db)"
  by (cases "the_run db (claim_job_id q) (claim_scheduled_at q)"; simp add: claim_run_def Let_def)
    (simp_all add: renew_run_lease_def defer_run_def finish_run_def split: option.split)

lemma other_run_untouched:
  "(claim_job_id q, claim_scheduled_at q) \<noteq> (j, t) \<Longrightarrow> the_run (snd (claim_run q db)) j t = the_run db j t"
  "(j', t') \<noteq> (j, t) \<Longrightarrow> the_run (snd (renew_run_lease j' t' o' l now db)) j t = the_run db j t"
  "(j', t') \<noteq> (j, t) \<Longrightarrow> the_run (snd (defer_run j' t' o' l now db)) j t = the_run db j t"
  "(fin_job_id f, fin_scheduled_at f) \<noteq> (j, t) \<Longrightarrow> the_run (snd (finish_run f db)) j t = the_run db j t"
  using run_op_shape(1) [of q db] run_op_shape(2,3) [of j' t' o' l now db] run_op_shape(4) [of f db] by auto

lemma held_run_cong:
  "the_run db' j t = the_run db j t \<Longrightarrow> job_has_owner db' j = job_has_owner db j \<Longrightarrow> held_run db' j t o' = held_run db j t o'"
  by (simp add: held_run_def split: option.split)

lemma keeps_holding:
  assumes "holds_lease p db"
    and "the_run db' (claim_job_id p) (claim_scheduled_at p) = the_run db (claim_job_id p) (claim_scheduled_at p)"
    and "job_has_owner db' (claim_job_id p) = job_has_owner db (claim_job_id p)"
  shows "holds_lease p db'"
  using assms by (simp add: holds_lease_def held_run_cong [of db' _ _ db])

lemma owner_after_runs [simp]:
  "job_has_owner (snd (claim_run q db)) j = job_has_owner db j"
  "job_has_owner (snd (renew_run_lease j' t' o' l now db)) j = job_has_owner db j"
  "job_has_owner (snd (defer_run j' t' o' l now db)) j = job_has_owner db j"
  "job_has_owner (snd (finish_run f db)) j = job_has_owner db j"
  "job_has_owner (snd (cleanup_runs_before c db)) j = job_has_owner db j"
  by (simp_all add: job_has_owner_def)

lemma holds_leaseE:
  assumes "holds_lease p db"
  obtains (held) r l where "the_run db (claim_job_id p) (claim_scheduled_at p) = Some r" "run_state r = Running"
    "run_owner r = Some (claim_owner_id p)" "job_has_owner db (claim_job_id p)" "run_lease r = Some l"
    "claim_lease_until p \<le> l"
  using assms by (auto simp: holds_lease_def held_run_def split: option.splits if_splits)

lemma lease_claim:
  assumes "holds_lease p db" "keeps_lease p (Claim q)"
  shows "kept_out p (Claim q, fst (store_do (Claim q) db)) \<and> holds_lease p (snd (store_do (Claim q) db))"
proof (cases "claim_job_id q = claim_job_id p \<and> claim_scheduled_at q = claim_scheduled_at p")
  case True
  have "claim_run q db = (Duplicate, db)"
    using assms(1)
  proof (cases rule: holds_leaseE)
    case (held r l)
    with True assms(2) show ?thesis by (simp add: claim_run_def lease_passed_def Let_def)
  qed
  with True assms(1) show ?thesis by simp
next
  case False
  then have "the_run (snd (claim_run q db)) (claim_job_id p) (claim_scheduled_at p)
      = the_run db (claim_job_id p) (claim_scheduled_at p)"
    by (intro other_run_untouched) auto
  then have "holds_lease p (snd (claim_run q db))" by (intro keeps_holding [OF assms(1)]) simp_all
  with False show ?thesis by auto
qed

text \<open>Reports on the occurrence by anyone but the holder find no row.\<close>

lemma not_holder: "holds_lease p db \<Longrightarrow> o' \<noteq> claim_owner_id p \<Longrightarrow>
    held_run db (claim_job_id p) (claim_scheduled_at p) o' = None"
  by (auto simp: holds_lease_def held_run_def split: option.splits if_splits)

lemma lease_renew:
  assumes "holds_lease p db" "keeps_lease p (Renew j t o' lease now)"
  shows "kept_out p (Renew j t o' lease now, fst (store_do (Renew j t o' lease now) db))
    \<and> holds_lease p (snd (store_do (Renew j t o' lease now) db))"
proof (cases "j = claim_job_id p \<and> t = claim_scheduled_at p")
  case True
  show ?thesis
  proof (cases "o' = claim_owner_id p")
    case mine: True
    from assms(1) obtain r where "held_run db j t o' = Some r" "job_has_owner db j" "run_state r = Running"
      "run_owner r = Some o'"
      using True mine by (auto simp: holds_lease_def held_run_def split: option.splits if_splits)
    with True mine assms(2) show ?thesis by (simp add: renew_run_lease_def holds_lease_def held_run_def)
  next
    case False
    with True assms not_holder [OF assms(1) False] show ?thesis by (simp add: renew_run_lease_def)
  qed
next
  case False
  then have "the_run (snd (renew_run_lease j t o' lease now db)) (claim_job_id p) (claim_scheduled_at p)
      = the_run db (claim_job_id p) (claim_scheduled_at p)"
    by (intro other_run_untouched) auto
  then have "holds_lease p (snd (renew_run_lease j t o' lease now db))" by (intro keeps_holding [OF assms(1)]) simp_all
  with False show ?thesis by auto
qed

lemma lease_defer:
  assumes "holds_lease p db" "keeps_lease p (Defer j t o' retry now)"
  shows "kept_out p (Defer j t o' retry now, fst (store_do (Defer j t o' retry now) db))
    \<and> holds_lease p (snd (store_do (Defer j t o' retry now) db))"
proof (cases "j = claim_job_id p \<and> t = claim_scheduled_at p")
  case True
  with assms not_holder [OF assms(1), of o'] show ?thesis by (simp add: defer_run_def)
next
  case False
  then have "the_run (snd (defer_run j t o' retry now db)) (claim_job_id p) (claim_scheduled_at p)
      = the_run db (claim_job_id p) (claim_scheduled_at p)"
    by (intro other_run_untouched) auto
  then have "holds_lease p (snd (defer_run j t o' retry now db))" by (intro keeps_holding [OF assms(1)]) simp_all
  with False show ?thesis by auto
qed

lemma lease_finish:
  assumes "holds_lease p db" "keeps_lease p (Finish q)"
  shows "kept_out p (Finish q, fst (store_do (Finish q) db)) \<and> holds_lease p (snd (store_do (Finish q) db))"
proof (cases "fin_job_id q = claim_job_id p \<and> fin_scheduled_at q = claim_scheduled_at p")
  case True
  with assms not_holder [OF assms(1), of "fin_owner_id q"] show ?thesis by (simp add: finish_run_def)
next
  case False
  then have "the_run (snd (finish_run q db)) (claim_job_id p) (claim_scheduled_at p)
      = the_run db (claim_job_id p) (claim_scheduled_at p)"
    by (intro other_run_untouched) auto
  then have "holds_lease p (snd (finish_run q db))" by (intro keeps_holding [OF assms(1)]) simp_all
  with False show ?thesis by auto
qed

lemma lease_step:
  assumes "holds_lease p db" "keeps_lease p x"
  shows "kept_out p (x, fst (store_do x db)) \<and> holds_lease p (snd (store_do x db))"
proof -
  from assms(1) obtain r where r: "the_run db (claim_job_id p) (claim_scheduled_at p) = Some r" "unfinished r"
    and own: "job_has_owner db (claim_job_id p)"
    by (cases rule: holds_leaseE) (auto simp: unfinished_def)
  note keep = keeps_holding [OF assms(1)]
  show ?thesis
  proof (cases x)
    case (Cleanup c)
    with r run_after_cleanup [OF r, of c] show ?thesis by (auto intro!: keep)
  next
    case (InsertJob row)
    with own owner_after_insert [OF own, of row] show ?thesis by (auto simp: succeeded_def intro!: keep)
  next
    case (UpdateJob user j q now)
    then show ?thesis by (auto simp: succeeded_def intro!: keep)
  next
    case (DeleteJob user j)
    with assms(2) show ?thesis by (auto simp: succeeded_def owner_after_delete run_after_delete intro!: keep)
  qed (use lease_claim lease_renew lease_defer lease_finish assms in blast)+
qed

text \<open>C8: from the moment a claim is granted until its lease is over, or its holder defers or finishes
  the run, no other claim of the occurrence is granted, no other process can renew, defer or finish it, and
  the holder keeps its lease.\<close>

theorem lease_keeps_others_out:
  assumes "claim_run p db = (Claimed, db')" and "\<forall>x \<in> set ops. keeps_lease p x"
  shows "(\<forall>e \<in> set (store_trace ops db'). kept_out p e) \<and> holds_lease p (store_run ops db')"
proof -
  have "holds_lease p db'" using assms(1) by (rule claimed_holds)
  with assms(2) show ?thesis
  proof (induction ops arbitrary: db')
    case (Cons x ops)
    from Cons.prems have "kept_out p (x, fst (store_do x db')) \<and> holds_lease p (snd (store_do x db'))"
      by (intro lease_step) simp_all
    with Cons show ?case by auto
  qed simp
qed


section \<open>An unfinished occurrence is found again\<close>

text \<open>
  A run has a lease exactly while it is unfinished, and belongs to a job that exists. The operations
  keep this.
\<close>

definition run_ok :: "cron_run \<Rightarrow> bool" where
  "run_ok r \<longleftrightarrow> (unfinished r \<longleftrightarrow> run_lease r \<noteq> None) \<and> (unfinished r \<longleftrightarrow> run_finished r = None)"

definition runs_ok :: "cron_db \<Rightarrow> bool" where
  "runs_ok db \<longleftrightarrow> distinct (keys (db_runs db)) \<and>
     (\<forall>j t r. the_run db j t = Some r \<longrightarrow> run_ok r \<and> map_of (db_jobs db) j \<noteq> None)"

lemma runs_ok_set_run:
  "runs_ok db \<Longrightarrow> run_ok r \<Longrightarrow> map_of (db_jobs db) j \<noteq> None \<Longrightarrow> runs_ok (set_run j t r db)"
  by (simp add: runs_ok_def distinct_update) (simp add: set_run_def distinct_update)

lemma owner_job_exists: "job_has_owner db j \<Longrightarrow> map_of (db_jobs db) j \<noteq> None"
  by (auto simp: job_has_owner_def split: option.splits)

lemma runs_ok_in:
  assumes "runs_ok db" "((j, t), r) \<in> set (db_runs db)"
  shows "run_ok r" and "\<exists>row. map_of (db_jobs db) j = Some row"
proof -
  from assms have "the_run db j t = Some r" by (simp add: runs_ok_def)
  with assms(1) show "run_ok r" "\<exists>row. map_of (db_jobs db) j = Some row" by (auto simp: runs_ok_def)
qed

lemma runs_ok_filter:
  assumes "runs_ok db" and "\<And>j t r. ((j, t), r) \<in> set (db_runs db) \<Longrightarrow> P ((j, t), r) \<Longrightarrow> map_of js j \<noteq> None"
  shows "runs_ok (db\<lparr>db_jobs := js, db_runs := filter P (db_runs db)\<rparr>)"
proof -
  have "distinct (keys (filter P (db_runs db)))" using assms(1) by (simp add: runs_ok_def distinct_map_filter)
  moreover have "run_ok r \<and> map_of js j \<noteq> None" if "map_of (filter P (db_runs db)) (j, t) = Some r" for j t r
    using that assms(2) [of j t r] runs_ok_in [OF assms(1), of j t r] by (auto dest!: map_of_SomeD)
  ultimately show ?thesis by (auto simp: runs_ok_def)
qed

lemma held_ok:
  "runs_ok db \<Longrightarrow> held_run db j t o' = Some r \<Longrightarrow> run_ok r \<and> run_state r = Running \<and> (\<exists>row. map_of (db_jobs db) j = Some row)"
  by (auto simp: held_run_def runs_ok_def dest: owner_job_exists split: option.splits if_splits)

lemma runs_ok_claim:
  assumes "runs_ok db"
  shows "runs_ok (snd (claim_run p db))"
proof (cases "job_has_owner db (claim_job_id p)")
  case True
  note job = owner_job_exists [OF True]
  show ?thesis
  proof (cases "the_run db (claim_job_id p) (claim_scheduled_at p)")
    case None
    then show ?thesis using assms job
      by (simp add: claim_run_def Let_def runs_ok_set_run run_ok_def unfinished_def)
  next
    case (Some r)
    then show ?thesis using assms job
      by (simp add: claim_run_def Let_def runs_ok_set_run run_ok_def unfinished_def)
  qed
qed (use assms in \<open>simp add: claim_run_def Let_def\<close>)

lemma runs_ok_renew: "runs_ok db \<Longrightarrow> runs_ok (snd (renew_run_lease j t o' lease now db))"
  by (cases "held_run db j t o'")
    (auto simp: renew_run_lease_def run_ok_def unfinished_def dest: held_ok intro!: runs_ok_set_run)

lemma runs_ok_defer: "runs_ok db \<Longrightarrow> runs_ok (snd (defer_run j t o' lease now db))"
  by (cases "held_run db j t o'")
    (auto simp: defer_run_def run_ok_def unfinished_def dest: held_ok intro!: runs_ok_set_run)

lemma runs_ok_finish: "runs_ok db \<Longrightarrow> terminal_status (fin_status p) \<Longrightarrow> runs_ok (snd (finish_run p db))"
  by (cases "held_run db (fin_job_id p) (fin_scheduled_at p) (fin_owner_id p)")
    (auto simp: finish_run_def run_ok_def unfinished_def terminal_status_def dest: held_ok intro!: runs_ok_set_run)

lemma runs_ok_cleanup:
  assumes "runs_ok db"
  shows "runs_ok (snd (cleanup_runs_before c db))"
proof -
  have "runs_ok (db\<lparr>db_jobs := db_jobs db, db_runs := filter (\<lambda>e. \<not> is_stale c (snd e)) (db_runs db)\<rparr>)"
    using runs_ok_in [OF assms] by (intro runs_ok_filter [OF assms]) auto
  then show ?thesis by (simp add: cleanup_runs_before_def)
qed

lemma runs_ok_jobs:
  "runs_ok db \<Longrightarrow> (\<And>j. map_of (db_jobs db) j \<noteq> None \<Longrightarrow> map_of js j \<noteq> None) \<Longrightarrow> runs_ok (db\<lparr>db_jobs := js\<rparr>)"
  by (simp add: runs_ok_def)

lemma runs_ok_insert: "runs_ok db \<Longrightarrow> runs_ok (snd (insert_job row db))"
  by (simp add: insert_job_def map_add_def runs_ok_jobs split: sum.split option.split)

lemma runs_ok_update: "runs_ok db \<Longrightarrow> runs_ok (snd (update_for_user user j p now db))"
  using update_shape [of user j p now db] by (auto simp: map_of_modify intro!: runs_ok_jobs)

lemma runs_ok_delete:
  assumes "runs_ok db"
  shows "runs_ok (snd (delete_for_user user j db))"
proof -
  have "runs_ok (db\<lparr>db_jobs := AList.delete j (db_jobs db), db_runs := filter (\<lambda>((j', _), _). j' \<noteq> j) (db_runs db)\<rparr>)"
    using runs_ok_in [OF assms] by (intro runs_ok_filter [OF assms]) (auto simp: delete_conv')
  with assms show ?thesis by (simp add: delete_for_user_def split: option.split)
qed

lemmas runs_ok_ops = runs_ok_claim runs_ok_renew runs_ok_defer runs_ok_finish runs_ok_cleanup
  runs_ok_insert runs_ok_update runs_ok_delete

lemma runs_ok_step: "runs_ok db \<Longrightarrow> reports_terminal x \<Longrightarrow> runs_ok (snd (store_do x db))"
  by (cases x) (simp_all add: runs_ok_ops succeeded_def)

lemma runs_ok_run: "runs_ok db \<Longrightarrow> \<forall>x \<in> set ops. reports_terminal x \<Longrightarrow> runs_ok (store_run ops db)"
  by (induction ops arbitrary: db) (simp_all add: runs_ok_step)

lemma in_unfinished_runs:
  "e \<in> set (unfinished_runs j db) \<longleftrightarrow> e \<in> set (db_runs db) \<and> fst (fst e) = j \<and> unfinished (snd e) \<and> run_lease (snd e) \<noteq> None"
  by (auto simp: unfinished_runs_def)

lemma recoverable_first:
  assumes "runs_ok db" "get_recoverable_run j now db = Some rec"
  obtains (run) r l where "the_run db j (rec_scheduled_at rec) = Some r" "unfinished r" "run_lease r = Some l"
    "rec_wake_at rec = max l now" "job_has_owner db j"
proof -
  have own: "job_has_owner db j" using assms(2) by (simp add: get_recoverable_run_def split: if_splits)
  obtain t r es i where s: "unfinished_runs j db = ((i, t), r) # es"
    using assms(2) own by (cases "unfinished_runs j db") (auto simp: get_recoverable_run_def)
  then have mem: "((i, t), r) \<in> set (db_runs db)" "i = j" "unfinished r" "run_lease r \<noteq> None"
    using in_unfinished_runs [of "((i, t), r)" j db] by auto
  then have "the_run db j t = Some r" using assms(1) by (simp add: runs_ok_def)
  moreover have "rec = \<lparr>rec_scheduled_at = t, rec_wake_at = max (the (run_lease r)) now\<rparr>"
    using assms(2) own by (simp add: get_recoverable_run_def s)
  ultimately show thesis using mem own by (intro run [of r "the (run_lease r)"]) simp_all
qed

lemma nothing_recoverable:
  assumes "runs_ok db" "job_has_owner db j" "get_recoverable_run j now db = None" "the_run db j t = Some r"
  shows "\<not> unfinished r"
proof
  assume u: "unfinished r"
  then have "run_lease r \<noteq> None" using assms(1,4) by (auto simp: runs_ok_def run_ok_def)
  with u assms(4) have "((j, t), r) \<in> set (unfinished_runs j db)" by (simp add: in_unfinished_runs map_of_SomeD)
  moreover have "unfinished_runs j db = []"
    using assms(2,3) by (simp add: get_recoverable_run_def split: list.splits prod.splits)
  ultimately show False by simp
qed

text \<open>C17: after any history, the query for what to resume answers nothing only when the job has no unfinished
  run, and a run it answers can be claimed by any process from the time it names.\<close>

theorem unfinished_run_is_recovered:
  assumes "db_runs db = []" and "\<forall>x \<in> set ops. reports_terminal x" and "job_has_owner (store_run ops db) j"
  shows "case get_recoverable_run j now (store_run ops db) of
      None \<Rightarrow> \<forall>t r. the_run (store_run ops db) j t = Some r \<longrightarrow> \<not> unfinished r
    | Some rec \<Rightarrow> now \<le> rec_wake_at rec \<and>
        (\<forall>p. claim_job_id p = j \<and> claim_scheduled_at p = rec_scheduled_at rec \<and> rec_wake_at rec \<le> claim_now p
          \<longrightarrow> fst (claim_run p (store_run ops db)) = Claimed)"
proof -
  have ok: "runs_ok (store_run ops db)" using assms(1,2) by (intro runs_ok_run) (simp_all add: runs_ok_def)
  show ?thesis
  proof (cases "get_recoverable_run j now (store_run ops db)")
    case None
    with nothing_recoverable [OF ok assms(3)] show ?thesis by simp
  next
    case (Some rec)
    with ok show ?thesis
    proof (cases rule: recoverable_first)
      case (run r l)
      then show ?thesis using Some by (auto simp: claim_run_def lease_passed_def Let_def)
    qed
  qed
qed


section \<open>A concrete history\<close>

definition sample_db :: cron_db where
  "sample_db = \<lparr>db_jobs = [(''cron_1'', cron_job_to_row sample_codec sample_job)], db_runs = [],
     db_conversations = [(''c1'', ''u1'')]\<rparr>"

definition sample_claim :: claim_params where
  "sample_claim = \<lparr>claim_job_id = ''cron_1'', claim_scheduled_at = 61000, claim_owner_id = ''a'',
     claim_now = 61000, claim_lease_until = 121000, claim_queue_enabled = False\<rparr>"

definition sample_finish :: finish_params where
  "sample_finish = \<lparr>fin_job_id = ''cron_1'', fin_scheduled_at = 61000, fin_owner_id = ''a'', fin_status = RunOk,
     fin_conversation_id = Some ''c1'', fin_error = None, fin_finished_at = 70000\<rparr>"

lemma sample_owner [simp]: "job_has_owner sample_db ''cron_1''"
  by (simp add: job_has_owner_def sample_db_def cron_job_to_row_def sample_job_def)

lemma sample_claimed: "fst (claim_run sample_claim sample_db) = Claimed"
  by (simp add: claim_run_def sample_claim_def Let_def) (simp add: sample_db_def)

lemma occurrence_completes_once_witness:
  "completions ''cron_1'' 61000 [Claim sample_claim, Finish sample_finish, Finish sample_finish] sample_db \<le> 1"
  by (rule occurrence_completes_once) (simp_all add: sample_finish_def terminal_status_def)

lemma lease_keeps_others_out_witness:
  "fst (claim_run (sample_claim\<lparr>claim_owner_id := ''b'', claim_now := 120999\<rparr>)
      (snd (claim_run sample_claim sample_db))) = Duplicate"
proof -
  let ?late = "sample_claim\<lparr>claim_owner_id := ''b'', claim_now := 120999\<rparr>"
  obtain db' where db': "claim_run sample_claim sample_db = (Claimed, db')" using sample_claimed by (metis prod.collapse)
  then have "snd (claim_run sample_claim sample_db) = db'" by simp
  moreover have "fst (claim_run ?late db') = Duplicate"
    using lease_keeps_others_out [OF db', of "[Claim ?late]"] by (simp add: sample_claim_def)
  ultimately show ?thesis by simp
qed

lemma unfinished_run_is_recovered_witness:
  "\<exists>rec. get_recoverable_run ''cron_1'' 65000 (store_run [Claim sample_claim] sample_db) = Some rec \<and>
     fst (claim_run (sample_claim\<lparr>claim_now := rec_wake_at rec, claim_scheduled_at := rec_scheduled_at rec\<rparr>)
       (store_run [Claim sample_claim] sample_db)) = Claimed"
proof -
  let ?db = "store_run [Claim sample_claim] sample_db"
  have own: "job_has_owner ?db ''cron_1''" by simp
  have "holds_lease sample_claim ?db" using sample_claimed claimed_holds [of sample_claim sample_db ?db]
    by (metis store_do.simps(1) store_run.simps map_prod_def prod.collapse snd_map_prod id_apply)
  then obtain r where r: "the_run ?db ''cron_1'' 61000 = Some r" "unfinished r"
    by (cases rule: holds_leaseE) (auto simp: sample_claim_def unfinished_def)
  have "db_runs sample_db = []" "\<forall>x \<in> set [Claim sample_claim]. reports_terminal x" by (simp_all add: sample_db_def)
  from unfinished_run_is_recovered [OF this own, of 65000] r obtain rec where
    rec: "get_recoverable_run ''cron_1'' 65000 ?db = Some rec"
      "\<forall>p. claim_job_id p = ''cron_1'' \<and> claim_scheduled_at p = rec_scheduled_at rec \<and> rec_wake_at rec \<le> claim_now p
          \<longrightarrow> fst (claim_run p ?db) = Claimed"
    by (auto split: option.splits)
  then show ?thesis by (auto simp: sample_claim_def)
qed

end
