(* ===== verification/Cron_Reach.thy ===== *)
theory Cron_Reach
  imports Cron_Admin Cron_Leases
begin

text \<open>
  The histories of the cron service and what holds in all of them. The contract between the tables and
  the service is a locale: an invariant of the tables that the calls of the service respect. The
  service's operations are shown once, inside it, to keep any such invariant; the interpretations
  give the two that matter: every stored job can be read back, and the runs are well formed.
\<close>

section \<open>The calls of the service\<close>

text \<open>What a codec must give: the text of a configuration can be read.\<close>

definition decodes :: "codec \<Rightarrow> string \<Rightarrow> bool" where
  "decodes js s \<longleftrightarrow> (\<exists>c. config_from_json js s = Inr c)"

definition good_codec :: "codec \<Rightarrow> bool" where
  "good_codec js \<longleftrightarrow> (\<forall>c. decodes js (config_to_json js c))"

definition schedule_fields_ok :: "string option \<Rightarrow> string option \<Rightarrow> bool" where
  "schedule_fields_ok kind value \<longleftrightarrow>
    (case (kind, value) of
       (None, None) \<Rightarrow> True
     | (Some k, Some v) \<Rightarrow> (\<forall>tz d. \<exists>s. parse_schedule k v tz d = Inr s)
     | _ \<Rightarrow> False)"

text \<open>The updates that keep a row readable.\<close>

definition params_ok :: "codec \<Rightarrow> update_params \<Rightarrow> bool" where
  "params_ok js p \<longleftrightarrow>
     schedule_fields_ok (up_schedule_kind p) (up_schedule_value p) \<and>
     (\<forall>m. up_execution_mode p = Some m \<longrightarrow> (\<exists>x. execution_mode_from_str m = Inr x)) \<and>
     (\<forall>c. up_agent_config p = Some (Some c) \<longrightarrow> decodes js c) \<and>
     (\<forall>s. up_last_status p = Some (Some s) \<longrightarrow> (\<exists>x. job_status_from_str s = Inr x))"

definition storable :: "codec \<Rightarrow> cron_job \<Rightarrow> bool" where
  "storable js job \<longleftrightarrow> schedule_ok (job_schedule job) \<and>
     (\<forall>c. job_agent_config job = Some c \<longrightarrow> decodes js (config_to_json js c))"

named_theorems updates_ok \<open>the updates of the service\<close>

lemma no_update_ok [updates_ok]:
  "params_ok js (no_update\<lparr>up_retry_count := r\<rparr>)"
  "params_ok js (no_update\<lparr>up_next_run_at := n\<rparr>)"
  "params_ok js (no_update\<lparr>up_conversation_id := c\<rparr>)"
  "params_ok js (no_update\<lparr>up_last_run_at := l, up_last_status := Some (Some ''ok''), up_last_error := le,
     up_retry_count := r, up_run_count := rc, up_conversation_id := c\<rparr>)"
  "params_ok js (no_update\<lparr>up_last_run_at := l, up_last_status := Some (Some ''error''), up_last_error := le,
     up_retry_count := r, up_run_count := rc\<rparr>)"
  "params_ok js (no_update\<lparr>up_last_status := Some (Some ''missed''), up_last_error := le, up_retry_count := r\<rparr>)"
  "params_ok js skipped_update" "params_ok js disable_update"
  using job_status_round [of JobOk] job_status_round [of JobError] job_status_round [of JobMissed]
    job_status_round [of JobSkipped]
  by (auto simp: params_ok_def no_update_def schedule_fields_ok_def skipped_update_def disable_update_def)


text \<open>A request carries numbers of their type.\<close>

definition request_ok :: "update_request \<Rightarrow> bool" where
  "request_ok req \<longleftrightarrow> (\<forall>dto. ur_schedule req = Some dto \<longrightarrow> schedule_ok (schedule_from_dto dto))"

lemma existing_timezone_ok: "schedule_ok (schedule_from_dto_with_existing_timezone dto s) = schedule_ok (schedule_from_dto dto)"
  by (cases dto) simp_all

lemma request_mode_readable:
  "request_mode ae job req = Inr mode \<Longrightarrow> ur_execution_mode req = Some m \<Longrightarrow> \<exists>x. execution_mode_from_str m = Inr x"
  using execution_mode_round [of Existing]
  by (auto simp: request_mode_def parse_execution_mode_def split: sum.splits if_splits bool.splits)

lemma apply_request_readable:
  assumes "apply_request env ae job req = Inr (job', unbinds)" "request_ok req"
  shows "ur_schedule req \<noteq> None \<Longrightarrow> schedule_ok (job_schedule job')"
    and "ur_execution_mode req = Some m \<Longrightarrow> \<exists>x. execution_mode_from_str m = Inr x"
proof -
  let ?s = "case ur_schedule req of None \<Rightarrow> job_schedule job
    | Some dto \<Rightarrow> schedule_from_dto_with_existing_timezone dto (job_schedule job)"
  from assms(1) obtain mode where mode: "request_mode ae job req = Inr mode" and s: "job_schedule job' = ?s"
    by (auto simp: apply_request_def Let_def split: sum.splits if_splits prod.splits)
  show "schedule_ok (job_schedule job')" if "ur_schedule req \<noteq> None"
    using that s assms(2) by (auto simp: request_ok_def existing_timezone_ok)
  show "\<exists>x. execution_mode_from_str m = Inr x" if "ur_execution_mode req = Some m"
    using request_mode_readable [OF mode that] .
qed

lemma row_fields_ok: "schedule_ok s \<Longrightarrow> schedule_to_row_fields s = (k, v, tz, d) \<Longrightarrow> \<exists>s'. parse_schedule k v tz' d' = Inr s'"
  by (cases s) (auto simp: parse_schedule_def)

lemma build_update_params_ok:
  assumes "ur_schedule req \<noteq> None \<Longrightarrow> schedule_ok (job_schedule job)"
    and "\<And>m. ur_execution_mode req = Some m \<Longrightarrow> \<exists>x. execution_mode_from_str m = Inr x"
    and "good_codec js"
  shows "params_ok js (build_update_params js job req)"
proof -
  obtain k v tz d where fields: "schedule_to_row_fields (job_schedule job) = (k, v, tz, d)" by (metis prod_cases4)
  have "schedule_fields_ok (if ur_schedule req \<noteq> None then Some k else None) (if ur_schedule req \<noteq> None then Some v else None)"
    using row_fields_ok [OF assms(1) fields] by (auto simp: schedule_fields_ok_def)
  moreover have "decodes js c"
    if "(case ur_agent_config req of None \<Rightarrow> None | Some _ \<Rightarrow> map_option (\<lambda>c. Some (config_to_json js c)) (job_agent_config job))
      = Some (Some c)" for c
    using that assms(3) by (auto simp: good_codec_def split: option.splits)
  ultimately show ?thesis
    using assms(2) by (simp add: params_ok_def build_update_params_def fields no_update_def)
qed

lemma params_ok_title [updates_ok]: "params_ok js p \<Longrightarrow> params_ok js (p\<lparr>up_conversation_title := t\<rparr>)"
  by (simp add: params_ok_def)

lemma params_ok_config [updates_ok]:
  "params_ok js p \<Longrightarrow> good_codec js \<Longrightarrow> params_ok js (p\<lparr>up_agent_config := Some (map_option (config_to_json js) c)\<rparr>)"
  by (auto simp: params_ok_def good_codec_def)


section \<open>Histories\<close>

text \<open>
  A history of one process: any of its operations, in any order, for any users, jobs and executions,
  with an execution's result recorded whenever it comes; the steps of other processes on the shared
  tables; and whatever happens to the conversations. The codec is the same everywhere.
\<close>

inductive cron_step :: "('s, 'z) service_env \<Rightarrow> cron_world \<Rightarrow> cron_world \<Rightarrow> bool" where
  step_init: "cron_step env w (init env w)"
| step_resume: "cron_step env w (handle_system_resume env w)"
| step_tick: "cron_step env w (snd (tick_begin env j t w))"
| step_materialized: "cron_step env w (snd (bind_materialized_existing_conversation_if_needed env job c w))"
| step_result: "cron_step env w (handle_execution_result env job t r w)"
| step_heartbeat: "cron_step env w (snd (heartbeat env j t w))"
| step_run_now: "cron_step env w (snd (run_now env ee user j w))"
| step_run_now_result: "cron_step env w (handle_run_now_result env user j r w)"
| step_add: "schedule_ok (schedule_from_dto (cr_schedule creq)) \<Longrightarrow>
    cron_step env w (snd (add_job_internal env ae user creq rt w))"
| step_update: "request_ok ureq \<Longrightarrow> cron_step env w (snd (update_job env ae user j ureq w))"
| step_remove: "cron_step env w (snd (remove_job env user j w))"
| step_conversations: "cron_step env w (w\<lparr>w_db := (w_db w)\<lparr>db_conversations := cs\<rparr>\<rparr>)"
| step_peer: "cron_step env' v v' \<Longrightarrow> env_codec env' = env_codec env \<Longrightarrow> w_db v = w_db w \<Longrightarrow>
    cron_step env w (w\<lparr>w_db := w_db v'\<rparr>)"

inductive_cases cron_stepE: "cron_step env w w'"


section \<open>The contract\<close>

locale table_invariant =
  fixes js :: codec and I :: "cron_db \<Rightarrow> bool"
  assumes claims: "I db \<Longrightarrow> I (snd (claim_run p db))"
    and renews: "I db \<Longrightarrow> I (snd (renew_run_lease j t o' lease now db))"
    and defers: "I db \<Longrightarrow> I (snd (defer_run j t o' lease now db))"
    and finishes: "I db \<Longrightarrow> terminal_status (fin_status q) \<Longrightarrow> I (snd (finish_run q db))"
    and cleans: "I db \<Longrightarrow> I (snd (cleanup_runs_before c db))"
    and updates: "I db \<Longrightarrow> params_ok js u \<Longrightarrow> I (snd (update_for_user user j u now db))"
    and inserts: "I db \<Longrightarrow> storable js job \<Longrightarrow> I (snd (insert_job (cron_job_to_row js job) db))"
    and deletes: "I db \<Longrightarrow> I (snd (delete_for_user user j db))"
    and conversations: "I db \<Longrightarrow> I (db\<lparr>db_conversations := cs\<rparr>)"
begin

definition holds :: "cron_world \<Rightarrow> bool" where
  "holds w \<longleftrightarrow> I (w_db w)"

lemma holds_simps [simp]:
  "holds (tick_call w) = holds w" "holds (emit e w) = holds w" "holds (with_timers f w) = holds w"
  "holds (emit_executed u j s err w) = holds w" "holds (w\<lparr>w_bound := b\<rparr>) = holds w"
  by (simp_all add: holds_def tick_call_def emit_def with_timers_def emit_executed_def split: option.split)

lemma holds_now [simp]: "holds (snd (now_ms env w)) = holds w"
  by (simp add: now_ms_def)

lemma holds_read [simp]: "holds (snd (db_read env f w)) = holds w"
  by (simp add: db_read_def split: option.split)

lemma holds_bind [simp]: "holds (snd (bind_cron_job_to_conversation env c j m w)) = holds w"
  by (simp add: bind_cron_job_to_conversation_def split: option.split)

lemma holds_write:
  "holds w \<Longrightarrow> (\<And>now db. I db \<Longrightarrow> I (snd (f now db))) \<Longrightarrow> holds (snd (db_write env f w))"
  by (auto simp: db_write_def holds_def tick_call_def split: option.split prod.split) (metis snd_conv)

lemma holds_update: "holds w \<Longrightarrow> params_ok js u \<Longrightarrow> holds (snd (update_job_row env user j u w))"
  by (erule holds_write) (rule updates)

text \<open>The world after each call, as the operations name it.\<close>

lemma readD: "db_read env f w = (r, w') \<Longrightarrow> holds w' = holds w"
  using holds_read [of env f w] by simp

lemma nowD: "now_ms env w = (n, w') \<Longrightarrow> holds w' = holds w"
  using holds_now [of env w] by simp

lemma bindD: "bind_cron_job_to_conversation env c j m w = (r, w') \<Longrightarrow> holds w' = holds w"
  using holds_bind [of env c j m w] by simp

lemma writeD: "db_write env f w = (r, w') \<Longrightarrow> holds w \<Longrightarrow> (\<And>now db. I db \<Longrightarrow> I (snd (f now db))) \<Longrightarrow> holds w'"
  using holds_write [of w f env] by simp

lemma updateD: "update_job_row env user j u w = (r, w') \<Longrightarrow> holds w \<Longrightarrow> params_ok js u \<Longrightarrow> holds w'"
  using holds_update [of w u env user j] by simp

lemma holds_owner [simp]: "holds (snd (owner_user_id_for_job env job w)) = holds w"
  by (auto simp: owner_user_id_for_job_def Let_def dest: readD split: prod.splits sum.splits option.splits)

lemma ownerD: "owner_user_id_for_job env job w = (r, w') \<Longrightarrow> holds w' = holds w"
  using holds_owner [of env job w] by simp

lemma finishD:
  assumes "finish_scheduled_run env j t st c e w = (b, w')" "holds w" "terminal_status st"
  shows "holds w'"
  using assms finishes
  by (auto simp: finish_scheduled_run_def dest!: nowD split: prod.splits sum.splits bool.splits
      elim!: writeD)

lemma retryD:
  assumes "schedule_retry env j t w = (b, w')" "holds w"
  shows "holds w'"
  using assms defers
  by (auto simp: schedule_retry_def Let_def dest!: nowD split: prod.splits sum.splits bool.splits elim!: writeD)

lemma holds_success: "holds w \<Longrightarrow> holds (update_job_after_success env user j c w)"
  by (auto simp: update_job_after_success_def Let_def dest!: readD nowD bindD
      split: prod.splits sum.splits option.splits intro: updateD updates_ok)

lemma holds_error: "holds w \<Longrightarrow> holds (update_job_after_error env user j m w)"
  by (auto simp: update_job_after_error_def dest!: readD nowD split: prod.splits sum.splits option.splits
      intro!: holds_update updates_ok)

lemma holds_reschedule: "holds w \<Longrightarrow> holds (reschedule_after_execution env job t w)"
  by (auto simp: reschedule_after_execution_def Let_def dest!: readD nowD ownerD
      split: prod.splits sum.splits option.splits intro!: holds_update updates_ok)

lemma holds_result: "holds w \<Longrightarrow> holds (handle_execution_result env job t r w)"
proof (cases r)
  case (Exec_Retrying n)
  assume "holds w"
  with Exec_Retrying show ?thesis
    by (auto dest!: ownerD dest: retryD split: prod.splits bool.splits intro!: holds_update updates_ok)
qed (auto dest!: ownerD dest: finishD split: prod.splits bool.splits
      intro!: holds_reschedule holds_success holds_error holds_update updates_ok simp: terminal_status_def)

lemma holds_run_now_result: "holds w \<Longrightarrow> holds (handle_run_now_result env user j r w)"
  by (cases r) (auto intro!: holds_success holds_error holds_update updates_ok)

lemma holds_materialized:
  "holds w \<Longrightarrow> holds (snd (bind_materialized_existing_conversation_if_needed env job c w))"
  by (auto simp: bind_materialized_existing_conversation_if_needed_def Let_def dest!: bindD
      dest: updateD [OF _ _ no_update_ok(3)] split: prod.splits sum.splits)

lemma materializedD:
  "bind_materialized_existing_conversation_if_needed env job c w = (r, w') \<Longrightarrow> holds w \<Longrightarrow> holds w'"
  using holds_materialized [of w env job c] by simp

lemma claimD: "db_write env (\<lambda>_ db. map_prod Inr id (claim_run p db)) w = (r, w') \<Longrightarrow> holds w \<Longrightarrow> holds w'"
  by (erule writeD) (simp_all add: claims)

lemma holds_claim_occurrence: "holds w \<Longrightarrow> holds (snd (claim_occurrence env job j t w))"
  by (auto simp: claim_occurrence_def Let_def record_queue_busy_skip_def dest!: nowD readD ownerD dest: claimD
      split: prod.splits sum.splits option.splits claim_result.splits
      intro!: holds_reschedule holds_update updates_ok)

lemma holds_tick_begin: "holds w \<Longrightarrow> holds (snd (tick_begin env j t w))"
  by (auto simp: tick_begin_def Let_def dest!: readD split: prod.splits sum.splits option.splits
      intro!: holds_error holds_claim_occurrence)

lemma holds_heartbeat: "holds w \<Longrightarrow> holds (snd (heartbeat env j t w))"
  using renews by (auto simp: heartbeat_def dest!: nowD split: prod.splits sum.splits bool.splits elim!: writeD)

lemma holds_init: "holds w \<Longrightarrow> holds (init env w)"
proof -
  have row: "holds w \<Longrightarrow> holds (init_row env now r w)" for now r w
    by (auto simp: init_row_def dest!: readD split: prod.splits sum.splits option.splits)
  have rows: "holds w \<Longrightarrow> holds (fold (init_row env now) rows w)" for now rows w
    by (induction rows arbitrary: w) (simp_all add: row)
  assume "holds w"
  then show ?thesis
    using cleans by (auto simp: init_def Let_def dest!: nowD readD split: prod.splits sum.splits intro!: rows holds_write)
qed

lemma holds_missed: "holds w \<Longrightarrow> holds (reschedule_after_missed env job w)"
  by (auto simp: reschedule_after_missed_def Let_def dest!: nowD dest: updateD [OF _ _ no_update_ok(2)]
      split: prod.splits sum.splits intro!: holds_update updates_ok)

lemma holds_tips: "holds w \<Longrightarrow> holds (insert_missed_job_tips env job w)"
  by (auto simp: insert_missed_job_tips_def dest!: ownerD split: prod.splits option.splits)

lemma holds_resume: "holds w \<Longrightarrow> holds (handle_system_resume env w)"
proof -
  have row: "holds w \<Longrightarrow> holds (resume_row env now r w)" for now r w
    by (auto simp: resume_row_def record_missed_execution_def dest!: readD ownerD
        split: prod.splits sum.splits option.splits intro!: holds_missed holds_tips holds_update updates_ok)
  have rows: "holds w \<Longrightarrow> holds (fold (resume_row env now) rows w)" for now rows w
    by (induction rows arbitrary: w) (simp_all add: row)
  assume "holds w"
  then show ?thesis
    by (auto simp: handle_system_resume_def dest!: nowD readD split: prod.splits sum.splits intro!: rows)
qed

lemma holds_run_now: "holds w \<Longrightarrow> holds (snd (run_now env ee user j w))"
  by (auto simp: run_now_def Let_def dest!: readD split: prod.splits sum.splits option.splits prepared_run_now.splits
      intro!: holds_error dest: materializedD)

lemma holds_scope [simp]: "holds (snd (require_existing_conversation_scope env user c w)) = holds w"
  by (auto simp: require_existing_conversation_scope_def dest: readD split: prod.splits sum.splits option.splits)

lemma scopeD: "require_existing_conversation_scope env user c w = (r, w') \<Longrightarrow> holds w' = holds w"
  using holds_scope [of env user c w] by simp

lemma holds_rebind [simp]: "holds (bind_existing_conversation_if_needed env job w) = holds w"
  by (simp add: bind_existing_conversation_if_needed_def)

lemma holds_remove: "holds w \<Longrightarrow> holds (snd (remove_job env user j w))"
  using deletes by (auto simp: remove_job_def split: prod.splits sum.splits elim!: writeD)

lemma holds_insert:
  assumes "db_write env (\<lambda>_. insert_job (cron_job_to_row js job)) w = (r, w')" "holds w" "storable js job"
  shows "holds w'"
  using assms by (auto elim!: writeD intro: inserts)

lemma holds_add:
  assumes "holds w" "env_codec env = js" "good_codec js" "schedule_ok (schedule_from_dto (cr_schedule req))"
  shows "holds (snd (add_job_internal env ae user req rt w))"
proof -
  have ins: "holds w'" if "db_write env (\<lambda>_. insert_job (cron_job_to_row js job)) w = (r, w')" "holds w"
    "schedule_ok (job_schedule job)" for job w w' r
    using that assms(3) by (auto intro!: holds_insert [of env job w r w'] simp: storable_def good_codec_def)
  show ?thesis
  proof (cases "check_create env user req rt")
    case (Inr c)
    obtain schedule a m b where c: "c = (schedule, a, m, b)" by (cases c)
    have "schedule_ok schedule"
      using Inr c assms(4) by (auto simp: check_create_def Let_def split: sum.splits)
    with Inr c assms(1,2) show ?thesis
      by (auto simp: add_job_internal_def Let_def dest!: scopeD nowD split: prod.splits sum.splits intro: ins)
  qed (use assms(1) in \<open>simp add: add_job_internal_def\<close>)
qed

lemma updated_row:
  "update_job_row env user j u w = (r, w') \<Longrightarrow> params_ok js u \<Longrightarrow> holds w \<Longrightarrow> holds w'"
  by (rule updateD)

lemma holds_finish_update:
  assumes "holds w" "env_codec env = js" "good_codec js"
    and "ur_schedule req \<noteq> None \<Longrightarrow> schedule_ok (job_schedule job)"
    and "\<And>m. ur_execution_mode req = Some m \<Longrightarrow> \<exists>x. execution_mode_from_str m = Inr x"
  shows "holds (snd (finish_update env ae user j req oc job u w))"
proof -
  have params: "params_ok js (build_update_params js job' req)" if "job_schedule job' = job_schedule job" for job'
    using that assms(3-) by (intro build_update_params_ok) auto
  have cleared: "job_schedule (fst (clear_auto_workspace_from_job_config ae job' c)) = job_schedule job'" for job' c
    by (simp add: clear_auto_workspace_from_job_config_def split: option.split sum.split)
  obtain job1 w1 where one: "(if ur_schedule req \<noteq> None \<or> ur_enabled req \<noteq> None
       then (case now_ms env w of (now, w) \<Rightarrow>
             (job\<lparr>job_next_run_at := compute_next_run (env_calendar env) (job_schedule job) now\<rparr>, w))
       else (job, w)) = (job1, w1)" by (metis prod.collapse)
  then have "job_schedule job1 = job_schedule job" "holds w1"
    using assms(1) by (auto dest: nowD split: if_splits prod.splits)
  obtain job2 ch where two: "(if u then clear_auto_workspace_from_job_config ae job1 oc else (job1, False)) = (job2, ch)"
    by (metis prod.collapse)
  then have "job_schedule job2 = job_schedule job"
    using cleared [of job1 oc] \<open>job_schedule job1 = _\<close> by (auto split: if_splits)
  then have p: "params_ok js (build_update_params js (job2\<lparr>job_updated_at := n\<rparr>) req)" for n
    by (intro params) simp
  show ?thesis
    unfolding finish_update_def one two Let_def prod.case assms(2)
    using \<open>holds w1\<close> assms(3)
    by (auto split: prod.splits sum.splits dest!: nowD intro: updated_row p params_ok_title params_ok_config)
qed

lemma holds_update_job:
  assumes "holds w" "env_codec env = js" "good_codec js" "request_ok req"
  shows "holds (snd (update_job env ae user j req w))"
proof -
  have step: "holds (snd (finish_update env ae user j req oc job' u w'))"
    if "holds w'" "apply_request env ae job req = Inr (job', u)" for oc job job' u w'
    using that assms(2-) by (intro holds_finish_update) (auto dest: apply_request_readable)
  show ?thesis
    using assms(1) by (auto simp: update_job_def dest!: readD split: prod.splits sum.splits option.splits intro!: step)
qed

lemma holds_step:
  assumes "cron_step env w w'" "env_codec env = js" "good_codec js" "holds w"
  shows "holds w'"
  using assms
proof (induction rule: cron_step.induct)
  case (step_peer env' v v' env w)
  then show ?case by (simp add: holds_def)
next
  case (step_conversations env w cs)
  then show ?case by (simp add: holds_def conversations)
qed (auto intro: holds_init holds_resume holds_tick_begin holds_materialized holds_result holds_heartbeat holds_run_now
      holds_run_now_result holds_add holds_update_job holds_remove)

lemma holds_reachable:
  assumes "(cron_step env)\<^sup>*\<^sup>* w w'" "env_codec env = js" "good_codec js" "I (w_db w)"
  shows "I (w_db w')"
  using assms(1)
proof (induction rule: rtranclp_induct)
  case (step w' w'')
  with holds_step [of env w' w''] assms show ?case by (simp add: holds_def)
qed (rule assms(4))

end


section \<open>Every stored job can be read\<close>

definition row_readable :: "codec \<Rightarrow> cron_job_row \<Rightarrow> bool" where
  "row_readable js row \<longleftrightarrow>
     (\<exists>s. parse_schedule (row_schedule_kind row) (row_schedule_value row) (row_schedule_tz row) (row_schedule_description row) = Inr s) \<and>
     (\<exists>m. execution_mode_from_str (row_execution_mode row) = Inr m) \<and>
     (\<exists>c. created_by_from_str (row_created_by row) = Inr c) \<and>
     (\<forall>c. row_agent_config row = Some c \<longrightarrow> decodes js c) \<and>
     (\<forall>s. row_last_status row = Some s \<longrightarrow> (\<exists>x. job_status_from_str s = Inr x))"

lemma transpose_Inr: "(\<exists>y. transpose_result (map_option f x) = Inr y) \<longleftrightarrow> (\<forall>a. x = Some a \<longrightarrow> (\<exists>b. f a = Inr b))"
proof (cases x)
  case (Some a)
  then show ?thesis by (cases "f a") auto
qed simp

lemma decode_Inr: "(\<exists>c. decode_config js s = Inr c) \<longleftrightarrow> decodes js s"
  by (auto simp: decode_config_def decodes_def split: sum.splits)

lemma readable_reads:
  assumes "row_readable js row"
  shows "\<exists>job. cron_job_from_row js row = Inr job"
proof -
  obtain s m c where p: "parse_schedule (row_schedule_kind row) (row_schedule_value row) (row_schedule_tz row)
      (row_schedule_description row) = Inr s" "execution_mode_from_str (row_execution_mode row) = Inr m"
    "created_by_from_str (row_created_by row) = Inr c"
    using assms by (auto simp: row_readable_def)
  have "\<exists>y. transpose_result (map_option (decode_config js) (row_agent_config row)) = Inr y"
    "\<exists>y. transpose_result (map_option job_status_from_str (row_last_status row)) = Inr y"
    using assms unfolding transpose_Inr decode_Inr by (simp_all add: row_readable_def)
  then obtain x y where "transpose_result (map_option (decode_config js) (row_agent_config row)) = Inr x"
    "transpose_result (map_option job_status_from_str (row_last_status row)) = Inr y" by blast
  with p show ?thesis by (simp add: cron_job_from_row_def)
qed

lemma update_readable:
  assumes "row_readable js row" "params_ok js p"
  shows "row_readable js (apply_update p now row)"
proof -
  have "\<exists>s. parse_schedule (given (up_schedule_kind p) (row_schedule_kind row))
      (given (up_schedule_value p) (row_schedule_value row)) tz d = Inr s" for tz d
  proof (cases "up_schedule_kind p")
    case None
    then have "up_schedule_value p = None" using assms(2) by (auto simp: params_ok_def schedule_fields_ok_def split: option.splits)
    moreover obtain s where "parse_schedule (row_schedule_kind row) (row_schedule_value row) (row_schedule_tz row)
        (row_schedule_description row) = Inr s" using assms(1) by (auto simp: row_readable_def)
    then have "\<exists>s. parse_schedule (row_schedule_kind row) (row_schedule_value row) tz d = Inr s"
      by (auto simp: parse_schedule_def split: if_splits sum.splits)
    ultimately show ?thesis using None by simp
  next
    case (Some k)
    then show ?thesis using assms(2) by (auto simp: params_ok_def schedule_fields_ok_def split: option.splits)
  qed
  then show ?thesis
    using assms by (auto simp: row_readable_def params_ok_def apply_update_def split: option.splits)
qed

lemma stored_readable:
  assumes "storable js job"
  shows "row_readable js (cron_job_to_row js job)"
proof -
  obtain k v tz d where fields: "schedule_to_row_fields (job_schedule job) = (k, v, tz, d)" by (metis prod_cases4)
  with assms have "parse_schedule k v tz d = Inr (job_schedule job)" by (simp add: storable_def schedule_round)
  with assms show ?thesis
    by (auto simp: row_readable_def cron_job_to_row_def fields storable_def)
qed

definition jobs_readable :: "codec \<Rightarrow> cron_db \<Rightarrow> bool" where
  "jobs_readable js db \<longleftrightarrow> (\<forall>(j, row) \<in> set (db_jobs db). row_id row = j \<and> row_readable js row)"

lemma update_keeps_id [simp]: "row_id (apply_update p now row) = row_id row"
  by (simp add: apply_update_def)

lemma readable_update:
  assumes "jobs_readable js db" "params_ok js p"
  shows "jobs_readable js (snd (update_for_user u j p now db))"
proof -
  have "jobs_readable js (db\<lparr>db_jobs := modify j (apply_update p now) (db_jobs db)\<rparr>)"
    using assms by (auto simp: jobs_readable_def modify_def update_readable split: if_splits)
  with assms(1) update_shape [of u j p now db] show ?thesis by auto
qed

lemma readable_insert:
  assumes "jobs_readable js db" "storable js job"
  shows "jobs_readable js (snd (insert_job (cron_job_to_row js job) db))"
  using assms stored_readable [OF assms(2)]
  by (simp add: jobs_readable_def insert_job_def split: sum.split)

lemma readable_delete: "jobs_readable js db \<Longrightarrow> jobs_readable js (snd (delete_for_user u j db))"
  by (auto simp: jobs_readable_def delete_for_user_def AList.delete_eq split: option.split)

lemma readable_same_jobs: "db_jobs db' = db_jobs db \<Longrightarrow> jobs_readable js db \<Longrightarrow> jobs_readable js db'"
  by (simp add: jobs_readable_def)

interpretation readable: table_invariant js "jobs_readable js"
  by unfold_locales (auto intro: readable_update readable_insert readable_delete readable_same_jobs)

lemma runs_ok_conversations: "runs_ok db \<Longrightarrow> runs_ok (db\<lparr>db_conversations := cs\<rparr>)"
  by (simp add: runs_ok_def)

interpretation runs: table_invariant js runs_ok
  by unfold_locales (auto intro: runs_ok_ops runs_ok_conversations)

text \<open>C25: whatever the service, its peers and its users do, and whatever calls fail, every job in the tables can
  be read back, and a run has a lease exactly while it is unfinished and belongs to a job that exists.\<close>

theorem tables_stay_well_formed:
  assumes "(cron_step env)\<^sup>*\<^sup>* w w'" and "db_jobs (w_db w) = []" "db_runs (w_db w) = []"
    and "good_codec (env_codec env)"
  shows "(\<forall>(j, row) \<in> set (db_jobs (w_db w')). row_id row = j \<and>
        (\<exists>job. cron_job_from_row (env_codec env) row = Inr job))
    \<and> (\<forall>((j, t), r) \<in> set (db_runs (w_db w')). (unfinished r \<longleftrightarrow> run_lease r \<noteq> None)
        \<and> (\<exists>row. map_of (db_jobs (w_db w')) j = Some row))"
proof -
  have "jobs_readable (env_codec env) (w_db w')"
    using readable.holds_reachable [OF assms(1) refl assms(4)] assms(2) by (simp add: jobs_readable_def)
  moreover have "runs_ok (w_db w')"
    using runs.holds_reachable [OF assms(1) refl assms(4)] assms(3) by (simp add: runs_ok_def)
  ultimately show ?thesis
    by (auto simp: jobs_readable_def readable_reads run_ok_def dest: runs_ok_in)
qed

end
