(* ===== verification/Cron_Laws.thy ===== *)
theory Cron_Laws
  imports Cron_Reach
begin

text \<open>
  What the cron service promises: a recurring job that completed a run is armed for the next one, a
  missed run is never made up for by itself after the system slept, a busy conversation is retried a
  bounded number of times, and one user's operations leave the jobs of the others alone. The lemmas at
  the end show where the code falls short of what it means to do.
\<close>

section \<open>The world after each call\<close>

lemma world_simps [simp]:
  "w_db (tick_call w) = w_db w" "w_timers (tick_call w) = w_timers w" "w_calls (tick_call w) = Suc (w_calls w)"
  "w_db (emit e w) = w_db w" "w_timers (emit e w) = w_timers w" "w_calls (emit e w) = w_calls w"
  "w_db (with_timers f w) = w_db w" "w_timers (with_timers f w) = f (w_timers w)"
  "w_calls (with_timers f w) = w_calls w"
  "w_db (emit_executed u j s err w) = w_db w" "w_timers (emit_executed u j s err w) = w_timers w"
  "w_calls (emit_executed u j s err w) = w_calls w"
  by (simp_all add: tick_call_def emit_def with_timers_def emit_executed_def split: option.split)

lemma now_simps [simp]:
  "fst (now_ms env w) = clock_at env (w_calls w)" "snd (now_ms env w) = tick_call w"
  by (simp_all add: now_ms_def)

lemma read_simps [simp]: "snd (db_read env f w) = tick_call w"
  by (simp add: db_read_def split: option.split)

lemma read_eq: "db_read env f w = (case db_fault env (w_calls w) of Some e \<Rightarrow> Inl e | None \<Rightarrow> Inr (f (w_db w)), tick_call w)"
  by (simp add: db_read_def split: option.split)

lemma write_simps [simp]:
  "w_timers (snd (db_write env f w)) = w_timers w" "w_calls (snd (db_write env f w)) = Suc (w_calls w)"
  by (simp_all add: db_write_def split: option.split prod.split)

lemma write_db: "w_db (snd (db_write env f w)) =
    (if db_fault env (w_calls w) = None then snd (f (clock_at env (w_calls w)) (w_db w)) else w_db w)"
  by (simp add: db_write_def split: option.split prod.split)

lemma bind_simps [simp]:
  "w_timers (snd (bind_cron_job_to_conversation env c j m w)) = w_timers w"
  "w_db (snd (bind_cron_job_to_conversation env c j m w)) = w_db w"
  by (simp_all add: bind_cron_job_to_conversation_def tick_call_def split: option.split)

lemma owner_known: "trim (job_user_id job) \<noteq> [] \<Longrightarrow> owner_user_id_for_job env job w = (Some (job_user_id job), w)"
  by (simp add: owner_user_id_for_job_def Let_def)

lemma owner_simps [simp]:
  "w_timers (snd (owner_user_id_for_job env job w)) = w_timers w" "w_db (snd (owner_user_id_for_job env job w)) = w_db w"
  by (auto simp: owner_user_id_for_job_def Let_def read_eq split: prod.splits sum.splits option.splits)

text \<open>The records of success and failure leave the timers alone.\<close>

lemma success_timers [simp]: "w_timers (update_job_after_success env user j c w) = w_timers w"
proof -
  have timers: "w_timers w' = w_timers v" if "update_job_row env user j u v = (r, w')" for u v r w'
    using that write_simps(1) [of env "update_for_user user j u" v] by simp
  show ?thesis
    by (auto simp: update_job_after_success_def read_eq now_ms_def Let_def dest!: timers
        split: prod.splits sum.splits option.splits)
qed

lemma error_timers [simp]: "w_timers (update_job_after_error env user j m w) = w_timers w"
  by (simp add: update_job_after_error_def read_eq now_ms_def split: option.splits)


section \<open>The timers\<close>

lemma cancel_job_lookup: "map_of (cancel_job j ts) k = (if k = j then None else map_of ts k)"
  by (simp add: cancel_job_def AList.delete_conv')

lemma schedule_job_lookup:
  "map_of (schedule_job job ts) k =
    (if k = job_id job then (if job_enabled job then map_option (timer_for (job_schedule job)) (job_next_run_at job) else None)
     else map_of ts k)"
  by (auto simp: schedule_job_def Let_def cancel_job_lookup split: option.split)

lemma schedule_retry_lookup:
  "map_of (schedule_retry_timer j s r ts) k = (if k = j then Some (Occurrence_Timer s r) else map_of ts k)"
  by (auto simp: schedule_retry_timer_def cancel_job_lookup)







section \<open>A completed run is followed by the next\<close>







text \<open>What the \<open>cron\<close> crate documents: the next time after a time is later than it.\<close>

definition calendar_advances :: "('s, 'z) calendar \<Rightarrow> bool" where
  "calendar_advances cal \<longleftrightarrow> (\<forall>s z n t. next_after cal s z n = Some t \<longrightarrow> n < t)"

lemma cron_next_later:
  assumes "calendar_advances cal" "compute_cron_next_run cal expr tz now = Some t"
  shows "now < t"
  using assms by (auto simp: compute_cron_next_run_def calendar_advances_def split: sum.splits option.splits if_splits)






section \<open>Nothing missed is made up for\<close>

fun first_tick :: "timer \<Rightarrow> timestamp_ms" where
  "first_tick (Occurrence_Timer _ run_at) = run_at"
| "first_tick (Every_Timer first _) = first"
| "first_tick (Cron_Timer first _ _) = first"

lemma first_tick_timer_for [simp]: "first_tick (timer_for s t) = t"
  by (cases s) simp_all

text \<open>An interval that does not leave the range of times when added to what the clock shows.\<close>

definition interval_fits :: "('s, 'z) service_env \<Rightarrow> cron_schedule \<Rightarrow> bool" where
  "interval_fits env s \<longleftrightarrow> (\<forall>e d n. s = Every e d \<longrightarrow> i64_ok (clock_at env n + e))"

lemma next_run_later:
  assumes "compute_next_run (env_calendar env) s (clock_at env n) = Some t" "\<not> is_at s"
    and "calendar_advances (env_calendar env)" "interval_fits env s"
  shows "clock_at env n < t"
proof (cases s)
  case (Every e d)
  with assms show ?thesis by (auto simp: interval_fits_def split: if_splits)
next
  case (Cron expr tz d)
  with assms cron_next_later show ?thesis by auto
qed (use assms in simp)

lemma calls_owner: "w_calls w \<le> w_calls (snd (owner_user_id_for_job env job w))"
  by (auto simp: owner_user_id_for_job_def Let_def read_eq split: option.splits)

lemma tips_simps [simp]:
  "w_timers (insert_missed_job_tips env job w) = w_timers w" "w_db (insert_missed_job_tips env job w) = w_db w"
  "w_calls w \<le> w_calls (insert_missed_job_tips env job w)"
proof -
  obtain u v where o: "owner_user_id_for_job env job (tick_call w) = (u, v)" by (metis prod.collapse)
  then have "w_timers v = w_timers w" "w_db v = w_db w" "w_calls w \<le> w_calls v"
    using owner_simps [of env job "tick_call w"] calls_owner [of "tick_call w" env job] by simp_all
  with o show "w_timers (insert_missed_job_tips env job w) = w_timers w" "w_db (insert_missed_job_tips env job w) = w_db w"
    "w_calls w \<le> w_calls (insert_missed_job_tips env job w)"
    by (auto simp: insert_missed_job_tips_def split: option.split)
qed

lemma update_runs: "db_runs (w_db (snd (update_job_row env user j u w))) = db_runs (w_db w)"
  by (simp add: write_db)

text \<open>Where the timers may come from, and that no run was touched.\<close>

definition resumed :: "timestamp_ms \<Rightarrow> cron_world \<Rightarrow> cron_world \<Rightarrow> bool" where
  "resumed now w w' \<longleftrightarrow> db_runs (w_db w') = db_runs (w_db w) \<and> w_calls w \<le> w_calls w' \<and>
    (\<forall>j tm. map_of (w_timers w') j = Some tm \<longrightarrow> map_of (w_timers w) j = Some tm \<or> now \<le> first_tick tm)"

lemma resumed_refl [simp]: "resumed now w w"
  by (simp add: resumed_def)

lemma resumed_trans: "resumed now w w' \<Longrightarrow> resumed now w' w'' \<Longrightarrow> resumed now w w''"
  by (auto simp: resumed_def)

lemma resumed_missed:
  assumes "calendar_advances (env_calendar env)" "interval_fits env (job_schedule job)"
    and "\<And>n. w_calls w \<le> n \<Longrightarrow> now \<le> clock_at env n"
  shows "resumed now w (reschedule_after_missed env job w)"
proof (cases "is_at (job_schedule job)")
  case True
  then show ?thesis by (simp add: reschedule_after_missed_def resumed_def update_runs cancel_job_lookup)
next
  case False
  let ?run = "compute_next_run (env_calendar env) (job_schedule job) (clock_at env (w_calls w))"
  have later: "now \<le> t" if "?run = Some t" for t
    using next_run_later [OF that False assms(1,2)] assms(3) [of "w_calls w"] by simp
  obtain r v where v: "update_job_row env (job_user_id job) (job_id job) (no_update\<lparr>up_next_run_at := Some ?run\<rparr>) (tick_call w) = (r, v)"
    by (metis prod.collapse)
  then have "w_timers v = w_timers w" "db_runs (w_db v) = db_runs (w_db w)" "w_calls w \<le> w_calls v"
    using write_simps [of env "update_for_user (job_user_id job) (job_id job) (no_update\<lparr>up_next_run_at := Some ?run\<rparr>)" "tick_call w"]
      update_runs [of env "job_user_id job" "job_id job" "no_update\<lparr>up_next_run_at := Some ?run\<rparr>" "tick_call w"] by simp_all
  with v False later show ?thesis
    by (auto simp: reschedule_after_missed_def now_ms_def Let_def resumed_def schedule_job_lookup split: sum.split if_splits)
qed

lemma resumed_row:
  assumes "calendar_advances (env_calendar env)"
    and "\<And>job. cron_job_from_row (env_codec env) row = Inr job \<Longrightarrow> interval_fits env (job_schedule job)"
    and clock: "\<And>n. w_calls w \<le> n \<Longrightarrow> now \<le> clock_at env n"
  shows "resumed now w (resume_row env now row w)"
proof (cases "cron_job_from_row (env_codec env) row")
  case (Inr job)
  define v where "v = insert_missed_job_tips env job (record_missed_execution env job (tick_call w))"
  have v: "w_timers v = w_timers w" "db_runs (w_db v) = db_runs (w_db w)" "w_calls w \<le> w_calls v"
    using tips_simps(3) [of "record_missed_execution env job (tick_call w)" env job]
    by (simp_all add: v_def record_missed_execution_def update_runs)
  have missed: "resumed now w (snd (owner_user_id_for_job env job (reschedule_after_missed env job v)))"
    using resumed_missed [OF assms(1) assms(2) [OF Inr], of v now] clock v
      calls_owner [of "reschedule_after_missed env job v" env job] by (force simp: resumed_def)
  have retry: "resumed now w (with_timers (schedule_retry_timer (job_id job) (rec_scheduled_at run) (rec_wake_at run)) (tick_call w))"
    if "get_recoverable_run (job_id job) now (w_db w) = Some run" for run
  proof -
    have "now \<le> rec_wake_at run" using that
      by (auto simp: get_recoverable_run_def split: if_splits list.splits prod.splits)
    then show ?thesis by (auto simp: resumed_def schedule_retry_lookup split: if_splits)
  qed
  have plain: "resumed now w (with_timers (schedule_job job) (tick_call w))" if "\<not> overdue now job"
    using that by (auto simp: resumed_def schedule_job_lookup overdue_def split: if_splits)
  have told: "resumed now w (emit_executed u j s err x)" if "resumed now w x" for u j s err x
    using that by (simp add: resumed_def emit_executed_def split: option.split)
  show ?thesis
    using Inr missed retry plain
    by (auto simp: resume_row_def read_eq v_def told split: option.splits prod.splits)
qed (simp add: resume_row_def)

lemma resumed_rows:
  assumes "calendar_advances (env_calendar env)"
    and "\<And>row job. row \<in> set rows \<Longrightarrow> cron_job_from_row (env_codec env) row = Inr job \<Longrightarrow> interval_fits env (job_schedule job)"
    and "\<And>n. w_calls w \<le> n \<Longrightarrow> now \<le> clock_at env n"
  shows "resumed now w (fold (resume_row env now) rows w)"
  using assms(2-)
proof (induction rows arbitrary: w)
  case (Cons row rows)
  let ?v = "resume_row env now row w"
  have one: "resumed now w ?v" by (rule resumed_row [OF assms(1)]) (use Cons.prems in auto)
  then have "w_calls w \<le> w_calls ?v" by (simp add: resumed_def)
  then have "now \<le> clock_at env n" if "w_calls ?v \<le> n" for n using Cons.prems(2) [of n] that by linarith
  then have "resumed now ?v (fold (resume_row env now) rows ?v)" by (intro Cons.IH) (use Cons.prems in auto)
  with one show ?case by (auto intro: resumed_trans)
qed simp

text \<open>C26: when the system wakes up, no run is started or changed, and no timer is set to an instant already past:
  what was missed is only reported, and a run that was cut off is resumed. The next point of every interval schedule
  fits into 64 bits, the clock does not go back while the resume runs, and the calendar answers only times to come.\<close>

theorem resume_runs_nothing_missed:
  assumes "calendar_advances (env_calendar env)"
    and "\<And>j row job. (j, row) \<in> set (db_jobs (w_db w)) \<Longrightarrow> cron_job_from_row (env_codec env) row = Inr job \<Longrightarrow>
      interval_fits env (job_schedule job)"
    and "\<And>m n. m \<le> n \<Longrightarrow> clock_at env m \<le> clock_at env n"
  shows "db_runs (w_db (handle_system_resume env w)) = db_runs (w_db w) \<and>
    (\<forall>j tm. map_of (w_timers (handle_system_resume env w)) j = Some tm \<longrightarrow>
       map_of (w_timers w) j = Some tm \<or> clock_at env (Suc (w_calls w)) \<le> first_tick tm)"
proof (cases "db_fault env (w_calls w)")
  case None
  let ?v = "tick_call (tick_call w)" and ?now = "clock_at env (Suc (w_calls w))"
  have "interval_fits env (job_schedule job)"
    if "row \<in> set (list_enabled_system (w_db w))" "cron_job_from_row (env_codec env) row = Inr job" for row job
    using that assms(2) by (auto simp: list_enabled_system_def)
  then have "resumed ?now ?v (fold (resume_row env ?now) (list_enabled_system (w_db w)) ?v)"
    using assms(3) by (intro resumed_rows [OF assms(1)]) simp_all
  with None show ?thesis by (simp add: handle_system_resume_def read_eq now_ms_def resumed_def)
qed (simp add: handle_system_resume_def read_eq)


section \<open>A busy conversation is retried a bounded number of times\<close>

text \<open>The number of deferrals still allowed to the job of a row.\<close>

definition retries_left :: "cron_job_row \<Rightarrow> nat" where
  "retries_left row = nat (row_max_retries row - row_retry_count row)"

lemma retry_update [simp]:
  "row_retry_count (apply_update (no_update\<lparr>up_retry_count := Some n\<rparr>) now row) = n"
  "row_max_retries (apply_update p now row) = row_max_retries row"
  by (simp_all add: apply_update_def no_update_def)

lemma loaded_counts:
  "cron_job_from_row js row = Inr job \<Longrightarrow> job_retry_count job = row_retry_count row \<and> job_max_retries job = row_max_retries row
    \<and> job_user_id job = row_user_id row \<and> job_id job = row_id row \<and> job_queue_enabled job = row_queue_enabled row
    \<and> job_enabled job = row_enabled row"
  by (auto simp: cron_job_from_row_def split: sum.splits)

lemma deferred_row:
  assumes "map_of (db_jobs (w_db w)) (job_id job) = Some row" "row_user_id row = job_user_id job"
    and "\<And>n. db_fault env n = None" "trim (job_user_id job) \<noteq> []"
    and "fst (schedule_retry env (job_id job) t w)"
  shows "\<exists>now. map_of (db_jobs (w_db (handle_execution_result env job t (Exec_Retrying n) w))) (job_id job)
    = Some (apply_update (no_update\<lparr>up_retry_count := Some n\<rparr>) now row)"
proof -
  obtain v where v: "schedule_retry env (job_id job) t w = (True, v)"
    using assms(5) by (cases "schedule_retry env (job_id job) t w") simp
  have jobs: "db_jobs (w_db v) = db_jobs (w_db w)"
  proof -
    have "db_jobs (snd (defer_run j t o' r n' db)) = db_jobs db" for j t o' r n' db by simp
    then show ?thesis using v assms(3)
      by (auto simp: schedule_retry_def now_ms_def Let_def db_write_def split: prod.splits bool.splits sum.splits
          dest!: arg_cong [where f = "db_jobs \<circ> snd"])
  qed
  then show ?thesis
    using v assms(1-4) no_update_def
    by (auto simp: owner_known write_db update_for_user_def get_by_id_for_user_def map_of_modify no_update_def)
qed

text \<open>
  One round: the job is loaded as its row is, its execution finds the conversation busy and asks for a
  retry, and the occurrence is deferred. What happens between loading and reporting leaves the row alone.
\<close>

inductive busy_round :: "('s, 'z) service_env \<Rightarrow> string \<Rightarrow> timestamp_ms \<Rightarrow> cron_world \<Rightarrow> cron_world \<Rightarrow> bool"
  for env j t where
  round: "map_of (db_jobs (w_db w)) j = Some row \<Longrightarrow> row_id row = j \<Longrightarrow> trim (row_user_id row) \<noteq> [] \<Longrightarrow>
    cron_job_from_row (env_codec env) row = Inr job \<Longrightarrow>
    execute ee (job\<lparr>job_agent_type := a\<rparr>) = Exec_Retrying n \<Longrightarrow>
    map_of (db_jobs (w_db v)) j = Some row \<Longrightarrow> fst (schedule_retry env j t v) \<Longrightarrow>
    busy_round env j t w (handle_execution_result env (job\<lparr>job_agent_type := a\<rparr>) t (Exec_Retrying n) v)"

lemma execute_retries: "execute ee job = Exec_Retrying n \<Longrightarrow> handle_busy job = Exec_Retrying n"
  by (auto simp: execute_def split: sum.splits dest: preparation_retries prepared_retries)

lemma busy_round_uses_retry:
  assumes "busy_round env j t w w'" "map_of (db_jobs (w_db w)) j = Some row" "\<And>n. db_fault env n = None"
  shows "\<exists>row'. map_of (db_jobs (w_db w')) j = Some row' \<and> Suc (retries_left row') = retries_left row"
  using assms(1)
proof cases
  case (round row0 job ee a n v)
  let ?job = "job\<lparr>job_agent_type := a\<rparr>"
  have row0: "row0 = row" using round assms(2) by simp
  note counts = loaded_counts [OF round(5)]
  have n: "row_retry_count row < row_max_retries row" "n = row_retry_count row + 1"
    using execute_retries [OF round(6)] counts by (simp_all add: handle_busy_retrying row0)
  have "\<exists>now. map_of (db_jobs (w_db (handle_execution_result env ?job t (Exec_Retrying n) v))) (job_id ?job)
      = Some (apply_update (no_update\<lparr>up_retry_count := Some n\<rparr>) now row)"
    using round counts row0 assms(3) by (intro deferred_row) simp_all
  then show ?thesis using n counts round(1,3) row0 by (auto simp: retries_left_def)
qed

text \<open>An occurrence whose conversation stays busy is deferred at most as often as the job has retries left.\<close>

theorem busy_occurrence_gives_up:
  assumes "(busy_round env j t ^^ k) w w'" and "map_of (db_jobs (w_db w)) j = Some row"
    and "\<And>n. db_fault env n = None"
  shows "k \<le> retries_left row"
  using assms(1,2)
proof (induction k arbitrary: w row)
  case (Suc k)
  then obtain v where v: "busy_round env j t w v" "(busy_round env j t ^^ k) v w'"
    by (metis relpowp_Suc_D2)
  then obtain row' where "map_of (db_jobs (w_db v)) j = Some row'" "Suc (retries_left row') = retries_left row"
    using busy_round_uses_retry [OF v(1) Suc.prems(2) assms(3)] by blast
  with Suc.IH [OF v(2)] show ?case by fastforce
qed simp


section \<open>One user's operations and the jobs of the others\<close>

abbreviation stored :: "cron_world \<Rightarrow> string \<Rightarrow> cron_job_row option" where
  "stored w j \<equiv> map_of (db_jobs (w_db w)) j"

lemma other_row_update:
  "map_of (db_jobs db) j = Some row \<Longrightarrow> row_user_id row \<noteq> user \<Longrightarrow>
   map_of (db_jobs (snd (update_for_user user j' p now db))) j = Some row"
  by (auto simp: update_for_user_def get_by_id_for_user_def map_of_modify split: option.split sum.split)

lemma other_row_insert:
  "map_of (db_jobs db) j = Some row \<Longrightarrow> map_of (db_jobs (snd (insert_job r db))) j = Some row"
  by (auto simp: insert_job_def split: option.split sum.split)

lemma other_row_delete:
  "map_of (db_jobs db) j = Some row \<Longrightarrow> row_user_id row \<noteq> user \<Longrightarrow>
   map_of (db_jobs (snd (delete_for_user user j' db))) j = Some row"
  by (auto simp: delete_for_user_def get_by_id_for_user_def AList.delete_conv' split: option.split)

lemma other_update_row:
  "stored w j = Some row \<Longrightarrow> row_user_id row \<noteq> user \<Longrightarrow> stored (snd (update_job_row env user j' p w)) j = Some row"
  by (simp add: write_db other_row_update)

lemma stored_simps [simp]:
  "stored (snd (db_read env f w)) j = stored w j"
  "stored (bind_existing_conversation_if_needed env job w) j = stored w j"
  "stored (snd (require_existing_conversation_scope env user c w)) j = stored w j"
  by (auto simp: bind_existing_conversation_if_needed_def require_existing_conversation_scope_def read_eq
      split: option.split sum.split)

lemma other_success:
  assumes "stored w j = Some row" "row_user_id row \<noteq> user"
  shows "stored (update_job_after_success env user j' c w) j = Some row"
proof -
  have keep: "stored x j = Some row" if "update_job_row env user j' p v = (r, x)" "stored v j = Some row" for p v r x
    using that other_update_row [OF that(2) assms(2), of env j' p] by simp
  show ?thesis
    using assms(1) by (auto simp: update_job_after_success_def read_eq now_ms_def Let_def
        split: prod.splits sum.splits option.splits intro: keep)
qed

lemma other_error:
  "stored w j = Some row \<Longrightarrow> row_user_id row \<noteq> user \<Longrightarrow> stored (update_job_after_error env user j' m w) j = Some row"
  by (auto simp: update_job_after_error_def read_eq now_ms_def other_update_row split: sum.split option.split)

lemma other_run_now_result:
  "stored w j = Some row \<Longrightarrow> row_user_id row \<noteq> user \<Longrightarrow> stored (handle_run_now_result env user j' r w) j = Some row"
  by (cases r) (simp_all add: other_success other_error other_update_row)

lemma other_remove:
  assumes "stored w j = Some row" "row_user_id row \<noteq> user"
  shows "stored (snd (remove_job env user j' w)) j = Some row"
proof -
  let ?x = "db_write env (\<lambda>_. delete_for_user user j') (with_timers (cancel_job j') w)"
  have "stored (snd ?x) j = Some row" using assms by (simp add: write_db other_row_delete)
  then show ?thesis by (auto simp: remove_job_def split: prod.split sum.split)
qed

lemma other_add:
  assumes "stored w j = Some row" "row_user_id row \<noteq> user"
  shows "stored (snd (add_job_internal env ae user req rt w)) j = Some row"
proof -
  have ins: "stored x j = Some row" if "db_write env (\<lambda>_. insert_job r) v = (y, x)" "stored v j = Some row" for r v y x
  proof -
    have "stored (snd (db_write env (\<lambda>_. insert_job r) v)) j = Some row"
      using that(2) by (simp add: write_db other_row_insert)
    with that(1) show ?thesis by simp
  qed
  have scope: "stored x j = stored v j" if "require_existing_conversation_scope env user c v = (y, x)" for c v y x
    using that stored_simps(3) [of env user c v j] by simp
  show ?thesis
    using assms(1) by (auto simp: add_job_internal_def Let_def now_ms_def split: prod.splits sum.splits
        intro: ins dest!: scope)
qed

text \<open>A change of a job is one update of its row, made with the tables as they were read.\<close>

lemma update_reported:
  "w_db (snd (case x of (Inl e, w) \<Rightarrow> (Inl (Cron_Database e), w)
     | (Inr _, w) \<Rightarrow> (Inr job, emit ev (with_timers f (bind_existing_conversation_if_needed env job
         (if u then tick_call w else w)))))) = w_db (snd x)"
  by (auto simp: bind_existing_conversation_if_needed_def split: prod.split sum.split)

lemma finish_update_shape:
  "w_db (snd (finish_update env ae user j req oc job u w)) = w_db w \<or>
   (\<exists>p v. w_db v = w_db w \<and> w_db (snd (finish_update env ae user j req oc job u w)) = w_db (snd (update_job_row env user j p v)))"
proof -
  obtain job1 w1 where one: "(if ur_schedule req \<noteq> None \<or> ur_enabled req \<noteq> None
       then (case now_ms env w of (now, w) \<Rightarrow>
             (job\<lparr>job_next_run_at := compute_next_run (env_calendar env) (job_schedule job) now\<rparr>, w))
       else (job, w)) = (job1, w1)" by (metis prod.collapse)
  then have w1: "w_db w1 = w_db w" by (auto simp: now_ms_def split: if_splits)
  obtain job2 ch where two: "(if u then clear_auto_workspace_from_job_config ae job1 oc else (job1, False)) = (job2, ch)"
    by (metis prod.collapse)
  obtain now w2 where three: "now_ms env w1 = (now, w2)" by (metis prod.collapse)
  then have w2: "w_db w2 = w_db w" using w1 by (auto simp: now_ms_def)
  show ?thesis
  proof (cases "workspace_available ae (job2\<lparr>job_updated_at := now\<rparr>)")
    case (Inl e)
    then show ?thesis unfolding finish_update_def one two three prod.case Let_def using w2 by simp
  next
    case (Inr x)
    show ?thesis
      unfolding finish_update_def one two three prod.case Let_def Inr sum.case update_reported
      using w2 by blast
  qed
qed

lemma other_update_job:
  assumes "stored w j = Some row" "row_user_id row \<noteq> user"
  shows "stored (snd (update_job env ae user j' req w)) j = Some row"
proof -
  have fin: "stored (snd (finish_update env ae user j' req oc job u v)) j = Some row" if "stored v j = Some row" for oc job u v
    using finish_update_shape [of env ae user j' req oc job u v] that
    by (auto simp del: prod.collapse intro!: other_update_row assms(2))
  show ?thesis
    using assms(1) fin by (auto simp: update_job_def read_eq split: sum.splits option.splits prod.splits)
qed

lemma other_run_now:
  assumes "stored w j = Some row" "row_user_id row \<noteq> user"
  shows "stored (snd (run_now env ee user j' w)) j = Some row"
proof -
  have keep: "stored x j = Some row"
    if "bind_materialized_existing_conversation_if_needed env job c v = (y, x)" "stored v j = Some row" "job_user_id job = user"
    for job c v y x
  proof -
    have "stored (snd (bind_materialized_existing_conversation_if_needed env job c v)) j = Some row"
      using that(2,3) assms(2) other_update_row [OF that(2) assms(2), of env "job_id job" "no_update\<lparr>up_conversation_id := Some (trim c)\<rparr>"]
      by (auto simp: bind_materialized_existing_conversation_if_needed_def Let_def bind_cron_job_to_conversation_def
          tick_call_def split: prod.splits sum.splits option.splits)
    with that(1) show ?thesis by simp
  qed
  have mine: "row_user_id r = user" if "get_by_id_for_user user j' db = Some r" for r db
    using that by (auto simp: get_by_id_for_user_def split: option.splits if_splits)
  show ?thesis
    using assms(1) other_error [OF assms(1) assms(2)]
    by (auto simp: run_now_def Let_def read_eq other_error assms(2) split: sum.splits option.splits prod.splits prepared_run_now.splits
        dest!: loaded_counts mine intro: keep)
qed

text \<open>C27: creating, changing, removing and running jobs, a user never changes the stored job of another.\<close>

theorem users_are_isolated:
  assumes "map_of (db_jobs (w_db w)) j = Some row" and "row_user_id row \<noteq> user"
  shows "map_of (db_jobs (w_db (snd (add_job_internal env ae user creq rt w)))) j = Some row
    \<and> map_of (db_jobs (w_db (snd (update_job env ae user j' ureq w)))) j = Some row
    \<and> map_of (db_jobs (w_db (snd (remove_job env user j' w)))) j = Some row
    \<and> map_of (db_jobs (w_db (snd (run_now env ee user j' w)))) j = Some row
    \<and> map_of (db_jobs (w_db (handle_run_now_result env user j' r w))) j = Some row"
  using assms by (simp add: other_add other_update_job other_remove other_run_now other_run_now_result)


section \<open>Where the code falls short\<close>

text \<open>
  Removing a job cancels its timer before the owner is checked: a user who asks to remove another
  user's job is refused, and the job is never run again until the service restarts.
\<close>

lemma refused_removal_stops_the_job:
  assumes "stored w j = Some row" "row_user_id row \<noteq> user" "db_fault env (w_calls w) = None"
  shows "fst (remove_job env user j w) = Inl (Cron_Database (no_job j))"
    and "stored (snd (remove_job env user j w)) j = Some row"
    and "map_of (w_timers (snd (remove_job env user j w))) j = None"
  using assms
  by (auto simp: remove_job_def db_write_def delete_for_user_def get_by_id_for_user_def cancel_job_lookup)

text \<open>
  The occurrence a process reports is rescheduled from the job as it was when the run began. If the
  user turned a one-shot job into a recurring one while it ran, the end of the run disables it.
\<close>

lemma edit_during_run_is_undone:
  assumes "stored w (job_id job) = Some row" "row_user_id row = job_user_id job" "\<And>n. db_fault env n = None"
    and "is_at (job_schedule job)" and "\<And>now. get_recoverable_run (job_id job) now (w_db w) = None"
  shows "\<exists>row'. stored (reschedule_after_execution env job t w) (job_id job) = Some row' \<and> \<not> row_enabled row' \<and>
      row_schedule_kind row' = row_schedule_kind row"
    and "map_of (w_timers (reschedule_after_execution env job t w)) (job_id job) = None"
proof -
  define v where "v = with_timers (cancel_job (job_id job))
    (snd (update_job_row env (job_user_id job) (job_id job) disable_update (tick_call (tick_call w))))"
  have row: "stored v (job_id job) = Some (apply_update disable_update (clock_at env (Suc (Suc (w_calls w)))) row)"
    using assms(1-3) by (simp add: v_def write_db update_for_user_def get_by_id_for_user_def map_of_modify
        disable_update_def no_update_def)
  have off: "map_of (w_timers v) (job_id job) = None" by (simp add: v_def cancel_job_lookup)
  obtain u x where x: "owner_user_id_for_job env job v = (u, x)" by (metis prod.collapse)
  then have "w_db x = w_db v" "w_timers x = w_timers v" using owner_simps [of env job v] by simp_all
  then have "w_db (reschedule_after_execution env job t w) = w_db v"
    and "w_timers (reschedule_after_execution env job t w) = w_timers v"
    using assms(3-5) x
    by (auto simp: reschedule_after_execution_def now_ms_def read_eq Let_def v_def [symmetric] split: option.split)
  then show "\<exists>row'. stored (reschedule_after_execution env job t w) (job_id job) = Some row' \<and> \<not> row_enabled row' \<and>
      row_schedule_kind row' = row_schedule_kind row"
    and "map_of (w_timers (reschedule_after_execution env job t w)) (job_id job) = None"
    using row off by (simp_all add: apply_update_def disable_update_def no_update_def)
qed

text \<open>The new number of retries a user sets is answered and broadcast, and never stored.\<close>

lemma max_retries_not_stored:
  assumes "stored w j = Some row"
  shows "\<exists>row'. stored (snd (finish_update env ae user j req oc job u w)) j = Some row' \<and>
    row_max_retries row' = row_max_retries row"
proof -
  have "\<exists>row'. map_of (db_jobs (snd (update_for_user user j p now db))) j = Some row' \<and> row_max_retries row' = row_max_retries row"
    if "map_of (db_jobs db) j = Some row" for p now db
    using that by (auto simp: update_for_user_def map_of_modify split: option.split sum.split)
  then show ?thesis
    using finish_update_shape [of env ae user j req oc job u w] assms by (auto simp: write_db)
qed

text \<open>
  A tick that cannot load its job ends without setting a timer: the single tick of a retry or of a
  one-shot job is spent, and nothing brings the job back before the service restarts or resumes.
\<close>

lemma failed_load_spends_the_tick:
  assumes "db_fault env (w_calls w) = Some e"
  shows "tick env ee meanwhile j t w = tick_call w"
  using assms by (simp add: tick_def tick_begin_def read_eq)


section \<open>A concrete service\<close>

definition sample_service :: "(unit, unit) service_env" where
  "sample_service = \<lparr>env_calendar = clockless_calendar, env_codec = sample_codec, clock_at = (\<lambda>_. 100000),
     db_fault = (\<lambda>_. None), bind_fault = (\<lambda>_. None), tips_fault = (\<lambda>_. None),
     assistant_agent_type = (\<lambda>_ _. Inr ''acp''), instance_id = ''a''\<rparr>"

definition sample_world :: cron_world where
  "sample_world = \<lparr>w_db = snd (claim_run sample_claim sample_db), w_timers = [], w_events = [], w_bound = [], w_calls = 0\<rparr>"

definition sample_row :: cron_job_row where
  "sample_row = cron_job_to_row sample_codec sample_job"

lemma sample_visible [simp]: "trim ''u1'' = ''u1''" "trim ''c1'' = ''c1''"
  by (intro trim_id; simp add: visible_def)+

lemma sample_stored: "stored sample_world ''cron_1'' = Some sample_row"
  by (simp add: sample_world_def) (simp add: sample_db_def sample_row_def)




lemma sample_load: "cron_job_from_row (env_codec sample_service) sample_row = Inr (sample_job\<lparr>job_agent_type := []\<rparr>)"
  using sample_job_round by (simp add: sample_row_def sample_service_def)

lemma sample_schedules:
  assumes "(j, row) \<in> set (db_jobs (w_db sample_world))" "cron_job_from_row (env_codec sample_service) row = Inr job"
  shows "interval_fits sample_service (job_schedule job)"
proof -
  have "row = sample_row" using assms(1) by (simp add: sample_world_def) (simp add: sample_db_def sample_row_def)
  with assms(2) sample_load have "job_schedule job = job_schedule sample_job" by auto
  then show ?thesis by (simp add: interval_fits_def sample_job_def sample_service_def i64_ok_def)
qed

lemma resume_runs_nothing_missed_witness:
  "db_runs (w_db (handle_system_resume sample_service sample_world)) = db_runs (w_db sample_world) \<and>
    \<not> (\<exists>j tm. map_of (w_timers (handle_system_resume sample_service sample_world)) j = Some tm \<and> first_tick tm < 100000)"
proof -
  have "calendar_advances (env_calendar sample_service)"
    by (simp add: calendar_advances_def sample_service_def clockless_calendar_def)
  moreover have "clock_at sample_service m \<le> clock_at sample_service n" for m n by (simp add: sample_service_def)
  ultimately have "db_runs (w_db (handle_system_resume sample_service sample_world)) = db_runs (w_db sample_world) \<and>
    (\<forall>j tm. map_of (w_timers (handle_system_resume sample_service sample_world)) j = Some tm \<longrightarrow>
       map_of (w_timers sample_world) j = Some tm \<or> clock_at sample_service (Suc (w_calls sample_world)) \<le> first_tick tm)"
    using sample_schedules by (intro resume_runs_nothing_missed)
  then show ?thesis by (simp add: sample_world_def sample_service_def not_less)
qed

text \<open>An executor whose conversations are all in use.\<close>

definition busy_executor :: executor_env where
  "busy_executor = \<lparr>saved_skill_of = (\<lambda>_. Inr None), runtime_workspace = (\<lambda>_. Inr ()),
     conversation_owner = (\<lambda>_. Inr (Some ''u1'')), conversations_of_job = (\<lambda>_ _. Inr []),
     create_conversation = (\<lambda>_ _ _. Inr ''c2''), conversation_claimed = (\<lambda>_. True),
     task_skill_names = (\<lambda>_ _ _. Inr []), agent_turn = (\<lambda>_ _ _ _. Inl (Conv_Busy [])),
     latest_error_message = (\<lambda>_ _. Inr None)\<rparr>"

lemma users_are_isolated_witness:
  "map_of (db_jobs (w_db (snd (remove_job sample_service ''u2'' ''cron_1'' sample_world)))) ''cron_1'' = Some sample_row"
proof -
  have "row_user_id sample_row \<noteq> ''u2''" by (simp add: sample_row_def cron_job_to_row_def sample_job_def)
  from users_are_isolated [OF sample_stored this] show ?thesis by blast
qed

definition sample_admin :: admin_env where
  "sample_admin = \<lparr>assistant_backend = (\<lambda>_ _. Inr (Some ''claude'')), cron_full_auto_mode = (\<lambda>_ _ _ _. Inr ''full''),
     fresh_job_id = (\<lambda>_. ''cron_2''), workspace_available = (\<lambda>_. Inr ()), auto_workspace = (\<lambda>_ _. Inr None),
     workspace_matches_path = (\<lambda>_ _. False), is_team_conversation = (\<lambda>_. Inr False)\<rparr>"

definition sample_create :: create_request where
  "sample_create = \<lparr>cr_name = ''Report'', cr_description = None, cr_schedule = Dto_Every 60000 None, cr_prompt = None,
     cr_message = Some ''go'', cr_conversation_id = [], cr_conversation_title = None, cr_created_by = ''user'',
     cr_execution_mode = Some ''new_conversation'', cr_queue_enabled = False, cr_agent_config = None\<rparr>"

definition empty_world :: cron_world where
  "empty_world = \<lparr>w_db = \<lparr>db_jobs = [], db_runs = [], db_conversations = []\<rparr>, w_timers = [], w_events = [],
     w_bound = [], w_calls = 0\<rparr>"

definition created_world :: cron_world where
  "created_world = snd (add_job_internal sample_service sample_admin ''u1'' sample_create (Some ''acp'') empty_world)"

lemma created_jobs: "\<exists>row. db_jobs (w_db created_world) = [(''cron_2'', row)]"
  by (simp add: created_world_def add_job_internal_def check_create_def Let_def sample_service_def sample_admin_def
      sample_create_def empty_world_def validate_aionrs_agent_config_def parse_execution_mode_def
      execution_mode_from_str_def created_by_from_str_def new_agent_config_def now_ms_def tick_call_def db_write_def
      insert_job_def cron_job_to_row_def bind_existing_conversation_if_needed_def)

lemma tables_stay_well_formed_witness:
  "\<exists>row. db_jobs (w_db created_world) = [(''cron_2'', row)] \<and> row_id row = ''cron_2'' \<and>
     (\<exists>job. cron_job_from_row sample_codec row = Inr job)"
proof -
  have "cron_step sample_service empty_world created_world"
    unfolding created_world_def by (rule step_add) (simp add: sample_create_def i64_ok_def)
  then have reach: "(cron_step sample_service)\<^sup>*\<^sup>* empty_world created_world" by blast
  have "good_codec (env_codec sample_service)"
    by (simp add: good_codec_def decodes_def sample_service_def sample_codec_def)
  with tables_stay_well_formed [OF reach] created_jobs show ?thesis
    by (auto simp: empty_world_def sample_service_def)
qed

end
