(* ===== verification/Acp_Catalog.thy ===== *)
theory Acp_Catalog
  imports Ki_Text
begin

text \<open>
  What an ACP agent offers to be configured: \<open>manager/acp/config_option_catalog.rs\<close>,
  \<open>config_options.rs\<close> and \<open>legacy_session_model.rs\<close> of \<open>crates/aionui-ai-agent\<close>. Modes and models
  are read off the configuration options of the agent; a snapshot lists the options with where each came from,
  and says which request sets one.

  The types of the ACP library are records of the fields the code reads; an enum of it that may grow has a
  constructor for what the code does not know.
\<close>

section \<open>Catalogues\<close>

record session_mode =
  mode_id :: string
  mode_name :: string
  mode_description :: "string option"

record session_mode_state =
  current_mode_id :: string
  available_modes :: "session_mode list"

record legacy_model_entry =
  model_id :: string
  model_name :: string
  model_description :: "string option"

record legacy_session_model_state =
  current_model_id :: string
  available_models :: "legacy_model_entry list"

text \<open>A category the code does not know carries its name in lower case.\<close>

datatype config_category = Category_Mode | Category_Model | Category_ThoughtLevel | Category_Other string

record config_select_option =
  so_value :: string
  so_name :: string
  so_description :: "string option"

datatype config_select_options =
    Ungrouped "config_select_option list"
  | Grouped "config_select_option list list"
  | Unknown_Options

datatype config_kind = Kind_Select string config_select_options | Unknown_Kind

record session_config_option =
  co_id :: string
  co_name :: string
  co_description :: "string option"
  co_category :: "config_category option"
  co_kind :: config_kind

fun flatten_select_options :: "config_select_options \<Rightarrow> config_select_option list" where
  "flatten_select_options (Ungrouped options) = options"
| "flatten_select_options (Grouped groups) = concat groups"
| "flatten_select_options Unknown_Options = []"

fun select_from_kind :: "config_kind \<Rightarrow> (string \<times> config_select_options) option" where
  "select_from_kind (Kind_Select current options) = Some (current, options)"
| "select_from_kind Unknown_Kind = None"

definition find_select ::
  "session_config_option list \<Rightarrow> string list \<Rightarrow> config_category \<Rightarrow> (string \<times> config_select_options) option" where
  "find_select options ids category =
    (case find_map (\<lambda>opt. if co_category opt = Some category then select_from_kind (co_kind opt) else None) options of
       Some s \<Rightarrow> Some s
     | None \<Rightarrow> find_map (\<lambda>opt. if co_id opt \<in> set ids then select_from_kind (co_kind opt) else None) options)"

definition non_empty_or_first :: "string \<Rightarrow> string \<Rightarrow> string" where
  "non_empty_or_first current first = (if current = [] then first else current)"

definition derive_modes_from_config_options :: "session_config_option list \<Rightarrow> session_mode_state option" where
  "derive_modes_from_config_options options =
    (case find_select options [''mode'', ''modes''] Category_Mode of
       None \<Rightarrow> None
     | Some (current, select_options) \<Rightarrow>
        (let modes = map (\<lambda>opt. \<lparr>mode_id = so_value opt, mode_name = so_name opt, mode_description = so_description opt\<rparr>)
               (flatten_select_options select_options)
         in if modes = [] then None
            else Some \<lparr>current_mode_id = non_empty_or_first current (mode_id (hd modes)), available_modes = modes\<rparr>))"

definition derive_models_from_config_options :: "session_config_option list \<Rightarrow> legacy_session_model_state option" where
  "derive_models_from_config_options options =
    (case find_select options [''model'', ''models''] Category_Model of
       None \<Rightarrow> None
     | Some (current, select_options) \<Rightarrow>
        (let models = map (\<lambda>opt. \<lparr>model_id = so_value opt, model_name = so_name opt, model_description = so_description opt\<rparr>)
               (flatten_select_options select_options)
         in if models = [] then None
            else Some \<lparr>current_model_id = non_empty_or_first current (model_id (hd models)), available_models = models\<rparr>))"

text \<open>An incoming option replaces the first one of its name, or goes to the end.\<close>

fun put_config_option :: "session_config_option \<Rightarrow> session_config_option list \<Rightarrow> session_config_option list" where
  "put_config_option opt [] = [opt]"
| "put_config_option opt (existing # rest) =
    (if co_id existing = co_id opt then opt # rest else existing # put_config_option opt rest)"

definition merge_config_options ::
  "session_config_option list option \<Rightarrow> session_config_option list \<Rightarrow> session_config_option list" where
  "merge_config_options existing incoming =
    (case existing of None \<Rightarrow> incoming | Some merged \<Rightarrow> fold put_config_option incoming merged)"


section \<open>The configuration snapshot\<close>

record config_select_option_dto =
  sel_value :: string
  sel_name :: "string option"
  sel_label :: "string option"
  sel_description :: "string option"

record config_option_dto =
  opt_id :: string
  opt_name :: "string option"
  opt_label :: "string option"
  opt_description :: "string option"
  opt_category :: "string option"
  opt_type :: string
  opt_current :: "string option"
  opt_options :: "config_select_option_dto list"

datatype config_option_origin = Real | SyntheticLegacyMode | SyntheticLegacyModel

record config_snapshot =
  snap_options :: "config_option_dto list"
  snap_origins :: "config_option_origin list"

fun category_to_api :: "config_category \<Rightarrow> string" where
  "category_to_api Category_Mode = ''mode''"
| "category_to_api Category_Model = ''model''"
| "category_to_api Category_ThoughtLevel = ''thought_level''"
| "category_to_api (Category_Other name) = name"

definition dto_from_select_option :: "config_select_option \<Rightarrow> config_select_option_dto" where
  "dto_from_select_option opt =
    \<lparr>sel_value = so_value opt, sel_name = Some (so_name opt), sel_label = None, sel_description = so_description opt\<rparr>"

definition dto_from_sdk_option :: "session_config_option \<Rightarrow> config_option_dto" where
  "dto_from_sdk_option opt =
    (case (case co_kind opt of
             Kind_Select current options \<Rightarrow>
               (''select'', Some current, map dto_from_select_option (flatten_select_options options))
           | Unknown_Kind \<Rightarrow> (''string'', None, [])) of
       (type, current, options) \<Rightarrow>
         \<lparr>opt_id = co_id opt, opt_name = Some (co_name opt), opt_label = None, opt_description = co_description opt,
          opt_category = map_option category_to_api (co_category opt), opt_type = type, opt_current = current,
          opt_options = options\<rparr>)"

definition dto_from_modes :: "session_mode_state \<Rightarrow> config_option_dto" where
  "dto_from_modes modes =
    \<lparr>opt_id = ''mode'', opt_name = Some ''Mode'', opt_label = None, opt_description = None, opt_category = Some ''mode'',
     opt_type = ''select'', opt_current = Some (current_mode_id modes),
     opt_options = map (\<lambda>m. \<lparr>sel_value = mode_id m, sel_name = Some (mode_name m), sel_label = None,
       sel_description = mode_description m\<rparr>) (available_modes modes)\<rparr>"

definition dto_from_models :: "legacy_session_model_state \<Rightarrow> config_option_dto" where
  "dto_from_models models =
    \<lparr>opt_id = ''model'', opt_name = Some ''Model'', opt_label = None, opt_description = None, opt_category = Some ''model'',
     opt_type = ''select'', opt_current = Some (current_model_id models),
     opt_options = map (\<lambda>m. \<lparr>sel_value = model_id m, sel_name = Some (model_name m), sel_label = None,
       sel_description = model_description m\<rparr>) (available_models models)\<rparr>"

definition real_option_matches_category_or_id :: "session_config_option \<Rightarrow> config_category \<Rightarrow> string \<Rightarrow> bool" where
  "real_option_matches_category_or_id opt category option_id \<longleftrightarrow> co_category opt = Some category \<or> co_id opt = option_id"

definition supplement_summary_for_real_options ::
  "session_config_option list \<Rightarrow> session_mode_state option \<Rightarrow> legacy_session_model_state option \<Rightarrow> bool \<times> bool" where
  "supplement_summary_for_real_options options modes models =
    (let has_real_mode = list_ex (\<lambda>opt. real_option_matches_category_or_id opt Category_Mode ''mode'') options;
         has_real_model = list_ex (\<lambda>opt. real_option_matches_category_or_id opt Category_Model ''model'') options
     in (\<not> has_real_mode \<and> (case modes of Some m \<Rightarrow> available_modes m \<noteq> [] | None \<Rightarrow> False),
         \<not> has_real_model \<and> (case models of Some m \<Rightarrow> available_models m \<noteq> [] | None \<Rightarrow> False)))"

definition from_real_options :: "session_config_option list \<Rightarrow> config_snapshot" where
  "from_real_options options =
    \<lparr>snap_options = map dto_from_sdk_option options, snap_origins = replicate (length options) Real\<rparr>"

definition from_legacy_catalogs ::
  "session_mode_state option \<Rightarrow> legacy_session_model_state option \<Rightarrow> config_snapshot" where
  "from_legacy_catalogs modes models =
    \<lparr>snap_options = (case modes of Some m \<Rightarrow> [dto_from_modes m] | None \<Rightarrow> [])
       @ (case models of Some m \<Rightarrow> [dto_from_models m] | None \<Rightarrow> []),
     snap_origins = (case modes of Some m \<Rightarrow> [SyntheticLegacyMode] | None \<Rightarrow> [])
       @ (case models of Some m \<Rightarrow> [SyntheticLegacyModel] | None \<Rightarrow> [])\<rparr>"

definition from_real_options_with_runtime_supplements ::
  "session_config_option list \<Rightarrow> session_mode_state option \<Rightarrow> legacy_session_model_state option \<Rightarrow> config_snapshot" where
  "from_real_options_with_runtime_supplements options modes models =
    (case supplement_summary_for_real_options options modes models of
       (needs_mode, needs_model) \<Rightarrow>
         let snapshot = from_real_options options;
             snapshot = (case modes of
                 Some m \<Rightarrow> if needs_mode then \<lparr>snap_options = snap_options snapshot @ [dto_from_modes m],
                   snap_origins = snap_origins snapshot @ [SyntheticLegacyMode]\<rparr> else snapshot
               | None \<Rightarrow> snapshot)
         in (case models of
                 Some m \<Rightarrow> if needs_model then \<lparr>snap_options = snap_options snapshot @ [dto_from_models m],
                   snap_origins = snap_origins snapshot @ [SyntheticLegacyModel]\<rparr> else snapshot
               | None \<Rightarrow> snapshot))"

definition snapshot_option :: "config_snapshot \<Rightarrow> string \<Rightarrow> config_option_dto option" where
  "snapshot_option snapshot option_id = find (\<lambda>opt. opt_id opt = option_id) (snap_options snapshot)"

definition option_current :: "config_snapshot \<Rightarrow> string \<Rightarrow> string option" where
  "option_current snapshot option_id = Option.bind (snapshot_option snapshot option_id) opt_current"

definition selectable_values :: "config_snapshot \<Rightarrow> string \<Rightarrow> string list" where
  "selectable_values snapshot option_id =
    (case snapshot_option snapshot option_id of Some opt \<Rightarrow> map sel_value (opt_options opt) | None \<Rightarrow> [])"

definition observed_matches :: "config_snapshot \<Rightarrow> string \<Rightarrow> string \<Rightarrow> bool" where
  "observed_matches snapshot option_id requested \<longleftrightarrow> option_current snapshot option_id = Some requested"

datatype config_set_path = Path_ConfigOption string | Path_LegacyMode | Path_LegacyModel

datatype config_set_path_error = OptionNotFound | ValueNotSelectable

text \<open>The first option of that name, with its position.\<close>

fun enumerated_find :: "('a \<Rightarrow> bool) \<Rightarrow> nat \<Rightarrow> 'a list \<Rightarrow> (nat \<times> 'a) option" where
  "enumerated_find p n [] = None"
| "enumerated_find p n (x # xs) = (if p x then Some (n, x) else enumerated_find p (Suc n) xs)"

definition resolve_set_path ::
  "config_snapshot \<Rightarrow> string \<Rightarrow> string \<Rightarrow> config_set_path_error + config_set_path" where
  "resolve_set_path snapshot option_id requested =
    (case enumerated_find (\<lambda>opt. opt_id opt = option_id) 0 (snap_options snapshot) of
       None \<Rightarrow> Inl OptionNotFound
     | Some (index, opt) \<Rightarrow>
         if opt_options opt \<noteq> [] \<and> \<not> list_ex (\<lambda>o'. sel_value o' = requested) (opt_options opt) then Inl ValueNotSelectable
         else (case (if index < length (snap_origins snapshot) then snap_origins snapshot ! index else Real) of
             Real \<Rightarrow> Inr (Path_ConfigOption (opt_id opt))
           | SyntheticLegacyMode \<Rightarrow> Inr Path_LegacyMode
           | SyntheticLegacyModel \<Rightarrow> Inr Path_LegacyModel))"

end
