(* ===== verification/Acp_Session.thy ===== *)
theory Acp_Session
  imports Acp_Catalog
begin

text \<open>
  The session aggregate of an ACP agent: \<open>manager/acp/session.rs\<close> of \<open>crates/aionui-ai-agent\<close>. It keeps what
  the user wants, what the agent last reported and what the agent offers, and collects an event for every
  change of the first two.

  What the code only stores and compares (the context usage, commands, login methods) is its serialised text;
  the text of the context usage is a parameter \<^typ>\<open>'t\<close> of the types, since the persistence layer parses it.
\<close>

section \<open>The session aggregate\<close>

datatype agent_kill_reason = IdleTimeout | AgentErrorRecovery | TeamMcpRebuild | TeamContextReset | TeamDeleted
  | ConversationDeleted | UserCancelTimeout | RuntimeRestart | RuntimeCapabilityChanged | SessionRevoked | Archived

datatype close_reason =
    UserCancel
  | Killed "agent_kill_reason option"
  | ProcessExited "i32 option" "string option" string
  | CloseFailed string

datatype 't acp_session_event =
    SessionOpened
  | SessionAssigned string
  | DesiredModeChanged string
  | DesiredModelChanged string
  | DesiredConfigChanged "(string, string) hashmap"
  | ObservedModeSynced string
  | ObservedModelSynced string
  | ObservedConfigSynced "(string, string) hashmap"
  | ObservedContextUsageChanged 't

record pending_startup_config_seed =
  seed_category :: config_category
  seed_value :: string

datatype pending_startup_config_seed_result =
    Applied config_category string
  | OptionNotAdvertised config_category
  | SeedNotSelectable config_category

record desired_state =
  want_mode :: "string option"
  want_model :: "string option"
  config_selections :: "(string, string) hashmap"
  pending_startup_config :: "pending_startup_config_seed list"

record observed_state =
  seen_mode :: "string option"
  seen_model :: "string option"
  config_current :: "(string, string) hashmap"

text \<open>What the code reads of the agent's capabilities: whether it can load and fork sessions.\<close>

record agent_capabilities =
  load_session :: bool
  fork_session :: bool

record 't advertised_state =
  adv_modes :: "session_mode_state option"
  adv_models :: "legacy_session_model_state option"
  adv_options :: "session_config_option list option"
  adv_usage :: "'t option"
  adv_capabilities :: "agent_capabilities option"
  adv_auth :: "json list option"
  adv_commands :: "json list option"

record 't acp_session =
  sid :: "string option"
  opened :: bool
  desired :: desired_state
  observed :: observed_state
  advertised :: "'t advertised_state"
  config_set_in_flight :: bool
  pending_events :: "'t acp_session_event list"
  pending_session_new_prelude :: bool
  last_close_reason :: "close_reason option"

text \<open>What persistence restores (\<open>shared_kernel/snapshot.rs\<close>).\<close>

record 't persisted_session_state =
  kept_mode :: "string option"
  kept_model :: "string option"
  kept_selections :: "(string, string) hashmap"
  kept_usage :: "'t option"

datatype reconcile_action = SetMode string | SetModel string | SetConfigOption string string

definition acp_session_new :: "string option \<Rightarrow> string option \<Rightarrow> (string, string) hashmap \<Rightarrow> 't acp_session" where
  "acp_session_new initial_mode initial_model selections =
    \<lparr>sid = None, opened = False,
     desired = \<lparr>want_mode = initial_mode, want_model = initial_model, config_selections = selections,
       pending_startup_config = []\<rparr>,
     observed = \<lparr>seen_mode = None, seen_model = None, config_current = []\<rparr>,
     advertised = \<lparr>adv_modes = None, adv_models = None, adv_options = None, adv_usage = None, adv_capabilities = None,
       adv_auth = None, adv_commands = None\<rparr>,
     config_set_in_flight = False, pending_events = [], pending_session_new_prelude = False,
     last_close_reason = None\<rparr>"

definition push_event :: "'t acp_session_event \<Rightarrow> 't acp_session \<Rightarrow> 't acp_session" where
  "push_event e s = s\<lparr>pending_events := pending_events s @ [e]\<rparr>"


subsection \<open>The configuration lease, the session id and its life\<close>

definition try_begin_config_set :: "'t acp_session \<Rightarrow> bool \<times> 't acp_session" where
  "try_begin_config_set s =
    (if config_set_in_flight s then (False, s) else (True, s\<lparr>config_set_in_flight := True\<rparr>))"

text \<open>The guard's \<open>Drop\<close>, which runs on every way out of the function that holds it.\<close>

definition drop_config_guard :: "'t acp_session \<Rightarrow> 't acp_session" where
  "drop_config_guard s = s\<lparr>config_set_in_flight := False\<rparr>"

text \<open>A second, different id trips the assertion of a debug build; the code as shipped ignores it.\<close>

definition set_session_id :: "string \<Rightarrow> 't acp_session \<Rightarrow> 't acp_session" where
  "set_session_id new_sid s =
    (case sid s of Some existing \<Rightarrow> s | None \<Rightarrow> push_event (SessionAssigned new_sid) (s\<lparr>sid := Some new_sid\<rparr>))"

definition clear_session_id :: "'t acp_session \<Rightarrow> 't acp_session" where
  "clear_session_id s = s\<lparr>sid := None, opened := False, last_close_reason := None\<rparr>"

definition record_close_reason :: "close_reason option \<Rightarrow> 't acp_session \<Rightarrow> 't acp_session" where
  "record_close_reason reason s = s\<lparr>last_close_reason := reason\<rparr>"

definition take_close_reason :: "'t acp_session \<Rightarrow> close_reason option \<times> 't acp_session" where
  "take_close_reason s = (last_close_reason s, s\<lparr>last_close_reason := None\<rparr>)"

definition mark_opened :: "'t acp_session \<Rightarrow> 't acp_session" where
  "mark_opened s = (if opened s then s else push_event SessionOpened (s\<lparr>opened := True\<rparr>))"

definition mark_pending_session_new_prelude :: "'t acp_session \<Rightarrow> 't acp_session" where
  "mark_pending_session_new_prelude s = s\<lparr>pending_session_new_prelude := True\<rparr>"

definition take_pending_session_new_prelude :: "'t acp_session \<Rightarrow> bool \<times> 't acp_session" where
  "take_pending_session_new_prelude s = (pending_session_new_prelude s, s\<lparr>pending_session_new_prelude := False\<rparr>)"

definition drain_events :: "'t acp_session \<Rightarrow> 't acp_session_event list \<times> 't acp_session" where
  "drain_events s = (pending_events s, s\<lparr>pending_events := []\<rparr>)"


subsection \<open>What the user wants\<close>

text \<open>Before the agent advertises a catalogue, or while it is empty, anything can be chosen.\<close>

definition is_mode_valid :: "'t acp_session \<Rightarrow> string \<Rightarrow> bool" where
  "is_mode_valid s mode =
    (case adv_modes (advertised s) of
       None \<Rightarrow> True
     | Some catalogue \<Rightarrow> available_modes catalogue = [] \<or> list_ex (\<lambda>m. mode_id m = mode) (available_modes catalogue))"

definition is_model_valid :: "'t acp_session \<Rightarrow> string \<Rightarrow> bool" where
  "is_model_valid s model =
    (case adv_models (advertised s) of
       None \<Rightarrow> True
     | Some catalogue \<Rightarrow>
         available_models catalogue = [] \<or> list_ex (\<lambda>m. model_id m = model) (available_models catalogue))"

definition can_select_model :: "'t acp_session \<Rightarrow> string \<Rightarrow> bool" where
  "can_select_model s model \<longleftrightarrow> model \<noteq> [] \<and> is_model_valid s model"

definition can_select_mode :: "'t acp_session \<Rightarrow> string \<Rightarrow> bool" where
  "can_select_mode s mode \<longleftrightarrow> mode \<noteq> [] \<and> is_mode_valid s mode"

abbreviation on_desired :: "(desired_state \<Rightarrow> desired_state) \<Rightarrow> 't acp_session \<Rightarrow> 't acp_session" where
  "on_desired f s \<equiv> s\<lparr>desired := f (desired s)\<rparr>"

abbreviation on_observed :: "(observed_state \<Rightarrow> observed_state) \<Rightarrow> 't acp_session \<Rightarrow> 't acp_session" where
  "on_observed f s \<equiv> s\<lparr>observed := f (observed s)\<rparr>"

abbreviation on_advertised ::
  "('t advertised_state \<Rightarrow> 't advertised_state) \<Rightarrow> 't acp_session \<Rightarrow> 't acp_session" where
  "on_advertised f s \<equiv> s\<lparr>advertised := f (advertised s)\<rparr>"

definition set_desired_mode :: "string \<Rightarrow> 't acp_session \<Rightarrow> bool \<times> 't acp_session" where
  "set_desired_mode mode s =
    (if mode = [] then (False, s)
     else if \<not> is_mode_valid s mode then (False, s)
     else if want_mode (desired s) = Some mode then (False, s)
     else (True, push_event (DesiredModeChanged mode) (on_desired (want_mode_update (\<lambda>_. Some mode)) s)))"

definition set_desired_model :: "string \<Rightarrow> 't acp_session \<Rightarrow> bool \<times> 't acp_session" where
  "set_desired_model model s =
    (if model = [] then (False, s)
     else if \<not> is_model_valid s model then (False, s)
     else if want_model (desired s) = Some model then (False, s)
     else (True, push_event (DesiredModelChanged model) (on_desired (want_model_update (\<lambda>_. Some model)) s)))"

definition clear_invalid_desired_model :: "'t acp_session \<Rightarrow> string option \<times> 't acp_session" where
  "clear_invalid_desired_model s =
    (case want_model (desired s) of
       None \<Rightarrow> (None, s)
     | Some model \<Rightarrow>
         if is_model_valid s model then (None, s) else (Some model, on_desired (want_model_update (\<lambda>_. None)) s))"

definition clear_invalid_desired_mode :: "'t acp_session \<Rightarrow> string option \<times> 't acp_session" where
  "clear_invalid_desired_mode s =
    (case want_mode (desired s) of
       None \<Rightarrow> (None, s)
     | Some mode \<Rightarrow>
         if is_mode_valid s mode then (None, s) else (Some mode, on_desired (want_mode_update (\<lambda>_. None)) s))"

definition set_desired_config :: "string \<Rightarrow> string \<Rightarrow> 't acp_session \<Rightarrow> 't acp_session" where
  "set_desired_config key value s =
    (let changed = map_of (config_selections (desired s)) key \<noteq> Some value;
         s = on_desired (config_selections_update (AList.update key value)) s
     in if changed then push_event (DesiredConfigChanged (config_selections (desired s))) s else s)"

definition seed_pending_startup_config :: "config_category \<Rightarrow> string \<Rightarrow> 't acp_session \<Rightarrow> 't acp_session" where
  "seed_pending_startup_config category value s =
    (if value = [] then s
     else if list_ex (\<lambda>seed. seed_category seed = category \<and> seed_value seed = value)
               (pending_startup_config (desired s)) then s
     else on_desired (pending_startup_config_update
            (\<lambda>seeds. seeds @ [\<lparr>seed_category = category, seed_value = value\<rparr>])) s)"

fun config_option_aliases_for_category :: "config_category \<Rightarrow> string list" where
  "config_option_aliases_for_category Category_Mode = [''mode'', ''modes'']"
| "config_option_aliases_for_category Category_Model = [''model'', ''models'']"
| "config_option_aliases_for_category Category_ThoughtLevel =
    [''thought_level'', ''reasoning_effort'', ''effort'', ''thinking_budget'', ''thinking'']"
| "config_option_aliases_for_category (Category_Other name) = []"

definition select_option_for_startup_seed ::
  "session_config_option list \<Rightarrow> config_category \<Rightarrow> session_config_option option" where
  "select_option_for_startup_seed options category =
    (case find (\<lambda>opt. co_category opt = Some category) options of
       Some opt \<Rightarrow> Some opt
     | None \<Rightarrow> find (\<lambda>opt. co_id opt \<in> set (config_option_aliases_for_category category)) options)"

fun select_option_values :: "config_kind \<Rightarrow> string list" where
  "select_option_values (Kind_Select current options) = map so_value (flatten_select_options options)"
| "select_option_values Unknown_Kind = []"

fun select_option_contains_value :: "config_kind \<Rightarrow> string \<Rightarrow> bool" where
  "select_option_contains_value (Kind_Select current options) value =
    list_ex (\<lambda>opt. so_value opt = value) (flatten_select_options options)"
| "select_option_contains_value Unknown_Kind value = False"

definition clear_legacy_desired_for_config_category :: "config_category \<Rightarrow> 't acp_session \<Rightarrow> 't acp_session" where
  "clear_legacy_desired_for_config_category category s =
    (case category of
       Category_Mode \<Rightarrow> on_desired (want_mode_update (\<lambda>_. None)) s
     | Category_Model \<Rightarrow> on_desired (want_model_update (\<lambda>_. None)) s
     | _ \<Rightarrow> s)"

text \<open>
  An older agent that has no such option keeps the mode or model for \<open>set_mode\<close> and \<open>set_model\<close>; a thought
  level waits for a later catalogue.
\<close>

definition handle_unresolved_startup_config_seed ::
  "pending_startup_config_seed \<Rightarrow> bool \<Rightarrow> 't acp_session \<Rightarrow> 't acp_session" where
  "handle_unresolved_startup_config_seed seed option_was_advertised s =
    (case seed_category seed of
       Category_Mode \<Rightarrow>
         if option_was_advertised then clear_legacy_desired_for_config_category (seed_category seed) s else s
     | Category_Model \<Rightarrow>
         if option_was_advertised then clear_legacy_desired_for_config_category (seed_category seed) s else s
     | Category_ThoughtLevel \<Rightarrow>
         if option_was_advertised then s else seed_pending_startup_config (seed_category seed) (seed_value seed) s
     | Category_Other name \<Rightarrow> s)"

text \<open>One round of the loop over the seeds; the normaliser is given the values the option offers.\<close>

definition resolve_startup_seed ::
  "(string \<Rightarrow> string list \<Rightarrow> string) \<Rightarrow> pending_startup_config_seed \<Rightarrow> 't acp_session
    \<Rightarrow> pending_startup_config_seed_result \<times> 't acp_session" where
  "resolve_startup_seed mode_normalizer seed s =
    (case Option.bind (adv_options (advertised s)) (\<lambda>options. select_option_for_startup_seed options (seed_category seed)) of
       None \<Rightarrow>
         (OptionNotAdvertised (seed_category seed), handle_unresolved_startup_config_seed seed False s)
     | Some opt \<Rightarrow>
         let resolved = (if seed_category seed = Category_Mode
                         then mode_normalizer (seed_value seed) (select_option_values (co_kind opt)) else seed_value seed)
         in if \<not> select_option_contains_value (co_kind opt) resolved
            then (SeedNotSelectable (seed_category seed), handle_unresolved_startup_config_seed seed True s)
            else (Applied (seed_category seed) (co_id opt),
                  set_desired_config (co_id opt) resolved
                    (clear_legacy_desired_for_config_category (seed_category seed) s)))"

fun resolve_startup_seeds ::
  "(string \<Rightarrow> string list \<Rightarrow> string) \<Rightarrow> pending_startup_config_seed list \<Rightarrow> 't acp_session
    \<Rightarrow> pending_startup_config_seed_result list \<times> 't acp_session" where
  "resolve_startup_seeds mode_normalizer [] s = ([], s)"
| "resolve_startup_seeds mode_normalizer (seed # seeds) s =
    (case resolve_startup_seed mode_normalizer seed s of
       (r, s) \<Rightarrow> case resolve_startup_seeds mode_normalizer seeds s of (results, s) \<Rightarrow> (r # results, s))"

definition resolve_pending_startup_config_seeds_with_mode_normalizer ::
  "(string \<Rightarrow> string list \<Rightarrow> string) \<Rightarrow> 't acp_session \<Rightarrow> pending_startup_config_seed_result list \<times> 't acp_session" where
  "resolve_pending_startup_config_seeds_with_mode_normalizer mode_normalizer s =
    resolve_startup_seeds mode_normalizer (pending_startup_config (desired s))
      (on_desired (pending_startup_config_update (\<lambda>_. [])) s)"


subsection \<open>What the agent reports\<close>

definition advertised_mode_list :: "'t acp_session \<Rightarrow> session_mode list" where
  "advertised_mode_list s = (case adv_modes (advertised s) of Some m \<Rightarrow> available_modes m | None \<Rightarrow> [])"

definition advertised_model_list :: "'t acp_session \<Rightarrow> legacy_model_entry list" where
  "advertised_model_list s = (case adv_models (advertised s) of Some m \<Rightarrow> available_models m | None \<Rightarrow> [])"

definition see_mode :: "string \<Rightarrow> session_mode_state \<Rightarrow> 't acp_session \<Rightarrow> 't acp_session" where
  "see_mode mode catalogue s =
    (let changed = seen_mode (observed s) \<noteq> Some mode;
         s = on_advertised (adv_modes_update (\<lambda>_. Some catalogue)) (on_observed (seen_mode_update (\<lambda>_. Some mode)) s)
     in if changed then push_event (ObservedModeSynced mode) s else s)"

definition see_model :: "string \<Rightarrow> legacy_session_model_state \<Rightarrow> 't acp_session \<Rightarrow> 't acp_session" where
  "see_model model catalogue s =
    (let changed = seen_model (observed s) \<noteq> Some model;
         s = on_advertised (adv_models_update (\<lambda>_. Some catalogue)) (on_observed (seen_model_update (\<lambda>_. Some model)) s)
     in if changed then push_event (ObservedModelSynced model) s else s)"

definition apply_observed_mode :: "string \<Rightarrow> 't acp_session \<Rightarrow> 't acp_session" where
  "apply_observed_mode mode s =
    see_mode mode \<lparr>current_mode_id = mode, available_modes = advertised_mode_list s\<rparr> s"

definition apply_observed_model :: "string \<Rightarrow> 't acp_session \<Rightarrow> 't acp_session" where
  "apply_observed_model model s =
    see_model model \<lparr>current_model_id = model, available_models = advertised_model_list s\<rparr> s"

definition confirm_mode :: "string \<Rightarrow> 't acp_session \<Rightarrow> 't acp_session" where
  "confirm_mode mode s = apply_observed_mode mode (on_desired (want_mode_update (\<lambda>_. Some mode)) s)"

definition confirm_model :: "string \<Rightarrow> 't acp_session \<Rightarrow> 't acp_session" where
  "confirm_model model s = apply_observed_model model (on_desired (want_model_update (\<lambda>_. Some model)) s)"

definition apply_observed_config :: "string \<Rightarrow> string \<Rightarrow> 't acp_session \<Rightarrow> 't acp_session" where
  "apply_observed_config key value s =
    (let changed = map_of (config_current (observed s)) key \<noteq> Some value;
         s = on_observed (config_current_update (AList.update key value)) s
     in if changed then push_event (ObservedConfigSynced (config_current (observed s))) s else s)"

definition preserve_existing_mode_catalog_if_empty ::
  "'t acp_session \<Rightarrow> session_mode_state \<Rightarrow> session_mode_state" where
  "preserve_existing_mode_catalog_if_empty s catalogue =
    (if available_modes catalogue = [] \<and> advertised_mode_list s \<noteq> []
     then catalogue\<lparr>available_modes := advertised_mode_list s\<rparr> else catalogue)"

definition preserve_existing_model_catalog_if_empty ::
  "'t acp_session \<Rightarrow> legacy_session_model_state \<Rightarrow> legacy_session_model_state" where
  "preserve_existing_model_catalog_if_empty s catalogue =
    (if available_models catalogue = [] \<and> advertised_model_list s \<noteq> []
     then catalogue\<lparr>available_models := advertised_model_list s\<rparr> else catalogue)"

definition preserve_desired_model_in_catalog ::
  "'t acp_session \<Rightarrow> legacy_session_model_state \<Rightarrow> legacy_session_model_state" where
  "preserve_desired_model_in_catalog s catalogue =
    (case want_model (desired s) of
       None \<Rightarrow> catalogue
     | Some model \<Rightarrow>
         if current_model_id catalogue = model then catalogue
         else if list_ex (\<lambda>m. model_id m = model) (available_models catalogue)
         then \<lparr>current_model_id = model, available_models = available_models catalogue\<rparr>
         else catalogue)"

definition apply_advertised_modes :: "session_mode_state \<Rightarrow> 't acp_session \<Rightarrow> 't acp_session" where
  "apply_advertised_modes catalogue s =
    (let catalogue = preserve_existing_mode_catalog_if_empty s catalogue
     in see_mode (current_mode_id catalogue) catalogue s)"

definition apply_advertised_models :: "legacy_session_model_state \<Rightarrow> 't acp_session \<Rightarrow> 't acp_session" where
  "apply_advertised_models catalogue s =
    (let catalogue = preserve_existing_model_catalog_if_empty s catalogue
     in see_model (current_model_id catalogue) catalogue s)"

fun extract_config_current_value :: "config_kind \<Rightarrow> string option" where
  "extract_config_current_value (Kind_Select current options) = Some current"
| "extract_config_current_value Unknown_Kind = None"

text \<open>The loop over the options: each reported value is put into the map, and a difference is remembered.\<close>

fun sync_config_current ::
  "session_config_option list \<Rightarrow> (string, string) hashmap \<Rightarrow> bool \<Rightarrow> (string, string) hashmap \<times> bool" where
  "sync_config_current [] current changed = (current, changed)"
| "sync_config_current (opt # options) current changed =
    (case extract_config_current_value (co_kind opt) of
       None \<Rightarrow> sync_config_current options current changed
     | Some value \<Rightarrow>
         sync_config_current options (AList.update (co_id opt) value current)
           (changed \<or> map_of current (co_id opt) \<noteq> Some value))"

definition apply_advertised_config_options ::
  "session_config_option list \<Rightarrow> 't acp_session \<Rightarrow> 't acp_session" where
  "apply_advertised_config_options incoming s =
    (let options = merge_config_options (adv_options (advertised s)) incoming;
         s = (case derive_modes_from_config_options options of
                Some catalogue \<Rightarrow> apply_advertised_modes catalogue s | None \<Rightarrow> s);
         s = (case derive_models_from_config_options options of
                Some catalogue \<Rightarrow> apply_advertised_models (preserve_desired_model_in_catalog s catalogue) s
              | None \<Rightarrow> s)
     in case sync_config_current options (config_current (observed s)) False of
          (current, changed) \<Rightarrow>
            let s = on_advertised (adv_options_update (\<lambda>_. Some options))
                      (on_observed (config_current_update (\<lambda>_. current)) s)
            in if changed then push_event (ObservedConfigSynced current) s else s)"

definition apply_advertised_capabilities :: "agent_capabilities \<Rightarrow> 't acp_session \<Rightarrow> 't acp_session" where
  "apply_advertised_capabilities caps = on_advertised (adv_capabilities_update (\<lambda>_. Some caps))"

definition apply_advertised_auth_methods :: "json list \<Rightarrow> 't acp_session \<Rightarrow> 't acp_session" where
  "apply_advertised_auth_methods methods = on_advertised (adv_auth_update (\<lambda>_. Some methods))"

definition apply_advertised_commands :: "json list \<Rightarrow> 't acp_session \<Rightarrow> 't acp_session" where
  "apply_advertised_commands commands = on_advertised (adv_commands_update (\<lambda>_. Some commands))"

text \<open>Two usage reports are equal exactly when their serialised texts are.\<close>

definition apply_context_usage :: "'t \<Rightarrow> 't acp_session \<Rightarrow> 't acp_session" where
  "apply_context_usage usage s =
    (let changed = adv_usage (advertised s) \<noteq> Some usage;
         s = on_advertised (adv_usage_update (\<lambda>_. Some usage)) s
     in if changed then push_event (ObservedContextUsageChanged usage) s else s)"


subsection \<open>Restoring, and planning\<close>

definition preload_mode :: "string \<Rightarrow> 't acp_session \<Rightarrow> 't acp_session" where
  "preload_mode mode s =
    on_observed (seen_mode_update (\<lambda>_. Some mode))
      (on_advertised (adv_modes_update (\<lambda>_. Some \<lparr>current_mode_id = mode, available_modes = advertised_mode_list s\<rparr>)) s)"

definition preload_model :: "string \<Rightarrow> 't acp_session \<Rightarrow> 't acp_session" where
  "preload_model model s =
    on_observed (seen_model_update (\<lambda>_. Some model))
      (on_advertised (adv_models_update
        (\<lambda>_. Some \<lparr>current_model_id = model, available_models = advertised_model_list s\<rparr>)) s)"

definition preload_persisted :: "'t persisted_session_state \<Rightarrow> 't acp_session \<Rightarrow> 't acp_session" where
  "preload_persisted state s =
    (let s = (case kept_mode state of Some mode \<Rightarrow> preload_mode mode s | None \<Rightarrow> s);
         s = (case kept_model state of Some model \<Rightarrow> preload_model model s | None \<Rightarrow> s);
         s = (if kept_selections state \<noteq> [] then on_observed (config_current_update (\<lambda>_. kept_selections state)) s else s)
     in case kept_usage state of Some usage \<Rightarrow> on_advertised (adv_usage_update (\<lambda>_. Some usage)) s | None \<Rightarrow> s)"

definition known_mode :: "'t acp_session \<Rightarrow> string option" where
  "known_mode s = (case seen_mode (observed s) of Some m \<Rightarrow> Some m | None \<Rightarrow> want_mode (desired s))"

definition known_model :: "'t acp_session \<Rightarrow> string option" where
  "known_model s = (case seen_model (observed s) of Some m \<Rightarrow> Some m | None \<Rightarrow> want_model (desired s))"

definition mode_catalog_with_session_current :: "'t acp_session \<Rightarrow> session_mode_state \<Rightarrow> session_mode_state" where
  "mode_catalog_with_session_current s catalogue =
    (case known_mode s of
       Some mode \<Rightarrow> if list_ex (\<lambda>m. mode_id m = mode) (available_modes catalogue)
                    then catalogue\<lparr>current_mode_id := mode\<rparr> else catalogue
     | None \<Rightarrow> catalogue)"

definition model_catalog_with_session_current ::
  "'t acp_session \<Rightarrow> legacy_session_model_state \<Rightarrow> legacy_session_model_state" where
  "model_catalog_with_session_current s catalogue =
    (case known_model s of
       Some model \<Rightarrow> if list_ex (\<lambda>m. model_id m = model) (available_models catalogue)
                     then catalogue\<lparr>current_model_id := model\<rparr> else catalogue
     | None \<Rightarrow> catalogue)"

definition preload_advertised_catalogs ::
  "session_mode_state option \<Rightarrow> legacy_session_model_state option \<Rightarrow> 't acp_session \<Rightarrow> 't acp_session" where
  "preload_advertised_catalogs mode_catalogue model_catalogue s =
    (let s = (case mode_catalogue of
                Some c \<Rightarrow> if available_modes c \<noteq> [] \<and> advertised_mode_list s = []
                          then on_advertised (adv_modes_update (\<lambda>_. Some (mode_catalog_with_session_current s c))) s else s
              | None \<Rightarrow> s)
     in case model_catalogue of
          Some c \<Rightarrow> if available_models c \<noteq> [] \<and> advertised_model_list s = []
                    then on_advertised (adv_models_update (\<lambda>_. Some (model_catalog_with_session_current s c))) s else s
        | None \<Rightarrow> s)"

definition plan_reconcile :: "'t acp_session \<Rightarrow> reconcile_action list" where
  "plan_reconcile s =
    (case want_mode (desired s) of
       Some mode \<Rightarrow> if seen_mode (observed s) \<noteq> Some mode then [SetMode mode] else [] | None \<Rightarrow> [])
    @ (case want_model (desired s) of
       Some model \<Rightarrow> if seen_model (observed s) \<noteq> Some model then [SetModel model] else [] | None \<Rightarrow> [])
    @ map (\<lambda>(key, value). SetConfigOption key value)
        (filter (\<lambda>(key, value). map_of (config_current (observed s)) key \<noteq> Some value) (config_selections (desired s)))"

definition session_config_snapshot :: "'t acp_session \<Rightarrow> config_snapshot" where
  "session_config_snapshot s =
    (case adv_options (advertised s) of
       Some options \<Rightarrow>
         from_real_options_with_runtime_supplements options (adv_modes (advertised s)) (adv_models (advertised s))
     | None \<Rightarrow> from_legacy_catalogs (adv_modes (advertised s)) (adv_models (advertised s)))"

end
