(* ===== verification/Acp_Store.thy ===== *)
theory Acp_Store
  imports Acp_Session "HOL-Library.Finite_Map"
begin

text \<open>
  The table that keeps the session of each ACP conversation: \<open>repository/sqlite_acp_session.rs\<close> and
  \<open>acp_session.rs\<close> of \<open>crates/aionui-db\<close>. The column \<open>session_config\<close> holds a JSON document whose member
  \<open>runtime\<close> carries the last mode, model, configuration and context usage the agent reported; every
  operation is scoped to the user who owns the conversation.

  Serialising and parsing JSON is the library's: a \<open>serde\<close> record of the four functions the code calls, of
  which \<open>serde_ok\<close> states what they are documented to do. A query may fail: each operation is given
  whether the database answers.
\<close>

section \<open>JSON\<close>

text \<open>An object is a finite map: the library keeps one value per key, and no order is relied on.\<close>

datatype json_value =
    JNull
  | JBool bool
  | JNumber string
  | JString string
  | JArray "json_value list"
  | JObject "(string, json_value) fmap"

text \<open>\<open>Value::get\<close> with a text index, and \<open>Value::as_str\<close>.\<close>

fun json_get :: "json_value \<Rightarrow> string \<Rightarrow> json_value option" where
  "json_get (JObject members) key = fmlookup members key"
| "json_get _ key = None"

fun json_as_str :: "json_value \<Rightarrow> string option" where
  "json_as_str (JString s) = Some s"
| "json_as_str _ = None"

text \<open>The nesting of a value, and the texts of its numbers.\<close>

primrec json_depth :: "json_value \<Rightarrow> nat" where
  "json_depth JNull = 0"
| "json_depth (JBool b) = 0"
| "json_depth (JNumber n) = 0"
| "json_depth (JString s) = 0"
| "json_depth (JArray xs) = Suc (fold max (map json_depth xs) 0)"
| "json_depth (JObject members) = Suc (fMax (finsert 0 (fmran (fmmap json_depth members))))"

primrec json_numbers :: "json_value \<Rightarrow> string set" where
  "json_numbers JNull = {}"
| "json_numbers (JBool b) = {}"
| "json_numbers (JNumber n) = {n}"
| "json_numbers (JString s) = {}"
| "json_numbers (JArray xs) = \<Union> (set (map json_numbers xs))"
| "json_numbers (JObject members) = \<Union> (fset (fmran (fmmap json_numbers members)))"

record 't serde =
  number_text :: "string \<Rightarrow> bool"                    \<comment> \<open>the texts of numbers that are read back as they are\<close>
  value_text :: "json_value \<Rightarrow> 't"                    \<comment> \<open>\<open>to_string\<close> of a \<open>Value\<close>\<close>
  text_value :: "'t \<Rightarrow> json_value option"             \<comment> \<open>\<open>from_str\<close> of a \<open>Value\<close>\<close>
  map_text :: "(string, string) hashmap \<Rightarrow> 't"        \<comment> \<open>\<open>to_string\<close> of a map of texts\<close>
  text_usage :: "'t \<Rightarrow> 't option"                     \<comment> \<open>\<open>from_str\<close> of a usage report, as its own text\<close>

definition texts_value :: "(string, string) hashmap \<Rightarrow> json_value" where
  "texts_value m = JObject (fmmap JString (fmap_of_list m))"

text \<open>\<open>from_str\<close> of a map of texts: every member has to be a text.\<close>

definition value_texts :: "json_value \<Rightarrow> (string, string) hashmap option" where
  "value_texts v =
    (case v of
       JObject members \<Rightarrow>
         if list_all (\<lambda>(key, x). json_as_str x \<noteq> None) (sorted_list_of_fmap members)
         then Some (map (\<lambda>(key, x). (key, the (json_as_str x))) (sorted_list_of_fmap members)) else None
     | _ \<Rightarrow> None)"

definition text_texts :: "'t serde \<Rightarrow> 't \<Rightarrow> (string, string) hashmap option" where
  "text_texts sd t = Option.bind (text_value sd t) value_texts"

definition json_within :: "'t serde \<Rightarrow> nat \<Rightarrow> json_value \<Rightarrow> bool" where
  "json_within sd d v \<longleftrightarrow> json_depth v \<le> d \<and> (\<forall>n \<in> json_numbers v. number_text sd n)"

text \<open>
  The documented behaviour of the library: the parser gives values of at most 127 nested arrays and objects
  (its recursion limit), with numbers it would print as they are; such a value read from its own text is that
  value; a map of texts is written as an object of its members; and a usage report, a record of few levels,
  survives being parsed to a value and printed again.
\<close>

definition serde_ok :: "'t serde \<Rightarrow> 't set \<Rightarrow> bool" where
  "serde_ok sd usages \<longleftrightarrow>
    (\<forall>t v. text_value sd t = Some v \<longrightarrow> json_within sd 127 v) \<and>
    (\<forall>v. json_within sd 127 v \<longrightarrow> text_value sd (value_text sd v) = Some v) \<and>
    (\<forall>m. text_value sd (map_text sd m) = Some (texts_value m)) \<and>
    (\<forall>u \<in> usages. \<exists>v. text_value sd u = Some v \<and> json_within sd 100 v \<and> text_usage sd (value_text sd v) = Some u)"

lemma json_within_object:
  "json_within sd d (JObject m) \<longleftrightarrow> 0 < d \<and> (\<forall>k v. fmlookup m k = Some v \<longrightarrow> json_within sd (d - 1) v)"
proof -
  have bound: "fMax (finsert 0 A) \<le> x \<longleftrightarrow> (\<forall>y. y |\<in>| A \<longrightarrow> y \<le> x)" for A and x :: nat
  proof
    show "\<forall>y. y |\<in>| A \<longrightarrow> y \<le> x" if "fMax (finsert 0 A) \<le> x"
      using that fMax_ge [of _ "finsert 0 A"] by fastforce
    show "fMax (finsert 0 A) \<le> x" if "\<forall>y. y |\<in>| A \<longrightarrow> y \<le> x"
      using that fMax_in [of "finsert 0 A"] by auto
  qed
  have members: "y |\<in>| fmran (fmmap f m) \<longleftrightarrow> (\<exists>k v. fmlookup m k = Some v \<and> y = f v)" for y :: 'b and f
    unfolding fmlookup_ran_iff fmlookup_map by auto
  have depth: "fMax (finsert 0 (fmran (fmmap json_depth m))) \<le> x
      \<longleftrightarrow> (\<forall>k v. fmlookup m k = Some v \<longrightarrow> json_depth v \<le> x)" for x
    unfolding bound members by blast
  have numbers: "n \<in> json_numbers (JObject m) \<longleftrightarrow> (\<exists>k v. fmlookup m k = Some v \<and> n \<in> json_numbers v)" for n
    unfolding json_numbers.simps Union_iff Bex_def members by blast
  have "json_depth (JObject m) \<le> d \<longleftrightarrow> 0 < d \<and> (\<forall>k v. fmlookup m k = Some v \<longrightarrow> json_depth v \<le> d - 1)"
    unfolding json_depth.simps by (cases d) (simp_all only: Suc_le_mono depth, simp_all)
  then show ?thesis unfolding json_within_def Ball_def numbers by blast
qed

lemma json_within_texts: "0 < d \<Longrightarrow> json_within sd d (texts_value m)"
  unfolding texts_value_def json_within_object by (auto simp: json_within_def)

lemma json_within_mono: "json_within sd d v \<Longrightarrow> d \<le> e \<Longrightarrow> json_within sd e v"
  by (simp add: json_within_def)


section \<open>The table\<close>

datatype session_db_error = DbQuery | DbInit string | DbNotFound string | DbConflict string

record 't acp_session_row =
  row_agent_source :: string
  row_agent_id :: string
  row_session_id :: "string option"
  row_config :: 't
  row_last_active_at :: timestamp_ms

text \<open>The two tables the queries join: who owns a conversation, and the row of a conversation.\<close>

record 't acp_tables =
  conversation_owner :: "(string, string) hashmap"
  acp_rows :: "(string, 't acp_session_row) hashmap"

record 't stored_runtime =
  stored_mode :: "string option"
  stored_model :: "string option"
  stored_config :: "'t option"
  stored_usage :: "'t option"

text \<open>An outer \<open>None\<close> leaves a member as it is, an inner one removes it.\<close>

record 't save_params =
  save_mode :: "string option option"
  save_model :: "string option option"
  save_config :: "'t option option"
  save_usage :: "'t option option"

definition params_empty :: "'t save_params \<Rightarrow> bool" where
  "params_empty p \<longleftrightarrow> save_mode p = None \<and> save_model p = None \<and> save_config p = None \<and> save_usage p = None"

definition decode_runtime_state :: "'t serde \<Rightarrow> 't \<Rightarrow> session_db_error + 't stored_runtime" where
  "decode_runtime_state sd raw =
    (case text_value sd raw of
       None \<Rightarrow> Inl (DbInit ''invalid session_config JSON'')
     | Some parsed \<Rightarrow>
        (case json_get parsed ''runtime'' of
           None \<Rightarrow> Inr \<lparr>stored_mode = None, stored_model = None, stored_config = None, stored_usage = None\<rparr>
         | Some rt \<Rightarrow> Inr
            \<lparr>stored_mode = Option.bind (json_get rt ''current_mode_id'') json_as_str,
             stored_model = Option.bind (json_get rt ''current_model_id'') json_as_str,
             stored_config = map_option (value_text sd) (json_get rt ''config_selections''),
             stored_usage = map_option (value_text sd) (json_get rt ''context_usage'')\<rparr>))"

definition put_text :: "string \<Rightarrow> string option option \<Rightarrow> (string, json_value) fmap \<Rightarrow> (string, json_value) fmap" where
  "put_text key param members =
    (case param of
       None \<Rightarrow> members
     | Some (Some v) \<Rightarrow> fmupd key (JString v) members
     | Some None \<Rightarrow> fmdrop key members)"

definition put_json ::
  "'t serde \<Rightarrow> string \<Rightarrow> 't option option \<Rightarrow> (string, json_value) fmap \<Rightarrow> session_db_error + (string, json_value) fmap" where
  "put_json sd key param members =
    (case param of
       None \<Rightarrow> Inr members
     | Some (Some t) \<Rightarrow>
        (case text_value sd t of
           None \<Rightarrow> Inl (DbInit (''invalid '' @ key @ '' JSON'')) | Some v \<Rightarrow> Inr (fmupd key v members))
     | Some None \<Rightarrow> Inr (fmdrop key members))"

definition merge_runtime_members ::
  "'t serde \<Rightarrow> 't save_params \<Rightarrow> (string, json_value) fmap \<Rightarrow> session_db_error + (string, json_value) fmap" where
  "merge_runtime_members sd p members =
    (case put_json sd ''config_selections'' (save_config p)
            (put_text ''current_model_id'' (save_model p) (put_text ''current_mode_id'' (save_mode p) members)) of
       Inl err \<Rightarrow> Inl err
     | Inr members \<Rightarrow> put_json sd ''context_usage'' (save_usage p) members)"

definition merge_runtime_state :: "'t serde \<Rightarrow> 't \<Rightarrow> 't save_params \<Rightarrow> session_db_error + 't" where
  "merge_runtime_state sd raw p =
    (case (case text_value sd raw of Some v \<Rightarrow> v | None \<Rightarrow> JObject fmempty) of
       JObject doc \<Rightarrow>
        (case (case fmlookup doc ''runtime'' of Some v \<Rightarrow> v | None \<Rightarrow> JObject fmempty) of
           JObject members \<Rightarrow>
            (case merge_runtime_members sd p members of
               Inl err \<Rightarrow> Inl err
             | Inr members \<Rightarrow> Inr (value_text sd (JObject (fmupd ''runtime'' (JObject members) doc))))
         | _ \<Rightarrow> Inl (DbInit ''session_config.runtime is not a JSON object''))
     | _ \<Rightarrow> Inl (DbInit ''session_config is not a JSON object''))"

text \<open>The row of a conversation the user owns: the \<open>EXISTS\<close> clause of every query.\<close>

definition row_for_user :: "'t acp_tables \<Rightarrow> string \<Rightarrow> string \<Rightarrow> 't acp_session_row option" where
  "row_for_user db user_id conversation =
    (if map_of (conversation_owner db) conversation = Some user_id then map_of (acp_rows db) conversation else None)"

definition change_row ::
  "('t acp_session_row \<Rightarrow> 't acp_session_row) \<Rightarrow> string \<Rightarrow> string \<Rightarrow> 't acp_tables \<Rightarrow> bool \<times> 't acp_tables" where
  "change_row f user_id conversation db =
    (if row_for_user db user_id conversation = None then (False, db)
     else (True, db\<lparr>acp_rows := modify conversation f (acp_rows db)\<rparr>))"

definition get_for_user ::
  "bool \<Rightarrow> string \<Rightarrow> string \<Rightarrow> 't acp_tables \<Rightarrow> session_db_error + 't acp_session_row option" where
  "get_for_user up user_id conversation db =
    (if \<not> up then Inl DbQuery else Inr (row_for_user db user_id conversation))"

definition create_row ::
  "'t serde \<Rightarrow> timestamp_ms \<Rightarrow> bool \<Rightarrow> string \<Rightarrow> string \<Rightarrow> string \<Rightarrow> string \<Rightarrow> 't acp_tables
    \<Rightarrow> (session_db_error + 't acp_session_row) \<times> 't acp_tables" where
  "create_row sd now up user_id conversation source agent db =
    (if \<not> up then (Inl DbQuery, db)
     else if map_of (conversation_owner db) conversation = Some user_id then
       (if conversation \<in> set (keys (acp_rows db))
        then (Inl (DbConflict (''acp_session row for conversation '' @ conversation @ '' already exists'')), db)
        else (let row = \<lparr>row_agent_source = source, row_agent_id = agent, row_session_id = None,
                         row_config = value_text sd (JObject fmempty), row_last_active_at = now\<rparr>
              in (Inr row, db\<lparr>acp_rows := AList.update conversation row (acp_rows db)\<rparr>)))
     else if map_of (conversation_owner db) conversation \<noteq> None
     then (Inl (DbConflict (''CROSS_ACCOUNT_REFERENCE: '' @ conversation)), db)
     else (Inl (DbNotFound (''conversation '' @ conversation)), db))"

definition update_session_id_for_user ::
  "timestamp_ms \<Rightarrow> bool \<Rightarrow> string \<Rightarrow> string \<Rightarrow> string \<Rightarrow> 't acp_tables \<Rightarrow> (session_db_error + bool) \<times> 't acp_tables" where
  "update_session_id_for_user now up user_id conversation new_sid db =
    (if \<not> up then (Inl DbQuery, db)
     else case change_row (\<lambda>r. r\<lparr>row_session_id := Some new_sid, row_last_active_at := now\<rparr>) user_id conversation db of
       (found, db) \<Rightarrow> (Inr found, db))"

definition clear_session_id_for_user ::
  "timestamp_ms \<Rightarrow> bool \<Rightarrow> string \<Rightarrow> string \<Rightarrow> 't acp_tables \<Rightarrow> (session_db_error + bool) \<times> 't acp_tables" where
  "clear_session_id_for_user now up user_id conversation db =
    (if \<not> up then (Inl DbQuery, db)
     else case change_row (\<lambda>r. r\<lparr>row_session_id := None, row_last_active_at := now\<rparr>) user_id conversation db of
       (found, db) \<Rightarrow> (Inr found, db))"

definition delete_session_for_user ::
  "bool \<Rightarrow> string \<Rightarrow> string \<Rightarrow> 't acp_tables \<Rightarrow> (session_db_error + bool) \<times> 't acp_tables" where
  "delete_session_for_user up user_id conversation db =
    (if \<not> up then (Inl DbQuery, db)
     else if row_for_user db user_id conversation = None then (Inr False, db)
     else (Inr True, db\<lparr>acp_rows := AList.delete conversation (acp_rows db)\<rparr>))"

definition load_runtime_state_for_user ::
  "'t serde \<Rightarrow> bool \<Rightarrow> string \<Rightarrow> string \<Rightarrow> 't acp_tables \<Rightarrow> session_db_error + 't stored_runtime option" where
  "load_runtime_state_for_user sd up user_id conversation db =
    (if \<not> up then Inl DbQuery
     else case row_for_user db user_id conversation of
       None \<Rightarrow> Inr None
     | Some row \<Rightarrow> map_sum id Some (decode_runtime_state sd (row_config row)))"

definition save_runtime_state_for_user ::
  "'t serde \<Rightarrow> timestamp_ms \<Rightarrow> bool \<Rightarrow> string \<Rightarrow> string \<Rightarrow> 't save_params \<Rightarrow> 't acp_tables
    \<Rightarrow> (session_db_error + bool) \<times> 't acp_tables" where
  "save_runtime_state_for_user sd now up user_id conversation p db =
    (if params_empty p then (Inr True, db)
     else if \<not> up then (Inl DbQuery, db)
     else case row_for_user db user_id conversation of
       None \<Rightarrow> (Inr False, db)
     | Some row \<Rightarrow>
        (case merge_runtime_state sd (row_config row) p of
           Inl err \<Rightarrow> (Inl err, db)
         | Inr config \<Rightarrow>
            (case change_row (\<lambda>r. r\<lparr>row_config := config, row_last_active_at := now\<rparr>) user_id conversation db of
               (found, db) \<Rightarrow> (Inr found, db))))"

end
