(* ===== verification/Acp_Error.thy ===== *)
theory Acp_Error
  imports Acp_Store
begin

text \<open>
  The errors of the ACP agents: \<open>protocol/error.rs\<close>, \<open>error.rs\<close> and \<open>manager/acp/error_mapping.rs\<close> of
  \<open>crates/aionui-ai-agent\<close>. A reply of the library is classified by its code; only a reply that says a session
  is gone is recognised by its payload, whichever member of it carries the message.

  Parsing JSON is the library's: the function that parses a text is an argument.
\<close>

datatype acp_error =
    SpawnFailed string
  | StartupCrash "i32 option" "string option" string
  | Disconnected "i32 option" "string option" string
  | AuthRequired
  | ProtocolParseError string
  | InvalidRequest string
  | SessionNotFound string
  | ResourceNotFound "string option" string
  | MethodNotFound string
  | InvalidParams string
  | AgentInternal string int "json_value option"
  | OtherProtocolError int string "json_value option"
  | NotConnected
  | InitTimeout u64
  | RequestTimeout string u64

datatype agent_error =
    BadRequest string
  | Unauthorized string
  | Forbidden string
  | NotFound string
  | Conflict string
  | BadGateway string
  | Timeout string
  | RateLimited
  | ConversationArchived string
  | WorkspacePathRuntimeUnavailable string
  | Internal string
  | AcpFailure acp_error

text \<open>The codes of the library; \<open>Code_Other\<close> is any number it has no name for.\<close>

datatype sdk_error_code =
    Code_AuthRequired | Code_ParseError | Code_InvalidRequest | Code_ResourceNotFound | Code_MethodNotFound
  | Code_InvalidParams | Code_InternalError | Code_Other int

record sdk_error =
  err_code :: sdk_error_code
  err_message :: string
  err_data :: "json_value option"

fun code_number :: "sdk_error_code \<Rightarrow> int" where
  "code_number Code_AuthRequired = - 32000"
| "code_number Code_ParseError = - 32700"
| "code_number Code_InvalidRequest = - 32600"
| "code_number Code_ResourceNotFound = - 32002"
| "code_number Code_MethodNotFound = - 32601"
| "code_number Code_InvalidParams = - 32602"
| "code_number Code_InternalError = - 32603"
| "code_number (Code_Other n) = n"

definition strip_prefix :: "string \<Rightarrow> string \<Rightarrow> string option" where
  "strip_prefix p s = (if take (length p) s = p then Some (drop (length p) s) else None)"

text \<open>A payload is an object, or a text that parses to one.\<close>

definition payload_object :: "(string \<Rightarrow> json_value option) \<Rightarrow> json_value \<Rightarrow> (string, json_value) fmap option" where
  "payload_object parse v =
    (case (case v of JObject m \<Rightarrow> Some v | JString s \<Rightarrow> parse s | _ \<Rightarrow> None) of
       Some (JObject m) \<Rightarrow> Some m | _ \<Rightarrow> None)"

definition stale_session_of :: "string \<Rightarrow> string option" where
  "stale_session_of msg =
    (case strip_prefix ''Session not found: '' msg of
       None \<Rightarrow> None | Some rest \<Rightarrow> if trim rest = [] then None else Some (trim rest))"

text \<open>The members of an object are visited in the order of their names.\<close>

definition extract_session_not_found :: "(string \<Rightarrow> json_value option) \<Rightarrow> json_value option \<Rightarrow> string option" where
  "extract_session_not_found parse payload =
    Option.bind payload (\<lambda>v. Option.bind (payload_object parse v)
      (\<lambda>m. find_map (\<lambda>(key, x). Option.bind (json_as_str x) stale_session_of) (sorted_list_of_fmap m)))"

text \<open>A text that does not parse to an object still answers \<open>get\<close>, with nothing.\<close>

definition extract_resource_not_found :: "(string \<Rightarrow> json_value option) \<Rightarrow> json_value option \<Rightarrow> string option" where
  "extract_resource_not_found parse payload =
    Option.bind payload (\<lambda>v. Option.bind (payload_object parse v)
      (\<lambda>m. Option.bind (fmlookup m ''uri'') json_as_str))"

definition is_session_load_method :: "string \<Rightarrow> bool" where
  "is_session_load_method ctx \<longleftrightarrow> ctx = ''session/load''"

text \<open>The branch of every code that falls back when the payload names no stale session.\<close>

definition or_stale :: "(string \<Rightarrow> json_value option) \<Rightarrow> sdk_error \<Rightarrow> acp_error \<Rightarrow> acp_error" where
  "or_stale parse err otherwise =
    (case extract_session_not_found parse (err_data err) of Some i \<Rightarrow> SessionNotFound i | None \<Rightarrow> otherwise)"

definition from_sdk :: "(string \<Rightarrow> json_value option) \<Rightarrow> sdk_error \<Rightarrow> string \<Rightarrow> acp_error" where
  "from_sdk parse err ctx =
    (case err_code err of
       Code_AuthRequired \<Rightarrow> AuthRequired
     | Code_ParseError \<Rightarrow> ProtocolParseError (err_message err)
     | Code_InvalidRequest \<Rightarrow> InvalidRequest (err_message err)
     | Code_ResourceNotFound \<Rightarrow>
         or_stale parse err
           (if extract_resource_not_found parse (err_data err) = None \<and> is_session_load_method ctx
            then SessionNotFound ctx
            else ResourceNotFound (extract_resource_not_found parse (err_data err)) (err_message err))
     | Code_MethodNotFound \<Rightarrow> MethodNotFound ctx
     | Code_InvalidParams \<Rightarrow> or_stale parse err (InvalidParams (err_message err))
     | Code_InternalError \<Rightarrow>
         or_stale parse err (AgentInternal (err_message err) (code_number (err_code err)) (err_data err))
     | Code_Other code \<Rightarrow>
         if code = - 32001 then SessionNotFound ctx
         else or_stale parse err (OtherProtocolError code (err_message err) (err_data err)))"

fun is_acp_session_not_found :: "acp_error \<Rightarrow> bool" where
  "is_acp_session_not_found (SessionNotFound i) = True"
| "is_acp_session_not_found _ = False"

definition is_missing_resumed_session :: "acp_error \<Rightarrow> string \<Rightarrow> bool" where
  "is_missing_resumed_session err resumed \<longleftrightarrow>
    is_acp_session_not_found err \<or> (case err of ResourceNotFound (Some resource) msg \<Rightarrow> resource = resumed | _ \<Rightarrow> False)"

fun is_retryable :: "acp_error \<Rightarrow> bool" where
  "is_retryable (SpawnFailed _) = True"
| "is_retryable (StartupCrash _ _ _) = True"
| "is_retryable (Disconnected _ _ _) = True"
| "is_retryable (AgentInternal _ _ _) = True"
| "is_retryable (InitTimeout _) = True"
| "is_retryable (RequestTimeout _ _) = True"
| "is_retryable _ = False"

text \<open>
  A reply that says under any name that a session is gone is recognised, unless its code says something else is
  wrong: the sign-in, the syntax of the request, an unknown method.
\<close>

lemma stale_session_recognised:
  assumes "err_data err = Some (JObject m)" "fmlookup m key = Some (JString (''Session not found: '' @ i))"
    and "trim i \<noteq> []"
    and "err_code err \<in> {Code_ResourceNotFound, Code_InvalidParams, Code_InternalError} \<or> (\<exists>n. err_code err = Code_Other n)"
  shows "is_acp_session_not_found (from_sdk parse err ctx)"
proof -
  have "(key, JString (''Session not found: '' @ i)) \<in> set (sorted_list_of_fmap m)"
    using assms(2) map_of_SomeD [of "sorted_list_of_fmap m" key] by simp
  moreover have "stale_session_of (''Session not found: '' @ i) = Some (trim i)"
    using assms(3) by (simp add: stale_session_of_def strip_prefix_def)
  ultimately have "find_map (\<lambda>(key, x). Option.bind (json_as_str x) stale_session_of) (sorted_list_of_fmap m) \<noteq> None"
    unfolding find_map_None_iff by (metis (no_types, lifting) bind.bind_lunit case_prod_conv json_as_str.simps(1) option.distinct(1))
  then have "extract_session_not_found parse (err_data err) \<noteq> None"
    using assms(1) by (simp add: extract_session_not_found_def payload_object_def)
  then have "is_acp_session_not_found (or_stale parse err other)" for other
    by (auto simp: or_stale_def)
  then show ?thesis using assms(4) by (auto simp: from_sdk_def)
qed

end
