(* ===== verification/Acp_Reports.thy ===== *)
theory Acp_Reports
  imports Acp_Session
begin

text \<open>
  What the events of a session say. The report of a session is what the agent was last seen to have: mode,
  model, configuration values and context usage. Every operation of the aggregate appends events, and following
  them takes the report it had to the report it has: nothing the agent reported is left out of the events.
\<close>

section \<open>Reports and the events that change them\<close>

record 't report =
  rep_mode :: "string option"
  rep_model :: "string option"
  rep_config :: "string \<rightharpoonup> string"
  rep_usage :: "'t option"

definition session_report :: "'t acp_session \<Rightarrow> 't report" where
  "session_report s =
    \<lparr>rep_mode = seen_mode (observed s), rep_model = seen_model (observed s),
     rep_config = map_of (config_current (observed s)), rep_usage = adv_usage (advertised s)\<rparr>"

fun follow_report :: "'t acp_session_event \<Rightarrow> 't report \<Rightarrow> 't report" where
  "follow_report (ObservedModeSynced mode) r = r\<lparr>rep_mode := Some mode\<rparr>"
| "follow_report (ObservedModelSynced model) r = r\<lparr>rep_model := Some model\<rparr>"
| "follow_report (ObservedConfigSynced selections) r = r\<lparr>rep_config := map_of selections\<rparr>"
| "follow_report (ObservedContextUsageChanged usage) r = r\<lparr>rep_usage := Some usage\<rparr>"
| "follow_report _ r = r"

text \<open>The session id the events leave assigned.\<close>

fun follow_id :: "'t acp_session_event \<Rightarrow> string option \<Rightarrow> string option" where
  "follow_id (SessionAssigned i) x = Some i"
| "follow_id _ x = x"

fun reports_usage :: "'t acp_session_event \<Rightarrow> 't set" where
  "reports_usage (ObservedContextUsageChanged usage) = {usage}"
| "reports_usage _ = {}"

text \<open>An event that says the agent's mode, model or usage is another one says so only when it is.\<close>

definition is_news :: "'t acp_session_event \<Rightarrow> 't report \<Rightarrow> bool" where
  "is_news e r \<longleftrightarrow>
    (case e of
       ObservedModeSynced mode \<Rightarrow> rep_mode r \<noteq> Some mode
     | ObservedModelSynced model \<Rightarrow> rep_model r \<noteq> Some model
     | ObservedContextUsageChanged usage \<Rightarrow> rep_usage r \<noteq> Some usage
     | _ \<Rightarrow> True)"

fun all_news :: "'t acp_session_event list \<Rightarrow> 't report \<Rightarrow> bool" where
  "all_news [] r = True"
| "all_news (e # es) r = (is_news e r \<and> all_news es (follow_report e r))"

lemma all_news_append: "all_news (xs @ ys) r \<longleftrightarrow> all_news xs r \<and> all_news ys (fold follow_report xs r)"
  by (induction xs arbitrary: r) auto


section \<open>Every operation tells what it changed\<close>

datatype 't session_call =
    Call_TryLease
  | Call_DropLease
  | Call_SetSessionId string
  | Call_ClearSessionId
  | Call_RecordClose "close_reason option"
  | Call_TakeClose
  | Call_MarkOpened
  | Call_MarkPrelude
  | Call_TakePrelude
  | Call_DesiredMode string
  | Call_DesiredModel string
  | Call_ClearMode
  | Call_ClearModel
  | Call_DesiredConfig string string
  | Call_Seed config_category string
  | Call_Resolve "string \<Rightarrow> string list \<Rightarrow> string"
  | Call_ObservedMode string
  | Call_ObservedModel string
  | Call_ConfirmMode string
  | Call_ConfirmModel string
  | Call_ObservedConfig string string
  | Call_Modes session_mode_state
  | Call_Models legacy_session_model_state
  | Call_Options "session_config_option list"
  | Call_Capabilities agent_capabilities
  | Call_Auth "json list"
  | Call_Commands "json list"
  | Call_Usage 't
  | Call_Catalogs "session_mode_state option" "legacy_session_model_state option"

fun session_call_effect :: "'t session_call \<Rightarrow> 't acp_session \<Rightarrow> 't acp_session" where
  "session_call_effect Call_TryLease s = snd (try_begin_config_set s)"
| "session_call_effect Call_DropLease s = drop_config_guard s"
| "session_call_effect (Call_SetSessionId i) s = set_session_id i s"
| "session_call_effect Call_ClearSessionId s = clear_session_id s"
| "session_call_effect (Call_RecordClose reason) s = record_close_reason reason s"
| "session_call_effect Call_TakeClose s = snd (take_close_reason s)"
| "session_call_effect Call_MarkOpened s = mark_opened s"
| "session_call_effect Call_MarkPrelude s = mark_pending_session_new_prelude s"
| "session_call_effect Call_TakePrelude s = snd (take_pending_session_new_prelude s)"
| "session_call_effect (Call_DesiredMode mode) s = snd (set_desired_mode mode s)"
| "session_call_effect (Call_DesiredModel model) s = snd (set_desired_model model s)"
| "session_call_effect Call_ClearMode s = snd (clear_invalid_desired_mode s)"
| "session_call_effect Call_ClearModel s = snd (clear_invalid_desired_model s)"
| "session_call_effect (Call_DesiredConfig key value) s = set_desired_config key value s"
| "session_call_effect (Call_Seed category value) s = seed_pending_startup_config category value s"
| "session_call_effect (Call_Resolve norm) s = snd (resolve_pending_startup_config_seeds_with_mode_normalizer norm s)"
| "session_call_effect (Call_ObservedMode mode) s = apply_observed_mode mode s"
| "session_call_effect (Call_ObservedModel model) s = apply_observed_model model s"
| "session_call_effect (Call_ConfirmMode mode) s = confirm_mode mode s"
| "session_call_effect (Call_ConfirmModel model) s = confirm_model model s"
| "session_call_effect (Call_ObservedConfig key value) s = apply_observed_config key value s"
| "session_call_effect (Call_Modes catalogue) s = apply_advertised_modes catalogue s"
| "session_call_effect (Call_Models catalogue) s = apply_advertised_models catalogue s"
| "session_call_effect (Call_Options options) s = apply_advertised_config_options options s"
| "session_call_effect (Call_Capabilities caps) s = apply_advertised_capabilities caps s"
| "session_call_effect (Call_Auth methods) s = apply_advertised_auth_methods methods s"
| "session_call_effect (Call_Commands commands) s = apply_advertised_commands commands s"
| "session_call_effect (Call_Usage usage) s = apply_context_usage usage s"
| "session_call_effect (Call_Catalogs mode_catalogue model_catalogue) s =
    preload_advertised_catalogs mode_catalogue model_catalogue s"

definition run_session_calls :: "'t session_call list \<Rightarrow> 't acp_session \<Rightarrow> 't acp_session" where
  "run_session_calls calls s = fold session_call_effect calls s"

text \<open>The usage reports a sequence of calls brings.\<close>

definition call_usages :: "'t session_call list \<Rightarrow> 't set" where
  "call_usages calls = {usage. Call_Usage usage \<in> set calls}"

text \<open>
  From one state of the aggregate to another: the events added lead from the one report to the other, repeat
  nothing, leave assigned the id the aggregate has unless it has none, and carry usages of a given set only.
\<close>

definition id_known :: "'t acp_session \<Rightarrow> string option \<Rightarrow> bool" where
  "id_known s i \<longleftrightarrow> sid s = None \<or> i = sid s"

definition tells :: "'t set \<Rightarrow> 't acp_session \<Rightarrow> 't acp_session \<Rightarrow> bool" where
  "tells usages s s' \<longleftrightarrow>
    (\<exists>es. pending_events s' = pending_events s @ es
        \<and> session_report s' = fold follow_report es (session_report s)
        \<and> all_news es (session_report s)
        \<and> (\<forall>i. id_known s i \<longrightarrow> id_known s' (fold follow_id es i))
        \<and> (\<forall>e \<in> set es. reports_usage e \<subseteq> usages))"

lemma tells_quiet:
  "pending_events s' = pending_events s \<Longrightarrow> session_report s' = session_report s \<Longrightarrow> sid s' = sid s \<or> sid s' = None
    \<Longrightarrow> tells usages s s'"
  by (auto simp: tells_def id_known_def)

lemma tells_refl [simp]: "tells usages s s"
  by (simp add: tells_quiet)

lemma tells_trans:
  assumes "tells usages s t" "tells usages t u"
  shows "tells usages s u"
proof -
  obtain es where es: "pending_events t = pending_events s @ es" "session_report t = fold follow_report es (session_report s)"
      "all_news es (session_report s)" "\<forall>e \<in> set es. reports_usage e \<subseteq> usages"
      "\<forall>i. id_known s i \<longrightarrow> id_known t (fold follow_id es i)"
    using assms(1) by (auto simp: tells_def)
  obtain fs where fs: "pending_events u = pending_events t @ fs" "session_report u = fold follow_report fs (session_report t)"
      "all_news fs (session_report t)" "\<forall>e \<in> set fs. reports_usage e \<subseteq> usages"
      "\<forall>i. id_known t i \<longrightarrow> id_known u (fold follow_id fs i)"
    using assms(2) by (auto simp: tells_def)
  show ?thesis
    unfolding tells_def
    by (rule exI [of _ "es @ fs"], use es fs in \<open>auto simp: all_news_append\<close>)
qed

lemma tells_push:
  assumes "pending_events t = pending_events s" "session_report t = follow_report e (session_report s)"
    "is_news e (session_report s)" "\<forall>i. id_known s i \<longrightarrow> id_known t (follow_id e i)"
    "reports_usage e \<subseteq> usages"
  shows "tells usages s (push_event e t)"
  using assms by (auto simp: tells_def push_event_def session_report_def id_known_def intro!: exI [of _ "[e]"])

text \<open>The shape of most operations: an event is pushed when something is other than it was.\<close>

lemma tells_diff:
  assumes "pending_events t = pending_events s" "sid t = sid s" "session_report t = follow_report e (session_report s)"
    "\<not> b \<Longrightarrow> follow_report e (session_report s) = session_report s" "b \<Longrightarrow> is_news e (session_report s)"
    "\<And>i. follow_id e i = i" "reports_usage e \<subseteq> usages"
  shows "tells usages s (if b then push_event e t else t)"
  using assms by (auto simp: id_known_def intro: tells_push tells_quiet)

text \<open>The reports of the operations, from the fields they write.\<close>

lemma report_simps [simp]:
  "session_report (s\<lparr>pending_events := es\<rparr>) = session_report s"
  "session_report (s\<lparr>sid := i\<rparr>) = session_report s"
  "session_report (s\<lparr>opened := b\<rparr>) = session_report s"
  "session_report (s\<lparr>desired := d\<rparr>) = session_report s"
  "session_report (s\<lparr>config_set_in_flight := b\<rparr>) = session_report s"
  "session_report (s\<lparr>pending_session_new_prelude := b\<rparr>) = session_report s"
  "session_report (s\<lparr>last_close_reason := r\<rparr>) = session_report s"
  "session_report (push_event e s) = session_report s"
  by (simp_all add: session_report_def push_event_def)

lemma tells_see_mode: "tells usages s (see_mode mode catalogue s)"
  unfolding see_mode_def Let_def by (rule tells_diff) (simp_all add: is_news_def session_report_def)

lemma tells_see_model: "tells usages s (see_model model catalogue s)"
  unfolding see_model_def Let_def by (rule tells_diff) (simp_all add: is_news_def session_report_def)

lemma tells_set_desired_config: "tells usages s (set_desired_config key value s)"
  unfolding set_desired_config_def Let_def by (rule tells_diff) (simp_all add: is_news_def)

lemma sync_current_unchanged:
  "sync_config_current options current changed = (current', False) \<Longrightarrow> map_of current' = map_of current \<and> \<not> changed"
proof (induction options arbitrary: current changed)
  case (Cons opt options)
  then show ?case
    by (auto split: option.splits simp: map_of_update dest!: Cons.IH)
qed simp

lemma tells_sync:
  assumes "sync_config_current options (config_current (observed s)) False = (current, changed)"
    and "t = on_advertised (adv_options_update (\<lambda>_. Some options)) (on_observed (config_current_update (\<lambda>_. current)) s)"
  shows "tells usages s (if changed then push_event (ObservedConfigSynced current) t else t)"
  unfolding assms(2) using assms(1) sync_current_unchanged [of options "config_current (observed s)" False current]
  by (intro tells_diff) (auto simp: session_report_def is_news_def)

lemma tells_apply_config_options: "tells usages s (apply_advertised_config_options incoming s)"
proof -
  define options where "options = merge_config_options (adv_options (advertised s)) incoming"
  define t where "t = (case derive_modes_from_config_options options of
      Some catalogue \<Rightarrow> apply_advertised_modes catalogue s | None \<Rightarrow> s)"
  define u where "u = (case derive_models_from_config_options options of
      Some catalogue \<Rightarrow> apply_advertised_models (preserve_desired_model_in_catalog t catalogue) t | None \<Rightarrow> t)"
  obtain current changed where sync: "sync_config_current options (config_current (observed u)) False = (current, changed)"
    by fastforce
  have "tells usages s t"
    by (simp add: t_def apply_advertised_modes_def Let_def tells_see_mode split: option.split)
  moreover have "tells usages t u"
    by (simp add: u_def apply_advertised_models_def Let_def tells_see_model split: option.split)
  moreover have "apply_advertised_config_options incoming s =
      (let v = on_advertised (adv_options_update (\<lambda>_. Some options)) (on_observed (config_current_update (\<lambda>_. current)) u)
       in if changed then push_event (ObservedConfigSynced current) v else v)"
    unfolding apply_advertised_config_options_def Let_def options_def [symmetric] t_def [symmetric]
      u_def [symmetric] sync by simp
  ultimately show ?thesis
    using tells_sync [OF sync refl] by (metis (no_types, lifting) tells_trans)
qed

lemma tells_resolve_seed: "tells usages s (snd (resolve_startup_seed norm seed s))"
proof -
  have clear: "tells usages s (clear_legacy_desired_for_config_category c s)" for c
    by (cases c) (simp_all add: clear_legacy_desired_for_config_category_def tells_quiet)
  have seed: "tells usages s (seed_pending_startup_config c v s)" for c v
    by (simp add: seed_pending_startup_config_def tells_quiet)
  have "tells usages s (handle_unresolved_startup_config_seed seed b s)" for b
    using clear seed by (simp add: handle_unresolved_startup_config_seed_def split: config_category.split)
  then show ?thesis
    using tells_trans [OF clear tells_set_desired_config]
    by (auto simp: resolve_startup_seed_def Let_def split: option.split)
qed

lemma tells_resolve_seeds: "tells usages s (snd (resolve_startup_seeds norm seeds s))"
proof (induction seeds arbitrary: s)
  case (Cons seed seeds)
  obtain r t where t: "resolve_startup_seed norm seed s = (r, t)" by fastforce
  have "tells usages s t" using tells_resolve_seed [of usages s norm seed] t by simp
  then show ?case using Cons [of t] t by (auto simp: split_beta intro: tells_trans)
qed simp

lemma tells_call:
  "call_usages [call] \<subseteq> usages \<Longrightarrow> tells usages s (session_call_effect call s)"
proof (cases call)
  case (Call_SetSessionId i)
  then show ?thesis
    by (cases "sid s") (simp_all add: set_session_id_def is_news_def id_known_def tells_push)
next
  case Call_MarkOpened
  then show ?thesis by (cases "opened s") (simp_all add: mark_opened_def is_news_def id_known_def tells_push)
next
  case (Call_DesiredMode mode)
  then show ?thesis by (simp add: set_desired_mode_def is_news_def id_known_def tells_push)
next
  case (Call_DesiredModel model)
  then show ?thesis by (simp add: set_desired_model_def is_news_def id_known_def tells_push)
next
  case (Call_Resolve norm)
  have "tells usages s (on_desired (pending_startup_config_update (\<lambda>_. [])) s)" by (simp add: tells_quiet)
  then show ?thesis
    unfolding Call_Resolve session_call_effect.simps resolve_pending_startup_config_seeds_with_mode_normalizer_def
    by (rule tells_trans [OF _ tells_resolve_seeds])
next
  case (Call_ConfirmMode mode)
  have "tells usages s (on_desired (want_mode_update (\<lambda>_. Some mode)) s)" by (simp add: tells_quiet)
  then show ?thesis
    unfolding Call_ConfirmMode session_call_effect.simps confirm_mode_def apply_observed_mode_def
    by (rule tells_trans [OF _ tells_see_mode])
next
  case (Call_ConfirmModel model)
  have "tells usages s (on_desired (want_model_update (\<lambda>_. Some model)) s)" by (simp add: tells_quiet)
  then show ?thesis
    unfolding Call_ConfirmModel session_call_effect.simps confirm_model_def apply_observed_model_def
    by (rule tells_trans [OF _ tells_see_model])
next
  case (Call_ObservedConfig key v)
  show ?thesis
    unfolding Call_ObservedConfig session_call_effect.simps apply_observed_config_def Let_def
    by (intro tells_diff) (simp_all add: is_news_def session_report_def map_of_update fun_upd_idem)
next
  case (Call_Usage usage)
  assume "call_usages [call] \<subseteq> usages"
  with Call_Usage have "usage \<in> usages" by (simp add: call_usages_def)
  then show ?thesis
    unfolding Call_Usage session_call_effect.simps apply_context_usage_def Let_def
    by (intro tells_diff) (simp_all add: is_news_def session_report_def)
next
  case (Call_Catalogs mode_catalogue model_catalogue)
  then show ?thesis
    by (auto simp: preload_advertised_catalogs_def Let_def session_report_def intro!: tells_quiet split: option.split)
qed (auto simp: try_begin_config_set_def drop_config_guard_def clear_session_id_def record_close_reason_def
    take_close_reason_def mark_pending_session_new_prelude_def take_pending_session_new_prelude_def
    clear_invalid_desired_mode_def clear_invalid_desired_model_def
    seed_pending_startup_config_def apply_observed_mode_def apply_observed_model_def apply_advertised_modes_def
    apply_advertised_models_def apply_advertised_capabilities_def apply_advertised_auth_methods_def
    apply_advertised_commands_def Let_def session_report_def
    intro!: tells_set_desired_config tells_see_mode tells_see_model tells_apply_config_options
    intro: tells_quiet split: option.split)

lemma tells_calls: "call_usages calls \<subseteq> usages \<Longrightarrow> tells usages s (run_session_calls calls s)"
proof (induction calls arbitrary: s)
  case (Cons call calls)
  then have "call_usages [call] \<subseteq> usages" "call_usages calls \<subseteq> usages" by (auto simp: call_usages_def)
  then show ?case
    using tells_call Cons.IH tells_trans by (simp add: run_session_calls_def) blast
qed (simp add: run_session_calls_def)

text \<open>C28: The events of a session tell all it was seen to change. Whatever operations the aggregate goes through, it
  only appends events, and an observer that knew the mode, model, configuration and context usage the agent
  reported before, and follows the appended events, knows those it reported last. No event repeats a mode, a
  model or a usage that was known, and an id the session has at the end is the one last announced.\<close>

theorem events_report_every_change:
  "\<exists>es. pending_events (run_session_calls calls s) = pending_events s @ es
    \<and> session_report (run_session_calls calls s) = fold follow_report es (session_report s)
    \<and> all_news es (session_report s)
    \<and> sid (run_session_calls calls s) \<in> {None, fold follow_id es (sid s)}"
proof -
  have "tells UNIV s (run_session_calls calls s)" by (rule tells_calls) simp
  moreover have "id_known s (sid s)" by (simp add: id_known_def)
  ultimately show ?thesis by (force simp: tells_def id_known_def)
qed

end
