(* ===== verification/Acp_World.thy ===== *)
theory Acp_World
  imports Acp_Error Acp_Reports
begin

text \<open>
  The manager of an ACP agent and what surrounds it: \<open>manager/acp/mode_normalize.rs\<close>,
  \<open>agent_event_tracker.rs\<close> and the parts of \<open>agent.rs\<close> that build the session and open a connection.

  The agent is an environment: what it answers to each request, whether the connection stands each time it is
  looked at, and what the other tasks of the manager do to the session while a request or a pause is under way.
  Each look at the environment takes the next number of a counter, so that a property for all environments is
  one for all answers, failures and interleavings.
\<close>

section \<open>Mode names\<close>

record agent_metadata =
  backend :: "string option"
  yolo_id :: "string option"
  session_load_via_meta_field :: bool

definition is_codex :: "agent_metadata \<Rightarrow> bool" where
  "is_codex metadata \<longleftrightarrow> backend metadata = Some ''codex''"

definition codex_canonical_full_access_mode :: string where
  "codex_canonical_full_access_mode = ''agent-full-access''"

definition codex_legacy_full_access_mode :: string where
  "codex_legacy_full_access_mode = ''full-access''"

definition is_codex_full_access_semantic_value :: "string \<Rightarrow> bool" where
  "is_codex_full_access_semantic_value mode \<longleftrightarrow>
    mode \<in> {codex_canonical_full_access_mode, codex_legacy_full_access_mode, ''yolo'', ''yoloNoSandbox''}"

definition normalize_requested_mode :: "agent_metadata \<Rightarrow> string \<Rightarrow> string" where
  "normalize_requested_mode metadata mode =
    (let trimmed = trim mode in
     if trimmed = [] then []
     else if is_codex metadata \<and> is_codex_full_access_semantic_value trimmed then
       (case yolo_id metadata of Some native \<Rightarrow> native | None \<Rightarrow> codex_canonical_full_access_mode)
     else if trimmed \<in> {''yolo'', ''yoloNoSandbox''} \<and> yolo_id metadata \<noteq> None then the (yolo_id metadata)
     else if is_codex metadata \<and> trimmed \<in> {''default'', ''autoEdit''} then ''auto''
     else trimmed)"

definition normalize_requested_mode_for_available_values :: "agent_metadata \<Rightarrow> string \<Rightarrow> string list \<Rightarrow> string" where
  "normalize_requested_mode_for_available_values metadata mode available =
    (if is_codex metadata \<and> is_codex_full_access_semantic_value (trim mode) then
       (if codex_canonical_full_access_mode \<in> set available then codex_canonical_full_access_mode
        else if codex_legacy_full_access_mode \<in> set available then codex_legacy_full_access_mode
        else normalize_requested_mode metadata mode)
     else normalize_requested_mode metadata mode)"

datatype required_full_auto_mode = Apply_Mode string | Skip_Mode string

definition resolve_required_full_auto_mode :: "agent_metadata \<Rightarrow> string list \<Rightarrow> required_full_auto_mode" where
  "resolve_required_full_auto_mode metadata available =
    (let resolved = normalize_requested_mode_for_available_values metadata ''yolo'' available
     in if resolved \<in> set available then Apply_Mode resolved else Skip_Mode resolved)"


section \<open>What happens to the session while the manager waits\<close>

text \<open>
  The notifications of the agent as the tracker decodes them (\<open>apply_event_to_session\<close>); a payload that does
  not decode is one of the ignored ones.
\<close>

datatype 't session_update =
    ModeState session_mode_state
  | ModeCurrent string
  | ModelState legacy_session_model_state
  | ConfigState "session_config_option list"
  | UsageState 't
  | CommandsState "json list"
  | IgnoredUpdate

fun apply_session_update :: "'t session_update \<Rightarrow> 't acp_session \<Rightarrow> 't acp_session" where
  "apply_session_update (ModeState catalogue) s = apply_advertised_modes catalogue s"
| "apply_session_update (ModeCurrent mode) s = apply_observed_mode mode s"
| "apply_session_update (ModelState catalogue) s = apply_advertised_models catalogue s"
| "apply_session_update (ConfigState options) s = apply_advertised_config_options options s"
| "apply_session_update (UsageState usage) s = apply_context_usage usage s"
| "apply_session_update (CommandsState commands) s = apply_advertised_commands commands s"
| "apply_session_update IgnoredUpdate s = s"

text \<open>
  The other tasks of the manager that write the session at the same time: the tracker of the notifications, and
  any operation of the aggregate another task calls. A guard of the configuration lease is dropped by the task
  that holds it, so another task takes and drops it in one go, and finds it taken when it is.
\<close>

datatype 't interference = Notified "'t session_update" | Elsewhere "'t session_call"

definition lease_attempt :: "'t acp_session \<Rightarrow> 't acp_session" where
  "lease_attempt s = (case try_begin_config_set s of (True, s') \<Rightarrow> drop_config_guard s' | (False, s') \<Rightarrow> s')"

definition elsewhere :: "'t session_call \<Rightarrow> 't acp_session \<Rightarrow> 't acp_session" where
  "elsewhere call s =
    (case call of Call_TryLease \<Rightarrow> lease_attempt s | Call_DropLease \<Rightarrow> s | _ \<Rightarrow> session_call_effect call s)"


section \<open>The agent and the world\<close>

datatype acp_request =
    Rq_New "string option"
  | Rq_Load string
  | Rq_Fork string
  | Rq_SetMode string string
  | Rq_SetModel string string
  | Rq_SetConfig string string string

record session_response =
  rs_session_id :: string
  rs_models :: "legacy_session_model_state option"
  rs_modes :: "session_mode_state option"
  rs_options :: "session_config_option list option"

datatype manager_event =
    Emit_SessionAssigned string
  | Emit_Models legacy_session_model_state
  | Emit_Modes session_mode_state
  | Emit_Options "session_config_option list"
  | Emit_Commands "json list"

record 't agent_env =
  answer_session :: "nat \<Rightarrow> acp_error + session_response"
  answer_config :: "nat \<Rightarrow> acp_error + session_config_option list"
  answer_ack :: "nat \<Rightarrow> acp_error + unit"
  stands :: "nat \<Rightarrow> bool"
  meanwhile :: "nat \<Rightarrow> 't interference list"
  slack :: "nat \<Rightarrow> nat"

record 't acp_world =
  w_session :: "'t acp_session"
  w_sent :: "'t acp_session_event list"
  w_emitted :: "manager_event list"
  w_requests :: "acp_request list"
  w_tick :: nat

definition commit_session_changes :: "'t acp_world \<Rightarrow> 't acp_world" where
  "commit_session_changes w =
    (case drain_events (w_session w) of
       (events, s) \<Rightarrow> w\<lparr>w_session := s, w_sent := w_sent w @ events\<rparr>)"

definition on_session :: "('t acp_session \<Rightarrow> 't acp_session) \<Rightarrow> 't acp_world \<Rightarrow> 't acp_world" where
  "on_session f w = w\<lparr>w_session := f (w_session w)\<rparr>"

definition emit_event :: "manager_event \<Rightarrow> 't acp_world \<Rightarrow> 't acp_world" where
  "emit_event e w = w\<lparr>w_emitted := w_emitted w @ [e]\<rparr>"

text \<open>\<open>apply_event_to_session\<close>: the tracker applies a notification and commits.\<close>

definition apply_event_to_session :: "'t session_update \<Rightarrow> 't acp_world \<Rightarrow> 't acp_world" where
  "apply_event_to_session update w =
    (case update of IgnoredUpdate \<Rightarrow> w | _ \<Rightarrow> commit_session_changes (on_session (apply_session_update update) w))"

text \<open>Another task that leaves its events for the next commit is as good as one that commits them.\<close>

fun interfere_one :: "'t interference \<Rightarrow> 't acp_world \<Rightarrow> 't acp_world" where
  "interfere_one (Notified update) w = apply_event_to_session update w"
| "interfere_one (Elsewhere call) w = commit_session_changes (on_session (elsewhere call) w)"

definition interfere :: "'t interference list \<Rightarrow> 't acp_world \<Rightarrow> 't acp_world" where
  "interfere is w = fold interfere_one is w"

text \<open>A pause: the others run, and the counter moves on.\<close>

definition elapse :: "'t agent_env \<Rightarrow> 't acp_world \<Rightarrow> 't acp_world" where
  "elapse env w = (interfere (meanwhile env (w_tick w)) w)\<lparr>w_tick := Suc (w_tick w)\<rparr>"

text \<open>A request to the agent, with its answer.\<close>

definition ask :: "'t agent_env \<Rightarrow> (nat \<Rightarrow> 'r) \<Rightarrow> acp_request \<Rightarrow> 't acp_world \<Rightarrow> 'r \<times> 't acp_world" where
  "ask env answer request w = (answer (w_tick w), elapse env (w\<lparr>w_requests := w_requests w @ [request]\<rparr>))"

definition is_connected :: "'t agent_env \<Rightarrow> 't acp_world \<Rightarrow> bool \<times> 't acp_world" where
  "is_connected env w = (stands env (w_tick w), w\<lparr>w_tick := Suc (w_tick w)\<rparr>)"

definition ensure_protocol_connected :: "'t agent_env \<Rightarrow> 't acp_world \<Rightarrow> (agent_error + unit) \<times> 't acp_world" where
  "ensure_protocol_connected env w =
    (case is_connected env w of
       (True, w) \<Rightarrow> (Inr (), w) | (False, w) \<Rightarrow> (Inl (AcpFailure NotConnected), w))"

definition emit_snapshot_events :: "'t acp_world \<Rightarrow> 't acp_world" where
  "emit_snapshot_events w =
    (let adv = advertised (w_session w);
         w = (case adv_models adv of Some m \<Rightarrow> emit_event (Emit_Models m) w | None \<Rightarrow> w);
         w = (case adv_modes adv of Some m \<Rightarrow> emit_event (Emit_Modes m) w | None \<Rightarrow> w);
         w = (case adv_options adv of Some options \<Rightarrow> emit_event (Emit_Options options) w | None \<Rightarrow> w)
     in case adv_commands adv of Some commands \<Rightarrow> emit_event (Emit_Commands commands) w | None \<Rightarrow> w)"

end
