(* ===== verification/Acp_Manager.thy ===== *)
theory Acp_Manager
  imports Acp_World
begin

text \<open>
  The operations of the manager of an ACP agent: \<open>manager/acp/agent_reconcile.rs\<close> (making the agent agree with
  what the user wants), \<open>agent_session_flow.rs\<close> (opening, resuming and forking a session) and \<open>agent.rs\<close>
  (setting a configuration option, making sure a session is open, the mode of scheduled turns).
\<close>

section \<open>Parameters\<close>

record 't acp_params =
  metadata :: agent_metadata
  fork_parent :: "string option"
  cfg_session_mode :: "string option"
  cfg_model :: "string option"
  cfg_thought_level :: "string option"
  session_snapshot :: "'t persisted_session_state option"
  handshake_modes :: "session_mode_state option"
  handshake_models :: "legacy_session_model_state option"

section \<open>Reconciling\<close>

definition max_reconcile_actions :: nat where
  "max_reconcile_actions = 8"

text \<open>The part of a round that looks at the aggregate: startup seeds, desired values nobody offers, the plan.\<close>

definition plan_round :: "agent_metadata \<Rightarrow> 't acp_session \<Rightarrow> reconcile_action list \<times> 't acp_session" where
  "plan_round meta s =
    (case resolve_pending_startup_config_seeds_with_mode_normalizer
            (normalize_requested_mode_for_available_values meta) s of
       (results, s) \<Rightarrow> case clear_invalid_desired_mode s of
       (invalid_mode, s) \<Rightarrow> case clear_invalid_desired_model s of
       (invalid_model, s) \<Rightarrow> (plan_reconcile s, s))"

definition selectable_modes :: "'t acp_session \<Rightarrow> string list" where
  "selectable_modes s = selectable_values (session_config_snapshot s) ''mode''"

text \<open>
  The loop, with the number of actions it may still execute. An agent that has lost the session ends it; any
  other failure skips the action. A configuration option that was accepted is followed by a new plan, without
  the action just executed.
\<close>

fun reconcile_loop ::
  "'t agent_env \<Rightarrow> agent_metadata \<Rightarrow> string \<Rightarrow> nat \<Rightarrow> reconcile_action list \<Rightarrow> 't acp_world
    \<Rightarrow> (acp_error + unit) \<times> 't acp_world" where
  "reconcile_loop env meta i n [] w = (Inr (), w)"
| "reconcile_loop env meta i 0 (action # actions) w = (Inr (), w)"
| "reconcile_loop env meta i (Suc n) (SetMode mode # actions) w =
    (let normalized = normalize_requested_mode_for_available_values meta mode (selectable_modes (w_session w)) in
     if normalized = [] then reconcile_loop env meta i n actions w
     else case ask env (answer_ack env) (Rq_SetMode i normalized) w of
       (Inl err, w) \<Rightarrow> if is_acp_session_not_found err then (Inl err, w) else reconcile_loop env meta i n actions w
     | (Inr _, w) \<Rightarrow> reconcile_loop env meta i n actions w)"
| "reconcile_loop env meta i (Suc n) (SetModel model # actions) w =
    (case ask env (answer_ack env) (Rq_SetModel i model) w of
       (Inl err, w) \<Rightarrow> if is_acp_session_not_found err then (Inl err, w) else reconcile_loop env meta i n actions w
     | (Inr _, w) \<Rightarrow> reconcile_loop env meta i n actions w)"
| "reconcile_loop env meta i (Suc n) (SetConfigOption key v # actions) w =
    (let resolved = (if key = ''mode''
           then normalize_requested_mode_for_available_values meta v (selectable_modes (w_session w)) else trim v);
         w = (if key = ''mode'' \<and> resolved \<noteq> v then on_session (set_desired_config key resolved) w else w)
     in case ask env (answer_config env) (Rq_SetConfig i key resolved) w of
       (Inl err, w) \<Rightarrow> if is_acp_session_not_found err then (Inl err, w) else reconcile_loop env meta i n actions w
     | (Inr options, w) \<Rightarrow>
        (case plan_round meta (apply_advertised_config_options options (w_session w)) of
           (followup, s) \<Rightarrow>
             reconcile_loop env meta i n (filter (\<lambda>a. a \<noteq> SetConfigOption key v) followup)
               (commit_session_changes (w\<lparr>w_session := s\<rparr>))))"

definition reconcile_session ::
  "'t agent_env \<Rightarrow> agent_metadata \<Rightarrow> string \<Rightarrow> 't acp_world \<Rightarrow> (acp_error + unit) \<times> 't acp_world" where
  "reconcile_session env meta i w =
    (case plan_round meta (w_session w) of
       (actions, s) \<Rightarrow> reconcile_loop env meta i max_reconcile_actions actions (w\<lparr>w_session := s\<rparr>))"


section \<open>Opening a session\<close>

definition absorb_response :: "session_response \<Rightarrow> 't acp_session \<Rightarrow> 't acp_session" where
  "absorb_response r s =
    (let s = (case rs_models r of Some m \<Rightarrow> apply_advertised_models m s | None \<Rightarrow> s);
         s = (case rs_modes r of Some m \<Rightarrow> apply_advertised_modes m s | None \<Rightarrow> s)
     in case rs_options r of Some options \<Rightarrow> apply_advertised_config_options options s | None \<Rightarrow> s)"

definition open_session_new ::
  "'t agent_env \<Rightarrow> agent_metadata \<Rightarrow> 't acp_world \<Rightarrow> (agent_error + string) \<times> 't acp_world" where
  "open_session_new env meta w =
    (case ask env (answer_session env) (Rq_New None) w of
       (Inl err, w) \<Rightarrow> (Inl (AcpFailure err), w)
     | (Inr r, w) \<Rightarrow>
        (let i = rs_session_id r;
             w = commit_session_changes (on_session
                   (mark_pending_session_new_prelude \<circ> set_session_id i \<circ> absorb_response r) w);
             w = emit_event (Emit_SessionAssigned i) (emit_snapshot_events w)
         in case reconcile_session env meta i w of
              (Inl err, w) \<Rightarrow> (Inl (AcpFailure err), w) | (Inr _, w) \<Rightarrow> (Inr i, w)))"

definition rebuild_after_session_not_found ::
  "'t agent_env \<Rightarrow> agent_metadata \<Rightarrow> 't acp_world \<Rightarrow> (agent_error + string) \<times> 't acp_world" where
  "rebuild_after_session_not_found env meta w =
    open_session_new env meta (commit_session_changes (on_session clear_session_id w))"

text \<open>The way every path but the first ends: reconcile, and rebuild when the agent has lost the session.\<close>

definition reconcile_or_rebuild ::
  "'t agent_env \<Rightarrow> agent_metadata \<Rightarrow> string \<Rightarrow> 't acp_world \<Rightarrow> (agent_error + string) \<times> 't acp_world" where
  "reconcile_or_rebuild env meta i w =
    (case reconcile_session env meta i w of
       (Inr _, w) \<Rightarrow> (Inr i, w)
     | (Inl err, w) \<Rightarrow>
        if is_acp_session_not_found err then rebuild_after_session_not_found env meta w
        else (Inl (AcpFailure err), w))"

definition resume_by_meta ::
  "'t agent_env \<Rightarrow> agent_metadata \<Rightarrow> string \<Rightarrow> 't acp_world \<Rightarrow> (agent_error + string) \<times> 't acp_world" where
  "resume_by_meta env meta i w =
    (case ask env (answer_session env) (Rq_New (Some i)) w of
       (Inl err, w) \<Rightarrow>
         if is_missing_resumed_session err i then rebuild_after_session_not_found env meta w
         else (Inl (AcpFailure err), w)
     | (Inr r, w) \<Rightarrow>
        (let new_id = rs_session_id r;
             w = commit_session_changes (on_session (set_session_id new_id \<circ> absorb_response r) w);
             w = emit_snapshot_events w;
             w = (if new_id \<noteq> i then emit_event (Emit_SessionAssigned new_id) w else w)
         in reconcile_or_rebuild env meta new_id w))"

text \<open>The mode the table restored wins over the one \<open>session/load\<close> reports.\<close>

definition resume_by_load ::
  "'t agent_env \<Rightarrow> agent_metadata \<Rightarrow> string \<Rightarrow> string option \<Rightarrow> 't acp_world \<Rightarrow> (agent_error + string) \<times> 't acp_world" where
  "resume_by_load env meta i preloaded_mode w =
    (case ask env (answer_session env) (Rq_Load i) w of
       (Inl err, w) \<Rightarrow>
         if is_acp_session_not_found err then rebuild_after_session_not_found env meta w
         else (Inl (AcpFailure err), w)
     | (Inr r, w) \<Rightarrow>
        (let r = (case preloaded_mode of
                    Some mode \<Rightarrow> r\<lparr>rs_modes := map_option (current_mode_id_update (\<lambda>_. mode)) (rs_modes r)\<rparr> | None \<Rightarrow> r);
             w = commit_session_changes (on_session (set_session_id i \<circ> absorb_response r) w)
         in reconcile_or_rebuild env meta i (emit_snapshot_events w)))"

definition resume_blindly ::
  "'t agent_env \<Rightarrow> agent_metadata \<Rightarrow> string \<Rightarrow> 't acp_world \<Rightarrow> (agent_error + string) \<times> 't acp_world" where
  "resume_blindly env meta i w =
    reconcile_or_rebuild env meta i
      (emit_snapshot_events (commit_session_changes (on_session (set_session_id i) w)))"

definition open_session_resume ::
  "'t agent_env \<Rightarrow> agent_metadata \<Rightarrow> string \<Rightarrow> 't acp_world \<Rightarrow> (agent_error + string) \<times> 't acp_world" where
  "open_session_resume env meta i w =
    (if session_load_via_meta_field meta then resume_by_meta env meta i w
     else if (case adv_capabilities (advertised (w_session w)) of Some c \<Rightarrow> load_session c | None \<Rightarrow> False)
     then resume_by_load env meta i (map_option current_mode_id (adv_modes (advertised (w_session w)))) w
     else resume_blindly env meta i w)"

definition open_session_fork ::
  "'t agent_env \<Rightarrow> agent_metadata \<Rightarrow> string \<Rightarrow> 't acp_world \<Rightarrow> (agent_error + string) \<times> 't acp_world" where
  "open_session_fork env meta parent w =
    (if \<not> (case adv_capabilities (advertised (w_session w)) of Some c \<Rightarrow> fork_session c | None \<Rightarrow> False)
     then (Inl (Conflict ''agent does not advertise session/fork''), w)
     else case ask env (answer_session env) (Rq_Fork parent) w of
       (Inl err, w) \<Rightarrow>
         if is_acp_session_not_found err
         then (Inl (NotFound ''session/fork: the parent session is gone on the agent side''), w)
         else (Inl (AcpFailure err), w)
     | (Inr r, w) \<Rightarrow>
        (let new_id = rs_session_id r;
             w = commit_session_changes (on_session (set_session_id new_id \<circ> absorb_response (r\<lparr>rs_models := None\<rparr>)) w);
             w = emit_event (Emit_SessionAssigned new_id) (emit_snapshot_events w)
         in reconcile_or_rebuild env meta new_id w))"

text \<open>The call holds the session lock: no other opening of the session runs beside it.\<close>

definition ensure_session_opened ::
  "'t agent_env \<Rightarrow> 't acp_params \<Rightarrow> 't acp_world \<Rightarrow> (agent_error + string) \<times> 't acp_world" where
  "ensure_session_opened env params w =
    (case ensure_protocol_connected env w of
       (Inl err, w) \<Rightarrow> (Inl err, w)
     | (Inr _, w) \<Rightarrow>
        (case (case (sid (w_session w), opened (w_session w)) of
                 (None, _) \<Rightarrow>
                   (case fork_parent params of
                      Some parent \<Rightarrow> open_session_fork env (metadata params) parent w
                    | None \<Rightarrow> open_session_new env (metadata params) w)
               | (Some i, False) \<Rightarrow> open_session_resume env (metadata params) i w
               | (Some i, True) \<Rightarrow> (Inr i, w)) of
           (Inl err, w) \<Rightarrow> (Inl err, w)
         | (Inr i, w) \<Rightarrow>
            (case is_connected env w of
               (False, w) \<Rightarrow> (Inl (AcpFailure NotConnected), w)
             | (True, w) \<Rightarrow> (Inr i, commit_session_changes (on_session mark_opened w)))))"

end
