(* ===== verification/Acp_Config.thy ===== *)
theory Acp_Config
  imports Acp_Manager
begin

text \<open>
  Setting a configuration option and starting a manager: the rest of \<open>manager/acp/agent.rs\<close>. A command of the
  user takes the configuration lease, sends one request, and answers only when the session itself reports the
  value; building a manager seeds the aggregate from what was persisted and from the configuration of the
  conversation.
\<close>

section \<open>Setting an option\<close>

definition normalize_config_option_request_value :: "agent_metadata \<Rightarrow> config_snapshot \<Rightarrow> string \<Rightarrow> string \<Rightarrow> string" where
  "normalize_config_option_request_value meta snapshot option_id v =
    (if option_id = ''mode''
     then normalize_requested_mode_for_available_values meta (trim v) (selectable_values snapshot ''mode'')
     else trim v)"

definition set_path_error :: "string \<Rightarrow> string \<Rightarrow> config_set_path_error \<Rightarrow> agent_error" where
  "set_path_error option_id resolved err =
    (case err of
       OptionNotFound \<Rightarrow> BadRequest (''Config option '' @ option_id @ '' is not available'')
     | ValueNotSelectable \<Rightarrow>
         BadRequest (''Value '' @ resolved @ '' is not selectable for config option '' @ option_id))"

text \<open>The loop that waits for the session to report the value: a look every 50 ms, for at most 10 s.\<close>

definition observed_confirmation_timeout :: nat where
  "observed_confirmation_timeout = 10000"

text \<open>A pause lasts 50 ms or longer: the time gone at a look is what the pauses add up to, and some more.\<close>

definition elapsed :: "'t agent_env \<Rightarrow> nat \<Rightarrow> 't acp_world \<Rightarrow> nat" where
  "elapsed env k w = 50 * k + slack env (w_tick w)"

function wait_for_observed ::
  "'t agent_env \<Rightarrow> string \<Rightarrow> string \<Rightarrow> nat \<Rightarrow> 't acp_world \<Rightarrow> (agent_error + config_snapshot) \<times> 't acp_world" where
  "wait_for_observed env option_id requested k w =
    (let snapshot = session_config_snapshot (w_session w) in
     if observed_matches snapshot option_id requested then (Inr snapshot, w)
     else if observed_confirmation_timeout \<le> elapsed env k w
     then (Inl (Timeout ''ACP config option confirmation timed out''), w)
     else wait_for_observed env option_id requested (Suc k) (elapse env w))"
  by pat_completeness auto

termination wait_for_observed
  by (relation "measure (\<lambda>(env, option_id, requested, k, w). 200 - k)")
    (auto simp: elapsed_def observed_confirmation_timeout_def)

definition session_changed :: agent_error where
  "session_changed = Conflict ''Active ACP session changed while applying config option''"

definition apply_legacy_config_ack ::
  "string \<Rightarrow> config_set_path \<Rightarrow> string \<Rightarrow> 't acp_world \<Rightarrow> (agent_error + config_snapshot) \<times> 't acp_world" where
  "apply_legacy_config_ack i path resolved w =
    (if sid (w_session w) \<noteq> Some i then (Inl session_changed, w)
     else case path of
       Path_ConfigOption option_id \<Rightarrow> (Inl (Conflict ''apply_legacy_config_ack invoked for a non-legacy set path''), w)
     | Path_LegacyMode \<Rightarrow>
        (let w = on_session (confirm_mode resolved) w
         in (Inr (session_config_snapshot (w_session w)), commit_session_changes w))
     | Path_LegacyModel \<Rightarrow>
        (let w = on_session (confirm_model resolved) w
         in (Inr (session_config_snapshot (w_session w)), commit_session_changes w)))"

text \<open>The request a path stands for, and what follows its acknowledgement.\<close>

definition apply_set_path ::
  "'t agent_env \<Rightarrow> config_set_path \<Rightarrow> string \<Rightarrow> string \<Rightarrow> 't acp_world \<Rightarrow> (agent_error + config_snapshot) \<times> 't acp_world" where
  "apply_set_path env path i resolved w =
    (case path of
       Path_ConfigOption config_id \<Rightarrow>
        (case ask env (answer_config env) (Rq_SetConfig i config_id resolved) w of
           (Inl err, w) \<Rightarrow> (Inl (AcpFailure err), w)
         | (Inr options, w) \<Rightarrow>
             if sid (w_session w) \<noteq> Some i then (Inl session_changed, w)
             else wait_for_observed env config_id resolved 0
                    (commit_session_changes (on_session (apply_advertised_config_options options) w)))
     | Path_LegacyMode \<Rightarrow>
        (case ask env (answer_ack env) (Rq_SetMode i resolved) w of
           (Inl err, w) \<Rightarrow> (Inl (AcpFailure err), w) | (Inr _, w) \<Rightarrow> apply_legacy_config_ack i path resolved w)
     | Path_LegacyModel \<Rightarrow>
        (case ask env (answer_ack env) (Rq_SetModel i resolved) w of
           (Inl err, w) \<Rightarrow> (Inl (AcpFailure err), w) | (Inr _, w) \<Rightarrow> apply_legacy_config_ack i path resolved w))"

definition set_config_option_confirmed_inner ::
  "'t agent_env \<Rightarrow> agent_metadata \<Rightarrow> string \<Rightarrow> string \<Rightarrow> 't acp_world
    \<Rightarrow> (agent_error + config_option_dto list) \<times> 't acp_world" where
  "set_config_option_confirmed_inner env meta option_id v w =
    (case ensure_protocol_connected env w of
       (Inl err, w) \<Rightarrow> (Inl err, w)
     | (Inr _, w) \<Rightarrow>
        (let snapshot = session_config_snapshot (w_session w);
             resolved = normalize_config_option_request_value meta snapshot option_id v
         in case resolve_set_path snapshot option_id resolved of
              Inl err \<Rightarrow> (Inl (set_path_error option_id resolved err), w)
            | Inr path \<Rightarrow>
               (case sid (w_session w) of
                  None \<Rightarrow> (Inl (BadRequest ''No active session''), w)
                | Some i \<Rightarrow>
                   (case apply_set_path env path i resolved w of
                      (Inl err, w) \<Rightarrow> (Inl err, w)
                    | (Inr confirmed, w) \<Rightarrow> (Inr (snap_options confirmed), w)))))"

definition set_config_option_confirmed ::
  "'t agent_env \<Rightarrow> agent_metadata \<Rightarrow> string \<Rightarrow> string \<Rightarrow> 't acp_world
    \<Rightarrow> (agent_error + config_option_dto list) \<times> 't acp_world" where
  "set_config_option_confirmed env meta option_id v w =
    (if trim option_id = [] then (Inl (BadRequest ''option_id must not be empty''), w)
     else if trim v = [] then (Inl (BadRequest ''value must not be empty''), w)
     else case try_begin_config_set (w_session w) of
       (False, s) \<Rightarrow> (Inl (Conflict ''ACP config update is already in progress''), w)
     | (True, s) \<Rightarrow>
        (case set_config_option_confirmed_inner env meta (trim option_id) (trim v) (w\<lparr>w_session := s\<rparr>) of
           (result, w) \<Rightarrow> (result, on_session drop_config_guard w)))"


section \<open>The mode of a scheduled turn\<close>

datatype required_full_auto_application = Mode_Applied string | Mode_Skipped string

definition live_mode_catalog_ids :: "'t acp_world \<Rightarrow> string list" where
  "live_mode_catalog_ids w =
    (case find (\<lambda>opt. opt_id opt = ''mode'') (snap_options (session_config_snapshot (w_session w))) of
       Some opt \<Rightarrow> map sel_value (opt_options opt) | None \<Rightarrow> [])"

text \<open>Reading the catalogue cannot fail, so the branch for a failed read is not reached.\<close>

definition apply_required_full_auto_mode ::
  "'t agent_env \<Rightarrow> agent_metadata \<Rightarrow> 't acp_world \<Rightarrow> (agent_error + required_full_auto_application) \<times> 't acp_world" where
  "apply_required_full_auto_mode env meta w =
    (case resolve_required_full_auto_mode meta (live_mode_catalog_ids w) of
       Apply_Mode mode \<Rightarrow>
        (case set_config_option_confirmed env meta ''mode'' mode w of
           (Inl err, w) \<Rightarrow> (Inl err, w) | (Inr _, w) \<Rightarrow> (Inr (Mode_Applied mode), w))
     | Skip_Mode resolved \<Rightarrow> (Inr (Mode_Skipped resolved), w))"


section \<open>Building a manager\<close>

definition initial_mode_from_params :: "'t acp_params \<Rightarrow> string option" where
  "initial_mode_from_params params =
    (case (case Option.bind (session_snapshot params) kept_mode of
             Some mode \<Rightarrow> Some (normalize_requested_mode (metadata params) mode)
           | None \<Rightarrow> map_option (normalize_requested_mode (metadata params)) (cfg_session_mode params)) of
       Some mode \<Rightarrow> if mode = [] then None else Some mode
     | None \<Rightarrow> None)"

definition initial_model_from_params :: "'t acp_params \<Rightarrow> string option" where
  "initial_model_from_params params =
    (case Option.bind (session_snapshot params) kept_model of
       Some model \<Rightarrow> Some model
     | None \<Rightarrow> (case cfg_model params of Some model \<Rightarrow> if model = [] then None else Some model | None \<Rightarrow> None))"

fun persisted_keys_of :: "config_category \<Rightarrow> string list" where
  "persisted_keys_of Category_Mode = [''mode'']"
| "persisted_keys_of Category_Model = [''model'']"
| "persisted_keys_of Category_ThoughtLevel =
    [''thought_level'', ''reasoning_effort'', ''effort'', ''thinking_budget'', ''thinking'']"
| "persisted_keys_of (Category_Other name) = []"

definition has_persisted_config_for_category :: "(string, string) hashmap \<Rightarrow> config_category \<Rightarrow> bool" where
  "has_persisted_config_for_category initial category \<longleftrightarrow>
    list_ex (\<lambda>key. key \<in> set (persisted_keys_of category)) (keys initial)"

definition seed_preference ::
  "(string, string) hashmap \<Rightarrow> config_category \<Rightarrow> string option \<Rightarrow> 't acp_session \<Rightarrow> 't acp_session" where
  "seed_preference initial category preference s =
    (case map_option trim preference of
       None \<Rightarrow> s
     | Some v \<Rightarrow>
         if v = [] \<or> has_persisted_config_for_category initial category then s
         else seed_pending_startup_config category v s)"

definition seed_startup_config_preferences ::
  "'t acp_params \<Rightarrow> (string, string) hashmap \<Rightarrow> 't acp_session \<Rightarrow> 't acp_session" where
  "seed_startup_config_preferences params initial =
    seed_preference initial Category_ThoughtLevel (cfg_thought_level params)
      \<circ> seed_preference initial Category_Model (cfg_model params)
      \<circ> seed_preference initial Category_Mode (cfg_session_mode params)"

text \<open>\<open>new\<close>: the aggregate a manager starts with.\<close>

definition manager_new :: "'t acp_params \<Rightarrow> 't acp_session" where
  "manager_new params =
    (let initial = (case session_snapshot params of Some st \<Rightarrow> kept_selections st | None \<Rightarrow> [])
     in seed_startup_config_preferences params initial
          (preload_advertised_catalogs (handshake_modes params) (handshake_models params)
            (acp_session_new (initial_mode_from_params params) (initial_model_from_params params) initial)))"

text \<open>\<open>init\<close>: the persisted report is preloaded without events, then what the agent said of itself.\<close>

definition manager_init :: "'t acp_params \<Rightarrow> agent_capabilities option \<Rightarrow> json list option \<Rightarrow> 't acp_session \<Rightarrow> 't acp_session" where
  "manager_init params caps methods s =
    (let s = (case session_snapshot params of
                Some st \<Rightarrow> snd (drain_events (preload_persisted st s)) | None \<Rightarrow> s);
         s = (case caps of Some c \<Rightarrow> apply_advertised_capabilities c s | None \<Rightarrow> s)
     in case methods of Some m \<Rightarrow> apply_advertised_auth_methods m s | None \<Rightarrow> s)"

text \<open>\<open>set_session_id\<close> of the manager: the id the table kept is restored without an event.\<close>

definition manager_set_session_id :: "string \<Rightarrow> 't acp_session \<Rightarrow> 't acp_session" where
  "manager_set_session_id i s = snd (drain_events (set_session_id i s))"

definition mode_response :: "agent_metadata \<Rightarrow> 't acp_session \<Rightarrow> string \<times> bool" where
  "mode_response meta s =
    ((case adv_modes (advertised s) of
        Some m \<Rightarrow> current_mode_id m
      | None \<Rightarrow> (case map_option (normalize_requested_mode meta) (want_mode (desired s)) of
           Some mode \<Rightarrow> if mode = [] then normalize_requested_mode meta ''default'' else mode
         | None \<Rightarrow> normalize_requested_mode meta ''default'')),
     sid s \<noteq> None)"

end
