(* ===== verification/Acp_Frames.thy ===== *)
theory Acp_Frames
  imports Acp_Config
begin

text \<open>
  What the manager leaves alone while it waits and reconciles. A part of the session that the operations do not
  write (the locale \<open>session_part\<close>) survives requests, pauses, the interference of other tasks and a whole
  reconciliation; the configuration lease and the session id are two such parts. The requests sent on the way are
  counted and named.
\<close>

section \<open>Operations as calls\<close>

fun special_call :: "'t session_call \<Rightarrow> bool" where
  "special_call Call_TryLease = True"
| "special_call Call_DropLease = True"
| "special_call (Call_SetSessionId i) = True"
| "special_call Call_ClearSessionId = True"
| "special_call _ = False"

fun id_call :: "'t session_call \<Rightarrow> bool" where
  "id_call (Call_SetSessionId i) = True"
| "id_call Call_ClearSessionId = True"
| "id_call _ = False"

lemma update_call: "update = IgnoredUpdate \<or> (\<exists>call. \<not> special_call call \<and> (\<forall>s. apply_session_update update s = session_call_effect call s))"
proof (cases update)
  case (ModeState c) then show ?thesis by (intro disjI2 exI [of _ "Call_Modes c"]) simp
next
  case (ModeCurrent c) then show ?thesis by (intro disjI2 exI [of _ "Call_ObservedMode c"]) simp
next
  case (ModelState c) then show ?thesis by (intro disjI2 exI [of _ "Call_Models c"]) simp
next
  case (ConfigState c) then show ?thesis by (intro disjI2 exI [of _ "Call_Options c"]) simp
next
  case (UsageState c) then show ?thesis by (intro disjI2 exI [of _ "Call_Usage c"]) simp
next
  case (CommandsState c) then show ?thesis by (intro disjI2 exI [of _ "Call_Commands c"]) simp
qed simp

lemma plan_round_calls:
  "snd (plan_round meta s) = session_call_effect Call_ClearModel (session_call_effect Call_ClearMode
     (session_call_effect (Call_Resolve (normalize_requested_mode_for_available_values meta)) s))"
  "fst (plan_round meta s) = plan_reconcile (snd (plan_round meta s))"
  by (simp_all add: plan_round_def split_beta)


section \<open>Parts that survive\<close>

text \<open>No other task makes one of the given calls while the manager waits.\<close>

definition undisturbed :: "('t session_call \<Rightarrow> bool) \<Rightarrow> 't agent_env \<Rightarrow> bool" where
  "undisturbed disturbing env \<longleftrightarrow> (\<forall>n call. Elsewhere call \<in> set (meanwhile env n) \<longrightarrow> \<not> disturbing call)"

locale session_part =
  fixes part :: "'t acp_session \<Rightarrow> 'a" and disturbing :: "'t session_call \<Rightarrow> bool"
  assumes effect: "\<not> special_call call \<Longrightarrow> part (session_call_effect call s) = part s"
    and drained: "part (s\<lparr>pending_events := es\<rparr>) = part s"
    and others: "\<not> disturbing call \<Longrightarrow> part (elsewhere call s) = part s"
begin

lemma part_commit [simp]: "part (w_session (commit_session_changes w)) = part (w_session w)"
  by (simp add: commit_session_changes_def drain_events_def drained)

lemma part_update: "part (apply_session_update update s) = part s"
  using update_call [of update] effect by (metis apply_session_update.simps(7))

lemma part_event [simp]: "part (w_session (apply_event_to_session update w)) = part (w_session w)"
  by (auto simp: apply_event_to_session_def on_session_def part_update split: session_update.split
      simp del: apply_session_update.simps)

lemma part_interfere:
  "\<forall>call. Elsewhere call \<in> set is \<longrightarrow> \<not> disturbing call \<Longrightarrow> part (w_session (interfere is w)) = part (w_session w)"
proof (induction "is" arbitrary: w)
  case (Cons x xs)
  have "part (w_session (interfere_one x w)) = part (w_session w)"
    using Cons.prems by (cases x) (simp_all add: on_session_def others)
  then show ?case using Cons.IH [of "interfere_one x w"] Cons.prems by (simp add: interfere_def)
qed (simp add: interfere_def)

lemma part_pass: "undisturbed disturbing env \<Longrightarrow> part (w_session (elapse env w)) = part (w_session w)"
  by (simp add: elapse_def undisturbed_def part_interfere)

lemma part_ask: "undisturbed disturbing env \<Longrightarrow> ask env answer request w = (r, w') \<Longrightarrow> part (w_session w') = part (w_session w)"
  by (auto simp: ask_def part_pass)

lemma part_plan: "part (snd (plan_round meta s)) = part s"
  by (simp add: plan_round_calls effect del: session_call_effect.simps)

lemma part_reconcile_loop:
  "undisturbed disturbing env \<Longrightarrow> reconcile_loop env meta i n actions w = (r, w') \<Longrightarrow> part (w_session w') = part (w_session w)"
proof (induction env meta i n actions w arbitrary: r w' rule: reconcile_loop.induct)
  case (3 env meta i n mode actions w)
  show ?case
  proof (cases "normalize_requested_mode_for_available_values meta mode (selectable_modes (w_session w)) = []")
    case True
    then show ?thesis using 3 by simp
  next
    case False
    then show ?thesis
      using "3.prems" "3.IH"(2,3) part_ask by (auto simp: Let_def split: prod.splits sum.splits if_splits)
  qed
next
  case (4 env meta i n model actions w)
  then show ?case
    using part_ask by (auto split: prod.splits sum.splits if_splits)
next
  case (5 env meta i n key v actions w)
  let ?resolved = "if key = ''mode''
    then normalize_requested_mode_for_available_values meta v (selectable_modes (w_session w)) else trim v"
  let ?w = "if key = ''mode'' \<and> ?resolved \<noteq> v then on_session (set_desired_config key ?resolved) w else w"
  have "part (set_desired_config k x s) = part s" for k x s
    using effect [of "Call_DesiredConfig k x"] by simp
  then have start: "part (w_session ?w) = part (w_session w)" by (simp add: on_session_def)
  obtain a w1 where ask: "ask env (answer_config env) (Rq_SetConfig i key ?resolved) ?w = (a, w1)" by fastforce
  note asked = part_ask [OF "5.prems"(1) ask]
  show ?case
  proof (cases a)
    case (Inl err)
    then show ?thesis
      using "5.prems" "5.IH"(1) ask asked start by (auto simp: Let_def split: if_splits)
  next
    case (Inr options)
    let ?s = "apply_advertised_config_options options (w_session w1)"
    obtain followup s where plan: "plan_round meta ?s = (followup, s)" by fastforce
    have "part s = part ?s" using part_plan [of meta ?s] plan by simp
    also have "\<dots> = part (w_session w1)" using effect [of "Call_Options options"] by simp
    finally have "part (w_session w') = part (w_session w1)"
      using "5.prems" "5.IH"(2) ask Inr plan by (simp add: Let_def)
    then show ?thesis using asked start by simp
  qed
qed auto

lemma part_reconcile:
  "undisturbed disturbing env \<Longrightarrow> reconcile_session env meta i w = (r, w') \<Longrightarrow> part (w_session w') = part (w_session w)"
  using part_reconcile_loop part_plan [of meta "w_session w"]
  by (fastforce simp: reconcile_session_def split: prod.splits)

end

section \<open>The lease and the session id are such parts\<close>

definition same_frame :: "'t acp_session \<Rightarrow> 't acp_session \<Rightarrow> bool" where
  "same_frame s s' \<longleftrightarrow> sid s' = sid s \<and> config_set_in_flight s' = config_set_in_flight s"

lemma frame_trans: "same_frame s t \<Longrightarrow> same_frame t u \<Longrightarrow> same_frame s u"
  by (simp add: same_frame_def)

lemma frame_resolve_seed: "same_frame s (snd (resolve_startup_seed norm seed s))"
  by (auto simp: same_frame_def resolve_startup_seed_def handle_unresolved_startup_config_seed_def
      clear_legacy_desired_for_config_category_def seed_pending_startup_config_def set_desired_config_def
      push_event_def Let_def split: option.split config_category.split)

lemma frame_resolve_seeds: "same_frame s (snd (resolve_startup_seeds norm seeds s))"
proof (induction seeds arbitrary: s)
  case (Cons seed seeds)
  obtain r t where t: "resolve_startup_seed norm seed s = (r, t)" by fastforce
  have "same_frame s t" using frame_resolve_seed [of s norm seed] t by simp
  then show ?case using Cons [of t] t by (auto simp: split_beta intro: frame_trans)
qed (simp add: same_frame_def)

lemma frame_config_options: "same_frame s (apply_advertised_config_options incoming s)"
  by (auto simp: same_frame_def apply_advertised_config_options_def apply_advertised_modes_def
      apply_advertised_models_def see_mode_def see_model_def push_event_def Let_def split_beta split: option.split)

lemma frame_call: "\<not> special_call call \<Longrightarrow> same_frame s (session_call_effect call s)"
proof (cases call)
  case (Call_Resolve norm)
  have "same_frame s (on_desired (pending_startup_config_update (\<lambda>_. [])) s)" by (simp add: same_frame_def)
  then show ?thesis
    unfolding Call_Resolve session_call_effect.simps resolve_pending_startup_config_seeds_with_mode_normalizer_def
    by (rule frame_trans [OF _ frame_resolve_seeds])
next
  case (Call_Options options)
  then show ?thesis by (simp add: frame_config_options)
qed (auto simp: same_frame_def record_close_reason_def take_close_reason_def mark_opened_def
    mark_pending_session_new_prelude_def take_pending_session_new_prelude_def set_desired_mode_def set_desired_model_def
    clear_invalid_desired_mode_def clear_invalid_desired_model_def set_desired_config_def seed_pending_startup_config_def
    apply_observed_mode_def apply_observed_model_def confirm_mode_def confirm_model_def apply_observed_config_def
    apply_advertised_modes_def apply_advertised_models_def see_mode_def see_model_def apply_advertised_capabilities_def
    apply_advertised_auth_methods_def apply_advertised_commands_def apply_context_usage_def
    preload_advertised_catalogs_def push_event_def Let_def split: option.split)

lemma lease_elsewhere: "config_set_in_flight (elsewhere call s) = config_set_in_flight s"
proof (cases "special_call call")
  case True
  then show ?thesis
    by (cases call) (auto simp: elsewhere_def lease_attempt_def try_begin_config_set_def drop_config_guard_def
        set_session_id_def clear_session_id_def push_event_def split: option.split)
next
  case False
  then have "elsewhere call s = session_call_effect call s" by (cases call) (simp_all add: elsewhere_def)
  then show ?thesis using frame_call [OF False, of s] by (simp add: same_frame_def)
qed

lemma id_elsewhere: "\<not> id_call call \<Longrightarrow> sid (elsewhere call s) = sid s"
proof (cases "special_call call")
  case True
  moreover assume "\<not> id_call call"
  ultimately show ?thesis
    by (cases call) (auto simp: elsewhere_def lease_attempt_def try_begin_config_set_def drop_config_guard_def)
next
  case False
  then have "elsewhere call s = session_call_effect call s" by (cases call) (simp_all add: elsewhere_def)
  then show ?thesis using frame_call [OF False, of s] by (simp add: same_frame_def)
qed

interpretation lease: session_part config_set_in_flight "\<lambda>_. False"
  by unfold_locales (use frame_call lease_elsewhere in \<open>auto simp: same_frame_def\<close>)

interpretation session_id: session_part sid id_call
  by unfold_locales (use frame_call id_elsewhere in \<open>auto simp: same_frame_def\<close>)

text \<open>Nobody disturbs the lease, whatever the other tasks do.\<close>

lemma lease_calm [simp]: "undisturbed (\<lambda>_. False) env"
  by (simp add: undisturbed_def)


section \<open>Requests\<close>

lemma requests_simps [simp]:
  "w_requests (commit_session_changes w) = w_requests w" "w_requests (on_session f w) = w_requests w"
  "w_requests (emit_event e w) = w_requests w" "w_requests (apply_event_to_session update w) = w_requests w"
  by (auto simp: commit_session_changes_def drain_events_def on_session_def emit_event_def apply_event_to_session_def
      split: session_update.split)

lemma requests_interfere [simp]: "w_requests (interfere is w) = w_requests w"
proof -
  have one: "w_requests (interfere_one x w) = w_requests w" for x w by (cases x) simp_all
  show ?thesis
  proof (induction "is" arbitrary: w)
    case (Cons x xs)
    then show ?case using Cons [of "interfere_one x w"] one by (simp add: interfere_def)
  qed (simp add: interfere_def)
qed

lemma requests_pass [simp]: "w_requests (elapse env w) = w_requests w"
  by (simp add: elapse_def)

lemma requests_ask: "ask env answer request w = (r, w') \<Longrightarrow> w_requests w' = w_requests w @ [request]"
  by (auto simp: ask_def)

lemma requests_snapshot [simp]: "w_requests (emit_snapshot_events w) = w_requests w"
  by (simp add: emit_snapshot_events_def Let_def split: option.split)

lemma session_emit [simp]: "w_session (emit_event e w) = w_session w"
  by (simp add: emit_event_def)

lemma session_snapshot [simp]: "w_session (emit_snapshot_events w) = w_session w"
  by (simp add: emit_snapshot_events_def Let_def split: option.split)

text \<open>A request of a reconciliation sets something of the one session.\<close>

fun sets_in :: "string \<Rightarrow> acp_request \<Rightarrow> bool" where
  "sets_in i (Rq_SetMode j mode) = (j = i \<and> mode \<noteq> [])"
| "sets_in i (Rq_SetModel j model) = (j = i)"
| "sets_in i (Rq_SetConfig j key v) = (j = i)"
| "sets_in i _ = False"

text \<open>One round of the loop: an action skipped, or a request and the rest, which an agent without the session ends.\<close>

lemma ask_then:
  assumes "(case ask env answer rq w of
      (Inl err, w) \<Rightarrow> if is_acp_session_not_found err then (Inl err, w) else go w | (Inr x, w) \<Rightarrow> ok x w) = (r, w')"
    and "\<And>x w1. w_requests w1 = w_requests w @ [rq] \<Longrightarrow> ok x w1 = (r, w') \<Longrightarrow>
      \<exists>w2 as. w_requests w2 = w_requests w1 \<and> loop as w2 = (r, w')"
    and "\<And>w1. go w1 = loop as w1"
  shows "\<exists>w1. w_requests w1 = w_requests w @ [rq] \<and>
      ((\<exists>err. r = Inl err \<and> is_acp_session_not_found err \<and> w' = w1)
       \<or> (\<exists>w2 as. w_requests w2 = w_requests w1 \<and> loop as w2 = (r, w')))"
proof -
  obtain a w1 where ask: "ask env answer rq w = (a, w1)" by fastforce
  note sent = requests_ask [OF ask]
  show ?thesis
  proof (cases a)
    case (Inl err)
    then show ?thesis using assms(1,3) ask sent by (auto split: if_splits)
  next
    case (Inr x)
    then show ?thesis using assms(1,2) ask sent by auto
  qed
qed

lemma reconcile_round:
  assumes "reconcile_loop env meta i (Suc n) (a # as) w = (r, w')"
  shows "(\<exists>as. reconcile_loop env meta i n as w = (r, w'))
    \<or> (\<exists>rq w1. sets_in i rq \<and> w_requests w1 = w_requests w @ [rq] \<and>
        ((\<exists>err. r = Inl err \<and> is_acp_session_not_found err \<and> w' = w1)
         \<or> (\<exists>w2 as. w_requests w2 = w_requests w1 \<and> reconcile_loop env meta i n as w2 = (r, w'))))"
proof (cases a)
  case (SetMode mode)
  let ?normalized = "normalize_requested_mode_for_available_values meta mode (selectable_modes (w_session w))"
  show ?thesis
  proof (cases "?normalized = []")
    case True
    then show ?thesis using assms SetMode by auto
  next
    case False
    have "\<exists>w1. w_requests w1 = w_requests w @ [Rq_SetMode i ?normalized] \<and>
        ((\<exists>err. r = Inl err \<and> is_acp_session_not_found err \<and> w' = w1)
         \<or> (\<exists>w2 as. w_requests w2 = w_requests w1 \<and> reconcile_loop env meta i n as w2 = (r, w')))"
      by (rule ask_then [where go = "reconcile_loop env meta i n as" and ok = "\<lambda>_. reconcile_loop env meta i n as"])
        (use assms SetMode False in \<open>auto simp: Let_def\<close>)
    moreover have "sets_in i (Rq_SetMode i ?normalized)" using False by simp
    ultimately show ?thesis by blast
  qed
next
  case (SetModel model)
  have "\<exists>w1. w_requests w1 = w_requests w @ [Rq_SetModel i model] \<and>
      ((\<exists>err. r = Inl err \<and> is_acp_session_not_found err \<and> w' = w1)
       \<or> (\<exists>w2 as. w_requests w2 = w_requests w1 \<and> reconcile_loop env meta i n as w2 = (r, w')))"
    by (rule ask_then [where go = "reconcile_loop env meta i n as" and ok = "\<lambda>_. reconcile_loop env meta i n as"])
      (use assms SetModel in auto)
  moreover have "sets_in i (Rq_SetModel i model)" by simp
  ultimately show ?thesis by blast
next
  case (SetConfigOption key v)
  let ?resolved = "if key = ''mode''
    then normalize_requested_mode_for_available_values meta v (selectable_modes (w_session w)) else trim v"
  let ?w = "if key = ''mode'' \<and> ?resolved \<noteq> v then on_session (set_desired_config key ?resolved) w else w"
  let ?ok = "\<lambda>options w. case plan_round meta (apply_advertised_config_options options (w_session w)) of
     (followup, s) \<Rightarrow> reconcile_loop env meta i n (filter (\<lambda>a. a \<noteq> SetConfigOption key v) followup)
       (commit_session_changes (w\<lparr>w_session := s\<rparr>))"
  have "\<exists>w1. w_requests w1 = w_requests ?w @ [Rq_SetConfig i key ?resolved] \<and>
      ((\<exists>err. r = Inl err \<and> is_acp_session_not_found err \<and> w' = w1)
       \<or> (\<exists>w2 as. w_requests w2 = w_requests w1 \<and> reconcile_loop env meta i n as w2 = (r, w')))"
  proof (rule ask_then [where go = "reconcile_loop env meta i n as" and ok = ?ok])
    show "(case ask env (answer_config env) (Rq_SetConfig i key ?resolved) ?w of
        (Inl err, w) \<Rightarrow> if is_acp_session_not_found err then (Inl err, w) else reconcile_loop env meta i n as w
      | (Inr x, w) \<Rightarrow> ?ok x w) = (r, w')"
      using assms SetConfigOption by (simp only: reconcile_loop.simps Let_def)
  next
    fix options w1
    assume "w_requests w1 = w_requests ?w @ [Rq_SetConfig i key ?resolved]" "?ok options w1 = (r, w')"
    then show "\<exists>w2 as. w_requests w2 = w_requests w1 \<and> reconcile_loop env meta i n as w2 = (r, w')"
      by (auto simp: split_beta intro!: exI [of _ "commit_session_changes
        (w1\<lparr>w_session := snd (plan_round meta (apply_advertised_config_options options (w_session w1)))\<rparr>)"])
  qed simp
  moreover have "w_requests ?w = w_requests w" by simp
  moreover have "sets_in i (Rq_SetConfig i key ?resolved)" by simp
  ultimately show ?thesis by metis
qed

lemma requests_reconcile_loop:
  "reconcile_loop env meta i n actions w = (r, w') \<Longrightarrow>
    \<exists>rs. w_requests w' = w_requests w @ rs \<and> length rs \<le> n \<and> list_all (sets_in i) rs
      \<and> (\<forall>err. r = Inl err \<longrightarrow> is_acp_session_not_found err)"
proof (induction n arbitrary: actions w)
  case 0
  then show ?case by (cases actions) auto
next
  case (Suc n)
  show ?case
  proof (cases actions)
    case Nil
    then show ?thesis using Suc.prems by auto
  next
    case (Cons a as)
    from reconcile_round [OF Suc.prems [unfolded Cons]] show ?thesis
    proof (elim disjE exE conjE)
      fix as assume "reconcile_loop env meta i n as w = (r, w')"
      from Suc.IH [OF this] show ?thesis using le_SucI by blast
    next
      fix rq w1 err
      assume "sets_in i rq" "w_requests w1 = w_requests w @ [rq]" "r = Inl err" "is_acp_session_not_found err" "w' = w1"
      then show ?thesis by (intro exI [of _ "[rq]"]) simp
    next
      fix rq w1 w2 as
      assume sent: "sets_in i rq" "w_requests w1 = w_requests w @ [rq]" "w_requests w2 = w_requests w1"
        and "reconcile_loop env meta i n as w2 = (r, w')"
      from Suc.IH [OF this(4)] obtain rs where "w_requests w' = w_requests w2 @ rs" "length rs \<le> n"
        "list_all (sets_in i) rs" "\<forall>err. r = Inl err \<longrightarrow> is_acp_session_not_found err" by blast
      with sent show ?thesis by (intro exI [of _ "rq # rs"]) simp
    qed
  qed
qed

lemma requests_reconcile:
  assumes "reconcile_session env meta i w = (r, w')"
  shows "\<exists>rs. w_requests w' = w_requests w @ rs \<and> length rs \<le> 8 \<and> list_all (sets_in i) rs
    \<and> (\<forall>err. r = Inl err \<longrightarrow> is_acp_session_not_found err)"
proof -
  obtain actions s where plan: "plan_round meta (w_session w) = (actions, s)" by fastforce
  with assms have "reconcile_loop env meta i max_reconcile_actions actions (w\<lparr>w_session := s\<rparr>) = (r, w')"
    by (simp add: reconcile_session_def)
  from requests_reconcile_loop [OF this] show ?thesis by (simp add: max_reconcile_actions_def)
qed

end
