(* ===== verification/Acp_Laws.thy ===== *)
theory Acp_Laws
  imports Acp_Frames
begin

text \<open>
  What the manager of an ACP agent guarantees, whatever the agent answers and the other tasks do meanwhile: a
  configuration command is confirmed only by what the session reports and always lets go of its lease, a session
  is opened without dropping one the agent still has, a fork never turns into a fresh session when it is refused,
  and making the agent agree takes at most eight requests. The last part holds runs of the code that a reader of
  its comments would not expect.
\<close>

section \<open>Configuration commands\<close>

lemma wait_observed:
  "wait_for_observed env c v k w = (r, w') \<Longrightarrow> w_requests w' = w_requests w
    \<and> config_set_in_flight (w_session w') = config_set_in_flight (w_session w)
    \<and> (\<forall>snapshot. r = Inr snapshot \<longrightarrow> observed_matches snapshot c v)"
proof (induction env c v k w arbitrary: r w' rule: wait_for_observed.induct)
  case (1 env c v k w)
  show ?case
  proof (cases "observed_matches (session_config_snapshot (w_session w)) c v \<or> observed_confirmation_timeout \<le> elapsed env k w")
    case True
    then show ?thesis using "1.prems" by (subst (asm) wait_for_observed.simps) (auto simp: Let_def split: if_splits)
  next
    case False
    then have "wait_for_observed env c v (Suc k) (elapse env w) = (r, w')"
      using "1.prems" by (subst (asm) wait_for_observed.simps) (simp add: Let_def)
    with "1.IH" [OF refl _ _ this] False show ?thesis by (simp add: lease.part_pass)
  qed
qed

text \<open>What a request stands for once its path was applied with success.\<close>

fun confirmed_by :: "string \<Rightarrow> string \<Rightarrow> string \<Rightarrow> acp_request \<Rightarrow> config_snapshot \<Rightarrow> 't acp_session \<Rightarrow> bool" where
  "confirmed_by i option_id v (Rq_SetConfig j c x) snapshot s =
    (j = i \<and> c = option_id \<and> x = v \<and> observed_matches snapshot c v)"
| "confirmed_by i option_id v (Rq_SetMode j x) snapshot s = (j = i \<and> x = v \<and> seen_mode (observed s) = Some v)"
| "confirmed_by i option_id v (Rq_SetModel j x) snapshot s = (j = i \<and> x = v \<and> seen_model (observed s) = Some v)"
| "confirmed_by i option_id v _ snapshot s = False"

lemma confirm_seen:
  "seen_mode (observed (confirm_mode v s)) = Some v" "seen_model (observed (confirm_model v s)) = Some v"
  by (simp_all add: confirm_mode_def apply_observed_mode_def see_mode_def confirm_model_def apply_observed_model_def
      see_model_def push_event_def Let_def)

lemma session_commit:
  "observed (w_session (commit_session_changes w)) = observed (w_session w)"
  "opened (w_session (commit_session_changes w)) = opened (w_session w)"
  "sid (w_session (commit_session_changes w)) = sid (w_session w)"
  by (simp_all add: commit_session_changes_def drain_events_def)

lemma session_on_session: "w_session (on_session f w) = f (w_session w)"
  by (simp add: on_session_def)

lemma legacy_ack:
  "apply_legacy_config_ack i path v w = (r, w') \<Longrightarrow> w_requests w' = w_requests w
    \<and> config_set_in_flight (w_session w') = config_set_in_flight (w_session w)
    \<and> (\<forall>snapshot. r = Inr snapshot \<longrightarrow>
        (path = Path_LegacyMode \<and> seen_mode (observed (w_session w')) = Some v)
        \<or> (path = Path_LegacyModel \<and> seen_model (observed (w_session w')) = Some v))"
  using frame_call [of "Call_ConfirmMode v" "w_session w"] frame_call [of "Call_ConfirmModel v" "w_session w"]
  by (auto simp: apply_legacy_config_ack_def Let_def session_commit session_on_session confirm_seen same_frame_def
      split: config_set_path.splits if_splits)

lemma applied_path:
  assumes "apply_set_path env path i v w = (r, w')"
  shows "\<exists>rq. w_requests w' = w_requests w @ [rq]
    \<and> config_set_in_flight (w_session w') = config_set_in_flight (w_session w)
    \<and> (\<forall>snapshot option_id. r = Inr snapshot \<longrightarrow> (\<forall>c. path = Path_ConfigOption c \<longrightarrow> c = option_id) \<longrightarrow>
        confirmed_by i option_id v rq snapshot (w_session w'))"
proof (cases path)
  case (Path_ConfigOption c)
  obtain a w1 where ask: "ask env (answer_config env) (Rq_SetConfig i c v) w = (a, w1)" by fastforce
  note sent = requests_ask [OF ask] lease.part_ask [OF lease_calm ask]
  show ?thesis
  proof (cases a)
    case (Inl err)
    then show ?thesis using assms Path_ConfigOption ask sent by (auto simp: apply_set_path_def)
  next
    case (Inr options)
    let ?w = "commit_session_changes (on_session (apply_advertised_config_options options) w1)"
    show ?thesis
    proof (cases "sid (w_session w1) = Some i")
      case False
      then show ?thesis using assms Path_ConfigOption ask sent Inr by (auto simp: apply_set_path_def)
    next
      case True
      then have "wait_for_observed env c v 0 ?w = (r, w')"
        using assms Path_ConfigOption ask Inr by (simp add: apply_set_path_def)
      from wait_observed [OF this] show ?thesis
        using sent Path_ConfigOption frame_config_options [of "w_session w1" options]
        by (auto simp: session_on_session same_frame_def)
    qed
  qed
next
  case Path_LegacyMode
  obtain a w1 where ask: "ask env (answer_ack env) (Rq_SetMode i v) w = (a, w1)" by fastforce
  note sent = requests_ask [OF ask] lease.part_ask [OF lease_calm ask]
  show ?thesis
    using assms Path_LegacyMode ask sent legacy_ack [of i path v w1 r w']
    by (cases a) (auto simp: apply_set_path_def)
next
  case Path_LegacyModel
  obtain a w1 where ask: "ask env (answer_ack env) (Rq_SetModel i v) w = (a, w1)" by fastforce
  note sent = requests_ask [OF ask] lease.part_ask [OF lease_calm ask]
  show ?thesis
    using assms Path_LegacyModel ask sent legacy_ack [of i path v w1 r w']
    by (cases a) (auto simp: apply_set_path_def)
qed

lemma connected_same:
  "ensure_protocol_connected env w = (r, w') \<Longrightarrow> w_session w' = w_session w \<and> w_requests w' = w_requests w
    \<and> (\<exists>x. r = Inr () \<or> r = Inl (AcpFailure NotConnected))"
  by (auto simp: ensure_protocol_connected_def is_connected_def split: bool.splits)

lemma resolve_real_path:
  assumes "resolve_set_path snapshot option_id v = Inr path"
  shows "(\<forall>c. path = Path_ConfigOption c \<longrightarrow> c = option_id)
    \<and> (\<exists>opt \<in> set (snap_options snapshot). opt_id opt = option_id
        \<and> (opt_options opt = [] \<or> v \<in> sel_value ` set (opt_options opt)))"
proof -
  have found: "enumerated_find p n xs = Some (k, x) \<Longrightarrow> p x \<and> x \<in> set xs" for p n xs k and x :: config_option_dto
    by (induction xs arbitrary: n) (auto split: if_splits)
  obtain k opt where opt: "enumerated_find (\<lambda>opt. opt_id opt = option_id) 0 (snap_options snapshot) = Some (k, opt)"
    using assms by (auto simp: resolve_set_path_def split: option.splits)
  with assms have "opt_options opt = [] \<or> v \<in> sel_value ` set (opt_options opt)"
    by (auto simp: resolve_set_path_def list_ex_iff split: if_splits)
  moreover have "\<forall>c. path = Path_ConfigOption c \<longrightarrow> c = opt_id opt"
    using assms opt by (auto simp: resolve_set_path_def Let_def split: if_splits config_option_origin.splits)
  ultimately show ?thesis using found [OF opt] by auto
qed

lemma inner_cases:
  assumes "set_config_option_confirmed_inner env meta option_id v w = (r, w')"
  shows "config_set_in_flight (w_session w') = config_set_in_flight (w_session w)
    \<and> (w_requests w' = w_requests w \<and> (\<exists>err. r = Inl err) \<or> (\<exists>i resolved rq.
        sid (w_session w) = Some i
        \<and> resolved = normalize_config_option_request_value meta (session_config_snapshot (w_session w)) option_id v
        \<and> (\<exists>opt \<in> set (snap_options (session_config_snapshot (w_session w))). opt_id opt = option_id
            \<and> (opt_options opt = [] \<or> resolved \<in> sel_value ` set (opt_options opt)))
        \<and> w_requests w' = w_requests w @ [rq]
        \<and> (\<forall>options. r = Inr options \<longrightarrow> (\<exists>snapshot. snap_options snapshot = options
            \<and> confirmed_by i option_id resolved rq snapshot (w_session w')))))"
proof -
  obtain a w1 where connected: "ensure_protocol_connected env w = (a, w1)" by fastforce
  note same = connected_same [OF connected]
  let ?snapshot = "session_config_snapshot (w_session w)"
  let ?resolved = "normalize_config_option_request_value meta ?snapshot option_id v"
  show ?thesis
  proof (cases "a = Inr () \<and> (\<exists>path. resolve_set_path ?snapshot option_id ?resolved = Inr path) \<and> sid (w_session w) \<noteq> None")
    case False
    then show ?thesis
      using assms same connected
      by (auto simp: set_config_option_confirmed_inner_def Let_def split: sum.splits option.splits)
  next
    case True
    then obtain path i where path: "resolve_set_path ?snapshot option_id ?resolved = Inr path"
        and i: "sid (w_session w) = Some i" and a: "a = Inr ()" by auto
    obtain b w2 where applied: "apply_set_path env path i ?resolved w1 = (b, w2)" by fastforce
    have out: "w' = w2" "r = (case b of Inl err \<Rightarrow> Inl err | Inr confirmed \<Rightarrow> Inr (snap_options confirmed))"
      using assms connected same path i a applied
      by (auto simp: set_config_option_confirmed_inner_def Let_def split: sum.splits)
    obtain rq where rq: "w_requests w2 = w_requests w1 @ [rq]"
        "config_set_in_flight (w_session w2) = config_set_in_flight (w_session w1)"
        "\<forall>snapshot option_id. b = Inr snapshot \<longrightarrow> (\<forall>c. path = Path_ConfigOption c \<longrightarrow> c = option_id) \<longrightarrow>
          confirmed_by i option_id ?resolved rq snapshot (w_session w2)"
      using applied_path [OF applied] by blast
    have "confirmed_by i option_id ?resolved rq snapshot (w_session w2)" if "b = Inr snapshot" for snapshot
      using rq(3) that resolve_real_path [OF path] by auto
    then show ?thesis
      using out rq(1,2) same i resolve_real_path [OF path] by (auto split: sum.splits)
  qed
qed

lemma snapshot_lease [simp]: "session_config_snapshot (s\<lparr>config_set_in_flight := b\<rparr>) = session_config_snapshot s"
  by (simp add: session_config_snapshot_def split: option.split)

lemma confirmed_guard [simp]:
  "confirmed_by i c x rq snapshot (drop_config_guard s) = confirmed_by i c x rq snapshot s"
  by (cases rq) (simp_all add: drop_config_guard_def)

text \<open>C9: A configuration command is confirmed by what the session reports. When setting an option succeeds, the
  session had an id, the value (as this backend names it) is one the option offered or the option lists none, and
  exactly one request was sent, for that session, option and value; and either the options handed back report the
  value as current, or, for the older mode and model requests, the session reports it as the mode or model it has.\<close>

theorem confirmed_option_is_reported:
  assumes "set_config_option_confirmed env meta option_id v w = (Inr options, w')"
  shows "\<exists>i resolved rq snapshot. sid (w_session w) = Some i
    \<and> resolved = normalize_config_option_request_value meta (session_config_snapshot (w_session w)) (trim option_id) (trim v)
    \<and> (\<exists>opt \<in> set (snap_options (session_config_snapshot (w_session w))). opt_id opt = trim option_id
        \<and> (opt_options opt = [] \<or> resolved \<in> sel_value ` set (opt_options opt)))
    \<and> w_requests w' = w_requests w @ [rq]
    \<and> snap_options snapshot = options \<and> confirmed_by i (trim option_id) resolved rq snapshot (w_session w')"
proof -
  let ?w = "w\<lparr>w_session := (w_session w)\<lparr>config_set_in_flight := True\<rparr>\<rparr>"
  obtain w1 where inner: "set_config_option_confirmed_inner env meta (trim option_id) (trim v) ?w = (Inr options, w1)"
      and w': "w' = on_session drop_config_guard w1"
    using assms by (auto simp: set_config_option_confirmed_def try_begin_config_set_def split: if_splits prod.splits)
  let ?snapshot = "session_config_snapshot (w_session w)"
  let ?resolved = "normalize_config_option_request_value meta ?snapshot (trim option_id) (trim v)"
  obtain i rq snapshot where "sid (w_session w) = Some i" "w_requests w1 = w_requests w @ [rq]"
      "snap_options snapshot = options" "confirmed_by i (trim option_id) ?resolved rq snapshot (w_session w1)"
      "\<exists>opt \<in> set (snap_options ?snapshot). opt_id opt = trim option_id
        \<and> (opt_options opt = [] \<or> ?resolved \<in> sel_value ` set (opt_options opt))"
    using inner_cases [OF inner] by (simp del: bex_simps image_iff) metis
  then show ?thesis
    using w' by (intro exI conjI) (simp_all add: session_on_session)
qed

text \<open>C19: A configuration command always lets go of its lease, and sends at most one request. Whatever the agent
  answers (errors, timeouts and a lost connection included) and the other tasks do meanwhile, the lease is afterwards
  what it was before; and a command that finds it taken changes nothing.\<close>

theorem config_lease_returned:
  "case set_config_option_confirmed env meta option_id v w of (r, w') \<Rightarrow>
    config_set_in_flight (w_session w') = config_set_in_flight (w_session w)
    \<and> length (w_requests w') \<le> Suc (length (w_requests w))
    \<and> (if config_set_in_flight (w_session w) then w' = w else True)"
proof (cases "trim option_id = [] \<or> trim v = [] \<or> config_set_in_flight (w_session w)")
  case True
  then show ?thesis by (auto simp: set_config_option_confirmed_def try_begin_config_set_def)
next
  case False
  let ?w = "w\<lparr>w_session := (w_session w)\<lparr>config_set_in_flight := True\<rparr>\<rparr>"
  obtain r w1 where inner: "set_config_option_confirmed_inner env meta (trim option_id) (trim v) ?w = (r, w1)"
    by fastforce
  have "set_config_option_confirmed env meta option_id v w = (r, on_session drop_config_guard w1)"
    using False inner by (simp add: set_config_option_confirmed_def try_begin_config_set_def)
  then show ?thesis
    using inner_cases [OF inner] False by (auto simp: session_on_session drop_config_guard_def)
qed

text \<open>C29: Making the agent agree is bounded and stays in its session. A reconciliation sends at most eight requests,
  each setting a mode (never an empty one), a model or an option of the session it was given; it fails only because
  the agent says that session is gone, and it leaves the configuration lease alone.\<close>

theorem reconcile_is_bounded:
  "case reconcile_session env meta i w of (r, w') \<Rightarrow>
    (\<exists>rs. w_requests w' = w_requests w @ rs \<and> length rs \<le> 8 \<and> list_all (sets_in i) rs)
    \<and> (case r of Inl err \<Rightarrow> is_acp_session_not_found err | Inr _ \<Rightarrow> True)
    \<and> config_set_in_flight (w_session w') = config_set_in_flight (w_session w)"
proof -
  obtain r w' where run: "reconcile_session env meta i w = (r, w')" by fastforce
  show ?thesis
    using requests_reconcile [OF run] lease.part_reconcile [OF lease_calm run] run by (auto split: sum.split)
qed


section \<open>Opening a session\<close>

text \<open>No fresh session among the requests: one asked for without an id to resume.\<close>

definition no_fresh :: "acp_request list \<Rightarrow> bool" where
  "no_fresh rs \<longleftrightarrow> Rq_New None \<notin> set rs"

text \<open>The agent never says that a session is gone, nor that the one to resume is an unknown resource.\<close>

definition keeps_sessions :: "'t agent_env \<Rightarrow> string \<Rightarrow> bool" where
  "keeps_sessions env i \<longleftrightarrow>
    (\<forall>n. (case answer_session env n of Inl err \<Rightarrow> \<not> is_missing_resumed_session err i | Inr _ \<Rightarrow> True)
       \<and> (case answer_config env n of Inl err \<Rightarrow> \<not> is_acp_session_not_found err | Inr _ \<Rightarrow> True)
       \<and> (case answer_ack env n of Inl err \<Rightarrow> \<not> is_acp_session_not_found err | Inr _ \<Rightarrow> True))"

lemma keeps_sessionsD:
  assumes "keeps_sessions env i"
  shows "answer_session env n = Inl err \<Longrightarrow> \<not> is_missing_resumed_session err i"
    "answer_config env n = Inl err \<Longrightarrow> \<not> is_acp_session_not_found err"
    "answer_ack env n = Inl err \<Longrightarrow> \<not> is_acp_session_not_found err"
  using assms [unfolded keeps_sessions_def, THEN spec, of n] by simp_all

lemma sets_not_fresh: "list_all (sets_in i) rs \<Longrightarrow> no_fresh rs"
  by (auto simp: no_fresh_def list_all_iff)

lemma reconcile_loop_keeps:
  assumes "\<And>n err. answer_config env n = Inl err \<Longrightarrow> \<not> is_acp_session_not_found err"
    and "\<And>n err. answer_ack env n = Inl err \<Longrightarrow> \<not> is_acp_session_not_found err"
  shows "\<exists>w'. reconcile_loop env meta i n actions w = (Inr (), w')"
proof -
  have ack: "ask env (answer_ack env) rq w = (Inl err, w1) \<Longrightarrow> \<not> is_acp_session_not_found err" for rq w w1 err
    using assms(2) by (auto simp: ask_def)
  have conf: "ask env (answer_config env) rq w = (Inl err, w1) \<Longrightarrow> \<not> is_acp_session_not_found err" for rq w w1 err
    using assms(1) by (auto simp: ask_def)
  show ?thesis
  proof (induction n arbitrary: actions w)
    case 0
    then show ?case by (cases actions) auto
  next
    case (Suc n)
    show ?case
    proof (cases actions)
      case (Cons a as)
      then show ?thesis
        using Suc ack conf by (cases a) (auto simp: Let_def split: prod.split sum.split)
    qed simp
  qed
qed

lemma reconcile_keeps:
  assumes "keeps_sessions env i"
  shows "\<exists>w' rs. reconcile_session env meta j w = (Inr (), w') \<and> w_requests w' = w_requests w @ rs \<and> no_fresh rs"
proof -
  obtain actions s where plan: "plan_round meta (w_session w) = (actions, s)" by fastforce
  obtain w' where "reconcile_loop env meta j max_reconcile_actions actions (w\<lparr>w_session := s\<rparr>) = (Inr (), w')"
    using reconcile_loop_keeps [of env] keeps_sessionsD [OF assms] by blast
  then have run: "reconcile_session env meta j w = (Inr (), w')" using plan by (simp add: reconcile_session_def)
  with requests_reconcile [OF run] sets_not_fresh show ?thesis by blast
qed

text \<open>The tail of the ways to open a session: what was absorbed, and what is reconciled then.\<close>

definition absorbed :: "string \<Rightarrow> session_response \<Rightarrow> 't acp_world \<Rightarrow> 't acp_session" where
  "absorbed i r w = w_session (commit_session_changes (on_session (set_session_id i \<circ> absorb_response r) w))"

lemma meta_resumed:
  assumes "resume_by_meta env meta i w = (r, w')" "ask env (answer_session env) (Rq_New (Some i)) w = (Inr x, w1)"
  shows "\<exists>w2. w_requests w2 = w_requests w1 \<and> w_session w2 = absorbed (rs_session_id x) x w1
    \<and> reconcile_or_rebuild env meta (rs_session_id x) w2 = (r, w')"
proof -
  let ?w = "emit_snapshot_events (commit_session_changes (on_session (set_session_id (rs_session_id x) \<circ> absorb_response x) w1))"
  show ?thesis
    by (rule exI [of _ "if rs_session_id x \<noteq> i then emit_event (Emit_SessionAssigned (rs_session_id x)) ?w else ?w"])
      (use assms in \<open>auto simp: resume_by_meta_def Let_def absorbed_def\<close>)
qed

lemma load_resumed:
  assumes "resume_by_load env meta i m w = (r, w')" "ask env (answer_session env) (Rq_Load i) w = (Inr x, w1)"
  shows "\<exists>w2 y. w_requests w2 = w_requests w1 \<and> w_session w2 = absorbed i y w1
    \<and> reconcile_or_rebuild env meta i w2 = (r, w')"
  using assms by (simp add: resume_by_load_def Let_def absorbed_def) (metis requests_simps(1,2) requests_snapshot session_snapshot)

text \<open>C10: A session the agent still has is never dropped for a fresh one. When the manager knows the id of a session that
  is to be resumed, and the agent never answers that it is gone, no request for a session of its own is sent, on any
  of the three ways to resume and whatever else fails.\<close>

theorem known_session_is_kept:
  assumes "sid (w_session w) = Some i" "keeps_sessions env i"
    and "ensure_session_opened env params w = (r, w')"
  shows "\<exists>rs. w_requests w' = w_requests w @ rs \<and> no_fresh rs"
proof -
  have finish: "\<exists>rs. w_requests w2 = w_requests w1 @ rs \<and> no_fresh rs"
    if "reconcile_or_rebuild env meta j w1 = (r2, w2)" for meta j w1 r2 and w2 :: "'a acp_world"
    using reconcile_keeps [OF assms(2), of meta j w1] that by (auto simp: reconcile_or_rebuild_def)
  have ask: "w_requests w2 = w_requests w1 @ [rq] \<and> (\<forall>err. a = Inl err \<longrightarrow> \<not> is_missing_resumed_session err i)"
    if "ask env (answer_session env) rq w1 = (a, w2)" for rq w1 a and w2 :: "'a acp_world"
    using keeps_sessionsD(1) [OF assms(2)] that requests_ask [OF that] by (auto simp: ask_def)
  have meta: "\<exists>rs. w_requests w2 = w_requests w1 @ rs \<and> no_fresh rs"
    if run: "resume_by_meta env meta i w1 = (r2, w2)" for meta w1 r2 and w2 :: "'a acp_world"
  proof -
    obtain a w3 where a: "ask env (answer_session env) (Rq_New (Some i)) w1 = (a, w3)" by fastforce
    show ?thesis
    proof (cases a)
      case (Inl err)
      then show ?thesis using run a ask [OF a] by (auto simp: resume_by_meta_def no_fresh_def)
    next
      case (Inr x)
      obtain w4 where w4: "w_requests w4 = w_requests w3"
          "reconcile_or_rebuild env meta (rs_session_id x) w4 = (r2, w2)"
        using meta_resumed [OF run a [unfolded Inr]] by blast
      obtain rs where "w_requests w2 = w_requests w4 @ rs" "no_fresh rs" using finish [OF w4(2)] by blast
      then show ?thesis
        using w4(1) ask [OF a] by (intro exI [of _ "Rq_New (Some i) # rs"]) (simp add: no_fresh_def)
    qed
  qed
  have load: "\<exists>rs. w_requests w2 = w_requests w1 @ rs \<and> no_fresh rs"
    if run: "resume_by_load env meta i m w1 = (r2, w2)" for meta m w1 r2 and w2 :: "'a acp_world"
  proof -
    obtain a w3 where a: "ask env (answer_session env) (Rq_Load i) w1 = (a, w3)" by fastforce
    show ?thesis
    proof (cases a)
      case (Inl err)
      then show ?thesis
        using run a ask [OF a] by (auto simp: resume_by_load_def no_fresh_def is_missing_resumed_session_def)
    next
      case (Inr x)
      obtain w4 where w4: "w_requests w4 = w_requests w3" "reconcile_or_rebuild env meta i w4 = (r2, w2)"
        using load_resumed [OF run a [unfolded Inr]] by blast
      obtain rs where "w_requests w2 = w_requests w4 @ rs" "no_fresh rs" using finish [OF w4(2)] by blast
      then show ?thesis
        using w4(1) ask [OF a] by (intro exI [of _ "Rq_Load i # rs"]) (simp add: no_fresh_def)
    qed
  qed
  have blind: "\<exists>rs. w_requests w2 = w_requests w1 @ rs \<and> no_fresh rs"
    if "resume_blindly env meta i w1 = (r2, w2)" for meta w1 r2 and w2 :: "'a acp_world"
    using finish that by (fastforce simp: resume_blindly_def)
  obtain b w1 where connected: "ensure_protocol_connected env w = (b, w1)" by fastforce
  note same = connected_same [OF connected]
  have resume: "\<exists>rs. w_requests w2 = w_requests w1 @ rs \<and> no_fresh rs"
    if "open_session_resume env (metadata params) i w1 = (r2, w2)" for r2 and w2 :: "'a acp_world"
    using that meta load blind by (auto simp: open_session_resume_def split: if_splits)
  have none: "no_fresh []" by (simp add: no_fresh_def)
  show ?thesis
  proof (cases b)
    case (Inl err)
    then show ?thesis using assms(3) connected same none by (auto simp: ensure_session_opened_def)
  next
    case (Inr x)
    obtain r2 w2 where opened: "(if opened (w_session w1) then (Inr i, w1)
        else open_session_resume env (metadata params) i w1) = (r2, w2)" by fastforce
    then obtain rs where rs: "w_requests w2 = w_requests w1 @ rs" "no_fresh rs"
      using resume none by (auto split: if_splits)
    have "w_requests w' = w_requests w2"
      using assms(1,3) connected same Inr opened
      by (auto simp: ensure_session_opened_def is_connected_def split: sum.splits bool.splits if_splits)
    with rs same show ?thesis by auto
  qed
qed

lemma id_absorbs:
  "sid (apply_advertised_modes m s) = sid s" "sid (apply_advertised_models n s) = sid s"
  "sid (apply_advertised_config_options options s) = sid s"
  using frame_call [of "Call_Options options" s] frame_call [of "Call_Modes m" s] frame_call [of "Call_Models n" s]
  by (simp_all add: same_frame_def)

lemma absorbed_id: "sid (absorbed i r w) = (case sid (w_session w) of Some j \<Rightarrow> Some j | None \<Rightarrow> Some i)"
proof -
  have "sid (absorb_response r s) = sid s" for s :: "'a acp_session"
    by (simp add: absorb_response_def Let_def id_absorbs split: option.split)
  then show ?thesis
    by (auto simp: absorbed_def session_commit session_on_session set_session_id_def push_event_def split: option.split)
qed

lemma new_session_id:
  assumes "undisturbed id_call env" "open_session_new env meta w = (Inr i, w')" "sid (w_session w) = None"
  shows "sid (w_session w') = Some i"
proof -
  obtain a w1 where ask: "ask env (answer_session env) (Rq_New None) w = (a, w1)" by fastforce
  with assms(2) obtain x where x: "a = Inr x" by (cases a) (auto simp: open_session_new_def)
  let ?w = "commit_session_changes (on_session
    (mark_pending_session_new_prelude \<circ> set_session_id (rs_session_id x) \<circ> absorb_response x) w1)"
  obtain b where run: "reconcile_session env meta (rs_session_id x)
      (emit_event (Emit_SessionAssigned (rs_session_id x)) (emit_snapshot_events ?w)) = (b, w')" and i: "i = rs_session_id x"
    using assms(2) ask x by (auto simp: open_session_new_def Let_def split: prod.splits sum.splits)
  have "sid (w_session w1) = None" using session_id.part_ask [OF assms(1) ask] assms(3) by simp
  then have "sid (absorbed (rs_session_id x) x w1) = Some (rs_session_id x)" by (simp add: absorbed_id)
  then have "sid (w_session ?w) = Some i"
    using i by (simp add: absorbed_def session_on_session mark_pending_session_new_prelude_def)
  then show ?thesis using session_id.part_reconcile [OF assms(1) run] by simp
qed

lemma rebuilt_session_id:
  assumes "undisturbed id_call env" "rebuild_after_session_not_found env meta w = (Inr i, w')"
  shows "sid (w_session w') = Some i"
proof -
  have "sid (w_session (commit_session_changes (on_session clear_session_id w))) = None"
    by (simp only: session_commit session_on_session) (simp add: clear_session_id_def)
  then show ?thesis
    by (rule new_session_id [OF assms(1) assms(2) [unfolded rebuild_after_session_not_found_def]])
qed

lemma reconciled_session_id:
  assumes "undisturbed id_call env" "reconcile_or_rebuild env meta i w = (Inr j, w')"
  shows "j = i \<and> sid (w_session w') = sid (w_session w) \<or> sid (w_session w') = Some j"
proof -
  obtain a w1 where run: "reconcile_session env meta i w = (a, w1)" by fastforce
  show ?thesis
    using assms run session_id.part_reconcile [OF assms(1) run] rebuilt_session_id [OF assms(1), of meta w1 j w']
    by (cases a) (auto simp: reconcile_or_rebuild_def split: if_splits)
qed

lemma resumed_session_id:
  assumes "undisturbed id_call env" "open_session_resume env meta i w = (Inr j, w')" "sid (w_session w) = Some i"
  shows "sid (w_session w') = Some j \<or> session_load_via_meta_field meta \<and> sid (w_session w') = Some i"
proof -
  note rebuilt = rebuilt_session_id [OF assms(1)] and reconciled = reconciled_session_id [OF assms(1)]
  have meta: ?thesis if run: "resume_by_meta env meta i w = (Inr j, w')" "session_load_via_meta_field meta"
  proof -
    obtain a w1 where ask: "ask env (answer_session env) (Rq_New (Some i)) w = (a, w1)" by fastforce
    show ?thesis
    proof (cases a)
      case (Inl err)
      then show ?thesis using run ask rebuilt by (auto simp: resume_by_meta_def split: if_splits)
    next
      case (Inr x)
      obtain w2 where w2: "w_session w2 = absorbed (rs_session_id x) x w1"
          "reconcile_or_rebuild env meta (rs_session_id x) w2 = (Inr j, w')"
        using meta_resumed [OF run(1) ask [unfolded Inr]] by blast
      have "sid (w_session w2) = Some i"
        using w2(1) session_id.part_ask [OF assms(1) ask] assms(3) by (simp add: absorbed_id)
      then show ?thesis using reconciled [OF w2(2)] run(2) by auto
    qed
  qed
  have load: ?thesis if run: "resume_by_load env meta i m w = (Inr j, w')" for m
  proof -
    obtain a w1 where ask: "ask env (answer_session env) (Rq_Load i) w = (a, w1)" by fastforce
    show ?thesis
    proof (cases a)
      case (Inl err)
      then show ?thesis using run ask rebuilt by (auto simp: resume_by_load_def split: if_splits)
    next
      case (Inr x)
      obtain w2 y where w2: "w_session w2 = absorbed i y w1" "reconcile_or_rebuild env meta i w2 = (Inr j, w')"
        using load_resumed [OF run ask [unfolded Inr]] by blast
      have "sid (w_session w2) = Some i"
        using w2(1) session_id.part_ask [OF assms(1) ask] assms(3) by (simp add: absorbed_id)
      then show ?thesis using reconciled [OF w2(2)] by auto
    qed
  qed
  have blind: ?thesis if run: "resume_blindly env meta i w = (Inr j, w')"
    using reconciled [OF run [unfolded resume_blindly_def]] assms(3) by (auto simp: session_commit session_on_session set_session_id_def)
  show ?thesis
    using assms(2) meta load blind by (auto simp: open_session_resume_def split: if_splits)
qed

lemma forked_session_id:
  assumes "undisturbed id_call env" "open_session_fork env meta parent w = (Inr j, w')" "sid (w_session w) = None"
  shows "sid (w_session w') = Some j"
proof -
  obtain a w1 where ask: "ask env (answer_session env) (Rq_Fork parent) w = (a, w1)" by fastforce
  with assms(2) obtain x where x: "a = Inr x"
    by (cases a) (auto simp: open_session_fork_def split: if_splits)
  let ?w = "emit_event (Emit_SessionAssigned (rs_session_id x)) (emit_snapshot_events (commit_session_changes (on_session
    (set_session_id (rs_session_id x) \<circ> absorb_response (x\<lparr>rs_models := None\<rparr>)) w1)))"
  have run: "reconcile_or_rebuild env meta (rs_session_id x) ?w = (Inr j, w')"
    using assms(2) ask x by (auto simp: open_session_fork_def Let_def split: if_splits)
  have "sid (w_session w1) = None" using session_id.part_ask [OF assms(1) ask] assms(3) by simp
  then have "sid (w_session ?w) = Some (rs_session_id x)"
    using absorbed_id [of "rs_session_id x" "x\<lparr>rs_models := None\<rparr>" w1] by (simp add: absorbed_def)
  then show ?thesis using reconciled_session_id [OF assms(1) run] by auto
qed

text \<open>C20: An opened session is the one the manager works with. When a session is made sure to be open and no other task
  assigns or clears the id meanwhile, the session is marked open and the id handed back is the one the aggregate
  keeps; with one exception: a backend that resumes by a new session and answers with another id leaves the old id
  in the aggregate.\<close>

theorem opened_session_id:
  assumes "undisturbed id_call env" "ensure_session_opened env params w = (Inr i, w')"
  shows "opened (w_session w')
    \<and> (sid (w_session w') = Some i
       \<or> session_load_via_meta_field (metadata params) \<and> sid (w_session w') = sid (w_session w))"
proof -
  obtain b w1 where connected: "ensure_protocol_connected env w = (b, w1)" by fastforce
  note same = connected_same [OF connected]
  have b: "b = Inr ()" using assms(2) connected same by (auto simp: ensure_session_opened_def)
  let ?open = "case (sid (w_session w1), opened (w_session w1)) of
      (None, _) \<Rightarrow> (case fork_parent params of
         Some parent \<Rightarrow> open_session_fork env (metadata params) parent w1
       | None \<Rightarrow> open_session_new env (metadata params) w1)
    | (Some i, False) \<Rightarrow> open_session_resume env (metadata params) i w1
    | (Some i, True) \<Rightarrow> (Inr i, w1)"
  obtain w2 where w2: "?open = (Inr i, w2)" and w': "w_session w' = w_session (commit_session_changes (on_session mark_opened w2))"
    using assms(2) connected b
    by (auto simp: ensure_session_opened_def is_connected_def on_session_def commit_session_changes_def
        split: prod.splits sum.splits bool.splits)
  have "sid (w_session w2) = Some i
      \<or> session_load_via_meta_field (metadata params) \<and> sid (w_session w2) = sid (w_session w)"
  proof (cases "sid (w_session w1)")
    case None
    then show ?thesis
      using w2 new_session_id [OF assms(1)] forked_session_id [OF assms(1)] by (auto split: option.splits)
  next
    case (Some j)
    then show ?thesis
      using w2 same resumed_session_id [OF assms(1), of "metadata params" j w1 i w2]
      by (auto split: bool.splits)
  qed
  moreover have "sid (w_session w') = sid (w_session w2)" "opened (w_session w')"
    using w' frame_call [of Call_MarkOpened "w_session w2"]
    by (auto simp: session_on_session same_frame_def session_commit mark_opened_def push_event_def)
  ultimately show ?thesis by simp
qed

text \<open>C13: A refused fork never turns into a fresh session. When a forked conversation has no session yet and the agent
  refuses the fork (or never advertised it, or the connection is gone), opening fails, nothing but the fork was
  asked for, and the conversation stays without a session, so that a later attempt asks for the fork again.\<close>

theorem refused_fork_opens_nothing:
  assumes "sid (w_session w) = None" "fork_parent params = Some parent"
    and "answer_session env (Suc (w_tick w)) = Inl err" "undisturbed id_call env"
  shows "case ensure_session_opened env params w of (r, w') \<Rightarrow>
    (\<exists>e. r = Inl e) \<and> w_requests w' \<in> {w_requests w, w_requests w @ [Rq_Fork parent]} \<and> sid (w_session w') = None"
proof -
  let ?w = "w\<lparr>w_tick := Suc (w_tick w)\<rparr>"
  obtain a w1 where ask: "ask env (answer_session env) (Rq_Fork parent) ?w = (a, w1)" by fastforce
  then have a: "a = Inl err" using assms(3) by (auto simp: ask_def)
  have "w_requests w1 = w_requests w @ [Rq_Fork parent]" "sid (w_session w1) = None"
    using requests_ask [OF ask] session_id.part_ask [OF assms(4) ask] assms(1) by simp_all
  then show ?thesis
    using assms(1,2) ask a
    by (cases "stands env (w_tick w)")
      (auto simp: ensure_session_opened_def ensure_protocol_connected_def is_connected_def open_session_fork_def)
qed


section \<open>Runs\<close>

definition sample_meta :: agent_metadata where
  "sample_meta = \<lparr>backend = Some ''codex'', yolo_id = Some ''agent-full-access'', session_load_via_meta_field = False\<rparr>"

definition sample_params :: "string acp_params" where
  "sample_params = \<lparr>metadata = sample_meta, fork_parent = None, cfg_session_mode = None, cfg_model = None,
     cfg_thought_level = None, session_snapshot = None, handshake_modes = None, handshake_models = None\<rparr>"

definition sample_option :: "string \<Rightarrow> string \<Rightarrow> session_config_option" where
  "sample_option option_id current = \<lparr>co_id = option_id, co_name = option_id, co_description = None, co_category = None,
     co_kind = Kind_Select current (Ungrouped (map (\<lambda>v. \<lparr>so_value = v, so_name = v, so_description = None\<rparr>)
       [''low'', ''high'']))\<rparr>"

definition sample_session :: "string acp_session" where
  "sample_session =
    set_session_id ''s1'' (apply_advertised_config_options [sample_option ''effort'' ''low''] (acp_session_new None None []))"

definition sample_acp_world :: "string acp_session \<Rightarrow> string acp_world" where
  "sample_acp_world s = \<lparr>w_session = s, w_sent = [], w_emitted = [], w_requests = [], w_tick = 0\<rparr>"

text \<open>An agent that grants everything, and an old one that refuses sessions but keeps the ones it has.\<close>

definition willing_agent :: "session_response \<Rightarrow> session_config_option list \<Rightarrow> string agent_env" where
  "willing_agent r options = \<lparr>answer_session = (\<lambda>n. Inr r), answer_config = (\<lambda>n. Inr options),
     answer_ack = (\<lambda>n. Inr ()), stands = (\<lambda>n. True), meanwhile = (\<lambda>n. []), slack = (\<lambda>n. 0)\<rparr>"

definition plain_response :: "string \<Rightarrow> session_response" where
  "plain_response i = \<lparr>rs_session_id = i, rs_models = None, rs_modes = None, rs_options = None\<rparr>"

definition refusing_agent :: "acp_error \<Rightarrow> string agent_env" where
  "refusing_agent err = (willing_agent (plain_response []) [])\<lparr>answer_session := (\<lambda>n. Inl err)\<rparr>"

lemma sample_undisturbed: "undisturbed id_call (willing_agent r options)" "undisturbed id_call (refusing_agent err)"
  by (simp_all add: undisturbed_def willing_agent_def refusing_agent_def)

lemma confirmed_run: "w_requests (snd (set_config_option_confirmed
    (willing_agent (plain_response ''s1'') [sample_option ''effort'' ''high'']) sample_meta '' effort'' ''high ''
    (sample_acp_world sample_session))) = [Rq_SetConfig ''s1'' ''effort'' ''high'']"
  by code_simp

lemma confirmed_option_is_reported_witness:
  "\<exists>i rq snapshot. w_requests (snd (set_config_option_confirmed
        (willing_agent (plain_response ''s1'') [sample_option ''effort'' ''high'']) sample_meta '' effort'' ''high ''
        (sample_acp_world sample_session))) = [rq]
    \<and> confirmed_by i ''effort'' ''high'' rq snapshot (w_session (snd (set_config_option_confirmed
        (willing_agent (plain_response ''s1'') [sample_option ''effort'' ''high'']) sample_meta '' effort'' ''high ''
        (sample_acp_world sample_session))))"
proof -
  let ?run = "set_config_option_confirmed
    (willing_agent (plain_response ''s1'') [sample_option ''effort'' ''high'']) sample_meta '' effort'' ''high ''
    (sample_acp_world sample_session)"
  have "\<not> isl (fst ?run)" by code_simp
  then obtain options where "fst ?run = Inr options" by (cases "fst ?run") auto
  then have run: "?run = (Inr options, snd ?run)" by (simp add: prod_eq_iff)
  have "w_requests (sample_acp_world sample_session) = []" by code_simp
  moreover have "trim '' effort'' = ''effort''" "trim ''high '' = ''high''" by code_simp+
  moreover have "normalize_config_option_request_value sample_meta (session_config_snapshot (w_session (sample_acp_world sample_session)))
      ''effort'' ''high'' = ''high''" by code_simp
  ultimately show ?thesis using confirmed_option_is_reported [OF run] by auto
qed

definition resumable :: "string acp_session" where
  "resumable = apply_advertised_capabilities \<lparr>load_session = True, fork_session = False\<rparr>
     (manager_set_session_id ''s1'' (acp_session_new None None []))"

lemma known_session_is_kept_witness:
  "\<exists>rs. w_requests (snd (ensure_session_opened (refusing_agent (Disconnected None None [])) sample_params
    (sample_acp_world resumable))) = rs \<and> no_fresh rs \<and> Rq_Load ''s1'' \<in> set rs"
proof -
  let ?run = "ensure_session_opened (refusing_agent (Disconnected None None [])) sample_params (sample_acp_world resumable)"
  have "sid (w_session (sample_acp_world resumable)) = Some ''s1''" by code_simp
  moreover have "keeps_sessions (refusing_agent (Disconnected None None [])) ''s1''"
    by (simp add: keeps_sessions_def refusing_agent_def willing_agent_def is_missing_resumed_session_def)
  moreover have "w_requests (sample_acp_world resumable) = []" by code_simp
  ultimately have "\<exists>rs. w_requests (snd ?run) = rs \<and> no_fresh rs"
    using known_session_is_kept [of "sample_acp_world resumable" "''s1''" _ sample_params "fst ?run" "snd ?run"] by simp
  moreover have "Rq_Load ''s1'' \<in> set (w_requests (snd ?run))" by code_simp
  ultimately show ?thesis by blast
qed

lemma opened_session_id_witness:
  "sid (w_session (snd (ensure_session_opened (willing_agent (plain_response ''s2'') []) sample_params
    (sample_acp_world (acp_session_new None None []))))) = Some ''s2''"
proof -
  let ?run = "ensure_session_opened (willing_agent (plain_response ''s2'') []) sample_params
    (sample_acp_world (acp_session_new None None []))"
  have "(case fst ?run of Inr i \<Rightarrow> i = ''s2'' | Inl err \<Rightarrow> False)" by code_simp
  then have "?run = (Inr ''s2'', snd ?run)" by (cases ?run) (auto split: sum.splits)
  moreover have "\<not> session_load_via_meta_field (metadata sample_params)" by code_simp
  ultimately show ?thesis using opened_session_id [OF sample_undisturbed(1)] by blast
qed

lemma refused_fork_opens_nothing_witness:
  "w_requests (snd (ensure_session_opened (refusing_agent AuthRequired) (sample_params\<lparr>fork_parent := Some ''p1''\<rparr>)
    (sample_acp_world (acp_session_new None None [])))) \<in> {[], [Rq_Fork ''p1'']}"
proof -
  let ?w = "sample_acp_world (acp_session_new None None [])"
  have "sid (w_session ?w) = None" "w_requests ?w = []" by code_simp+
  moreover have "fork_parent (sample_params\<lparr>fork_parent := Some ''p1''\<rparr>) = Some ''p1''" by simp
  moreover have "answer_session (refusing_agent AuthRequired) (Suc (w_tick ?w)) = Inl AuthRequired"
    by (simp add: refusing_agent_def)
  ultimately show ?thesis
    using refused_fork_opens_nothing [of ?w "sample_params\<lparr>fork_parent := Some ''p1''\<rparr>" "''p1''"
        "refusing_agent AuthRequired" AuthRequired, OF _ _ _ sample_undisturbed(2)]
    by (simp add: case_prod_beta)
qed


section \<open>Runs against the comments\<close>

text \<open>
  A backend that resumes by a new session and answers with another id: the id handed back is the new one, the
  aggregate keeps the old one, no event tells persistence, and the next turn is sent to the old session.
\<close>

definition meta_params :: "string acp_params" where
  "meta_params = sample_params\<lparr>metadata := sample_meta\<lparr>session_load_via_meta_field := True\<rparr>\<rparr>"

lemma resumed_id_is_lost:
  "case ensure_session_opened (willing_agent (plain_response ''s2'') []) meta_params (sample_acp_world resumable) of (r, w) \<Rightarrow>
    (case r of Inr i \<Rightarrow> i = ''s2'' | Inl err \<Rightarrow> False) \<and> sid (w_session w) = Some ''s1''
    \<and> list_all (\<lambda>e. follow_id e None = None) (w_sent w)
    \<and> (case fst (ensure_session_opened (willing_agent (plain_response ''s2'') []) meta_params w) of
         Inr i \<Rightarrow> i = ''s1'' | Inl err \<Rightarrow> False)"
  by code_simp

text \<open>
  \<open>session/load\<close> reports the mode the agent is really in; the mode of the table is put in its place, so that the
  reconciliation that follows sees nothing to do, and the agent stays in the other mode.
\<close>

definition two_modes :: "string \<Rightarrow> session_mode_state" where
  "two_modes current = \<lparr>current_mode_id = current, available_modes = map (\<lambda>m. \<lparr>mode_id = m, mode_name = m,
     mode_description = None\<rparr>) [''default'', ''plan'']\<rparr>"

definition plan_snapshot :: "string persisted_session_state" where
  "plan_snapshot = \<lparr>kept_mode = Some ''plan'', kept_model = None, kept_selections = [], kept_usage = None\<rparr>"

definition plan_params :: "string acp_params" where
  "plan_params = sample_params\<lparr>session_snapshot := Some plan_snapshot, metadata := sample_meta\<lparr>backend := Some ''gemini''\<rparr>\<rparr>"

lemma loaded_mode_is_hidden:
  "case ensure_session_opened
      (willing_agent ((plain_response ''s1'')\<lparr>rs_modes := Some (two_modes ''default'')\<rparr>) []) plan_params
      (sample_acp_world (manager_set_session_id ''s1'' (manager_init plan_params
        (Some \<lparr>load_session = True, fork_session = False\<rparr>) None (manager_new plan_params)))) of (r, w) \<Rightarrow>
    w_requests w = [Rq_Load ''s1''] \<and> seen_mode (observed (w_session w)) = Some ''plan''
    \<and> want_mode (desired (w_session w)) = Some ''plan''"
  by code_simp

text \<open>
  An acknowledged \<open>set_mode\<close> or \<open>set_model\<close> is not taken as observed, so every acknowledged option plans both
  again; with both wanted the eight requests are used up after two options.
\<close>

definition wanting :: "string acp_session" where
  "wanting = set_session_id ''s1'' (acp_session_new (Some ''plan'') (Some ''opus'')
     [(''a'', ''high''), (''b'', ''high''), (''c'', ''high'')])"

definition reporting_agent :: "string agent_env" where
  "reporting_agent = (willing_agent (plain_response ''s1'') [])\<lparr>answer_config :=
     (\<lambda>n. Inr [sample_option (if n < 3 then ''a'' else ''b'') ''high''])\<rparr>"

lemma options_starve:
  "case reconcile_session reporting_agent sample_meta ''s1'' (sample_acp_world wanting) of (r, w) \<Rightarrow>
    w_requests w = [Rq_SetMode ''s1'' ''plan'', Rq_SetModel ''s1'' ''opus'', Rq_SetConfig ''s1'' ''a'' ''high'',
      Rq_SetMode ''s1'' ''plan'', Rq_SetModel ''s1'' ''opus'', Rq_SetConfig ''s1'' ''b'' ''high'',
      Rq_SetMode ''s1'' ''plan'', Rq_SetModel ''s1'' ''opus'']
    \<and> r = Inr () \<and> SetConfigOption ''c'' ''high'' \<in> set (plan_reconcile (w_session w))"
  by code_simp

text \<open>A wanted mode need not be an advertised one: a later catalogue may lack it.\<close>

lemma wanted_mode_not_advertised:
  "case set_desired_mode ''architect'' (acp_session_new None None [] :: string acp_session) of (changed, s) \<Rightarrow>
    changed \<and> want_mode (desired (apply_advertised_modes (two_modes ''default'') s)) = Some ''architect''
    \<and> \<not> is_mode_valid (apply_advertised_modes (two_modes ''default'') s) ''architect''"
  by code_simp

text \<open>
  A session the agent has lost and cannot replace: the aggregate forgets the id, but no event says so, and the id
  stays in the table.
\<close>

lemma lost_id_stays_stored:
  "case ensure_session_opened (refusing_agent (SessionNotFound ''s1'')) sample_params (sample_acp_world resumable) of (r, w) \<Rightarrow>
    isl r \<and> sid (w_session w) = None \<and> w_sent w = []"
  by code_simp

end
