(* ===== verification/Acp_Sync.thy ===== *)
theory Acp_Sync
  imports Acp_Store
begin

text \<open>
  The consumer that persists what an agent reported: \<open>persistence/acp_session_sync.rs\<close> of
  \<open>crates/aionui-ai-agent\<close>. It takes the events of one session in order, merges what was observed into a
  pending update, and writes it once nothing more was observed for half a second; a session id is written at
  once. The repository is an argument, as the trait object is in the code.

  An input of the consumer is an event, the deadline of the pending update or the end of the channel, with
  the clock and whether the database answers.
\<close>

section \<open>The repository\<close>

record ('d, 't) acp_repository =
  repo_get :: "bool \<Rightarrow> string \<Rightarrow> string \<Rightarrow> 'd \<Rightarrow> session_db_error + 't acp_session_row option"
  repo_load :: "bool \<Rightarrow> string \<Rightarrow> string \<Rightarrow> 'd \<Rightarrow> session_db_error + 't stored_runtime option"
  repo_save :: "timestamp_ms \<Rightarrow> bool \<Rightarrow> string \<Rightarrow> string \<Rightarrow> 't save_params \<Rightarrow> 'd \<Rightarrow> (session_db_error + bool) \<times> 'd"
  repo_assign :: "timestamp_ms \<Rightarrow> bool \<Rightarrow> string \<Rightarrow> string \<Rightarrow> string \<Rightarrow> 'd \<Rightarrow> (session_db_error + bool) \<times> 'd"

definition sqlite_repository :: "'t serde \<Rightarrow> ('t acp_tables, 't) acp_repository" where
  "sqlite_repository sd =
    \<lparr>repo_get = get_for_user,
     repo_load = load_runtime_state_for_user sd,
     repo_save = save_runtime_state_for_user sd,
     repo_assign = update_session_id_for_user\<rparr>"


section \<open>Reading\<close>

definition load_snapshot_state ::
  "'t serde \<Rightarrow> ('d, 't) acp_repository \<Rightarrow> bool \<Rightarrow> string \<Rightarrow> string \<Rightarrow> 'd \<Rightarrow> 't persisted_session_state option" where
  "load_snapshot_state sd repo up user_id conversation db =
    (case repo_load repo up user_id conversation db of
       Inl err \<Rightarrow> None
     | Inr None \<Rightarrow> None
     | Inr (Some row) \<Rightarrow>
         Some \<lparr>kept_mode = stored_mode row, kept_model = stored_model row,
           kept_selections = (case Option.bind (stored_config row) (text_texts sd) of Some m \<Rightarrow> m | None \<Rightarrow> []),
           kept_usage = Option.bind (stored_usage row) (text_usage sd)\<rparr>)"

definition load_persisted ::
  "('d, 't) acp_repository \<Rightarrow> bool \<Rightarrow> string \<Rightarrow> string \<Rightarrow> 'd \<Rightarrow> 't stored_runtime option" where
  "load_persisted repo up user_id conversation db =
    (case repo_load repo up user_id conversation db of Inl err \<Rightarrow> None | Inr state \<Rightarrow> state)"

definition load_session_id ::
  "('d, 't) acp_repository \<Rightarrow> bool \<Rightarrow> string \<Rightarrow> string \<Rightarrow> 'd \<Rightarrow> string option" where
  "load_session_id repo up user_id conversation db =
    (case repo_get repo up user_id conversation db of
       Inr (Some row) \<Rightarrow> row_session_id row | _ \<Rightarrow> None)"


section \<open>The pending update\<close>

record 't pending_update =
  pend_mode :: "string option option"
  pend_model :: "string option option"
  pend_config :: "'t option option"
  pend_usage :: "'t option option"

definition no_runtime_update :: "'t pending_update" where
  "no_runtime_update = \<lparr>pend_mode = None, pend_model = None, pend_config = None, pend_usage = None\<rparr>"

definition pending_is_empty :: "'t pending_update \<Rightarrow> bool" where
  "pending_is_empty p \<longleftrightarrow> pend_mode p = None \<and> pend_model p = None \<and> pend_config p = None \<and> pend_usage p = None"

definition as_save_params :: "'t pending_update \<Rightarrow> 't save_params" where
  "as_save_params p =
    \<lparr>save_mode = pend_mode p, save_model = pend_model p, save_config = pend_config p, save_usage = pend_usage p\<rparr>"

text \<open>The keys and values of a selection map are wrapped texts, so the map of texts is the map itself.\<close>

fun merge_from_domain_event ::
  "'t serde \<Rightarrow> 't acp_session_event \<Rightarrow> 't pending_update \<Rightarrow> bool \<times> 't pending_update" where
  "merge_from_domain_event sd (ObservedModeSynced mode) p = (True, p\<lparr>pend_mode := Some (Some mode)\<rparr>)"
| "merge_from_domain_event sd (ObservedModelSynced model) p = (True, p\<lparr>pend_model := Some (Some model)\<rparr>)"
| "merge_from_domain_event sd (ObservedConfigSynced selections) p =
    (True, p\<lparr>pend_config := Some (Some (map_text sd selections))\<rparr>)"
| "merge_from_domain_event sd (ObservedContextUsageChanged usage) p = (True, p\<lparr>pend_usage := Some (Some usage)\<rparr>)"
| "merge_from_domain_event sd _ p = (False, p)"


section \<open>The consumer\<close>

definition debounce_window :: timestamp_ms where
  "debounce_window = 500"

record 't consumer =
  pending_part :: "'t pending_update"
  flush_at :: "timestamp_ms option"
  exited :: bool

definition fresh_consumer :: "'t consumer" where
  "fresh_consumer = \<lparr>pending_part = no_runtime_update, flush_at = None, exited = False\<rparr>"

datatype 't consumer_input =
    Got "'t acp_session_event"
  | Deadline
  | Closed

text \<open>The pending update is gone after a flush, whatever the write came to.\<close>

definition flush ::
  "('d, 't) acp_repository \<Rightarrow> string \<Rightarrow> string \<Rightarrow> timestamp_ms \<Rightarrow> bool \<Rightarrow> 't consumer \<Rightarrow> 'd \<Rightarrow> 't consumer \<times> 'd" where
  "flush repo user_id conversation now up c db =
    (if pending_is_empty (pending_part c) then (c, db)
     else case repo_save repo now up user_id conversation (as_save_params (pending_part c)) db of
       (result, db) \<Rightarrow> (c\<lparr>pending_part := no_runtime_update\<rparr>, db))"

definition consumer_step ::
  "'t serde \<Rightarrow> ('d, 't) acp_repository \<Rightarrow> string \<Rightarrow> string \<Rightarrow> timestamp_ms \<Rightarrow> bool \<Rightarrow> 't consumer_input
    \<Rightarrow> 't consumer \<times> 'd \<Rightarrow> 't consumer \<times> 'd" where
  "consumer_step sd repo user_id conversation now up inp cd =
    (case cd of (c, db) \<Rightarrow>
      if exited c then cd
      else case inp of
        Got (SessionAssigned new_sid) \<Rightarrow>
          (case repo_assign repo now up user_id conversation new_sid db of (result, db) \<Rightarrow> (c, db))
      | Got event \<Rightarrow>
          (case merge_from_domain_event sd event (pending_part c) of
             (merged, p) \<Rightarrow>
               (c\<lparr>pending_part := p,
                  flush_at := (if merged then Some (now + debounce_window) else flush_at c)\<rparr>, db))
      | Deadline \<Rightarrow>
          (case flush_at c of
             Some deadline \<Rightarrow>
               if now < deadline then cd
               else (case flush repo user_id conversation now up c db of (c, db) \<Rightarrow> (c\<lparr>flush_at := None\<rparr>, db))
           | None \<Rightarrow> cd)
      | Closed \<Rightarrow>
          (case flush repo user_id conversation now up c db of (c, db) \<Rightarrow> (c\<lparr>exited := True\<rparr>, db)))"

text \<open>Each input comes with the clock and whether the database answers then.\<close>

definition run_consumer ::
  "'t serde \<Rightarrow> ('d, 't) acp_repository \<Rightarrow> string \<Rightarrow> string
    \<Rightarrow> (timestamp_ms \<times> bool \<times> 't consumer_input) list \<Rightarrow> 't consumer \<times> 'd \<Rightarrow> 't consumer \<times> 'd" where
  "run_consumer sd repo user_id conversation inputs cd =
    fold (\<lambda>(now, up, inp). consumer_step sd repo user_id conversation now up inp) inputs cd"

text \<open>\<open>attach\<close>: the consumer of a conversation replaces the one it had, which is aborted.\<close>

definition attach :: "string \<Rightarrow> (string, 't consumer) hashmap \<Rightarrow> (string, 't consumer) hashmap" where
  "attach conversation active = AList.update conversation fresh_consumer active"

end
