(* ===== verification/Acp_Restart.thy ===== *)
theory Acp_Restart
  imports Acp_Sync Acp_Reports
begin

text \<open>
  What a restart brings back. The interface between the consumer and its repository is the locale
  \<open>session_store\<close>: a save merges into what a later load restores, and an id written is the one read back. In
  it the consumer is shown to keep, in the table and its pending update together, the report its events lead
  to; the SQLite repository is an interpretation.
\<close>

section \<open>What the table restores\<close>

definition persisted_report :: "'t persisted_session_state \<Rightarrow> 't report" where
  "persisted_report st =
    \<lparr>rep_mode = kept_mode st, rep_model = kept_model st, rep_config = map_of (kept_selections st),
     rep_usage = kept_usage st\<rparr>"

definition restored ::
  "'t serde \<Rightarrow> ('d, 't) acp_repository \<Rightarrow> string \<Rightarrow> string \<Rightarrow> 'd \<Rightarrow> 't report option" where
  "restored sd repo user_id conversation db =
    map_option persisted_report (load_snapshot_state sd repo True user_id conversation db)"

text \<open>An update as the consumer builds it: texts of maps, and usages the agent reported.\<close>

definition saveable :: "'t serde \<Rightarrow> 't set \<Rightarrow> 't save_params \<Rightarrow> bool" where
  "saveable sd usages p \<longleftrightarrow>
    save_mode p \<noteq> Some None \<and> save_model p \<noteq> Some None \<and>
    (save_config p = None \<or> (\<exists>m. save_config p = Some (Some (map_text sd m)))) \<and>
    (save_usage p = None \<or> (\<exists>u \<in> usages. save_usage p = Some (Some u)))"

definition saved_config :: "'t serde \<Rightarrow> 't \<Rightarrow> (string \<rightharpoonup> string)" where
  "saved_config sd t = (case text_texts sd t of Some m \<Rightarrow> map_of m | None \<Rightarrow> Map.empty)"

definition merged :: "'t serde \<Rightarrow> 't save_params \<Rightarrow> 't report \<Rightarrow> 't report" where
  "merged sd p r =
    \<lparr>rep_mode = (case save_mode p of Some x \<Rightarrow> x | None \<Rightarrow> rep_mode r),
     rep_model = (case save_model p of Some x \<Rightarrow> x | None \<Rightarrow> rep_model r),
     rep_config = (case save_config p of Some (Some t) \<Rightarrow> saved_config sd t | Some None \<Rightarrow> Map.empty | None \<Rightarrow> rep_config r),
     rep_usage = (case save_usage p of Some x \<Rightarrow> x | None \<Rightarrow> rep_usage r)\<rparr>"

lemma map_of_value_texts: "\<exists>m'. value_texts (texts_value m) = Some m' \<and> map_of m' = map_of m"
proof -
  let ?members = "fmmap JString (fmap_of_list m)"
  let ?xs = "sorted_list_of_fmap ?members"
  have "map_of (map (\<lambda>(key, x). (key, the (json_as_str x))) ?xs) = map_option (\<lambda>x. the (json_as_str x)) \<circ> fmlookup ?members"
    by (simp add: map_of_map)
  also have "\<dots> = map_of m"
    by (simp add: fun_eq_iff fmlookup_of_list option.map_comp comp_def option.map_ident)
  finally show ?thesis
    by (simp add: value_texts_def texts_value_def curry_def fmpred_iff) auto
qed

lemma saved_config_map_text:
  assumes "serde_ok sd usages"
  shows "saved_config sd (map_text sd m) = map_of m"
    "saved_config sd (value_text sd (texts_value m)) = map_of m"
  using assms map_of_value_texts [of m] json_within_texts [of 127 sd m]
  by (auto simp: saved_config_def text_texts_def serde_ok_def)

section \<open>The interface of the repository\<close>

definition assigned_id :: "('d, 't) acp_repository \<Rightarrow> string \<Rightarrow> string \<Rightarrow> 'd \<Rightarrow> string option" where
  "assigned_id repo user_id conversation db = load_session_id repo True user_id conversation db"

text \<open>The events among the inputs of a consumer.\<close>

fun got_events :: "(timestamp_ms \<times> bool \<times> 't consumer_input) list \<Rightarrow> 't acp_session_event list" where
  "got_events [] = []"
| "got_events ((now, up, Got e) # inputs) = e # got_events inputs"
| "got_events ((now, up, Deadline) # inputs) = got_events inputs"
| "got_events ((now, up, Closed) # inputs) = got_events inputs"

locale session_store =
  fixes sd :: "'t serde" and repo :: "('d, 't) acp_repository" and user_id conversation :: string
    and usages :: "'t set" and ready :: "'d \<Rightarrow> bool"
  assumes serde: "ready db \<Longrightarrow> serde_ok sd usages"
    and readable: "ready db \<Longrightarrow> restored sd repo user_id conversation db \<noteq> None"
    and save: "ready db \<Longrightarrow> saveable sd usages p \<Longrightarrow>
      \<exists>db'. repo_save repo now True user_id conversation p db = (Inr True, db') \<and> ready db'
        \<and> restored sd repo user_id conversation db' = map_option (merged sd p) (restored sd repo user_id conversation db)
        \<and> assigned_id repo user_id conversation db' = assigned_id repo user_id conversation db"
    and assign: "ready db \<Longrightarrow>
      \<exists>db'. repo_assign repo now True user_id conversation i db = (Inr True, db') \<and> ready db'
        \<and> restored sd repo user_id conversation db' = restored sd repo user_id conversation db
        \<and> assigned_id repo user_id conversation db' = Some i"
begin

text \<open>The report that the table and the pending update hold together.\<close>

definition effective :: "'t consumer \<times> 'd \<Rightarrow> 't report option" where
  "effective cd = map_option (merged sd (as_save_params (pending_part (fst cd))))
     (restored sd repo user_id conversation (snd cd))"

definition sound_consumer :: "'t consumer \<times> 'd \<Rightarrow> bool" where
  "sound_consumer cd \<longleftrightarrow> ready (snd cd) \<and> saveable sd usages (as_save_params (pending_part (fst cd)))"

lemma merged_nothing [simp]: "merged sd (as_save_params no_runtime_update) = (\<lambda>r. r)"
  by (simp add: merged_def as_save_params_def no_runtime_update_def fun_eq_iff)

lemma saveable_nothing [simp]: "saveable sd usages (as_save_params no_runtime_update)"
  by (simp add: saveable_def as_save_params_def no_runtime_update_def)

lemma empty_pending: "pending_is_empty p \<longleftrightarrow> p = no_runtime_update"
  by (auto simp: pending_is_empty_def no_runtime_update_def intro: pending_update.equality)

lemma flush_keeps:
  assumes "sound_consumer (c, db)" "flush repo user_id conversation now True c db = (c', db')"
  shows "sound_consumer (c', db')" "effective (c', db') = effective (c, db)" "pending_part c' = no_runtime_update"
    "assigned_id repo user_id conversation db' = assigned_id repo user_id conversation db" "exited c' = exited c"
proof -
  let ?p = "as_save_params (pending_part c)"
  obtain db2 where db2: "repo_save repo now True user_id conversation ?p db = (Inr True, db2)" "ready db2"
      "restored sd repo user_id conversation db2 = map_option (merged sd ?p) (restored sd repo user_id conversation db)"
      "assigned_id repo user_id conversation db2 = assigned_id repo user_id conversation db"
    using assms(1) save [of db ?p now] by (auto simp: sound_consumer_def)
  show "sound_consumer (c', db')" "effective (c', db') = effective (c, db)" "pending_part c' = no_runtime_update"
    "assigned_id repo user_id conversation db' = assigned_id repo user_id conversation db" "exited c' = exited c"
    using assms db2 by (cases "pending_is_empty (pending_part c)";
        force simp: flush_def sound_consumer_def effective_def empty_pending option.map_comp comp_def option.map_ident)+
qed

lemma merge_event:
  assumes "merge_from_domain_event sd e p = (b, p')" "serde_ok sd usages" "reports_usage e \<subseteq> usages"
  shows "merged sd (as_save_params p') r = follow_report e (merged sd (as_save_params p) r)"
    "saveable sd usages (as_save_params p) \<Longrightarrow> saveable sd usages (as_save_params p')"
  using assms by (cases e; auto simp: merged_def as_save_params_def saveable_def saved_config_map_text)+

text \<open>An input that arrives while the consumer runs and the database answers.\<close>

definition kept_by :: "'t consumer_input \<Rightarrow> 't consumer \<times> 'd \<Rightarrow> 't consumer \<times> 'd \<Rightarrow> bool" where
  "kept_by inp cd cd' \<longleftrightarrow> sound_consumer cd'
    \<and> effective cd' = (case inp of Got e \<Rightarrow> map_option (follow_report e) (effective cd) | _ \<Rightarrow> effective cd)
    \<and> assigned_id repo user_id conversation (snd cd') = (case inp of
        Got e \<Rightarrow> follow_id e (assigned_id repo user_id conversation (snd cd))
      | _ \<Rightarrow> assigned_id repo user_id conversation (snd cd))
    \<and> (exited (fst cd') \<longleftrightarrow> inp = Closed) \<and> (inp = Closed \<longrightarrow> pending_part (fst cd') = no_runtime_update)"

lemma event_keeps:
  assumes sound: "sound_consumer (c, db)" and on: "\<not> exited c" and e: "reports_usage e \<subseteq> usages"
  shows "kept_by (Got e) (c, db) (consumer_step sd repo user_id conversation now True (Got e) (c, db))"
proof (cases "\<exists>i. e = SessionAssigned i")
  case True
  then obtain i where i: "e = SessionAssigned i" by blast
  obtain db2 where "repo_assign repo now True user_id conversation i db = (Inr True, db2)" "ready db2"
      "restored sd repo user_id conversation db2 = restored sd repo user_id conversation db"
      "assigned_id repo user_id conversation db2 = Some i"
    using sound assign [of db now i] by (auto simp: sound_consumer_def)
  with i sound on show ?thesis
    by (simp add: consumer_step_def kept_by_def sound_consumer_def effective_def option.map_comp comp_def option.map_ident)
next
  case False
  obtain b p where p: "merge_from_domain_event sd e (pending_part c) = (b, p)" by fastforce
  have step: "consumer_step sd repo user_id conversation now True (Got e) (c, db) =
      (c\<lparr>pending_part := p, flush_at := (if b then Some (now + debounce_window) else flush_at c)\<rparr>, db)"
    using False on p by (cases e) (simp_all add: consumer_step_def)
  have "serde_ok sd usages" using sound serde [of db] by (simp add: sound_consumer_def)
  note merge = merge_event [OF p this e]
  have "merged sd (as_save_params p) = (\<lambda>r. follow_report e (merged sd (as_save_params (pending_part c)) r))"
    by (rule ext) (rule merge(1))
  moreover have "follow_id e x = x" for x using False by (cases e) simp_all
  ultimately show ?thesis
    using sound on merge(2)
    by (simp add: step kept_by_def sound_consumer_def effective_def option.map_comp comp_def)
qed

lemma step_keeps:
  assumes "sound_consumer cd" "\<not> exited (fst cd)" "\<forall>e. inp = Got e \<longrightarrow> reports_usage e \<subseteq> usages"
  shows "kept_by inp cd (consumer_step sd repo user_id conversation now True inp cd)"
proof -
  obtain c db where cd: "cd = (c, db)" by fastforce
  obtain c' db' where flush: "flush repo user_id conversation now True c db = (c', db')" by fastforce
  note keeps = flush_keeps [OF _ flush]
  show ?thesis
  proof (cases inp)
    case (Got e)
    then show ?thesis using assms event_keeps cd by simp
  next
    case Deadline
    then show ?thesis
      using assms keeps cd flush
      by (auto simp: consumer_step_def kept_by_def sound_consumer_def effective_def split: option.split)
  next
    case Closed
    then show ?thesis
      using assms keeps cd flush
      by (auto simp: consumer_step_def kept_by_def sound_consumer_def effective_def split: option.split)
  qed
qed

lemma run_keeps:
  assumes "sound_consumer cd" "\<not> exited (fst cd)"
    and "\<forall>(now, up, inp) \<in> set inputs. up \<and> inp \<noteq> Closed \<and> (\<forall>e. inp = Got e \<longrightarrow> reports_usage e \<subseteq> usages)"
  shows "sound_consumer (run_consumer sd repo user_id conversation inputs cd)
    \<and> \<not> exited (fst (run_consumer sd repo user_id conversation inputs cd))
    \<and> effective (run_consumer sd repo user_id conversation inputs cd)
        = map_option (fold follow_report (got_events inputs)) (effective cd)
    \<and> assigned_id repo user_id conversation (snd (run_consumer sd repo user_id conversation inputs cd))
        = fold follow_id (got_events inputs) (assigned_id repo user_id conversation (snd cd))"
  using assms
proof (induction inputs arbitrary: cd)
  case Nil
  then show ?case by (simp add: run_consumer_def option.map_ident)
next
  case (Cons x inputs)
  obtain now up inp where x: "x = (now, up, inp)" by (cases x)
  let ?cd = "consumer_step sd repo user_id conversation now True inp cd"
  have "up" "inp \<noteq> Closed" "\<forall>e. inp = Got e \<longrightarrow> reports_usage e \<subseteq> usages" using Cons.prems(3) x by auto
  then have "kept_by inp cd ?cd" using Cons.prems step_keeps by blast
  moreover have "run_consumer sd repo user_id conversation (x # inputs) cd
      = run_consumer sd repo user_id conversation inputs ?cd"
    using x \<open>up\<close> by (simp add: run_consumer_def)
  moreover have "got_events (x # inputs) = (case inp of Got e \<Rightarrow> e # got_events inputs | _ \<Rightarrow> got_events inputs)"
    by (simp add: x split: consumer_input.split)
  ultimately show ?case
    using Cons.IH [of ?cd] Cons.prems(3) \<open>inp \<noteq> Closed\<close>
    by (cases inp) (auto simp: kept_by_def option.map_comp comp_def)
qed

text \<open>Everything the events lead to is in the table once the channel is closed.\<close>

lemma closing_saves:
  assumes "ready db" "restored sd repo user_id conversation db = Some r"
    and "\<forall>(now, up, inp) \<in> set inputs. up \<and> inp \<noteq> Closed \<and> (\<forall>e. inp = Got e \<longrightarrow> reports_usage e \<subseteq> usages)"
  shows "restored sd repo user_id conversation
      (snd (run_consumer sd repo user_id conversation (inputs @ [(now, True, Closed)]) (fresh_consumer, db)))
        = Some (fold follow_report (got_events inputs) r)"
    "assigned_id repo user_id conversation
      (snd (run_consumer sd repo user_id conversation (inputs @ [(now, True, Closed)]) (fresh_consumer, db)))
        = fold follow_id (got_events inputs) (assigned_id repo user_id conversation db)"
proof -
  let ?cd = "run_consumer sd repo user_id conversation inputs (fresh_consumer, db)"
  let ?cd' = "consumer_step sd repo user_id conversation now True Closed ?cd"
  have fresh: "sound_consumer (fresh_consumer, db)" "\<not> exited (fst (fresh_consumer, db))"
      "effective (fresh_consumer, db) = Some r"
    using assms(1,2) by (simp_all add: sound_consumer_def fresh_consumer_def effective_def)
  note run = run_keeps [OF fresh(1,2) assms(3)]
  have "kept_by Closed ?cd ?cd'" using run by (intro step_keeps) simp_all
  moreover have "run_consumer sd repo user_id conversation (inputs @ [(now, True, Closed)]) (fresh_consumer, db) = ?cd'"
    by (simp add: run_consumer_def)
  moreover have "effective ?cd' = restored sd repo user_id conversation (snd ?cd')"
    using calculation(1) by (simp add: kept_by_def effective_def option.map_ident)
  ultimately show "restored sd repo user_id conversation
      (snd (run_consumer sd repo user_id conversation (inputs @ [(now, True, Closed)]) (fresh_consumer, db)))
        = Some (fold follow_report (got_events inputs) r)"
    "assigned_id repo user_id conversation
      (snd (run_consumer sd repo user_id conversation (inputs @ [(now, True, Closed)]) (fresh_consumer, db)))
        = fold follow_id (got_events inputs) (assigned_id repo user_id conversation db)"
    using run fresh(3) by (simp_all add: kept_by_def)
qed

end

section \<open>The SQLite repository provides it\<close>

definition readable_config :: "'t serde \<Rightarrow> 't \<Rightarrow> bool" where
  "readable_config sd t =
    (case text_value sd t of
       Some (JObject doc) \<Rightarrow> (case fmlookup doc ''runtime'' of None \<Rightarrow> True | Some (JObject m) \<Rightarrow> True | _ \<Rightarrow> False)
     | _ \<Rightarrow> False)"

definition table_ready :: "'t serde \<Rightarrow> 't set \<Rightarrow> string \<Rightarrow> string \<Rightarrow> 't acp_tables \<Rightarrow> bool" where
  "table_ready sd usages user_id conversation db \<longleftrightarrow>
    serde_ok sd usages \<and>
    (case row_for_user db user_id conversation of Some row \<Rightarrow> readable_config sd (row_config row) | None \<Rightarrow> False)"

definition members_report :: "'t serde \<Rightarrow> (string, json_value) fmap \<Rightarrow> 't report" where
  "members_report sd ms =
    \<lparr>rep_mode = Option.bind (fmlookup ms ''current_mode_id'') json_as_str,
     rep_model = Option.bind (fmlookup ms ''current_model_id'') json_as_str,
     rep_config = (case fmlookup ms ''config_selections'' of Some v \<Rightarrow> saved_config sd (value_text sd v) | None \<Rightarrow> Map.empty),
     rep_usage = Option.bind (fmlookup ms ''context_usage'') (\<lambda>v. text_usage sd (value_text sd v))\<rparr>"

lemma readable_config_iff:
  "readable_config sd t \<longleftrightarrow> (\<exists>doc. text_value sd t = Some (JObject doc)
    \<and> (fmlookup doc ''runtime'' = None \<or> (\<exists>ms. fmlookup doc ''runtime'' = Some (JObject ms))))"
proof (cases "text_value sd t")
  case (Some v)
  show ?thesis
  proof (cases v)
    case (JObject doc)
    then show ?thesis
    proof (cases "fmlookup doc ''runtime''")
      case (Some w)
      then show ?thesis using JObject \<open>text_value sd t = Some v\<close> by (cases w) (simp_all add: readable_config_def)
    qed (use Some in \<open>simp add: readable_config_def\<close>)
  qed (use Some in \<open>simp_all add: readable_config_def\<close>)
qed (simp add: readable_config_def)

lemma readable_configE:
  assumes "readable_config sd t"
  obtains (none) doc where "text_value sd t = Some (JObject doc)" "fmlookup doc ''runtime'' = None"
  | (some) doc ms where "text_value sd t = Some (JObject doc)" "fmlookup doc ''runtime'' = Some (JObject ms)"
  using assms unfolding readable_config_iff by blast

definition runtime_members :: "'t serde \<Rightarrow> 't \<Rightarrow> (string, json_value) fmap" where
  "runtime_members sd t =
    (case text_value sd t of
       Some (JObject doc) \<Rightarrow> (case fmlookup doc ''runtime'' of Some (JObject ms) \<Rightarrow> ms | _ \<Rightarrow> fmempty) | _ \<Rightarrow> fmempty)"

lemma restored_row:
  assumes "row_for_user db user_id conversation = Some row" "readable_config sd (row_config row)"
  shows "restored sd (sqlite_repository sd) user_id conversation db
    = Some (members_report sd (runtime_members sd (row_config row)))"
  using assms(2)
proof (cases rule: readable_configE)
  case (none doc)
  then show ?thesis
    using assms(1) by (simp add: restored_def load_snapshot_state_def sqlite_repository_def
        load_runtime_state_for_user_def decode_runtime_state_def persisted_report_def members_report_def
        runtime_members_def saved_config_def fun_eq_iff)
next
  case (some doc ms)
  then show ?thesis
    using assms(1) by (auto simp: restored_def load_snapshot_state_def sqlite_repository_def
        load_runtime_state_for_user_def decode_runtime_state_def persisted_report_def members_report_def
        runtime_members_def saved_config_def fun_eq_iff bind_map_option comp_def split: option.split)
qed

lemma put_config:
  assumes "serde_ok sd usages" "x = None \<or> (\<exists>m. x = Some (Some (map_text sd m)))"
  shows "\<exists>ms'. put_json sd key x ms = Inr ms' \<and> (\<forall>k. k \<noteq> key \<longrightarrow> fmlookup ms' k = fmlookup ms k)
    \<and> (x = None \<longrightarrow> fmlookup ms' key = fmlookup ms key)
    \<and> (\<forall>m. x = Some (Some (map_text sd m)) \<longrightarrow> fmlookup ms' key = Some (texts_value m))"
proof (cases x)
  case (Some y)
  then obtain m where m: "x = Some (Some (map_text sd m))" using assms(2) by blast
  have printed: "text_value sd (map_text sd m) = Some (texts_value m)" for m using assms(1) by (simp add: serde_ok_def)
  have "put_json sd key x ms = Inr (fmupd key (texts_value m) ms)" using m printed [of m] by (simp add: put_json_def)
  moreover have "texts_value m = texts_value m'" if "x = Some (Some (map_text sd m'))" for m'
    using m that printed [of m] printed [of m'] by simp
  ultimately show ?thesis
    using Some by (intro exI [of _ "fmupd key (texts_value m) ms"] conjI) (assumption, simp_all)
qed (simp add: put_json_def)

lemma put_usage:
  assumes "serde_ok sd usages" "x = None \<or> (\<exists>u \<in> usages. x = Some (Some u))"
  shows "\<exists>ms'. put_json sd key x ms = Inr ms' \<and> (\<forall>k. k \<noteq> key \<longrightarrow> fmlookup ms' k = fmlookup ms k)
    \<and> (x = None \<longrightarrow> fmlookup ms' key = fmlookup ms key)
    \<and> (\<forall>u. x = Some (Some u) \<longrightarrow>
        Option.bind (fmlookup ms' key) (\<lambda>v. text_usage sd (value_text sd v)) = Some u)"
proof (cases x)
  case (Some y)
  then obtain u v where "x = Some (Some u)" "text_value sd u = Some v" "text_usage sd (value_text sd v) = Some u"
    using assms by (auto simp: serde_ok_def)
  then show ?thesis by (simp add: put_json_def)
qed (simp add: put_json_def)

lemma merge_members:
  assumes "serde_ok sd usages" "saveable sd usages p"
  shows "\<exists>ms'. merge_runtime_members sd p ms = Inr ms'
    \<and> members_report sd ms' = merged sd p (members_report sd ms)"
proof -
  let ?ms = "put_text ''current_model_id'' (save_model p) (put_text ''current_mode_id'' (save_mode p) ms)"
  have config: "save_config p = None \<or> (\<exists>m. save_config p = Some (Some (map_text sd m)))"
    and usage: "save_usage p = None \<or> (\<exists>u \<in> usages. save_usage p = Some (Some u))"
    and texts: "save_mode p \<noteq> Some None" "save_model p \<noteq> Some None"
    using assms(2) by (auto simp: saveable_def)
  obtain ms1 where ms1: "put_json sd ''config_selections'' (save_config p) ?ms = Inr ms1"
      "\<forall>k. k \<noteq> ''config_selections'' \<longrightarrow> fmlookup ms1 k = fmlookup ?ms k"
      "save_config p = None \<longrightarrow> fmlookup ms1 ''config_selections'' = fmlookup ?ms ''config_selections''"
      "\<forall>m. save_config p = Some (Some (map_text sd m)) \<longrightarrow> fmlookup ms1 ''config_selections'' = Some (texts_value m)"
    using put_config [OF assms(1) config, of "''config_selections''" ?ms] by (elim exE conjE) (rule that)
  obtain ms2 where ms2: "put_json sd ''context_usage'' (save_usage p) ms1 = Inr ms2"
      "\<forall>k. k \<noteq> ''context_usage'' \<longrightarrow> fmlookup ms2 k = fmlookup ms1 k"
      "save_usage p = None \<longrightarrow> fmlookup ms2 ''context_usage'' = fmlookup ms1 ''context_usage''"
      "\<forall>u. save_usage p = Some (Some u) \<longrightarrow>
        Option.bind (fmlookup ms2 ''context_usage'') (\<lambda>v. text_usage sd (value_text sd v)) = Some u"
    using put_usage [OF assms(1) usage, of "''context_usage''" ms1] by (elim exE conjE) (rule that)
  have looks: "fmlookup ms2 ''current_mode_id'' = fmlookup ?ms ''current_mode_id''"
      "fmlookup ms2 ''current_model_id'' = fmlookup ?ms ''current_model_id''"
      "fmlookup ms2 ''config_selections'' = fmlookup ms1 ''config_selections''"
      "fmlookup ms1 ''context_usage'' = fmlookup ?ms ''context_usage''"
    using ms1(2) ms2(2) by simp_all
  have mode: "Option.bind (fmlookup ms2 ''current_mode_id'') json_as_str
      = rep_mode (merged sd p (members_report sd ms))"
    unfolding looks using texts by (auto simp: put_text_def members_report_def merged_def split: option.split)
  have model: "Option.bind (fmlookup ms2 ''current_model_id'') json_as_str
      = rep_model (merged sd p (members_report sd ms))"
    unfolding looks using texts by (auto simp: put_text_def members_report_def merged_def split: option.split)
  have other: "fmlookup ?ms ''config_selections'' = fmlookup ms ''config_selections''"
      "fmlookup ?ms ''context_usage'' = fmlookup ms ''context_usage''"
    by (auto simp: put_text_def split: option.split)
  have conf: "(case fmlookup ms2 ''config_selections'' of Some v \<Rightarrow> saved_config sd (value_text sd v) | None \<Rightarrow> Map.empty)
      = rep_config (merged sd p (members_report sd ms))"
    unfolding looks using config ms1(3,4)
    by (elim disjE exE) (simp_all add: members_report_def merged_def other saved_config_map_text [OF assms(1)])
  have use: "Option.bind (fmlookup ms2 ''context_usage'') (\<lambda>v. text_usage sd (value_text sd v))
      = rep_usage (merged sd p (members_report sd ms))"
    using usage ms2(3,4) looks(4) other(2)
    by (elim disjE bexE) (simp_all add: members_report_def merged_def)
  have "members_report sd ms2 = merged sd p (members_report sd ms)"
    unfolding members_report_def [of sd ms2] mode model conf use by simp
  then show ?thesis using ms1(1) ms2(1) by (simp add: merge_runtime_members_def)
qed

text \<open>What is written nests no deeper than what was read, so that it can be read again.\<close>

definition flat_members :: "'t serde \<Rightarrow> (string, json_value) fmap \<Rightarrow> bool" where
  "flat_members sd ms \<longleftrightarrow> json_within sd 126 (JObject ms)"

lemma flat_update: "flat_members sd ms \<Longrightarrow> json_within sd 125 v \<Longrightarrow> flat_members sd (fmupd key v ms)"
  by (simp add: flat_members_def json_within_object)

lemma flat_put_text: "flat_members sd ms \<Longrightarrow> flat_members sd (put_text key x ms)"
  by (auto simp: put_text_def flat_update json_within_def split: option.split)
    (auto simp: flat_members_def json_within_object)

lemma flat_put_json:
  assumes "flat_members sd ms" "put_json sd key x ms = Inr ms'"
    and "\<And>t v. x = Some (Some t) \<Longrightarrow> text_value sd t = Some v \<Longrightarrow> json_within sd 125 v"
  shows "flat_members sd ms'"
proof (cases x)
  case (Some y)
  then show ?thesis
  proof (cases y)
    case None
    with Some assms(1,2) show ?thesis by (auto simp: put_json_def flat_members_def json_within_object split: if_splits)
  next
    case inner: (Some t)
    with Some assms(2) obtain v where "text_value sd t = Some v" "ms' = fmupd key v ms"
      by (auto simp: put_json_def split: option.splits)
    with Some inner assms(3) flat_update [OF assms(1)] show ?thesis by simp
  qed
qed (use assms(1,2) in \<open>simp add: put_json_def\<close>)

lemma flat_merge:
  assumes "serde_ok sd usages" "saveable sd usages p" "flat_members sd ms" "merge_runtime_members sd p ms = Inr ms'"
  shows "flat_members sd ms'"
proof -
  let ?ms = "put_text ''current_model_id'' (save_model p) (put_text ''current_mode_id'' (save_mode p) ms)"
  obtain ms1 where ms1: "put_json sd ''config_selections'' (save_config p) ?ms = Inr ms1"
      "put_json sd ''context_usage'' (save_usage p) ms1 = Inr ms'"
    using assms(4) by (auto simp: merge_runtime_members_def split: sum.splits)
  have config: "json_within sd 125 v" if "save_config p = Some (Some t)" "text_value sd t = Some v" for t v
    using assms(1,2) that json_within_texts [of 125 sd] by (auto simp: serde_ok_def saveable_def)
  have usage: "json_within sd 125 v" if "save_usage p = Some (Some u)" "text_value sd u = Some v" for u v
  proof -
    have "u \<in> usages" using assms(2) that(1) by (auto simp: saveable_def)
    then have "json_within sd 100 v" using assms(1) that(2) by (auto simp: serde_ok_def)
    then show ?thesis using json_within_mono by fastforce
  qed
  have "flat_members sd ms1"
    by (rule flat_put_json [OF flat_put_text [OF flat_put_text [OF assms(3)]] ms1(1)]) (rule config)
  then show ?thesis by (rule flat_put_json [OF _ ms1(2)]) (rule usage)
qed

lemma merge_row:
  assumes "serde_ok sd usages" "saveable sd usages p" "readable_config sd raw"
  shows "\<exists>t. merge_runtime_state sd raw p = Inr t \<and> readable_config sd t
    \<and> members_report sd (runtime_members sd t) = merged sd p (members_report sd (runtime_members sd raw))"
proof -
  obtain ms where ms: "merge_runtime_members sd p (runtime_members sd raw) = Inr ms"
      "members_report sd ms = merged sd p (members_report sd (runtime_members sd raw))"
    using merge_members [OF assms(1,2)] by blast
  have round: "text_value sd (value_text sd v) = Some v" if "json_within sd 127 v" for v
    using assms(1) that by (simp add: serde_ok_def)
  have read: "json_within sd 127 v" if "text_value sd raw = Some v" for v
    using assms(1) that by (simp add: serde_ok_def)
  have written: "json_within sd 127 (JObject (fmupd ''runtime'' (JObject ms) doc))"
    if "json_within sd 127 (JObject doc)" "flat_members sd (runtime_members sd raw)" for doc
    using that(1) flat_merge [OF assms(1,2) that(2) ms(1)] unfolding flat_members_def json_within_object [of sd 127]
    by auto
  show ?thesis
    using assms(3)
  proof (cases rule: readable_configE)
    case (none doc)
    then have "flat_members sd (runtime_members sd raw)"
      by (simp add: runtime_members_def flat_members_def json_within_object)
    from round [OF written [OF read [OF none(1)] this]] ms none show ?thesis
      by (simp add: merge_runtime_state_def runtime_members_def readable_config_def)
  next
    case (some doc ms')
    then have "flat_members sd (runtime_members sd raw)"
      using read [OF some(1)] unfolding json_within_object [of sd 127] by (simp add: runtime_members_def flat_members_def)
    from round [OF written [OF read [OF some(1)] this]] ms some show ?thesis
      by (simp add: merge_runtime_state_def runtime_members_def readable_config_def)
  qed
qed

lemma change_row_found:
  assumes "row_for_user db user_id conversation = Some row" "change_row f user_id conversation db = (found, db')"
  shows "found" "row_for_user db' user_id conversation = Some (f row)"
  using assms by (auto simp: change_row_def row_for_user_def map_of_modify split: if_splits)

lemma merged_empty: "params_empty p \<Longrightarrow> merged sd p = (\<lambda>r. r)"
  by (simp add: merged_def params_empty_def fun_eq_iff)

interpretation acp_table: session_store sd "sqlite_repository sd" user_id conversation usages
  "table_ready sd usages user_id conversation" for sd user_id conversation usages
proof
  fix db p now i
  assume ready: "table_ready sd usages user_id conversation db"
  then obtain row where row: "row_for_user db user_id conversation = Some row" "readable_config sd (row_config row)"
      and serde: "serde_ok sd usages"
    by (auto simp: table_ready_def split: option.splits)
  note here = restored_row [OF row]
  show "serde_ok sd usages" by (rule serde)
  show "restored sd (sqlite_repository sd) user_id conversation db \<noteq> None" by (simp add: here)
  obtain found db' where assign: "change_row (\<lambda>r. r\<lparr>row_session_id := Some i, row_last_active_at := now\<rparr>) user_id
      conversation db = (found, db')" by fastforce
  have assigned: "assigned_id (sqlite_repository sd) user_id conversation d = row_session_id r"
    if "row_for_user d user_id conversation = Some r" for d r
    using that by (simp add: assigned_id_def load_session_id_def sqlite_repository_def get_for_user_def)
  show "\<exists>db'. repo_assign (sqlite_repository sd) now True user_id conversation i db = (Inr True, db')
      \<and> table_ready sd usages user_id conversation db'
      \<and> restored sd (sqlite_repository sd) user_id conversation db' = restored sd (sqlite_repository sd) user_id conversation db
      \<and> assigned_id (sqlite_repository sd) user_id conversation db' = Some i"
  proof -
    note changed = change_row_found [OF row(1) assign]
    have "repo_assign (sqlite_repository sd) now True user_id conversation i db = (Inr True, db')"
      using assign changed(1) by (simp add: sqlite_repository_def update_session_id_for_user_def)
    moreover have "table_ready sd usages user_id conversation db'" using changed(2) row(2) serde by (simp add: table_ready_def)
    moreover have "restored sd (sqlite_repository sd) user_id conversation db'
        = restored sd (sqlite_repository sd) user_id conversation db"
      using restored_row [OF changed(2)] row(2) here by simp
    ultimately show ?thesis using assigned [OF changed(2)] by auto
  qed
  show "\<exists>db'. repo_save (sqlite_repository sd) now True user_id conversation p db = (Inr True, db')
      \<and> table_ready sd usages user_id conversation db'
      \<and> restored sd (sqlite_repository sd) user_id conversation db'
          = map_option (merged sd p) (restored sd (sqlite_repository sd) user_id conversation db)
      \<and> assigned_id (sqlite_repository sd) user_id conversation db' = assigned_id (sqlite_repository sd) user_id conversation db"
    if p: "saveable sd usages p"
  proof (cases "params_empty p")
    case True
    then show ?thesis
      using ready by (simp add: sqlite_repository_def save_runtime_state_for_user_def merged_empty option.map_ident)
  next
    case False
    obtain t where t: "merge_runtime_state sd (row_config row) p = Inr t" "readable_config sd t"
        "members_report sd (runtime_members sd t) = merged sd p (members_report sd (runtime_members sd (row_config row)))"
      using merge_row [OF serde p row(2)] by blast
    obtain found db2 where change: "change_row (\<lambda>r. r\<lparr>row_config := t, row_last_active_at := now\<rparr>) user_id
        conversation db = (found, db2)" by fastforce
    note changed = change_row_found [OF row(1) change]
    have "repo_save (sqlite_repository sd) now True user_id conversation p db = (Inr True, db2)"
      using False row t(1) change changed(1) by (simp add: sqlite_repository_def save_runtime_state_for_user_def)
    moreover have "table_ready sd usages user_id conversation db2" using changed(2) t(2) serde by (simp add: table_ready_def)
    moreover have "restored sd (sqlite_repository sd) user_id conversation db2
        = map_option (merged sd p) (restored sd (sqlite_repository sd) user_id conversation db)"
      using restored_row [OF changed(2)] t here by simp
    ultimately show ?thesis using assigned [OF changed(2)] assigned [OF row(1)] by auto
  qed
qed

section \<open>A restart\<close>

lemma preload_report: "session_report (preload_persisted st (acp_session_new mode model selections)) = persisted_report st"
  by (simp add: session_report_def persisted_report_def preload_persisted_def acp_session_new_def preload_mode_def
      preload_model_def Let_def split: option.split)

text \<open>The consumer is given events while the database answers, the debounce deadlines wherever they fall.\<close>

definition attended :: "(timestamp_ms \<times> bool \<times> 't consumer_input) list \<Rightarrow> bool" where
  "attended inputs \<longleftrightarrow> (\<forall>(now, up, inp) \<in> set inputs. up \<and> inp \<noteq> Closed)"

lemma got_events_set: "(now, up, Got e) \<in> set inputs \<Longrightarrow> e \<in> set (got_events inputs)"
  by (induction inputs rule: got_events.induct) auto

text \<open>C5: A restart restores what the agent last reported. Take a session whose row in the table restores the report it
  has, and any sequence of operations on it, whose events go to the persistence consumer with the debounce
  deadlines falling anywhere among them. When the channel is closed, loading the row and preloading it into a new
  session gives the mode, model, configuration values and context usage the old session had, and the session id the
  table hands to the resume path is the one the old session was last assigned, unless that session had none.\<close>

theorem restart_restores_last_report:
  assumes "table_ready sd usages user_id conversation db"
    and "restored sd (sqlite_repository sd) user_id conversation db = Some (session_report s)"
    and "sid s = None \<or> load_session_id (sqlite_repository sd) True user_id conversation db = sid s"
    and "pending_events s = []" and "call_usages calls \<subseteq> usages"
    and "got_events inputs = pending_events (run_session_calls calls s)" and "attended inputs"
  shows "\<exists>st. load_snapshot_state sd (sqlite_repository sd) True user_id conversation
        (snd (run_consumer sd (sqlite_repository sd) user_id conversation (inputs @ [(now, True, Closed)])
          (fresh_consumer, db))) = Some st
      \<and> session_report (preload_persisted st (acp_session_new mode model selections))
          = session_report (run_session_calls calls s)
      \<and> (sid (run_session_calls calls s) = None
         \<or> load_session_id (sqlite_repository sd) True user_id conversation
             (snd (run_consumer sd (sqlite_repository sd) user_id conversation (inputs @ [(now, True, Closed)])
               (fresh_consumer, db))) = sid (run_session_calls calls s))"
proof -
  let ?s = "run_session_calls calls s"
  let ?db = "snd (run_consumer sd (sqlite_repository sd) user_id conversation (inputs @ [(now, True, Closed)])
    (fresh_consumer, db))"
  obtain es where es: "pending_events ?s = es" "session_report ?s = fold follow_report es (session_report s)"
      "\<forall>i. id_known s i \<longrightarrow> id_known ?s (fold follow_id es i)" "\<forall>e \<in> set es. reports_usage e \<subseteq> usages"
    using tells_calls [OF assms(5), of s] assms(4) by (auto simp: tells_def)
  have "\<forall>(now, up, inp) \<in> set inputs. up \<and> inp \<noteq> Closed \<and> (\<forall>e. inp = Got e \<longrightarrow> reports_usage e \<subseteq> usages)"
  proof (clarify)
    fix now up inp assume x: "(now, up, inp) \<in> set inputs"
    have "reports_usage e \<subseteq> usages" if "inp = Got e" for e
      using that x got_events_set [of now up e inputs] es(1,4) assms(6) by auto
    with x assms(7) show "up \<and> inp \<noteq> Closed \<and> (\<forall>e. inp = Got e \<longrightarrow> reports_usage e \<subseteq> usages)"
      by (auto simp: attended_def)
  qed
  note closing = acp_table.closing_saves [OF assms(1,2) this, of now]
  have "restored sd (sqlite_repository sd) user_id conversation ?db = Some (session_report ?s)"
    using closing(1) assms(6) es by simp
  then obtain st where st: "load_snapshot_state sd (sqlite_repository sd) True user_id conversation ?db = Some st"
      "persisted_report st = session_report ?s"
    by (auto simp: restored_def)
  have "id_known ?s (load_session_id (sqlite_repository sd) True user_id conversation ?db)"
  proof -
    have "id_known s (load_session_id (sqlite_repository sd) True user_id conversation db)"
      using assms(3) by (simp add: id_known_def)
    with es(3) show ?thesis using closing(2) assms(6) es(1) by (simp add: assigned_id_def)
  qed
  with st show ?thesis by (auto simp: preload_report id_known_def)
qed

text \<open>The other way round: after a failed write the consumer forgets what it was to write.\<close>

lemma failed_save_is_forgotten:
  assumes "\<not> exited c" "flush_at c = Some deadline" "deadline \<le> now" "\<not> pending_is_empty (pending_part c)"
  shows "consumer_step sd (sqlite_repository sd) user_id conversation now False Deadline (c, db)
    = (c\<lparr>pending_part := no_runtime_update, flush_at := None\<rparr>, db)"
  using assms by (auto simp: consumer_step_def flush_def sqlite_repository_def save_runtime_state_for_user_def
      as_save_params_def params_empty_def pending_is_empty_def)

text \<open>A second consumer of a conversation starts with nothing: what the aborted one was to write is lost.\<close>

lemma attach_forgets_pending:
  "map_of (attach conversation active) conversation = Some fresh_consumer"
  "pending_is_empty (pending_part fresh_consumer)"
  by (simp_all add: attach_def map_of_update fresh_consumer_def no_runtime_update_def pending_is_empty_def)


section \<open>A concrete session\<close>

text \<open>A library for which a text is the value it was read from.\<close>

definition plain_serde :: "json_value serde" where
  "plain_serde = \<lparr>number_text = (\<lambda>_. True), value_text = (\<lambda>v. v),
     text_value = (\<lambda>v. if json_depth v \<le> 127 then Some v else None), map_text = texts_value, text_usage = Some\<rparr>"

lemma plain_serde_ok: "(\<And>u. u \<in> usages \<Longrightarrow> json_depth u \<le> 100) \<Longrightarrow> serde_ok plain_serde usages"
  using json_within_texts [of 127 plain_serde] by (force simp: serde_ok_def plain_serde_def json_within_def)

definition sample_session_row :: "json_value acp_session_row" where
  "sample_session_row = \<lparr>row_agent_source = ''builtin'', row_agent_id = ''codex'', row_session_id = None,
     row_config = JObject fmempty, row_last_active_at = 0\<rparr>"

definition sample_tables :: "json_value acp_tables" where
  "sample_tables = \<lparr>conversation_owner = [(''c1'', ''u1'')], acp_rows = [(''c1'', sample_session_row)]\<rparr>"

definition sample_calls :: "json_value session_call list" where
  "sample_calls =
    [Call_SetSessionId ''s1'', Call_ConfirmMode ''plan'', Call_ObservedModel ''opus'',
     Call_ObservedConfig ''effort'' ''high'', Call_Usage (JNumber ''7''), Call_MarkOpened]"

definition sample_inputs :: "(timestamp_ms \<times> bool \<times> json_value consumer_input) list" where
  "sample_inputs =
    map (\<lambda>e. (0, True, Got e)) (pending_events (run_session_calls sample_calls (acp_session_new None None [])))
    @ [(600, True, Deadline)]"

lemma sample_report:
  "rep_mode (session_report (run_session_calls sample_calls (acp_session_new None None []))) = Some ''plan''"
  "sid (run_session_calls sample_calls (acp_session_new None None [])) = Some ''s1''"
  by (simp_all add: session_report_def run_session_calls_def sample_calls_def acp_session_new_def set_session_id_def
      confirm_mode_def apply_observed_mode_def apply_observed_model_def apply_observed_config_def see_mode_def
      see_model_def apply_context_usage_def mark_opened_def push_event_def)

lemma got_events_sample: "got_events (map (\<lambda>e. (0, True, Got e)) es @ [(600, True, Deadline)]) = es"
  by (induction es) simp_all

lemma restart_restores_last_report_witness:
  "\<exists>st. load_snapshot_state plain_serde (sqlite_repository plain_serde) True ''u1'' ''c1''
        (snd (run_consumer plain_serde (sqlite_repository plain_serde) ''u1'' ''c1'' (sample_inputs @ [(700, True, Closed)])
          (fresh_consumer, sample_tables))) = Some st
      \<and> rep_mode (session_report (preload_persisted st (acp_session_new None None []))) = Some ''plan''"
proof -
  have row: "row_for_user sample_tables ''u1'' ''c1'' = Some sample_session_row"
    by (simp add: row_for_user_def sample_tables_def)
  have readable: "readable_config plain_serde (row_config sample_session_row)"
    by (simp add: sample_session_row_def readable_config_def plain_serde_def)
  have ready: "table_ready plain_serde {u. json_depth u \<le> 100} ''u1'' ''c1'' sample_tables"
    using row readable plain_serde_ok [of "{u. json_depth u \<le> 100}"] by (simp add: table_ready_def)
  have "runtime_members plain_serde (row_config sample_session_row) = fmempty"
    by (simp add: sample_session_row_def runtime_members_def plain_serde_def)
  then have start: "restored plain_serde (sqlite_repository plain_serde) ''u1'' ''c1'' sample_tables
      = Some (session_report (acp_session_new None None []))"
    by (simp add: restored_row [OF row readable] members_report_def session_report_def acp_session_new_def fun_eq_iff)
  have "sid (acp_session_new None None [] :: json_value acp_session) = None"
      "pending_events (acp_session_new None None [] :: json_value acp_session) = []"
    by (simp_all add: acp_session_new_def)
  moreover have "got_events sample_inputs = pending_events (run_session_calls sample_calls (acp_session_new None None []))"
    unfolding sample_inputs_def by (rule got_events_sample)
  moreover have "attended sample_inputs" by (auto simp: sample_inputs_def attended_def)
  moreover have "call_usages sample_calls \<subseteq> {u. json_depth u \<le> 100}"
    by (auto simp: sample_calls_def call_usages_def)
  ultimately show ?thesis
    using restart_restores_last_report [OF ready start, of sample_calls sample_inputs 700 None None "[]"]
    by (auto simp: sample_report)
qed

end
