(* ===== verification/Ki_Maps.thy ===== *)
theory Ki_Maps
  imports Ki_Prelude "HOL-Library.Multiset"
begin

text \<open>
  The entries of a map as a multiset: what an insertion, a replacement and a removal do to them. The
  components that count what they hold (requests waiting, messages under way) share these.
\<close>

lemma mset_update_absent: "map_of m k = None \<Longrightarrow> AList.update k v m = m @ [(k, v)]"
  by (induction m) auto

lemma mset_update_present:
  "map_of m k = Some u \<Longrightarrow> add_mset (k, u) (mset (AList.update k v m)) = add_mset (k, v) (mset m)"
  by (induction m) (auto split: if_splits)

lemma mset_delete:
  "distinct (keys m) \<Longrightarrow> map_of m k = Some u \<Longrightarrow> add_mset (k, u) (mset (AList.delete k m)) = mset m"
proof (induction m)
  case (Cons e m)
  obtain k' v where e: "e = (k', v)" by (cases e)
  show ?case
  proof (cases "k' = k")
    case True
    then have "k \<notin> fst ` set m" using Cons.prems(1) e by simp
    then have "AList.delete k m = m" by (rule AList.delete_id)
    then show ?thesis using Cons.prems(2) e True by simp
  next
    case False
    then show ?thesis using Cons e by (auto simp: add_mset_commute)
  qed
qed simp

end
