(* ===== verification/Acp_Permission.thy ===== *)
theory Acp_Permission
  imports Acp_Store Ki_Maps
begin

text \<open>
  Permission requests of an ACP agent: \<open>manager/acp/permission_router.rs\<close>. A request of the agent waits under the id
  of its tool call until the user answers, a later request for the same call takes its place, or everything is
  cancelled; requests for the tools of the team server are approved at once. The channel a request is answered
  on is a number, handed out in the order the requests arrive.

  Shown: a request is answered at most once and is pending exactly while it has no answer; after everything is
  cancelled none is left unanswered.
\<close>

section \<open>Requests and the router\<close>

datatype acp_permission_kind = AllowOnce | AllowAlways | RejectOnce | RejectAlways | OtherKind

record permission_option =
  po_id :: string
  po_kind :: acp_permission_kind

record permission_request =
  call_id :: string
  tool_title :: "string option"
  raw_input :: "json_value option"
  permission_options :: "permission_option list"

datatype permission_answer = Selected string | Cancelled

record permission_router =
  pending_permissions :: "(string, nat \<times> permission_request) hashmap"
  router_closing :: bool
  decisions :: "(nat \<times> permission_answer) list"
  arrived :: nat

definition router_new :: permission_router where
  "router_new = \<lparr>pending_permissions = [], router_closing = False, decisions = [], arrived = 0\<rparr>"

definition team_mcp_server_name :: string where
  "team_mcp_server_name = ''aionui-team''"


section \<open>Whom the router approves by itself\<close>

definition extract_mcp_server_from_raw_input :: "permission_request \<Rightarrow> string option" where
  "extract_mcp_server_from_raw_input r =
    (case Option.bind (Option.bind (raw_input r) (\<lambda>v. json_get v ''server_name'')) json_as_str of
       Some name \<Rightarrow> if name = [] then None else Some name | None \<Rightarrow> None)"

text \<open>\<open>split_once\<close> at two underscores.\<close>

fun split_once_underscores :: "string \<Rightarrow> (string \<times> string) option" where
  "split_once_underscores (c # d # s) =
    (if c = CHR ''_'' \<and> d = CHR ''_'' then Some ([], s)
     else map_option (\<lambda>(front, rest). (c # front, rest)) (split_once_underscores (d # s)))"
| "split_once_underscores _ = None"

definition extract_mcp_server_from_prefixed_title :: "string \<Rightarrow> string option" where
  "extract_mcp_server_from_prefixed_title title =
    (if take 5 title \<noteq> ''mcp__'' then None
     else case split_once_underscores (drop 5 title) of
       None \<Rightarrow> None
     | Some (server_name, tool_name) \<Rightarrow> if server_name = [] \<or> tool_name = [] then None else Some server_name)"

definition extract_mcp_server_name :: "permission_request \<Rightarrow> string option" where
  "extract_mcp_server_name r =
    (case extract_mcp_server_from_raw_input r of
       Some name \<Rightarrow> Some name
     | None \<Rightarrow> Option.bind (tool_title r) extract_mcp_server_from_prefixed_title)"

definition select_allow_option_id :: "permission_request \<Rightarrow> string option" where
  "select_allow_option_id r =
    map_option po_id (case find (\<lambda>opt. po_kind opt = AllowAlways) (permission_options r) of
       Some opt \<Rightarrow> Some opt | None \<Rightarrow> find (\<lambda>opt. po_kind opt = AllowOnce) (permission_options r))"

definition auto_approve_option_id :: "permission_request \<Rightarrow> string option" where
  "auto_approve_option_id r =
    (case extract_mcp_server_name r of
       Some name \<Rightarrow> if name \<in> {team_mcp_server_name} then select_allow_option_id r else None
     | None \<Rightarrow> None)"


section \<open>The operations\<close>

definition decide :: "nat \<Rightarrow> permission_answer \<Rightarrow> permission_router \<Rightarrow> permission_router" where
  "decide n d p = p\<lparr>decisions := decisions p @ [(n, d)]\<rparr>"

text \<open>
  One round of the handler loop; \<open>listening\<close> says whether anybody is subscribed to the event that shows the
  request. A request that nobody is shown is cancelled.
\<close>

definition receive_permission :: "permission_request \<Rightarrow> bool \<Rightarrow> permission_router \<Rightarrow> permission_router" where
  "receive_permission r listening p =
    (let n = arrived p; p = p\<lparr>arrived := Suc n\<rparr> in
     case auto_approve_option_id r of
       Some option_id \<Rightarrow> decide n (Selected option_id) p
     | None \<Rightarrow>
        (let previous = map_of (pending_permissions p) (call_id r);
             p = p\<lparr>pending_permissions := AList.update (call_id r) (n, r) (pending_permissions p)\<rparr>;
             p = (case previous of Some (m, q) \<Rightarrow> decide m Cancelled p | None \<Rightarrow> p)
         in if listening then p
            else case map_of (pending_permissions p) (call_id r) of
              Some (m, q) \<Rightarrow>
                decide m Cancelled (p\<lparr>pending_permissions := AList.delete (call_id r) (pending_permissions p)\<rparr>)
            | None \<Rightarrow> p))"

text \<open>
  \<open>alive\<close>: the agent still waits for the answer. The request is taken off the map, and its channel used, in either
  case.
\<close>

datatype confirm_result = Confirmed | NoSuchPermission | PermissionExpired

definition confirm_permission :: "string \<Rightarrow> string \<Rightarrow> bool \<Rightarrow> permission_router \<Rightarrow> confirm_result \<times> permission_router" where
  "confirm_permission call option_id alive p =
    (case map_of (pending_permissions p) call of
       None \<Rightarrow> (NoSuchPermission, p)
     | Some (n, r) \<Rightarrow>
         (if alive then Confirmed else PermissionExpired,
          decide n (Selected option_id) (p\<lparr>pending_permissions := AList.delete call (pending_permissions p)\<rparr>)))"

definition cancel_all_permissions :: "permission_router \<Rightarrow> permission_router" where
  "cancel_all_permissions p =
    fold (\<lambda>(call, n, r). decide n Cancelled) (pending_permissions p) (p\<lparr>pending_permissions := []\<rparr>)"

definition set_closing :: "permission_router \<Rightarrow> permission_router" where
  "set_closing p = p\<lparr>router_closing := True\<rparr>"

definition get_confirmations :: "permission_router \<Rightarrow> permission_request list" where
  "get_confirmations p = map (\<lambda>(call, n, r). r) (pending_permissions p)"

datatype permission_call =
    Permission_Arrives permission_request bool
  | Permission_Confirmed string string bool
  | Permissions_Cancelled
  | Router_Closing

fun permission_step :: "permission_call \<Rightarrow> permission_router \<Rightarrow> permission_router" where
  "permission_step (Permission_Arrives r listening) p = receive_permission r listening p"
| "permission_step (Permission_Confirmed call option_id alive) p = snd (confirm_permission call option_id alive p)"
| "permission_step Permissions_Cancelled p = cancel_all_permissions p"
| "permission_step Router_Closing p = set_closing p"

definition run_permissions :: "permission_call list \<Rightarrow> permission_router" where
  "run_permissions calls = fold permission_step calls router_new"


section \<open>Every request is answered once\<close>

definition answered :: "permission_router \<Rightarrow> nat list" where
  "answered p = map fst (decisions p)"

definition waiting :: "permission_router \<Rightarrow> nat list" where
  "waiting p = map (\<lambda>(call, n, r). n) (pending_permissions p)"

text \<open>The requests that arrived are those waiting and those answered, each once; a call waits under its id.\<close>

definition router_ok :: "permission_router \<Rightarrow> bool" where
  "router_ok p \<longleftrightarrow> mset (waiting p) + mset (answered p) = mset_set {0..<arrived p} \<and> distinct (keys (pending_permissions p))"

text \<open>The numbers that wait, as a multiset.\<close>

abbreviation number_of :: "string \<times> nat \<times> permission_request \<Rightarrow> nat" where
  "number_of \<equiv> \<lambda>(call, n, r). n"

lemma waiting_mset: "mset (waiting p) = image_mset number_of (mset (pending_permissions p))"
  by (simp add: waiting_def)

lemma decide_simps [simp]:
  "pending_permissions (decide n d p) = pending_permissions p" "arrived (decide n d p) = arrived p"
  "answered (decide n d p) = answered p @ [n]" "router_closing (decide n d p) = router_closing p"
  "waiting (decide n d p) = waiting p"
  by (simp_all add: decide_def answered_def waiting_def)

lemma answered_pending [simp]:
  "answered (p\<lparr>pending_permissions := m\<rparr>) = answered p" "answered (p\<lparr>arrived := k\<rparr>) = answered p"
  "waiting (p\<lparr>arrived := k\<rparr>) = waiting p"
  by (simp_all add: answered_def waiting_def)

lemma waiting_removed:
  assumes "distinct (keys (pending_permissions p))" "map_of (pending_permissions p) call = Some (n, r)"
  shows "add_mset n (mset (waiting (p\<lparr>pending_permissions := AList.delete call (pending_permissions p)\<rparr>))) = mset (waiting p)"
  using arg_cong [OF mset_delete [OF assms], of "image_mset number_of"] by (simp add: waiting_mset)

lemma ok_removed:
  assumes "router_ok p" "map_of (pending_permissions p) call = Some (n, r)"
  shows "router_ok (decide n d (p\<lparr>pending_permissions := AList.delete call (pending_permissions p)\<rparr>))"
  using assms waiting_removed [of p call n r, symmetric] distinct_keys_delete [of "pending_permissions p" call]
  by (simp add: router_ok_def)

lemma ok_received:
  assumes "router_ok p"
  shows "router_ok (receive_permission r listening p)"
proof (cases "auto_approve_option_id r")
  case (Some option_id)
  then show ?thesis
    using assms by (simp add: receive_permission_def router_ok_def Let_def atLeastLessThanSuc)
next
  case None
  let ?n = "arrived p" and ?m = "AList.update (call_id r) (arrived p, r) (pending_permissions p)"
  let ?p = "p\<lparr>arrived := Suc (arrived p), pending_permissions := ?m\<rparr>"
  let ?q = "case map_of (pending_permissions p) (call_id r) of Some (m, q) \<Rightarrow> decide m Cancelled ?p | None \<Rightarrow> ?p"
  have "router_ok ?q"
  proof (cases "map_of (pending_permissions p) (call_id r)")
    case absent: None
    then show ?thesis
      using assms distinct_keys_update [of "pending_permissions p"]
      by (simp add: router_ok_def waiting_mset mset_update_absent [OF absent] atLeastLessThanSuc flip: map_of_eq_None_iff)
  next
    case (Some u)
    obtain m q where u: "u = (m, q)" by (cases u)
    have "add_mset m (image_mset number_of (mset ?m)) = add_mset ?n (mset (waiting p))"
      using arg_cong [OF mset_update_present [OF Some [unfolded u]], of "image_mset number_of"] by (simp add: waiting_mset)
    then have "add_mset m (image_mset number_of (mset ?m) + mset (answered p)) = add_mset ?n (mset_set {0..<?n})"
      using assms by (metis router_ok_def union_mset_add_mset_left)
    then show ?thesis
      using assms Some u distinct_keys_update [of "pending_permissions p"]
      by (simp add: router_ok_def waiting_mset atLeastLessThanSuc)
  qed
  moreover have "map_of (pending_permissions ?q) (call_id r) = Some (?n, r)"
    by (auto simp: map_of_update split: option.split)
  ultimately have "router_ok (if listening then ?q
      else decide ?n Cancelled (?q\<lparr>pending_permissions := AList.delete (call_id r) (pending_permissions ?q)\<rparr>))"
    using ok_removed [of ?q "call_id r" ?n r Cancelled] by simp
  moreover have "receive_permission r listening p = (if listening then ?q
      else decide ?n Cancelled (?q\<lparr>pending_permissions := AList.delete (call_id r) (pending_permissions ?q)\<rparr>))"
    using None by (cases "map_of (pending_permissions p) (call_id r)")
      (auto simp: receive_permission_def Let_def map_of_update)
  ultimately show ?thesis by simp
qed

lemma cancelled_all:
  "pending_permissions (cancel_all_permissions p) = []" "arrived (cancel_all_permissions p) = arrived p"
  "answered (cancel_all_permissions p) = answered p @ waiting p"
proof -
  have "pending_permissions (fold (\<lambda>(call, n, r). decide n Cancelled) m q) = pending_permissions q"
    "arrived (fold (\<lambda>(call, n, r). decide n Cancelled) m q) = arrived q"
    "answered (fold (\<lambda>(call, n, r). decide n Cancelled) m q) = answered q @ map number_of m"
    for q and m :: "(string \<times> nat \<times> permission_request) list"
    by (induction m arbitrary: q) auto
  then show "pending_permissions (cancel_all_permissions p) = []" "arrived (cancel_all_permissions p) = arrived p"
    "answered (cancel_all_permissions p) = answered p @ waiting p"
    by (simp_all add: cancel_all_permissions_def waiting_def)
qed

lemma ok_step: "router_ok p \<Longrightarrow> router_ok (permission_step call p)"
proof (cases call)
  case (Permission_Arrives r listening)
  then show "router_ok p \<Longrightarrow> ?thesis" by (simp add: ok_received)
next
  case (Permission_Confirmed c option_id b)
  then show "router_ok p \<Longrightarrow> ?thesis"
    by (auto simp: confirm_permission_def ok_removed split: option.split)
next
  case Permissions_Cancelled
  then show "router_ok p \<Longrightarrow> ?thesis"
    by (simp add: router_ok_def cancelled_all waiting_def [of "cancel_all_permissions p"] add.commute)
next
  case Router_Closing
  then show "router_ok p \<Longrightarrow> ?thesis" by (simp add: router_ok_def set_closing_def waiting_def answered_def)
qed

lemma permissions_ok: "router_ok (run_permissions calls)"
proof -
  have "router_ok (fold permission_step calls p)" if "router_ok p" for p
    using that by (induction calls arbitrary: p) (simp_all add: ok_step)
  moreover have "router_ok router_new" by (simp add: router_ok_def router_new_def waiting_def answered_def)
  ultimately show ?thesis by (simp add: run_permissions_def)
qed

lemma ok_distinct:
  assumes "router_ok p"
  shows "distinct (waiting p @ answered p)" "set (waiting p @ answered p) = {0..<arrived p}"
proof -
  have all: "mset (waiting p @ answered p) = mset_set {0..<arrived p}" using assms by (simp add: router_ok_def)
  then show "set (waiting p @ answered p) = {0..<arrived p}"
    by (metis finite_atLeastLessThan finite_set_mset_mset_set set_mset_mset)
  have "mset (waiting p @ answered p) = mset [0..<arrived p]" using all by (simp add: mset_upt)
  then show "distinct (waiting p @ answered p)" by (metis distinct_upt mset_eq_imp_distinct_iff)
qed

text \<open>C14: Every permission request is answered once. Whatever requests arrive (several for one tool call included), are
  confirmed, approved by the router itself, or cancelled, each request that arrived either waits or has been
  answered, exactly once, and cancelling everything leaves none waiting.\<close>

theorem permission_answered_once:
  "distinct (waiting (run_permissions calls) @ answered (run_permissions calls))
    \<and> set (waiting (run_permissions calls) @ answered (run_permissions calls)) = {0..<arrived (run_permissions calls)}
    \<and> distinct (answered (cancel_all_permissions (run_permissions calls)))
    \<and> set (answered (cancel_all_permissions (run_permissions calls))) = {0..<arrived (run_permissions calls)}"
  using ok_distinct [OF permissions_ok [of calls]] by (auto simp: cancelled_all)

text \<open>What is approved without the user is an option of the request that allows.\<close>

lemma auto_approved_option_allows:
  assumes "auto_approve_option_id r = Some option_id"
  shows "\<exists>opt \<in> set (permission_options r). po_id opt = option_id \<and> po_kind opt \<in> {AllowOnce, AllowAlways}"
proof -
  have found: "find f xs = Some x \<Longrightarrow> f x \<and> x \<in> set xs" for f and xs :: "permission_option list" and x
    by (auto simp: find_Some_iff)
  show ?thesis
    using assms by (force simp: auto_approve_option_id_def select_allow_option_id_def
        split: option.splits if_splits dest: found)
qed

text \<open>
  The name of the server is read from the arguments of the tool call, which the agent writes: any tool whose
  arguments name the team server is approved without the user, whatever the tool is.
\<close>

lemma named_in_arguments_is_approved:
  assumes "raw_input r = Some (JObject m)" "fmlookup m ''server_name'' = Some (JString team_mcp_server_name)"
    and "list_ex (\<lambda>opt. po_kind opt \<in> {AllowOnce, AllowAlways}) (permission_options r)"
  shows "auto_approve_option_id (r\<lparr>tool_title := title\<rparr>) \<noteq> None"
proof -
  have "extract_mcp_server_name (r\<lparr>tool_title := title\<rparr>) = Some team_mcp_server_name"
    using assms(1,2) by (simp add: extract_mcp_server_name_def extract_mcp_server_from_raw_input_def team_mcp_server_name_def)
  moreover have "select_allow_option_id (r\<lparr>tool_title := title\<rparr>) \<noteq> None"
    using assms(3) by (cases "find (\<lambda>opt. po_kind opt = AllowOnce) (permission_options r)")
      (auto simp: select_allow_option_id_def find_None_iff list_ex_iff split: option.split)
  ultimately show ?thesis by (simp add: auto_approve_option_id_def)
qed

text \<open>A router that is closing routes requests as before: nothing reads the flag.\<close>

lemma closing_router_still_routes:
  "receive_permission r listening (set_closing p) = set_closing (receive_permission r listening p)"
  by (simp add: receive_permission_def set_closing_def decide_def Let_def split: option.split)

end
