(* ===== verification/Spec2Isabelle.thy ===== *)
theory Spec2Isabelle
  imports Session_Turns Orchestrator_Laws Team_Publish Message_History Message_Targets Turn_Laws Relay_Text Turn_Run_Laws Cron_Laws
    Acp_Laws Acp_Restart Acp_Permission
begin

text \<open>
  A verification library for the core logic of Ki-Core: the sessions of coding agents, the work of agent
  teams, the turns of conversations, the messages between conversations, the scheduled jobs and the managers of
  ACP agents. Every path below is under \<open>src/crates\<close>.

  \<^bold>\<open>The program.\<close> A backend connection (claude, codex, ACP) turns an agent process's output into session events.
  The session orchestrator folds them, one session at a time, with a pure reducer, and pushes snapshots of the
  state to subscribers. In a conversation a user's prompt claims the conversation's turn; the turn
  orchestrator builds the agent, sends the prompt and runs a relay that turns the agent's stream into frames
  for the user interface and rows of the message table; policies decide whether the turn goes on, is tried
  again, or its agent is evicted. Conversations message each other through a service that refuses, delivers
  over the human send path or queues for a drainer. A team of agents shares a work coordinator that turns
  mailbox messages into intents, hands out batches of them and reports to a run manager. The cron service
  keeps a timer per scheduled job; a tick claims the occurrence in the database under a lease, so that of
  several backend processes one runs it, hands the job's prompt to a conversation, records the result and
  arms the next timer. Behind a conversation with an agent of the Agent Client Protocol stands a manager with an
  aggregate of what the user wants, what the agent was last seen to have and what it offers; it opens, resumes or
  forks the agent's session, sets what is wanted, and its events are written to a table by a consumer with a
  debounce, from which the next manager of the conversation starts.

  \<^bold>\<open>Theories and sources.\<close>
  \<^item> \<open>Ki_Prelude\<close>: words with saturation, the two standard-library maps, queues, shared simplification
    rules; \<open>Ki_Text\<close>: \<open>trim\<close> and \<open>split_whitespace\<close> over the white space of Unicode in UTF-8, decimal printing
    and parsing of the standard library; \<open>Ki_Maps\<close>: association lists and multisets.
  \<^item> \<open>Session_Event\<close> (\<open>aionui-session/src/event.rs\<close>, \<open>capability.rs\<close>): the event vocabulary and its
    classification; \<open>Session_State\<close> (\<open>state.rs\<close>): the state machine's states and the derived flags;
    \<open>Session_Reducer\<close> (\<open>reducer.rs\<close>): \<open>step\<close>, one definition per arm; \<open>Session_Turns\<close>: whole turns of it.
  \<^item> \<open>Orchestrator\<close> (\<open>aionui-session/src/backend/orchestrator.rs\<close>, \<open>types.rs\<close>, \<open>rehydrate.rs\<close>): the fold loop,
    its caches, the background roster, restamping, subscriptions and lag recovery; \<open>Orchestrator_Laws\<close>: the
    loop refines one independent lane per session.
  \<^item> \<open>Work_Model\<close>, \<open>Work_State\<close>, \<open>Work_Coordinator\<close>, \<open>Work_Runtime\<close> (\<open>aionui-team/src/work_source.rs\<close>,
    \<open>work_coordinator/model.rs\<close>, \<open>coordinator.rs\<close>, \<open>snapshot.rs\<close>): the coordinator; a call is atomic as the
    lock makes it. \<open>Work_Placement\<close>, \<open>Work_Preserve\<close>, \<open>Work_Intake\<close>, \<open>Work_Reach\<close>: its invariant and that every
    operation keeps it; \<open>Work_History\<close>, \<open>Work_Laws\<close>, \<open>Work_Outcomes\<close>, \<open>Work_Boundary\<close>: what follows.
  \<^item> \<open>Team_Run\<close> (\<open>aionui-team/src/team_run/manager.rs\<close>): the run manager; \<open>Team_Laws\<close>: manager and
    coordinator together, when no two operations overlap; \<open>Team_Publish\<close>: the pair with the reports under way that
    the coordinator makes after it has released its lock, delivered in any order.
  \<^item> \<open>Message_Queue\<close> (\<open>aionui-session-message/src/queue.rs\<close>, \<open>drainer.rs\<close>, \<open>hook.rs\<close>), \<open>Message_Drain\<close> (laws of the
    drainer), \<open>Rate_Limit\<close> (\<open>rate_limit.rs\<close>), \<open>Message_Targets\<close> (\<open>targets.rs\<close>), \<open>Message_Service\<close>
    (\<open>service.rs\<close>, \<open>error.rs\<close>, \<open>routes.rs\<close>): messages between conversations; \<open>Message_History\<close>: sends, passes of the
    drainer and cancels side by side.
  \<^item> \<open>Conversation_Error\<close> (\<open>aionui-conversation/src/error.rs\<close>); \<open>Turn_Claims\<close> (\<open>runtime_state.rs\<close>): who holds a
    conversation's turn, with its lifecycle flags; \<open>Turn_Laws\<close>: histories of its calls.
  \<^item> \<open>Stream_Data\<close> (\<open>aionui-ai-agent/src/protocol/events\<close>, \<open>runtime_persistence.rs\<close>, the message table of
    \<open>aionui-db/src/repository/sqlite_conversation.rs\<close>), \<open>Stream_Relay\<close> (\<open>aionui-conversation/src/stream_relay.rs\<close>,
    \<open>stream_persistence.rs\<close>): the relay; \<open>Relay_Laws\<close>, \<open>Relay_Text\<close>: what it shows and stores.
  \<^item> \<open>Turn_Policies\<close> (\<open>turn_continuation_policy.rs\<close>, \<open>turn_recovery_policy.rs\<close>, \<open>agent_health_policy.rs\<close>,
    \<open>acp_error_recovery.rs\<close>), \<open>Turn_Run\<close> (\<open>turn_orchestrator.rs\<close>): a user turn; \<open>Turn_Run_Laws\<close>: what it
    guarantees.
  \<^item> \<open>Cron_Schedule\<close> (\<open>aionui-cron/src/scheduler.rs\<close>, \<open>error.rs\<close>): schedules and their next runs; \<open>Cron_Jobs\<close>
    (\<open>types.rs\<close>, \<open>aionui-db/src/models/cron_job.rs\<close>): jobs and their rows; \<open>Cron_Store\<close>
    (\<open>aionui-db/src/repository/sqlite_cron.rs\<close>): the tables of jobs and runs; \<open>Cron_Executor\<close>
    (\<open>executor.rs\<close>), \<open>Cron_Service\<close> (\<open>service.rs\<close>, the timers of \<open>scheduler.rs\<close>, \<open>events.rs\<close>): how an occurrence is
    claimed, run, recorded and rescheduled; \<open>Cron_Admin\<close> (\<open>service.rs\<close>): start-up, resume and what users ask for.
    \<open>Cron_Leases\<close>: histories of the run table under several processes; \<open>Cron_Reach\<close>: an invariant of both tables
    under every operation of the service; \<open>Cron_Laws\<close>: what follows for timers, retries and users.
  \<^item> \<open>Acp_Catalog\<close> (\<open>aionui-ai-agent/src/manager/acp/config_option_catalog.rs\<close>, \<open>config_options.rs\<close>,
    \<open>legacy_session_model.rs\<close>): the modes, models and options an agent offers; \<open>Acp_Session\<close> (\<open>session.rs\<close>): the
    aggregate; \<open>Acp_Reports\<close>: what its events say. \<open>Acp_Store\<close> (\<open>aionui-db/src/repository/sqlite_acp_session.rs\<close>):
    its table; \<open>Acp_Sync\<close> (\<open>persistence/acp_session_sync.rs\<close>): the consumer; \<open>Acp_Restart\<close>: what a restart finds.
    \<open>Acp_Error\<close> (\<open>protocol/error.rs\<close>, \<open>error.rs\<close>, \<open>error_mapping.rs\<close>): errors; \<open>Acp_World\<close> (\<open>mode_normalize.rs\<close>,
    \<open>agent_event_tracker.rs\<close>): the agent and the tasks beside the manager; \<open>Acp_Manager\<close> (\<open>agent_reconcile.rs\<close>,
    \<open>agent_session_flow.rs\<close>), \<open>Acp_Config\<close> (\<open>agent.rs\<close>): the manager; \<open>Acp_Frames\<close>, \<open>Acp_Laws\<close>: what it
    guarantees. \<open>Acp_Permission\<close> (\<open>permission_router.rs\<close>): permission requests.

  \<^bold>\<open>How the code is modelled.\<close> Structs are records, enums datatypes with the source's constructors, \<open>HashMap\<close>s
  association lists whose order stands for the iteration order, machine integers words. A lock is the
  atomicity of a call; what the code does after it has released the lock is a step of its own where a property
  depends on it (\<open>Team_Publish\<close>, \<open>Message_History\<close>). A call that may reach an \<open>expect\<close> returns an option whose \<^const>\<open>None\<close> is the panic.
  Tasks that run beside the modelled one are explicit: the drainer is given the queue operations that happen
  while a delivery is awaited (\<open>env_meanwhile\<close>), the relay and the turn read a runtime state from
  the environment at every point where the code reads it, so the theorems quantify over all interleavings
  of those reads. The cron service works on a world of tables, timers and sent events with a counter of
  calls; the environment says for each call what the clock shows and whether it fails, and a run takes as
  long as a function \<open>meanwhile\<close> of the world, in which anything else may happen. The manager of an ACP agent
  counts its looks at the environment: a request, a pause or a look at the connection takes the next number, and
  the environment says for each number what is answered and what the other tasks do to the session meanwhile.
  What is not under \<open>src\<close> or belongs to a part left out (database, agent processes, settings,
  clock, fresh identifiers, JSON) is a parameter: a function or a value of an environment record.

  \<^bold>\<open>What the lemmas show.\<close>
  \<^item> Sessions: the reducer is simulated by a five-phase machine, decides the output of a turn by one rule,
    opens the send lock in exactly the listed cases; the orchestrator keeps cached flags current, pushes every
    change, and keeps sessions apart. Interface: locale \<open>phase_reducer\<close>, interpreted as \<open>fsm\<close>.
  \<^item> Teams: the coordinator holds each unfinished intent exactly once, never panics under a well-behaved
    caller, claims exactly when it may, settles a batch once; a run shown as finished has no work, but for work it got
    while a report that it had none was under way (which the code allows: \<open>completed_run_with_work\<close>).
    Interface: locale \<open>run_causality\<close>, interpreted on the manager.
  \<^item> Messages: a send is refused with nothing handed over, or hands its message over once and answers what became
    of it; only deliverable messages are handed over, now or later; the limiter equals a count over the full log;
    the queue is bounded and drains in order without losing a message; pages enumerate the targets. Interface:
    locale \<open>target_inbox\<close>, interpreted as \<open>inbox\<close>.
  \<^item> Turns: a busy conversation has one owner and is freed by it; a user turn returns, is bounded,
    replays only an attempt that showed nothing the relay counts as output, reports its failure, and frees its claim.
  \<^item> Relay: an attempt said to be clean showed none of the frames counted as output (the cards of background workflows
    are not counted: \<open>workflow_shown_twice\<close>); errors are shown or handed back; text streamed live is
    the text stored; deletion stops the writes.
  \<^item> Cron: an occurrence is completed once and a lease keeps the other processes out; an unfinished run is
    found and can be claimed; a completed run arms the next of its grid or cron expression; a resume runs nothing missed; retries
    are bounded; rows read back; users do not touch each other's jobs. Interface: locale \<open>table_invariant\<close>,
    interpreted as \<open>readable\<close> and \<open>runs\<close>.
  \<^item> ACP agents: the events of a session tell every change of what was seen, and a restart finds the last of it;
    an option is confirmed only by what the session reports and the lease of the command is returned; a session
    the agent still has is not replaced, a refused fork opens nothing, reconciling is bounded; a permission request
    is answered once. Interfaces: locale \<open>session_store\<close>, interpreted on the table as \<open>acp_table\<close>, and locale
    \<open>session_part\<close> (a part of the aggregate the other tasks leave alone), interpreted as \<open>lease\<close> and \<open>session_id\<close>.

  \<^bold>\<open>Bounds and termination.\<close> The scan loop of \<open>list_targets\<close> carries the source's own bound (\<open>max_scans\<close> round
  trips) as its argument; \<open>follow\<close> takes fuel for the pages, and its theorem gives fuel that is enough. The loops
  of a turn are total functions: the sends decrease what is left of four continuations, the attempts the one
  replay. The relay is a function of the list of its iterations and returns \<^const>\<open>None\<close> while it still waits;
  \<open>failed_send_ends_relay\<close> and \<open>turn_returns\<close> say when it returns. The loop of a reconciliation carries the source's
  limit of eight actions; the loop that waits for an option looks every 50 ms for at most 10 s, so it is a total
  function with a measure of 200 looks. The deadlines of the consumer are inputs that may fall anywhere among the
  events.

  \<^bold>\<open>Not modelled.\<close> The wire protocols of the backends and of the ACP transport, the agent processes and their
  catalogue, the prompts an ACP manager sends and how it is cancelled and closed, the HTTP routes but for the error mapping of session messaging, the database but for the four message
  operations of the relay, the cron tables and the table of ACP sessions, the team session and its prompts, extensions, channels, projects, files,
  office documents, authentication and settings: input and output around the parts above, or bookkeeping over
  SQL. In the modelled parts: logging, metrics and feedback diagnostics, the rendering of frames and rows to
  JSON, an agent session title the relay writes to the conversation, the JSON of a conversation row a turn
  rewrites (workspace, session key, model seed; the turn's log says that it was written), and the spawned
  loop that ticks the drainer once a second. Of the cron crate: the prompt texts, skill files and their rows,
  trigger artifacts and skill suggestions, the helpers by which an agent manages the jobs of its own
  conversation, the clean-up after a conversation is deleted, and the tasks that sleep until a timer is due (a
  timer is its kind, its first tick and its interval). Cron expressions and time zones are read by crates
  outside the repository and are parameters; arithmetic on times wraps as in a release build.
\<close>

end
